(* ===== verification/Prelude.thy ===== *)
theory Prelude
  imports "HOL-Library.Word" "HOL-Library.Monad_Syntax"
begin

text \<open>
  Shared vocabulary of the development: the C scalar types, flag tests, the option
  monad used for code with undefined outcomes, byte strings with their little-endian
  encodings, patching a byte string in place, and singly linked chains.

  Conventions used by every theory:
  \<^item> a C pointer is a natural number, \<open>0\<close> is \<open>NULL\<close>;
  \<^item> a C operation that may have no defined result has type \<open>'a option\<close>: \<open>None\<close> says
    that the C code dereferences a null, dangling or out-of-bounds pointer, frees a wild
    pointer, or does not return (loops are \<open>partial_function (option)\<close>);
  \<^item> C \<open>int\<close>, whose overflow is undefined, is \<open>int\<close>; the unsigned types and the narrow
    signed ones, whose conversions wrap, are words of their width.  Types have the sizes
    of the 64-bit Windows target named by the README: \<open>long\<close> has 32 bits, a pointer 64.
\<close>

unbundle bit_operations_syntax

named_theorems mem_simps \<open>evaluation of memory primitives\<close>
named_theorems flag_simps \<open>evaluation of flag tests\<close>

type_synonym u_char = "8 word"
type_synonym u_short = "16 word"
type_synonym c_short = "16 word"
type_synonym u_int = "32 word"
type_synonym u_long = "32 word"
type_synonym addr = nat

section \<open>Option monad\<close>

definition guard :: "bool \<Rightarrow> unit option" where
  "guard b = (if b then Some () else None)"

lemma guard_simps [simp]:
  "guard True = Some ()" "guard False = None"
  "guard b = Some u \<longleftrightarrow> b" "guard b = None \<longleftrightarrow> \<not> b"
  by (simp_all add: guard_def)

lemma guard_bind [simp]: "guard b \<bind> f = (if b then f () else None)"
  by simp

section \<open>Flag words\<close>

text \<open>The C test \<open>flags & mask\<close> used as a condition.\<close>

definition has :: "'a::len word \<Rightarrow> 'a word \<Rightarrow> bool" where
  "has f m \<longleftrightarrow> f AND m \<noteq> 0"

lemma has_or: "has (f OR g) m \<longleftrightarrow> has f m \<or> has g m"
  unfolding has_def by (metis bit.conj_disj_distrib2 or_eq_0_iff)

lemma has_0 [simp]: "\<not> has 0 m" "\<not> has f 0"
  by (simp_all add: has_def)

lemma has_clear: "\<not> has (f AND NOT m) m"
  by (simp add: has_def ac_simps)

lemma has_clear_other: "k AND m = 0 \<Longrightarrow> has (f AND NOT m) k \<longleftrightarrow> has f k"
proof -
  assume km: "k AND m = 0"
  have "(f AND NOT m) AND k = f AND k"
  proof (rule bit_word_eqI)
    fix n assume "n < LENGTH('a)"
    from km have "\<not> (bit k n \<and> bit m n)"
      by (metis bit_0_eq bit_and_iff bot_apply bot_bool_def)
    then show "bit ((f AND NOT m) AND k) n = bit (f AND k) n"
      by (auto simp: bit_simps \<open>n < LENGTH('a)\<close>)
  qed
  then show ?thesis by (simp add: has_def)
qed

section \<open>Byte strings\<close>

text \<open>Little-endian encoding of a number into \<open>k\<close> bytes.\<close>

primrec nat_le :: "nat \<Rightarrow> nat \<Rightarrow> u_char list" where
  "nat_le 0 x = []"
| "nat_le (Suc k) x = word_of_nat (x mod 256) # nat_le k (x div 256)"

primrec le_nat :: "u_char list \<Rightarrow> nat" where
  "le_nat [] = 0"
| "le_nat (b # bs) = unat b + 256 * le_nat bs"

lemma length_nat_le [simp]: "length (nat_le k x) = k"
  by (induction k arbitrary: x) auto

lemma le_nat_nat_le: "x < 256 ^ k \<Longrightarrow> le_nat (nat_le k x) = x"
proof (induction k arbitrary: x)
  case 0
  then show ?case by simp
next
  case (Suc k)
  from Suc.prems have "x div 256 < 256 ^ k"
    by (simp add: less_mult_imp_div_less mult.commute)
  then have "le_nat (nat_le k (x div 256)) = x div 256" by (rule Suc.IH)
  moreover have "unat (word_of_nat (x mod 256) :: u_char) = x mod 256"
    by (simp add: unat_of_nat take_bit_eq_mod)
  ultimately show ?case by simp
qed

text \<open>Overwriting part of a byte string in place.\<close>

definition patch :: "'a list \<Rightarrow> nat \<Rightarrow> 'a list \<Rightarrow> 'a list" where
  "patch xs off ys = take off xs @ ys @ drop (off + length ys) xs"

definition slice :: "nat \<Rightarrow> nat \<Rightarrow> 'a list \<Rightarrow> 'a list" where
  "slice off n xs = take n (drop off xs)"

lemma length_patch [simp]:
  "off + length ys \<le> length xs \<Longrightarrow> length (patch xs off ys) = length xs"
  by (simp add: patch_def)

lemma length_slice [simp]: "off + n \<le> length xs \<Longrightarrow> length (slice off n xs) = n"
  by (simp add: slice_def)

lemma patch_Nil [simp]: "patch xs off [] = xs"
  by (simp add: patch_def)

lemma slice_0 [simp]: "slice off 0 xs = []"
  by (simp add: slice_def)

lemma slice_patch_same:
  "off + length ys \<le> length xs \<Longrightarrow> n = length ys \<Longrightarrow> slice off n (patch xs off ys) = ys"
  by (simp add: slice_def patch_def)

lemma slice_patch_before:
  "off' + n \<le> off \<Longrightarrow> off + length ys \<le> length xs \<Longrightarrow>
   slice off' n (patch xs off ys) = slice off' n xs"
  by (simp add: slice_def patch_def take_drop min_def)

lemma slice_patch_after:
  "off + length ys \<le> off' \<Longrightarrow> off + length ys \<le> length xs \<Longrightarrow>
   slice off' n (patch xs off ys) = slice off' n xs"
  by (simp add: slice_def patch_def)

lemma slice_append:
  "slice off (m + n) xs = slice off m xs @ slice (off + m) n xs"
  by (simp add: slice_def take_add add.commute)

section \<open>Singly linked chains\<close>

text \<open>
  \<open>chain nxt p as\<close>: following the link field from \<open>p\<close> visits exactly the addresses
  \<open>as\<close> and then \<open>NULL\<close>; \<open>nxt a\<close> is \<open>None\<close> where no object is allocated at \<open>a\<close>.
\<close>

primrec chain :: "(addr \<Rightarrow> addr option) \<Rightarrow> addr \<Rightarrow> addr list \<Rightarrow> bool" where
  "chain nxt p [] \<longleftrightarrow> p = 0"
| "chain nxt p (a # as) \<longleftrightarrow> p = a \<and> a \<noteq> 0 \<and>
     (case nxt a of None \<Rightarrow> False | Some q \<Rightarrow> chain nxt q as)"

text \<open>A chain prefix that stops at an arbitrary pointer.\<close>

primrec path :: "(addr \<Rightarrow> addr option) \<Rightarrow> addr \<Rightarrow> addr list \<Rightarrow> addr \<Rightarrow> bool" where
  "path nxt p [] q \<longleftrightarrow> p = q"
| "path nxt p (a # as) q \<longleftrightarrow> p = a \<and> a \<noteq> 0 \<and>
     (case nxt a of None \<Rightarrow> False | Some r \<Rightarrow> path nxt r as q)"

lemma chain_0 [simp]: "chain nxt 0 as \<longleftrightarrow> as = []"
  by (cases as) auto

lemma chain_path: "chain nxt p as \<longleftrightarrow> path nxt p as 0"
  by (induction as arbitrary: p) (auto split: option.splits)

lemma path_append:
  "path nxt p (as @ bs) q \<longleftrightarrow> (\<exists>r. path nxt p as r \<and> path nxt r bs q)"
  by (induction as arbitrary: p) (auto split: option.splits)

lemma chain_append:
  "chain nxt p (as @ bs) \<longleftrightarrow> (\<exists>r. path nxt p as r \<and> chain nxt r bs)"
  by (simp add: chain_path path_append)

lemma chain_cong:
  "(\<And>a. a \<in> set as \<Longrightarrow> nxt' a = nxt a) \<Longrightarrow> chain nxt' p as \<longleftrightarrow> chain nxt p as"
  by (induction as arbitrary: p) (auto split: option.splits)

lemma path_cong:
  "(\<And>a. a \<in> set as \<Longrightarrow> nxt' a = nxt a) \<Longrightarrow> path nxt' p as q \<longleftrightarrow> path nxt p as q"
  by (induction as arbitrary: p) (auto split: option.splits)

lemma chain_unique: "chain nxt p as \<Longrightarrow> chain nxt p bs \<Longrightarrow> as = bs"
proof (induction as arbitrary: p bs)
  case Nil
  then show ?case by simp
next
  case (Cons a as)
  then show ?case by (cases bs) (auto split: option.splits)
qed

lemma chain_Cons_iff:
  "p \<noteq> 0 \<Longrightarrow> chain nxt p as \<longleftrightarrow>
     (\<exists>q as'. as = p # as' \<and> nxt p = Some q \<and> chain nxt q as')"
  by (cases as) (auto split: option.splits)

lemma chain_notin_tl: "chain nxt p (p # as) \<Longrightarrow> p \<notin> set as"
proof
  assume c: "chain nxt p (p # as)" and "p \<in> set as"
  then obtain xs ys where as: "as = xs @ p # ys" by (auto simp: in_set_conv_decomp)
  from c have "chain nxt p ((p # xs) @ p # ys)" by (simp add: as)
  then have "chain nxt p (p # ys)"
    unfolding chain_append by (auto split: option.splits)
  from chain_unique [OF c this] have "as = ys" by simp
  with as show False by simp
qed

lemma chain_distinct: "chain nxt p as \<Longrightarrow> distinct as"
proof (induction as arbitrary: p)
  case Nil
  then show ?case by simp
next
  case (Cons a as)
  then show ?case using chain_notin_tl [of nxt a as] by (auto split: option.splits)
qed

lemma chain_alloc: "chain nxt p as \<Longrightarrow> a \<in> set as \<Longrightarrow> a \<noteq> 0 \<and> nxt a \<noteq> None"
  by (induction as arbitrary: p) (auto split: option.splits)

lemma chain_snoc_upd:
  assumes "path nxt p as a" "a \<noteq> 0" "a \<notin> set as" "chain nxt q bs" "a \<notin> set bs"
  shows "chain (nxt(a \<mapsto> q)) p (as @ a # bs)"
proof -
  have "path (nxt(a \<mapsto> q)) p as a"
    using assms by (subst path_cong [of _ _ nxt]) auto
  moreover have "chain (nxt(a \<mapsto> q)) q bs"
    using assms by (subst chain_cong [of _ _ nxt]) auto
  ultimately show ?thesis using assms by (auto simp: chain_append)
qed

text \<open>
  The loop every list search of the code has, \<open>for (p = head; p; p = p->next) if (test p)
  return p; return NULL;\<close>, as a locale: a client gives the link and test of an
  object and its own loop with the two unfolding laws, and gets the result of the loop.
\<close>

locale list_search =
  fixes nxt :: "addr \<Rightarrow> addr option"
    and test :: "addr \<Rightarrow> bool option"
    and srch :: "addr \<Rightarrow> addr option"
  assumes srch_null: "srch 0 = Some 0"
    and srch_step: "p \<noteq> 0 \<Longrightarrow> nxt p = Some q \<Longrightarrow> test p = Some b \<Longrightarrow>
      srch p = (if b then Some p else srch q)"
begin

lemma srch_chain:
  assumes "chain nxt p as" and "\<And>a. a \<in> set as \<Longrightarrow> test a \<noteq> None"
  shows "srch p = Some (case find (\<lambda>a. test a = Some True) as of None \<Rightarrow> 0 | Some a \<Rightarrow> a)"
  using assms
proof (induction as arbitrary: p)
  case Nil
  then show ?case by (simp add: srch_null)
next
  case (Cons a as)
  from Cons.prems(1) obtain q where a: "p = a" "a \<noteq> 0" and q: "nxt a = Some q" "chain nxt q as"
    by (auto split: option.splits)
  from Cons.prems(2) obtain b where b: "test a = Some b" by fastforce
  have IH: "srch q = Some (case find (\<lambda>a. test a = Some True) as of None \<Rightarrow> 0 | Some a \<Rightarrow> a)"
    using Cons.IH [OF q(2)] Cons.prems(2) by simp
  show ?case using srch_step [OF a(2) q(1) b] IH a b by simp
qed

lemma srch_found:
  assumes "chain nxt p as" "\<And>a. a \<in> set as \<Longrightarrow> test a \<noteq> None" "srch p = Some r" "r \<noteq> 0"
  shows "r \<in> set as \<and> test r = Some True"
proof -
  from srch_chain [OF assms(1,2)] assms(3,4)
  have "find (\<lambda>a. test a = Some True) as = Some r"
    by (auto split: option.splits)
  then show ?thesis by (auto simp: find_Some_iff)
qed

lemma srch_not_found:
  assumes "chain nxt p as" "\<And>a. a \<in> set as \<Longrightarrow> test a \<noteq> None"
  shows "srch p = Some 0 \<longleftrightarrow> (\<forall>a\<in>set as. test a \<noteq> Some True)"
proof -
  have nz: "0 \<notin> set as" using chain_alloc [OF assms(1)] by blast
  show ?thesis
  proof (cases "find (\<lambda>a. test a = Some True) as")
    case None
    then have "\<forall>a\<in>set as. test a \<noteq> Some True" by (auto simp: find_None_iff)
    with None show ?thesis using srch_chain [OF assms] by simp
  next
    case (Some r)
    then have "r \<in> set as" "test r = Some True" by (auto simp: find_Some_iff)
    with Some nz show ?thesis using srch_chain [OF assms] by auto
  qed
qed

end

declare chain.simps(2) [simp del]
declare path.simps(2) [simp del]

end
