(* ===== verification/Mem.thy ===== *)
theory Mem
  imports Prelude
begin

text \<open>
  The C heap that the network buffers live in: \<open>sys/mbuf.h\<close>'s \<open>struct mbuf\<close> as a
  record whose union \<open>M_dat\<close> is its 88 raw bytes (the packet header, the external
  storage descriptor and the data area overlay each other there, as in C), raw byte
  blocks for clusters and caller buffers, \<open>malloc\<close>/\<open>free\<close>, and \<open>memcpy\<close>/\<open>memset\<close> with
  the bounds, liveness and overlap conditions that give them a defined result.

  Each malloc'd block starts at its own multiple of 4096, so a pointer is a flat number
  from which both the block (\<open>block_of\<close>) and the offset are read off; \<open>malloc\<close> hands out
  blocks in order until \<open>mm_quota\<close> requests were served and then returns \<open>NULL\<close>.  What a
  fresh block holds is \<open>mm_junk\<close>, which nothing is assumed of.
\<close>

section \<open>Layout constants\<close>

definition sizeof_m_hdr :: int where [simp]: "sizeof_m_hdr = 40"
definition sizeof_pkthdr :: int where [simp]: "sizeof_pkthdr = 16"
definition MSIZE :: int where [simp]: "MSIZE = 128"
definition MLEN :: int where [simp]: "MLEN = MSIZE - sizeof_m_hdr"
definition MHLEN :: int where [simp]: "MHLEN = MLEN - sizeof_pkthdr"
definition MINCLSIZE :: int where [simp]: "MINCLSIZE = MHLEN + MLEN"
definition MCLBYTES :: int where [simp]: "MCLBYTES = 2048"

definition M_EXT :: c_short where "M_EXT = 0x0001"
definition M_PKTHDR :: c_short where "M_PKTHDR = 0x0002"
definition M_EOR :: c_short where "M_EOR = 0x0004"
definition M_BCAST :: c_short where "M_BCAST = 0x0100"
definition M_MCAST :: c_short where "M_MCAST = 0x0200"
definition M_COPYFLAGS :: c_short where
  "M_COPYFLAGS = M_PKTHDR OR M_EOR OR M_BCAST OR M_MCAST"

lemmas m_flag_defs = M_EXT_def M_PKTHDR_def M_EOR_def M_BCAST_def M_MCAST_def M_COPYFLAGS_def

lemma m_flags_has [flag_simps, simp]:
  "has M_PKTHDR M_PKTHDR" "\<not> has M_PKTHDR M_EXT" "has M_EXT M_EXT" "\<not> has M_EXT M_PKTHDR"
  by (simp_all add: has_def m_flag_defs)

section \<open>State\<close>

text \<open>\<open>struct m_hdr\<close> inlined, and the union \<open>M_dat\<close> as bytes.\<close>

record mbuf =
  m_next :: addr
  m_nextpkt :: addr
  m_len :: int
  m_data :: addr
  m_type :: c_short
  m_flags :: c_short
  m_dat :: "u_char list"

record mem =
  mm_mbuf :: "addr \<Rightarrow> mbuf option"
  mm_buf :: "addr \<Rightarrow> u_char list option"
  mm_next :: nat
  mm_quota :: nat
  mm_junk :: "nat \<Rightarrow> u_char"

definition wf_mem :: "mem \<Rightarrow> bool" where
  "wf_mem h \<longleftrightarrow> 1 \<le> mm_next h
     \<and> (\<forall>a b. mm_mbuf h a = Some b \<longrightarrow>
          a \<noteq> 0 \<and> a mod 4096 = 0 \<and> a div 4096 < mm_next h \<and> length (m_dat b) = 88 \<and> mm_buf h a = None)
     \<and> (\<forall>a bs. mm_buf h a = Some bs \<longrightarrow>
          a \<noteq> 0 \<and> a mod 4096 = 0 \<and> a div 4096 < mm_next h \<and> length bs \<le> 4096)"

section \<open>Loads and stores of mbufs\<close>

definition ld :: "mem \<Rightarrow> addr \<Rightarrow> mbuf option" where
  "ld h p = (if p = 0 then None else mm_mbuf h p)"

definition st :: "mem \<Rightarrow> addr \<Rightarrow> mbuf \<Rightarrow> mem" where
  "st h p b = h\<lparr>mm_mbuf := (mm_mbuf h)(p := Some b)\<rparr>"

definition upd :: "mem \<Rightarrow> addr \<Rightarrow> (mbuf \<Rightarrow> mbuf) \<Rightarrow> mem option" where
  "upd h p f = (case ld h p of None \<Rightarrow> None | Some b \<Rightarrow> Some (st h p (f b)))"

definition m_next_of :: "mem \<Rightarrow> addr \<Rightarrow> addr option" where
  "m_next_of h a = map_option m_next (ld h a)"

abbreviation mchain :: "mem \<Rightarrow> addr \<Rightarrow> addr list \<Rightarrow> bool" where
  "mchain h \<equiv> chain (m_next_of h)"

section \<open>Fields of the union\<close>

definition mtod_dat :: "addr \<Rightarrow> addr" where [simp]: "mtod_dat p = p + 40"
definition mtod_pktdat :: "addr \<Rightarrow> addr" where [simp]: "mtod_pktdat p = p + 56"

definition pk_len :: "mbuf \<Rightarrow> int" where
  "pk_len b = sint (word_of_nat (le_nat (slice 0 4 (m_dat b))) :: 32 word)"

definition set_pk_len :: "int \<Rightarrow> mbuf \<Rightarrow> mbuf" where
  "set_pk_len v b = b\<lparr>m_dat := patch (m_dat b) 0 (nat_le 4 (unat (word_of_int v :: 32 word)))\<rparr>"

definition pk_rcvif :: "mbuf \<Rightarrow> addr" where
  "pk_rcvif b = le_nat (slice 8 8 (m_dat b))"

definition set_pk_rcvif :: "addr \<Rightarrow> mbuf \<Rightarrow> mbuf" where
  "set_pk_rcvif v b = b\<lparr>m_dat := patch (m_dat b) 8 (nat_le 8 v)\<rparr>"

definition ext_buf :: "mbuf \<Rightarrow> addr" where
  "ext_buf b = le_nat (slice 16 8 (m_dat b))"

definition set_ext_buf :: "addr \<Rightarrow> mbuf \<Rightarrow> mbuf" where
  "set_ext_buf v b = b\<lparr>m_dat := patch (m_dat b) 16 (nat_le 8 v)\<rparr>"

definition ext_free :: "mbuf \<Rightarrow> addr" where
  "ext_free b = le_nat (slice 24 8 (m_dat b))"

text \<open>The 16 bytes of the packet header, for structure assignment.\<close>

definition copy_pkthdr :: "mbuf \<Rightarrow> mbuf \<Rightarrow> mbuf" where
  "copy_pkthdr from to = to\<lparr>m_dat := patch (m_dat to) 0 (slice 0 16 (m_dat from))\<rparr>"

section \<open>malloc and free\<close>

definition malloc_ok :: "mem \<Rightarrow> bool" where
  "malloc_ok h \<longleftrightarrow> 0 < mm_quota h \<and> mm_next h < 2 ^ 50"

definition fresh :: "mem \<Rightarrow> addr" where
  "fresh h = 4096 * mm_next h"

definition took :: "mem \<Rightarrow> mem" where
  "took h = h\<lparr>mm_next := mm_next h + 1, mm_quota := mm_quota h - 1\<rparr>"

definition junk_bytes :: "mem \<Rightarrow> nat \<Rightarrow> u_char list" where
  "junk_bytes h n = map (mm_junk h) [0..<n]"

text \<open>\<open>malloc(sizeof(struct mbuf))\<close>: the header fields, like the data, are whatever the block holds; the
  allocation macros set them.\<close>

definition malloc_mbuf :: "mem \<Rightarrow> addr \<times> mem" where
  "malloc_mbuf h = (if malloc_ok h
     then (fresh h, st (took h) (fresh h)
             \<lparr>m_next = unat (mm_junk h 88), m_nextpkt = unat (mm_junk h 89), m_len = uint (mm_junk h 90),
              m_data = unat (mm_junk h 91), m_type = ucast (mm_junk h 92), m_flags = ucast (mm_junk h 93),
              m_dat = junk_bytes h 88\<rparr>)
     else (0, h))"

definition malloc_buf :: "nat \<Rightarrow> mem \<Rightarrow> addr \<times> mem" where
  "malloc_buf n h = (if malloc_ok h \<and> n \<le> 4096
     then (fresh h, (took h)\<lparr>mm_buf := (mm_buf h)(fresh h := Some (junk_bytes h n))\<rparr>)
     else (0, h))"

definition free_ptr :: "mem \<Rightarrow> addr \<Rightarrow> mem option" where
  "free_ptr h p =
     (if p = 0 then Some h
      else if mm_mbuf h p \<noteq> None then Some (h\<lparr>mm_mbuf := (mm_mbuf h)(p := None)\<rparr>)
      else if mm_buf h p \<noteq> None then Some (h\<lparr>mm_buf := (mm_buf h)(p := None)\<rparr>)
      else None)"

section \<open>Byte access\<close>

definition block_of :: "addr \<Rightarrow> addr" where
  "block_of p = p - p mod 4096"

definition rd :: "mem \<Rightarrow> addr \<Rightarrow> nat \<Rightarrow> u_char list option" where
  "rd h p n =
     (if n = 0 then Some []
      else case ld h (block_of p) of
        Some b \<Rightarrow> (if 40 \<le> p mod 4096 \<and> p mod 4096 - 40 + n \<le> length (m_dat b)
                   then Some (slice (p mod 4096 - 40) n (m_dat b)) else None)
      | None \<Rightarrow> (case mm_buf h (block_of p) of
          Some bs \<Rightarrow> (if p mod 4096 + n \<le> length bs then Some (slice (p mod 4096) n bs) else None)
        | None \<Rightarrow> None))"

definition wr :: "mem \<Rightarrow> addr \<Rightarrow> u_char list \<Rightarrow> mem option" where
  "wr h p xs =
     (if xs = [] then Some h
      else case ld h (block_of p) of
        Some b \<Rightarrow> (if 40 \<le> p mod 4096 \<and> p mod 4096 - 40 + length xs \<le> length (m_dat b)
                   then Some (st h (block_of p)
                          (b\<lparr>m_dat := patch (m_dat b) (p mod 4096 - 40) xs\<rparr>)) else None)
      | None \<Rightarrow> (case mm_buf h (block_of p) of
          Some bs \<Rightarrow> (if p mod 4096 + length xs \<le> length bs
                      then Some (h\<lparr>mm_buf := (mm_buf h)(block_of p := Some (patch bs (p mod 4096) xs))\<rparr>)
                      else None)
        | None \<Rightarrow> None))"

text \<open>The length argument is a \<open>size_t\<close>: a negative \<open>int\<close> becomes a huge count.\<close>

definition memcpy :: "mem \<Rightarrow> addr \<Rightarrow> addr \<Rightarrow> int \<Rightarrow> mem option" where
  "memcpy h dst src n =
     (if n = 0 then Some h
      else if n < 0 \<or> (int dst < int src + n \<and> int src < int dst + n) then None
      else do { xs \<leftarrow> rd h src (nat n); wr h dst xs })"

definition memset0 :: "mem \<Rightarrow> addr \<Rightarrow> int \<Rightarrow> mem option" where
  "memset0 h dst n = (if n < 0 then None else wr h dst (replicate (nat n) 0))"

definition ptr_add :: "addr \<Rightarrow> int \<Rightarrow> addr" where
  "ptr_add p n = nat (int p + n)"


section \<open>Facts about loads and stores\<close>

lemma st_simps [simp]:
  "mm_buf (st h p b) = mm_buf h" "mm_next (st h p b) = mm_next h"
  "mm_quota (st h p b) = mm_quota h" "mm_junk (st h p b) = mm_junk h"
  "mm_mbuf (st h p b) = (mm_mbuf h)(p := Some b)"
  by (simp_all add: st_def)

lemma ld_0 [simp]: "ld h 0 = None"
  by (simp add: ld_def)

lemma ld_nz: "ld h p = Some b \<Longrightarrow> p \<noteq> 0"
  by (auto simp: ld_def split: if_splits)

lemma ld_st: "ld (st h p b) q = (if q = p \<and> p \<noteq> 0 then Some b else ld h q)"
  by (auto simp: ld_def)

lemma ld_st_same [simp]: "p \<noteq> 0 \<Longrightarrow> ld (st h p b) p = Some b"
  by (simp add: ld_st)

lemma ld_st_other [simp]: "q \<noteq> p \<Longrightarrow> ld (st h p b) q = ld h q"
  by (simp add: ld_st)

lemma st_st [simp]: "st (st h p b) p c = st h p c"
  by (simp add: st_def)

lemma st_ld: "ld h p = Some b \<Longrightarrow> st h p b = h"
  by (auto simp: ld_def st_def fun_upd_idem split: if_splits)

lemma upd_eq: "ld h p = Some b \<Longrightarrow> upd h p f = Some (st h p (f b))"
  by (simp add: upd_def)

lemma upd_None: "ld h p = None \<Longrightarrow> upd h p f = None"
  by (simp add: upd_def)

lemma upd_SomeD: "upd h p f = Some h' \<Longrightarrow> \<exists>b. ld h p = Some b \<and> h' = st h p (f b)"
  by (auto simp: upd_def split: option.splits)

lemma m_next_of_st:
  "m_next_of (st h p b) q = (if q = p \<and> p \<noteq> 0 then Some (m_next b) else m_next_of h q)"
  by (simp add: m_next_of_def ld_st)

lemma m_next_of_Some: "m_next_of h p = Some q \<longleftrightarrow> (\<exists>b. ld h p = Some b \<and> m_next b = q)"
  by (auto simp: m_next_of_def)

lemma mchain_Cons:
  "mchain h p (a # as) \<longleftrightarrow> p = a \<and> (\<exists>b. ld h a = Some b \<and> mchain h (m_next b) as)"
  by (auto simp: chain.simps m_next_of_def dest: ld_nz split: option.splits)

lemma mchain_nz:
  "p \<noteq> 0 \<Longrightarrow> mchain h p as \<longleftrightarrow>
     (\<exists>b as'. as = p # as' \<and> ld h p = Some b \<and> mchain h (m_next b) as')"
  by (auto simp: chain_Cons_iff m_next_of_def)

lemma mchain_ld: "mchain h p as \<Longrightarrow> a \<in> set as \<Longrightarrow> \<exists>b. ld h a = Some b"
  by (drule (1) chain_alloc) (auto simp: m_next_of_def)

lemma mchain_cong:
  "(\<And>a. a \<in> set as \<Longrightarrow> m_next_of h' a = m_next_of h a) \<Longrightarrow> mchain h' p as \<longleftrightarrow> mchain h p as"
  by (rule chain_cong)

lemma mchain_st_notin: "a \<notin> set as \<Longrightarrow> mchain (st h a b) p as \<longleftrightarrow> mchain h p as"
  by (rule mchain_cong) (auto simp: m_next_of_st)

lemma mchain_st_same:
  "ld h a = Some b \<Longrightarrow> m_next b' = m_next b \<Longrightarrow> mchain (st h a b') p as \<longleftrightarrow> mchain h p as"
  by (rule mchain_cong) (auto simp: m_next_of_def ld_st)

section \<open>Facts about the union\<close>

text \<open>An mbuf whose union has its 88 bytes.\<close>

definition full :: "mbuf \<Rightarrow> bool" where
  "full b \<longleftrightarrow> length (m_dat b) = 88"

lemma set_pk_simps [simp]:
  "m_next (set_pk_len v b) = m_next b" "m_nextpkt (set_pk_len v b) = m_nextpkt b"
  "m_len (set_pk_len v b) = m_len b" "m_data (set_pk_len v b) = m_data b"
  "m_type (set_pk_len v b) = m_type b" "m_flags (set_pk_len v b) = m_flags b"
  "m_next (set_pk_rcvif w b) = m_next b" "m_nextpkt (set_pk_rcvif w b) = m_nextpkt b"
  "m_len (set_pk_rcvif w b) = m_len b" "m_data (set_pk_rcvif w b) = m_data b"
  "m_type (set_pk_rcvif w b) = m_type b" "m_flags (set_pk_rcvif w b) = m_flags b"
  "m_next (copy_pkthdr c b) = m_next b" "m_nextpkt (copy_pkthdr c b) = m_nextpkt b"
  "m_len (copy_pkthdr c b) = m_len b" "m_data (copy_pkthdr c b) = m_data b"
  "m_type (copy_pkthdr c b) = m_type b" "m_flags (copy_pkthdr c b) = m_flags b"
  by (simp_all add: set_pk_len_def set_pk_rcvif_def copy_pkthdr_def)

lemma full_set [simp]:
  "full b \<Longrightarrow> full (set_pk_len v b)" "full b \<Longrightarrow> full (set_pk_rcvif w b)"
  "full b \<Longrightarrow> full c \<Longrightarrow> full (copy_pkthdr c b)"
  by (simp_all add: full_def set_pk_len_def set_pk_rcvif_def copy_pkthdr_def)

lemma full_upd [simp]:
  "full (b\<lparr>m_next := a\<rparr>) = full b" "full (b\<lparr>m_nextpkt := a\<rparr>) = full b"
  "full (b\<lparr>m_len := l\<rparr>) = full b" "full (b\<lparr>m_data := a\<rparr>) = full b"
  "full (b\<lparr>m_type := t\<rparr>) = full b" "full (b\<lparr>m_flags := t\<rparr>) = full b"
  by (simp_all add: full_def)

lemma pk_upd [simp]:
  "pk_len (b\<lparr>m_next := a\<rparr>) = pk_len b" "pk_len (b\<lparr>m_nextpkt := a\<rparr>) = pk_len b"
  "pk_len (b\<lparr>m_len := l\<rparr>) = pk_len b" "pk_len (b\<lparr>m_data := a\<rparr>) = pk_len b"
  "pk_len (b\<lparr>m_type := t\<rparr>) = pk_len b" "pk_len (b\<lparr>m_flags := t\<rparr>) = pk_len b"
  "pk_rcvif (b\<lparr>m_next := a\<rparr>) = pk_rcvif b" "pk_rcvif (b\<lparr>m_nextpkt := a\<rparr>) = pk_rcvif b"
  "pk_rcvif (b\<lparr>m_len := l\<rparr>) = pk_rcvif b" "pk_rcvif (b\<lparr>m_data := a\<rparr>) = pk_rcvif b"
  "pk_rcvif (b\<lparr>m_type := t\<rparr>) = pk_rcvif b" "pk_rcvif (b\<lparr>m_flags := t\<rparr>) = pk_rcvif b"
  by (simp_all add: pk_len_def pk_rcvif_def)

definition int32 :: "int \<Rightarrow> bool" where
  "int32 v \<longleftrightarrow> - (2 ^ 31) \<le> v \<and> v < 2 ^ 31"

lemma sint_word_of_int32: "int32 v \<Longrightarrow> sint (word_of_int v :: 32 word) = v"
  by (simp add: int32_def sint_sbintrunc' signed_take_bit_int_eq_self)

lemma pk_len_set [simp]:
  assumes "full b" "int32 v"
  shows "pk_len (set_pk_len v b) = v"
proof -
  let ?w = "word_of_int v :: 32 word"
  have lt: "unat ?w < 256 ^ 4"
    using unsigned_less [of ?w, where 'a = nat] by simp
  have "slice 0 4 (patch (m_dat b) 0 (nat_le 4 (unat ?w))) = nat_le 4 (unat ?w)"
    using assms(1) by (intro slice_patch_same) (auto simp: full_def)
  then have "pk_len (set_pk_len v b) = sint (word_of_nat (unat ?w) :: 32 word)"
    by (simp add: pk_len_def set_pk_len_def le_nat_nat_le [OF lt])
  also have "\<dots> = v" using sint_word_of_int32 [OF assms(2)] by simp
  finally show ?thesis .
qed

lemma pk_rcvif_set [simp]:
  assumes "full b" "v < 2 ^ 64"
  shows "pk_rcvif (set_pk_rcvif v b) = v"
proof -
  have "slice 8 8 (patch (m_dat b) 8 (nat_le 8 v)) = nat_le 8 v"
    using assms(1) by (intro slice_patch_same) (auto simp: full_def)
  then show ?thesis using assms(2) by (simp add: pk_rcvif_def set_pk_rcvif_def le_nat_nat_le)
qed

lemma ext_buf_set [simp]:
  assumes "full b" "v < 2 ^ 64"
  shows "ext_buf (set_ext_buf v b) = v"
proof -
  have "slice 16 8 (patch (m_dat b) 16 (nat_le 8 v)) = nat_le 8 v"
    using assms(1) by (intro slice_patch_same) (auto simp: full_def)
  then show ?thesis using assms(2) by (simp add: ext_buf_def set_ext_buf_def le_nat_nat_le)
qed

lemma pk_len_set_rcvif [simp]: "full b \<Longrightarrow> pk_len (set_pk_rcvif v b) = pk_len b"
  by (simp add: pk_len_def set_pk_rcvif_def full_def slice_patch_before)

lemma pk_rcvif_set_len [simp]: "full b \<Longrightarrow> pk_rcvif (set_pk_len v b) = pk_rcvif b"
  by (simp add: pk_rcvif_def set_pk_len_def full_def slice_patch_after)

lemma slice_slice: "n + m \<le> k \<Longrightarrow> slice n m (slice off k xs) = slice (off + n) m xs"
  by (simp add: slice_def drop_take min_def add.commute)

lemma pk_copy [simp]:
  assumes "full b" "full c"
  shows "pk_len (copy_pkthdr c b) = pk_len c" "pk_rcvif (copy_pkthdr c b) = pk_rcvif c"
proof -
  have "slice 0 16 (patch (m_dat b) 0 (slice 0 16 (m_dat c))) = slice 0 16 (m_dat c)"
    using assms by (intro slice_patch_same) (auto simp: full_def)
  then have s: "slice n m (patch (m_dat b) 0 (slice 0 16 (m_dat c))) = slice n m (m_dat c)"
    if "n + m \<le> 16" for n m
    using slice_slice [OF that, of 0 "patch (m_dat b) 0 (slice 0 16 (m_dat c))"]
      slice_slice [OF that, of 0 "m_dat c"] by simp
  show "pk_len (copy_pkthdr c b) = pk_len c" "pk_rcvif (copy_pkthdr c b) = pk_rcvif c"
    by (simp_all add: pk_len_def pk_rcvif_def copy_pkthdr_def s)
qed

lemma malloc_st [simp]:
  "malloc_ok (st h p b) = malloc_ok h" "fresh (st h p b) = fresh h"
  "junk_bytes (st h p b) = junk_bytes h" "took (st h p b) = st (took h) p b"
  by (auto simp: malloc_ok_def fresh_def junk_bytes_def took_def st_def)

section \<open>Well-formed heaps\<close>

lemma wf_ld_full: "wf_mem h \<Longrightarrow> ld h p = Some b \<Longrightarrow> full b"
  by (auto simp: wf_mem_def ld_def full_def split: if_splits)

lemma wf_ld: "wf_mem h \<Longrightarrow> ld h p = Some b \<Longrightarrow> p mod 4096 = 0 \<and> p div 4096 < mm_next h \<and> mm_buf h p = None"
  by (auto simp: wf_mem_def ld_def split: if_splits)

lemma wf_st: "wf_mem h \<Longrightarrow> ld h p = Some b \<Longrightarrow> full b' \<Longrightarrow> wf_mem (st h p b')"
  by (auto simp: wf_mem_def ld_def full_def split: if_splits)

lemma wf_upd:
  "wf_mem h \<Longrightarrow> upd h p f = Some h' \<Longrightarrow> (\<And>b. full b \<Longrightarrow> full (f b)) \<Longrightarrow> wf_mem h'"
  by (auto dest!: upd_SomeD intro!: wf_st dest: wf_ld_full)

lemma wf_fresh: "wf_mem h \<Longrightarrow> mm_mbuf h (fresh h) = None \<and> mm_buf h (fresh h) = None \<and> fresh h \<noteq> 0"
proof -
  assume wf: "wf_mem h"
  have d: "fresh h div 4096 = mm_next h" by (simp add: fresh_def)
  have "mm_mbuf h (fresh h) = None"
  proof (cases "mm_mbuf h (fresh h)")
    case (Some b)
    with wf have "fresh h div 4096 < mm_next h" unfolding wf_mem_def by blast
    with d show ?thesis by simp
  qed
  moreover have "mm_buf h (fresh h) = None"
  proof (cases "mm_buf h (fresh h)")
    case (Some b)
    with wf have "fresh h div 4096 < mm_next h" unfolding wf_mem_def by blast
    with d show ?thesis by simp
  qed
  moreover have "fresh h \<noteq> 0" using wf by (simp add: fresh_def wf_mem_def)
  ultimately show ?thesis by blast
qed

lemma took_simps [simp]:
  "mm_mbuf (took h) = mm_mbuf h" "mm_buf (took h) = mm_buf h" "mm_junk (took h) = mm_junk h"
  "mm_next (took h) = mm_next h + 1" "mm_quota (took h) = mm_quota h - 1"
  "ld (took h) p = ld h p"
  by (simp_all add: took_def ld_def)

lemma wf_free: "wf_mem h \<Longrightarrow> free_ptr h p = Some h' \<Longrightarrow> wf_mem h'"
  by (auto simp: wf_mem_def free_ptr_def split: if_splits)

section \<open>Facts about byte access\<close>

text \<open>Replacing the contents of a raw byte block.\<close>

definition wb :: "mem \<Rightarrow> addr \<Rightarrow> u_char list \<Rightarrow> mem" where
  "wb h B bs = h\<lparr>mm_buf := (mm_buf h)(B := Some bs)\<rparr>"

lemma wb_simps [simp]:
  "ld (wb h B bs) p = ld h p" "mm_buf (wb h B bs) = (mm_buf h)(B := Some bs)"
  "wb (wb h B bs) B bs' = wb h B bs'" "m_next_of (wb h B bs) = m_next_of h"
  "mm_next (wb h B bs) = mm_next h" "mm_mbuf (wb h B bs) = mm_mbuf h"
  "mm_quota (wb h B bs) = mm_quota h"
  by (auto simp: wb_def ld_def m_next_of_def)

lemma mod_add_base: "B mod 4096 = 0 \<Longrightarrow> k < 4096 \<Longrightarrow> (B + k) mod 4096 = (k::nat)"
  by (simp add: mod_add_eq [symmetric, of B k])

lemma block_of_add: "B mod 4096 = 0 \<Longrightarrow> k < 4096 \<Longrightarrow> block_of (B + k) = B"
  by (simp add: block_of_def mod_add_base)

lemma block_of_base: "B mod 4096 = 0 \<Longrightarrow> block_of B = B"
  by (simp add: block_of_def)

lemma rd_mbuf:
  assumes "ld h B = Some b" "B mod 4096 = 0" "full b" "k + n \<le> 88"
  shows "rd h (B + 40 + k) n = Some (slice k n (m_dat b))"
proof (cases "n = 0")
  case True
  then show ?thesis by (simp add: rd_def)
next
  case False
  have "block_of (B + (40 + k)) = B" "(B + (40 + k)) mod 4096 = 40 + k"
    using assms False by (intro block_of_add mod_add_base; simp)+
  then show ?thesis using assms by (simp add: rd_def full_def add.assoc)
qed

lemma wr_mbuf:
  assumes "ld h B = Some b" "B mod 4096 = 0" "full b" "k + length xs \<le> 88"
  shows "wr h (B + 40 + k) xs = Some (st h B (b\<lparr>m_dat := patch (m_dat b) k xs\<rparr>))"
proof (cases "xs = []")
  case True
  have "st h B b = h" using assms(1) by (rule st_ld)
  with True show ?thesis by (simp add: wr_def)
next
  case False
  then have "0 < length xs" by simp
  with assms(4) have k: "40 + k < 4096" by linarith
  have "block_of (B + (40 + k)) = B" "(B + (40 + k)) mod 4096 = 40 + k"
    using assms(2) k by (intro block_of_add mod_add_base; simp)+
  then show ?thesis using assms False by (simp add: wr_def full_def add.assoc)
qed

lemma wr_mbuf_at:
  "q = B + 40 + k \<Longrightarrow> ld h B = Some b \<Longrightarrow> B mod 4096 = 0 \<Longrightarrow> full b \<Longrightarrow> k + length xs \<le> 88 \<Longrightarrow>
   wr h q xs = Some (st h B (b\<lparr>m_dat := patch (m_dat b) k xs\<rparr>))"
  by (simp only: wr_mbuf)

lemma rd_buf:
  assumes "mm_buf h B = Some bs" "ld h B = None" "B mod 4096 = 0" "length bs \<le> 4096" "k + n \<le> length bs"
  shows "rd h (B + k) n = Some (slice k n bs)"
proof (cases "n = 0")
  case True
  then show ?thesis by (simp add: rd_def)
next
  case False
  with assms have "block_of (B + k) = B" "(B + k) mod 4096 = k"
    by (intro block_of_add mod_add_base; simp)+
  then show ?thesis using assms by (simp add: rd_def)
qed

lemma wr_buf:
  assumes "mm_buf h B = Some bs" "ld h B = None" "B mod 4096 = 0" "length bs \<le> 4096" "k + length xs \<le> length bs"
  shows "wr h (B + k) xs = Some (wb h B (patch bs k xs))"
proof (cases "xs = []")
  case True
  with assms(1) show ?thesis by (simp add: wr_def wb_def fun_upd_idem)
next
  case False
  then have "0 < length xs" by simp
  with assms(4,5) have k: "k < 4096" by linarith
  have "block_of (B + k) = B" "(B + k) mod 4096 = k"
    using assms(3) k by (intro block_of_add mod_add_base; simp)+
  then show ?thesis using assms False by (simp add: wr_def wb_def)
qed

lemma malloc_wb [simp]:
  "malloc_ok (wb h B bs) = malloc_ok h" "fresh (wb h B bs) = fresh h"
  "junk_bytes (wb h B bs) = junk_bytes h" "took (wb h B bs) = wb (took h) B bs"
  "st (wb h B bs) p b = wb (st h p b) B bs"
  by (auto simp: malloc_ok_def fresh_def junk_bytes_def took_def wb_def st_def)

lemma wf_wb:
  "wf_mem h \<Longrightarrow> B \<noteq> 0 \<Longrightarrow> B mod 4096 = 0 \<Longrightarrow> B div 4096 < mm_next h \<Longrightarrow> mm_mbuf h B = None \<Longrightarrow>
   length bs \<le> 4096 \<Longrightarrow> wf_mem (wb h B bs)"
  by (auto simp: wf_mem_def split: if_splits)

lemma rd_wb_other: "block_of p \<noteq> B \<Longrightarrow> rd (wb h B bs) p n = rd h p n"
  by (simp add: rd_def split: option.splits)

lemma rd_st_other: "block_of p \<noteq> q \<Longrightarrow> rd (st h q b) p n = rd h p n"
  by (simp add: rd_def split: option.splits)

lemma rd_st_same_dat:
  "ld h q = Some b \<Longrightarrow> m_dat b' = m_dat b \<Longrightarrow> rd (st h q b') p n = rd h p n"
  by (auto simp: rd_def ld_st dest: ld_nz split: option.splits)

lemma rd_length: "rd h p n = Some xs \<Longrightarrow> length xs = n"
  by (auto simp: rd_def slice_def split: if_splits option.splits)

lemma wr_shape:
  assumes "wr h p xs = Some h'"
  shows "h' = h \<or> (\<exists>b. ld h (block_of p) = Some b \<and>
            h' = st h (block_of p) (b\<lparr>m_dat := patch (m_dat b) (p mod 4096 - 40) xs\<rparr>) \<and>
            p mod 4096 - 40 + length xs \<le> length (m_dat b))
       \<or> (\<exists>bs. mm_buf h (block_of p) = Some bs \<and> ld h (block_of p) = None \<and>
            h' = wb h (block_of p) (patch bs (p mod 4096) xs) \<and> p mod 4096 + length xs \<le> length bs)"
  using assms by (auto simp: wr_def wb_def split: if_splits option.splits)

lemma wf_wr: "wf_mem h \<Longrightarrow> wr h p xs = Some h' \<Longrightarrow> wf_mem h'"
  apply (drule wr_shape)
  apply (elim disjE exE conjE)
    apply simp
   apply (frule (1) wf_ld_full)
   apply (simp add: full_def wf_st)
  apply (auto simp: wf_mem_def ld_def split: if_splits)
  done

lemma wr_keeps:
  assumes "wr h p xs = Some h'" "ld h a = Some b"
  shows "\<exists>b'. ld h' a = Some b' \<and> m_next b' = m_next b \<and> m_nextpkt b' = m_nextpkt b \<and> m_len b' = m_len b
     \<and> m_data b' = m_data b \<and> m_type b' = m_type b \<and> m_flags b' = m_flags b"
  using wr_shape [OF assms(1)] assms(2) by (auto simp: ld_st dest: ld_nz)

lemma memcpy_wr: "memcpy h d s n = Some h' \<Longrightarrow> h' = h \<or> (\<exists>xs. rd h s (nat n) = Some xs \<and> wr h d xs = Some h')"
  by (auto simp: memcpy_def split: if_splits bind_splits)

lemma wf_memcpy: "wf_mem h \<Longrightarrow> memcpy h d s n = Some h' \<Longrightarrow> wf_mem h'"
  by (drule memcpy_wr) (auto intro: wf_wr)

lemma wf_memset0: "wf_mem h \<Longrightarrow> memset0 h d n = Some h' \<Longrightarrow> wf_mem h'"
  by (auto simp: memset0_def intro: wf_wr split: if_splits)

lemma memcpy_eq:
  assumes "rd h s (nat n) = Some xs" "0 \<le> n" "block_of s \<noteq> block_of d"
    "s mod 4096 + nat n \<le> 4096" "d mod 4096 + nat n \<le> 4096"
  shows "memcpy h d s n = wr h d xs"
proof (cases "n = 0")
  case True
  with assms show ?thesis by (simp add: memcpy_def rd_def wr_def)
next
  case False
  have "\<not> (int d < int s + n \<and> int s < int d + n)"
  proof
    assume a: "int d < int s + n \<and> int s < int d + n"
    have eq: "p = 4096 * (p div 4096) + p mod 4096" for p :: nat by simp
    have "s div 4096 \<noteq> d div 4096"
      using assms(3) by (auto simp: block_of_def minus_mod_eq_mult_div)
    then consider "s div 4096 + 1 \<le> d div 4096" | "d div 4096 + 1 \<le> s div 4096" by linarith
    then show False
      using a assms(2,4,5) eq [of s] eq [of d] by cases linarith+
  qed
  with False assms(1,2) show ?thesis by (simp only: memcpy_def) simp
qed

end
