(* ===== verification/Mbuf.thy ===== *)
theory Mbuf
  imports Mem
begin

text \<open>
  \<open>kern/uipc_mbuf.c\<close> and the allocation macros of \<open>sys/mbuf.h\<close>, one definition per
  function or macro.  A function that changes the heap returns it; a loop is a
  \<open>partial_function (option)\<close> of its own, named after its function.
\<close>

section \<open>Allocation macros\<close>

definition m_reclaim :: "mem \<Rightarrow> mem" where
  "m_reclaim h = h"

text \<open>\<open>MGET\<close> up to its \<open>else\<close> branch: the fields it sets in a block that was obtained.\<close>

definition mget_init :: "mem \<Rightarrow> addr \<Rightarrow> int \<Rightarrow> mem option" where
  "mget_init h m type = upd h m (\<lambda>b. b\<lparr>m_type := word_of_int type, m_next := 0, m_nextpkt := 0,
      m_data := mtod_dat m, m_flags := 0, m_len := 0\<rparr>)"

text \<open>Inside \<open>m_retry\<close> the macro \<open>m_retry(i, t)\<close> is \<open>NULL\<close>, so a second failure is final.\<close>

definition m_retry :: "mem \<Rightarrow> int \<Rightarrow> int \<Rightarrow> (addr \<times> mem) option" where
  "m_retry h i t =
     (let h = m_reclaim h; (m, h) = malloc_mbuf h in
      if m \<noteq> 0 then do { h \<leftarrow> mget_init h m t; Some (m, h) } else Some (0, h))"

definition MGET :: "mem \<Rightarrow> int \<Rightarrow> int \<Rightarrow> (addr \<times> mem) option" where
  "MGET h how type =
     (let (m, h) = malloc_mbuf h in
      if m \<noteq> 0 then do { h \<leftarrow> mget_init h m type; Some (m, h) } else m_retry h how type)"

definition MGETHDR :: "mem \<Rightarrow> int \<Rightarrow> int \<Rightarrow> (addr \<times> mem) option" where
  "MGETHDR h how type =
     (let (m, h) = malloc_mbuf h in
      if m \<noteq> 0 then do {
        h \<leftarrow> upd h m (\<lambda>b. set_pk_rcvif 0 (set_pk_len 0
               (b\<lparr>m_type := word_of_int type, m_next := 0, m_nextpkt := 0,
                  m_data := mtod_pktdat m, m_flags := M_PKTHDR, m_len := 0\<rparr>)));
        Some (m, h) }
      else Some (0, h))"

text \<open>\<open>MFREE\<close> releases external storage only: the mbuf itself is not given back.\<close>

definition MFREE :: "mem \<Rightarrow> addr \<Rightarrow> (addr \<times> mem) option" where
  "MFREE h m = do {
     b \<leftarrow> ld h m;
     h \<leftarrow> (if has (m_flags b) M_EXT
           then (if ext_free b \<noteq> 0 then None else free_ptr h (ext_buf b)) else Some h);
     Some (m_next b, h) }"

definition M_COPY_PKTHDR :: "mem \<Rightarrow> addr \<Rightarrow> addr \<Rightarrow> mem option" where
  "M_COPY_PKTHDR h to from = do {
     f \<leftarrow> ld h from;
     upd h to (\<lambda>t. (copy_pkthdr f t)\<lparr>m_flags := m_flags f AND M_COPYFLAGS, m_data := mtod_pktdat to\<rparr>) }"

definition M_ALIGN :: "mem \<Rightarrow> addr \<Rightarrow> int \<Rightarrow> mem option" where
  "M_ALIGN h m len = upd h m (\<lambda>b. b\<lparr>m_data := ptr_add (m_data b) ((MLEN - len) div 4 * 4)\<rparr>)"

definition MH_ALIGN :: "mem \<Rightarrow> addr \<Rightarrow> int \<Rightarrow> mem option" where
  "MH_ALIGN h m len = upd h m (\<lambda>b. b\<lparr>m_data := ptr_add (m_data b) ((MHLEN - len) div 4 * 4)\<rparr>)"

definition M_LEADINGSPACE :: "mem \<Rightarrow> addr \<Rightarrow> int option" where
  "M_LEADINGSPACE h m = do {
     b \<leftarrow> ld h m;
     Some (if has (m_flags b) M_EXT then 0
           else if has (m_flags b) M_PKTHDR then int (m_data b) - int (mtod_pktdat m)
           else int (m_data b) - int (mtod_dat m)) }"

definition M_TRAILINGSPACE :: "mem \<Rightarrow> addr \<Rightarrow> int option" where
  "M_TRAILINGSPACE h m = do {
     b \<leftarrow> ld h m;
     Some (if has (m_flags b) M_EXT
           then int (ext_buf b) + int (le_nat (slice 32 4 (m_dat b))) - (int (m_data b) + m_len b)
           else int (mtod_dat m) + MLEN - (int (m_data b) + m_len b)) }"

section \<open>Allocation and release\<close>

definition m_get :: "mem \<Rightarrow> int \<Rightarrow> int \<Rightarrow> (addr \<times> mem) option" where
  "m_get h nowait type = do {
     (m, h) \<leftarrow> MGET h nowait type;
     b \<leftarrow> ld h m;
     h \<leftarrow> memset0 h (m_data b) MLEN;
     Some (m, h) }"

definition m_getclr :: "mem \<Rightarrow> int \<Rightarrow> int \<Rightarrow> (addr \<times> mem) option" where
  "m_getclr h nowait type = do {
     (m, h) \<leftarrow> MGET h nowait type;
     h \<leftarrow> upd h m (\<lambda>b. b\<lparr>m_flags := M_EXT\<rparr>);
     let (p, h) = malloc_buf (nat MCLBYTES) h;
     h \<leftarrow> upd h m (\<lambda>b. b\<lparr>m_data := p\<rparr>);
     h \<leftarrow> memset0 h p MCLBYTES;
     Some (m, h) }"

definition m_gethdr :: "mem \<Rightarrow> int \<Rightarrow> int \<Rightarrow> (addr \<times> mem) option" where
  "m_gethdr h nowait type = do {
     (m, h) \<leftarrow> MGETHDR h nowait type;
     b \<leftarrow> ld h m;
     h \<leftarrow> memset0 h (m_data b) MHLEN;
     Some (m, h) }"

text \<open>The reference count of a cluster is stubbed to zero.\<close>

definition ref :: "addr \<Rightarrow> int" where
  "ref p = 0"

definition m_free :: "mem \<Rightarrow> addr \<Rightarrow> (addr \<times> mem) option" where
  "m_free h m =
     (if m = 0 then Some (0, h)
      else do {
        b \<leftarrow> ld h m;
        h \<leftarrow> (if has (m_flags b) M_EXT \<and> ref (ext_buf b) = 0 then free_ptr h (ext_buf b) else Some h);
        let n = m_next b;
        h \<leftarrow> (if n = 0 then Some h
              else do {
                h \<leftarrow> upd h n (\<lambda>c. c\<lparr>m_type := m_type b, m_flags := m_flags c OR m_flags b\<rparr>);
                h \<leftarrow> (if has (m_flags b) M_PKTHDR
                      then upd h n (set_pk_len (pk_len b - m_len b)) else Some h);
                upd h n (set_pk_rcvif (pk_rcvif b)) });
        h \<leftarrow> free_ptr h m;
        Some (n, h) })"

partial_function (option) m_freem :: "mem \<Rightarrow> addr \<Rightarrow> mem option" where
  "m_freem h m =
     (if m = 0 then Some h
      else do {
        b \<leftarrow> ld h m;
        h \<leftarrow> (if has (m_flags b) M_EXT then free_ptr h (ext_buf b) else Some h);
        h \<leftarrow> free_ptr h m;
        m_freem h (m_next b) })"

section \<open>Chains\<close>

partial_function (option) m_total_len_loop :: "mem \<Rightarrow> addr \<Rightarrow> int \<Rightarrow> int option" where
  "m_total_len_loop h m len =
     (if m = 0 then Some len
      else do { b \<leftarrow> ld h m; m_total_len_loop h (m_next b) (len + m_len b) })"

definition m_total_len :: "mem \<Rightarrow> addr \<Rightarrow> int option" where
  "m_total_len h m = m_total_len_loop h m 0"

partial_function (option) m_last :: "mem \<Rightarrow> addr \<Rightarrow> addr option" where
  "m_last h m = do { b \<leftarrow> ld h m; if m_next b \<noteq> 0 then m_last h (m_next b) else Some m }"

definition m_cat :: "mem \<Rightarrow> addr \<Rightarrow> addr \<Rightarrow> mem option" where
  "m_cat h m n = do {
     l \<leftarrow> m_last h m;
     h \<leftarrow> upd h l (\<lambda>b. b\<lparr>m_next := n\<rparr>);
     mb \<leftarrow> ld h m;
     if has (m_flags mb) M_PKTHDR
     then do {
       nb \<leftarrow> ld h n;
       if has (m_flags nb) M_PKTHDR
       then upd h m (set_pk_len (pk_len mb + pk_len nb))
       else do { len \<leftarrow> m_total_len h n; upd h m (set_pk_len (pk_len mb + len)) } }
     else Some h }"

partial_function (option) m_adj_head :: "mem \<Rightarrow> addr \<Rightarrow> int \<Rightarrow> (mem \<times> addr \<times> int) option" where
  "m_adj_head h m len =
     (if m = 0 then Some (h, m, len)
      else do {
        b \<leftarrow> ld h m;
        if m_len b < len
        then m_adj_head (st h m (b\<lparr>m_len := 0\<rparr>)) (m_next b) (len - m_len b)
        else Some (h, m, len) })"

partial_function (option) m_adj_tail :: "mem \<Rightarrow> addr \<Rightarrow> int \<Rightarrow> mem option" where
  "m_adj_tail h m len =
     (if m = 0 then Some h
      else do {
        b \<leftarrow> ld h m;
        if m_len b < len
        then m_adj_tail h (m_next b) (len - m_len b)
        else Some (st h m (b\<lparr>m_len := m_len b - len\<rparr>)) })"

definition m_adj :: "mem \<Rightarrow> addr \<Rightarrow> int \<Rightarrow> mem option" where
  "m_adj h m len =
     (if m = 0 then Some h
      else if len > 0
      then do {
        b \<leftarrow> ld h m;
        h \<leftarrow> (if has (m_flags b) M_PKTHDR then upd h m (set_pk_len (pk_len b - len)) else Some h);
        (h, m, len) \<leftarrow> m_adj_head h m len;
        upd h m (\<lambda>b. b\<lparr>m_len := m_len b - len, m_data := ptr_add (m_data b) len\<rparr>) }
      else m_adj_tail h m (- len))"

section \<open>Copying\<close>

text \<open>The capacity the code assumes of an mbuf: it compares the flag word for equality.\<close>

definition get_total_len :: "mbuf \<Rightarrow> int" where
  "get_total_len b =
     (if m_flags b = M_PKTHDR then MHLEN
      else if m_flags b = M_EXT then MCLBYTES
      else MLEN)"

partial_function (option) m_copyback_seek :: "mem \<Rightarrow> addr \<Rightarrow> int \<Rightarrow> (addr \<times> int) option" where
  "m_copyback_seek h m offset =
     (if m = 0 then Some (m, offset)
      else do {
        b \<leftarrow> ld h m;
        if get_total_len b < offset
        then m_copyback_seek h (m_next b) (offset - get_total_len b)
        else Some (m, offset) })"

text \<open>The tail mbuf that \<open>m_copyback\<close> and \<open>m_copym\<close> hang on the end of the chain \<open>old\<close>.\<close>

definition m_grow :: "mem \<Rightarrow> addr \<Rightarrow> (addr \<times> mem) option" where
  "m_grow h old = do {
     (m, h) \<leftarrow> m_get h 0 0;
     h \<leftarrow> upd h m (\<lambda>b. b\<lparr>m_len := MLEN\<rparr>);
     b \<leftarrow> ld h m;
     h \<leftarrow> memset0 h (m_data b) (m_len b);
     h \<leftarrow> m_cat h old m;
     Some (m, h) }"

partial_function (option) m_copyback_loop ::
    "mem \<Rightarrow> addr \<Rightarrow> addr \<Rightarrow> int \<Rightarrow> int \<Rightarrow> addr \<Rightarrow> mem option" where
  "m_copyback_loop h old m offset len cp =
     (if len > 0
      then do {
        (m, h) \<leftarrow> (if m = 0 then m_grow h old else Some (m, h));
        b \<leftarrow> ld h m;
        h \<leftarrow> (if m_len b = 0
              then do { h \<leftarrow> memset0 h (m_data b) offset;
                        upd h m (\<lambda>b. b\<lparr>m_len := m_len b + offset\<rparr>) }
              else Some h);
        b \<leftarrow> ld h m;
        let total_len = get_total_len b;
        h \<leftarrow> memcpy h (ptr_add (m_data b) offset) cp (min (total_len - offset) len);
        h \<leftarrow> (if m_len b < offset + len
              then upd h m (\<lambda>b. b\<lparr>m_len := min total_len (len + offset)\<rparr>) else Some h);
        m_copyback_loop h old (m_next b) 0 (len - min (total_len - offset) len) cp }
      else Some h)"

definition m_copyback :: "mem \<Rightarrow> addr \<Rightarrow> int \<Rightarrow> int \<Rightarrow> addr \<Rightarrow> mem option" where
  "m_copyback h m offset len cp = do {
     (m', offset) \<leftarrow> m_copyback_seek h m offset;
     m_copyback_loop h m m' offset len cp }"

partial_function (option) m_seek :: "mem \<Rightarrow> addr \<Rightarrow> int \<Rightarrow> (addr \<times> int) option" where
  "m_seek h m offset =
     (if m = 0 then Some (m, offset)
      else do {
        b \<leftarrow> ld h m;
        if m_len b < offset then m_seek h (m_next b) (offset - m_len b) else Some (m, offset) })"

partial_function (option) m_copydata_loop ::
    "mem \<Rightarrow> addr \<Rightarrow> int \<Rightarrow> int \<Rightarrow> addr \<Rightarrow> mem option" where
  "m_copydata_loop h m offset len cp =
     (if len > 0
      then do {
        b \<leftarrow> ld h m;
        h \<leftarrow> memcpy h cp (ptr_add (m_data b) offset) (min (m_len b - offset) len);
        m_copydata_loop h (m_next b) 0 (len - min (m_len b - offset) len)
          (ptr_add cp (min (m_len b - offset) len)) }
      else Some h)"

definition m_copydata :: "mem \<Rightarrow> addr \<Rightarrow> int \<Rightarrow> int \<Rightarrow> addr \<Rightarrow> mem option" where
  "m_copydata h m offset len cp = do {
     (m, offset) \<leftarrow> m_seek h m offset;
     m_copydata_loop h m offset len cp }"

partial_function (option) m_copym_loop ::
    "mem \<Rightarrow> addr \<Rightarrow> addr \<Rightarrow> addr \<Rightarrow> addr \<Rightarrow> int \<Rightarrow> int \<Rightarrow> int \<Rightarrow> mem option" where
  "m_copym_loop h old m old_n n offset len nowait =
     (if len > 0
      then do {
        (m, h) \<leftarrow> (if m = 0 then m_grow h old else Some (m, h));
        b \<leftarrow> ld h m;
        let copy_len = min len (m_len b - offset);
        (n, h) \<leftarrow> (if n = 0
                   then do { (n, h) \<leftarrow> MGET h nowait (sint (m_flags b));
                             h \<leftarrow> m_cat h old_n n; Some (n, h) }
                   else Some (n, h));
        nb \<leftarrow> ld h n;
        h \<leftarrow> memcpy h (m_data nb) (ptr_add (m_data b) offset) copy_len;
        h \<leftarrow> upd h n (\<lambda>b. b\<lparr>m_len := copy_len\<rparr>);
        b \<leftarrow> ld h m;
        nb \<leftarrow> ld h n;
        m_copym_loop h old (m_next b) old_n (m_next nb) 0 (len - copy_len) nowait }
      else Some h)"

definition m_copym :: "mem \<Rightarrow> addr \<Rightarrow> int \<Rightarrow> int \<Rightarrow> int \<Rightarrow> (addr \<times> mem) option" where
  "m_copym h m offset len nowait = do {
     b \<leftarrow> ld h m;
     (n, h) \<leftarrow> MGETHDR h nowait (sint (m_flags b));
     (m', offset) \<leftarrow> m_seek h m offset;
     h \<leftarrow> m_copym_loop h m m' n n offset len nowait;
     Some (n, h) }"

definition m_copy :: "mem \<Rightarrow> addr \<Rightarrow> int \<Rightarrow> int \<Rightarrow> (addr \<times> mem) option" where
  "m_copy h m offset len = m_copym h m offset len 1"

partial_function (option) m_devget_loop ::
    "mem \<Rightarrow> addr \<Rightarrow> addr \<Rightarrow> bool \<Rightarrow> int \<Rightarrow> addr \<Rightarrow> mem option" where
  "m_devget_loop h old m has_cluster len p =
     (if len > 0
      then do {
        (m, h) \<leftarrow> (if m = 0
                   then do { (m, h) \<leftarrow> (if \<not> has_cluster then m_get h 0 0 else m_getclr h 0 0);
                             h \<leftarrow> m_cat h old m; Some (m, h) }
                   else Some (m, h));
        b \<leftarrow> ld h m;
        let copy_len = (if has (m_flags b) M_EXT then min len (MCLBYTES - m_len b)
                        else if has (m_flags b) M_PKTHDR then min len (MHLEN - m_len b)
                        else min len (MLEN - m_len b));
        h \<leftarrow> memcpy h (m_data b) p copy_len;
        h \<leftarrow> upd h m (\<lambda>b. b\<lparr>m_len := copy_len\<rparr>);
        h \<leftarrow> upd h old (\<lambda>b. set_pk_len (pk_len b + copy_len) b);
        b \<leftarrow> ld h m;
        m_devget_loop h old (m_next b) has_cluster (len - copy_len) (ptr_add p copy_len) }
      else Some h)"

text \<open>\<open>len >= MINCLSIZE\<close> compares in \<open>size_t\<close>, where a negative \<open>len\<close> is huge.\<close>

definition m_devget :: "mem \<Rightarrow> addr \<Rightarrow> int \<Rightarrow> int \<Rightarrow> addr \<Rightarrow> (addr \<times> mem) option" where
  "m_devget h buf len off ifp = do {
     (m, h) \<leftarrow> MGETHDR h 0 (sint M_PKTHDR);
     h \<leftarrow> m_devget_loop h m m (len < 0 \<or> MINCLSIZE \<le> len) len (ptr_add buf off);
     Some (m, h) }"

section \<open>Pullup and prepend\<close>

partial_function (option) m_pullup_loop ::
    "mem \<Rightarrow> addr \<Rightarrow> addr \<Rightarrow> int \<Rightarrow> (int \<times> mem) option" where
  "m_pullup_loop h n m len = do {
     nb \<leftarrow> ld h n;
     if m_len nb < len
     then do {
       mb \<leftarrow> ld h m;
       let copy_len = min (m_len mb) (len - m_len mb);
       h \<leftarrow> memcpy h (ptr_add (m_data nb) (m_len nb)) (m_data mb) copy_len;
       h \<leftarrow> upd h n (\<lambda>b. b\<lparr>m_len := m_len b + copy_len\<rparr>);
       mb \<leftarrow> ld h m;
       if m_next mb \<noteq> 0 then m_pullup_loop h n (m_next mb) (len - copy_len)
       else Some (len - copy_len, h) }
     else Some (len, h) }"

definition m_pullup :: "mem \<Rightarrow> addr \<Rightarrow> int \<Rightarrow> (addr \<times> mem) option" where
  "m_pullup h m len = do {
     b \<leftarrow> ld h m;
     (n, h) \<leftarrow> (if has (m_flags b) M_EXT
                then do { (n, h) \<leftarrow> m_gethdr h 0 (sint (m_type b));
                          mb \<leftarrow> ld h m;
                          h \<leftarrow> upd h n (copy_pkthdr mb);
                          Some (n, h) }
                else Some (m, h));
     (len, h) \<leftarrow> m_pullup_loop h n m len;
     nb \<leftarrow> ld h n;
     if m_len nb = len then Some (n, h)
     else do { (_, h) \<leftarrow> m_free h n; Some (0, h) } }"

definition m_prepend :: "mem \<Rightarrow> addr \<Rightarrow> int \<Rightarrow> int \<Rightarrow> (addr \<times> mem) option" where
  "m_prepend h m len how = do {
     b \<leftarrow> ld h m;
     (mn, h) \<leftarrow> MGET h how (sint (m_type b));
     if mn = 0 then do { h \<leftarrow> m_freem h m; Some (0, h) }
     else do {
       h \<leftarrow> (if has (m_flags b) M_PKTHDR
             then do { h \<leftarrow> M_COPY_PKTHDR h mn m;
                       upd h m (\<lambda>b. b\<lparr>m_flags := m_flags b AND NOT M_PKTHDR\<rparr>) }
             else Some h);
       h \<leftarrow> upd h mn (\<lambda>b. b\<lparr>m_next := m\<rparr>);
       h \<leftarrow> (if 0 \<le> len \<and> len < MHLEN then MH_ALIGN h mn len else Some h);
       h \<leftarrow> upd h mn (\<lambda>b. b\<lparr>m_len := len\<rparr>);
       Some (mn, h) } }"

text \<open>\<open>M_LEADINGSPACE(m) > length\<close> compares a pointer difference with a \<open>size_t\<close>.\<close>

definition M_PREPEND :: "mem \<Rightarrow> addr \<Rightarrow> nat \<Rightarrow> int \<Rightarrow> (addr \<times> mem) option" where
  "M_PREPEND h m plen how = do {
     lead \<leftarrow> M_LEADINGSPACE h m;
     (m, h) \<leftarrow> (if lead < 0 \<or> int plen < lead
                then do { h \<leftarrow> upd h m (\<lambda>b. b\<lparr>m_data := ptr_add (m_data b) (- int plen),
                                                m_len := m_len b + int plen\<rparr>);
                          Some (m, h) }
                else m_prepend h m (int plen) how);
     if m = 0 then Some (m, h)
     else do {
       b \<leftarrow> ld h m;
       h \<leftarrow> (if has (m_flags b) M_PKTHDR then upd h m (set_pk_len (pk_len b + int plen)) else Some h);
       Some (m, h) } }"

end
