(* ===== verification/MbufFacts.thy ===== *)
theory MbufFacts
  imports Mbuf
begin

text \<open>
  The lemma library of \<open>Mbuf\<close>: what a fresh mbuf is, the contract every allocation
  routine meets (locale \<open>mbuf_alloc\<close>, interpreted on \<open>MGET\<close>, \<open>MGETHDR\<close>, \<open>m_get\<close>,
  \<open>m_gethdr\<close> and \<open>m_getclr\<close>), walks along a chain, and the bytes a chain holds.
\<close>

section \<open>Fresh mbufs\<close>

definition plain_mbuf :: "mem \<Rightarrow> int \<Rightarrow> mbuf" where
  "plain_mbuf h type = \<lparr>m_next = 0, m_nextpkt = 0, m_len = 0, m_data = fresh h + 40,
     m_type = word_of_int type, m_flags = 0, m_dat = junk_bytes h 88\<rparr>"

definition hdr_mbuf :: "mem \<Rightarrow> int \<Rightarrow> mbuf" where
  "hdr_mbuf h type = set_pk_rcvif 0 (set_pk_len 0 (\<lparr>m_next = 0, m_nextpkt = 0, m_len = 0,
     m_data = fresh h + 56, m_type = word_of_int type, m_flags = M_PKTHDR, m_dat = junk_bytes h 88\<rparr>))"

lemma full_fresh [simp]: "full (plain_mbuf h t)" "full (hdr_mbuf h t)"
  by (simp_all add: plain_mbuf_def hdr_mbuf_def full_def set_pk_len_def set_pk_rcvif_def junk_bytes_def)

lemma plain_mbuf_simps [simp]:
  "m_next (plain_mbuf h t) = 0" "m_nextpkt (plain_mbuf h t) = 0" "m_len (plain_mbuf h t) = 0"
  "m_data (plain_mbuf h t) = fresh h + 40" "m_type (plain_mbuf h t) = word_of_int t"
  "m_flags (plain_mbuf h t) = 0"
  by (simp_all add: plain_mbuf_def)

lemma hdr_mbuf_simps [simp]:
  "m_next (hdr_mbuf h t) = 0" "m_nextpkt (hdr_mbuf h t) = 0" "m_len (hdr_mbuf h t) = 0"
  "m_data (hdr_mbuf h t) = fresh h + 56" "m_type (hdr_mbuf h t) = word_of_int t"
  "m_flags (hdr_mbuf h t) = M_PKTHDR"
  by (simp_all add: hdr_mbuf_def)

lemma full_junk: "full \<lparr>m_next = a, m_nextpkt = b, m_len = c, m_data = d, m_type = e, m_flags = f,
    m_dat = junk_bytes h 88\<rparr>"
  by (simp add: full_def junk_bytes_def)

lemma hdr_mbuf_pk [simp]: "pk_len (hdr_mbuf h t) = 0" "pk_rcvif (hdr_mbuf h t) = 0"
  by (simp_all add: hdr_mbuf_def int32_def full_junk)

lemma fresh_props: "wf_mem h \<Longrightarrow> fresh h \<noteq> 0" "fresh h mod 4096 = 0"
  by (simp add: wf_fresh) (simp add: fresh_def)

lemma fresh_nz [simp]: "malloc_ok h \<Longrightarrow> wf_mem h \<Longrightarrow> 0 < fresh h"
  using fresh_props by blast

lemma ld_fresh: "wf_mem h \<Longrightarrow> ld h (fresh h) = None"
  by (simp add: ld_def wf_fresh)

lemma wf_took_st:
  assumes "wf_mem h" "full b"
  shows "wf_mem (st (took h) (fresh h) b)"
  using assms wf_fresh [OF assms(1)]
  by (auto simp: wf_mem_def full_def fresh_def split: if_splits intro: less_SucI)

lemma MGET_ok:
  assumes "malloc_ok h" "wf_mem h"
  shows "MGET h how t = Some (fresh h, st (took h) (fresh h) (plain_mbuf h t))"
  using assms by (simp add: MGET_def malloc_mbuf_def mget_init_def upd_def plain_mbuf_def)

lemma MGET_fail: "\<not> malloc_ok h \<Longrightarrow> MGET h how t = Some (0, h)"
  by (simp add: MGET_def m_retry_def m_reclaim_def malloc_mbuf_def)

lemma MGETHDR_ok:
  assumes "malloc_ok h" "wf_mem h"
  shows "MGETHDR h how t = Some (fresh h, st (took h) (fresh h) (hdr_mbuf h t))"
  using assms by (simp add: MGETHDR_def malloc_mbuf_def upd_def hdr_mbuf_def)

lemma MGETHDR_fail: "\<not> malloc_ok h \<Longrightarrow> MGETHDR h how t = Some (0, h)"
  by (simp add: MGETHDR_def malloc_mbuf_def)

text \<open>\<open>m_get\<close> zeroes the data area, \<open>m_gethdr\<close> the area after the packet header.\<close>

lemma patch_all: "length ys = length xs \<Longrightarrow> patch xs 0 ys = ys"
  by (simp add: patch_def)

definition zero_mbuf :: "mem \<Rightarrow> int \<Rightarrow> mbuf" where
  "zero_mbuf h t = (plain_mbuf h t)\<lparr>m_dat := replicate 88 0\<rparr>"

lemma zero_mbuf_simps [simp]:
  "m_next (zero_mbuf h t) = 0" "m_nextpkt (zero_mbuf h t) = 0" "m_len (zero_mbuf h t) = 0"
  "m_data (zero_mbuf h t) = fresh h + 40" "m_type (zero_mbuf h t) = word_of_int t"
  "m_flags (zero_mbuf h t) = 0" "full (zero_mbuf h t)" "m_dat (zero_mbuf h t) = replicate 88 0"
  by (simp_all add: zero_mbuf_def full_def)

lemma m_get_ok:
  assumes "malloc_ok h" "wf_mem h"
  shows "m_get h how t = Some (fresh h, st (took h) (fresh h) (zero_mbuf h t))"
proof -
  let ?h = "st (took h) (fresh h) (plain_mbuf h t)"
  have "wr ?h (fresh h + 40 + 0) (replicate 88 0) = Some (st ?h (fresh h)
      ((plain_mbuf h t)\<lparr>m_dat := patch (m_dat (plain_mbuf h t)) 0 (replicate 88 0)\<rparr>))"
    using assms by (intro wr_mbuf) (simp_all add: fresh_props)
  moreover have "patch (m_dat (plain_mbuf h t)) 0 (replicate 88 0) = replicate 88 0"
    by (rule patch_all) (simp add: plain_mbuf_def junk_bytes_def)
  ultimately show ?thesis
    using assms by (simp add: m_get_def MGET_ok memset0_def zero_mbuf_def)
qed

lemma m_get_fail: "\<not> malloc_ok h \<Longrightarrow> m_get h how t = None"
  by (simp add: m_get_def MGET_fail)

definition zero_hdr :: "mem \<Rightarrow> int \<Rightarrow> mbuf" where
  "zero_hdr h t = (hdr_mbuf h t)\<lparr>m_dat := patch (m_dat (hdr_mbuf h t)) 16 (replicate 72 0)\<rparr>"

lemma zero_hdr_simps [simp]:
  "m_next (zero_hdr h t) = 0" "m_nextpkt (zero_hdr h t) = 0" "m_len (zero_hdr h t) = 0"
  "m_data (zero_hdr h t) = fresh h + 56" "m_type (zero_hdr h t) = word_of_int t"
  "m_flags (zero_hdr h t) = M_PKTHDR" "full (zero_hdr h t)"
  using full_fresh(2) [of h t] by (simp_all add: zero_hdr_def full_def)

lemma m_gethdr_ok:
  assumes "malloc_ok h" "wf_mem h"
  shows "m_gethdr h how t = Some (fresh h, st (took h) (fresh h) (zero_hdr h t))"
proof -
  let ?h = "st (took h) (fresh h) (hdr_mbuf h t)"
  have "wr ?h (fresh h + 56) (replicate 72 0) = Some (st (took h) (fresh h) (zero_hdr h t))"
    using assms by (subst wr_mbuf_at [where B = "fresh h" and k = 16 and b = "hdr_mbuf h t"])
      (simp_all add: fresh_props zero_hdr_def)
  then show ?thesis
    using assms by (simp add: m_gethdr_def MGETHDR_ok memset0_def)
qed

lemma m_gethdr_fail: "\<not> malloc_ok h \<Longrightarrow> m_gethdr h how t = None"
  by (simp add: m_gethdr_def MGETHDR_fail)

text \<open>\<open>m_getclr\<close> needs two blocks; the cluster is the second.\<close>

definition cl_mbuf :: "mem \<Rightarrow> int \<Rightarrow> mbuf" where
  "cl_mbuf h t = (plain_mbuf h t)\<lparr>m_flags := M_EXT, m_data := fresh (took h)\<rparr>"

lemma cl_mbuf_simps [simp]:
  "m_next (cl_mbuf h t) = 0" "m_nextpkt (cl_mbuf h t) = 0" "m_len (cl_mbuf h t) = 0"
  "m_data (cl_mbuf h t) = fresh (took h)" "m_flags (cl_mbuf h t) = M_EXT" "full (cl_mbuf h t)"
  by (simp_all add: cl_mbuf_def)

definition cl_heap :: "mem \<Rightarrow> int \<Rightarrow> mem" where
  "cl_heap h t = wb (st (took (took h)) (fresh h) (cl_mbuf h t)) (fresh (took h)) (replicate 2048 0)"

lemma fresh_took: "fresh (took h) = fresh h + 4096"
  by (simp add: fresh_def)

lemma wf_took: "wf_mem h \<Longrightarrow> wf_mem (took h)"
  by (auto simp: wf_mem_def intro: less_SucI)

lemma m_getclr_ok:
  assumes "malloc_ok h" "malloc_ok (took h)" "wf_mem h"
  shows "m_getclr h how t = Some (fresh h, cl_heap h t)"
proof -
  let ?p = "fresh (took h)"
  let ?j = "junk_bytes (took h) 2048"
  let ?h = "wb (st (took (took h)) (fresh h) (cl_mbuf h t)) ?p ?j"
  have ne: "?p \<noteq> fresh h" by (simp add: fresh_took)
  have "ld ?h ?p = None"
    using ne ld_fresh [OF wf_took [OF assms(3)]] by (simp add: ld_st)
  then have "wr ?h (?p + 0) (replicate 2048 0) = Some (wb ?h ?p (patch ?j 0 (replicate 2048 0)))"
    by (intro wr_buf) (simp_all add: fresh_props junk_bytes_def)
  moreover have "patch ?j 0 (replicate 2048 0) = replicate 2048 0"
    by (rule patch_all) (simp add: junk_bytes_def)
  ultimately have w: "wr ?h ?p (replicate 2048 0) = Some (cl_heap h t)"
    by (simp add: cl_heap_def)
  have mb: "malloc_buf 2048 (st (took h) (fresh h) b) =
      (?p, wb (st (took (took h)) (fresh h) b) ?p ?j)" for b
    using assms(2) by (simp add: malloc_buf_def wb_def)
  show ?thesis
    using assms w by (simp add: m_getclr_def MGET_ok upd_def mb memset0_def cl_mbuf_def)
qed

lemma m_getclr_fail:
  assumes "\<not> malloc_ok h \<or> \<not> malloc_ok (took h)" "wf_mem h"
  shows "m_getclr h how t = None"
proof (cases "malloc_ok h")
  case True
  with assms have n: "\<not> malloc_ok (took h)" by simp
  have "malloc_buf 2048 (st (took h) (fresh h) b) = (0, st (took h) (fresh h) b)" for b
    using n by (simp add: malloc_buf_def)
  moreover have "wr h' 0 (replicate 2048 0) = None" if "mm_buf h' 0 = None" for h'
    using that by (simp add: wr_def block_of_def)
  moreover have "mm_buf h 0 = None"
    using assms(2) unfolding wf_mem_def by (cases "mm_buf h 0") blast+
  ultimately show ?thesis
    using True assms(2) by (simp add: m_getclr_def MGET_ok upd_def memset0_def)
next
  case False
  then show ?thesis by (simp add: m_getclr_def MGET_fail upd_def)
qed

section \<open>The contract of an mbuf allocator\<close>

text \<open>
  What the chain-building routines rely on: when an allocator returns, it returns \<open>NULL\<close>
  and an unchanged heap, or a new empty mbuf with null links; nothing else moves.
\<close>

locale mbuf_alloc =
  fixes alloc :: "mem \<Rightarrow> (addr \<times> mem) option"
  assumes alloc_null: "wf_mem h \<Longrightarrow> alloc h = Some (0, h') \<Longrightarrow> h' = h"
    and alloc_new: "wf_mem h \<Longrightarrow> alloc h = Some (m, h') \<Longrightarrow> m \<noteq> 0 \<Longrightarrow>
      ld h m = None \<and> (\<exists>b. ld h' m = Some b \<and> m_next b = 0 \<and> m_nextpkt b = 0 \<and> m_len b = 0)"
    and alloc_ld: "wf_mem h \<Longrightarrow> alloc h = Some (m, h') \<Longrightarrow> p \<noteq> m \<Longrightarrow> ld h' p = ld h p"
    and alloc_buf: "wf_mem h \<Longrightarrow> alloc h = Some (m, h') \<Longrightarrow> mm_buf h p = Some bs \<Longrightarrow>
      mm_buf h' p = Some bs \<and> p \<noteq> m"
    and alloc_wf: "wf_mem h \<Longrightarrow> alloc h = Some (m, h') \<Longrightarrow> wf_mem h'"
    and alloc_next: "wf_mem h \<Longrightarrow> alloc h = Some (m, h') \<Longrightarrow> mm_next h \<le> mm_next h'"
begin

lemma alloc_keeps: "wf_mem h \<Longrightarrow> alloc h = Some (m, h') \<Longrightarrow> ld h p = Some b \<Longrightarrow> ld h' p = Some b \<and> p \<noteq> m"
  using alloc_ld [of h m h' p] alloc_new [of h m h'] ld_nz [of h p b] by (cases "p = m") auto

lemma alloc_chain:
  assumes "wf_mem h" "alloc h = Some (m, h')" "mchain h p as"
  shows "mchain h' p as \<and> m \<notin> set as"
proof -
  have "ld h' a = ld h a \<and> a \<noteq> m" if "a \<in> set as" for a
  proof -
    from mchain_ld [OF assms(3) that] obtain b where "ld h a = Some b" ..
    with alloc_keeps [OF assms(1,2)] show ?thesis by simp
  qed
  then have "mchain h' p as = mchain h p as" and "m \<notin> set as"
    by (intro mchain_cong, simp add: m_next_of_def, blast)
  with assms(3) show ?thesis by simp
qed

lemma alloc_rd:
  assumes "wf_mem h" "alloc h = Some (m, h')" "rd h p n = Some xs"
  shows "rd h' p n = Some xs"
proof (cases "n = 0")
  case True
  with assms(3) show ?thesis by (simp add: rd_def)
next
  case n: False
  show ?thesis
  proof (cases "ld h (block_of p)")
    case (Some b)
    with alloc_keeps [OF assms(1,2)] have "ld h' (block_of p) = Some b" by simp
    with assms(3) Some n show ?thesis by (simp add: rd_def)
  next
    case None
    with assms(3) n obtain bs where bs: "mm_buf h (block_of p) = Some bs"
      by (auto simp: rd_def split: option.splits)
    from alloc_buf [OF assms(1,2) bs] have b': "mm_buf h' (block_of p) = Some bs" "block_of p \<noteq> m" by auto
    then have "ld h' (block_of p) = None" using alloc_ld [OF assms(1,2)] None by simp
    with assms(3) None n bs b' show ?thesis by (simp add: rd_def)
  qed
qed

text \<open>A new mbuf is a chain of its own.\<close>

lemma alloc_single: "wf_mem h \<Longrightarrow> alloc h = Some (m, h') \<Longrightarrow> m \<noteq> 0 \<Longrightarrow> mchain h' m [m]"
  using alloc_new [of h m h'] by (auto simp: mchain_Cons)

end

lemma mbuf_alloc_I:
  assumes ok: "\<And>h. wf_mem h \<Longrightarrow> malloc_ok h \<Longrightarrow> alloc h = Some (fresh h, st (took h) (fresh h) (f h))"
    and fail: "\<And>h. wf_mem h \<Longrightarrow> \<not> malloc_ok h \<Longrightarrow> alloc h = None \<or> alloc h = Some (0, h)"
    and f: "\<And>h. full (f h) \<and> m_next (f h) = 0 \<and> m_nextpkt (f h) = 0 \<and> m_len (f h) = 0"
  shows "mbuf_alloc alloc"
proof
  fix h h' :: mem
  assume "wf_mem h" "alloc h = Some (0, h')"
  then show "h' = h" using ok [of h] fail [of h] fresh_props(1) [of h]
    by (cases "malloc_ok h") auto
next
  fix h h' :: mem and m
  assume "wf_mem h" "alloc h = Some (m, h')" "m \<noteq> 0"
  then show "ld h m = None \<and> (\<exists>b. ld h' m = Some b \<and> m_next b = 0 \<and> m_nextpkt b = 0 \<and> m_len b = 0)"
    using ok [of h] fail [of h] f [of h] ld_fresh [of h] by (cases "malloc_ok h") auto
next
  fix h h' :: mem and m p
  assume "wf_mem h" "alloc h = Some (m, h')" "p \<noteq> m"
  then show "ld h' p = ld h p"
    using ok [of h] fail [of h] by (cases "malloc_ok h") auto
next
  fix h h' :: mem and m p bs
  assume "wf_mem h" "alloc h = Some (m, h')" "mm_buf h p = Some bs"
  moreover from this have "p \<noteq> 0" by (auto simp: wf_mem_def)
  ultimately show "mm_buf h' p = Some bs \<and> p \<noteq> m"
    using ok [of h] fail [of h] wf_fresh [of h] by (cases "malloc_ok h") auto
next
  fix h h' :: mem and m
  assume "wf_mem h" "alloc h = Some (m, h')"
  then show "wf_mem h'"
    using ok [of h] fail [of h] wf_took_st [of h "f h"] f [of h] by (cases "malloc_ok h") auto
next
  fix h h' :: mem and m
  assume "wf_mem h" "alloc h = Some (m, h')"
  then show "mm_next h \<le> mm_next h'" using ok [of h] fail [of h] by (cases "malloc_ok h") auto
qed

interpretation mget: mbuf_alloc "\<lambda>h. MGET h how t" for how t
  by (rule mbuf_alloc_I [where f = "\<lambda>h. plain_mbuf h t"]) (auto simp: MGET_ok MGET_fail)

interpretation mgethdr: mbuf_alloc "\<lambda>h. MGETHDR h how t" for how t
  by (rule mbuf_alloc_I [where f = "\<lambda>h. hdr_mbuf h t"]) (auto simp: MGETHDR_ok MGETHDR_fail)

interpretation mg: mbuf_alloc "\<lambda>h. m_get h how t" for how t
  by (rule mbuf_alloc_I [where f = "\<lambda>h. zero_mbuf h t"]) (auto simp: m_get_ok m_get_fail)

interpretation mgh: mbuf_alloc "\<lambda>h. m_gethdr h how t" for how t
  by (rule mbuf_alloc_I [where f = "\<lambda>h. zero_hdr h t"]) (auto simp: m_gethdr_ok m_gethdr_fail)

lemma cl_heap_ld: "wf_mem h \<Longrightarrow> ld (cl_heap h t) p = (if p = fresh h then Some (cl_mbuf h t) else ld h p)"
  using fresh_props(1) [of h] by (simp add: cl_heap_def ld_st)

lemma cl_heap_wf:
  assumes "wf_mem h"
  shows "wf_mem (cl_heap h t)"
proof -
  let ?h = "st (took (took h)) (fresh h) (cl_mbuf h t)"
  have "?h = took (st (took h) (fresh h) (cl_mbuf h t))" by simp
  moreover have "wf_mem \<dots>" by (intro wf_took wf_took_st assms) simp
  ultimately have "wf_mem ?h" by simp
  then show ?thesis unfolding cl_heap_def
  proof (rule wf_wb)
    show "fresh (took h) \<noteq> 0" by (rule fresh_props(1) [OF wf_took [OF assms]])
    show "fresh (took h) mod 4096 = 0" by (rule fresh_props(2))
    show "fresh (took h) div 4096 < mm_next ?h" by (simp add: fresh_def)
    show "mm_mbuf ?h (fresh (took h)) = None"
      using wf_fresh [OF wf_took [OF assms]] by (simp add: fresh_took)
  qed simp
qed

interpretation mgc: mbuf_alloc "\<lambda>h. m_getclr h how t" for how t
proof
  fix h h' :: mem and m
  assume a: "wf_mem h" "m_getclr h how t = Some (m, h')"
  then have r: "m = fresh h" "h' = cl_heap h t" "m \<noteq> 0"
    using m_getclr_ok [of h how t] m_getclr_fail [of h how t] fresh_props(1) [of h]
    by (cases "malloc_ok h \<and> malloc_ok (took h)"; auto)+
  show "wf_mem h'" using a r by (simp add: cl_heap_wf)
  show "mm_next h \<le> mm_next h'" using r(2) by (simp add: cl_heap_def)
  show "ld h m = None \<and> (\<exists>b. ld h' m = Some b \<and> m_next b = 0 \<and> m_nextpkt b = 0 \<and> m_len b = 0)"
    using a r by (simp add: cl_heap_ld ld_fresh)
  fix p
  show "ld h' p = ld h p" if "p \<noteq> m" using a r that by (simp add: cl_heap_ld)
  fix bs assume b: "mm_buf h p = Some bs"
  show "mm_buf h' p = Some bs \<and> p \<noteq> m"
    using b wf_fresh [OF a(1)] wf_fresh [OF wf_took [OF a(1)]] r by (auto simp: cl_heap_def)
next
  fix h h' :: mem
  assume "wf_mem h" "m_getclr h how t = Some (0, h')"
  then show "h' = h"
    using m_getclr_ok [of h how t] m_getclr_fail [of h how t] fresh_props(1) [of h]
    by (cases "malloc_ok h \<and> malloc_ok (took h)") auto
qed


section \<open>Walks along a chain\<close>

definition mlen :: "mem \<Rightarrow> addr \<Rightarrow> int" where
  "mlen h a = (case ld h a of None \<Rightarrow> 0 | Some b \<Rightarrow> m_len b)"

definition chain_total :: "mem \<Rightarrow> addr list \<Rightarrow> int" where
  "chain_total h as = sum_list (map (mlen h) as)"

lemma chain_total_simps [simp]: "chain_total h [] = 0" "chain_total h (a # as) = mlen h a + chain_total h as"
  "chain_total h (as @ bs) = chain_total h as + chain_total h bs"
  by (simp_all add: chain_total_def)

lemma mlen_ld [simp]: "ld h a = Some b \<Longrightarrow> mlen h a = m_len b"
  by (simp add: mlen_def)

lemma m_total_len_loop_chain:
  "mchain h p as \<Longrightarrow> m_total_len_loop h p len = Some (len + chain_total h as)"
proof (induction as arbitrary: p len)
  case Nil
  then show ?case by (simp add: m_total_len_loop.simps)
next
  case (Cons a as)
  then obtain b where "p = a" "ld h a = Some b" "mchain h (m_next b) as"
    by (auto simp: mchain_Cons)
  then show ?case
    using Cons.IH by (subst m_total_len_loop.simps) (auto dest: ld_nz)
qed

lemma m_total_len_chain: "mchain h p as \<Longrightarrow> m_total_len h p = Some (chain_total h as)"
  by (simp add: m_total_len_def m_total_len_loop_chain)

lemma m_last_chain: "mchain h p as \<Longrightarrow> as \<noteq> [] \<Longrightarrow> m_last h p = Some (last as)"
proof (induction as arbitrary: p)
  case Nil
  then show ?case by simp
next
  case (Cons a as)
  then obtain b where b: "p = a" "ld h a = Some b" "mchain h (m_next b) as"
    by (auto simp: mchain_Cons)
  show ?case
  proof (cases as)
    case Nil
    with b show ?thesis by (subst m_last.simps) simp
  next
    case (Cons c cs)
    with b have nz: "m_next b \<noteq> 0" by (auto simp: mchain_Cons dest: ld_nz)
    from Cons have ne: "as \<noteq> []" by simp
    from Cons.IH [OF b(3) ne] have "m_last h (m_next b) = Some (last as)" .
    with b nz ne show ?thesis by (subst m_last.simps) simp
  qed
qed

section \<open>Concatenation\<close>

text \<open>What \<open>m_cat\<close> does to the mbuf at \<open>a\<close>: the last mbuf of the first chain is linked to
  \<open>n\<close>, and the packet length of the first mbuf grows by \<open>tot\<close> if it has one.\<close>

definition cat_mbuf :: "addr \<Rightarrow> addr \<Rightarrow> addr \<Rightarrow> int \<Rightarrow> addr \<Rightarrow> mbuf \<Rightarrow> mbuf" where
  "cat_mbuf m l n tot a b =
     (let b = (if a = l then b\<lparr>m_next := n\<rparr> else b) in
      if a = m \<and> has (m_flags b) M_PKTHDR then set_pk_len (pk_len b + tot) b else b)"

lemma cat_mbuf_simps [simp]:
  "m_next (cat_mbuf m l n tot a b) = (if a = l then n else m_next b)"
  "m_nextpkt (cat_mbuf m l n tot a b) = m_nextpkt b"
  "m_len (cat_mbuf m l n tot a b) = m_len b" "m_data (cat_mbuf m l n tot a b) = m_data b"
  "m_type (cat_mbuf m l n tot a b) = m_type b" "m_flags (cat_mbuf m l n tot a b) = m_flags b"
  "full b \<Longrightarrow> full (cat_mbuf m l n tot a b)"
  by (simp_all add: cat_mbuf_def Let_def)

lemma cat_mbuf_other: "a \<noteq> m \<Longrightarrow> m_dat (cat_mbuf m l n tot a b) = m_dat b"
  by (simp add: cat_mbuf_def)

lemma cat_mbuf_nohdr: "\<not> has (m_flags b) M_PKTHDR \<Longrightarrow> m_dat (cat_mbuf m l n tot a b) = m_dat b"
  by (simp add: cat_mbuf_def)

lemma cat_mbuf_pk:
  "full b \<Longrightarrow> has (m_flags b) M_PKTHDR \<Longrightarrow> int32 (pk_len b + tot) \<Longrightarrow>
   pk_len (cat_mbuf m l n tot m b) = pk_len b + tot"
  by (simp add: cat_mbuf_def Let_def)

lemma st_fields:
  "mm_buf (st h p b) = mm_buf h \<and> mm_next (st h p b) = mm_next h \<and>
   mm_quota (st h p b) = mm_quota h \<and> mm_junk (st h p b) = mm_junk h"
  by simp

text \<open>The state components that stores to mbufs leave alone.\<close>

definition same_env :: "mem \<Rightarrow> mem \<Rightarrow> bool" where
  "same_env h h' \<longleftrightarrow> mm_buf h' = mm_buf h \<and> mm_next h' = mm_next h \<and>
     mm_quota h' = mm_quota h \<and> mm_junk h' = mm_junk h"

lemma same_env_st [simp]: "same_env h (st h p b)"
  by (simp add: same_env_def)

lemma same_env_refl [simp]: "same_env h h"
  by (simp add: same_env_def)

lemma same_env_trans: "same_env h h' \<Longrightarrow> same_env h' h'' \<Longrightarrow> same_env h h''"
  by (simp add: same_env_def)

lemma same_envD:
  "same_env h h' \<Longrightarrow> fresh h' = fresh h" "same_env h h' \<Longrightarrow> malloc_ok h' = malloc_ok h"
  "same_env h h' \<Longrightarrow> mm_buf h' = mm_buf h" "same_env h h' \<Longrightarrow> mm_quota h' = mm_quota h"
  "same_env h h' \<Longrightarrow> mm_next h' = mm_next h"
  by (simp_all add: same_env_def fresh_def malloc_ok_def)

lemma m_cat_spec:
  assumes wf: "wf_mem h" and as: "mchain h m as" "as \<noteq> []" and bs: "mchain h n bs" "bs \<noteq> []"
    and disj: "set as \<inter> set bs = {}"
    and nb: "ld h n = Some nb"
  defines "tot \<equiv> if has (m_flags nb) M_PKTHDR then pk_len nb else chain_total h bs"
  shows "\<exists>h'. m_cat h m n = Some h' \<and> same_env h h' \<and> wf_mem h' \<and>
    (\<forall>a. ld h' a = map_option (cat_mbuf m (last as) n tot a) (ld h a))"
proof -
  let ?l = "last as"
  obtain lb where lb: "ld h ?l = Some lb"
    using mchain_ld [OF as(1), of ?l] as(2) by auto
  obtain mb where mb: "ld h m = Some mb"
    using as by (cases as) (auto simp: mchain_Cons)
  let ?h1 = "st h ?l (lb\<lparr>m_next := n\<rparr>)"
  have wf1: "wf_mem ?h1" using wf lb by (simp add: wf_st wf_ld_full)
  let ?mb1 = "if m = ?l then lb\<lparr>m_next := n\<rparr> else mb"
  have mb1: "ld ?h1 m = Some ?mb1"
    using mb lb by (auto simp: ld_st dest: ld_nz)
  have nbs: "n \<in> set bs" using bs by (cases bs) (auto simp: mchain_Cons)
  have las: "?l \<in> set as" using as(2) by simp
  have nl: "n \<noteq> ?l" using nbs las disj by blast
  have nb1: "ld ?h1 n = Some nb" using nb nl by (simp add: ld_st)
  have "mchain ?h1 n bs"
    using bs(1) las disj by (subst mchain_st_notin) auto
  moreover have "chain_total ?h1 bs = chain_total h bs"
    unfolding chain_total_def using las disj
    by (intro arg_cong [where f = sum_list] map_cong) (auto simp: mlen_def ld_st)
  ultimately have tl: "m_total_len ?h1 n = Some (chain_total h bs)"
    using m_total_len_chain by fastforce
  have fl: "m_flags ?mb1 = m_flags mb" "pk_len ?mb1 = pk_len mb" using mb lb by auto
  show ?thesis
  proof (cases "has (m_flags mb) M_PKTHDR")
    case True
    let ?h2 = "st ?h1 m (set_pk_len (pk_len ?mb1 + tot) ?mb1)"
    have "m_cat h m n = Some ?h2"
      using True fl
      by (simp add: m_cat_def m_last_chain [OF as] upd_eq [OF lb] upd_eq [OF mb1] mb1 nb1 tl tot_def
          del: if_split)
    moreover have "wf_mem ?h2"
      using wf1 mb1 by (simp add: wf_st wf_ld_full)
    moreover have "ld ?h2 a = map_option (cat_mbuf m ?l n tot a) (ld h a)" for a
    proof (cases "a = m")
      case m: True
      have "ld ?h2 m = Some (set_pk_len (pk_len ?mb1 + tot) ?mb1)"
        using ld_nz [OF mb] by (intro ld_st_same) simp
      moreover have "cat_mbuf m ?l n tot m mb = set_pk_len (pk_len ?mb1 + tot) ?mb1"
        using True mb lb by (cases "m = ?l") (simp_all add: cat_mbuf_def Let_def)
      ultimately show ?thesis using m mb by (simp del: if_split)
    next
      case m: False
      then have "ld ?h2 a = ld ?h1 a" by (rule ld_st_other)
      with m show ?thesis using lb ld_nz [OF lb]
        by (cases "a = ?l"; cases "ld h a") (simp_all add: ld_st cat_mbuf_def Let_def)
    qed
    moreover have "same_env h ?h2" by (simp add: same_env_def)
    ultimately show ?thesis by blast
  next
    case False
    have "m_cat h m n = Some ?h1"
      using False fl by (simp add: m_cat_def m_last_chain [OF as] upd_eq [OF lb] mb1 del: if_split)
    moreover have "ld ?h1 a = map_option (cat_mbuf m ?l n tot a) (ld h a)" for a
      using False mb lb by (cases "ld h a") (auto simp: ld_st cat_mbuf_def Let_def dest: ld_nz)
    ultimately show ?thesis using wf1 by (auto simp: same_env_def)
  qed
qed

lemma cat_chain:
  assumes ld': "\<And>a. ld h' a = map_option (cat_mbuf m (last as) n tot a) (ld h a)"
    and as: "mchain h m as" "as \<noteq> []" and bs: "mchain h n bs"
    and disj: "set as \<inter> set bs = {}"
  shows "mchain h' m (as @ bs)"
proof -
  let ?nxt = "(m_next_of h)(last as \<mapsto> n)"
  have nx: "m_next_of h' a = ?nxt a" if "a \<in> set (as @ bs)" for a
  proof -
    from that have "a \<in> set as \<or> a \<in> set bs" by simp
    then obtain b where "ld h a = Some b"
      using mchain_ld [OF as(1), of a] mchain_ld [OF bs, of a] by blast
    then show ?thesis by (simp add: m_next_of_def ld')
  qed
  obtain cs where cs: "as = cs @ [last as]" using as(2) by (metis append_butlast_last_id)
  have d: "distinct (cs @ [last as])" using chain_distinct [OF as(1)] cs by simp
  have l: "last as \<noteq> 0" "last as \<notin> set cs"
    using chain_alloc [OF as(1), of "last as"] as(2) d by simp_all
  have "mchain h m (cs @ [last as])" using as(1) cs by simp
  then have "path (m_next_of h) m cs (last as)"
    by (auto simp: chain_append chain.simps)
  moreover have "last as \<notin> set bs" using disj as(2) last_in_set by blast
  ultimately have "chain ?nxt m (cs @ last as # bs)"
    using l by (intro chain_snoc_upd bs) auto
  moreover have "cs @ last as # bs = as @ bs"
    using arg_cong [OF cs, of "\<lambda>xs. xs @ bs"] by simp
  ultimately have "chain ?nxt m (as @ bs)" by simp
  then show ?thesis using nx by (subst chain_cong [of _ _ ?nxt]) auto
qed

section \<open>The bytes a chain holds\<close>

definition mbytes :: "mem \<Rightarrow> addr \<Rightarrow> u_char list option" where
  "mbytes h a = do { b \<leftarrow> ld h a; if m_len b < 0 then None else rd h (m_data b) (nat (m_len b)) }"

primrec content :: "mem \<Rightarrow> addr list \<Rightarrow> u_char list option" where
  "content h [] = Some []"
| "content h (a # as) = do { x \<leftarrow> mbytes h a; y \<leftarrow> content h as; Some (x @ y) }"

lemma content_append:
  "content h (as @ bs) = do { x \<leftarrow> content h as; y \<leftarrow> content h bs; Some (x @ y) }"
  by (induction as) (auto split: bind_splits)

lemma content_cong: "(\<And>a. a \<in> set as \<Longrightarrow> mbytes h' a = mbytes h a) \<Longrightarrow> content h' as = content h as"
  by (induction as) auto

lemma content_total: "content h as = Some xs \<Longrightarrow> int (length xs) = chain_total h as"
proof (induction as arbitrary: xs)
  case Nil
  then show ?case by simp
next
  case (Cons a as)
  then obtain x y where xy: "mbytes h a = Some x" "content h as = Some y" "xs = x @ y"
    by (auto split: bind_splits)
  then have "int (length x) = mlen h a"
    by (auto simp: mbytes_def mlen_def dest!: rd_length split: bind_splits if_splits)
  with Cons.IH [OF xy(2)] xy(3) show ?case by simp
qed

lemma content_len_nonneg: "content h as = Some xs \<Longrightarrow> a \<in> set as \<Longrightarrow> 0 \<le> mlen h a"
  by (induction as arbitrary: xs) (auto simp: mbytes_def mlen_def split: bind_splits if_splits)

end
