(* ===== verification/MbufCopy.thy ===== *)
theory MbufCopy
  imports MbufFacts
begin

text \<open>
  The copying routines of \<open>Mbuf\<close>: what a write of bytes leaves alone, and the loops of
  \<open>m_devget\<close> and \<open>m_copydata\<close> as transfers between a byte string and the content of a chain.
\<close>

section \<open>Frames of a byte write\<close>

lemma rd_0: "rd h p 0 = Some []"
  by (simp add: rd_def)

lemma wr_total: "rd h p n = Some ys \<Longrightarrow> length xs \<le> n \<Longrightarrow> \<exists>h'. wr h p xs = Some h'"
  by (auto simp: rd_def wr_def split: if_splits option.splits)

lemma rd_take: "rd h p n = Some xs \<Longrightarrow> k \<le> n \<Longrightarrow> rd h p k = Some (take k xs)"
  by (auto simp: rd_def slice_def min_def split: if_splits option.splits)

lemma rd_block_ex: "rd h p n = Some xs \<Longrightarrow> 0 < n \<Longrightarrow> ld h (block_of p) \<noteq> None \<or> mm_buf h (block_of p) \<noteq> None"
  by (auto simp: rd_def split: option.splits)

lemma wr_rd_other:
  assumes "wr h p xs = Some h'" "block_of q \<noteq> block_of p"
  shows "rd h' q n = rd h q n"
  using wr_shape [OF assms(1)] assms(2) by (auto simp: rd_st_other rd_wb_other)

lemma wr_rd_same:
  assumes "wr h p xs = Some h'"
  shows "rd h' p (length xs) = Some xs"
proof (cases "xs = []")
  case True
  then show ?thesis by (simp add: rd_def)
next
  case ne: False
  show ?thesis
  proof (cases "ld h (block_of p)")
    case None
    with assms ne show ?thesis
      by (auto simp: wr_def rd_def ld_def slice_patch_same split: if_splits option.splits)
  next
    case (Some b)
    with assms ne show ?thesis using ld_nz [OF Some]
      by (auto simp: wr_def rd_def ld_st slice_patch_same split: if_splits)
  qed
qed

lemma rd_shape:
  "rd h p n \<noteq> None \<longleftrightarrow> n = 0 \<or> (case ld h (block_of p) of
      Some b \<Rightarrow> 40 \<le> p mod 4096 \<and> p mod 4096 - 40 + n \<le> length (m_dat b)
    | None \<Rightarrow> (case mm_buf h (block_of p) of Some bs \<Rightarrow> p mod 4096 + n \<le> length bs | None \<Rightarrow> False))"
  unfolding rd_def by (auto split: option.splits if_splits)

text \<open>A write keeps every readable range readable.\<close>

lemma wr_rd_defined:
  assumes "wr h p xs = Some h'" "rd h q n \<noteq> None"
  shows "rd h' q n \<noteq> None"
proof -
  from wr_shape [OF assms(1)] consider "h' = h"
    | c where "ld h (block_of p) = Some c"
        "h' = st h (block_of p) (c\<lparr>m_dat := patch (m_dat c) (p mod 4096 - 40) xs\<rparr>)"
        "p mod 4096 - 40 + length xs \<le> length (m_dat c)"
    | bs where "mm_buf h (block_of p) = Some bs" "ld h (block_of p) = None"
        "h' = wb h (block_of p) (patch bs (p mod 4096) xs)" "p mod 4096 + length xs \<le> length bs" by blast
  then show ?thesis
  proof cases
    case 1
    with assms(2) show ?thesis by simp
  next
    case (2 c)
    then have l: "length (patch (m_dat c) (p mod 4096 - 40) xs) = length (m_dat c)" by simp
    show ?thesis using assms(2) 2(1) ld_nz [OF 2(1)] unfolding rd_shape 2(2)
      by (cases "block_of q = block_of p") (simp_all add: ld_st l split: option.splits)
  next
    case (3 bs)
    show ?thesis using assms(2) 3(1,2,4) unfolding rd_shape 3(3)
      by (cases "block_of q = block_of p") (simp_all split: option.splits)
  qed
qed

lemma wr_env:
  assumes "wr h p xs = Some h'"
  shows "mm_next h' = mm_next h \<and> mm_quota h' = mm_quota h \<and> mm_junk h' = mm_junk h"
  using wr_shape [OF assms] by (auto simp: wb_def)

lemma wr_ld:
  assumes "wr h p xs = Some h'"
  shows "ld h' a = None \<longleftrightarrow> ld h a = None"
  using wr_shape [OF assms] by (auto simp: ld_st split: if_splits)

text \<open>The fields of an mbuf that a byte write cannot reach.\<close>

definition same_hdr :: "mbuf \<Rightarrow> mbuf \<Rightarrow> bool" where
  "same_hdr b b' \<longleftrightarrow> m_next b' = m_next b \<and> m_nextpkt b' = m_nextpkt b \<and> m_len b' = m_len b
     \<and> m_data b' = m_data b \<and> m_type b' = m_type b \<and> m_flags b' = m_flags b"

lemma wr_same_hdr: "wr h p xs = Some h' \<Longrightarrow> ld h a = Some b \<Longrightarrow> \<exists>b'. ld h' a = Some b' \<and> same_hdr b b'"
  unfolding same_hdr_def by (rule wr_keeps)

lemma wr_mchain:
  assumes "wr h p xs = Some h'"
  shows "mchain h' q as \<longleftrightarrow> mchain h q as"
proof (rule mchain_cong)
  fix a assume "a \<in> set as"
  show "m_next_of h' a = m_next_of h a"
    using wr_same_hdr [OF assms, of a] wr_ld [OF assms, of a]
    by (cases "ld h a") (auto simp: m_next_of_def same_hdr_def)
qed

text \<open>A write into the packet header of \<open>old\<close> does not touch bytes that lie behind it.\<close>

definition behind :: "addr \<Rightarrow> addr \<Rightarrow> int \<Rightarrow> bool" where
  "behind old p n \<longleftrightarrow> n = 0 \<or> block_of p \<noteq> old \<or> 56 \<le> p mod 4096"

lemma slice_patch_16:
  "length ys \<le> 16 \<Longrightarrow> 16 \<le> k \<Longrightarrow> 16 \<le> length xs \<Longrightarrow> slice k n (patch xs 0 ys) = slice k n xs"
  by (intro slice_patch_after) auto

lemma rd_pk_len:
  assumes "ld h old = Some b" "full b" "behind old p (int n)"
  shows "rd (st h old (set_pk_len v b)) p n = rd h p n"
proof (cases "n = 0 \<or> block_of p \<noteq> old")
  case True
  then show ?thesis by (elim disjE) (simp add: rd_def, rule rd_st_other)
next
  case False
  with assms have p: "block_of p = old" "56 \<le> p mod 4096" by (auto simp: behind_def)
  then have "slice (p mod 4096 - 40) n (m_dat (set_pk_len v b)) = slice (p mod 4096 - 40) n (m_dat b)"
    using assms(2) by (auto simp: set_pk_len_def full_def intro!: slice_patch_16)
  moreover have "length (m_dat (set_pk_len v b)) = length (m_dat b)"
    using full_set(1) [OF assms(2), of v] assms(2) by (simp add: full_def)
  ultimately show ?thesis using p False assms(1) ld_nz [OF assms(1)]
    by (simp add: rd_def ld_st)
qed

lemma mbytes_eq:
  "ld h a = Some b \<Longrightarrow> mbytes h a = (if m_len b < 0 then None else rd h (m_data b) (nat (m_len b)))"
  by (simp add: mbytes_def)

lemma mbytes_hdr_cong:
  assumes "ld h a = Some b" "ld h' a = Some b'" "m_len b' = m_len b" "m_data b' = m_data b"
    "0 \<le> m_len b \<Longrightarrow> rd h' (m_data b) (nat (m_len b)) = rd h (m_data b) (nat (m_len b))"
  shows "mbytes h' a = mbytes h a"
  using assms by (simp add: mbytes_def)


section \<open>m_devget\<close>

text \<open>What the loop of \<open>m_devget\<close> maintains: \<open>ys\<close> has been copied into the chain \<open>as\<close> under
  construction, whose storage is newer than the heap \<open>h0\<close> it started from, and \<open>xs\<close> is
  still to be read at \<open>p\<close>, which lies outside the chain; the bytes of \<open>h0\<close> are unchanged.\<close>

definition dg_inv :: "mem \<Rightarrow> mem \<Rightarrow> addr \<Rightarrow> addr list \<Rightarrow> u_char list \<Rightarrow> addr \<Rightarrow> u_char list \<Rightarrow> bool" where
  "dg_inv h0 h old as ys p xs \<longleftrightarrow>
     wf_mem h0 \<and> wf_mem h \<and> mchain h old as \<and> as \<noteq> [] \<and> content h as = Some ys
     \<and> (\<exists>ob. ld h old = Some ob \<and> has (m_flags ob) M_PKTHDR \<and> pk_len ob = int (length ys) \<and> pk_rcvif ob = 0)
     \<and> (\<forall>a\<in>set as. \<forall>b. ld h a = Some b \<longrightarrow> behind old (m_data b) (m_len b))
     \<and> rd h p (length xs) = Some xs \<and> (xs \<noteq> [] \<longrightarrow> block_of p \<noteq> old)
     \<and> int (length ys + length xs) < 2 ^ 31
     \<and> 4096 * mm_next h0 \<le> old
     \<and> (\<forall>q n z. rd h0 q n = Some z \<longrightarrow> rd h q n = Some z)
     \<and> (\<forall>a\<in>set as. \<forall>b. ld h a = Some b \<longrightarrow> m_len b = 0 \<or> 4096 * mm_next h0 \<le> block_of (m_data b))"

text \<open>The state in which an iteration copies: \<open>m\<close> is the empty last mbuf of the chain
  \<open>cs @ [m]\<close> and has \<open>cap\<close> bytes of storage of its own at \<open>m_data\<close>.\<close>

definition dg_cap :: "mbuf \<Rightarrow> int" where
  "dg_cap b = (if has (m_flags b) M_EXT then MCLBYTES else if has (m_flags b) M_PKTHDR then MHLEN else MLEN)"

definition dg_ready :: "mem \<Rightarrow> mem \<Rightarrow> addr \<Rightarrow> addr list \<Rightarrow> addr \<Rightarrow> mbuf \<Rightarrow> addr \<Rightarrow> bool" where
  "dg_ready h0 h old cs m b p \<longleftrightarrow> ld h m = Some b \<and> m_next b = 0 \<and> m_len b = 0
     \<and> rd h (m_data b) (nat (dg_cap b)) \<noteq> None \<and> behind old (m_data b) 1
     \<and> 4096 * mm_next h0 \<le> block_of (m_data b)
     \<and> block_of p \<noteq> block_of (m_data b) \<and> m_data b mod 4096 + nat (dg_cap b) \<le> 4096
     \<and> (\<forall>a\<in>set cs. \<forall>c. ld h a = Some c \<longrightarrow> m_len c = 0 \<or> block_of (m_data c) \<noteq> block_of (m_data b))"

text \<open>The copying half of an iteration.\<close>

definition dg_copy :: "mem \<Rightarrow> addr \<Rightarrow> addr \<Rightarrow> int \<Rightarrow> addr \<Rightarrow> mem option" where
  "dg_copy h old m n p = do {
     b \<leftarrow> ld h m;
     h \<leftarrow> memcpy h (m_data b) p n;
     h \<leftarrow> upd h m (\<lambda>b. b\<lparr>m_len := n\<rparr>);
     upd h old (\<lambda>b. set_pk_len (pk_len b + n) b) }"

lemma block_of_plus:
  assumes "p mod 4096 + j < 4096"
  shows "block_of (p + j) = block_of p" "(p + j) mod 4096 = p mod 4096 + j"
proof -
  have "(p + j) mod 4096 = (p mod 4096 + j) mod 4096" by (simp add: mod_add_left_eq)
  with assms show m: "(p + j) mod 4096 = p mod 4096 + j" by simp
  show "block_of (p + j) = block_of p" by (simp add: block_of_def m)
qed

lemma rd_cases:
  assumes "rd h p n = Some xs" "0 < n"
  obtains b where "ld h (block_of p) = Some b" "40 \<le> p mod 4096"
      "p mod 4096 - 40 + n \<le> length (m_dat b)" "xs = slice (p mod 4096 - 40) n (m_dat b)"
    | bs where "ld h (block_of p) = None" "mm_buf h (block_of p) = Some bs"
      "p mod 4096 + n \<le> length bs" "xs = slice (p mod 4096) n bs"
  using assms by (auto simp: rd_def split: if_splits option.splits)

lemma rd_bound:
  assumes "wf_mem h" "rd h p n = Some xs" "0 < n"
  shows "p mod 4096 + n \<le> 4096"
  using assms(2,3)
proof (cases rule: rd_cases)
  case (1 b)
  with wf_ld_full [OF assms(1) 1(1)] show ?thesis by (simp add: full_def)
next
  case (2 bs)
  from assms(1) 2(2) have "length bs \<le> 4096" unfolding wf_mem_def by blast
  with 2 show ?thesis by simp
qed

lemma drop_slice: "drop j (slice k n xs) = slice (k + j) (n - j) xs"
  by (simp add: slice_def drop_take add.commute)

lemma rd_drop:
  assumes "wf_mem h" "rd h p n = Some xs" "j \<le> n"
  shows "rd h (p + j) (n - j) = Some (drop j xs)"
proof (cases "n = j")
  case True
  then show ?thesis using rd_length [OF assms(2)] by (simp add: rd_def)
next
  case False
  with assms have "0 < n" by simp
  from rd_bound [OF assms(1,2) this] assms(3) False have "p mod 4096 + j < 4096" by simp
  note b = block_of_plus [OF this]
  from assms(2) \<open>0 < n\<close> show ?thesis
  proof (cases rule: rd_cases)
    case (1 c)
    then have "p mod 4096 + j - 40 = p mod 4096 - 40 + j" by simp
    with 1 assms(3) False show ?thesis by (simp add: rd_def b drop_slice)
  next
    case (2 bs)
    with assms(3) False show ?thesis by (simp add: rd_def b drop_slice)
  qed
qed


lemma wr_pk:
  assumes "wr h p xs = Some h'" "ld h a = Some b" "full b" "behind a p 1"
  shows "\<exists>b'. ld h' a = Some b' \<and> same_hdr b b' \<and> pk_len b' = pk_len b \<and> pk_rcvif b' = pk_rcvif b"
proof -
  have eq: "pk_len (b\<lparr>m_dat := patch (m_dat b) k ys\<rparr>) = pk_len b \<and>
      pk_rcvif (b\<lparr>m_dat := patch (m_dat b) k ys\<rparr>) = pk_rcvif b"
    if "16 \<le> k" "k + length ys \<le> length (m_dat b)" for k and ys :: "u_char list"
    using that by (simp add: pk_len_def pk_rcvif_def slice_patch_before)
  from wr_shape [OF assms(1)] consider "h' = h"
    | c where "ld h (block_of p) = Some c"
        "h' = st h (block_of p) (c\<lparr>m_dat := patch (m_dat c) (p mod 4096 - 40) xs\<rparr>)"
        "p mod 4096 - 40 + length xs \<le> length (m_dat c)"
    | bs where "h' = wb h (block_of p) bs" by blast
  then show ?thesis
  proof cases
    case 1
    with assms(2) show ?thesis by (simp add: same_hdr_def)
  next
    case (2 c)
    show ?thesis
    proof (cases "block_of p = a")
      case True
      with assms(4) have "16 \<le> p mod 4096 - 40" by (auto simp: behind_def)
      with eq 2 True assms(2) ld_nz [OF assms(2)] show ?thesis
        by (auto simp: same_hdr_def)
    next
      case False
      with 2 assms(2) show ?thesis by (simp add: ld_st same_hdr_def)
    qed
  next
    case 3
    with assms(2) show ?thesis by (simp add: same_hdr_def)
  qed
qed

lemma rd_old:
  assumes "wf_mem h0" "rd h0 q n = Some z" "0 < n"
  shows "block_of q < 4096 * mm_next h0"
proof -
  from rd_block_ex [OF assms(2,3)] assms(1) have "block_of q div 4096 < mm_next h0"
    unfolding wf_mem_def ld_def by (cases "block_of q = 0") (auto split: if_splits)
  then show ?thesis by (simp add: div_less_iff_less_mult mult.commute)
qed

lemma dg_copy_step:
  assumes inv: "dg_inv h0 h old (cs @ [m]) ys p xs" and rdy: "dg_ready h0 h old cs m b p"
    and n: "n = min (int (length xs)) (dg_cap b)"
  shows "\<exists>h'. dg_copy h old m n p = Some h'
    \<and> dg_inv h0 h' old (cs @ [m]) (ys @ take (nat n) xs) (p + nat n) (drop (nat n) xs)
    \<and> mm_quota h' = mm_quota h \<and> mm_next h' = mm_next h \<and> (\<exists>b'. ld h' m = Some b' \<and> m_next b' = 0)"
proof -
  let ?n = "nat n" and ?d = "m_data b"
  have wf: "wf_mem h" and ch: "mchain h old (cs @ [m])" and con: "content h (cs @ [m]) = Some ys"
    and src: "rd h p (length xs) = Some xs" and wf0: "wf_mem h0" "4096 * mm_next h0 \<le> old"
    using inv unfolding dg_inv_def by blast+
  obtain ob where ob: "ld h old = Some ob" "has (m_flags ob) M_PKTHDR" "pk_len ob = int (length ys)"
      "pk_rcvif ob = 0" using inv by (auto simp: dg_inv_def)
  have beh: "behind old (m_data c) (m_len c)" if "a \<in> set (cs @ [m])" "ld h a = Some c" for a c
    using inv that unfolding dg_inv_def by blast
  have b: "ld h m = Some b" "m_next b = 0" "m_len b = 0" "behind old ?d 1"
      "block_of p \<noteq> block_of ?d" "?d mod 4096 + nat (dg_cap b) \<le> 4096"
      "4096 * mm_next h0 \<le> block_of ?d"
    and sep: "\<And>a c. a \<in> set cs \<Longrightarrow> ld h a = Some c \<Longrightarrow> m_len c = 0 \<or> block_of (m_data c) \<noteq> block_of ?d"
    using rdy by (auto simp: dg_ready_def)
  have cap: "0 \<le> dg_cap b" by (simp add: dg_cap_def)
  have n0: "0 \<le> n" "?n \<le> length xs" "?n \<le> nat (dg_cap b)" "int ?n = n" using n cap by auto
  let ?zs = "take ?n xs"
  have zs: "rd h p ?n = Some ?zs" by (rule rd_take [OF src n0(2)])
  have lz: "length ?zs = ?n" using n0 by simp
  have "rd h ?d (nat (dg_cap b)) \<noteq> None" using rdy by (simp add: dg_ready_def)
  then obtain h1 where h1: "wr h ?d ?zs = Some h1"
    using wr_total [of h ?d "nat (dg_cap b)" _ ?zs] lz n0 by fastforce
  have mc: "memcpy h ?d p n = Some h1"
  proof (cases "?n = 0")
    case True
    with h1 n0 show ?thesis by (simp add: memcpy_def wr_def)
  next
    case False
    with rd_bound [OF wf zs] have "p mod 4096 + ?n \<le> 4096" by simp
    with memcpy_eq [OF zs n0(1) b(5)] b(6) n0 h1 show ?thesis by simp
  qed
  obtain b1 where b1: "ld h1 m = Some b1" "same_hdr b b1" using wr_same_hdr [OF h1 b(1)] by blast
  obtain ob1 where ob1: "ld h1 old = Some ob1" "same_hdr ob ob1" "pk_len ob1 = pk_len ob" "pk_rcvif ob1 = pk_rcvif ob"
    using wr_pk [OF h1 ob(1) wf_ld_full [OF wf ob(1)]] b(4) by blast
  have wf1: "wf_mem h1" by (rule wf_wr [OF wf h1])
  let ?h2 = "st h1 m (b1\<lparr>m_len := n\<rparr>)"
  define ob2 where "ob2 = (if old = m then b1\<lparr>m_len := n\<rparr> else ob1)"
  have ob2: "ld ?h2 old = Some ob2" using ob1 b1 ld_nz [OF b1(1)] by (simp add: ob2_def ld_st)
  have ob2': "pk_len ob2 = int (length ys)" "pk_rcvif ob2 = 0" "m_flags ob2 = m_flags ob" "m_next ob2 = m_next ob1"
    using ob ob1 b1 b(1) by (auto simp: ob2_def same_hdr_def)
  have wf2: "wf_mem ?h2" using wf1 b1 by (simp add: wf_st wf_ld_full)
  have f2: "full ob2" by (rule wf_ld_full [OF wf2 ob2])
  let ?h3 = "st ?h2 old (set_pk_len (int (length ys) + n) ob2)"
  have run: "dg_copy h old m n p = Some ?h3"
    using mc by (simp add: dg_copy_def b(1) upd_eq [OF b1(1)] upd_eq [OF ob2] ob2')
  have wf3: "wf_mem ?h3" using wf2 ob2 f2 by (simp add: wf_st)
  have env: "mm_quota ?h3 = mm_quota h" "mm_next ?h3 = mm_next h" using wr_env [OF h1] by simp_all
  have keep: "\<exists>c'. ld ?h3 a = Some c' \<and> m_next c' = m_next c \<and> m_data c' = m_data c \<and>
      m_len c' = (if a = m then n else m_len c)" if kc: "ld h a = Some c" for a c
  proof -
    obtain c1 where c1: "ld h1 a = Some c1" "same_hdr c c1" using wr_same_hdr [OF h1 kc] by blast
    consider "a = old" | "a = m" "a \<noteq> old" | "a \<noteq> m" "a \<noteq> old" by blast
    then show ?thesis
    proof cases
      case 1
      with c1 b1 ob1 ld_nz [OF kc] show ?thesis by (auto simp: same_hdr_def ob2_def)
    next
      case 2
      with c1 b1 ld_nz [OF kc] show ?thesis by (auto simp: same_hdr_def ld_st)
    next
      case 3
      with c1 show ?thesis by (auto simp: same_hdr_def ld_st)
    qed
  qed
  have none: "ld ?h3 a = None \<longleftrightarrow> ld h a = None" for a
    using wr_ld [OF h1, of a] ob1(1) b1(1) by (auto simp: ld_st)
  have ch3: "mchain ?h3 old (cs @ [m])"
  proof -
    have "m_next_of ?h3 a = m_next_of h a" for a
      using keep [of a] none [of a] by (cases "ld h a") (auto simp: m_next_of_def)
    with ch show ?thesis by (subst mchain_cong [of _ _ h]) auto
  qed
  have fr: "rd ?h3 q k = rd h1 q k" if "behind old q (int k)" for q k
    using rd_pk_len [OF ob2 f2 that] rd_st_same_dat [OF b1(1)] by simp
  have fro: "rd ?h3 q k = rd h q k" if "behind old q (int k)" "k = 0 \<or> block_of q \<noteq> block_of ?d" for q k
    using fr [OF that(1)] wr_rd_other [OF h1, of q k] that(2) by (auto simp: rd_def)
  have rdm: "rd ?h3 ?d ?n = Some ?zs"
    using fr [of ?d ?n] wr_rd_same [OF h1] b(4) lz by (simp add: behind_def)
  have "m \<notin> set cs" using chain_distinct [OF ch] by simp
  have mb: "mbytes ?h3 a = mbytes h a" if a: "a \<in> set cs" for a
  proof -
    from mchain_ld [OF ch, of a] a obtain c where c: "ld h a = Some c" by auto
    have "a \<noteq> m" using a \<open>m \<notin> set cs\<close> by blast
    with keep [OF c] obtain c' where "ld ?h3 a = Some c'" "m_len c' = m_len c" "m_data c' = m_data c"
      by auto
    moreover have "rd ?h3 (m_data c) (nat (m_len c)) = rd h (m_data c) (nat (m_len c))" if "0 \<le> m_len c"
    proof (rule fro)
      show "behind old (m_data c) (int (nat (m_len c)))" using beh [of a c] a c that by simp
      show "nat (m_len c) = 0 \<or> block_of (m_data c) \<noteq> block_of ?d" using sep [OF a c] by auto
    qed
    ultimately show ?thesis by (rule mbytes_hdr_cong [OF c])
  qed
  obtain b3 where b3: "ld ?h3 m = Some b3" "m_next b3 = 0" "m_data b3 = ?d" "m_len b3 = n"
    using keep [OF b(1)] b(2) by auto
  have "mbytes h m = Some []" using b by (simp add: mbytes_def rd_def)
  with con have "content h cs = Some ys" by (auto simp: content_append split: bind_splits)
  moreover have "mbytes ?h3 m = Some ?zs" using b3 n0(1) rdm by (simp add: mbytes_def)
  ultimately have con3: "content ?h3 (cs @ [m]) = Some (ys @ ?zs)"
    using content_cong [of cs ?h3 h] mb by (simp add: content_append)
  have rest: "rd ?h3 (p + ?n) (length xs - ?n) = Some (drop ?n xs) \<and>
      (drop ?n xs \<noteq> [] \<longrightarrow> block_of (p + ?n) \<noteq> old)"
  proof (cases "?n = length xs")
    case True
    then show ?thesis by (simp add: rd_def)
  next
    case False
    with n0 have l: "?n < length xs" by simp
    with rd_bound [OF wf src] have "p mod 4096 + ?n < 4096" by fastforce
    note bp = block_of_plus [OF this]
    have bo: "block_of p \<noteq> old" using inv l by (auto simp: dg_inv_def)
    with bp b(5) have "rd ?h3 (p + ?n) (length xs - ?n) = rd h (p + ?n) (length xs - ?n)"
      by (intro fro) (auto simp: behind_def)
    with rd_drop [OF wf src n0(2)] bo bp show ?thesis by simp
  qed
  have lens: "int (length (ys @ ?zs)) = int (length ys) + n" using lz n0 by simp
  have tot: "int (length ys + length xs) < 2 ^ 31" using inv unfolding dg_inv_def by blast
  have ob3: "ld ?h3 old = Some (set_pk_len (int (length ys) + n) ob2)"
    using ld_nz [OF ob(1)] by simp
  have "int32 (int (length ys) + n)" using tot n0(1) n by (auto simp: int32_def)
  then have pk: "pk_len (set_pk_len (int (length ys) + n) ob2) = int (length (ys @ ?zs))"
    using f2 lens by simp
  have beh3: "behind old (m_data c) (m_len c)" if ac: "a \<in> set (cs @ [m])" "ld ?h3 a = Some c" for a c
  proof -
    obtain c0 where c0: "ld h a = Some c0" using ac(2) none [of a] by (cases "ld h a") auto
    from keep [OF c0] ac(2) have e: "m_data c = m_data c0" "m_len c = (if a = m then n else m_len c0)" by auto
    show ?thesis
    proof (cases "a = m")
      case True
      with e c0 b(1,4) show ?thesis by (auto simp: behind_def)
    next
      case False
      with e beh [OF ac(1) c0] show ?thesis by simp
    qed
  qed
  have new: "m_len c = 0 \<or> 4096 * mm_next h0 \<le> block_of (m_data c)"
    if ac: "a \<in> set (cs @ [m])" "ld ?h3 a = Some c" for a c
  proof -
    obtain c0 where c0: "ld h a = Some c0" using ac(2) none [of a] by (cases "ld h a") auto
    from keep [OF c0] ac(2) have e: "m_data c = m_data c0" "m_len c = (if a = m then n else m_len c0)" by auto
    show ?thesis
    proof (cases "a = m")
      case True
      with e c0 b(1,7) show ?thesis by simp
    next
      case False
      have "m_len c0 = 0 \<or> 4096 * mm_next h0 \<le> block_of (m_data c0)"
        using inv ac(1) c0 unfolding dg_inv_def by blast
      with e False show ?thesis by simp
    qed
  qed
  have frame: "rd ?h3 q k = Some z" if z: "rd h0 q k = Some z" for q k z
  proof (cases "k = 0")
    case True
    with z show ?thesis by (simp add: rd_0)
  next
    case False
    then have "block_of q < 4096 * mm_next h0" using rd_old [OF wf0(1) z] by simp
    with wf0(2) b(7) have "block_of q \<noteq> old" "block_of q \<noteq> block_of ?d" by auto
    then have "rd ?h3 q k = rd h q k" by (intro fro) (auto simp: behind_def)
    moreover have "rd h q k = Some z" using inv z unfolding dg_inv_def by blast
    ultimately show ?thesis by simp
  qed
  have "dg_inv h0 ?h3 old (cs @ [m]) (ys @ ?zs) (p + ?n) (drop ?n xs)"
    unfolding dg_inv_def
  proof (intro conjI)
    show "\<exists>ob. ld ?h3 old = Some ob \<and> has (m_flags ob) M_PKTHDR \<and> pk_len ob = int (length (ys @ ?zs)) \<and> pk_rcvif ob = 0"
      using ob3 pk ob2' ob(2) f2 by simp
    show "\<forall>a\<in>set (cs @ [m]). \<forall>c. ld ?h3 a = Some c \<longrightarrow> behind old (m_data c) (m_len c)"
      using beh3 by blast
    show "int (length (ys @ ?zs) + length (drop ?n xs)) < 2 ^ 31" using tot n0 by simp
    show "\<forall>q k z. rd h0 q k = Some z \<longrightarrow> rd ?h3 q k = Some z" using frame by blast
    show "\<forall>a\<in>set (cs @ [m]). \<forall>c. ld ?h3 a = Some c \<longrightarrow> m_len c = 0 \<or> 4096 * mm_next h0 \<le> block_of (m_data c)"
      using new by blast
  qed (use wf3 ch3 con3 rest n0 wf0 in simp_all)
  with run env b3 show ?thesis by blast
qed


lemma rd_cat:
  assumes ld': "\<And>a. ld h' a = map_option (cat_mbuf old l n tot a) (ld h a)" and env: "mm_buf h' = mm_buf h"
    and wf: "wf_mem h" and beh: "behind old p (int k)"
  shows "rd h' p k = rd h p k"
proof (cases "ld h (block_of p)")
  case None
  then show ?thesis by (simp add: rd_def ld' env)
next
  case (Some b)
  let ?b' = "cat_mbuf old l n tot (block_of p) b"
  from wf_ld_full [OF wf Some] have f: "full b" "full ?b'" by simp_all
  have "slice (p mod 4096 - 40) k (m_dat ?b') = slice (p mod 4096 - 40) k (m_dat b)"
  proof (cases "block_of p = old")
    case True
    show ?thesis
    proof (cases "k = 0")
      case k: False
      with True beh f show ?thesis
        by (auto simp: behind_def cat_mbuf_def Let_def set_pk_len_def full_def intro!: slice_patch_16)
    qed simp
  next
    case False
    then show ?thesis by (simp add: cat_mbuf_other)
  qed
  with f Some show ?thesis
    by (cases "40 \<le> p mod 4096") (simp_all add: rd_def ld' full_def del: add_diff_assoc2 Nat.add_diff_assoc2)
qed

context mbuf_alloc
begin

text \<open>A freshly allocated mbuf without a packet header, hung on the chain under construction.\<close>

lemma alloc_extend:
  assumes inv: "dg_inv h0 h old as ys p xs" and al: "alloc h = Some (m, h1)" "m \<noteq> 0"
    and b: "ld h1 m = Some b" "\<not> has (m_flags b) M_PKTHDR"
  shows "\<exists>h2. m_cat h1 old m = Some h2 \<and> same_env h1 h2 \<and> dg_inv h0 h2 old (as @ [m]) ys p xs \<and>
    ld h2 m = Some b \<and> (\<forall>q n. behind old q (int n) \<longrightarrow> rd h2 q n = rd h1 q n) \<and>
    (\<forall>a\<in>set as. \<forall>c. ld h2 a = Some c \<longrightarrow>
       (\<exists>c0. ld h a = Some c0 \<and> m_len c = m_len c0 \<and> m_data c = m_data c0))"
proof -
  have wf: "wf_mem h" and ch: "mchain h old as" "as \<noteq> []" and con: "content h as = Some ys"
    and src: "rd h p (length xs) = Some xs" and p: "xs \<noteq> [] \<longrightarrow> block_of p \<noteq> old"
    and tot: "int (length ys + length xs) < 2 ^ 31" and wf0: "wf_mem h0" "4096 * mm_next h0 \<le> old"
    using inv unfolding dg_inv_def by blast+
  obtain ob where ob: "ld h old = Some ob" "has (m_flags ob) M_PKTHDR" "pk_len ob = int (length ys)"
      "pk_rcvif ob = 0" using inv by (auto simp: dg_inv_def)
  have beh: "behind old (m_data c) (m_len c)" if "a \<in> set as" "ld h a = Some c" for a c
    using inv that unfolding dg_inv_def by blast
  have wf1: "wf_mem h1" by (rule alloc_wf [OF wf al(1)])
  have b': "m_next b = 0" "m_len b = 0" using alloc_new [OF wf al] b by auto
  have ch1: "mchain h1 old as" "m \<notin> set as" using alloc_chain [OF wf al(1) ch(1)] by simp_all
  have chm: "mchain h1 m [m]" by (rule alloc_single [OF wf al])
  have ct: "chain_total h1 [m] = 0" using b b' by simp
  from m_cat_spec [OF wf1 ch1(1) ch(2) chm _ _ b(1)] ch1(2) b(2) ct
  obtain h2 where h2: "m_cat h1 old m = Some h2" "same_env h1 h2" "wf_mem h2"
    and ld2: "\<And>a. ld h2 a = map_option (cat_mbuf old (last as) m 0 a) (ld h1 a)" by auto
  have ch2: "mchain h2 old (as @ [m])"
    using cat_chain [OF ld2 ch1(1) ch(2) chm] ch1(2) by simp
  have om: "old \<noteq> m" using alloc_keeps [OF wf al(1) ob(1)] by blast
  have "last as \<noteq> m" using ch1(2) ch(2) last_in_set by metis
  with om have m2: "ld h2 m = Some b" using b by (simp add: ld2 cat_mbuf_def)
  have fr: "rd h2 q n = rd h1 q n" if "behind old q (int n)" for q n
    using rd_cat [OF ld2 _ wf1 that] h2(2) by (simp add: same_env_def)
  have keep: "\<exists>c. ld h2 a = Some c \<and> m_len c = m_len c0 \<and> m_data c = m_data c0" if "ld h a = Some c0" for a c0
    using alloc_keeps [OF wf al(1) that] by (simp add: ld2)
  have mb: "mbytes h2 a = mbytes h a" if a: "a \<in> set as" for a
  proof -
    from mchain_ld [OF ch(1) a] obtain c where c: "ld h a = Some c" by blast
    with keep obtain c' where c': "ld h2 a = Some c'" "m_len c' = m_len c" "m_data c' = m_data c" by blast
    have "mbytes h a \<noteq> None" using con a by (auto simp: in_set_conv_decomp content_append split: bind_splits)
    then obtain zs where zs: "0 \<le> m_len c" "rd h (m_data c) (nat (m_len c)) = Some zs"
      using c by (auto simp: mbytes_def split: if_splits)
    moreover have "rd h2 (m_data c) (nat (m_len c)) = rd h1 (m_data c) (nat (m_len c))"
      using beh [OF a c] zs(1) by (intro fr) simp
    ultimately show ?thesis using c c' alloc_rd [OF wf al(1) zs(2)] by (simp add: mbytes_def)
  qed
  have "mbytes h2 m = Some []" using m2 b' by (simp add: mbytes_def rd_def)
  with con have con2: "content h2 (as @ [m]) = Some ys"
    using content_cong [of as h2 h] mb by (simp add: content_append)
  have "ld h2 old = Some (cat_mbuf old (last as) m 0 old ob)"
    using alloc_keeps [OF wf al(1) ob(1)] by (simp add: ld2)
  moreover have "pk_len (cat_mbuf old (last as) m 0 old ob) = int (length ys)"
    using cat_mbuf_pk [OF wf_ld_full [OF wf ob(1)] ob(2), of 0 old "last as" m] ob(3) tot
    by (simp add: int32_def)
  moreover have "pk_rcvif (cat_mbuf old (last as) m 0 old ob) = 0"
    using ob(4) wf_ld_full [OF wf ob(1)] by (simp add: cat_mbuf_def Let_def)
  ultimately have hd: "\<exists>ob. ld h2 old = Some ob \<and> has (m_flags ob) M_PKTHDR \<and>
      pk_len ob = int (length ys) \<and> pk_rcvif ob = 0" using ob(2) by simp
  have bk: "\<exists>c0. ld h a = Some c0 \<and> m_len c = m_len c0 \<and> m_data c = m_data c0"
    if "a \<in> set as" "ld h2 a = Some c" for a c
    using mchain_ld [OF ch(1) that(1)] keep [of a] that(2) by force
  have beh2: "behind old (m_data c) (m_len c)" if "a \<in> set (as @ [m])" "ld h2 a = Some c" for a c
    using bk [of a c] beh [of a] that m2 b' by (cases "a \<in> set as") (auto simp: behind_def)
  have src2: "rd h2 p (length xs) = Some xs"
    using fr [of p "length xs"] alloc_rd [OF wf al(1) src] p by (auto simp: behind_def)
  have frame: "rd h2 q k = Some z" if z: "rd h0 q k = Some z" for q k z
  proof (cases "k = 0")
    case True
    with z show ?thesis by (simp add: rd_0)
  next
    case False
    then have "block_of q < 4096 * mm_next h0" using rd_old [OF wf0(1) z] by simp
    with wf0(2) have "block_of q \<noteq> old" by auto
    then have "rd h2 q k = rd h1 q k" by (intro fr) (simp add: behind_def)
    moreover have "rd h q k = Some z" using inv z unfolding dg_inv_def by blast
    ultimately show ?thesis using alloc_rd [OF wf al(1)] by simp
  qed
  have new: "m_len c = 0 \<or> 4096 * mm_next h0 \<le> block_of (m_data c)"
    if ac: "a \<in> set (as @ [m])" "ld h2 a = Some c" for a c
  proof (cases "a \<in> set as")
    case True
    with bk [OF True ac(2)] obtain c0 where "ld h a = Some c0" "m_len c = m_len c0" "m_data c = m_data c0" by blast
    moreover from this(1) True have "m_len c0 = 0 \<or> 4096 * mm_next h0 \<le> block_of (m_data c0)"
      using inv unfolding dg_inv_def by blast
    ultimately show ?thesis by simp
  next
    case False
    with ac m2 b' show ?thesis by simp
  qed
  have "dg_inv h0 h2 old (as @ [m]) ys p xs"
    unfolding dg_inv_def using h2(3) ch2 con2 hd beh2 src2 p tot wf0 frame new by simp
  with h2 m2 fr bk show ?thesis by blast
qed

end


lemma dg_loop_step:
  assumes "ld h m = Some b" "m_len b = 0" "0 < len" "n = min len (dg_cap b)"
  shows "m_devget_loop h old m hc len p = do { h \<leftarrow> dg_copy h old m n p; b \<leftarrow> ld h m;
     m_devget_loop h old (m_next b) hc (len - n) (ptr_add p n) }"
  using assms ld_nz [OF assms(1)]
  by (subst m_devget_loop.simps)
    (cases "has (m_flags b) M_EXT"; cases "has (m_flags b) M_PKTHDR"; simp add: dg_copy_def dg_cap_def Let_def)

lemma content_mbytes: "content h as = Some ys \<Longrightarrow> a \<in> set as \<Longrightarrow> mbytes h a \<noteq> None"
  by (auto simp: in_set_conv_decomp content_append split: bind_splits)

text \<open>An mbuf whose storage lies in a block that was free before is ready.\<close>

lemma dg_readyI:
  assumes inv: "dg_inv h0 h old as ys p xs" "xs \<noteq> []"
    and b: "ld h2 m = Some b" "m_next b = 0" "m_len b = 0"
    and bk: "\<And>a c. a \<in> set as \<Longrightarrow> ld h2 a = Some c \<Longrightarrow>
       \<exists>c0. ld h a = Some c0 \<and> m_len c = m_len c0 \<and> m_data c = m_data c0"
    and B: "ld h (block_of (m_data b)) = None" "mm_buf h (block_of (m_data b)) = None"
      "4096 * mm_next h0 \<le> block_of (m_data b)"
    and cap: "rd h2 (m_data b) (nat (dg_cap b)) \<noteq> None" "m_data b mod 4096 + nat (dg_cap b) \<le> 4096"
  shows "dg_ready h0 h2 old as m b p"
proof -
  have used: "block_of q \<noteq> block_of (m_data b)" if "rd h q n = Some zs" "0 < n" for q n zs
    using rd_block_ex [OF that] B by metis
  have old: "block_of (m_data b) \<noteq> old" using inv(1) B(1) by (auto simp: dg_inv_def)
  have p: "block_of p \<noteq> block_of (m_data b)"
    using inv by (intro used [of p "length xs" xs]) (auto simp: dg_inv_def)
  have con: "content h as = Some ys" using inv(1) by (simp add: dg_inv_def)
  have "m_len c = 0 \<or> block_of (m_data c) \<noteq> block_of (m_data b)" if ac: "a \<in> set as" "ld h2 a = Some c" for a c
  proof -
    from bk [OF ac] obtain c0 where c0: "ld h a = Some c0" "m_len c = m_len c0" "m_data c = m_data c0" by blast
    from content_mbytes [OF con ac(1)] c0
    obtain zs where "0 \<le> m_len c0" "rd h (m_data c0) (nat (m_len c0)) = Some zs"
      by (auto simp: mbytes_def split: if_splits)
    with used [of "m_data c0" "nat (m_len c0)" zs] c0 show ?thesis by auto
  qed
  with b p old cap B(3) show ?thesis by (auto simp: dg_ready_def behind_def)
qed

text \<open>Each round after the first takes \<open>dg_blocks\<close> blocks and moves up to \<open>dg_room\<close> bytes.\<close>

definition dg_room :: "bool \<Rightarrow> nat" where "dg_room hc = (if hc then 2048 else 88)"
definition dg_blocks :: "bool \<Rightarrow> nat" where "dg_blocks hc = (if hc then 2 else 1)"

abbreviation dg_alloc :: "mem \<Rightarrow> bool \<Rightarrow> (addr \<times> mem) option" where
  "dg_alloc h hc \<equiv> (if \<not> hc then m_get h 0 0 else m_getclr h 0 0)"

lemma dg_round:
  assumes inv: "dg_inv h0 h old as ys p xs" "xs \<noteq> []"
    and q: "dg_blocks hc \<le> mm_quota h" "mm_next h + dg_blocks hc \<le> 2 ^ 50" and n0: "mm_next h0 \<le> mm_next h"
  shows "\<exists>m h1 h2 b. dg_alloc h hc = Some (m, h1) \<and> m_cat h1 old m = Some h2 \<and> m \<noteq> 0 \<and>
    dg_inv h0 h2 old (as @ [m]) ys p xs \<and> dg_ready h0 h2 old as m b p \<and> dg_cap b = int (dg_room hc) \<and>
    mm_quota h2 + dg_blocks hc = mm_quota h \<and> mm_next h2 = mm_next h + dg_blocks hc"
proof -
  have wf: "wf_mem h" using inv(1) by (simp add: dg_inv_def)
  have ok: "malloc_ok h" using q by (auto simp: malloc_ok_def dg_blocks_def split: if_splits)
  note nz = fresh_nz [OF ok wf]
  show ?thesis
  proof (cases hc)
    case False
    let ?b = "zero_mbuf h 0" and ?m = "fresh h"
    let ?h1 = "st (took h) ?m ?b"
    have al: "m_get h 0 0 = Some (?m, ?h1)" by (rule m_get_ok [OF ok wf])
    have b: "ld ?h1 ?m = Some ?b" "\<not> has (m_flags ?b) M_PKTHDR" using nz by simp_all
    from mg.alloc_extend [OF inv(1) al _ b] nz obtain h2 where h2: "m_cat ?h1 old ?m = Some h2"
      "same_env ?h1 h2" "dg_inv h0 h2 old (as @ [?m]) ys p xs" "ld h2 ?m = Some ?b"
      "\<forall>q n. behind old q (int n) \<longrightarrow> rd h2 q n = rd ?h1 q n"
      "\<forall>a\<in>set as. \<forall>c. ld h2 a = Some c \<longrightarrow>
         (\<exists>c0. ld h a = Some c0 \<and> m_len c = m_len c0 \<and> m_data c = m_data c0)" by auto
    have bo: "block_of (fresh h + 40) = fresh h" "(fresh h + 40) mod 4096 = 40"
      using fresh_props(2) [of h] by (intro block_of_add mod_add_base; simp)+
    have "fresh h \<noteq> old" using inv(1) ld_fresh [OF wf] by (auto simp: dg_inv_def)
    then have "rd h2 (fresh h + 40) 88 = rd ?h1 (fresh h + 40) 88"
      using h2(5) bo by (simp add: behind_def)
    also have "\<dots> = Some (slice 0 88 (m_dat ?b))"
      using rd_mbuf [OF b(1) fresh_props(2), of 0 88] by simp
    finally have rd: "rd h2 (fresh h + 40) 88 \<noteq> None" by simp
    have "dg_ready h0 h2 old as ?m ?b p"
      by (rule dg_readyI [OF inv h2(4)]) (use h2(6) bo wf_fresh [OF wf] ld_fresh [OF wf] rd n0 in \<open>auto simp: dg_cap_def fresh_def\<close>)
    moreover have "mm_quota h2 + dg_blocks hc = mm_quota h" "mm_next h2 = mm_next h + dg_blocks hc"
      "dg_cap ?b = int (dg_room hc)"
      using False q same_envD [OF h2(2)] by (simp_all add: dg_cap_def dg_room_def dg_blocks_def)
    ultimately show ?thesis using False al h2(1,3) nz
      by (intro exI [of _ ?m] exI [of _ ?h1] exI [of _ h2] exI [of _ ?b]) simp
  next
    case True
    let ?b = "cl_mbuf h 0" and ?m = "fresh h" and ?B = "fresh (took h)"
    let ?h1 = "cl_heap h 0"
    have ok2: "malloc_ok (took h)" using q True by (auto simp: malloc_ok_def dg_blocks_def)
    have al: "m_getclr h 0 0 = Some (?m, ?h1)" by (rule m_getclr_ok [OF ok ok2 wf])
    have b: "ld ?h1 ?m = Some ?b" "\<not> has (m_flags ?b) M_PKTHDR" using cl_heap_ld [OF wf] by simp_all
    from mgc.alloc_extend [OF inv(1) al _ b] nz obtain h2 where h2: "m_cat ?h1 old ?m = Some h2"
      "same_env ?h1 h2" "dg_inv h0 h2 old (as @ [?m]) ys p xs" "ld h2 ?m = Some ?b"
      "\<forall>q n. behind old q (int n) \<longrightarrow> rd h2 q n = rd ?h1 q n"
      "\<forall>a\<in>set as. \<forall>c. ld h2 a = Some c \<longrightarrow>
         (\<exists>c0. ld h a = Some c0 \<and> m_len c = m_len c0 \<and> m_data c = m_data c0)" by auto
    have bo: "block_of ?B = ?B" "?B mod 4096 = 0" using fresh_props(2) by (auto intro: block_of_base)
    have nB: "ld h ?B = None" "mm_buf h ?B = None"
      using wf_fresh [OF wf_took [OF wf]] by (simp_all add: ld_def)
    then have "?B \<noteq> old" using inv(1) by (auto simp: dg_inv_def)
    then have "rd h2 (?B + 0) 2048 = rd ?h1 (?B + 0) 2048"
      using h2(5) bo by (simp add: behind_def)
    also have "\<dots> = Some (slice 0 2048 (replicate 2048 0))"
      using nB bo by (intro rd_buf) (simp_all add: cl_heap_def ld_st fresh_took)
    finally have rd: "rd h2 ?B 2048 \<noteq> None" by simp
    have "dg_ready h0 h2 old as ?m ?b p"
      by (rule dg_readyI [OF inv h2(4)]) (use h2(6) bo nB rd n0 in \<open>auto simp: dg_cap_def fresh_def\<close>)
    moreover have "mm_quota h2 + dg_blocks hc = mm_quota h" "mm_next h2 = mm_next h + dg_blocks hc"
      "dg_cap ?b = int (dg_room hc)"
      using True q same_envD [OF h2(2)] by (simp_all add: dg_cap_def dg_room_def dg_blocks_def cl_heap_def)
    ultimately show ?thesis using True al h2(1,3) nz
      by (intro exI [of _ ?m] exI [of _ ?h1] exI [of _ h2] exI [of _ ?b]) simp
  qed
qed

lemma dg_loop:
  assumes "dg_inv h0 h old as ys p xs" "length xs \<le> k * dg_room hc"
    "k * dg_blocks hc \<le> mm_quota h" "mm_next h + k * dg_blocks hc \<le> 2 ^ 50" "mm_next h0 \<le> mm_next h"
  shows "\<exists>h' as' q. m_devget_loop h old 0 hc (int (length xs)) p = Some h' \<and> dg_inv h0 h' old as' (ys @ xs) q []"
  using assms
proof (induction k arbitrary: h as ys p xs)
  case 0
  then show ?case by (subst m_devget_loop.simps) auto
next
  case (Suc k)
  show ?case
  proof (cases "xs = []")
    case True
    with Suc.prems(1) show ?thesis by (subst m_devget_loop.simps) auto
  next
    case False
    from dg_round [OF Suc.prems(1) False, of hc] Suc.prems(3-5)
    obtain m h1 h2 b where r: "dg_alloc h hc = Some (m, h1)" "m_cat h1 old m = Some h2" "m \<noteq> 0"
      "dg_inv h0 h2 old (as @ [m]) ys p xs" "dg_ready h0 h2 old as m b p" "dg_cap b = int (dg_room hc)"
      "mm_quota h2 + dg_blocks hc = mm_quota h" "mm_next h2 = mm_next h + dg_blocks hc" by auto
    have b: "ld h2 m = Some b" "m_len b = 0" using r(5) by (auto simp: dg_ready_def)
    let ?n = "min (int (length xs)) (dg_cap b)"
    from dg_copy_step [OF r(4,5) refl] obtain h3 b3 where c: "dg_copy h2 old m ?n p = Some h3"
      "dg_inv h0 h3 old (as @ [m]) (ys @ take (nat ?n) xs) (p + nat ?n) (drop (nat ?n) xs)"
      "mm_quota h3 = mm_quota h2" "mm_next h3 = mm_next h2" "ld h3 m = Some b3" "m_next b3 = 0" by auto
    let ?n' = "nat ?n"
    have n: "int ?n' = ?n" "length (drop ?n' xs) \<le> k * dg_room hc" using r(6) Suc.prems(2) by auto
    from Suc.IH [OF c(2) n(2)] c(3,4) r(7,8) Suc.prems(3-5)
    obtain h' as' q where l: "m_devget_loop h3 old 0 hc (int (length (drop ?n' xs))) (p + ?n') = Some h'"
      "dg_inv h0 h' old as' ((ys @ take ?n' xs) @ drop ?n' xs) q []" by auto
    have "m_devget_loop h old 0 hc (int (length xs)) p = m_devget_loop h2 old m hc (int (length xs)) p"
      using False r(1-3) by (subst (1 2) m_devget_loop.simps) simp
    also have "\<dots> = m_devget_loop h3 old 0 hc (int (length xs) - ?n) (ptr_add p ?n)"
      using dg_loop_step [OF b, of "int (length xs)" ?n] False c by simp
    also have "int (length xs) - ?n = int (length (drop ?n' xs))" using n by auto
    also have "ptr_add p ?n = p + ?n'" by (metis n(1) nat_int ptr_add_def of_nat_add)
    finally show ?thesis using l by auto
  qed
qed


lemma MGETHDR_inv:
  assumes wf: "wf_mem h" and ok: "malloc_ok h" and src: "rd h p (length xs) = Some xs"
    and len: "length xs \<le> 4096" and h1_def: "h1 = st (took h) (fresh h) (hdr_mbuf h t)"
  shows "dg_inv h h1 (fresh h) [fresh h] [] p xs"
    and "xs \<noteq> [] \<Longrightarrow> dg_ready h h1 (fresh h) [] (fresh h) (hdr_mbuf h t) p"
proof -
  let ?b = "hdr_mbuf h t" and ?m = "fresh h"
  note nz = fresh_nz [OF ok wf]
  have al: "MGETHDR h 0 t = Some (?m, h1)" unfolding h1_def by (rule MGETHDR_ok [OF ok wf])
  have b: "ld h1 ?m = Some ?b" using nz by (simp add: h1_def)
  have wf1: "wf_mem h1" unfolding h1_def by (rule wf_took_st [OF wf]) simp
  have src1: "rd h1 p (length xs) = Some xs" by (rule mgethdr.alloc_rd [OF wf al src])
  have pb: "block_of p \<noteq> ?m" if "xs \<noteq> []"
    using rd_block_ex [OF src] that wf_fresh [OF wf] ld_fresh [OF wf] by auto
  have con: "content h1 [?m] = Some []" using b by (simp add: mbytes_def rd_def)
  have "mchain h1 ?m [?m]" using b by (simp add: mchain_Cons)
  with b con wf wf1 src1 pb len mgethdr.alloc_rd [OF wf al] show "dg_inv h h1 ?m [?m] [] p xs"
    by (simp add: dg_inv_def behind_def) (simp add: fresh_def)
  assume ne: "xs \<noteq> []"
  have bo: "block_of (?m + 56) = ?m" "(?m + 56) mod 4096 = 56"
    using fresh_props(2) [of h] by (intro block_of_add mod_add_base; simp)+
  have "rd h1 (?m + 56) 72 \<noteq> None"
    using rd_mbuf [of h1 ?m ?b 16 72] b fresh_props(2) [of h] by (simp add: add.commute)
  with b ne pb bo show "dg_ready h h1 ?m [] ?m ?b p"
    by (simp add: dg_ready_def dg_cap_def behind_def) (simp add: fresh_def)
qed

lemma m_devget_spec:
  assumes wf: "wf_mem h" and src: "rd h (ptr_add buf off) (nat len) = Some xs" and len: "0 \<le> len"
    and q: "5 \<le> mm_quota h" "mm_next h + 5 \<le> 2 ^ 50"
  shows "\<exists>m h' as q. m_devget h buf len off ifp = Some (m, h') \<and> dg_inv h h' m as xs q []"
proof -
  let ?p = "ptr_add buf off" and ?m = "fresh h" and ?b = "hdr_mbuf h 2"
  let ?h1 = "st (took h) (fresh h) (hdr_mbuf h 2)"
  have lx: "length xs = nat len" by (rule rd_length [OF src])
  have l4: "length xs \<le> 4096"
    using rd_bound [OF wf src] lx by (cases "nat len = 0") auto
  have ok: "malloc_ok h" using q by (simp add: malloc_ok_def)
  have src': "rd h ?p (length xs) = Some xs" using src lx by simp
  note i = MGETHDR_inv [OF wf ok src' l4 refl, of 2]
  have lenx: "len = int (length xs)" using lx len by simp
  have start: "m_devget h buf len off ifp = do {
      h \<leftarrow> m_devget_loop ?h1 ?m ?m (160 \<le> len) len ?p; Some (?m, h) }"
    using len by (simp add: m_devget_def MGETHDR_ok [OF ok wf] M_PKTHDR_def)
  show ?thesis
  proof (cases "xs = []")
    case True
    then have "m_devget_loop ?h1 ?m ?m (160 \<le> len) len ?p = Some ?h1"
      using lenx by (subst m_devget_loop.simps) simp
    with start i(1) True show ?thesis by auto
  next
    case False
    let ?n = "min (int (length xs)) (dg_cap ?b)" and ?hc = "160 \<le> len"
    have cap: "dg_cap ?b = 72" by (simp add: dg_cap_def)
    have i1: "dg_inv h ?h1 ?m ([] @ [?m]) [] ?p xs" using i(1) by simp
    from dg_copy_step [OF i1 i(2) [OF False] refl] obtain h2 b2 where
      c: "dg_copy ?h1 ?m ?m ?n ?p = Some h2"
      "dg_inv h h2 ?m [?m] (take (nat ?n) xs) (?p + nat ?n) (drop (nat ?n) xs)"
      "mm_quota h2 = mm_quota h - 1" "mm_next h2 = mm_next h + 1" "ld h2 ?m = Some b2" "m_next b2 = 0" by auto
    let ?k = "if ?hc then 2 else 1 :: nat"
    have k: "length (drop (nat ?n) xs) \<le> ?k * dg_room ?hc" "?k * dg_blocks ?hc \<le> mm_quota h2"
        "mm_next h2 + ?k * dg_blocks ?hc \<le> 2 ^ 50" "mm_next h \<le> mm_next h2"
      using l4 cap q c(3,4) lenx by (auto simp: dg_room_def dg_blocks_def)
    from dg_loop [OF c(2) k] obtain h' as' q where
      l: "m_devget_loop h2 ?m 0 ?hc (int (length (drop (nat ?n) xs))) (?p + nat ?n) = Some h'"
      "dg_inv h h' ?m as' xs q []" by auto
    have "m_devget_loop ?h1 ?m ?m ?hc len ?p = m_devget_loop h2 ?m 0 ?hc (len - ?n) (ptr_add ?p ?n)"
      using dg_loop_step [OF _ _ _ refl, of ?h1 ?m ?b len ?m ?hc ?p] False c lenx fresh_nz [OF ok wf] by simp
    also have "len - ?n = int (length (drop (nat ?n) xs))" using cap lenx by auto
    also have "ptr_add ?p ?n = ?p + nat ?n" using cap by (simp add: ptr_add_def nat_add_distrib)
    finally show ?thesis using l start by auto
  qed
qed


section \<open>m_copydata\<close>

lemma patch_patch_append:
  "k + length xs + length ys \<le> length zs \<Longrightarrow> patch (patch zs k xs) (k + length xs) ys = patch zs k (xs @ ys)"
  by (simp add: patch_def ac_simps)

lemma wr_in_mbuf:
  "block_of p = B \<Longrightarrow> p mod 4096 = 40 + k \<Longrightarrow> ld h B = Some b \<Longrightarrow> k + length xs \<le> length (m_dat b) \<Longrightarrow>
   wr h p xs = Some (st h B (b\<lparr>m_dat := patch (m_dat b) k xs\<rparr>))"
  by (cases "xs = []") (simp_all add: wr_def st_ld)

lemma wr_in_buf:
  "block_of p = B \<Longrightarrow> p mod 4096 = k \<Longrightarrow> ld h B = None \<Longrightarrow> mm_buf h B = Some bs \<Longrightarrow> k + length xs \<le> length bs \<Longrightarrow>
   wr h p xs = Some (wb h B (patch bs k xs))"
  by (cases "xs = []") (simp_all add: wr_def wb_def fun_upd_idem)

lemma wr_append:
  assumes wf: "wf_mem h" and rd: "rd h p n = Some zs" "length xs + length ys \<le> n" and w: "wr h p xs = Some h1"
  shows "wr h1 (p + length xs) ys = wr h p (xs @ ys)"
proof (cases "xs = [] \<or> ys = []")
  case True
  then show ?thesis
  proof
    assume "xs = []"
    with w show ?thesis by (simp add: wr_def)
  next
    assume "ys = []"
    then show ?thesis using w by (simp, simp add: wr_def)
  qed
next
  case False
  then have pos: "0 < n" "0 < length xs" "0 < length ys" using rd(2)
    by (cases xs; cases ys; auto)+
  from rd_bound [OF wf rd(1) pos(1)] rd(2) pos(3) have "p mod 4096 + length xs < 4096" by linarith
  note b = block_of_plus [OF this]
  from rd(1) pos(1) show ?thesis
  proof (cases rule: rd_cases)
    case (1 c)
    define k where "k = p mod 4096 - 40"
    have k: "p mod 4096 = 40 + k" using 1(2) by (simp add: k_def)
    have l: "k + length xs + length ys \<le> length (m_dat c)" using 1(3) rd(2) by (simp add: k_def)
    have h1: "h1 = st h (block_of p) (c\<lparr>m_dat := patch (m_dat c) k xs\<rparr>)"
      using w wr_in_mbuf [OF refl k 1(1), of xs] l by simp
    have "wr h1 (p + length xs) ys = Some (st h1 (block_of p)
        ((c\<lparr>m_dat := patch (m_dat c) k xs\<rparr>)\<lparr>m_dat := patch (patch (m_dat c) k xs) (k + length xs) ys\<rparr>))"
      using wr_in_mbuf [OF b(1), of "k + length xs" h1 "c\<lparr>m_dat := patch (m_dat c) k xs\<rparr>" ys] l b(2) k
        h1 ld_nz [OF 1(1)] by simp
    with h1 wr_in_mbuf [OF refl k 1(1), of "xs @ ys"] l patch_patch_append [OF l] show ?thesis by simp
  next
    case (2 bs)
    have l: "p mod 4096 + length xs + length ys \<le> length bs" using 2 rd(2) by simp
    have h1: "h1 = wb h (block_of p) (patch bs (p mod 4096) xs)"
      using w wr_in_buf [OF refl refl 2(1,2), of xs] l by simp
    have "wr h1 (p + length xs) ys = Some (wb h1 (block_of p) (patch (patch bs (p mod 4096) xs) (p mod 4096 + length xs) ys))"
      using wr_in_buf [OF b(1,2), of h1 "patch bs (p mod 4096) xs" ys] l h1 2(1) by simp
    with h1 wr_in_buf [OF refl refl 2(1,2), of "xs @ ys"] l patch_patch_append [OF l] show ?thesis by simp
  qed
qed

lemma m_seek_chain:
  assumes "mchain h p as" "content h as = Some xs" "0 \<le> off" "off \<le> int (length xs)"
  shows "\<exists>q off' as2 ys. m_seek h p off = Some (q, off') \<and> mchain h q as2 \<and> content h as2 = Some ys \<and>
    set as2 \<subseteq> set as \<and> 0 \<le> off' \<and> off' \<le> int (length ys) \<and> drop (nat off') ys = drop (nat off) xs \<and>
    (as2 \<noteq> [] \<longrightarrow> off' \<le> mlen h (hd as2))"
  using assms
proof (induction as arbitrary: p xs off)
  case Nil
  then show ?case by (auto simp: m_seek.simps intro: exI [of _ "[]"])
next
  case (Cons a as)
  then obtain b where b: "p = a" "ld h a = Some b" "mchain h (m_next b) as" by (auto simp: mchain_Cons)
  from Cons.prems(2) obtain x y where xy: "mbytes h a = Some x" "content h as = Some y" "xs = x @ y"
    by (auto split: bind_splits)
  then have lx: "int (length x) = m_len b" using b
    by (auto simp: mbytes_def dest!: rd_length split: if_splits)
  show ?case
  proof (cases "m_len b < off")
    case False
    have "m_seek h p off = Some (p, off)" using b False by (subst m_seek.simps) simp
    with Cons.prems b False show ?thesis
      by (intro exI [of _ p] exI [of _ off] exI [of _ "a # as"] exI [of _ xs]) auto
  next
    case True
    have "m_seek h p off = m_seek h (m_next b) (off - m_len b)"
      using b True ld_nz [OF b(2)] by (subst m_seek.simps) simp
    moreover have "0 \<le> off - m_len b" "off - m_len b \<le> int (length y)"
      using True Cons.prems(4) xy lx by auto
    moreover have "drop (nat (off - m_len b)) y = drop (nat off) xs"
      using xy(3) lx True by (simp add: nat_diff_distrib flip: lx)
    ultimately show ?thesis using Cons.IH [OF b(3) xy(2), of "off - m_len b"] by fastforce
  qed
qed

text \<open>The bytes of a chain lie outside the block that is written.\<close>

definition apart :: "mem \<Rightarrow> addr list \<Rightarrow> addr \<Rightarrow> bool" where
  "apart h as B \<longleftrightarrow> (\<forall>a\<in>set as. \<forall>b. ld h a = Some b \<longrightarrow> m_len b = 0 \<or> block_of (m_data b) \<noteq> B)"

lemma wr_apart:
  assumes "wr h p xs = Some h'" "apart h as (block_of p)" "mchain h q as" "content h as = Some ys"
  shows "apart h' as (block_of p) \<and> content h' as = Some ys \<and> mchain h' q as"
proof -
  have k: "\<exists>b b'. ld h a = Some b \<and> ld h' a = Some b' \<and> same_hdr b b' \<and>
      (m_len b = 0 \<or> block_of (m_data b) \<noteq> block_of p)" if "a \<in> set as" for a
    using mchain_ld [OF assms(3) that] wr_same_hdr [OF assms(1)] assms(2) that unfolding apart_def by metis
  have "mbytes h' a = mbytes h a" if a: "a \<in> set as" for a
  proof -
    from k [OF a] obtain b b' where b: "ld h a = Some b" "ld h' a = Some b'" "same_hdr b b'"
      "m_len b = 0 \<or> block_of (m_data b) \<noteq> block_of p" by blast
    then have "rd h' (m_data b) (nat (m_len b)) = rd h (m_data b) (nat (m_len b))"
      by (elim disjE) (simp_all add: rd_0 wr_rd_other [OF assms(1)])
    with b show ?thesis by (simp add: mbytes_def same_hdr_def)
  qed
  then have "content h' as = content h as" by (rule content_cong)
  moreover have "apart h' as (block_of p)"
    unfolding apart_def using k by (fastforce simp: same_hdr_def)
  ultimately show ?thesis using assms wr_mchain [OF assms(1)] by simp
qed

lemma slice_straddle: "i + k = length x \<Longrightarrow> slice i (k + l) (x @ y) = slice i k x @ slice 0 l y"
proof -
  assume e: "i + k = length x"
  have "take (k + l) (drop i (x @ y)) = take (k + l) (drop i x @ y)" using e by simp
  also have "\<dots> = drop i x @ take l y" using e by (auto intro!: arg_cong [where f = "\<lambda>n. take n y"])
  finally show ?thesis using e by (simp add: slice_def)
qed

lemma m_copydata_loop_chain:
  assumes "wf_mem h" "mchain h p as" "content h as = Some ys" "apart h as (block_of cp)"
    "rd h cp (nat len) = Some zs" "0 \<le> off" "off + len \<le> int (length ys)" "as \<noteq> [] \<longrightarrow> off \<le> mlen h (hd as)"
  shows "m_copydata_loop h p off len cp = wr h cp (slice (nat off) (nat len) ys)"
  using assms
proof (induction as arbitrary: h p off len cp ys zs)
  case Nil
  then show ?case by (subst m_copydata_loop.simps) (auto simp: wr_def)
next
  case (Cons a as)
  note wf = Cons.prems(1)
  from Cons.prems(2) obtain b where b: "p = a" "ld h a = Some b" "mchain h (m_next b) as" by (auto simp: mchain_Cons)
  from Cons.prems(3) obtain x y where xy: "mbytes h a = Some x" "content h as = Some y" "ys = x @ y"
    by (auto split: bind_splits)
  then have x: "int (length x) = m_len b" "rd h (m_data b) (length x) = Some x" using b
    by (auto simp: mbytes_def split: if_splits) (use rd_length in fastforce)+
  have off: "off \<le> int (length x)" using Cons.prems(8) b x(1) by simp
  show ?case
  proof (cases "0 < len")
    case False
    then show ?thesis by (subst m_copydata_loop.simps) (simp add: wr_def)
  next
    case len: True
    let ?n = "min (m_len b - off) len" and ?o = "nat off"
    let ?n' = "nat ?n"
    have n: "0 \<le> ?n" "int ?n' = ?n" "?o + ?n' \<le> length x" "?n' \<le> nat len"
      using len off x(1) Cons.prems(6) by auto
    have on: "?o \<le> length x" "?n' \<le> length x - ?o" using n(3) by linarith+
    have src: "rd h (m_data b + ?o) ?n' = Some (slice ?o ?n' x)"
      unfolding slice_def by (rule rd_take [OF rd_drop [OF wf x(2) on(1)] on(2)])
    have ls: "length (slice ?o ?n' x) = ?n'" using n by simp
    obtain h1 where h1: "wr h cp (slice ?o ?n' x) = Some h1"
      using wr_total [OF Cons.prems(5), of "slice ?o ?n' x"] ls n by auto
    have pa: "ptr_add (m_data b) off = m_data b + ?o" "ptr_add cp ?n = cp + ?n'"
      using Cons.prems(6) n by (simp_all add: ptr_add_def nat_add_distrib)
    have mc: "memcpy h cp (m_data b + ?o) ?n = Some h1"
    proof (cases "?n' = 0")
      case True
      with n h1 show ?thesis by (simp add: memcpy_def wr_def)
    next
      case False
      with n x(1) have "m_len b \<noteq> 0" by auto
      with Cons.prems(4) b have ne: "block_of (m_data b) \<noteq> block_of cp" by (auto simp: apart_def)
      have "m_data b mod 4096 + length x \<le> 4096" using rd_bound [OF wf x(2)] n False by linarith
      then have lt: "m_data b mod 4096 + ?o < 4096" using n False by linarith
      have "block_of (m_data b + ?o) \<noteq> block_of cp" using block_of_plus [OF lt] ne by simp
      moreover have "(m_data b + ?o) mod 4096 + ?n' \<le> 4096" using rd_bound [OF wf src] False by linarith
      moreover have "cp mod 4096 + ?n' \<le> 4096" using rd_bound [OF wf Cons.prems(5)] len n by simp
      ultimately show ?thesis using memcpy_eq [OF src n(1)] h1 by simp
    qed
    have ap: "apart h as (block_of cp)" using Cons.prems(4) by (simp add: apart_def)
    have wf1: "wf_mem h1" by (rule wf_wr [OF wf h1])
    have unf: "m_copydata_loop h p off len cp = m_copydata_loop h1 (m_next b) 0 (len - ?n) (cp + ?n')"
      using len b pa mc by (subst m_copydata_loop.simps) simp
    show ?thesis
    proof (cases "len - ?n = 0")
      case True
      then have "?n' = nat len" by simp
      then have "slice ?o ?n' x = slice ?o (nat len) ys" using n xy(3) by (simp add: slice_def)
      with unf True h1 show ?thesis by (subst (asm) (2) m_copydata_loop.simps) simp
    next
      case False
      with x(1) n have r: "?n' = length x - ?o" "?n' < nat len" using Cons.prems(6) by auto
      from wr_apart [OF h1 ap b(3) xy(2)]
      have i: "apart h1 as (block_of cp)" "content h1 as = Some y" "mchain h1 (m_next b) as" by simp_all
      have c: "cp mod 4096 + ?n' < 4096" using rd_bound [OF wf Cons.prems(5)] len r by simp
      obtain zs1 where "rd h1 cp (nat len) = Some zs1"
        using wr_rd_defined [OF h1, of cp "nat len"] Cons.prems(5) by auto
      from rd_drop [OF wf1 this, of ?n'] r(2)
      have d: "rd h1 (cp + ?n') (nat (len - ?n)) = Some (drop ?n' zs1)" using n by (simp add: nat_diff_distrib)
      have le: "length (slice ?o ?n' x) + length (slice 0 (nat (len - ?n)) y) \<le> nat len"
      proof -
        have "length (slice 0 (nat (len - ?n)) y) \<le> nat (len - ?n)" by (simp add: slice_def)
        moreover have "?n' + nat (len - ?n) = nat len" using n(1) by linarith
        ultimately show ?thesis unfolding ls by linarith
      qed
      have "m_copydata_loop h1 (m_next b) 0 (len - ?n) (cp + ?n') =
          wr h1 (cp + ?n') (slice (nat 0) (nat (len - ?n)) y)"
      proof (rule Cons.IH [OF wf1 i(3,2)])
        show "apart h1 as (block_of (cp + ?n'))" using i(1) block_of_plus [OF c] by simp
        show "rd h1 (cp + ?n') (nat (len - ?n)) = Some (drop ?n' zs1)" by (rule d)
        show "0 + (len - ?n) \<le> int (length y)" using Cons.prems(6,7) xy(3) r n(2) off x(1) by auto
        show "as \<noteq> [] \<longrightarrow> 0 \<le> mlen h1 (hd as)"
          using content_len_nonneg [OF i(2)] by (cases as) auto
      qed simp
      also have "\<dots> = wr h cp (slice ?o ?n' x @ slice 0 (nat (len - ?n)) y)"
        using wr_append [OF wf Cons.prems(5) le h1] unfolding ls by simp
      also have "slice ?o ?n' x @ slice 0 (nat (len - ?n)) y = slice ?o (nat len) ys"
      proof -
        have "nat len = ?n' + nat (len - ?n)" using n r by linarith
        moreover have "?o + ?n' = length x" using r(1) off Cons.prems(6) by linarith
        ultimately show ?thesis using slice_straddle xy(3) by metis
      qed
      finally show ?thesis using unf by simp
    qed
  qed
qed

lemma m_copydata_spec:
  assumes "wf_mem h" "mchain h p as" "content h as = Some xs" "apart h as (block_of cp)"
    "rd h cp (nat len) \<noteq> None" "0 \<le> off" "0 \<le> len" "off + len \<le> int (length xs)"
  shows "m_copydata h p off len cp = wr h cp (slice (nat off) (nat len) xs)"
proof -
  from m_seek_chain [OF assms(2,3,6)] assms(7,8)
  obtain q off' as2 ys where s: "m_seek h p off = Some (q, off')" "mchain h q as2" "content h as2 = Some ys"
    "set as2 \<subseteq> set as" "0 \<le> off'" "off' \<le> int (length ys)" "drop (nat off') ys = drop (nat off) xs"
    "as2 \<noteq> [] \<longrightarrow> off' \<le> mlen h (hd as2)" by auto
  have "length ys - nat off' = length xs - nat off" using arg_cong [OF s(7), of length] by simp
  then have "off' + len \<le> int (length ys)" using s(5,6) assms(6-8) by linarith
  moreover have "apart h as2 (block_of cp)" using assms(4) s(4) by (auto simp: apart_def)
  ultimately have "m_copydata_loop h q off' len cp = wr h cp (slice (nat off') (nat len) ys)"
    using assms(1,5) s by (auto intro!: m_copydata_loop_chain)
  with s(1,7) show ?thesis by (simp add: m_copydata_def slice_def)
qed

end
