(* ===== verification/MbufOps.thy ===== *)
theory MbufOps
  imports MbufCopy
begin

text \<open>
  The remaining operations of \<open>Mbuf\<close>: every operation keeps the heap well formed
  (\<open>mbuf_step\<close> and its reachable states), releasing chains, trimming, concatenating and
  prepending.
\<close>

section \<open>Every operation keeps the heap well formed\<close>

text \<open>
  Well formed, with no fewer than \<open>k\<close> blocks handed out: a caller that keeps objects of its own in the
  address space (interface addresses) relies on the allocator not going back.
\<close>

definition wf_from :: "nat \<Rightarrow> mem \<Rightarrow> bool" where
  "wf_from k h \<longleftrightarrow> wf_mem h \<and> k \<le> mm_next h"

named_theorems wf_steps \<open>preservation of \<open>wf_from\<close>, one rule per operation\<close>

lemma full_set_ext [simp]: "full b \<Longrightarrow> full (set_ext_buf v b)"
  by (simp add: full_def set_ext_buf_def)

lemma wr_next: "wr h p xs = Some h' \<Longrightarrow> mm_next h' = mm_next h"
  by (auto simp: wr_def split: if_splits option.splits)

lemma wf_from_0 [simp]: "wf_from 0 h = wf_mem h"
  by (simp add: wf_from_def)

lemma wf_from_mem: "wf_from k h \<Longrightarrow> wf_mem h"
  by (simp add: wf_from_def)

lemma wf_from_wr [wf_steps]: "wr h p xs = Some h' \<Longrightarrow> wf_from k h \<Longrightarrow> wf_from k h'"
  unfolding wf_from_def using wf_wr wr_next by auto

lemma wf_from_upd:
  "upd h p f = Some h' \<Longrightarrow> wf_from k h \<Longrightarrow> (\<And>b. ld h p = Some b \<Longrightarrow> full b \<Longrightarrow> full (f b)) \<Longrightarrow> wf_from k h'"
  unfolding wf_from_def by (auto dest!: upd_SomeD intro!: wf_st dest: wf_ld_full)

lemma wf_from_free: "free_ptr h p = Some h' \<Longrightarrow> wf_from k h \<Longrightarrow> wf_from k h'"
  unfolding wf_from_def using wf_free [of h p h'] by (auto simp: free_ptr_def split: if_splits)

lemma wf_prim [wf_steps]:
  "memcpy h d s n = Some h' \<Longrightarrow> wf_from k h \<Longrightarrow> wf_from k h'"
  "memset0 h d n = Some h' \<Longrightarrow> wf_from k h \<Longrightarrow> wf_from k h'"
  "free_ptr h p = Some h' \<Longrightarrow> wf_from k h \<Longrightarrow> wf_from k h'"
  "upd h p f = Some h' \<Longrightarrow> wf_from k h \<Longrightarrow> (\<And>b. full b \<Longrightarrow> full (f b)) \<Longrightarrow> wf_from k h'"
  by (auto simp: memcpy_def memset0_def split: if_splits bind_splits intro: wf_from_wr wf_from_upd wf_from_free)

lemma wf_alloc [wf_steps]:
  "MGET h how t = Some (m, h') \<Longrightarrow> wf_from k h \<Longrightarrow> wf_from k h'"
  "MGETHDR h how t = Some (m, h') \<Longrightarrow> wf_from k h \<Longrightarrow> wf_from k h'"
  "m_get h how t = Some (m, h') \<Longrightarrow> wf_from k h \<Longrightarrow> wf_from k h'"
  "m_getclr h how t = Some (m, h') \<Longrightarrow> wf_from k h \<Longrightarrow> wf_from k h'"
  "m_gethdr h how t = Some (m, h') \<Longrightarrow> wf_from k h \<Longrightarrow> wf_from k h'"
  unfolding wf_from_def
  by (blast intro: mget.alloc_wf mgethdr.alloc_wf mg.alloc_wf mgc.alloc_wf mgh.alloc_wf
      le_trans mget.alloc_next mgethdr.alloc_next mg.alloc_next mgc.alloc_next mgh.alloc_next)+

lemma wf_st_ld: "ld h p = Some b \<Longrightarrow> wf_from k h \<Longrightarrow> (full b \<Longrightarrow> full b') \<Longrightarrow> wf_from k (st h p b')"
  unfolding wf_from_def by (auto intro: wf_st wf_ld_full)

lemma wf_m_cat [wf_steps]: "m_cat h m n = Some h' \<Longrightarrow> wf_from k h \<Longrightarrow> wf_from k h'"
  unfolding m_cat_def by (auto split: bind_splits if_splits elim!: wf_steps)

lemma wf_m_free [wf_steps]: "m_free h m = Some (n, h') \<Longrightarrow> wf_from k h \<Longrightarrow> wf_from k h'"
  unfolding m_free_def Let_def
  by (auto split: bind_splits if_splits elim!: wf_steps)

lemma wf_m_freem [wf_steps]: "m_freem h m = Some h' \<Longrightarrow> wf_from k h \<Longrightarrow> wf_from k h'"
proof -
  assume run: "m_freem h m = Some h'" and wf: "wf_from k h"
  have "wf_from k h \<longrightarrow> wf_from k h'"
  proof (rule m_freem.raw_induct [of "\<lambda>h m r. wf_from k h \<longrightarrow> wf_from k r", OF _ run], goal_cases)
    case 1
    note IH = 1(1) [rule_format]
    show ?case using 1(2) by (auto split: bind_splits if_splits elim!: wf_steps IH simp: wf_st_ld Let_def)
  qed
  with wf show ?thesis by simp
qed

lemma wf_m_adj_head [wf_steps]: "m_adj_head h m len = Some (h', m', l') \<Longrightarrow> wf_from k h \<Longrightarrow> wf_from k h'"
proof -
  assume run: "m_adj_head h m len = Some (h', m', l')" and wf: "wf_from k h"
  have "wf_from k h \<longrightarrow> wf_from k (fst (h', m', l'))"
  proof (rule m_adj_head.raw_induct [of "\<lambda>h m len r. wf_from k h \<longrightarrow> wf_from k (fst r)", OF _ run], goal_cases)
    case 1
    note IH = 1(1) [rule_format]
    show ?case using 1(2) by (auto split: bind_splits if_splits elim!: wf_steps IH simp: wf_st_ld Let_def)
  qed
  with wf show ?thesis by simp
qed

lemma wf_m_adj_tail [wf_steps]: "m_adj_tail h m len = Some h' \<Longrightarrow> wf_from k h \<Longrightarrow> wf_from k h'"
proof -
  assume run: "m_adj_tail h m len = Some h'" and wf: "wf_from k h"
  have "wf_from k h \<longrightarrow> wf_from k h'"
  proof (rule m_adj_tail.raw_induct [of "\<lambda>h m len r. wf_from k h \<longrightarrow> wf_from k r", OF _ run], goal_cases)
    case 1
    note IH = 1(1) [rule_format]
    show ?case using 1(2) by (auto split: bind_splits if_splits elim!: wf_steps IH simp: wf_st_ld Let_def)
  qed
  with wf show ?thesis by simp
qed

lemma wf_m_adj [wf_steps]: "m_adj h m len = Some h' \<Longrightarrow> wf_from k h \<Longrightarrow> wf_from k h'"
  unfolding m_adj_def by (auto split: bind_splits if_splits elim!: wf_steps)

lemma wf_m_grow [wf_steps]: "m_grow h old = Some (m, h') \<Longrightarrow> wf_from k h \<Longrightarrow> wf_from k h'"
  unfolding m_grow_def by (auto split: bind_splits elim!: wf_steps)

lemma wf_m_copyback_loop [wf_steps]: "m_copyback_loop h old m off len cp = Some h' \<Longrightarrow> wf_from k h \<Longrightarrow> wf_from k h'"
proof -
  assume run: "m_copyback_loop h old m off len cp = Some h'" and wf: "wf_from k h"
  have "wf_from k h \<longrightarrow> wf_from k h'"
  proof (rule m_copyback_loop.raw_induct [of "\<lambda>h old m off len cp r. wf_from k h \<longrightarrow> wf_from k r", OF _ run], goal_cases)
    case 1
    note IH = 1(1) [rule_format]
    show ?case using 1(2) by (auto split: bind_splits if_splits elim!: wf_steps IH simp: wf_st_ld Let_def)
  qed
  with wf show ?thesis by simp
qed

lemma wf_m_copyback [wf_steps]: "m_copyback h m off len cp = Some h' \<Longrightarrow> wf_from k h \<Longrightarrow> wf_from k h'"
  unfolding m_copyback_def by (auto split: bind_splits elim!: wf_steps)

lemma wf_m_copydata_loop [wf_steps]: "m_copydata_loop h m off len cp = Some h' \<Longrightarrow> wf_from k h \<Longrightarrow> wf_from k h'"
proof -
  assume run: "m_copydata_loop h m off len cp = Some h'" and wf: "wf_from k h"
  have "wf_from k h \<longrightarrow> wf_from k h'"
  proof (rule m_copydata_loop.raw_induct [of "\<lambda>h m off len cp r. wf_from k h \<longrightarrow> wf_from k r", OF _ run], goal_cases)
    case 1
    note IH = 1(1) [rule_format]
    show ?case using 1(2) by (auto split: bind_splits if_splits elim!: wf_steps IH simp: wf_st_ld Let_def)
  qed
  with wf show ?thesis by simp
qed

lemma wf_m_copydata [wf_steps]: "m_copydata h m off len cp = Some h' \<Longrightarrow> wf_from k h \<Longrightarrow> wf_from k h'"
  unfolding m_copydata_def by (auto split: bind_splits elim!: wf_steps)

lemma wf_m_copym_loop [wf_steps]: "m_copym_loop h old m old_n n off len nw = Some h' \<Longrightarrow> wf_from k h \<Longrightarrow> wf_from k h'"
proof -
  assume run: "m_copym_loop h old m old_n n off len nw = Some h'" and wf: "wf_from k h"
  have "wf_from k h \<longrightarrow> wf_from k h'"
  proof (rule m_copym_loop.raw_induct [of "\<lambda>h old m old_n n off len nw r. wf_from k h \<longrightarrow> wf_from k r", OF _ run], goal_cases)
    case 1
    note IH = 1(1) [rule_format]
    show ?case using 1(2) by (auto split: bind_splits if_splits elim!: wf_steps IH simp: wf_st_ld Let_def)
  qed
  with wf show ?thesis by simp
qed

lemma wf_m_copym [wf_steps]: "m_copym h m off len nw = Some (n, h') \<Longrightarrow> wf_from k h \<Longrightarrow> wf_from k h'"
  unfolding m_copym_def by (auto split: bind_splits elim!: wf_steps)

lemma wf_m_devget_loop [wf_steps]: "m_devget_loop h old m hc len p = Some h' \<Longrightarrow> wf_from k h \<Longrightarrow> wf_from k h'"
proof -
  assume run: "m_devget_loop h old m hc len p = Some h'" and wf: "wf_from k h"
  have "wf_from k h \<longrightarrow> wf_from k h'"
  proof (rule m_devget_loop.raw_induct [of "\<lambda>h old m hc len p r. wf_from k h \<longrightarrow> wf_from k r", OF _ run], goal_cases)
    case 1
    note IH = 1(1) [rule_format]
    show ?case using 1(2) by (auto split: bind_splits if_splits elim!: wf_steps IH simp: wf_st_ld Let_def)
  qed
  with wf show ?thesis by simp
qed

lemma wf_m_devget [wf_steps]: "m_devget h buf len off ifp = Some (m, h') \<Longrightarrow> wf_from k h \<Longrightarrow> wf_from k h'"
  unfolding m_devget_def by (auto split: bind_splits elim!: wf_steps)

lemma wf_m_pullup_loop [wf_steps]: "m_pullup_loop h n m len = Some (l', h') \<Longrightarrow> wf_from k h \<Longrightarrow> wf_from k h'"
proof -
  assume run: "m_pullup_loop h n m len = Some (l', h')" and wf: "wf_from k h"
  have "wf_from k h \<longrightarrow> wf_from k (snd (l', h'))"
  proof (rule m_pullup_loop.raw_induct [of "\<lambda>h n m len r. wf_from k h \<longrightarrow> wf_from k (snd r)", OF _ run], goal_cases)
    case 1
    note IH = 1(1) [rule_format]
    show ?case using 1(2) by (auto split: bind_splits if_splits elim!: wf_steps IH simp: wf_st_ld Let_def)
  qed
  with wf show ?thesis by simp
qed

lemma wf_copy_pkthdr: "upd h n (copy_pkthdr c) = Some h' \<Longrightarrow> ld h m = Some c \<Longrightarrow> wf_from k h \<Longrightarrow> wf_from k h'"
  by (erule wf_prim(4)) (auto dest: wf_ld_full [OF wf_from_mem])

lemma wf_m_pullup [wf_steps]: "m_pullup h m len = Some (n, h') \<Longrightarrow> wf_from k h \<Longrightarrow> wf_from k h'"
  unfolding m_pullup_def
  by (auto split: bind_splits if_splits elim!: wf_m_free wf_m_pullup_loop wf_copy_pkthdr wf_alloc)

lemma wf_M_COPY_PKTHDR [wf_steps]: "M_COPY_PKTHDR h to from = Some h' \<Longrightarrow> wf_from k h \<Longrightarrow> wf_from k h'"
  unfolding M_COPY_PKTHDR_def
  by (auto split: bind_splits) (erule wf_prim(4), assumption, auto dest: wf_ld_full [OF wf_from_mem])

lemma wf_align [wf_steps]:
  "M_ALIGN h m len = Some h' \<Longrightarrow> wf_from k h \<Longrightarrow> wf_from k h'"
  "MH_ALIGN h m len = Some h' \<Longrightarrow> wf_from k h \<Longrightarrow> wf_from k h'"
  unfolding M_ALIGN_def MH_ALIGN_def by (auto elim!: wf_steps)

lemma wf_MFREE [wf_steps]: "MFREE h m = Some (n, h') \<Longrightarrow> wf_from k h \<Longrightarrow> wf_from k h'"
  unfolding MFREE_def by (auto split: bind_splits if_splits elim!: wf_steps)

lemma wf_m_prepend [wf_steps]: "m_prepend h m len how = Some (n, h') \<Longrightarrow> wf_from k h \<Longrightarrow> wf_from k h'"
  unfolding m_prepend_def by (auto split: bind_splits if_splits elim!: wf_steps)

lemma wf_M_PREPEND [wf_steps]: "M_PREPEND h m plen how = Some (n, h') \<Longrightarrow> wf_from k h \<Longrightarrow> wf_from k h'"
  unfolding M_PREPEND_def by (auto split: bind_splits if_splits elim!: wf_steps)

text \<open>A client's call of the buffer interface: one rule per routine or macro.\<close>

inductive mbuf_step :: "mem \<Rightarrow> mem \<Rightarrow> bool" where
  MGET: "MGET h how t = Some (m, h') \<Longrightarrow> mbuf_step h h'"
| MGETHDR: "MGETHDR h how t = Some (m, h') \<Longrightarrow> mbuf_step h h'"
| m_get: "m_get h how t = Some (m, h') \<Longrightarrow> mbuf_step h h'"
| m_getclr: "m_getclr h how t = Some (m, h') \<Longrightarrow> mbuf_step h h'"
| m_gethdr: "m_gethdr h how t = Some (m, h') \<Longrightarrow> mbuf_step h h'"
| MFREE: "MFREE h m = Some (n, h') \<Longrightarrow> mbuf_step h h'"
| m_free: "m_free h m = Some (n, h') \<Longrightarrow> mbuf_step h h'"
| m_freem: "m_freem h m = Some h' \<Longrightarrow> mbuf_step h h'"
| M_COPY_PKTHDR: "M_COPY_PKTHDR h m n = Some h' \<Longrightarrow> mbuf_step h h'"
| M_ALIGN: "M_ALIGN h m len = Some h' \<Longrightarrow> mbuf_step h h'"
| MH_ALIGN: "MH_ALIGN h m len = Some h' \<Longrightarrow> mbuf_step h h'"
| m_cat: "m_cat h m n = Some h' \<Longrightarrow> mbuf_step h h'"
| m_adj: "m_adj h m len = Some h' \<Longrightarrow> mbuf_step h h'"
| m_copyback: "m_copyback h m off len cp = Some h' \<Longrightarrow> mbuf_step h h'"
| m_copydata: "m_copydata h m off len cp = Some h' \<Longrightarrow> mbuf_step h h'"
| m_copym: "m_copym h m off len nowait = Some (n, h') \<Longrightarrow> mbuf_step h h'"
| m_devget: "m_devget h buf len off ifp = Some (m, h') \<Longrightarrow> mbuf_step h h'"
| m_pullup: "m_pullup h m len = Some (n, h') \<Longrightarrow> mbuf_step h h'"
| m_prepend: "m_prepend h m len how = Some (n, h') \<Longrightarrow> mbuf_step h h'"
| M_PREPEND: "M_PREPEND h m plen how = Some (n, h') \<Longrightarrow> mbuf_step h h'"
| malloc: "malloc_buf n h = (p, h') \<Longrightarrow> mbuf_step h h'"
| store: "wr h p xs = Some h' \<Longrightarrow> mbuf_step h h'"

lemma wf_malloc_buf [wf_steps]:
  assumes "malloc_buf n h = (p, h')" "wf_from k h"
  shows "wf_from k h'"
proof (cases "malloc_ok h \<and> n \<le> 4096")
  case True
  with assms(1) have h': "h' = wb (took h) (fresh h) (junk_bytes h n)"
    by (auto simp: malloc_buf_def wb_def)
  show ?thesis unfolding h'
    using True assms(2) wf_fresh [of h] unfolding wf_from_def
    by (intro conjI wf_wb wf_took) (auto simp: fresh_def junk_bytes_def)
next
  case False
  with assms show ?thesis by (auto simp: malloc_buf_def)
qed

lemma wf_mbuf_step: "mbuf_step h h' \<Longrightarrow> wf_from k h \<Longrightarrow> wf_from k h'"
  by (cases rule: mbuf_step.cases) (auto elim!: wf_steps)

end
