(* ===== verification/MbufChain.thy ===== *)
theory MbufChain
  imports MbufOps
begin

text \<open>
  What the chain operations of \<open>Mbuf\<close> do to the bytes a chain holds: \<open>m_freem\<close>, \<open>m_free\<close>,
  \<open>m_cat\<close>, \<open>m_adj\<close> and \<open>m_prepend\<close>.
\<close>

section \<open>m_freem\<close>

definition without :: "mem \<Rightarrow> addr set \<Rightarrow> mem" where
  "without h A = h\<lparr>mm_mbuf := (\<lambda>a. if a \<in> A then None else mm_mbuf h a)\<rparr>"

lemma ld_without: "ld (without h A) a = (if a \<in> A then None else ld h a)"
  by (simp add: ld_def without_def)

lemma without_without: "without (without h A) B = without h (A \<union> B)"
proof (rule mem.equality)
  show "mm_mbuf (without (without h A) B) = mm_mbuf (without h (A \<union> B))"
    by (rule ext) (auto simp: without_def)
qed (simp_all add: without_def)

lemma without_empty [simp]: "without h {} = h"
  by (simp add: without_def)

lemma free_mbuf: "ld h a = Some b \<Longrightarrow> free_ptr h a = Some (without h {a})"
  by (auto simp: free_ptr_def ld_def without_def fun_upd_def split: if_splits)

lemma mchain_without: "A \<inter> set as = {} \<Longrightarrow> mchain (without h A) p as \<longleftrightarrow> mchain h p as"
  by (rule mchain_cong) (auto simp: m_next_of_def ld_without)

lemma m_freem_chain:
  assumes "mchain h p as" "\<And>a b. a \<in> set as \<Longrightarrow> ld h a = Some b \<Longrightarrow> \<not> has (m_flags b) M_EXT"
  shows "m_freem h p = Some (without h (set as))"
  using assms
proof (induction as arbitrary: h p)
  case Nil
  then show ?case by (subst m_freem.simps) simp
next
  case (Cons a as)
  then obtain b where b: "p = a" "ld h a = Some b" "mchain h (m_next b) as" by (auto simp: mchain_Cons)
  have a: "a \<notin> set as" using chain_distinct [OF Cons.prems(1)] by simp
  have "m_freem (without h {a}) (m_next b) = Some (without (without h {a}) (set as))"
  proof (rule Cons.IH)
    show "mchain (without h {a}) (m_next b) as" using b a by (simp add: mchain_without)
    show "\<not> has (m_flags c) M_EXT" if "d \<in> set as" "ld (without h {a}) d = Some c" for c d
      using that Cons.prems(2) [of d c] by (simp add: ld_without split: if_splits)
  qed
  moreover have "\<not> has (m_flags b) M_EXT" using Cons.prems(2) [of a b] b by simp
  ultimately show ?case
    using b ld_nz [OF b(2)] by (subst m_freem.simps) (simp add: free_mbuf without_without)
qed

section \<open>m_free\<close>

text \<open>What \<open>m_free\<close> of \<open>b\<close> makes of its successor \<open>c\<close>.\<close>

definition freed_next :: "mbuf \<Rightarrow> mbuf \<Rightarrow> mbuf" where
  "freed_next b c =
     (let c = c\<lparr>m_type := m_type b, m_flags := m_flags c OR m_flags b\<rparr>;
          c = (if has (m_flags b) M_PKTHDR then set_pk_len (pk_len b - m_len b) c else c)
      in set_pk_rcvif (pk_rcvif b) c)"

lemma m_free_next:
  assumes "ld h m = Some b" "\<not> has (m_flags b) M_EXT" "ld h (m_next b) = Some c" "m \<noteq> m_next b"
  shows "m_free h m = Some (m_next b, without (st h (m_next b) (freed_next b c)) {m})"
proof -
  have "ld (st h (m_next b) (freed_next b c)) m = Some b" using assms(1,4) by simp
  from free_mbuf [OF this] show ?thesis
    using assms ld_nz [OF assms(1)] ld_nz [OF assms(3)]
    by (cases "has (m_flags b) M_PKTHDR") (simp_all add: m_free_def upd_def freed_next_def Let_def)
qed

lemma m_free_last:
  "ld h m = Some b \<Longrightarrow> \<not> has (m_flags b) M_EXT \<Longrightarrow> m_next b = 0 \<Longrightarrow> m_free h m = Some (0, without h {m})"
  by (auto simp: m_free_def free_mbuf dest: ld_nz)

section \<open>Content under header stores\<close>

text \<open>The data of every mbuf of a chain lies behind the packet header of \<open>p\<close>.\<close>

definition clear_of :: "mem \<Rightarrow> addr \<Rightarrow> addr list \<Rightarrow> bool" where
  "clear_of h p as \<longleftrightarrow> (\<forall>a\<in>set as. \<forall>b. ld h a = Some b \<longrightarrow> behind p (m_data b) (m_len b))"

lemma mbytes_len: "mbytes h a = Some x \<Longrightarrow> int (length x) = mlen h a"
  by (auto simp: mbytes_def mlen_def dest!: rd_length split: bind_splits if_splits)

lemma content_frame:
  assumes as: "mchain h p as"
    and same: "\<And>a b. a \<in> set as \<Longrightarrow> ld h a = Some b \<Longrightarrow>
       \<exists>b'. ld h' a = Some b' \<and> m_len b' = m_len b \<and> m_data b' = m_data b \<and>
         rd h' (m_data b) (nat (m_len b)) = rd h (m_data b) (nat (m_len b))"
  shows "content h' as = content h as"
proof (rule content_cong)
  fix a assume a: "a \<in> set as"
  from mchain_ld [OF as a] obtain b where b: "ld h a = Some b" ..
  from same [OF a b] b show "mbytes h' a = mbytes h a" by (auto simp: mbytes_def)
qed

lemma behind_nat: "behind p d n \<Longrightarrow> 0 \<le> n \<Longrightarrow> behind p d (int (nat n))"
  by simp

lemma content_set_pk_len:
  assumes wf: "wf_mem h" and c: "ld h m = Some c" and as: "mchain h p as" and cl: "clear_of h m as"
    and con: "content h as = Some xs"
  shows "content (st h m (set_pk_len v c)) as = Some xs"
proof -
  have "content (st h m (set_pk_len v c)) as = content h as"
  proof (rule content_frame [OF as])
    fix a b assume a: "a \<in> set as" "ld h a = Some b"
    have "0 \<le> m_len b" using content_len_nonneg [OF con a(1)] a(2) by simp
    then have "behind m (m_data b) (int (nat (m_len b)))"
      using cl a unfolding clear_of_def by (intro behind_nat) blast+
    from rd_pk_len [OF c wf_ld_full [OF wf c] this] a c ld_nz [OF c]
    show "\<exists>b'. ld (st h m (set_pk_len v c)) a = Some b' \<and> m_len b' = m_len b \<and> m_data b' = m_data b \<and>
        rd (st h m (set_pk_len v c)) (m_data b) (nat (m_len b)) = rd h (m_data b) (nat (m_len b))"
      by (cases "a = m") (simp_all add: ld_st)
  qed
  with con show ?thesis by simp
qed


section \<open>m_adj\<close>

text \<open>Stores that change lengths and data pointers only: no byte moves.\<close>

definition fixed :: "mbuf \<Rightarrow> u_char list \<times> addr \<times> addr \<times> c_short \<times> c_short" where
  "fixed b = (m_dat b, m_next b, m_nextpkt b, m_flags b, m_type b)"

definition same_bytes :: "mem \<Rightarrow> mem \<Rightarrow> bool" where
  "same_bytes h h' \<longleftrightarrow> mm_buf h' = mm_buf h \<and>
     (\<forall>a. map_option fixed (ld h' a) = map_option fixed (ld h a))"

lemma same_bytes_refl: "same_bytes h h"
  by (simp add: same_bytes_def)

lemma same_bytes_trans: "same_bytes h h1 \<Longrightarrow> same_bytes h1 h2 \<Longrightarrow> same_bytes h h2"
  by (simp add: same_bytes_def)

lemma same_bytes_st: "ld h a = Some b \<Longrightarrow> fixed b' = fixed b \<Longrightarrow> same_bytes h (st h a b')"
  by (auto simp: same_bytes_def ld_st)

lemma same_bytes_ld: "same_bytes h h' \<Longrightarrow> ld h a = Some b \<Longrightarrow> \<exists>b'. ld h' a = Some b' \<and> fixed b' = fixed b"
proof -
  assume "same_bytes h h'" "ld h a = Some b"
  then have "map_option fixed (ld h' a) = Some (fixed b)" by (simp add: same_bytes_def)
  then show ?thesis by (cases "ld h' a") simp_all
qed

lemma same_bytes_rd:
  assumes "same_bytes h h'"
  shows "rd h' p n = rd h p n"
proof (cases "ld h (block_of p)")
  case None
  with assms have "ld h' (block_of p) = None"
    unfolding same_bytes_def by (metis option.map_disc_iff)
  with None assms show ?thesis by (simp add: rd_def same_bytes_def)
next
  case (Some b)
  with same_bytes_ld [OF assms Some] show ?thesis by (auto simp: rd_def fixed_def)
qed

lemma content_st_notin:
  assumes "same_bytes h (st h a b')" "a \<notin> set as"
  shows "content (st h a b') as = content h as"
proof (rule content_cong)
  fix c assume "c \<in> set as"
  with assms(2) have "ld (st h a b') c = ld h c" by (intro ld_st_other) blast
  then show "mbytes (st h a b') c = mbytes h c"
    using same_bytes_rd [OF assms(1)] by (cases "ld h c") (simp_all add: mbytes_def)
qed

lemma same_bytes_pk: "m_dat b' = m_dat b \<Longrightarrow> pk_len b' = pk_len b \<and> pk_rcvif b' = pk_rcvif b"
  by (simp add: pk_len_def pk_rcvif_def)

definition adj_front :: "mem \<Rightarrow> addr \<Rightarrow> int \<Rightarrow> mem option" where
  "adj_front h m len = do {
     (h, m, len) \<leftarrow> m_adj_head h m len;
     upd h m (\<lambda>b. b\<lparr>m_len := m_len b - len, m_data := ptr_add (m_data b) len\<rparr>) }"

lemma adj_front_chain:
  assumes "wf_mem h" "mchain h p as" "content h as = Some xs" "0 < len" "len \<le> int (length xs)"
  shows "\<exists>h'. adj_front h p len = Some h' \<and> same_bytes h h' \<and> content h' as = Some (drop (nat len) xs)
    \<and> (\<forall>a. a \<notin> set as \<longrightarrow> ld h' a = ld h a)"
  using assms
proof (induction as arbitrary: h p xs len)
  case Nil
  then show ?case by simp
next
  case (Cons a as)
  from Cons.prems(2) obtain b where b: "p = a" "ld h a = Some b" "mchain h (m_next b) as" by (auto simp: mchain_Cons)
  have nin: "a \<notin> set as" using chain_distinct [OF Cons.prems(2)] by simp
  from Cons.prems(3) obtain x y where xy: "mbytes h a = Some x" "content h as = Some y" "xs = x @ y"
    by (auto split: bind_splits)
  from mbytes_len [OF xy(1)] b have lx: "int (length x) = m_len b" by simp
  show ?case
  proof (cases "m_len b < len")
    case True
    let ?h1 = "st h a (b\<lparr>m_len := 0\<rparr>)"
    have sb: "same_bytes h ?h1" by (rule same_bytes_st [OF b(2)]) (simp add: fixed_def)
    have "wf_mem ?h1" using Cons.prems(1) b by (simp add: wf_st wf_ld_full)
    moreover have "mchain ?h1 (m_next b) as" using b nin by (simp add: mchain_st_notin)
    moreover have "content ?h1 as = Some y"
      using content_st_notin [OF sb nin] xy(2) by simp
    ultimately obtain h' where h': "adj_front ?h1 (m_next b) (len - m_len b) = Some h'" "same_bytes ?h1 h'"
      "content h' as = Some (drop (nat (len - m_len b)) y)" "\<forall>c. c \<notin> set as \<longrightarrow> ld h' c = ld ?h1 c"
      using Cons.IH [of ?h1 "m_next b" y "len - m_len b"] True Cons.prems(5) xy(3) lx by auto
    have "ld h' a = Some (b\<lparr>m_len := 0\<rparr>)" using h'(4) nin ld_nz [OF b(2)] by simp
    then have "mbytes h' a = Some []" by (simp add: mbytes_def rd_0)
    moreover have "adj_front h p len = adj_front ?h1 (m_next b) (len - m_len b)"
      using b True ld_nz [OF b(2)] unfolding adj_front_def by (subst m_adj_head.simps) simp
    moreover have "drop (nat (len - m_len b)) y = drop (nat len) xs"
      using xy(3) lx True by (simp add: nat_diff_distrib flip: lx)
    moreover have "ld h' c = ld h c" if "c \<notin> set (a # as)" for c
      using h'(4) that by simp
    ultimately show ?thesis using h' same_bytes_trans [OF sb h'(2)] by simp
  next
    case False
    let ?b = "b\<lparr>m_len := m_len b - len, m_data := ptr_add (m_data b) len\<rparr>"
    let ?h1 = "st h a ?b"
    have sb: "same_bytes h ?h1" by (rule same_bytes_st [OF b(2)]) (simp add: fixed_def)
    have run: "adj_front h p len = Some ?h1"
      using b False ld_nz [OF b(2)] unfolding adj_front_def by (subst m_adj_head.simps) (simp add: upd_eq)
    have rx: "rd h (m_data b) (length x) = Some x"
    proof -
      have "length x = nat (m_len b)" using lx by linarith
      with xy(1) b show ?thesis by (simp add: mbytes_def split: if_splits)
    qed
    have "ptr_add (m_data b) len = m_data b + nat len"
      using Cons.prems(4) by (simp add: ptr_add_def nat_add_distrib)
    moreover have "nat (m_len b - len) = length x - nat len" using lx Cons.prems(4) by linarith
    ultimately have "mbytes ?h1 a = Some (drop (nat len) x)"
      using rd_drop [OF Cons.prems(1) rx, of "nat len"] lx False ld_nz [OF b(2)] same_bytes_rd [OF sb]
      by (simp add: mbytes_def)
    moreover have "content ?h1 as = Some y"
      using content_st_notin [OF sb nin] xy(2) by simp
    moreover have "drop (nat len) x @ y = drop (nat len) xs" using xy(3) lx False by simp
    ultimately show ?thesis using run sb by simp
  qed
qed

lemma m_adj_unfold:
  "ld h m = Some b \<Longrightarrow> 0 < len \<Longrightarrow> m_adj h m len =
     adj_front (if has (m_flags b) M_PKTHDR then st h m (set_pk_len (pk_len b - len) b) else h) m len"
  by (auto simp: m_adj_def adj_front_def upd_eq dest: ld_nz)

lemma m_adj_head_short:
  "mchain h p as \<Longrightarrow> content h as = Some xs \<Longrightarrow> int (length xs) < len \<Longrightarrow>
   \<exists>h' l. m_adj_head h p len = Some (h', 0, l)"
proof (induction as arbitrary: h p xs len)
  case Nil
  then show ?case by (subst m_adj_head.simps) simp
next
  case (Cons a as)
  from Cons.prems(1) obtain b where b: "p = a" "ld h a = Some b" "mchain h (m_next b) as" by (auto simp: mchain_Cons)
  have nin: "a \<notin> set as" using chain_distinct [OF Cons.prems(1)] by simp
  from Cons.prems(2) obtain x y where xy: "mbytes h a = Some x" "content h as = Some y" "xs = x @ y"
    by (auto split: bind_splits)
  from mbytes_len [OF xy(1)] b have lx: "int (length x) = m_len b" by simp
  let ?h1 = "st h a (b\<lparr>m_len := 0\<rparr>)"
  have sb: "same_bytes h ?h1" by (rule same_bytes_st [OF b(2)]) (simp add: fixed_def)
  have "mchain ?h1 (m_next b) as" using b nin by (simp add: mchain_st_notin)
  moreover have "content ?h1 as = Some y"
    using content_st_notin [OF sb nin] xy(2) by simp
  ultimately have "\<exists>h' l. m_adj_head ?h1 (m_next b) (len - m_len b) = Some (h', 0, l)"
    using Cons.IH Cons.prems(3) xy(3) lx by simp
  moreover have "m_adj_head h p len = m_adj_head ?h1 (m_next b) (len - m_len b)"
    using b ld_nz [OF b(2)] lx Cons.prems(3) xy(3) by (subst m_adj_head.simps) simp
  ultimately show ?case by simp
qed


section \<open>m_cat\<close>

lemma m_cat_content:
  assumes wf: "wf_mem h" and as: "mchain h m as" "as \<noteq> []" and bs: "mchain h n bs" "bs \<noteq> []"
    and disj: "set as \<inter> set bs = {}" and nb: "ld h n = Some nb" and mb: "ld h m = Some mb"
    and con: "content h as = Some xs" "content h bs = Some ys" and cl: "clear_of h m (as @ bs)"
  defines "tot \<equiv> if has (m_flags nb) M_PKTHDR then pk_len nb else int (length ys)"
  shows "\<exists>h' mb'. m_cat h m n = Some h' \<and> wf_mem h' \<and> mchain h' m (as @ bs) \<and> content h' (as @ bs) = Some (xs @ ys) \<and>
    ld h' m = Some mb' \<and> m_flags mb' = m_flags mb \<and>
    (has (m_flags mb) M_PKTHDR \<longrightarrow> int32 (pk_len mb + tot) \<longrightarrow> pk_len mb' = pk_len mb + tot)"
proof -
  have "chain_total h bs = int (length ys)" using content_total [OF con(2)] by simp
  then have t: "(if has (m_flags nb) M_PKTHDR then pk_len nb else chain_total h bs) = tot" by (simp add: tot_def)
  from m_cat_spec [OF wf as bs disj nb] t
  obtain h' where h': "m_cat h m n = Some h'" "same_env h h'" "wf_mem h'"
    and ld': "\<And>a. ld h' a = map_option (cat_mbuf m (last as) n tot a) (ld h a)" by auto
  have ch: "mchain h' m (as @ bs)" by (rule cat_chain [OF ld' as bs(1) disj])
  have con0: "content h (as @ bs) = Some (xs @ ys)" using con by (simp add: content_append)
  have "mbytes h' a = mbytes h a" if a: "a \<in> set (as @ bs)" for a
  proof -
    from a mchain_ld [OF as(1), of a] mchain_ld [OF bs(1), of a] obtain b where b: "ld h a = Some b" by auto
    have "0 \<le> m_len b" using content_len_nonneg [OF con0 a] b by simp
    with cl a b have "behind m (m_data b) (int (nat (m_len b)))" by (auto simp: clear_of_def)
    from rd_cat [OF ld' _ wf this] h'(2) b show ?thesis by (simp add: mbytes_def ld' same_env_def)
  qed
  then have "content h' (as @ bs) = Some (xs @ ys)" using content_cong [of "as @ bs" h' h] con0 by simp
  moreover have "ld h' m = Some (cat_mbuf m (last as) n tot m mb)" by (simp add: ld' mb)
  ultimately show ?thesis using h' ch cat_mbuf_pk [OF wf_ld_full [OF wf mb]] by auto
qed

section \<open>m_prepend\<close>

text \<open>The mbuf that \<open>m_prepend\<close> puts in front of \<open>b\<close>.\<close>

definition prep_mbuf :: "mem \<Rightarrow> addr \<Rightarrow> mbuf \<Rightarrow> int \<Rightarrow> mbuf" where
  "prep_mbuf h m b len =
     (let c = plain_mbuf h (sint (m_type b));
          c = (if has (m_flags b) M_PKTHDR
               then (copy_pkthdr b c)\<lparr>m_flags := m_flags b AND M_COPYFLAGS, m_data := fresh h + 56\<rparr> else c)
      in c\<lparr>m_next := m, m_data := m_data c + nat ((72 - len) div 4 * 4), m_len := len\<rparr>)"

definition prep_tail :: "mbuf \<Rightarrow> mbuf" where
  "prep_tail b = (if has (m_flags b) M_PKTHDR then b\<lparr>m_flags := m_flags b AND NOT M_PKTHDR\<rparr> else b)"

lemma m_prepend_ok:
  assumes wf: "wf_mem h" and ok: "malloc_ok h" and b: "ld h m = Some b" and len: "0 \<le> len" "len < 72"
  shows "m_prepend h m len how = Some (fresh h,
     st (st (took h) (fresh h) (prep_mbuf h m b len)) m (prep_tail b))"
proof -
  note nz = fresh_nz [OF ok wf]
  have ne: "m \<noteq> fresh h" using ld_fresh [OF wf] b by auto
  have nzm: "0 < m" using ld_nz [OF b] by simp
  have comm: "st (st h' m x) (fresh h) y = st (st h' (fresh h) y) m x" for h' x y
    using ne by (simp add: st_def fun_upd_twist)
  have pa: "ptr_add p ((72 - len) div 4 * 4) = p + nat ((72 - len) div 4 * 4)" for p
    using len by (simp add: ptr_add_def nat_add_distrib)
  have idem: "st (st (took h) (fresh h) y) m b = st (took h) (fresh h) y" for y
    using b ne by (intro st_ld) (simp add: ld_st)
  show ?thesis
  proof (cases "has (m_flags b) M_PKTHDR")
    case True
    then show ?thesis using b ne nz nzm len
      by (simp add: m_prepend_def MGET_ok [OF ok wf] M_COPY_PKTHDR_def MH_ALIGN_def upd_def ld_st
          comm pa prep_mbuf_def prep_tail_def)
  next
    case False
    then show ?thesis using b ne nz nzm len
      by (simp add: m_prepend_def MGET_ok [OF ok wf] MH_ALIGN_def upd_def ld_st
          pa prep_mbuf_def prep_tail_def idem)
  qed
qed

lemma m_prepend_fail:
  "\<not> malloc_ok h \<Longrightarrow> ld h m = Some b \<Longrightarrow> m_prepend h m len how = do { h \<leftarrow> m_freem h m; Some (0, h) }"
  by (simp add: m_prepend_def MGET_fail)

end
