(* ===== verification/Demo.thy ===== *)
theory Demo
  imports MbufChain
begin

text \<open>
  A small concrete heap on which the properties about buffers and queues are instantiated:
  a packet of five bytes in two mbufs, a single mbuf, a caller buffer, room for more blocks.
\<close>

section \<open>A concrete heap\<close>

definition demo_b1 :: mbuf where
  "demo_b1 = \<lparr>m_next = 8192, m_nextpkt = 0, m_len = 3, m_data = 4152, m_type = 1, m_flags = M_PKTHDR,
     m_dat = nat_le 4 5 @ replicate 12 0 @ [1, 2, 3] @ replicate 69 0\<rparr>"

definition demo_b2 :: mbuf where
  "demo_b2 = \<lparr>m_next = 0, m_nextpkt = 0, m_len = 2, m_data = 8232, m_type = 1, m_flags = 0,
     m_dat = [4, 5] @ replicate 86 0\<rparr>"

definition demo_b3 :: mbuf where
  "demo_b3 = \<lparr>m_next = 0, m_nextpkt = 0, m_len = 1, m_data = 16424, m_type = 1, m_flags = 0,
     m_dat = [6] @ replicate 87 0\<rparr>"

definition demo :: mem where
  "demo = \<lparr>mm_mbuf = [4096 \<mapsto> demo_b1, 8192 \<mapsto> demo_b2, 16384 \<mapsto> demo_b3],
     mm_buf = [12288 \<mapsto> [9, 8, 7, 6, 5, 4]], mm_next = 5, mm_quota = 20, mm_junk = (\<lambda>_. 0)\<rparr>"

lemma demo_ld: "ld demo 4096 = Some demo_b1" "ld demo 8192 = Some demo_b2" "ld demo 16384 = Some demo_b3"
  "ld demo 12288 = None"
  by (simp_all add: demo_def ld_def)

lemma demo_fields [simp]:
  "m_next demo_b1 = 8192" "m_len demo_b1 = 3" "m_data demo_b1 = 4152" "m_flags demo_b1 = M_PKTHDR"
  "m_next demo_b2 = 0" "m_len demo_b2 = 2" "m_data demo_b2 = 8232" "m_flags demo_b2 = 0"
  "m_next demo_b3 = 0" "m_len demo_b3 = 1" "m_data demo_b3 = 16424" "m_flags demo_b3 = 0"
  "mm_quota demo = 20" "mm_next demo = 5" "mm_buf demo 12288 = Some [9, 8, 7, 6, 5, 4]"
  by (simp_all add: demo_b1_def demo_b2_def demo_b3_def demo_def)

lemma demo_wf: "wf_mem demo"
  by (simp add: wf_mem_def demo_def demo_b1_def demo_b2_def demo_b3_def)

lemma demo_chain: "mchain demo 4096 [4096, 8192]" "mchain demo 16384 [16384]" "mchain demo 8192 [8192]"
  by (simp_all add: mchain_Cons demo_ld)

lemma demo_bytes: "mbytes demo 4096 = Some [1, 2, 3]" "mbytes demo 8192 = Some [4, 5]" "mbytes demo 16384 = Some [6]"
  by (simp_all add: mbytes_def demo_ld rd_def block_of_def)
    (simp_all add: demo_b1_def demo_b2_def demo_b3_def slice_def)

lemma demo_content: "content demo [4096, 8192] = Some [1, 2, 3, 4, 5]" "content demo [16384] = Some [6]"
  by (simp_all add: demo_bytes)

lemma demo_apart: "apart demo [4096, 8192] 12288" "clear_of demo 4096 [4096, 8192]"
  "clear_of demo 4096 [4096, 8192, 16384]"
  by (simp_all add: apart_def clear_of_def behind_def demo_ld block_of_def)

lemma demo_buf: "rd demo 12288 n = Some xs \<longleftrightarrow> n \<le> 6 \<and> xs = take n [9, 8, 7, 6, 5, 4]"
  by (auto simp: rd_def demo_ld block_of_def slice_def)

lemma demo_pk: "pk_len demo_b1 = 5"
  by (simp add: pk_len_def demo_b1_def slice_def le_nat_nat_le)

lemma demo_ok: "malloc_ok demo"
  by (simp add: malloc_ok_def)

end
