(* ===== verification/MbufProps.thy ===== *)
theory MbufProps
  imports Demo
begin

text \<open>
  The properties of the buffer library, each followed by a witness on the heap \<open>demo\<close>.
\<close>

section \<open>m_devget and m_copydata\<close>

text \<open>C2: \<open>m_devget\<close> copies \<open>len\<close> bytes of a device buffer into a fresh packet: the chain it
  returns holds exactly these bytes, is headed by an mbuf with \<open>M_PKTHDR\<close> whose packet length is
  \<open>len\<close> and whose receive interface is \<open>NULL\<close> (the argument \<open>ifp\<close> is never stored), and every
  byte that was readable before still reads the same.  Five free blocks are always enough.\<close>

theorem m_devget_content:
  assumes "wf_mem h" "rd h (ptr_add buf off) (nat len) = Some xs" "0 \<le> len"
    "5 \<le> mm_quota h" "mm_next h + 5 \<le> 2 ^ 50"
  shows "\<exists>m h' as b. m_devget h buf len off ifp = Some (m, h') \<and> wf_mem h' \<and> mchain h' m as \<and>
    content h' as = Some xs \<and> ld h' m = Some b \<and> has (m_flags b) M_PKTHDR \<and> pk_len b = len \<and>
    pk_rcvif b = 0 \<and> (\<forall>q n z. rd h q n = Some z \<longrightarrow> rd h' q n = Some z)"
proof -
  from m_devget_spec [OF assms] obtain m h' as q where "m_devget h buf len off ifp = Some (m, h')"
    "dg_inv h h' m as xs q []" by blast
  moreover have "int (length xs) = len" using rd_length [OF assms(2)] assms(3) by simp
  ultimately show ?thesis unfolding dg_inv_def by auto
qed

theorem m_devget_content_witness:
  "\<exists>m h' as b. m_devget demo 12288 4 1 0 = Some (m, h') \<and> wf_mem h' \<and> mchain h' m as \<and>
    content h' as = Some [8, 7, 6, 5] \<and> ld h' m = Some b \<and> has (m_flags b) M_PKTHDR \<and> pk_len b = 4 \<and>
    pk_rcvif b = 0 \<and> (\<forall>q n z. rd demo q n = Some z \<longrightarrow> rd h' q n = Some z)"
proof (rule m_devget_content)
  show "wf_mem demo" by (rule demo_wf)
  show "rd demo (ptr_add 12288 1) (nat 4) = Some [8, 7, 6, 5]"
    by (simp add: ptr_add_def rd_def demo_ld block_of_def slice_def)
qed simp_all

text \<open>C5: \<open>m_copydata\<close> writes to the caller's buffer exactly the \<open>len\<close> bytes that the chain
  holds from offset \<open>off\<close> on, whatever the split into mbufs, and nothing else.\<close>

theorem m_copydata_slice:
  assumes "wf_mem h" "mchain h m as" "content h as = Some xs" "apart h as (block_of cp)"
    "rd h cp (nat len) \<noteq> None" "0 \<le> off" "0 \<le> len" "off + len \<le> int (length xs)"
  shows "m_copydata h m off len cp = wr h cp (slice (nat off) (nat len) xs)"
  using assms by (rule m_copydata_spec)

theorem m_copydata_slice_witness:
  "m_copydata demo 4096 1 3 12288 = wr demo 12288 [2, 3, 4]"
proof -
  have "m_copydata demo 4096 1 3 12288 = wr demo 12288 (slice (nat 1) (nat 3) [1, 2, 3, 4, 5])"
  proof (rule m_copydata_slice)
    show "wf_mem demo" "mchain demo 4096 [4096, 8192]" "content demo [4096, 8192] = Some [1, 2, 3, 4, 5]"
      by (rule demo_wf demo_chain demo_content)+
    show "apart demo [4096, 8192] (block_of 12288)" using demo_apart by (simp add: block_of_def)
    show "rd demo 12288 (nat 3) \<noteq> None" using demo_buf [of 3] by auto
  qed simp_all
  then show ?thesis by (simp add: slice_def)
qed

text \<open>C3: reading back through \<open>m_copydata\<close> from any offset \<open>o'\<close> of the packet that \<open>m_devget\<close> made
  gives the original bytes from there on, in any buffer \<open>cp\<close> that existed before.\<close>

theorem m_devget_copydata:
  assumes "wf_mem h" "rd h (ptr_add buf off) (nat len) = Some xs" "0 \<le> o'" "0 < l" "o' + l \<le> len"
    "5 \<le> mm_quota h" "mm_next h + 5 \<le> 2 ^ 50" "rd h cp (nat l) \<noteq> None"
  shows "\<exists>m h' h''. m_devget h buf len off ifp = Some (m, h') \<and> m_copydata h' m o' l cp = Some h'' \<and>
    rd h'' cp (nat l) = Some (slice (nat o') (nat l) xs)"
proof -
  have len: "0 \<le> len" using assms(3-5) by simp
  from m_devget_spec [OF assms(1,2) len assms(6,7)] obtain m h' as q where dg: "m_devget h buf len off ifp = Some (m, h')"
    "dg_inv h h' m as xs q []" by blast
  have lx: "length xs = nat len" by (rule rd_length [OF assms(2)])
  from assms(8) obtain z where z: "rd h cp (nat l) = Some z" by blast
  have new: "block_of cp < 4096 * mm_next h" using rd_old [OF assms(1) z] assms(4) by simp
  have ap: "apart h' as (block_of cp)" using dg(2) new unfolding dg_inv_def apart_def by fastforce
  have r: "rd h' cp (nat l) = Some z" using dg(2) z unfolding dg_inv_def by blast
  let ?ys = "slice (nat o') (nat l) xs"
  have cd: "m_copydata h' m o' l cp = wr h' cp ?ys"
    using dg(2) ap r assms(3-5) lx len unfolding dg_inv_def by (intro m_copydata_spec) auto
  have ly: "length ?ys = nat l" using lx assms(3-5) by (simp add: slice_def)
  obtain h'' where h'': "wr h' cp ?ys = Some h''" using wr_total [OF r, of ?ys] ly by auto
  from wr_rd_same [OF this] ly cd dg(1) h'' show ?thesis by auto
qed

theorem m_devget_copydata_witness:
  "\<exists>m h' h''. m_devget demo 12288 3 0 0 = Some (m, h') \<and> m_copydata h' m 1 2 12288 = Some h'' \<and>
    rd h'' 12288 (nat 2) = Some (slice (nat 1) (nat 2) [9, 8, 7])"
proof (rule m_devget_copydata)
  show "wf_mem demo" by (rule demo_wf)
  show "rd demo (ptr_add 12288 0) (nat 3) = Some [9, 8, 7]" by (simp add: ptr_add_def demo_buf)
  show "rd demo 12288 (nat 2) \<noteq> None" using demo_buf [of 2] by auto
qed simp_all

section \<open>Joining, trimming and releasing chains\<close>

text \<open>C23: \<open>m_cat\<close> appends the second chain to the first, keeps the bytes of both, and adds to the
  packet length of the first the packet length of the second, or the sum of its lengths where it
  has no packet header.\<close>

theorem m_cat_joins:
  assumes "wf_mem h" "mchain h m as" "as \<noteq> []" "mchain h n bs" "bs \<noteq> []" "set as \<inter> set bs = {}"
    "ld h n = Some nb" "ld h m = Some mb" "content h as = Some xs" "content h bs = Some ys"
    "clear_of h m (as @ bs)"
    "int32 (pk_len mb + (if has (m_flags nb) M_PKTHDR then pk_len nb else int (length ys)))"
  shows "\<exists>h' mb'. m_cat h m n = Some h' \<and> mchain h' m (as @ bs) \<and> content h' (as @ bs) = Some (xs @ ys) \<and>
    ld h' m = Some mb' \<and> (has (m_flags mb) M_PKTHDR \<longrightarrow>
      pk_len mb' = pk_len mb + (if has (m_flags nb) M_PKTHDR then pk_len nb else int (length ys)))"
  using m_cat_content [OF assms(1-11)] assms(12) by blast

theorem m_cat_joins_witness:
  "\<exists>h' mb'. m_cat demo 4096 16384 = Some h' \<and> mchain h' 4096 ([4096, 8192] @ [16384]) \<and>
    content h' ([4096, 8192] @ [16384]) = Some ([1, 2, 3, 4, 5] @ [6]) \<and>
    ld h' 4096 = Some mb' \<and> (has (m_flags demo_b1) M_PKTHDR \<longrightarrow>
      pk_len mb' = pk_len demo_b1 + (if has (m_flags demo_b3) M_PKTHDR then pk_len demo_b3 else int (length [6 :: u_char])))"
  by (rule m_cat_joins [OF demo_wf demo_chain(1) _ demo_chain(2) _ _ demo_ld(3) demo_ld(1) demo_content])
    (use demo_apart in \<open>simp_all add: int32_def demo_pk\<close>)

text \<open>C26: \<open>m_adj\<close> with a positive length drops that many bytes from the front of the packet, whatever
  mbufs they lie in, and takes them off the packet length.  The comment above the function says the
  opposite, that a positive length removes data from the end towards the start.\<close>

theorem m_adj_drops_front:
  assumes "wf_mem h" "mchain h m as" "ld h m = Some b" "content h as = Some xs" "clear_of h m as"
    "0 < len" "len \<le> int (length xs)" "int32 (pk_len b - len)"
  shows "\<exists>h' b'. m_adj h m len = Some h' \<and> mchain h' m as \<and> content h' as = Some (drop (nat len) xs) \<and>
    ld h' m = Some b' \<and> (has (m_flags b) M_PKTHDR \<longrightarrow> pk_len b' = pk_len b - len)"
proof -
  let ?b0 = "if has (m_flags b) M_PKTHDR then set_pk_len (pk_len b - len) b else b"
  let ?h0 = "st h m ?b0"
  have nx: "m_next ?b0 = m_next b" by simp
  have h0: "(if has (m_flags b) M_PKTHDR then st h m (set_pk_len (pk_len b - len) b) else h) = ?h0"
    using st_ld [OF assms(3)] by simp
  have "content ?h0 as = Some xs" using content_set_pk_len [OF assms(1,3,2,5,4)] assms(4) st_ld [OF assms(3)] by simp
  moreover have "mchain ?h0 m as" using mchain_st_same [OF assms(3) nx] assms(2) by simp
  moreover have "wf_mem ?h0" using assms(1,3) by (simp add: wf_st wf_ld_full)
  ultimately obtain h' where h': "adj_front ?h0 m len = Some h'" "same_bytes ?h0 h'"
    "content h' as = Some (drop (nat len) xs)" using adj_front_chain assms(6,7) by blast
  have "m_adj h m len = Some h'" using m_adj_unfold [OF assms(3,6)] h0 h'(1) by simp
  moreover obtain b' where b': "ld h' m = Some b'" "fixed b' = fixed ?b0"
    using same_bytes_ld [OF h'(2)] ld_nz [OF assms(3)] by (metis ld_st_same)
  moreover have "mchain h' m as"
  proof -
    have "m_next_of h' a = m_next_of ?h0 a" for a
      using h'(2) unfolding same_bytes_def m_next_of_def fixed_def
      by (cases "ld ?h0 a"; cases "ld h' a") (auto dest!: spec [where x = a])
    then show ?thesis using \<open>mchain ?h0 m as\<close> by (subst mchain_cong [of _ _ ?h0]) auto
  qed
  moreover have "has (m_flags b) M_PKTHDR \<longrightarrow> pk_len b' = pk_len b - len"
    using b'(2) same_bytes_pk [of b' ?b0] assms(8) wf_ld_full [OF assms(1,3)] by (simp add: fixed_def)
  ultimately show ?thesis using h'(3) by blast
qed

theorem m_adj_drops_front_witness:
  "\<exists>h' b'. m_adj demo 4096 4 = Some h' \<and> mchain h' 4096 [4096, 8192] \<and>
    content h' [4096, 8192] = Some (drop (nat 4) [1, 2, 3, 4, 5]) \<and>
    ld h' 4096 = Some b' \<and> (has (m_flags demo_b1) M_PKTHDR \<longrightarrow> pk_len b' = pk_len demo_b1 - 4)"
  by (rule m_adj_drops_front [OF demo_wf demo_chain(1) demo_ld(1) demo_content(1) demo_apart(2)])
    (simp_all add: int32_def demo_pk)

text \<open>Asked to drop more bytes than the packet has, \<open>m_adj\<close> runs off the end of the chain and
  dereferences \<open>NULL\<close>: it has no defined result.\<close>

theorem m_adj_overrun_undefined:
  assumes "mchain h m as" "ld h m = Some b" "wf_mem h" "content h as = Some xs" "clear_of h m as"
    "int (length xs) < len"
  shows "m_adj h m len = None"
proof -
  let ?b0 = "if has (m_flags b) M_PKTHDR then set_pk_len (pk_len b - len) b else b"
  let ?h0 = "st h m ?b0"
  have nx: "m_next ?b0 = m_next b" by simp
  have pos: "0 < len" using assms(6) by linarith
  have h0: "(if has (m_flags b) M_PKTHDR then st h m (set_pk_len (pk_len b - len) b) else h) = ?h0"
    using st_ld [OF assms(2)] by simp
  have "content ?h0 as = Some xs" using content_set_pk_len [OF assms(3,2,1,5,4)] assms(4) st_ld [OF assms(2)] by simp
  moreover have "mchain ?h0 m as" using mchain_st_same [OF assms(2) nx] assms(1) by simp
  ultimately obtain h' l where "m_adj_head ?h0 m len = Some (h', 0, l)" using m_adj_head_short assms(6) by blast
  then have "adj_front ?h0 m len = None" by (simp add: adj_front_def upd_None)
  then show ?thesis using m_adj_unfold [OF assms(2) pos] h0 by simp
qed

theorem m_adj_overrun_undefined_witness: "m_adj demo 4096 6 = None"
  by (rule m_adj_overrun_undefined [OF demo_chain(1) demo_ld(1) demo_wf demo_content(1) demo_apart(2)]) simp

text \<open>With a negative length \<open>m_adj\<close> does not trim the tail of the packet: it cuts \<open>k\<close> bytes off
  the end of the first mbuf that has \<open>k\<close> bytes, keeps everything behind it, and leaves the packet
  length as it was.\<close>

theorem m_adj_negative_cuts_first:
  assumes "wf_mem h" "mchain h m (a # as)" "ld h m = Some b" "mbytes h a = Some x" "content h as = Some y"
    "0 \<le> k" "k \<le> int (length x)"
  shows "\<exists>h' b'. m_adj h m (- k) = Some h' \<and> content h' (a # as) = Some (take (length x - nat k) x @ y) \<and>
    ld h' m = Some b' \<and> pk_len b' = pk_len b"
proof -
  have a: "a = m" "a \<notin> set as" using assms(2) chain_distinct [OF assms(2)] by (auto simp: mchain_Cons)
  have lx: "int (length x) = m_len b" using mbytes_len [OF assms(4)] a assms(3) by simp
  let ?b = "b\<lparr>m_len := m_len b - k\<rparr>"
  let ?h = "st h m ?b"
  have run: "m_adj h m (- k) = Some ?h"
    using assms(3,6,7) lx ld_nz [OF assms(3)] by (simp add: m_adj_def m_adj_tail.simps)
  have sb: "same_bytes h ?h" by (rule same_bytes_st [OF assms(3)]) (simp add: fixed_def)
  have "rd h (m_data b) (length x) = Some x"
  proof -
    have "length x = nat (m_len b)" using lx by linarith
    with assms(3,4) a show ?thesis by (simp add: mbytes_def split: if_splits)
  qed
  from rd_take [OF this, of "length x - nat k"]
  have "rd h (m_data b) (length x - nat k) = Some (take (length x - nat k) x)" by simp
  moreover have "nat (m_len b - k) = length x - nat k" using lx assms(6) by linarith
  ultimately have "mbytes ?h a = Some (take (length x - nat k) x)"
    using a lx assms(7) ld_nz [OF assms(3)] same_bytes_rd [OF sb] by (simp add: mbytes_def)
  moreover have "content ?h as = Some y" using content_st_notin [OF sb] a assms(5) by simp
  ultimately have "content ?h (a # as) = Some (take (length x - nat k) x @ y)" by simp
  then show ?thesis using run ld_nz [OF assms(3)] by auto
qed

theorem m_adj_negative_cuts_first_witness:
  "\<exists>h' b'. m_adj demo 4096 (- 2) = Some h' \<and>
    content h' [4096, 8192] = Some (take (length [1, 2, 3 :: u_char] - nat 2) [1, 2, 3] @ [4, 5]) \<and>
    ld h' 4096 = Some b' \<and> pk_len b' = pk_len demo_b1"
  by (rule m_adj_negative_cuts_first [OF demo_wf demo_chain(1) demo_ld(1) demo_bytes(1)]) (simp_all add: demo_bytes)

text \<open>\<open>m_freem\<close> gives back every mbuf of a chain without clusters and nothing else.\<close>

theorem m_freem_releases:
  assumes "mchain h m as" "\<forall>a\<in>set as. \<forall>b. ld h a = Some b \<longrightarrow> \<not> has (m_flags b) M_EXT"
  shows "\<exists>h'. m_freem h m = Some h' \<and> (\<forall>a. ld h' a = (if a \<in> set as then None else ld h a)) \<and> mm_buf h' = mm_buf h"
  using m_freem_chain [OF assms(1)] assms(2) by (auto simp: ld_without) (simp add: without_def)

theorem m_freem_releases_witness:
  "\<exists>h'. m_freem demo 4096 = Some h' \<and> (\<forall>a. ld h' a = (if a \<in> set [4096, 8192] then None else ld demo a)) \<and>
    mm_buf h' = mm_buf demo"
  by (rule m_freem_releases [OF demo_chain(1)]) (simp add: demo_ld)


text \<open>\<open>m_free\<close> of the first of two mbufs returns the second and copies the receive interface
  into bytes 8 to 15 of the second mbuf's union, and its flags into its flag word: where the
  second mbuf is an ordinary one, these are data bytes of the packet.\<close>

theorem m_free_overwrites_next:
  assumes "wf_mem h" "ld h m = Some b" "\<not> has (m_flags b) M_EXT" "m_next b = n" "ld h n = Some c" "m \<noteq> n"
  shows "\<exists>h' c'. m_free h m = Some (n, h') \<and> ld h' m = None \<and> ld h' n = Some c' \<and>
    m_flags c' = m_flags c OR m_flags b \<and> m_len c' = m_len c \<and> m_data c' = m_data c \<and>
    rd h' (n + 40 + 8) 8 = Some (nat_le 8 (pk_rcvif b))"
proof -
  let ?c3 = "freed_next b c"
  have run: "m_free h m = Some (n, without (st h n ?c3) {m})"
    using m_free_next [OF assms(2,3)] assms(4-6) by simp
  have c3: "ld (without (st h n ?c3) {m}) n = Some ?c3"
    using assms(6) ld_nz [OF assms(5)] by (simp add: ld_without)
  have f: "full c" by (rule wf_ld_full [OF assms(1,5)])
  then have f3: "full ?c3" by (simp add: freed_next_def Let_def)
  have "full (if has (m_flags b) M_PKTHDR then set_pk_len v c' else c')" if "full c'" for v c'
    using that by simp
  then have "slice 8 8 (m_dat ?c3) = nat_le 8 (pk_rcvif b)"
    using f by (auto simp: freed_next_def Let_def set_pk_rcvif_def full_def set_pk_len_def slice_patch_same)
  moreover have "n mod 4096 = 0" using wf_ld [OF assms(1,5)] by simp
  ultimately have "rd (without (st h n ?c3) {m}) (n + 40 + 8) 8 = Some (nat_le 8 (pk_rcvif b))"
    using rd_mbuf [OF c3 _ f3, of 8 8] by simp
  moreover have "m_flags ?c3 = m_flags c OR m_flags b" "m_len ?c3 = m_len c" "m_data ?c3 = m_data c"
    by (simp_all add: freed_next_def Let_def)
  ultimately show ?thesis using run c3 by (auto simp: ld_without)
qed

theorem m_free_overwrites_next_witness:
  "\<exists>h' c'. m_free demo 4096 = Some (8192, h') \<and> ld h' 4096 = None \<and> ld h' 8192 = Some c' \<and>
    m_flags c' = m_flags demo_b2 OR m_flags demo_b1 \<and> m_len c' = m_len demo_b2 \<and> m_data c' = m_data demo_b2 \<and>
    rd h' (8192 + 40 + 8) 8 = Some (nat_le 8 (pk_rcvif demo_b1))"
  by (rule m_free_overwrites_next [OF demo_wf demo_ld(1) _ _ demo_ld(2)])
    simp_all

text \<open>\<open>m_pullup\<close> of a length that the first mbuf already exceeds does not return the packet: it
  frees its first mbuf and returns \<open>NULL\<close>.  Only an exact length is returned unchanged.\<close>

theorem m_pullup_frees_longer:
  assumes "wf_mem h" "mchain h m (m # as)" "ld h m = Some b" "\<not> has (m_flags b) M_EXT" "len < m_len b"
  shows "\<exists>h'. m_pullup h m len = Some (0, h') \<and> ld h' m = None"
proof -
  have loop: "m_pullup_loop h m m len = Some (len, h)" using assms(3,5) by (subst m_pullup_loop.simps) simp
  have "\<exists>n h'. m_free h m = Some (n, h') \<and> ld h' m = None"
  proof (cases "m_next b = 0")
    case True
    with m_free_last [OF assms(3,4)] show ?thesis by (simp add: ld_without)
  next
    case False
    from assms(2,3) have ch: "mchain h (m_next b) as" by (simp add: mchain_Cons)
    with False obtain c where c: "ld h (m_next b) = Some c" "m_next b \<in> set as" by (auto simp: mchain_nz)
    then have "m \<noteq> m_next b" using chain_distinct [OF assms(2)] by auto
    from m_free_next [OF assms(3,4) c(1) this] show ?thesis by (simp add: ld_without)
  qed
  then show ?thesis using assms(3-5) loop by (auto simp: m_pullup_def)
qed

theorem m_pullup_frees_longer_witness:
  "\<exists>h'. m_pullup demo 4096 2 = Some (0, h') \<and> ld h' 4096 = None"
  by (rule m_pullup_frees_longer [OF demo_wf demo_chain(1) demo_ld(1)]) simp_all

text \<open>The mbuf that \<open>m_getclr\<close> returns points to its cluster only through \<open>m_data\<close>; the field
  \<open>ext_buf\<close> that the release routines free keeps what \<open>malloc\<close> left there, so \<open>m_freem\<close> either
  has no defined result or leaves the cluster allocated, unless that garbage is the cluster itself.\<close>

theorem m_getclr_cluster_lost:
  assumes "wf_mem h" "malloc_ok h" "malloc_ok (took h)"
  shows "\<exists>h1 b. m_getclr h how t = Some (fresh h, h1) \<and> ld h1 (fresh h) = Some b \<and> has (m_flags b) M_EXT \<and>
    mm_buf h1 (m_data b) \<noteq> None \<and> ext_buf b = le_nat (slice 16 8 (junk_bytes h 88)) \<and>
    (\<forall>h2. ext_buf b \<noteq> m_data b \<longrightarrow> m_freem h1 (fresh h) = Some h2 \<longrightarrow> mm_buf h2 (m_data b) \<noteq> None)"
proof -
  let ?b = "cl_mbuf h t"
  have ne: "fresh (took h) \<noteq> fresh h" by (simp add: fresh_took)
  have b: "ld (cl_heap h t) (fresh h) = Some ?b" by (simp add: cl_heap_ld [OF assms(1)])
  have buf: "mm_buf (cl_heap h t) (m_data ?b) \<noteq> None" by (simp add: cl_heap_def)
  have keep: "mm_buf h2 d \<noteq> None" if "free_ptr h1 p = Some h2" "p \<noteq> d" "mm_buf h1 d \<noteq> None" for h1 h2 p d
    using that by (auto simp: free_ptr_def split: if_splits)
  have "mm_buf h2 (m_data ?b) \<noteq> None"
    if ex: "ext_buf ?b \<noteq> m_data ?b" and run: "m_freem (cl_heap h t) (fresh h) = Some h2" for h2
  proof -
    from run b ld_nz [OF b] obtain h3 h4 where "free_ptr (cl_heap h t) (ext_buf ?b) = Some h3"
      "free_ptr h3 (fresh h) = Some h4" "m_freem h4 0 = Some h2"
      by (subst (asm) m_freem.simps) (auto split: bind_splits if_splits)
    then have "h4 = h2" "mm_buf h4 (m_data ?b) \<noteq> None"
      using keep [of "cl_heap h t" "ext_buf ?b" h3 "m_data ?b"] keep [of h3 "fresh h" h4 "m_data ?b"] ex buf ne
      by (simp_all add: m_freem.simps)
    then show ?thesis by simp
  qed
  moreover have "ext_buf ?b = le_nat (slice 16 8 (junk_bytes h 88))"
    by (simp add: ext_buf_def cl_mbuf_def plain_mbuf_def)
  ultimately show ?thesis using m_getclr_ok [OF assms(2,3,1)] b buf by auto
qed

theorem m_getclr_cluster_lost_witness:
  "\<exists>h1 b. m_getclr demo 0 0 = Some (fresh demo, h1) \<and> ld h1 (fresh demo) = Some b \<and> has (m_flags b) M_EXT \<and>
    mm_buf h1 (m_data b) \<noteq> None \<and> ext_buf b = le_nat (slice 16 8 (junk_bytes demo 88)) \<and>
    (\<forall>h2. ext_buf b \<noteq> m_data b \<longrightarrow> m_freem h1 (fresh demo) = Some h2 \<longrightarrow> mm_buf h2 (m_data b) \<noteq> None)"
  by (rule m_getclr_cluster_lost [OF demo_wf demo_ok]) (simp add: malloc_ok_def)

section \<open>Prepending\<close>

text \<open>\<open>m_prepend\<close> of fewer than 72 bytes puts one new mbuf in front of the packet, with room for
  the bytes at a 4-aligned place inside its union; the packet header moves to it and the bytes of
  the packet stay as they were.  When no mbuf can be had, the packet is released.\<close>

theorem m_prepend_layout:
  assumes "wf_mem h" "malloc_ok h" "ld h m = Some b" "mchain h m as" "content h as = Some xs" "0 \<le> len" "len < 72"
  shows "\<exists>h' nb. m_prepend h m len how = Some (fresh h, h') \<and> mchain h' (fresh h) (fresh h # as) \<and>
    content h' as = Some xs \<and> ld h' (fresh h) = Some nb \<and> m_len nb = len \<and> m_data nb mod 4 = 0 \<and>
    rd h' (m_data nb) (nat len) \<noteq> None \<and>
    (has (m_flags b) M_PKTHDR \<longrightarrow> pk_len nb = pk_len b \<and> m_flags nb = m_flags b AND M_COPYFLAGS \<and>
       (\<exists>tb. ld h' m = Some tb \<and> \<not> has (m_flags tb) M_PKTHDR))"
proof -
  let ?f = "fresh h" and ?nb = "prep_mbuf h m b len" and ?tb = "prep_tail b"
  let ?h1 = "st (took h) ?f ?nb"
  let ?h' = "st ?h1 m ?tb"
  note nz = fresh_nz [OF assms(2,1)]
  have ne: "m \<noteq> ?f" using ld_fresh [OF assms(1)] assms(3) by auto
  have fb: "full b" by (rule wf_ld_full [OF assms(1,3)])
  have fn: "full ?nb" using fb by (simp add: prep_mbuf_def Let_def)
  have h1: "ld ?h1 m = Some b" using ne assms(3) by simp
  have nb: "ld ?h' ?f = Some ?nb" using ne nz by simp
  have sb: "mm_buf ?h' = mm_buf h \<and> (\<forall>a. a \<noteq> ?f \<longrightarrow> (ld h a = None \<longleftrightarrow> ld ?h' a = None))"
    using assms(3) ne by (auto simp: ld_st)
  have same: "\<exists>c'. ld ?h' a = Some c' \<and> m_len c' = m_len c \<and> m_data c' = m_data c \<and> m_dat c' = m_dat c \<and> m_next c' = m_next c"
    if "ld h a = Some c" for a c
  proof (cases "a = m")
    case True
    with that assms(3) ld_nz [OF that] show ?thesis by (auto simp: prep_tail_def)
  next
    case False
    with that ld_fresh [OF assms(1)] show ?thesis by (cases "a = ?f") auto
  qed
  have rdk: "rd ?h' p n = Some z" if z: "rd h p n = Some z" for p n z
  proof (cases "n = 0")
    case True
    with z show ?thesis by (simp add: rd_0)
  next
    case False
    show ?thesis
    proof (cases "ld h (block_of p)")
      case None
      with z False have "mm_buf h (block_of p) \<noteq> None" using rd_block_ex [OF z] by simp
      with wf_fresh [OF assms(1)] have "block_of p \<noteq> ?f" by auto
      with None sb have "ld ?h' (block_of p) = None" by blast
      with z None sb False show ?thesis by (simp add: rd_def split: option.splits)
    next
      case (Some c)
      from same [OF Some] obtain c' where "ld ?h' (block_of p) = Some c'" "m_dat c' = m_dat c" by blast
      with z Some False show ?thesis by (auto simp: rd_def split: if_splits)
    qed
  qed
  have con: "content ?h' as = Some xs"
  proof -
    have "content ?h' as = content h as"
    proof (rule content_cong)
      fix a assume a: "a \<in> set as"
      from mchain_ld [OF assms(4) a] obtain c where c: "ld h a = Some c" ..
      from content_mbytes [OF assms(5) a] c obtain z where "mbytes h a = Some z" by blast
      with c same [OF c] rdk show "mbytes ?h' a = mbytes h a"
        by (auto simp: mbytes_def split: if_splits)
    qed
    with assms(5) show ?thesis by simp
  qed
  have ch: "mchain ?h' m as"
  proof -
    have "m_next_of ?h' a = m_next_of h a" if "a \<in> set as" for a
      using mchain_ld [OF assms(4) that] same [of a] by (auto simp: m_next_of_def)
    then show ?thesis using assms(4) by (subst mchain_cong [of _ _ h]) auto
  qed
  have data: "m_data ?nb = ?f + 40 + (nat ((72 - len) div 4 * 4) + (if has (m_flags b) M_PKTHDR then 16 else 0))"
    by (simp add: prep_mbuf_def Let_def)
  have k: "nat ((72 - len) div 4 * 4) + nat len \<le> 72" using assms(6,7) by linarith
  have "rd ?h' (m_data ?nb) (nat len) \<noteq> None"
    unfolding data using k by (subst rd_mbuf [OF nb fresh_props(2) fn]) auto
  moreover have "m_data ?nb mod 4 = 0"
  proof -
    have "4 dvd ?f" by (simp add: fresh_def)
    moreover have "4 dvd nat ((72 - len) div 4 * 4)" using assms(6,7) by (simp add: nat_mult_distrib)
    ultimately have "4 dvd m_data ?nb" unfolding data by (intro dvd_add) simp_all
    then show ?thesis by simp
  qed
  moreover have "has (m_flags b) M_PKTHDR \<longrightarrow> pk_len ?nb = pk_len b \<and> m_flags ?nb = m_flags b AND M_COPYFLAGS \<and>
       (\<exists>tb. ld ?h' m = Some tb \<and> \<not> has (m_flags tb) M_PKTHDR)"
    using fb ld_nz [OF assms(3)] by (simp add: prep_mbuf_def Let_def prep_tail_def has_clear)
  moreover have "mchain ?h' ?f (?f # as)" using nb ch by (simp add: mchain_Cons prep_mbuf_def Let_def)
  moreover have "m_len ?nb = len" by (simp add: prep_mbuf_def Let_def)
  moreover note m_prepend_ok [OF assms(1-3,6,7)] con nb
  ultimately show ?thesis by (intro exI [of _ ?h'] exI [of _ ?nb] conjI)
qed

theorem m_prepend_layout_witness:
  "\<exists>h' nb. m_prepend demo 4096 14 0 = Some (fresh demo, h') \<and> mchain h' (fresh demo) [fresh demo, 4096, 8192] \<and>
    content h' [4096, 8192] = Some [1, 2, 3, 4, 5] \<and> ld h' (fresh demo) = Some nb \<and> m_len nb = 14 \<and> m_data nb mod 4 = 0 \<and>
    rd h' (m_data nb) (nat 14) \<noteq> None \<and>
    (has (m_flags demo_b1) M_PKTHDR \<longrightarrow> pk_len nb = pk_len demo_b1 \<and> m_flags nb = m_flags demo_b1 AND M_COPYFLAGS \<and>
       (\<exists>tb. ld h' 4096 = Some tb \<and> \<not> has (m_flags tb) M_PKTHDR))"
  by (rule m_prepend_layout [OF demo_wf demo_ok demo_ld(1) demo_chain(1) demo_content(1)]) simp_all

section \<open>Allocation\<close>

text \<open>What an mbuf without a cluster looks like: its links, its type, all of its data area, and a data
  pointer that leaves room for at least \<open>MHLEN\<close> bytes in that area.\<close>

definition typed_mbuf :: "int \<Rightarrow> addr \<Rightarrow> mbuf \<Rightarrow> bool" where
  "typed_mbuf t m b \<longleftrightarrow> length (m_dat b) = nat MLEN \<and> m_type b = word_of_int t \<and> m_next b = 0 \<and> m_nextpkt b = 0 \<and>
     m_len b = 0 \<and> m_flags b \<in> {0, M_PKTHDR} \<and> m_data b = (if m_flags b = 0 then mtod_dat m else mtod_pktdat m)"

lemma typed_fresh:
  assumes "wf_mem h" "malloc_ok h" "r \<in> {MGET h how t, MGETHDR h how t, m_get h how t, m_gethdr h how t}"
  shows "\<exists>b. r = Some (fresh h, st (took h) (fresh h) b) \<and> typed_mbuf t (fresh h) b"
proof -
  have z: "M_PKTHDR \<noteq> 0" by (simp add: M_PKTHDR_def)
  have "typed_mbuf t (fresh h) b"
    if "b \<in> {plain_mbuf h t, hdr_mbuf h t, zero_mbuf h t, zero_hdr h t}" for b
    using that full_fresh [of h t] z unfolding typed_mbuf_def by (auto simp: full_def [symmetric])
  then show ?thesis
    using assms(3) MGET_ok [OF assms(2,1), of how t] MGETHDR_ok [OF assms(2,1), of how t]
      m_get_ok [OF assms(2,1), of how t] m_gethdr_ok [OF assms(2,1), of how t] by auto
qed

text \<open>C6: an mbuf that one of the allocators returns has the form of its type: a new block with all 88
  data bytes, null links, length zero, the type asked for, and a data pointer to its own data area,
  behind the packet header if the flags say that it has one.  Nothing that existed before changes.\<close>

theorem allocated_typed:
  assumes "wf_mem h" "malloc_ok h" "r \<in> {MGET h how t, MGETHDR h how t, m_get h how t, m_gethdr h how t}"
  shows "\<exists>m h' b. r = Some (m, h') \<and> m \<noteq> 0 \<and> ld h m = None \<and> wf_mem h' \<and> ld h' m = Some b \<and> typed_mbuf t m b \<and>
    (\<forall>p. p \<noteq> m \<longrightarrow> ld h' p = ld h p)"
proof -
  obtain b where b: "r = Some (fresh h, st (took h) (fresh h) b)" "typed_mbuf t (fresh h) b"
    using typed_fresh [OF assms] by blast
  have "full b" using b(2) by (simp add: typed_mbuf_def full_def)
  then show ?thesis
    using b fresh_props(1) [OF assms(1)] wf_took_st [OF assms(1), of b] ld_fresh [OF assms(1)]
    by (intro exI [of _ "fresh h"] exI [of _ "st (took h) (fresh h) b"] exI [of _ b]) (auto simp: ld_st)
qed

theorem allocated_typed_witness:
  "\<exists>m h' b. MGETHDR demo 0 2 = Some (m, h') \<and> ld demo m = None \<and> ld h' m = Some b \<and> typed_mbuf 2 m b"
  using allocated_typed [OF demo_wf, of "MGETHDR demo 0 2" 0 2] by (auto simp: malloc_ok_def)

end
