(* ===== verification/CopyBack.thy ===== *)
theory CopyBack
  imports MbufProps
begin

text \<open>
  \<open>m_copyback\<close> of \<open>kern/uipc_mbuf.c\<close>: one round of its loop, what a write that fits into one mbuf
  stores and \<open>m_copydata\<close> reads back, and what a write over two mbufs leaves in the second one:
  the source pointer \<open>cp\<close> never moves.
\<close>

section \<open>One round\<close>

definition back_len :: "addr \<Rightarrow> int \<Rightarrow> int \<Rightarrow> mem \<Rightarrow> mem" where
  "back_len m off len h = (case ld h m of None \<Rightarrow> h
     | Some b \<Rightarrow> if m_len b < off + len then st h m (b\<lparr>m_len := min (get_total_len b) (len + off)\<rparr>) else h)"

lemma rd_back_len [simp]: "rd (back_len m off len h) p n = rd h p n"
  by (auto simp: back_len_def split: option.splits intro: rd_st_same_dat)

lemma wf_back_len: "wf_mem h \<Longrightarrow> wf_mem (back_len m off len h)"
  by (auto simp: back_len_def split: option.splits dest: wf_ld_full intro!: wf_st)

lemma get_total_len_hdr: "same_hdr b b' \<Longrightarrow> get_total_len b' = get_total_len b"
  by (simp add: same_hdr_def get_total_len_def)

lemma m_copyback_loop_done: "len \<le> 0 \<Longrightarrow> m_copyback_loop h old m off len cp = Some h"
  by (simp add: m_copyback_loop.simps)

text \<open>An empty mbuf is first given \<open>off\<close> zero bytes.\<close>

definition back_prep :: "mem \<Rightarrow> addr \<Rightarrow> mbuf \<Rightarrow> int \<Rightarrow> mem option" where
  "back_prep h m b off =
     (if m_len b = 0
      then do { h \<leftarrow> memset0 h (m_data b) off; upd h m (\<lambda>b. b\<lparr>m_len := m_len b + off\<rparr>) }
      else Some h)"

definition back_fill :: "mem \<Rightarrow> mbuf \<Rightarrow> int \<Rightarrow> u_char list option" where
  "back_fill h b off = (if m_len b = 0 then Some (replicate (nat off) 0) else rd h (m_data b) (nat off))"

lemma back_prep_ok:
  assumes wf: "wf_mem h" and b: "ld h m = Some b" and off: "0 \<le> off" and r: "rd h (m_data b) (nat off) \<noteq> None"
  shows "\<exists>h0 b0. back_prep h m b off = Some h0 \<and> wf_mem h0 \<and> ld h0 m = Some b0 \<and>
    m_next b0 = m_next b \<and> m_data b0 = m_data b \<and> m_flags b0 = m_flags b \<and>
    m_len b0 = (if m_len b = 0 then off else m_len b) \<and>
    (\<forall>q c. ld h q = Some c \<longrightarrow> q \<noteq> m \<longrightarrow> (\<exists>c'. ld h0 q = Some c' \<and> same_hdr c c')) \<and>
    (\<forall>q k. block_of q \<noteq> block_of (m_data b) \<longrightarrow> rd h0 q k = rd h q k) \<and>
    (\<forall>q k. rd h q k \<noteq> None \<longrightarrow> rd h0 q k \<noteq> None) \<and>
    rd h0 (m_data b) (nat off) = back_fill h b off"
proof (cases "m_len b = 0")
  case False
  with assms show ?thesis by (auto simp: back_prep_def back_fill_def same_hdr_def)
next
  case True
  let ?z = "replicate (nat off) (0 :: u_char)"
  from r obtain zs where zs: "rd h (m_data b) (nat off) = Some zs" by blast
  from wr_total [OF zs, of ?z] obtain h1 where h1: "wr h (m_data b) ?z = Some h1" by auto
  from wr_same_hdr [OF h1 b] obtain b1 where b1: "ld h1 m = Some b1" "same_hdr b b1" by blast
  have nz: "m \<noteq> 0" by (rule ld_nz [OF b])
  let ?h = "st h1 m (b1\<lparr>m_len := m_len b1 + off\<rparr>)"
  have dat: "rd (st h1 m (b1\<lparr>m_len := l\<rparr>)) q k = rd h1 q k" for q k l by (rule rd_st_same_dat [OF b1(1)]) simp
  have w1: "wf_mem h1" by (rule wf_wr [OF wf h1])
  have "back_prep h m b off = Some ?h"
    using True off h1 b1(1) by (simp add: back_prep_def memset0_def upd_eq)
  moreover have "wf_mem ?h" using wf_st [OF w1 b1(1)] wf_ld_full [OF w1 b1(1)] by simp
  moreover have "\<exists>c'. ld ?h q = Some c' \<and> same_hdr c c'" if "ld h q = Some c" "q \<noteq> m" for q c
    using wr_same_hdr [OF h1 that(1)] that(2) by simp
  moreover have "rd ?h (m_data b) (nat off) = back_fill h b off"
    using wr_rd_same [OF h1] True by (simp add: dat back_fill_def)
  ultimately show ?thesis
    using True nz b1(2) wr_rd_other [OF h1] wr_rd_defined [OF h1] by (simp add: dat same_hdr_def)
qed

lemma wr_rd_before:
  assumes wf: "wf_mem h" and w: "wr h (p + j) xs = Some h'" and r: "rd h p n \<noteq> None" "j + length xs \<le> n"
  shows "rd h' p j = rd h p j"
proof (cases "j = 0 \<or> xs = []")
  case True
  with w show ?thesis by (auto simp: rd_0 wr_def)
next
  case False
  from r obtain zs where zs: "rd h p n = Some zs" by blast
  have n: "0 < n" using False r(2) by (cases xs) auto
  have "p mod 4096 + j < 4096" using rd_bound [OF wf zs n] r(2) False by (cases xs) auto
  note bl = block_of_plus [OF this]
  from zs n show ?thesis
  proof (cases rule: rd_cases)
    case (1 b)
    have "ld h' (block_of p) = Some (b\<lparr>m_dat := patch (m_dat b) (p mod 4096 + j - 40) xs\<rparr>)"
      using w False 1 r(2) ld_nz [OF 1(1)] unfolding wr_def bl by (auto split: if_splits)
    with 1 r(2) False show ?thesis
      by (simp add: rd_def slice_patch_before)
  next
    case (2 bs)
    have "ld h' (block_of p) = None" "mm_buf h' (block_of p) = Some (patch bs (p mod 4096 + j) xs)"
      using w False 2 r(2) unfolding wr_def bl by (auto simp: ld_def split: if_splits)
    with 2 r(2) False show ?thesis
      by (simp add: rd_def slice_patch_before)
  qed
qed

lemma m_copyback_round:
  assumes wf: "wf_mem h" and b: "ld h m = Some b" and len: "0 < len" "0 \<le> off"
    and n: "n = min (get_total_len b - off) len" "0 < n"
    and src: "rd h cp (nat n) = Some ys"
    and dst: "rd h (m_data b) (nat (off + n)) \<noteq> None"
    and ap: "block_of cp \<noteq> block_of (m_data b)"
  shows "\<exists>h1 b1. m_copyback_loop h old m off len cp =
      m_copyback_loop (back_len m off len h1) old (m_next b) 0 (len - n) cp \<and>
    wf_mem h1 \<and> ld h1 m = Some b1 \<and> m_data b1 = m_data b \<and> get_total_len b1 = get_total_len b \<and>
    m_len b1 = (if m_len b = 0 then off else m_len b) \<and>
    rd h1 (m_data b + nat off) (nat n) = Some ys \<and> rd h1 (m_data b) (nat off) = back_fill h b off \<and>
    (\<forall>q c. ld h q = Some c \<longrightarrow> q \<noteq> m \<longrightarrow> (\<exists>c'. ld h1 q = Some c' \<and> same_hdr c c')) \<and>
    (\<forall>q k. block_of q \<noteq> block_of (m_data b) \<longrightarrow> rd h1 q k = rd h q k) \<and>
    (\<forall>q k. rd h q k \<noteq> None \<longrightarrow> rd h1 q k \<noteq> None)"
proof -
  let ?d = "m_data b + nat off"
  have nn: "nat (off + n) = nat off + nat n" using len n by (simp add: nat_add_distrib)
  have pre: "rd h (m_data b) (nat off) \<noteq> None" using rd_take [of h "m_data b" "nat (off + n)" _ "nat off"] dst nn by auto
  from back_prep_ok [OF wf b len(2) pre] obtain h0 b0 where
    p: "back_prep h m b off = Some h0" "wf_mem h0" "ld h0 m = Some b0"
      "m_next b0 = m_next b" "m_data b0 = m_data b" "m_flags b0 = m_flags b"
      "m_len b0 = (if m_len b = 0 then off else m_len b)"
      "\<And>q c. ld h q = Some c \<Longrightarrow> q \<noteq> m \<Longrightarrow> \<exists>c'. ld h0 q = Some c' \<and> same_hdr c c'"
      "\<And>q k. block_of q \<noteq> block_of (m_data b) \<Longrightarrow> rd h0 q k = rd h q k"
      "\<And>q k. rd h q k \<noteq> None \<Longrightarrow> rd h0 q k \<noteq> None"
      "rd h0 (m_data b) (nat off) = back_fill h b off" by blast
  have tl: "get_total_len b0 = get_total_len b" by (simp add: get_total_len_def p(6))
  from p(10) [OF dst] obtain zs where zs: "rd h0 (m_data b) (nat off + nat n) = Some zs" unfolding nn by blast
  have ds: "rd h0 ?d (nat n) = Some (drop (nat off) zs)" using rd_drop [OF p(2) zs, of "nat off"] by simp
  have sr: "rd h0 cp (nat n) = Some ys" using p(9) [OF ap] src by simp
  have bl: "block_of ?d = block_of (m_data b)"
    using rd_bound [OF p(2) zs] n(2) by (intro block_of_plus) simp
  have ly: "length ys = nat n" by (rule rd_length [OF src])
  from wr_total [OF ds, of ys] ly obtain h1 where h1: "wr h0 ?d ys = Some h1" by auto
  have cpy: "memcpy h0 ?d cp n = Some h1"
    using memcpy_eq [OF sr] rd_bound [OF p(2) sr] rd_bound [OF p(2) ds] n(2) h1 ap bl by simp
  have pa: "ptr_add (m_data b) off = ?d" using len(2) by (simp add: ptr_add_def nat_add_distrib)
  from wr_same_hdr [OF h1 p(3)] obtain b1 where b1: "ld h1 m = Some b1" "same_hdr b0 b1" by blast
  have f: "m_len b1 = m_len b0" "m_next b1 = m_next b" "m_data b1 = m_data b" "get_total_len b1 = get_total_len b"
    using b1(2) get_total_len_hdr [OF b1(2)] p(4,5) tl by (simp_all add: same_hdr_def)
  have nz: "m \<noteq> 0" by (rule ld_nz [OF b])
  have "m_copyback_loop h old m off len cp = do {
      h \<leftarrow> back_prep h m b off; b \<leftarrow> ld h m;
      let total_len = get_total_len b;
      h \<leftarrow> memcpy h (ptr_add (m_data b) off) cp (min (total_len - off) len);
      h \<leftarrow> (if m_len b < off + len then upd h m (\<lambda>b. b\<lparr>m_len := min total_len (len + off)\<rparr>) else Some h);
      m_copyback_loop h old (m_next b) 0 (len - min (total_len - off) len) cp }"
    using len nz b by (subst m_copyback_loop.simps) (simp add: back_prep_def)
  also have "\<dots> = m_copyback_loop (back_len m off len h1) old (m_next b) 0 (len - n) cp"
    using p(1,3,4,5) tl pa cpy n(1) b1(1) f nz by (simp add: back_len_def upd_eq Let_def)
  finally have run: "m_copyback_loop h old m off len cp =
    m_copyback_loop (back_len m off len h1) old (m_next b) 0 (len - n) cp" .
  have hd: "\<exists>c'. ld h1 q = Some c' \<and> same_hdr c c'" if "ld h q = Some c" "q \<noteq> m" for q c
    using p(8) [OF that] wr_same_hdr [OF h1] unfolding same_hdr_def by fastforce
  have "rd h1 (m_data b) (nat off) = back_fill h b off"
    using wr_rd_before [OF p(2) h1, of "nat off + nat n"] zs ly p(11) by simp
  moreover have "rd h1 ?d (nat n) = Some ys" using wr_rd_same [OF h1] ly by simp
  moreover have "rd h1 q k = rd h q k" if "block_of q \<noteq> block_of (m_data b)" for q k
    using wr_rd_other [OF h1] p(9) that bl by simp
  moreover have "rd h1 q k \<noteq> None" if "rd h q k \<noteq> None" for q k
    using wr_rd_defined [OF h1 p(10) [OF that]] .
  moreover have "m_len b1 = (if m_len b = 0 then off else m_len b)" using f(1) p(7) by simp
  ultimately show ?thesis using run wf_wr [OF p(2) h1] b1(1) f(3,4) hd
    by (intro exI [of _ h1], intro exI [of _ b1]) (intro conjI; blast)
qed

section \<open>Within one mbuf\<close>

text \<open>A write that fits into the capacity of the first mbuf stores the bytes at the offset,
  extends \<open>m_len\<close> to their end if need be, and leaves every other block alone.  The bytes before the
  offset stay, or are zero if the mbuf was empty.\<close>

lemma m_copyback_seek_here:
  "ld h m = Some b \<Longrightarrow> off \<le> get_total_len b \<Longrightarrow> m_copyback_seek h m off = Some (m, off)"
  by (subst m_copyback_seek.simps) simp

theorem m_copyback_stores:
  assumes "wf_mem h" "ld h m = Some b" "0 \<le> off" "0 < len" "off + len \<le> get_total_len b"
    "rd h cp (nat len) = Some xs" "rd h (m_data b) (nat (off + len)) \<noteq> None" "block_of cp \<noteq> block_of (m_data b)"
  shows "\<exists>h' b'. m_copyback h m off len cp = Some h' \<and> wf_mem h' \<and>
    rd h' (m_data b + nat off) (nat len) = Some xs \<and>
    rd h' (m_data b) (nat off) = (if m_len b = 0 then Some (replicate (nat off) 0) else rd h (m_data b) (nat off)) \<and>
    ld h' m = Some b' \<and> m_len b' = max (m_len b) (off + len) \<and> m_data b' = m_data b \<and>
    (\<forall>q k. block_of q \<noteq> block_of (m_data b) \<longrightarrow> rd h' q k = rd h q k)"
proof -
  have n: "len = min (get_total_len b - off) len" using assms(5) by simp
  from m_copyback_round [OF assms(1,2,4,3) n assms(4,6,7,8)] obtain h1 b1 where
    r: "\<And>old. m_copyback_loop h m m off len cp = m_copyback_loop (back_len m off len h1) m (m_next b) 0 (len - len) cp"
      "wf_mem h1" "ld h1 m = Some b1" "m_data b1 = m_data b" "get_total_len b1 = get_total_len b"
      "m_len b1 = (if m_len b = 0 then off else m_len b)"
      "rd h1 (m_data b + nat off) (nat len) = Some xs" "rd h1 (m_data b) (nat off) = back_fill h b off"
      "\<And>q k. block_of q \<noteq> block_of (m_data b) \<Longrightarrow> rd h1 q k = rd h q k" by blast
  let ?h = "back_len m off len h1"
  have "m_copyback h m off len cp = Some ?h"
    using r(1) m_copyback_seek_here [OF assms(2), of off] assms(4,5) by (simp add: m_copyback_def m_copyback_loop_done)
  moreover have "\<exists>b'. ld ?h m = Some b' \<and> m_len b' = max (m_len b) (off + len) \<and> m_data b' = m_data b"
    using r(3-6) assms(3-5) ld_nz [OF assms(2)] by (auto simp: back_len_def)
  ultimately show ?thesis using wf_back_len [OF r(2)] r(7-9) by (auto simp: back_fill_def)
qed

theorem m_copyback_stores_witness:
  "\<exists>h' b'. m_copyback demo 4096 1 4 12288 = Some h' \<and> wf_mem h' \<and>
    rd h' (m_data demo_b1 + nat 1) (nat 4) = Some [9, 8, 7, 6] \<and>
    rd h' (m_data demo_b1) (nat 1) = (if m_len demo_b1 = 0 then Some (replicate (nat 1) 0) else rd demo (m_data demo_b1) (nat 1)) \<and>
    ld h' 4096 = Some b' \<and> m_len b' = max (m_len demo_b1) (1 + 4) \<and> m_data b' = m_data demo_b1 \<and>
    (\<forall>q k. block_of q \<noteq> block_of (m_data demo_b1) \<longrightarrow> rd h' q k = rd demo q k)"
proof (rule m_copyback_stores [OF demo_wf demo_ld(1)])
  show "rd demo 12288 (nat 4) = Some [9, 8, 7, 6]" by (simp add: demo_buf)
  show "rd demo (m_data demo_b1) (nat (1 + 4)) \<noteq> None"
    by (simp add: rd_def block_of_def demo_ld) (simp add: demo_b1_def)
qed (simp_all add: get_total_len_def block_of_def)

text \<open>C4: what \<open>m_copyback\<close> writes within the capacity of the first mbuf, \<open>m_copydata\<close> reads back from
  the same offset, into any buffer apart from it.  The bytes before the offset are those the mbuf had,
  or zeros if it was empty, and the mbuf ends behind the bytes written, or where it ended before.\<close>

theorem m_copyback_copydata:
  assumes "wf_mem h" "ld h m = Some b" "0 \<le> off" "0 < len" "off + len \<le> get_total_len b"
    "rd h cp (nat len) = Some xs" "rd h (m_data b) (nat (off + len)) \<noteq> None"
    "block_of cp \<noteq> block_of (m_data b)" "rd h dp (nat len) \<noteq> None" "block_of dp \<noteq> block_of (m_data b)"
  shows "\<exists>h' b' h''. m_copyback h m off len cp = Some h' \<and> ld h' m = Some b' \<and>
    m_len b' = max (m_len b) (off + len) \<and>
    rd h' (m_data b') (nat off) = (if m_len b = 0 then Some (replicate (nat off) 0) else rd h (m_data b) (nat off)) \<and>
    m_copydata h' m off len dp = Some h'' \<and> rd h'' dp (nat len) = Some xs"
proof -
  from m_copyback_stores [OF assms(1-8)] obtain h' b' where
    h': "m_copyback h m off len cp = Some h'" "wf_mem h'" "ld h' m = Some b'"
      "rd h' (m_data b + nat off) (nat len) = Some xs" "m_len b' = max (m_len b) (off + len)"
      "rd h' (m_data b) (nat off) = (if m_len b = 0 then Some (replicate (nat off) 0) else rd h (m_data b) (nat off))"
      "m_data b' = m_data b" "\<And>q k. block_of q \<noteq> block_of (m_data b) \<Longrightarrow> rd h' q k = rd h q k" by blast
  from assms(7) obtain zs where zs: "rd h (m_data b) (nat (off + len)) = Some zs" by blast
  have bl: "block_of (m_data b + nat off) = block_of (m_data b)"
    using rd_bound [OF assms(1) zs] assms(3,4) by (intro block_of_plus) (simp add: nat_add_distrib)
  have lx: "length xs = nat len" by (rule rd_length [OF assms(6)])
  from h'(8) [OF assms(10)] assms(9) obtain ws where ws: "rd h' dp (nat len) = Some ws" by auto
  from wr_total [OF ws, of xs] lx obtain h'' where h'': "wr h' dp xs = Some h''" by auto
  have cpy: "memcpy h' dp (m_data b + nat off) len = Some h''"
    using memcpy_eq [OF h'(4)] rd_bound [OF h'(2) h'(4)] rd_bound [OF h'(2) ws] assms(4,10) h'' bl by simp
  have pa: "ptr_add (m_data b') off = m_data b + nat off"
    using assms(3) by (simp add: ptr_add_def nat_add_distrib h'(7))
  have mn: "min (m_len b' - off) len = len" "off \<le> m_len b'" using h'(5) assms(4) by auto
  have "m_seek h' m off = Some (m, off)" using h'(3) mn(2) ld_nz [OF assms(2)] by (subst m_seek.simps) simp
  moreover have "m_copydata_loop h' m off len dp = Some h''"
    using assms(4) h'(3) pa mn cpy by (subst m_copydata_loop.simps) (simp add: m_copydata_loop.simps)
  ultimately have "m_copydata h' m off len dp = Some h''" by (simp add: m_copydata_def)
  then show ?thesis using h'(1,3,5,6,7) wr_rd_same [OF h''] lx by auto
qed

theorem m_copyback_copydata_witness:
  "\<exists>h' b' h''. m_copyback demo 4096 1 4 12288 = Some h' \<and> ld h' 4096 = Some b' \<and> m_len b' = 5 \<and>
    m_copydata h' 4096 1 4 12288 = Some h'' \<and> rd h'' 12288 4 = Some [9, 8, 7, 6]"
proof -
  have "rd demo 12288 (nat 4) = Some [9, 8, 7, 6]" by (simp add: demo_buf)
  moreover have "rd demo (m_data demo_b1) (nat (1 + 4)) \<noteq> None"
    by (simp add: rd_def block_of_def demo_ld) (simp add: demo_b1_def)
  ultimately show ?thesis
    using m_copyback_copydata [OF demo_wf demo_ld(1), of 1 4 12288 "[9, 8, 7, 6]" 12288]
    by (auto simp: get_total_len_def block_of_def)
qed

section \<open>Over two mbufs\<close>

text \<open>C27: a write that goes on into the next mbuf does not continue in the source there: the loop never
  moves \<open>cp\<close>, so that the next mbuf is given the first bytes of the source again.\<close>

theorem m_copyback_restarts:
  assumes wf: "wf_mem h" and b: "ld h m = Some b" "m_next b = q"
    and c: "ld h q = Some c" "q \<noteq> m"
    and off: "0 \<le> off" "n = get_total_len b - off" "0 < n" and k: "0 < k" "k \<le> get_total_len c"
    and src: "rd h cp (nat n) = Some xs" "rd h cp (nat k) = Some ys"
    and dst: "rd h (m_data b) (nat (off + n)) \<noteq> None" "rd h (m_data c) (nat k) \<noteq> None"
    and ap: "block_of cp \<noteq> block_of (m_data b)" "block_of cp \<noteq> block_of (m_data c)"
      "block_of (m_data b) \<noteq> block_of (m_data c)"
  shows "\<exists>h'. m_copyback h m off (n + k) cp = Some h' \<and>
    rd h' (m_data b + nat off) (nat n) = Some xs \<and> rd h' (m_data c) (nat k) = Some ys"
proof -
  have lens: "0 < n + k" "n = min (get_total_len b - off) (n + k)" using off k by auto
  from m_copyback_round [OF wf b(1) lens(1) off(1) lens(2) off(3) src(1) dst(1) ap(1), of m] obtain h1 b1 where
    r1: "m_copyback_loop h m m off (n + k) cp = m_copyback_loop (back_len m off (n + k) h1) m q 0 (n + k - n) cp"
      "wf_mem h1" "rd h1 (m_data b + nat off) (nat n) = Some xs"
      "\<And>q c. ld h q = Some c \<Longrightarrow> q \<noteq> m \<Longrightarrow> \<exists>c'. ld h1 q = Some c' \<and> same_hdr c c'"
      "\<And>q k. block_of q \<noteq> block_of (m_data b) \<Longrightarrow> rd h1 q k = rd h q k"
      "\<And>q k. rd h q k \<noteq> None \<Longrightarrow> rd h1 q k \<noteq> None" unfolding b(2) by blast
  let ?g = "back_len m off (n + k) h1"
  from r1(4) [OF c] obtain c1 where c1: "ld h1 q = Some c1" "same_hdr c c1" by blast
  have g: "ld ?g q = Some c1" using c1(1) c(2) by (simp add: back_len_def split: option.splits)
  have f: "m_data c1 = m_data c" "get_total_len c1 = get_total_len c"
    using c1(2) get_total_len_hdr [OF c1(2)] by (simp_all add: same_hdr_def)
  have kk: "k = min (get_total_len c1 - 0) k" using k(2) f(2) by simp
  have s2: "rd ?g cp (nat k) = Some ys" using r1(5) [OF ap(1)] src(2) by simp
  have d2: "rd ?g (m_data c1) (nat (0 + k)) \<noteq> None" using r1(6) [OF dst(2)] f(1) by simp
  have a2: "block_of cp \<noteq> block_of (m_data c1)" using ap(2) f(1) by simp
  from m_copyback_round [OF wf_back_len [OF r1(2)] g k(1) order_refl kk k(1) s2 d2 a2, of m] obtain h2 where
    r2: "m_copyback_loop ?g m q 0 k cp = m_copyback_loop (back_len q 0 k h2) m (m_next c1) 0 (k - k) cp"
      "rd h2 (m_data c) (nat k) = Some ys"
      "\<And>q k. block_of q \<noteq> block_of (m_data c) \<Longrightarrow> rd h2 q k = rd ?g q k" unfolding f(1) by auto
  have "m_copyback h m off (n + k) cp = Some (back_len q 0 k h2)"
    using r1(1) r2(1) m_copyback_seek_here [OF b(1), of off] off by (simp add: m_copyback_def m_copyback_loop_done)
  moreover have "block_of (m_data b + nat off) = block_of (m_data b)"
  proof -
    from dst(1) obtain zs where zs: "rd h (m_data b) (nat (off + n)) = Some zs" by blast
    show ?thesis using rd_bound [OF wf zs] off by (intro block_of_plus) (simp add: nat_add_distrib)
  qed
  ultimately show ?thesis using r1(3) r2(2,3) ap(3) by auto
qed

theorem m_copyback_restarts_witness:
  "\<exists>h'. m_copyback demo 4096 70 (2 + 2) 12288 = Some h' \<and>
    rd h' (m_data demo_b1 + nat 70) (nat 2) = Some [9, 8] \<and> rd h' (m_data demo_b2) (nat 2) = Some [9, 8]"
proof (rule m_copyback_restarts [OF demo_wf demo_ld(1) _ demo_ld(2)])
  show "rd demo 12288 (nat 2) = Some [9, 8]" "rd demo 12288 (nat 2) = Some [9, 8]" by (simp_all add: demo_buf)
  show "rd demo (m_data demo_b1) (nat (70 + 2)) \<noteq> None"
    by (simp add: rd_def block_of_def demo_ld) (simp add: demo_b1_def)
  show "rd demo (m_data demo_b2) (nat 2) \<noteq> None"
    by (simp add: rd_def block_of_def demo_ld) (simp add: demo_b2_def)
qed (simp_all add: get_total_len_def block_of_def)

end
