(* ===== verification/Queue.thy ===== *)
theory Queue
  imports Demo
begin

text \<open>
  Packet queues: the macros over \<open>struct ifqueue\<close> of \<open>net/if.h\<close> and \<open>if_qflush\<close> of
  \<open>net/if.c\<close>.  A queue is a chain of packets linked through \<open>m_nextpkt\<close>; each packet is a
  chain of mbufs linked through \<open>m_next\<close>.  The locale \<open>packet_queue\<close> is the contract the
  drivers and the protocol input queues rely on; it is interpreted on the macros.
\<close>

section \<open>The queue and its macros\<close>

record ifqueue =
  ifq_head :: addr
  ifq_tail :: addr
  ifq_len :: int
  ifq_maxlen :: int
  ifq_drops :: int

definition IF_QFULL :: "ifqueue \<Rightarrow> bool" where
  "IF_QFULL q \<longleftrightarrow> ifq_len q \<ge> ifq_maxlen q"

definition IF_DROP :: "ifqueue \<Rightarrow> ifqueue" where
  "IF_DROP q = q\<lparr>ifq_drops := ifq_drops q + 1\<rparr>"

definition IF_ENQUEUE :: "mem \<Rightarrow> ifqueue \<Rightarrow> addr \<Rightarrow> (mem \<times> ifqueue) option" where
  "IF_ENQUEUE h q m = do {
     (h, q) \<leftarrow> (if ifq_len q = 0
                then do { h \<leftarrow> upd h m (\<lambda>b. b\<lparr>m_nextpkt := 0\<rparr>);
                          Some (h, q\<lparr>ifq_head := m\<rparr>) }
                else do { t \<leftarrow> ld h (ifq_tail q);
                          h \<leftarrow> upd h m (\<lambda>b. b\<lparr>m_nextpkt := m_nextpkt t\<rparr>);
                          h \<leftarrow> upd h (ifq_tail q) (\<lambda>b. b\<lparr>m_nextpkt := m\<rparr>);
                          Some (h, q) });
     Some (h, q\<lparr>ifq_tail := m, ifq_len := ifq_len q + 1\<rparr>) }"

definition IF_PREPEND :: "mem \<Rightarrow> ifqueue \<Rightarrow> addr \<Rightarrow> (mem \<times> ifqueue) option" where
  "IF_PREPEND h q m =
     (if ifq_head q = 0 then IF_ENQUEUE h q m
      else do {
        h \<leftarrow> upd h m (\<lambda>b. b\<lparr>m_nextpkt := ifq_head q\<rparr>);
        Some (h, q\<lparr>ifq_head := m, ifq_len := ifq_len q + 1\<rparr>) })"

definition IF_DEQUEUE :: "mem \<Rightarrow> ifqueue \<Rightarrow> (addr \<times> ifqueue) option" where
  "IF_DEQUEUE h q =
     (if ifq_len q > 0
      then do {
        b \<leftarrow> ld h (ifq_head q);
        Some (ifq_head q, q\<lparr>ifq_head := m_nextpkt b, ifq_len := ifq_len q - 1\<rparr>) }
      else Some (0, q))"

partial_function (option) if_qflush :: "mem \<Rightarrow> ifqueue \<Rightarrow> (mem \<times> ifqueue) option" where
  "if_qflush h q =
     (if ifq_len q > 0
      then do {
        b \<leftarrow> ld h (ifq_head q);
        h \<leftarrow> m_freem h (ifq_head q);
        if_qflush h (q\<lparr>ifq_head := m_nextpkt b, ifq_len := ifq_len q - 1, ifq_drops := ifq_drops q + 1\<rparr>) }
      else Some (h, q))"

definition IFQ_MAXLEN :: int where "IFQ_MAXLEN = 50"

section \<open>Representation\<close>

definition m_nextpkt_of :: "mem \<Rightarrow> addr \<Rightarrow> addr option" where
  "m_nextpkt_of h a = map_option m_nextpkt (ld h a)"

abbreviation pchain :: "mem \<Rightarrow> addr \<Rightarrow> addr list \<Rightarrow> bool" where
  "pchain h \<equiv> chain (m_nextpkt_of h)"

definition queue_rep :: "mem \<Rightarrow> ifqueue \<Rightarrow> addr list \<Rightarrow> bool" where
  "queue_rep h q ms \<longleftrightarrow> pchain h (ifq_head q) ms \<and> ifq_len q = int (length ms)
     \<and> (ms \<noteq> [] \<longrightarrow> ifq_tail q = last ms)"

lemma pchain_Cons:
  "pchain h p (a # as) \<longleftrightarrow> p = a \<and> (\<exists>b. ld h a = Some b \<and> pchain h (m_nextpkt b) as)"
  by (auto simp: chain.simps m_nextpkt_of_def dest: ld_nz split: option.splits)

lemma pchain_ld: "pchain h p as \<Longrightarrow> a \<in> set as \<Longrightarrow> \<exists>b. ld h a = Some b"
  by (drule (1) chain_alloc) (auto simp: m_nextpkt_of_def)

lemma m_nextpkt_of_st:
  "m_nextpkt_of (st h p b) q = (if q = p \<and> p \<noteq> 0 then Some (m_nextpkt b) else m_nextpkt_of h q)"
  by (simp add: m_nextpkt_of_def ld_st)

lemma queue_rep_empty: "queue_rep h q [] \<longleftrightarrow> ifq_head q = 0 \<and> ifq_len q = 0"
  by (auto simp: queue_rep_def)

lemma queue_rep_distinct: "queue_rep h q ms \<Longrightarrow> distinct ms"
  by (auto simp: queue_rep_def dest: chain_distinct)

lemma m_nextpkt_only [simp]:
  "m_next_of (st h m (b\<lparr>m_nextpkt := x\<rparr>)) = (m_next_of h)(m := (if m = 0 then m_next_of h 0 else Some (m_next b)))"
  by (auto simp: m_next_of_st fun_eq_iff)

lemma enqueue_rep:
  assumes rep: "queue_rep h q ms" and m: "ld h m = Some b" "m \<notin> set ms"
  shows "\<exists>h' q'. IF_ENQUEUE h q m = Some (h', q') \<and> queue_rep h' q' (ms @ [m]) \<and>
    ifq_maxlen q' = ifq_maxlen q \<and> ifq_drops q' = ifq_drops q \<and> same_env h h' \<and>
    (\<forall>a c. ld h a = Some c \<longrightarrow> (\<exists>x. ld h' a = Some (c\<lparr>m_nextpkt := x\<rparr>)))"
proof -
  have nz: "0 < m" using ld_nz [OF m(1)] by simp
  have id: "c = c\<lparr>m_nextpkt := m_nextpkt c\<rparr>" for c :: mbuf by simp
  show ?thesis
  proof (cases "ms = []")
    case True
    let ?h = "st h m (b\<lparr>m_nextpkt := 0\<rparr>)"
    have "\<exists>x. ld ?h a = Some (c\<lparr>m_nextpkt := x\<rparr>)" if "ld h a = Some c" for a c
    proof (cases "a = m")
      case True
      with that m nz show ?thesis by (intro exI [of _ 0]) simp
    next
      case False
      with that show ?thesis by (intro exI [of _ "m_nextpkt c"]) simp
    qed
    with True rep m nz show ?thesis
      by (simp add: IF_ENQUEUE_def queue_rep_def upd_eq pchain_Cons)
  next
    case False
    let ?t = "last ms"
    have q: "ifq_tail q = ?t" "ifq_len q \<noteq> 0" "pchain h (ifq_head q) ms" "ifq_len q = int (length ms)"
      using rep False by (auto simp: queue_rep_def)
    have tm: "?t \<noteq> m" using m(2) False last_in_set by metis
    obtain t where t: "ld h ?t = Some t" using pchain_ld [OF q(3), of ?t] False by auto
    obtain cs where cs: "ms = cs @ [?t]" using False by (metis append_butlast_last_id)
    have tn: "m_nextpkt t = 0"
    proof -
      from q(3) cs obtain r where "chain (m_nextpkt_of h) r [?t]" by (metis chain_append)
      with t show ?thesis by (auto simp: pchain_Cons)
    qed
    let ?h1 = "st h m (b\<lparr>m_nextpkt := 0\<rparr>)"
    let ?h2 = "st ?h1 ?t (t\<lparr>m_nextpkt := m\<rparr>)"
    have t1: "ld ?h1 ?t = Some t" using t tm by simp
    have run: "IF_ENQUEUE h q m = Some (?h2, q\<lparr>ifq_tail := m, ifq_len := ifq_len q + 1\<rparr>)"
      using q t tn by (simp add: IF_ENQUEUE_def upd_eq [OF m(1)] upd_eq [OF t1])
    have d: "distinct ms" by (rule queue_rep_distinct [OF rep])
    have d': "?t \<notin> set cs" "?t \<noteq> 0" using d cs ld_nz [OF t] by (metis distinct_append distinct.simps(2) not_distinct_conv_prefix, simp)
    have "path (m_nextpkt_of h) (ifq_head q) cs ?t"
      using q(3) cs by (metis chain_append chain.simps)
    then have p: "path ((m_nextpkt_of h)(m \<mapsto> 0)) (ifq_head q) cs ?t"
      using m(2) cs by (subst path_cong [of _ _ "m_nextpkt_of h"]) (auto, metis in_set_conv_decomp append_is_Nil_conv butlast_append in_set_butlastD butlast_snoc)
    have c: "chain ((m_nextpkt_of h)(m \<mapsto> 0)) m [m]" using nz by (simp add: chain.simps)
    have "chain ((m_nextpkt_of h)(m \<mapsto> 0, ?t \<mapsto> m)) (ifq_head q) (cs @ ?t # [m])"
      using chain_snoc_upd [OF p d'(2,1) c] tm by simp
    moreover have "m_nextpkt_of ?h2 = (m_nextpkt_of h)(m \<mapsto> 0, ?t \<mapsto> m)"
      using nz d'(2) by (auto simp: m_nextpkt_of_st fun_eq_iff)
    moreover have "cs @ ?t # [m] = ms @ [m]" using cs by (metis append.assoc append_Cons append_Nil)
    ultimately have "pchain ?h2 (ifq_head q) (ms @ [m])" by simp
    moreover have "\<exists>x. ld ?h2 a = Some (c\<lparr>m_nextpkt := x\<rparr>)" if "ld h a = Some c" for a c
    proof -
      consider "a = ?t" | "a = m" "a \<noteq> ?t" | "a \<noteq> m" "a \<noteq> ?t" by blast
      then show ?thesis
      proof cases
        case 1
        with that t d'(2) show ?thesis by (intro exI [of _ m]) simp
      next
        case 2
        with that m nz show ?thesis by (intro exI [of _ 0]) simp
      next
        case 3
        with that show ?thesis by (intro exI [of _ "m_nextpkt c"]) simp
      qed
    qed
    moreover have "same_env h ?h2" by (simp add: same_env_def)
    ultimately show ?thesis using run q by (simp add: queue_rep_def)
  qed
qed

lemma dequeue_rep:
  assumes "queue_rep h q (m # ms)"
  shows "\<exists>q'. IF_DEQUEUE h q = Some (m, q') \<and> queue_rep h q' ms \<and> ifq_maxlen q' = ifq_maxlen q \<and> ifq_drops q' = ifq_drops q"
  using assms by (auto simp: IF_DEQUEUE_def queue_rep_def pchain_Cons)

lemma dequeue_empty: "queue_rep h q [] \<Longrightarrow> IF_DEQUEUE h q = Some (0, q)"
  by (simp add: IF_DEQUEUE_def queue_rep_def)

lemma prepend_rep:
  assumes rep: "queue_rep h q ms" and m: "ld h m = Some b" "m \<notin> set ms"
  shows "\<exists>h' q'. IF_PREPEND h q m = Some (h', q') \<and> queue_rep h' q' (m # ms) \<and>
    (\<forall>a c. ld h a = Some c \<longrightarrow> (\<exists>x. ld h' a = Some (c\<lparr>m_nextpkt := x\<rparr>)))"
proof (cases "ms = []")
  case True
  with rep have "ifq_head q = 0" by (simp add: queue_rep_def)
  with enqueue_rep [OF assms] True show ?thesis by (auto simp: IF_PREPEND_def)
next
  case False
  have nz: "0 < m" using ld_nz [OF m(1)] by simp
  have hd: "ifq_head q \<noteq> 0" using rep False ld_nz by (cases ms) (auto simp: queue_rep_def pchain_Cons)
  let ?h = "st h m (b\<lparr>m_nextpkt := ifq_head q\<rparr>)"
  have "pchain ?h (ifq_head q) ms"
    using rep m(2) by (subst chain_cong [of _ _ "m_nextpkt_of h"]) (auto simp: queue_rep_def m_nextpkt_of_st)
  then have "queue_rep ?h (q\<lparr>ifq_head := m, ifq_len := ifq_len q + 1\<rparr>) (m # ms)"
    using rep False nz by (simp add: queue_rep_def pchain_Cons)
  moreover have "\<exists>x. ld ?h a = Some (c\<lparr>m_nextpkt := x\<rparr>)" if "ld h a = Some c" for a c
  proof (cases "a = m")
    case True
    with that m nz show ?thesis by (intro exI [of _ "ifq_head q"]) simp
  next
    case False
    with that show ?thesis by (intro exI [of _ "m_nextpkt c"]) simp
  qed
  ultimately show ?thesis using hd m by (auto simp: IF_PREPEND_def upd_eq)
qed


section \<open>The contract of a queue\<close>

primrec enqs :: "('s \<Rightarrow> addr \<Rightarrow> 's option) \<Rightarrow> 's \<Rightarrow> addr list \<Rightarrow> 's option" where
  "enqs enq s [] = Some s"
| "enqs enq s (m # ms) = do { s \<leftarrow> enq s m; enqs enq s ms }"

primrec deqs :: "('s \<Rightarrow> (addr \<times> 's) option) \<Rightarrow> nat \<Rightarrow> 's \<Rightarrow> (addr list \<times> 's) option" where
  "deqs deq 0 s = Some ([], s)"
| "deqs deq (Suc n) s = do { (m, s) \<leftarrow> deq s; (ms, s) \<leftarrow> deqs deq n s; Some (m # ms, s) }"

locale packet_queue =
  fixes rep :: "'s \<Rightarrow> addr list \<Rightarrow> bool"
    and pkt :: "'s \<Rightarrow> addr \<Rightarrow> bool"
    and enq :: "'s \<Rightarrow> addr \<Rightarrow> 's option"
    and deq :: "'s \<Rightarrow> (addr \<times> 's) option"
  assumes enq_rep: "rep s ms \<Longrightarrow> pkt s m \<Longrightarrow> m \<notin> set ms \<Longrightarrow> \<exists>s'. enq s m = Some s' \<and> rep s' (ms @ [m])"
    and enq_pkt: "enq s m = Some s' \<Longrightarrow> pkt s a \<Longrightarrow> pkt s' a"
    and deq_rep: "rep s (m # ms) \<Longrightarrow> \<exists>s'. deq s = Some (m, s') \<and> rep s' ms"
    and deq_empty: "rep s [] \<Longrightarrow> deq s = Some (0, s)"
begin

lemma enqs_rep:
  "rep s ms \<Longrightarrow> distinct (ms @ ns) \<Longrightarrow> \<forall>m\<in>set ns. pkt s m \<Longrightarrow> \<exists>s'. enqs enq s ns = Some s' \<and> rep s' (ms @ ns)"
proof (induction ns arbitrary: s ms)
  case Nil
  then show ?case by simp
next
  case (Cons n ns)
  then obtain s1 where s1: "enq s n = Some s1" "rep s1 (ms @ [n])" using enq_rep [of s ms n] by auto
  have "\<forall>m\<in>set ns. pkt s1 m" using Cons.prems(3) enq_pkt [OF s1(1)] by simp
  with Cons.IH [OF s1(2)] Cons.prems(2) s1(1) show ?case by simp
qed

lemma deqs_rep: "rep s (ms @ ns) \<Longrightarrow> \<exists>s'. deqs deq (length ms) s = Some (ms, s') \<and> rep s' ns"
proof (induction ms arbitrary: s)
  case Nil
  then show ?case by simp
next
  case (Cons m ms)
  then obtain s1 where s1: "deq s = Some (m, s1)" "rep s1 (ms @ ns)" using deq_rep [of s m "ms @ ns"] by auto
  from Cons.IH [OF s1(2)] s1(1) show ?case by auto
qed

text \<open>First in, first out; then the queue is empty and says so.\<close>

lemma fifo:
  assumes "rep s []" "distinct ms" "\<forall>m\<in>set ms. pkt s m"
  shows "\<exists>s1 s2. enqs enq s ms = Some s1 \<and> deqs deq (length ms) s1 = Some (ms, s2) \<and> deq s2 = Some (0, s2)"
proof -
  from enqs_rep [OF assms(1)] assms(2,3) obtain s1 where s1: "enqs enq s ms = Some s1" "rep s1 (ms @ [])" by auto
  from deqs_rep [OF s1(2)] obtain s2 where "deqs deq (length ms) s1 = Some (ms, s2)" "rep s2 []" by blast
  with s1(1) deq_empty show ?thesis by blast
qed

end

text \<open>A queue one may also push back to.\<close>

locale packet_deque = packet_queue rep pkt enq deq
  for rep :: "'s \<Rightarrow> addr list \<Rightarrow> bool" and pkt enq deq +
  fixes pre :: "'s \<Rightarrow> addr \<Rightarrow> 's option"
  assumes pre_rep: "rep s ms \<Longrightarrow> pkt s m \<Longrightarrow> m \<notin> set ms \<Longrightarrow> \<exists>s'. pre s m = Some s' \<and> rep s' (m # ms)"
begin

lemma pre_deq:
  assumes "rep s ms" "pkt s m" "m \<notin> set ms"
  shows "\<exists>s1 s2. pre s m = Some s1 \<and> deq s1 = Some (m, s2) \<and> rep s2 ms"
  using pre_rep [OF assms] deq_rep by blast

end

definition ifq_enq :: "mem \<times> ifqueue \<Rightarrow> addr \<Rightarrow> (mem \<times> ifqueue) option" where
  "ifq_enq s m = IF_ENQUEUE (fst s) (snd s) m"

definition ifq_pre :: "mem \<times> ifqueue \<Rightarrow> addr \<Rightarrow> (mem \<times> ifqueue) option" where
  "ifq_pre s m = IF_PREPEND (fst s) (snd s) m"

definition ifq_deq :: "mem \<times> ifqueue \<Rightarrow> (addr \<times> mem \<times> ifqueue) option" where
  "ifq_deq s = do { (m, q) \<leftarrow> IF_DEQUEUE (fst s) (snd s); Some (m, fst s, q) }"

definition ifq_rep :: "mem \<times> ifqueue \<Rightarrow> addr list \<Rightarrow> bool" where
  "ifq_rep s = queue_rep (fst s) (snd s)"

definition ifq_pkt :: "mem \<times> ifqueue \<Rightarrow> addr \<Rightarrow> bool" where
  "ifq_pkt s a \<longleftrightarrow> ld (fst s) a \<noteq> None"

lemma upd_alloc: "upd h p f = Some h' \<Longrightarrow> ld h' a = None \<longleftrightarrow> ld h a = None"
  by (auto dest!: upd_SomeD simp: ld_st split: if_splits)

lemma enqueue_alloc: "IF_ENQUEUE h q m = Some (h', q') \<Longrightarrow> ld h' a = None \<longleftrightarrow> ld h a = None"
  by (auto simp: IF_ENQUEUE_def upd_alloc split: bind_splits if_splits)

interpretation ifq: packet_deque ifq_rep ifq_pkt ifq_enq ifq_deq ifq_pre
proof
  fix s s' :: "mem \<times> ifqueue" and m a ms
  show "\<exists>s'. ifq_enq s m = Some s' \<and> ifq_rep s' (ms @ [m])" if "ifq_rep s ms" "ifq_pkt s m" "m \<notin> set ms"
    using that enqueue_rep [of "fst s" "snd s" ms m] by (fastforce simp: ifq_enq_def ifq_rep_def ifq_pkt_def)
  show "\<exists>s'. ifq_pre s m = Some s' \<and> ifq_rep s' (m # ms)" if "ifq_rep s ms" "ifq_pkt s m" "m \<notin> set ms"
    using that prepend_rep [of "fst s" "snd s" ms m] by (fastforce simp: ifq_pre_def ifq_rep_def ifq_pkt_def)
  show "ifq_pkt s' a" if "ifq_enq s m = Some s'" "ifq_pkt s a"
    using that enqueue_alloc [of "fst s" "snd s" m "fst s'" "snd s'" a] by (simp add: ifq_enq_def ifq_pkt_def)
  show "\<exists>s'. ifq_deq s = Some (m, s') \<and> ifq_rep s' ms" if "ifq_rep s (m # ms)"
    using that dequeue_rep [of "fst s" "snd s" m ms] by (fastforce simp: ifq_deq_def ifq_rep_def)
  show "ifq_deq s = Some (0, s)" if "ifq_rep s []"
    using that dequeue_empty [of "fst s" "snd s"] by (simp add: ifq_deq_def ifq_rep_def)
qed

section \<open>Flushing\<close>

text \<open>The external buffers recorded in the mbufs of a chain; a chain that owns them has a live buffer for
  each mbuf that has one, and no two mbufs share.\<close>

definition ext_of :: "mem \<Rightarrow> addr \<Rightarrow> addr option" where
  "ext_of h a = (case ld h a of Some b \<Rightarrow> if has (m_flags b) M_EXT then Some (ext_buf b) else None | None \<Rightarrow> None)"

definition exts :: "mem \<Rightarrow> addr set \<Rightarrow> addr set" where
  "exts h A = {e. \<exists>a\<in>A. ext_of h a = Some e}"

definition owns :: "mem \<Rightarrow> addr set \<Rightarrow> bool" where
  "owns h A \<longleftrightarrow> (\<forall>a\<in>A. \<forall>e. ext_of h a = Some e \<longrightarrow>
     (e = 0 \<or> (mm_mbuf h e = None \<and> mm_buf h e \<noteq> None)) \<and> (\<forall>c\<in>A. c \<noteq> a \<longrightarrow> e \<noteq> 0 \<longrightarrow> ext_of h c \<noteq> Some e))"

definition without_bufs :: "mem \<Rightarrow> addr set \<Rightarrow> mem" where
  "without_bufs h B = h\<lparr>mm_buf := (\<lambda>p. if p \<in> B \<and> p \<noteq> 0 then None else mm_buf h p)\<rparr>"

text \<open>What is left when the mbufs \<open>A\<close> and their buffers have been given back.\<close>

definition gone :: "mem \<Rightarrow> addr set \<Rightarrow> mem" where
  "gone h A = without_bufs (without h A) (exts h A)"

lemma ld_gone: "ld (gone h A) p = (if p \<in> A then None else ld h p)"
  by (simp add: gone_def without_bufs_def without_def ld_def)

lemma mm_gone: "mm_mbuf (gone h A) p = (if p \<in> A then None else mm_mbuf h p)"
  "mm_buf (gone h A) p = (if p \<in> exts h A \<and> p \<noteq> 0 then None else mm_buf h p)"
  by (simp_all add: gone_def without_bufs_def without_def)

lemma ext_of_gone: "ext_of (gone h A) p = (if p \<in> A then None else ext_of h p)"
  by (simp add: ext_of_def ld_gone)

lemma gone_gone: "gone (gone h A) B = gone h (A \<union> B)"
proof -
  have "exts h (A \<union> B) = exts h A \<union> exts (gone h A) B"
    by (auto simp: exts_def ext_of_gone)
  then show ?thesis
    by (simp add: gone_def without_bufs_def without_def fun_eq_iff)
qed

lemma gone_empty [simp]: "gone h {} = h"
  by (simp add: gone_def without_bufs_def without_def exts_def)

lemma gone_next: "m_next_of (gone h A) p = (if p \<in> A then None else m_next_of h p)"
  by (simp add: m_next_of_def ld_gone)

lemma mchain_gone: "A \<inter> set as = {} \<Longrightarrow> mchain (gone h A) p as \<longleftrightarrow> mchain h p as"
  by (rule mchain_cong) (auto simp: gone_next)

lemma owns_gone:
  assumes "owns h (A \<union> B)" "A \<inter> B = {}"
  shows "owns (gone h A) B"
  unfolding owns_def
proof (intro ballI allI impI)
  fix b e assume b: "b \<in> B" "ext_of (gone h A) b = Some e"
  then have e: "ext_of h b = Some e" using assms(2) by (auto simp: ext_of_gone split: if_splits)
  from assms(1) b(1) e have o: "e = 0 \<or> (mm_mbuf h e = None \<and> mm_buf h e \<noteq> None)"
    "\<And>c. c \<in> A \<union> B \<Longrightarrow> c \<noteq> b \<Longrightarrow> e \<noteq> 0 \<Longrightarrow> ext_of h c \<noteq> Some e" unfolding owns_def by blast+
  have "e \<notin> exts h A" if "e \<noteq> 0" using o(2) that b(1) assms(2) by (auto simp: exts_def)
  with o(1) have "e = 0 \<or> (mm_mbuf (gone h A) e = None \<and> mm_buf (gone h A) e \<noteq> None)" by (auto simp: mm_gone)
  moreover have "\<forall>c\<in>B. c \<noteq> b \<longrightarrow> e \<noteq> 0 \<longrightarrow> ext_of (gone h A) c \<noteq> Some e"
    using o(2) by (auto simp: ext_of_gone)
  ultimately show "(e = 0 \<or> (mm_mbuf (gone h A) e = None \<and> mm_buf (gone h A) e \<noteq> None)) \<and>
    (\<forall>c\<in>B. c \<noteq> b \<longrightarrow> e \<noteq> 0 \<longrightarrow> ext_of (gone h A) c \<noteq> Some e)" ..
qed

lemma owns_mono: "owns h A \<Longrightarrow> B \<subseteq> A \<Longrightarrow> owns h B"
  unfolding owns_def by blast

lemma free_one:
  assumes b: "ld h a = Some b" and o: "owns h {a}"
  shows "(do { h \<leftarrow> (if has (m_flags b) M_EXT then free_ptr h (ext_buf b) else Some h); free_ptr h a }) = Some (gone h {a})"
proof -
  have nz: "a \<noteq> 0" "mm_mbuf h a = Some b" using b by (auto simp: ld_def split: if_splits)
  show ?thesis
  proof (cases "has (m_flags b) M_EXT \<and> ext_buf b \<noteq> 0")
    case True
    then have e: "ext_of h a = Some (ext_buf b)" using b by (simp add: ext_of_def)
    then have x: "mm_mbuf h (ext_buf b) = None" "mm_buf h (ext_buf b) \<noteq> None" "exts h {a} = {ext_buf b}"
      using o True by (auto simp: owns_def exts_def)
    then show ?thesis using True nz
      by (auto simp: free_ptr_def gone_def without_bufs_def without_def fun_upd_def fun_eq_iff)
  next
    case False
    then have "exts h {a} \<subseteq> {0}" using b by (auto simp: exts_def ext_of_def split: if_splits)
    then have id: "(\<lambda>p. if p \<in> exts h {a} \<and> p \<noteq> 0 then None else mm_buf h p) = mm_buf h" by (auto simp: fun_eq_iff)
    have "without_bufs g (exts h {a}) = g" if "mm_buf g = mm_buf h" for g
    proof -
      have "without_bufs g (exts h {a}) = g\<lparr>mm_buf := mm_buf g\<rparr>"
        using id unfolding without_bufs_def that by simp
      then show ?thesis by simp
    qed
    then have "without_bufs (without h {a}) (exts h {a}) = without h {a}" by (simp add: without_def)
    with False nz show ?thesis
      by (auto simp: free_ptr_def gone_def without_def fun_upd_def fun_eq_iff)
  qed
qed

lemma m_freem_owned:
  assumes "mchain h p as" "owns h (set as)"
  shows "m_freem h p = Some (gone h (set as))"
  using assms
proof (induction as arbitrary: h p)
  case Nil
  then show ?case by (subst m_freem.simps) simp
next
  case (Cons a as)
  then obtain b where b: "p = a" "ld h a = Some b" "mchain h (m_next b) as" by (auto simp: mchain_Cons)
  have a: "{a} \<inter> set as = {}" using chain_distinct [OF Cons.prems(1)] by simp
  have "m_freem (gone h {a}) (m_next b) = Some (gone (gone h {a}) (set as))"
    using Cons.prems(2) b(3) a by (intro Cons.IH) (auto simp: mchain_gone intro!: owns_gone)
  moreover have "owns h {a}" using Cons.prems(2) by (rule owns_mono) simp
  note f = free_one [OF b(2) this]
  moreover have "m_freem h p = do {
      h \<leftarrow> (do { h \<leftarrow> (if has (m_flags b) M_EXT then free_ptr h (ext_buf b) else Some h); free_ptr h a });
      m_freem h (m_next b) }"
    using b ld_nz [OF b(2)] by (subst m_freem.simps) simp
  ultimately show ?case by (simp add: gone_gone)
qed

lemma qflush_chain:
  assumes "queue_rep h q ms" "\<And>m. m \<in> set ms \<Longrightarrow> mchain h m (pk m)"
    "\<And>m n. m \<in> set ms \<Longrightarrow> n \<in> set ms \<Longrightarrow> m \<noteq> n \<Longrightarrow> set (pk m) \<inter> set (pk n) = {}"
    "owns h (\<Union>m\<in>set ms. set (pk m))"
  shows "if_qflush h q = Some (gone h (\<Union>m\<in>set ms. set (pk m)),
     q\<lparr>ifq_head := 0, ifq_len := 0, ifq_drops := ifq_drops q + int (length ms)\<rparr>)"
  using assms
proof (induction ms arbitrary: h q)
  case Nil
  then show ?case by (subst if_qflush.simps) (simp add: queue_rep_empty)
next
  case (Cons m ms)
  let ?h = "gone h (set (pk m))" and ?R = "\<Union>n\<in>set ms. set (pk n)"
  from Cons.prems(1) obtain b where b: "ifq_head q = m" "ld h m = Some b" "pchain h (m_nextpkt b) ms"
      "ifq_len q = 1 + int (length ms)" "ms \<noteq> [] \<longrightarrow> ifq_tail q = last ms"
    by (auto simp: queue_rep_def pchain_Cons)
  let ?q = "q\<lparr>ifq_head := m_nextpkt b, ifq_len := ifq_len q - 1, ifq_drops := ifq_drops q + 1\<rparr>"
  have d: "m \<notin> set ms" using queue_rep_distinct [OF Cons.prems(1)] by simp
  have self: "n \<in> set (pk n)" if "n \<in> set (m # ms)" for n
  proof -
    from pchain_ld [of h "ifq_head q" "m # ms" n] Cons.prems(1) that obtain c where "ld h n = Some c"
      by (auto simp: queue_rep_def)
    with Cons.prems(2) [OF that] ld_nz show ?thesis by (cases "pk n") (auto simp: mchain_Cons)
  qed
  have dj: "set (pk m) \<inter> set (pk n) = {}" if "n \<in> set ms" for n
    using Cons.prems(3) [of m n] that d by auto
  have fr: "m_freem h m = Some ?h"
    by (rule m_freem_owned) (use Cons.prems(2,4) in \<open>auto intro: owns_mono\<close>)
  have "queue_rep ?h ?q ms"
  proof -
    have "pchain ?h (m_nextpkt b) ms"
    proof (subst chain_cong)
      show "pchain h (m_nextpkt b) ms" by (rule b(3))
      show "m_nextpkt_of ?h a = m_nextpkt_of h a" if "a \<in> set ms" for a
        using dj [OF that] self [of a] that by (auto simp: m_nextpkt_of_def ld_gone)
    qed
    with b show ?thesis by (simp add: queue_rep_def)
  qed
  moreover have "mchain ?h n (pk n)" if "n \<in> set ms" for n
    using Cons.prems(2) [of n] dj [OF that] that by (subst mchain_gone) auto
  moreover have "set (pk n) \<inter> set (pk k) = {}" if "n \<in> set ms" "k \<in> set ms" "n \<noteq> k" for n k
    using Cons.prems(3) [of n k] that by simp
  moreover have "owns ?h ?R" using Cons.prems(4) dj by (intro owns_gone) auto
  ultimately have "if_qflush ?h ?q = Some (gone ?h ?R,
     ?q\<lparr>ifq_head := 0, ifq_len := 0, ifq_drops := ifq_drops ?q + int (length ms)\<rparr>)"
    by (rule Cons.IH)
  then show ?case using b fr by (subst if_qflush.simps) (simp add: gone_gone algebra_simps)
qed


section \<open>Properties\<close>

text \<open>C13: packets leave an interface queue in the order in which they entered it, and then the
  queue reports that it is empty: \<open>IF_ENQUEUE\<close> of any list of distinct packets followed by as
  many \<open>IF_DEQUEUE\<close> gives the list back.\<close>

theorem queue_fifo:
  assumes "queue_rep h q []" "distinct ms" "\<forall>m\<in>set ms. ld h m \<noteq> None"
  shows "\<exists>s1 s2. enqs ifq_enq (h, q) ms = Some s1 \<and> deqs ifq_deq (length ms) s1 = Some (ms, s2) \<and>
    ifq_deq s2 = Some (0, s2)"
  using ifq.fifo [of "(h, q)" ms] assms by (simp add: ifq_rep_def ifq_pkt_def)

definition empty_q :: ifqueue where
  "empty_q = \<lparr>ifq_head = 0, ifq_tail = 0, ifq_len = 0, ifq_maxlen = IFQ_MAXLEN, ifq_drops = 0\<rparr>"

theorem queue_fifo_witness:
  "\<exists>s1 s2. enqs ifq_enq (demo, empty_q) [4096, 16384] = Some s1 \<and>
    deqs ifq_deq (length [4096, 16384 :: addr]) s1 = Some ([4096, 16384], s2) \<and> ifq_deq s2 = Some (0, s2)"
  by (rule queue_fifo) (simp_all add: queue_rep_empty empty_q_def demo_ld)

text \<open>\<open>IF_PREPEND\<close> undoes a dequeue: the packet pushed back is the next one to leave and the
  packets behind it keep their order.\<close>

theorem prepend_dequeue:
  assumes "queue_rep h q ms" "ld h m \<noteq> None" "m \<notin> set ms"
  shows "\<exists>h' q' q''. IF_PREPEND h q m = Some (h', q') \<and> IF_DEQUEUE h' q' = Some (m, q'') \<and> queue_rep h' q'' ms"
proof -
  from ifq.pre_deq [of "(h, q)" ms m] assms obtain s1 s2 where
    "ifq_pre (h, q) m = Some s1" "ifq_deq s1 = Some (m, s2)" "ifq_rep s2 ms"
    by (auto simp: ifq_rep_def ifq_pkt_def)
  then show ?thesis by (cases s1) (auto simp: ifq_pre_def ifq_deq_def ifq_rep_def split: bind_splits)
qed

theorem prepend_dequeue_witness:
  "\<exists>h' q' q''. IF_PREPEND demo (empty_q\<lparr>ifq_head := 16384, ifq_tail := 16384, ifq_len := 1\<rparr>) 4096 = Some (h', q') \<and>
    IF_DEQUEUE h' q' = Some (4096, q'') \<and> queue_rep h' q'' [16384]"
  by (rule prepend_dequeue) (simp_all add: queue_rep_def pchain_Cons demo_ld empty_q_def, simp add: demo_b3_def)

text \<open>C28: \<open>if_qflush\<close> gives back every mbuf of every queued packet, and the external buffer of each mbuf
  that records one, leaves the queue empty and counts each packet as a drop; every other block of memory
  stays.  The recorded buffers have to be live and not shared, which holds of no mbuf from \<open>m_getclr\<close>,
  as that sets \<open>M_EXT\<close> and records nothing.\<close>

theorem if_qflush_releases:
  assumes "queue_rep h q ms" "\<forall>m\<in>set ms. mchain h m (pk m)"
    "\<forall>m\<in>set ms. \<forall>n\<in>set ms. m \<noteq> n \<longrightarrow> set (pk m) \<inter> set (pk n) = {}"
    "A = (\<Union>m\<in>set ms. set (pk m))" "owns h A"
  shows "\<exists>h' q'. if_qflush h q = Some (h', q') \<and> queue_rep h' q' [] \<and> ifq_drops q' = ifq_drops q + int (length ms) \<and>
    (\<forall>a. ld h' a = (if a \<in> A then None else ld h a)) \<and>
    (\<forall>p. mm_buf h' p = (if p \<in> exts h A \<and> p \<noteq> 0 then None else mm_buf h p))"
proof -
  have "if_qflush h q = Some (gone h A, q\<lparr>ifq_head := 0, ifq_len := 0, ifq_drops := ifq_drops q + int (length ms)\<rparr>)"
    using assms(1-3,5) unfolding assms(4) by (intro qflush_chain) blast+
  then show ?thesis by (simp add: ld_gone mm_gone queue_rep_empty)
qed

text \<open>The first mbuf with the buffer at 12288 as its external one.\<close>

definition demo_ext :: mem where
  "demo_ext = st demo 4096 (set_ext_buf 12288 (demo_b1\<lparr>m_flags := M_EXT\<rparr>))"

lemma demo_ext_ld: "ld demo_ext 4096 = Some (set_ext_buf 12288 (demo_b1\<lparr>m_flags := M_EXT\<rparr>))" "ld demo_ext 8192 = Some demo_b2"
  by (simp_all add: demo_ext_def demo_ld)

lemma demo_ext_of: "ext_of demo_ext 4096 = Some 12288" "ext_of demo_ext 8192 = None"
proof -
  have "full (demo_b1\<lparr>m_flags := M_EXT\<rparr>)" using wf_ld_full [OF demo_wf demo_ld(1)] by simp
  then show "ext_of demo_ext 4096 = Some 12288" "ext_of demo_ext 8192 = None"
    by (simp_all add: ext_of_def demo_ext_ld, simp add: set_ext_buf_def)
qed

theorem if_qflush_releases_witness:
  "\<exists>h' q'. if_qflush demo_ext (empty_q\<lparr>ifq_head := 4096, ifq_tail := 4096, ifq_len := 1\<rparr>) = Some (h', q') \<and>
    queue_rep h' q' [] \<and> ld h' 4096 = None \<and> ld h' 8192 = None \<and> mm_buf h' 12288 = None"
proof -
  let ?q = "empty_q\<lparr>ifq_head := 4096, ifq_tail := 4096, ifq_len := 1\<rparr>"
  have q: "queue_rep demo_ext ?q [4096]"
    by (simp add: queue_rep_def pchain_Cons demo_ext_ld empty_q_def set_ext_buf_def) (simp add: demo_b1_def)
  have c: "mchain demo_ext 4096 [4096, 8192]" by (simp add: mchain_Cons demo_ext_ld set_ext_buf_def)
  have "mm_mbuf demo_ext 12288 = None \<and> mm_buf demo_ext 12288 \<noteq> None"
    by (simp add: demo_ext_def st_def) (simp add: demo_def)
  then have "owns demo_ext {4096, 8192}" by (simp add: owns_def demo_ext_of)
  moreover have "12288 \<in> exts demo_ext {4096, 8192}" by (simp add: exts_def demo_ext_of)
  moreover have "\<exists>h' q'. if_qflush demo_ext ?q = Some (h', q') \<and> queue_rep h' q' [] \<and>
    ifq_drops q' = ifq_drops ?q + int (length [4096 :: addr]) \<and>
    (\<forall>a. ld h' a = (if a \<in> {4096, 8192} then None else ld demo_ext a)) \<and>
    (\<forall>p. mm_buf h' p = (if p \<in> exts demo_ext {4096, 8192} \<and> p \<noteq> 0 then None else mm_buf demo_ext p))"
    if "owns demo_ext {4096, 8192}"
    by (rule if_qflush_releases [OF q, where pk = "\<lambda>_. [4096, 8192]"]) (use c that in simp_all)
  ultimately show ?thesis by (metis insertI1 insertI2 numeral_neq_zero)
qed

end
