(* ===== verification/Consts.thy ===== *)
theory Consts
  imports Prelude
begin

text \<open>
  The numeric vocabulary of the headers that the modelled code uses: error numbers
  (\<open>sys/errno.h\<close>), address families and socket types (\<open>sys/socket.h\<close>), interface flags
  (\<open>net/if.h\<close>), interface types (\<open>net/if_types.h\<close>), route flags (\<open>net/route.h\<close>), and the
  ioctl command encoding with the socket ioctls (\<open>sys/ioccom.h\<close>, \<open>sys/sockio.h\<close>).
\<close>

section \<open>Error numbers\<close>

definition EPERM :: int where "EPERM = 1"
definition ENXIO :: int where "ENXIO = 6"
definition EINVAL :: int where "EINVAL = 22"
definition EMSGSIZE :: int where "EMSGSIZE = 40"
definition ENOPROTOOPT :: int where "ENOPROTOOPT = 42"
definition EOPNOTSUPP :: int where "EOPNOTSUPP = 45"
definition EAFNOSUPPORT :: int where "EAFNOSUPPORT = 47"
definition EADDRNOTAVAIL :: int where "EADDRNOTAVAIL = 49"
definition ENETDOWN :: int where "ENETDOWN = 50"
definition ENETUNREACH :: int where "ENETUNREACH = 51"
definition ENETRESET :: int where "ENETRESET = 52"
definition ENOBUFS :: int where "ENOBUFS = 55"
definition ECONNREFUSED :: int where "ECONNREFUSED = 61"
definition EHOSTDOWN :: int where "EHOSTDOWN = 64"
definition EHOSTUNREACH :: int where "EHOSTUNREACH = 65"

lemmas errno_defs = EPERM_def ENXIO_def EINVAL_def EMSGSIZE_def ENOPROTOOPT_def EOPNOTSUPP_def
  EAFNOSUPPORT_def EADDRNOTAVAIL_def ENETDOWN_def ENETUNREACH_def ENETRESET_def ENOBUFS_def
  ECONNREFUSED_def EHOSTDOWN_def EHOSTUNREACH_def

section \<open>Address families and socket types\<close>

definition AF_UNSPEC :: u_char where "AF_UNSPEC = 0"
definition AF_INET :: u_char where "AF_INET = 2"
definition AF_ISO :: u_char where "AF_ISO = 7"
definition AF_LINK :: u_char where "AF_LINK = 18"
definition AF_MAX :: u_char where "AF_MAX = 42"

lemmas af_defs = AF_UNSPEC_def AF_INET_def AF_ISO_def AF_LINK_def AF_MAX_def

definition SOCK_STREAM :: int where "SOCK_STREAM = 1"
definition SOCK_DGRAM :: int where "SOCK_DGRAM = 2"
definition SOCK_RAW :: int where "SOCK_RAW = 3"

definition SS_PRIV :: c_short where "SS_PRIV = 0x080"

section \<open>Interface flags and types\<close>

definition IFF_UP :: c_short where "IFF_UP = 0x1"
definition IFF_BROADCAST :: c_short where "IFF_BROADCAST = 0x2"
definition IFF_LOOPBACK :: c_short where "IFF_LOOPBACK = 0x8"
definition IFF_POINTOPOINT :: c_short where "IFF_POINTOPOINT = 0x10"
definition IFF_RUNNING :: c_short where "IFF_RUNNING = 0x40"
definition IFF_PROMISC :: c_short where "IFF_PROMISC = 0x100"
definition IFF_ALLMULTI :: c_short where "IFF_ALLMULTI = 0x200"
definition IFF_OACTIVE :: c_short where "IFF_OACTIVE = 0x400"
definition IFF_SIMPLEX :: c_short where "IFF_SIMPLEX = 0x800"
definition IFF_LINK0 :: c_short where "IFF_LINK0 = 0x1000"
definition IFF_LINK1 :: c_short where "IFF_LINK1 = 0x2000"
definition IFF_LINK2 :: c_short where "IFF_LINK2 = 0x4000"
definition IFF_MULTICAST :: c_short where "IFF_MULTICAST = 0x8000"

definition IFF_CANTCHANGE :: c_short where
  "IFF_CANTCHANGE = IFF_BROADCAST OR IFF_POINTOPOINT OR IFF_RUNNING OR IFF_OACTIVE OR
     IFF_SIMPLEX OR IFF_MULTICAST OR IFF_ALLMULTI"

lemmas iff_defs = IFF_UP_def IFF_BROADCAST_def IFF_LOOPBACK_def IFF_POINTOPOINT_def IFF_RUNNING_def
  IFF_PROMISC_def IFF_ALLMULTI_def IFF_OACTIVE_def IFF_SIMPLEX_def IFF_LINK0_def IFF_LINK1_def
  IFF_LINK2_def IFF_MULTICAST_def IFF_CANTCHANGE_def

definition IFT_ETHER :: u_char where "IFT_ETHER = 0x6"
definition IFT_LOOP :: u_char where "IFT_LOOP = 0x18"
definition IFT_SLIP :: u_char where "IFT_SLIP = 0x1c"

section \<open>Route flags\<close>

definition RTF_UP :: c_short where "RTF_UP = 0x1"
definition RTF_GATEWAY :: c_short where "RTF_GATEWAY = 0x2"
definition RTF_HOST :: c_short where "RTF_HOST = 0x4"
definition RTF_REJECT :: c_short where "RTF_REJECT = 0x8"
definition RTF_BLACKHOLE :: c_short where "RTF_BLACKHOLE = 0x1000"

definition IFA_ROUTE :: u_short where "IFA_ROUTE = RTF_UP"

definition RTM_ADD :: int where "RTM_ADD = 1"
definition RTM_DELETE :: int where "RTM_DELETE = 2"

lemmas rtf_defs = RTF_UP_def RTF_GATEWAY_def RTF_HOST_def RTF_REJECT_def RTF_BLACKHOLE_def IFA_ROUTE_def

section \<open>Protocols, links and access modes\<close>

definition IPVERSION :: u_int where "IPVERSION = 4"
definition IPPROTO_ICMP :: u_char where "IPPROTO_ICMP = 1"
definition IPPROTO_TCP :: u_char where "IPPROTO_TCP = 6"
definition IPTOS_LOWDELAY :: u_char where "IPTOS_LOWDELAY = 0x10"
definition DLT_SLIP :: int where "DLT_SLIP = 8"
definition FREAD :: int where "FREAD = 1"
definition FWRITE :: int where "FWRITE = 2"

section \<open>Ioctl commands\<close>

definition IOCPARM_MASK :: u_int where "IOCPARM_MASK = 0x1fff"
definition IOC_VOID :: u_int where "IOC_VOID = 0x20000000"
definition IOC_OUT :: u_int where "IOC_OUT = 0x40000000"
definition IOC_IN :: u_int where "IOC_IN = 0x80000000"
definition IOC_INOUT :: u_int where "IOC_INOUT = IOC_IN OR IOC_OUT"
definition IOC_DIRMASK :: u_int where "IOC_DIRMASK = 0xe0000000"

definition IOCPARM_LEN :: "u_int \<Rightarrow> u_int" where
  "IOCPARM_LEN x = drop_bit 16 x AND IOCPARM_MASK"

definition IOCBASECMD :: "u_int \<Rightarrow> u_int" where
  "IOCBASECMD x = x AND NOT (push_bit 16 IOCPARM_MASK)"

definition IOCGROUP :: "u_int \<Rightarrow> u_int" where
  "IOCGROUP x = drop_bit 8 x AND 0xff"

definition IOC :: "u_int \<Rightarrow> u_int \<Rightarrow> u_int \<Rightarrow> u_int \<Rightarrow> u_int" where
  "IOC inout grp num len =
     inout OR push_bit 16 (len AND IOCPARM_MASK) OR push_bit 8 grp OR num"

definition IO :: "u_int \<Rightarrow> u_int \<Rightarrow> u_int" where "IO g n = IOC IOC_VOID g n 0"
definition IOR :: "u_int \<Rightarrow> u_int \<Rightarrow> u_int \<Rightarrow> u_int" where "IOR g n t = IOC IOC_OUT g n t"
definition IOW :: "u_int \<Rightarrow> u_int \<Rightarrow> u_int \<Rightarrow> u_int" where "IOW g n t = IOC IOC_IN g n t"
definition IOWR :: "u_int \<Rightarrow> u_int \<Rightarrow> u_int \<Rightarrow> u_int" where "IOWR g n t = IOC IOC_INOUT g n t"

lemmas ioc_defs = IOC_def IO_def IOR_def IOW_def IOWR_def IOCPARM_MASK_def IOC_VOID_def IOC_OUT_def
  IOC_IN_def IOC_INOUT_def IOC_DIRMASK_def

text \<open>\<open>sizeof (struct ifreq)\<close> is 32, \<open>sizeof (struct ifaliasreq)\<close> 64, \<open>sizeof (struct ifconf)\<close> 16;
  \<open>'i'\<close> is 105 and \<open>'t'\<close> is 116.\<close>

definition SIOCSIFADDR :: u_int where "SIOCSIFADDR = IOW 105 12 32"
definition SIOCGIFADDR :: u_int where "SIOCGIFADDR = IOWR 105 33 32"
definition SIOCSIFDSTADDR :: u_int where "SIOCSIFDSTADDR = IOW 105 14 32"
definition SIOCGIFDSTADDR :: u_int where "SIOCGIFDSTADDR = IOWR 105 34 32"
definition SIOCSIFFLAGS :: u_int where "SIOCSIFFLAGS = IOW 105 16 32"
definition SIOCGIFFLAGS :: u_int where "SIOCGIFFLAGS = IOWR 105 17 32"
definition SIOCGIFBRDADDR :: u_int where "SIOCGIFBRDADDR = IOWR 105 35 32"
definition SIOCSIFBRDADDR :: u_int where "SIOCSIFBRDADDR = IOW 105 19 32"
definition SIOCGIFCONF :: u_int where "SIOCGIFCONF = IOWR 105 36 16"
definition SIOCGIFNETMASK :: u_int where "SIOCGIFNETMASK = IOWR 105 37 32"
definition SIOCSIFNETMASK :: u_int where "SIOCSIFNETMASK = IOW 105 22 32"
definition SIOCGIFMETRIC :: u_int where "SIOCGIFMETRIC = IOWR 105 23 32"
definition SIOCSIFMETRIC :: u_int where "SIOCSIFMETRIC = IOW 105 24 32"
definition SIOCDIFADDR :: u_int where "SIOCDIFADDR = IOW 105 25 32"
definition SIOCAIFADDR :: u_int where "SIOCAIFADDR = IOW 105 26 64"
definition SLIOCGUNIT :: u_int where "SLIOCGUNIT = IOR 116 88 4"

lemmas sioc_defs = SIOCSIFADDR_def SIOCGIFADDR_def SIOCSIFDSTADDR_def SIOCGIFDSTADDR_def
  SIOCSIFFLAGS_def SIOCGIFFLAGS_def SIOCGIFBRDADDR_def SIOCSIFBRDADDR_def SIOCGIFCONF_def
  SIOCGIFNETMASK_def SIOCSIFNETMASK_def SIOCGIFMETRIC_def SIOCSIFMETRIC_def SIOCDIFADDR_def
  SIOCAIFADDR_def SLIOCGUNIT_def

definition sioc_cmds :: "u_int list" where
  "sioc_cmds = [SIOCSIFADDR, SIOCGIFADDR, SIOCSIFDSTADDR, SIOCGIFDSTADDR, SIOCSIFFLAGS, SIOCGIFFLAGS,
     SIOCGIFBRDADDR, SIOCSIFBRDADDR, SIOCGIFCONF, SIOCGIFNETMASK, SIOCSIFNETMASK, SIOCGIFMETRIC,
     SIOCSIFMETRIC, SIOCDIFADDR, SIOCAIFADDR, SLIOCGUNIT]"

lemma sioc_values:
  "SIOCSIFADDR = 0x8020690C" "SIOCGIFADDR = 0xC0206921" "SIOCSIFDSTADDR = 0x8020690E"
  "SIOCGIFDSTADDR = 0xC0206922" "SIOCSIFFLAGS = 0x80206910" "SIOCGIFFLAGS = 0xC0206911"
  "SIOCGIFBRDADDR = 0xC0206923" "SIOCSIFBRDADDR = 0x80206913" "SIOCGIFCONF = 0xC0106924"
  "SIOCGIFNETMASK = 0xC0206925" "SIOCSIFNETMASK = 0x80206916" "SIOCGIFMETRIC = 0xC0206917"
  "SIOCSIFMETRIC = 0x80206918" "SIOCDIFADDR = 0x80206919" "SIOCAIFADDR = 0x8040691A"
  "SLIOCGUNIT = 0x40047458"
  by (simp_all add: sioc_defs ioc_defs push_bit_eq_mult)

lemma bit_le: "x < 2 ^ k \<Longrightarrow> bit x n \<Longrightarrow> n < k" for x :: u_int
  using less_mask_eq [of x k] by (metis bit_and_iff bit_mask_iff)

lemma ioc_masks:
  "IOCPARM_MASK = mask 13" "(0xff :: u_int) = mask 8" "IOC_DIRMASK = push_bit 29 (mask 3)"
  by (simp_all add: mask_eq_exp_minus_1 push_bit_eq_mult IOCPARM_MASK_def IOC_DIRMASK_def)

text \<open>The ioctl encoding can be decoded: parameter length, group, direction and number of a
  command built by \<open>_IOC\<close> are the ones it was built from, for a group and number of eight bits and a
  length of thirteen.\<close>

theorem ioc_decode:
  assumes "inout AND NOT IOC_DIRMASK = 0" "g < 256" "n < 256" "len < 8192"
  shows "IOCPARM_LEN (IOC inout g n len) = len \<and> IOCGROUP (IOC inout g n len) = g \<and>
    IOC inout g n len AND IOC_DIRMASK = inout \<and> IOC inout g n len AND 0xff = n"
proof -
  have dir: "29 \<le> k" if "bit inout k" for k
  proof -
    have "\<not> bit (inout AND NOT IOC_DIRMASK) k" by (simp add: assms(1))
    then show ?thesis using that bit_imp_le_length [OF that]
      by (auto simp: bit_simps ioc_masks)
  qed
  have len: "k < 13" if "bit len k" for k using bit_le [of len 13] that assms by simp
  have g: "k < 8" if "bit g k" for k using bit_le [of g 8] that assms by simp
  have n: "k < 8" if "bit n k" for k using bit_le [of n 8] that assms by simp
  note ds = IOCPARM_LEN_def IOCGROUP_def IOC_def ioc_masks bit_simps
  have "IOCPARM_LEN (IOC inout g n len) = len"
    by (rule bit_word_eqI) (auto simp: ds dest: dir len g n)
  moreover have "IOCGROUP (IOC inout g n len) = g"
    by (rule bit_word_eqI) (auto simp: ds dest: dir len g n)
  moreover have "IOC inout g n len AND IOC_DIRMASK = inout"
    by (rule bit_word_eqI) (auto simp: ds dest: dir len g n)
  moreover have "IOC inout g n len AND 0xff = n"
    by (rule bit_word_eqI) (auto simp: ds dest: dir len g n)
  ultimately show ?thesis by blast
qed

theorem ioc_decode_witness: "IOCPARM_LEN SIOCSIFFLAGS = 32 \<and> IOCGROUP SIOCSIFFLAGS = 105"
  using ioc_decode [of IOC_IN 105 16 32]
  by (simp add: SIOCSIFFLAGS_def IOW_def) (simp add: IOC_IN_def IOC_DIRMASK_def)

text \<open>The commands that the switches of \<open>ifioctl\<close>, \<open>in_control\<close> and the drivers tell apart are
  pairwise different.\<close>

lemma sioc_distinct: "distinct sioc_cmds"
  by (simp add: sioc_cmds_def sioc_values)

end
