(* ===== verification/Clock.thy ===== *)
theory Clock
  imports Prelude
begin

text \<open>
  Time values (\<open>sys/time.h\<close>) and the macro of \<open>kern/kern_clock.c\<close> that advances one by a tick.
\<close>

section \<open>Time values\<close>

text \<open>A \<open>long\<close> has 32 bits: fields hold its signed value, and results of arithmetic wrap around.\<close>

definition c_long :: "int \<Rightarrow> int" where
  "c_long v = sint (word_of_int v :: 32 word)"

record timeval =
  tv_sec :: int
  tv_usec :: int

record timespec =
  ts_sec :: int
  ts_nsec :: int

text \<open>C division truncates towards zero.\<close>

definition c_div :: "int \<Rightarrow> int \<Rightarrow> int" where
  "c_div a b = sgn a * sgn b * (\<bar>a\<bar> div \<bar>b\<bar>)"

definition TIMEVAL_TO_TIMESPEC :: "timeval \<Rightarrow> timespec" where
  "TIMEVAL_TO_TIMESPEC tv = \<lparr>ts_sec = tv_sec tv, ts_nsec = c_long (tv_usec tv * 1000)\<rparr>"

definition TIMESPEC_TO_TIMEVAL :: "timespec \<Rightarrow> timeval" where
  "TIMESPEC_TO_TIMEVAL ts = \<lparr>tv_sec = ts_sec ts, tv_usec = c_div (ts_nsec ts) 1000\<rparr>"

definition timerclear :: "timeval \<Rightarrow> timeval" where
  "timerclear tv = tv\<lparr>tv_sec := 0, tv_usec := 0\<rparr>"

definition timerisset :: "timeval \<Rightarrow> bool" where
  "timerisset tv \<longleftrightarrow> tv_sec tv \<noteq> 0 \<or> tv_usec tv \<noteq> 0"

definition timercmp :: "timeval \<Rightarrow> timeval \<Rightarrow> (int \<Rightarrow> int \<Rightarrow> bool) \<Rightarrow> bool" where
  "timercmp tv uv cmp = (if tv_sec tv = tv_sec uv then cmp (tv_usec tv) (tv_usec uv)
     else cmp (tv_sec tv) (tv_sec uv))"

definition BUMPTIME :: "timeval \<Rightarrow> int \<Rightarrow> timeval" where
  "BUMPTIME t usec =
     (let us = c_long (tv_usec t + usec); t = t\<lparr>tv_usec := us\<rparr> in
      if us \<ge> 1000000 then t\<lparr>tv_usec := c_long (us - 1000000), tv_sec := c_long (tv_sec t + 1)\<rparr> else t)"

record timezone =
  tz_minuteswest :: int
  tz_dsttime :: int

definition DST_NONE :: int where "DST_NONE = 0"
definition DST_USA :: int where "DST_USA = 1"
definition DST_AUST :: int where "DST_AUST = 2"
definition DST_WET :: int where "DST_WET = 3"
definition DST_MET :: int where "DST_MET = 4"
definition DST_EET :: int where "DST_EET = 5"
definition DST_CAN :: int where "DST_CAN = 6"

definition ITIMER_REAL :: nat where "ITIMER_REAL = 0"
definition ITIMER_VIRTUAL :: nat where "ITIMER_VIRTUAL = 1"
definition ITIMER_PROF :: nat where "ITIMER_PROF = 2"

record itimerval =
  it_interval :: timeval
  it_value :: timeval

record clockinfo =
  ci_hz :: int
  ci_tick :: int
  ci_stathz :: int
  ci_profhz :: int

section \<open>Ticks\<close>

lemma c_long_id: "- (2 ^ 31) \<le> v \<Longrightarrow> v < 2 ^ 31 \<Longrightarrow> c_long v = v"
  by (simp add: c_long_def signed_of_int signed_take_bit_int_eq_self)

lemma c_long_add: "c_long (c_long a + b) = c_long (a + b)"
  by (simp add: c_long_def)

definition normal :: "timeval \<Rightarrow> bool" where
  "normal t \<longleftrightarrow> 0 \<le> tv_usec t \<and> tv_usec t < 1000000"

definition micros :: "timeval \<Rightarrow> int" where
  "micros t = tv_sec t * 1000000 + tv_usec t"

text \<open>The value with \<open>k\<close> microseconds in all, its seconds counted in a \<open>long\<close>.\<close>

definition of_micros :: "int \<Rightarrow> timeval" where
  "of_micros k = \<lparr>tv_sec = c_long (k div 1000000), tv_usec = k mod 1000000\<rparr>"

primrec bumps :: "timeval \<Rightarrow> int list \<Rightarrow> timeval" where
  "bumps t [] = t"
| "bumps t (u # us) = bumps (BUMPTIME t u) us"

lemma normal_of_micros [simp]: "normal (of_micros k)"
  by (simp add: normal_def of_micros_def)

lemma micros_of_micros:
  "- (2 ^ 31) \<le> k div 1000000 \<Longrightarrow> k div 1000000 < 2 ^ 31 \<Longrightarrow> micros (of_micros k) = k"
  by (simp add: micros_def of_micros_def c_long_id)

lemma bump_of_micros:
  assumes "0 \<le> u" "u \<le> 1000000"
  shows "BUMPTIME (of_micros k) u = of_micros (k + u)"
proof -
  let ?r = "k mod 1000000"
  have r: "0 \<le> ?r" "?r < 1000000" by simp_all
  have l: "c_long (?r + u) = ?r + u" "1000000 \<le> ?r + u \<Longrightarrow> c_long (?r + u - 1000000) = ?r + u - 1000000"
    using assms r by (auto intro!: c_long_id)
  have k: "k + u = 1000000 * (k div 1000000) + (?r + u)" by simp
  have d: "(k + u) div 1000000 = (if 1000000 \<le> ?r + u then k div 1000000 + 1 else k div 1000000)"
  proof (cases "1000000 \<le> ?r + u")
    case True
    then show ?thesis
      using assms r k by (intro int_div_pos_eq [of _ _ _ "?r + u - 1000000", THEN trans]) auto
  next
    case False
    then show ?thesis
      using assms r k by (intro int_div_pos_eq [of _ _ _ "?r + u", THEN trans]) auto
  qed
  have "(k + u) mod 1000000 = (if 1000000 \<le> ?r + u then ?r + u - 1000000 else ?r + u)"
    using k d unfolding minus_div_mult_eq_mod [symmetric] by auto
  with d show ?thesis
    by (simp add: BUMPTIME_def of_micros_def Let_def l c_long_add)
qed

lemma bumps_of_micros:
  "\<forall>u\<in>set us. 0 \<le> u \<and> u \<le> 1000000 \<Longrightarrow> bumps (of_micros k) us = of_micros (k + sum_list us)"
  by (induction us arbitrary: k) (simp_all add: bump_of_micros add.assoc)

lemma normal_is:
  "normal t \<Longrightarrow> - (2 ^ 31) \<le> tv_sec t \<Longrightarrow> tv_sec t < 2 ^ 31 \<Longrightarrow> t = of_micros (micros t)"
  by (cases t) (simp add: normal_def micros_def of_micros_def c_long_id)

text \<open>C40: a clock whose microseconds are below a million stays such under any number of ticks of at most
  a second each: its microseconds are the sum modulo a million and its seconds the rest, counted in a
  \<open>long\<close> that wraps around.  As long as the seconds fit the \<open>long\<close>, no microsecond is lost and the clock
  is monotonic for \<open>timercmp\<close>.\<close>

theorem bumps_exact:
  assumes "normal t" "- (2 ^ 31) \<le> tv_sec t" "tv_sec t < 2 ^ 31" "\<forall>u\<in>set us. 0 \<le> u \<and> u \<le> 1000000"
  shows "normal (bumps t us) \<and>
    tv_usec (bumps t us) = (tv_usec t + sum_list us) mod 1000000 \<and>
    tv_sec (bumps t us) = c_long (tv_sec t + (tv_usec t + sum_list us) div 1000000) \<and>
    (tv_sec t + (tv_usec t + sum_list us) div 1000000 < 2 ^ 31 \<longrightarrow>
      micros (bumps t us) = micros t + sum_list us \<and>
      (sum_list us > 0 \<longrightarrow> timercmp t (bumps t us) (<)))"
proof -
  let ?k = "micros t + sum_list us"
  have eq: "bumps t us = of_micros ?k"
    using bumps_of_micros [OF assms(4), of "micros t"] normal_is [OF assms(1-3)] by simp
  have k: "?k = tv_usec t + sum_list us + tv_sec t * 1000000" by (simp add: micros_def)
  have dm: "?k div 1000000 = tv_sec t + (tv_usec t + sum_list us) div 1000000"
    "?k mod 1000000 = (tv_usec t + sum_list us) mod 1000000"
    unfolding k by simp_all
  have "0 \<le> sum_list us" using assms(4) by (intro sum_list_nonneg) auto
  then have "0 \<le> (tv_usec t + sum_list us) div 1000000" using assms(1)
    by (intro pos_imp_zdiv_nonneg_iff [THEN iffD2]) (simp_all add: normal_def)
  then have m: "tv_sec t + (tv_usec t + sum_list us) div 1000000 < 2 ^ 31 \<Longrightarrow> micros (bumps t us) = ?k"
    unfolding eq using assms(2) by (intro micros_of_micros) (simp_all add: dm)
  have cmp: "timercmp a b (<)" if "normal a" "normal b" "micros a < micros b" for a b
    using that unfolding timercmp_def normal_def micros_def by auto
  have n: "normal (bumps t us)" unfolding eq by simp
  have "tv_usec (bumps t us) = (tv_usec t + sum_list us) mod 1000000"
    "tv_sec (bumps t us) = c_long (tv_sec t + (tv_usec t + sum_list us) div 1000000)"
    unfolding eq by (simp_all add: of_micros_def dm)
  with n m cmp [OF assms(1) n] show ?thesis by auto
qed

theorem bumps_exact_witness:
  "micros (bumps \<lparr>tv_sec = 1, tv_usec = 999999\<rparr> [10000, 10000]) = 2019999 \<and>
   tv_sec (bumps \<lparr>tv_sec = 2147483647, tv_usec = 999999\<rparr> [1]) = - 2147483648"
  using bumps_exact [of "\<lparr>tv_sec = 1, tv_usec = 999999\<rparr>" "[10000, 10000]"]
    bumps_exact [of "\<lparr>tv_sec = 2147483647, tv_usec = 999999\<rparr>" "[1]"]
  by (simp add: normal_def micros_def c_long_def signed_of_int signed_take_bit_eq_take_bit_minus take_bit_eq_mod bit_iff_odd)

end
