(* ===== verification/Domain.thy ===== *)
theory Domain
  imports Mem Consts
begin

text \<open>
  Protocol domains: \<open>sys/domain.h\<close>, \<open>sys/protosw.h\<close> and \<open>kern/uipc_domain.c\<close>.  A domain owns an
  array of protocol switch entries, given by its first entry and the address after its last; the
  loops step through it by the size of an entry.  The function pointers of a switch entry are
  numbers (\<open>0\<close> is \<open>NULL\<close>), and what the functions do is a parameter of the definitions: no protocol
  is installed by the code itself (\<open>kern/uipc_proto.c\<close> is empty).
\<close>

section \<open>Switch tables\<close>

type_synonym hook = nat

record protosw =
  pr_type :: int
  pr_domain :: addr
  pr_protocol :: int
  pr_flags :: int
  pr_input :: hook
  pr_output :: hook
  pr_ctlinput :: hook
  pr_ctloutput :: hook
  pr_usrreq :: hook
  pr_init :: hook
  pr_fasttimo :: hook
  pr_slowtimo :: hook
  pr_drain :: hook
  pr_sysctl :: hook

record domain =
  dom_family :: int
  dom_name :: addr
  dom_init :: hook
  dom_externalize :: hook
  dom_dispose :: hook
  dom_protosw :: addr
  dom_protoswNPROTOSW :: addr
  dom_next :: addr
  dom_rtattach :: hook
  dom_rtoffset :: int
  dom_maxrtkey :: int

record dtab =
  d_dom :: "addr \<Rightarrow> domain option"
  d_pro :: "addr \<Rightarrow> protosw option"
  domains :: addr

record hdrs =
  max_linkhdr :: int
  max_protohdr :: int
  max_hdr :: int
  max_datalen :: int

definition sizeof_protosw :: nat where "sizeof_protosw = 104"

definition PRU_CONTROL :: int where "PRU_CONTROL = 11"
definition PRC_IFDOWN :: int where "PRC_IFDOWN = 0"
definition PRC_MSGSIZE :: int where "PRC_MSGSIZE = 5"
definition PRC_HOSTDEAD :: int where "PRC_HOSTDEAD = 6"
definition PRC_UNREACH_PORT :: int where "PRC_UNREACH_PORT = 11"
definition PRC_REDIRECT_NET :: int where "PRC_REDIRECT_NET = 14"
definition PRC_REDIRECT_TOSHOST :: int where "PRC_REDIRECT_TOSHOST = 17"
definition PRC_PARAMPROB :: int where "PRC_PARAMPROB = 20"
definition PRC_NCMDS :: int where "PRC_NCMDS = 21"
definition PRC_IS_REDIRECT :: "int \<Rightarrow> bool" where
  "PRC_IS_REDIRECT cmd \<longleftrightarrow> cmd \<ge> PRC_REDIRECT_NET \<and> cmd \<le> PRC_REDIRECT_TOSHOST"

definition inetctlerrmap :: "int list" where
  "inetctlerrmap =
     [0, 0, 0, 0,
      0, EMSGSIZE, EHOSTDOWN, EHOSTUNREACH,
      EHOSTUNREACH, EHOSTUNREACH, ECONNREFUSED, ECONNREFUSED,
      EMSGSIZE, EHOSTUNREACH, 0, 0,
      0, 0, 0, 0,
      ENOPROTOOPT]"

section \<open>Operations\<close>

partial_function (option) pro_loop ::
    "dtab \<Rightarrow> (protosw \<Rightarrow> 's \<Rightarrow> 's option) \<Rightarrow> addr \<Rightarrow> addr \<Rightarrow> 's \<Rightarrow> 's option" where
  "pro_loop t body pro end s =
     (if pro = end then Some s
      else do { p \<leftarrow> d_pro t pro; s \<leftarrow> body p s; pro_loop t body (pro + sizeof_protosw) end s })"

partial_function (option) dom_loop ::
    "dtab \<Rightarrow> (domain \<Rightarrow> 's \<Rightarrow> 's option) \<Rightarrow> addr \<Rightarrow> 's \<Rightarrow> 's option" where
  "dom_loop t body d s =
     (if d = 0 then Some s
      else do { dm \<leftarrow> d_dom t d; s \<leftarrow> body dm s; dom_loop t body (dom_next dm) s })"

definition call :: "(hook \<Rightarrow> 's \<Rightarrow> 's option) \<Rightarrow> hook \<Rightarrow> 's \<Rightarrow> 's option" where
  "call run f s = (if f \<noteq> 0 then run f s else Some s)"

definition domaininit ::
    "(hook \<Rightarrow> 's \<Rightarrow> 's option) \<Rightarrow> dtab \<Rightarrow> hdrs \<Rightarrow> 's \<Rightarrow> ('s \<times> hdrs) option" where
  "domaininit run t g s = do {
     s \<leftarrow> dom_loop t (\<lambda>d s. do {
            s \<leftarrow> call run (dom_init d) s;
            pro_loop t (\<lambda>pro. call run (pr_init pro)) (dom_protosw d) (dom_protoswNPROTOSW d) s })
          (domains t) s;
     let g = (if max_linkhdr g < 16 then g\<lparr>max_linkhdr := 16\<rparr> else g);
     let g = g\<lparr>max_hdr := max_linkhdr g + max_protohdr g\<rparr>;
     Some (s, g\<lparr>max_datalen := MHLEN - max_hdr g\<rparr>) }"

definition pfslowtimo :: "(hook \<Rightarrow> 's \<Rightarrow> 's option) \<Rightarrow> dtab \<Rightarrow> 's \<Rightarrow> 's option" where
  "pfslowtimo run t s = dom_loop t (\<lambda>d.
     pro_loop t (\<lambda>pro. call run (pr_slowtimo pro)) (dom_protosw d) (dom_protoswNPROTOSW d)) (domains t) s"

definition pffasttimo :: "(hook \<Rightarrow> 's \<Rightarrow> 's option) \<Rightarrow> dtab \<Rightarrow> 's \<Rightarrow> 's option" where
  "pffasttimo run t s = dom_loop t (\<lambda>d.
     pro_loop t (\<lambda>pro. call run (pr_fasttimo pro)) (dom_protosw d) (dom_protoswNPROTOSW d)) (domains t) s"

text \<open>A control input function takes the command, the address and a null argument.\<close>

definition pfctlinput ::
    "(hook \<Rightarrow> int \<Rightarrow> addr \<Rightarrow> addr \<Rightarrow> 's \<Rightarrow> 's option) \<Rightarrow> dtab \<Rightarrow> int \<Rightarrow> addr \<Rightarrow> 's \<Rightarrow> 's option" where
  "pfctlinput run t cmd sa s = dom_loop t (\<lambda>d.
     pro_loop t (\<lambda>pro. call (\<lambda>f. run f cmd sa 0) (pr_ctlinput pro))
       (dom_protosw d) (dom_protoswNPROTOSW d)) (domains t) s"

partial_function (option) find_domain :: "dtab \<Rightarrow> int \<Rightarrow> addr \<Rightarrow> addr option" where
  "find_domain t family d =
     (if d = 0 then Some d
      else do { dm \<leftarrow> d_dom t d;
                if dom_family dm = family then Some d else find_domain t family (dom_next dm) })"

text \<open>The search of a switch array stops at the first entry of the type or at the end address.\<close>

partial_function (option) find_type :: "dtab \<Rightarrow> int \<Rightarrow> addr \<Rightarrow> addr \<Rightarrow> addr option" where
  "find_type t type pro end =
     (if pro = end then Some pro
      else do { p \<leftarrow> d_pro t pro;
                if type = pr_type p then Some pro else find_type t type (pro + sizeof_protosw) end })"

definition pffindtype :: "dtab \<Rightarrow> int \<Rightarrow> int \<Rightarrow> addr option" where
  "pffindtype t family type = do {
     d \<leftarrow> find_domain t family (domains t);
     if d = 0 then Some 0
     else do {
       dm \<leftarrow> d_dom t d;
       pro \<leftarrow> find_type t type (dom_protosw dm) (dom_protoswNPROTOSW dm);
       Some (if pro = dom_protoswNPROTOSW dm then 0 else pro) } }"

definition pffindproto :: "dtab \<Rightarrow> int \<Rightarrow> int \<Rightarrow> int \<Rightarrow> addr option" where
  "pffindproto t family protocol type = do {
     d \<leftarrow> find_domain t family (domains t);
     if d = 0 then Some 0
     else do {
       dm \<leftarrow> d_dom t d;
       pro \<leftarrow> find_type t type (dom_protosw dm) (dom_protoswNPROTOSW dm);
       Some (if pro \<noteq> dom_protoswNPROTOSW dm then pro
             else if type = SOCK_RAW \<and> protocol = 0 then dom_protoswNPROTOSW dm - sizeof_protosw
             else 0) } }"

definition net_sysctl :: "'s \<Rightarrow> 's" where "net_sysctl s = s"

section \<open>Well-formed switch tables\<close>

definition dom_next_of :: "dtab \<Rightarrow> addr \<Rightarrow> addr option" where
  "dom_next_of t d = map_option dom_next (d_dom t d)"

lemma dom_next_of_Some: "d_dom t d = Some dm \<Longrightarrow> dom_next_of t d = Some (dom_next dm)"
  by (simp add: dom_next_of_def)

text \<open>The entries of an array of switch entries.\<close>

primrec pro_array :: "dtab \<Rightarrow> addr \<Rightarrow> protosw list \<Rightarrow> bool" where
  "pro_array t p [] \<longleftrightarrow> True"
| "pro_array t p (x # xs) \<longleftrightarrow> d_pro t p = Some x \<and> pro_array t (p + sizeof_protosw) xs"

text \<open>A domain list with the contents of each domain.\<close>

definition dom_rep :: "dtab \<Rightarrow> (addr \<times> domain \<times> protosw list) list \<Rightarrow> bool" where
  "dom_rep t ds \<longleftrightarrow> chain (dom_next_of t) (domains t) (map fst ds) \<and>
     (\<forall>(d, dm, pros)\<in>set ds. d_dom t d = Some dm \<and> pro_array t (dom_protosw dm) pros \<and>
        dom_protoswNPROTOSW dm = dom_protosw dm + sizeof_protosw * length pros)"

interpretation doms: list_search "dom_next_of t" "\<lambda>d. map_option (\<lambda>dm. dom_family dm = family) (d_dom t d)"
  "find_domain t family" for t family
proof unfold_locales
  show "find_domain t family 0 = Some 0"
    by (subst find_domain.simps) simp
next
  fix p q b
  assume "p \<noteq> 0" "dom_next_of t p = Some q" "map_option (\<lambda>dm. dom_family dm = family) (d_dom t p) = Some b"
  then show "find_domain t family p = (if b then Some p else find_domain t family q)"
    by (subst find_domain.simps) (auto simp: dom_next_of_def)
qed

lemma find_type_array:
  "pro_array t p pros \<Longrightarrow> end = p + sizeof_protosw * length pros \<Longrightarrow>
   find_type t type p end = Some (p + sizeof_protosw * length (takeWhile (\<lambda>x. pr_type x \<noteq> type) pros))"
proof (induction pros arbitrary: p)
  case Nil
  then show ?case by (subst find_type.simps) simp
next
  case (Cons x xs)
  then show ?case
    by (subst find_type.simps) (auto simp: sizeof_protosw_def)
qed

primrec foldM :: "('a \<Rightarrow> 's \<Rightarrow> 's option) \<Rightarrow> 'a list \<Rightarrow> 's \<Rightarrow> 's option" where
  "foldM f [] s = Some s"
| "foldM f (x # xs) s = (case f x s of None \<Rightarrow> None | Some s \<Rightarrow> foldM f xs s)"

lemma foldM_append: "foldM f (xs @ ys) s = foldM f xs s \<bind> foldM f ys"
  by (induction xs arbitrary: s) (auto split: option.splits)

lemma pro_loop_array:
  "pro_array t p pros \<Longrightarrow> end = p + sizeof_protosw * length pros \<Longrightarrow>
   pro_loop t body p end s = foldM body pros s"
proof (induction pros arbitrary: p s)
  case Nil
  then show ?case by (subst pro_loop.simps) simp
next
  case (Cons x xs)
  then show ?case
    by (subst pro_loop.simps) (auto simp: sizeof_protosw_def split: option.splits Option.bind_splits)
qed

lemma dom_loop_chain:
  "chain (dom_next_of t) d (map fst ds) \<Longrightarrow> \<forall>(a, dm, pros)\<in>set ds. d_dom t a = Some dm \<Longrightarrow>
   dom_loop t body d s = foldM (\<lambda>(a, dm, pros). body dm) ds s"
proof (induction ds arbitrary: d s)
  case Nil
  then show ?case by (subst dom_loop.simps) simp
next
  case (Cons x xs)
  obtain a dm pros where x: "x = (a, dm, pros)" by (cases x)
  with Cons.prems have a: "d = a" "a \<noteq> 0" "d_dom t a = Some dm" "chain (dom_next_of t) (dom_next dm) (map fst xs)"
    by (auto simp: chain.simps dom_next_of_Some split: option.splits)
  show ?case
    using a Cons.IH [OF a(4)] Cons.prems(2)
    by (subst dom_loop.simps) (auto simp: x split: option.splits)
qed


text \<open>Every hook of a kind, over all domains in list order and all entries in array order.\<close>

definition all_pros :: "(addr \<times> domain \<times> protosw list) list \<Rightarrow> protosw list" where
  "all_pros ds = concat (map (snd \<circ> snd) ds)"

lemma all_pros_loop:
  assumes "dom_rep t ds"
  shows "dom_loop t (\<lambda>d. pro_loop t body (dom_protosw d) (dom_protoswNPROTOSW d)) (domains t) s =
    foldM body (all_pros ds) s"
proof -
  have "foldM (\<lambda>(a, dm, pros). pro_loop t body (dom_protosw dm) (dom_protoswNPROTOSW dm)) ds s =
      foldM body (all_pros ds) s"
    if "\<forall>(d, dm, pros)\<in>set ds. d_dom t d = Some dm \<and> pro_array t (dom_protosw dm) pros \<and>
        dom_protoswNPROTOSW dm = dom_protosw dm + sizeof_protosw * length pros" for ds :: "(addr \<times> domain \<times> protosw list) list" and s
    using that
  proof (induction ds arbitrary: s)
    case Nil
    then show ?case by (simp add: all_pros_def)
  next
    case (Cons x ds)
    obtain a dm pros where x: "x = (a, dm, pros)" by (cases x)
    have "pro_loop t body (dom_protosw dm) (dom_protoswNPROTOSW dm) s = foldM body pros s"
      using Cons.prems by (auto simp: x intro: pro_loop_array)
    moreover have "all_pros (x # ds) = pros @ all_pros ds" by (simp add: all_pros_def x)
    ultimately show ?case using Cons.IH Cons.prems by (auto simp: x foldM_append split: option.splits)
  qed
  then show ?thesis
    using assms unfolding dom_rep_def by (subst dom_loop_chain [of t _ ds]) auto
qed

lemma find_domain_rep:
  assumes "dom_rep t ds"
  shows "find_domain t family (domains t) =
    Some (case find (\<lambda>(d, dm, pros). dom_family dm = family) ds of None \<Rightarrow> 0 | Some (d, dm, pros) \<Rightarrow> d)"
proof -
  have ds: "chain (dom_next_of t) (domains t) (map fst ds)"
    "\<forall>(d, dm, pros)\<in>set ds. d_dom t d = Some dm"
    using assms by (auto simp: dom_rep_def)
  then have "find_domain t family (domains t) =
    Some (case find (\<lambda>a. map_option (\<lambda>dm. dom_family dm = family) (d_dom t a) = Some True) (map fst ds) of
      None \<Rightarrow> 0 | Some a \<Rightarrow> a)"
    by (intro doms.srch_chain) auto
  moreover have "find (\<lambda>a. map_option (\<lambda>dm. dom_family dm = family) (d_dom t a) = Some True) (map fst ds) =
    map_option fst (find (\<lambda>(d, dm, pros). dom_family dm = family) ds)"
    using ds(2) by (induction ds) auto
  ultimately show ?thesis by (auto split: option.splits)
qed

section \<open>What the switch does\<close>

definition first_of :: "int \<Rightarrow> protosw list \<Rightarrow> nat" where
  "first_of type pros = length (takeWhile (\<lambda>x. pr_type x \<noteq> type) pros)"

lemma dom_rep_find:
  assumes "dom_rep t ds" "find (\<lambda>(d, dm, pros). dom_family dm = family) ds = Some (d, dm, pros)"
  shows "d \<noteq> 0" "d_dom t d = Some dm" "pro_array t (dom_protosw dm) pros"
    "dom_protoswNPROTOSW dm = dom_protosw dm + sizeof_protosw * length pros"
proof -
  from assms(2) have "(d, dm, pros) \<in> set ds" by (metis find_Some_iff nth_mem)
  with assms(1) show "d_dom t d = Some dm" "pro_array t (dom_protosw dm) pros"
    "dom_protoswNPROTOSW dm = dom_protosw dm + sizeof_protosw * length pros"
    by (auto simp: dom_rep_def)
  have "d \<in> set (map fst ds)" using \<open>(d, dm, pros) \<in> set ds\<close> by force
  then show "d \<noteq> 0" using assms(1) unfolding dom_rep_def by (metis chain_alloc)
qed

lemma first_of_end: "first_of type pros = length pros \<longleftrightarrow> \<not> (\<exists>x\<in>set pros. pr_type x = type)"
proof -
  have "length (takeWhile P xs) = length xs \<longleftrightarrow> (\<forall>x\<in>set xs. P x)" for P and xs :: "protosw list"
    by (induction xs) auto
  then show ?thesis by (simp add: first_of_def)
qed

text \<open>\<open>pffindtype\<close> gives the first switch entry of the socket type in the first domain of the
  family, and \<open>NULL\<close> where there is no such domain or no such entry; it always returns.\<close>

theorem pffindtype_first:
  assumes "dom_rep t ds"
  shows "pffindtype t family type = Some
    (case find (\<lambda>(d, dm, pros). dom_family dm = family) ds of None \<Rightarrow> 0
     | Some (d, dm, pros) \<Rightarrow> if \<exists>x\<in>set pros. pr_type x = type
         then dom_protosw dm + sizeof_protosw * first_of type pros else 0)"
proof (cases "find (\<lambda>(d, dm, pros). dom_family dm = family) ds")
  case None
  then show ?thesis by (simp add: pffindtype_def find_domain_rep [OF assms])
next
  case (Some a)
  obtain d dm pros where a: "a = (d, dm, pros)" by (cases a)
  note f = dom_rep_find [OF assms Some [unfolded a]]
  show ?thesis
    using Some f first_of_end [of type pros]
    by (auto simp: pffindtype_def find_domain_rep [OF assms] a find_type_array first_of_def [symmetric] sizeof_protosw_def)
qed

definition demo_pro :: "int \<Rightarrow> int \<Rightarrow> hook \<Rightarrow> protosw" where
  "demo_pro ty proto ctl = \<lparr>pr_type = ty, pr_domain = 4096, pr_protocol = proto, pr_flags = 0, pr_input = 0,
     pr_output = 0, pr_ctlinput = ctl, pr_ctloutput = 0, pr_usrreq = 0, pr_init = 0, pr_fasttimo = 0,
     pr_slowtimo = 0, pr_drain = 0, pr_sysctl = 0\<rparr>"

definition demo_dom :: domain where
  "demo_dom = \<lparr>dom_family = 2, dom_name = 0, dom_init = 0, dom_externalize = 0, dom_dispose = 0,
     dom_protosw = 8192, dom_protoswNPROTOSW = 8400, dom_next = 0, dom_rtattach = 0, dom_rtoffset = 0,
     dom_maxrtkey = 0\<rparr>"

definition demo_tab :: dtab where
  "demo_tab = \<lparr>d_dom = [4096 \<mapsto> demo_dom],
     d_pro = [8192 \<mapsto> demo_pro 2 17 7, 8296 \<mapsto> demo_pro 1 6 0], domains = 4096\<rparr>"

lemma demo_tab_rep: "dom_rep demo_tab [(4096, demo_dom, [demo_pro 2 17 7, demo_pro 1 6 0])]"
  by (simp add: dom_rep_def demo_tab_def dom_next_of_def demo_dom_def sizeof_protosw_def chain.simps)

theorem pffindtype_first_witness:
  "pffindtype demo_tab 2 1 = Some 8296 \<and> pffindtype demo_tab 2 3 = Some 0 \<and> pffindtype demo_tab 7 1 = Some 0"
  using pffindtype_first [OF demo_tab_rep]
  by (simp add: demo_dom_def demo_pro_def first_of_def sizeof_protosw_def)

lemma pffind_first:
  assumes "dom_rep t ds" "find (\<lambda>(d, dm, pros). dom_family dm = family) ds = Some (d, dm, pros)" "pros \<noteq> []"
  shows "pffindproto t family protocol type =
      (let k = first_of type pros in
       Some (if k \<noteq> length pros then dom_protosw dm + sizeof_protosw * k
         else if type = SOCK_RAW \<and> protocol = 0 then dom_protosw dm + sizeof_protosw * (length pros - 1) else 0))"
    "pffindtype t family type =
      (let k = first_of type pros in
       Some (if k \<noteq> length pros then dom_protosw dm + sizeof_protosw * k else 0))"
proof -
  note f = dom_rep_find [OF assms(1,2)]
  have last: "dom_protosw dm + sizeof_protosw * length pros - sizeof_protosw =
      dom_protosw dm + sizeof_protosw * (length pros - 1)"
    using assms(3) by (cases pros) (auto simp: sizeof_protosw_def)
  show "pffindproto t family protocol type =
      (let k = first_of type pros in
       Some (if k \<noteq> length pros then dom_protosw dm + sizeof_protosw * k
         else if type = SOCK_RAW \<and> protocol = 0 then dom_protosw dm + sizeof_protosw * (length pros - 1) else 0))"
    using f assms(2) last
    by (auto simp: pffindproto_def find_domain_rep [OF assms(1)] find_type_array
        first_of_def [symmetric] sizeof_protosw_def Let_def)
  show "pffindtype t family type =
      (let k = first_of type pros in
       Some (if k \<noteq> length pros then dom_protosw dm + sizeof_protosw * k else 0))"
    using f assms(2)
    by (auto simp: pffindtype_def find_domain_rep [OF assms(1)] find_type_array
        first_of_def [symmetric] sizeof_protosw_def Let_def)
qed

text \<open>\<open>pffindproto\<close> never compares the protocol it is given with that of an entry: if the domain
  has an entry of the socket type it gives the first one, the result of \<open>pffindtype\<close>.  The fallback
  for a raw socket with protocol zero is taken only when the domain has no raw entry at all, and gives
  the last entry of the domain, which is then not a raw one.\<close>

theorem pffindproto_protocol_ignored:
  assumes "dom_rep t ds" "find (\<lambda>(d, dm, pros). dom_family dm = family) ds = Some (d, dm, pros)" "pros \<noteq> []"
  shows "pffindproto t family protocol type =
    (if \<exists>x\<in>set pros. pr_type x = type then pffindtype t family type
     else if type = SOCK_RAW \<and> protocol = 0 then Some (dom_protosw dm + sizeof_protosw * (length pros - 1))
     else Some 0)"
  unfolding pffind_first [OF assms] Let_def using first_of_end [of type pros] by simp

theorem pffindproto_protocol_ignored_witness:
  "pffindproto demo_tab 2 99 1 = Some 8296 \<and> pffindproto demo_tab 2 0 3 = Some 8296"
  using pffindproto_protocol_ignored [OF demo_tab_rep, of 2 4096 demo_dom _ 99 1]
    pffindproto_protocol_ignored [OF demo_tab_rep, of 2 4096 demo_dom _ 0 3]
    pffind_first(2) [OF demo_tab_rep, of 2 4096 demo_dom _ 1]
  by (simp add: demo_dom_def demo_pro_def first_of_def sizeof_protosw_def SOCK_RAW_def)

lemma foldM_call:
  "foldM (\<lambda>pro. call run (sel pro)) pros s = foldM run (filter (\<lambda>f. f \<noteq> 0) (map sel pros)) s"
  by (induction pros arbitrary: s) (auto simp: call_def split: option.splits)

text \<open>C37: \<open>pfctlinput\<close>, \<open>pfslowtimo\<close> and \<open>pffasttimo\<close> call the hook of every switch entry that has
  one exactly once, domains in list order and entries in array order, and return when the hooks do.\<close>

theorem hooks_called_in_order:
  assumes "dom_rep t ds"
  shows "pfctlinput ctl t cmd sa s =
      foldM (\<lambda>f. ctl f cmd sa 0) (filter (\<lambda>f. f \<noteq> 0) (map pr_ctlinput (all_pros ds))) s \<and>
    pfslowtimo run t s = foldM run (filter (\<lambda>f. f \<noteq> 0) (map pr_slowtimo (all_pros ds))) s \<and>
    pffasttimo run t s = foldM run (filter (\<lambda>f. f \<noteq> 0) (map pr_fasttimo (all_pros ds))) s"
  by (simp add: pfctlinput_def pfslowtimo_def pffasttimo_def all_pros_loop [OF assms] foldM_call)

theorem hooks_called_in_order_witness:
  "pfctlinput (\<lambda>f cmd sa arg s. Some (s @ [f])) demo_tab PRC_IFDOWN 5 [] = Some [7]"
  using hooks_called_in_order [OF demo_tab_rep, of "\<lambda>f cmd sa arg s. Some (s @ [f])" PRC_IFDOWN 5 "[]"]
  by (simp add: all_pros_def demo_pro_def)

end
