(* ===== verification/Net.thy ===== *)
theory Net
  imports Queue Consts Clock Domain
begin

text \<open>
  The state of the network code above the buffers: interfaces (\<open>net/if.h\<close>), their addresses
  (\<open>net/if.h\<close>, \<open>netinet/in_var.h\<close>), route entries as far as the output routines look at them
  (\<open>net/route.h\<close>), and the global variables of \<open>net/if.c\<close>, \<open>netinet/in.c\<close>,
  \<open>netinet/ip_input.c\<close> and \<open>kern/kern_clock.c\<close>, in one record over the C heap of \<open>Mem\<close>.

  Interfaces, interface addresses and routes are maps from addresses; socket addresses and
  request blocks are bytes in the heap, so that a pointer into the middle of a structure is an
  ordinary pointer.  An \<open>in_ifaddr\<close> is a block of 144 bytes of which the three socket addresses
  (at 88, 104 and 120) are kept as bytes and the other fields in \<open>n_ifa\<close>.  Static objects have
  addresses below 4096.
\<close>

section \<open>Interfaces and addresses\<close>

datatype fptr = FNull | F_ether_output | F_looutput | F_sloutput | F_loioctl | F_slioctl | F_leioctl
  | F_leinit | F_lestart | F_lereset | F_other nat

record ifdata =
  ifi_type :: u_char
  ifi_addrlen :: u_char
  ifi_hdrlen :: u_char
  ifi_mtu :: u_long
  ifi_metric :: u_long
  ifi_baudrate :: u_long
  ifi_ipackets :: u_long
  ifi_ierrors :: u_long
  ifi_opackets :: u_long
  ifi_oerrors :: u_long
  ifi_collisions :: u_long
  ifi_ibytes :: u_long
  ifi_obytes :: u_long
  ifi_imcasts :: u_long
  ifi_omcasts :: u_long
  ifi_iqdrops :: u_long
  ifi_noproto :: u_long
  ifi_lastchange :: timeval

text \<open>A name is the bytes before the terminating zero; \<open>None\<close> is a null pointer.\<close>

record ifnet =
  if_next :: addr
  if_addrlist :: addr
  if_name :: "u_char list option"
  if_unit :: c_short
  if_index :: u_short
  if_flags :: c_short
  if_timer :: c_short
  if_pcount :: int
  if_bpf :: addr
  if_data :: ifdata
  if_init :: fptr
  if_output :: fptr
  if_start :: fptr
  if_done :: fptr
  if_ioctl :: fptr
  if_reset :: fptr
  if_watchdog :: fptr
  if_snd :: ifqueue

text \<open>The fields that \<open>struct in_ifaddr\<close> adds to \<open>struct ifaddr\<close>.\<close>

record in_part =
  ia_net :: u_long
  ia_netmask :: u_long
  ia_subnet :: u_long
  ia_subnetmask :: u_long
  ia_netbroadcast :: u_long
  ia_next :: addr
  ia_multiaddrs :: addr

record ifaddr =
  ifa_next :: addr
  ifa_ifp :: addr
  ifa_addr :: addr
  ifa_dstaddr :: addr
  ifa_netmask :: addr
  ifa_rtrequest :: fptr
  ifa_flags :: u_short
  ifa_refcnt :: c_short
  ifa_metric :: int
  ifa_in :: "in_part option"

record rt_metrics =
  rmx_locks :: u_long
  rmx_mtu :: u_long
  rmx_hopcount :: u_long
  rmx_expire :: u_long
  rmx_recvpipe :: u_long
  rmx_sendpipe :: u_long
  rmx_ssthresh :: u_long
  rmx_rtt :: u_long
  rmx_rttvar :: u_long
  rmx_pksent :: u_long

text \<open>Of the tree nodes at the front of a route only the key and the mask are kept.\<close>

record rtentry =
  rt_key :: addr
  rt_mask :: addr
  rt_gateway :: addr
  rt_flags :: c_short
  rt_refcnt :: c_short
  rt_use :: u_long
  rt_ifp :: addr
  rt_ifa :: addr
  rt_genmask :: addr
  rt_llinfo :: addr
  rt_rmx :: rt_metrics
  rt_gwroute :: addr

record in_multi =
  inm_addr :: u_long
  inm_ifp :: addr
  inm_ia :: addr
  inm_refcount :: u_int
  inm_timer :: u_int
  inm_next :: addr

record ether_multi =
  enm_addrlo :: "u_char list"
  enm_addrhi :: "u_char list"
  enm_ac :: addr
  enm_refcount :: u_int
  enm_next :: addr

text \<open>What \<open>struct arpcom\<close> adds to the interface it begins with.\<close>

record arpcom =
  ac_enaddr :: "u_char list"
  ac_ipaddr :: u_long
  ac_multiaddrs :: addr
  ac_multicnt :: int

section \<open>The state\<close>

record net =
  n_mem :: mem
  n_if :: "addr \<Rightarrow> ifnet option"
  n_ifa :: "addr \<Rightarrow> ifaddr option"
  n_rt :: "addr \<Rightarrow> rtentry option"
  n_ac :: "addr \<Rightarrow> arpcom option"
  n_inm :: "addr \<Rightarrow> in_multi option"
  n_enm :: "addr \<Rightarrow> ether_multi option"
  g_ifnet :: addr
  g_if_index :: int
  g_if_indexlim :: int
  g_ifnet_addrs :: "addr list option"
  g_ifqmaxlen :: int
  g_in_ifaddr :: addr
  g_in_interfaces :: int
  g_subnetsarelocal :: int
  g_ipintrq :: ifqueue
  g_arpintrq :: ifqueue
  g_time :: timeval

definition loif :: addr where "loif = 8"

type_synonym 'a res = "('a \<times> net) option"

definition ldif :: "net \<Rightarrow> addr \<Rightarrow> ifnet option" where
  "ldif n p = (if p = 0 then None else n_if n p)"

definition updif :: "net \<Rightarrow> addr \<Rightarrow> (ifnet \<Rightarrow> ifnet) \<Rightarrow> net option" where
  "updif n p f = (case ldif n p of None \<Rightarrow> None | Some i \<Rightarrow> Some (n\<lparr>n_if := (n_if n)(p \<mapsto> f i)\<rparr>))"

definition ldifa :: "net \<Rightarrow> addr \<Rightarrow> ifaddr option" where
  "ldifa n p = (if p = 0 then None else n_ifa n p)"

definition updifa :: "net \<Rightarrow> addr \<Rightarrow> (ifaddr \<Rightarrow> ifaddr) \<Rightarrow> net option" where
  "updifa n p f = (case ldifa n p of None \<Rightarrow> None | Some i \<Rightarrow> Some (n\<lparr>n_ifa := (n_ifa n)(p \<mapsto> f i)\<rparr>))"

text \<open>The internet part of an address that is really an \<open>in_ifaddr\<close>.\<close>

definition ldia :: "net \<Rightarrow> addr \<Rightarrow> in_part option" where
  "ldia n p = (case ldifa n p of None \<Rightarrow> None | Some a \<Rightarrow> ifa_in a)"

definition updia :: "net \<Rightarrow> addr \<Rightarrow> (in_part \<Rightarrow> in_part) \<Rightarrow> net option" where
  "updia n p f = do { ia \<leftarrow> ldia n p; updifa n p (\<lambda>a. a\<lparr>ifa_in := Some (f ia)\<rparr>) }"

definition ldrt :: "net \<Rightarrow> addr \<Rightarrow> rtentry option" where
  "ldrt n p = (if p = 0 then None else n_rt n p)"

definition updrt :: "net \<Rightarrow> addr \<Rightarrow> (rtentry \<Rightarrow> rtentry) \<Rightarrow> net option" where
  "updrt n p f = (case ldrt n p of None \<Rightarrow> None | Some i \<Rightarrow> Some (n\<lparr>n_rt := (n_rt n)(p \<mapsto> f i)\<rparr>))"

section \<open>Heap access\<close>

definition nrd :: "net \<Rightarrow> addr \<Rightarrow> nat \<Rightarrow> u_char list option" where
  "nrd n p k = rd (n_mem n) p k"

definition nwr :: "net \<Rightarrow> addr \<Rightarrow> u_char list \<Rightarrow> net option" where
  "nwr n p xs = do { h \<leftarrow> wr (n_mem n) p xs; Some (n\<lparr>n_mem := h\<rparr>) }"

definition rd8 :: "net \<Rightarrow> addr \<Rightarrow> u_char option" where
  "rd8 n p = do { bs \<leftarrow> nrd n p 1; Some (hd bs) }"

definition rd16 :: "net \<Rightarrow> addr \<Rightarrow> u_short option" where
  "rd16 n p = do { bs \<leftarrow> nrd n p 2; Some (word_of_nat (le_nat bs)) }"

definition rd32 :: "net \<Rightarrow> addr \<Rightarrow> u_long option" where
  "rd32 n p = do { bs \<leftarrow> nrd n p 4; Some (word_of_nat (le_nat bs)) }"

text \<open>\<open>struct sockaddr\<close>: length, family, fourteen bytes of data; the internet address of a
  \<open>sockaddr_in\<close> is at offset four.\<close>

definition sa_len :: "net \<Rightarrow> addr \<Rightarrow> u_char option" where "sa_len n p = rd8 n p"
definition sa_family :: "net \<Rightarrow> addr \<Rightarrow> u_char option" where "sa_family n p = rd8 n (p + 1)"
definition sin_s_addr :: "net \<Rightarrow> addr \<Rightarrow> u_long option" where "sin_s_addr n p = rd32 n (p + 4)"

definition sizeof_sockaddr :: nat where "sizeof_sockaddr = 16"
definition sizeof_sockaddr_dl :: nat where "sizeof_sockaddr_dl = 20"

definition ia_addr :: "addr \<Rightarrow> addr" where "ia_addr ia = ia + 88"
definition ia_dstaddr :: "addr \<Rightarrow> addr" where "ia_dstaddr ia = ia + 104"
definition ia_sockmask :: "addr \<Rightarrow> addr" where "ia_sockmask ia = ia + 120"

text \<open>\<open>calloc\<close> of raw bytes, and of a structure kept in one of the maps.\<close>

definition calloc_buf :: "net \<Rightarrow> nat \<Rightarrow> addr \<times> net" where
  "calloc_buf n k = (let h = n_mem n in
     if malloc_ok h
     then (fresh h, n\<lparr>n_mem := (took h)\<lparr>mm_buf := (mm_buf h)(fresh h \<mapsto> replicate k 0)\<rparr>\<rparr>)
     else (0, n))"

definition zero_ifaddr :: ifaddr where
  "zero_ifaddr = \<lparr>ifa_next = 0, ifa_ifp = 0, ifa_addr = 0, ifa_dstaddr = 0, ifa_netmask = 0,
     ifa_rtrequest = FNull, ifa_flags = 0, ifa_refcnt = 0, ifa_metric = 0, ifa_in = None\<rparr>"

definition calloc_ifaddr :: "net \<Rightarrow> addr \<times> net" where
  "calloc_ifaddr n = (let h = n_mem n in
     if malloc_ok h
     then (fresh h, n\<lparr>n_mem := took h, n_ifa := (n_ifa n)(fresh h \<mapsto> zero_ifaddr)\<rparr>)
     else (0, n))"

section \<open>Requests\<close>

text \<open>The argument of an ioctl is the bytes of a request block (\<open>ifreq\<close>, \<open>ifaliasreq\<close> or
  \<open>ifconf\<close>), or a pointer to an interface address when the code passes one down.\<close>

datatype ioarg = Bytes "u_char list" | Ifa addr

text \<open>\<open>struct ifreq\<close>: sixteen bytes of name, then the union.\<close>

definition req_field :: "ioarg \<Rightarrow> nat \<Rightarrow> nat \<Rightarrow> u_char list option" where
  "req_field d off k = (case d of
     Bytes bs \<Rightarrow> if off + k \<le> length bs then Some (slice off k bs) else None
   | Ifa _ \<Rightarrow> None)"

definition req_store :: "ioarg \<Rightarrow> nat \<Rightarrow> u_char list \<Rightarrow> ioarg option" where
  "req_store d off xs = (case d of
     Bytes bs \<Rightarrow> if off + length xs \<le> length bs then Some (Bytes (patch bs off xs)) else None
   | Ifa _ \<Rightarrow> None)"

definition ifr_flags :: "ioarg \<Rightarrow> c_short option" where
  "ifr_flags d = map_option (\<lambda>b. word_of_nat (le_nat b)) (req_field d 16 2)"

definition ifr_metric :: "ioarg \<Rightarrow> u_long option" where
  "ifr_metric d = map_option (\<lambda>b. word_of_nat (le_nat b)) (req_field d 16 4)"

definition ifr_addr :: "ioarg \<Rightarrow> u_char list option" where
  "ifr_addr d = req_field d 16 16"

record socket =
  so_type :: c_short
  so_options :: c_short
  so_linger :: c_short
  so_state :: c_short
  so_pcb :: addr
  so_proto :: hook

text \<open>The functions the code calls through pointers it does not define itself, and the protocol
  tables: a parameter of the operations.\<close>

record env =
  e_dtab :: dtab
  e_ctl :: "hook \<Rightarrow> int \<Rightarrow> addr \<Rightarrow> addr \<Rightarrow> net \<Rightarrow> net option"
  e_usrreq :: "hook \<Rightarrow> int \<Rightarrow> u_int \<Rightarrow> ioarg \<Rightarrow> addr \<Rightarrow> net \<Rightarrow> (int \<times> ioarg \<times> net) option"
  e_ioctl :: "fptr \<Rightarrow> addr \<Rightarrow> u_int \<Rightarrow> ioarg \<Rightarrow> net \<Rightarrow> (int \<times> ioarg \<times> net) option"
  e_watchdog :: "fptr \<Rightarrow> c_short \<Rightarrow> net \<Rightarrow> net option"
  e_start :: "fptr \<Rightarrow> addr \<Rightarrow> net \<Rightarrow> net option"

section \<open>Facts\<close>

lemma updif_eq: "ldif n p = Some i \<Longrightarrow> updif n p f = Some (n\<lparr>n_if := (n_if n)(p \<mapsto> f i)\<rparr>)"
  by (simp add: updif_def)

lemma updifa_eq: "ldifa n p = Some i \<Longrightarrow> updifa n p f = Some (n\<lparr>n_ifa := (n_ifa n)(p \<mapsto> f i)\<rparr>)"
  by (simp add: updifa_def)

lemma ldif_0 [simp]: "ldif n 0 = None"
  by (simp add: ldif_def)

lemma ldifa_0 [simp]: "ldifa n 0 = None"
  by (simp add: ldifa_def)

lemma ldif_nz: "ldif n p = Some i \<Longrightarrow> p \<noteq> 0"
  by (auto simp: ldif_def split: if_splits)

lemma ldifa_nz: "ldifa n p = Some i \<Longrightarrow> p \<noteq> 0"
  by (auto simp: ldifa_def split: if_splits)

lemma ldif_upd [simp]:
  "ldif (n\<lparr>n_if := (n_if n)(p \<mapsto> i)\<rparr>) q = (if q = p \<and> p \<noteq> 0 then Some i else ldif n q)"
  by (auto simp: ldif_def)

lemma ldifa_upd [simp]:
  "ldifa (n\<lparr>n_ifa := (n_ifa n)(p \<mapsto> i)\<rparr>) q = (if q = p \<and> p \<noteq> 0 then Some i else ldifa n q)"
  by (auto simp: ldifa_def)

lemma ld_frame [simp]:
  "ldif (n\<lparr>n_mem := h\<rparr>) q = ldif n q" "ldifa (n\<lparr>n_mem := h\<rparr>) q = ldifa n q"
  "ldif (n\<lparr>n_ifa := fa\<rparr>) q = ldif n q" "ldifa (n\<lparr>n_if := fi\<rparr>) q = ldifa n q"
  by (simp_all add: ldif_def ldifa_def)

text \<open>Reading a stored field back.\<close>

lemma req_store_field:
  assumes "req_store d off xs = Some d'" "k = length xs"
  shows "req_field d' off k = Some xs"
  using assms by (auto simp: req_store_def req_field_def slice_patch_same split: ioarg.splits if_splits)

lemma req_store_defined: "req_store (Bytes bs) off xs \<noteq> None \<longleftrightarrow> off + length xs \<le> length bs"
  by (simp add: req_store_def)

end
