(* ===== verification/If.thy ===== *)
theory If
  imports Net
begin

text \<open>
  \<open>net/if.c\<close>: interface lists, attaching an interface, interface requests, timers, and the lookup
  of interface addresses; with \<open>ether_ifattach\<close> of \<open>net/if_ethersubr.c\<close>, which \<open>if_attach\<close> calls,
  and the stubs of \<open>net/route.c\<close> and \<open>net/radix.c\<close> that this file calls.
\<close>

section \<open>Stubs\<close>

definition rt_ifmsg :: "net \<Rightarrow> addr \<Rightarrow> net" where "rt_ifmsg n ifp = n"
definition rn_refines :: "addr \<Rightarrow> addr \<Rightarrow> int" where "rn_refines m k = 0"
definition if_freenameindex :: "net \<Rightarrow> addr \<Rightarrow> net" where "if_freenameindex n a = n"
definition if_indextoname :: "u_int \<Rightarrow> addr \<Rightarrow> addr" where "if_indextoname a b = 0"
definition if_nametoindex :: "addr \<Rightarrow> u_int" where "if_nametoindex c = 0"
definition link_rtrequest :: "net \<Rightarrow> int \<Rightarrow> addr \<Rightarrow> addr \<Rightarrow> net" where "link_rtrequest n cmd rt sa = n"

section \<open>Strings\<close>

text \<open>\<open>sprintf (buf, "%d", x)\<close>, without the terminating zero.\<close>

fun digits :: "nat \<Rightarrow> u_char list" where
  "digits n = (if n < 10 then [word_of_nat (48 + n)]
     else digits (n div 10) @ [word_of_nat (48 + n mod 10)])"

declare digits.simps [simp del]

definition dec :: "int \<Rightarrow> u_char list" where
  "dec x = (if x < 0 then 45 # digits (nat (- x)) else digits (nat x))"

text \<open>The bytes of a string that starts at the front of a block: undefined if it is not terminated.\<close>

definition c_str :: "u_char list \<Rightarrow> u_char list option" where
  "c_str bs = (if 0 \<in> set bs then Some (takeWhile (\<lambda>c. c \<noteq> 0) bs) else None)"

section \<open>Interface names\<close>

text \<open>The local buffer \<open>ifname\<close> has sixteen bytes.\<close>

definition ifunit_name :: "ifnet \<Rightarrow> u_char list option" where
  "ifunit_name i = do {
     nm \<leftarrow> if_name i;
     guard (length nm < 16);
     let s = nm @ dec (sint (if_unit i));
     guard (length s < 16);
     Some s }"

partial_function (option) ifunit_loop :: "net \<Rightarrow> u_char list \<Rightarrow> addr \<Rightarrow> addr option" where
  "ifunit_loop n name ifp =
     (if ifp = 0 then Some 0
      else do {
        i \<leftarrow> ldif n ifp;
        s \<leftarrow> ifunit_name i;
        if name = s then Some ifp else ifunit_loop n name (if_next i) })"

definition ifunit :: "net \<Rightarrow> u_char list \<Rightarrow> addr option" where
  "ifunit n name = ifunit_loop n name (g_ifnet n)"

section \<open>Attaching an interface\<close>

definition ETHERMTU :: u_long where "ETHERMTU = 1500"

text \<open>The loop of \<open>ether_ifattach\<close> starts from the null pointer that \<open>ifa\<close> was initialised to (the
  first clause of its \<open>for\<close> does not assign), so it has no iteration.\<close>

definition ether_ifattach :: "net \<Rightarrow> addr \<Rightarrow> net option" where
  "ether_ifattach n ifp = updif n ifp (\<lambda>i. i\<lparr>if_data := (if_data i)\<lparr>ifi_type := IFT_ETHER,
      ifi_addrlen := 6, ifi_hdrlen := 14, ifi_mtu := ETHERMTU\<rparr>\<rparr>)"

partial_function (option) if_attach_last :: "net \<Rightarrow> addr \<Rightarrow> addr option" where
  "if_attach_last n p = do { i \<leftarrow> ldif n p; if if_next i \<noteq> 0 then if_attach_last n (if_next i) else Some p }"

definition if_attach_link :: "net \<Rightarrow> addr \<Rightarrow> net option" where
  "if_attach_link n ifp =
     (if g_ifnet n = 0 then Some (n\<lparr>g_ifnet := ifp\<rparr>)
      else do { p \<leftarrow> if_attach_last n (g_ifnet n); updif n p (\<lambda>i. i\<lparr>if_next := ifp\<rparr>) })"

text \<open>\<open>calloc\<close> and \<open>realloc\<close> of the table of interface addresses; growing a table that could not be
  allocated before would leave its contents undefined.\<close>

definition if_attach_grow :: "net \<Rightarrow> net option" where
  "if_attach_grow n = do {
     let n = (if g_ifnet_addrs n = None \<and> malloc_ok (n_mem n)
              then n\<lparr>n_mem := took (n_mem n), g_ifnet_addrs := Some (replicate (nat (g_if_indexlim n)) 0)\<rparr>
              else n);
     if g_if_index n \<ge> g_if_indexlim n
     then do {
       let n = n\<lparr>g_if_indexlim := 2 * g_if_indexlim n\<rparr>;
       guard (malloc_ok (n_mem n));
       old \<leftarrow> g_ifnet_addrs n;
       let half = nat (g_if_indexlim n) div 2;
       Some (n\<lparr>n_mem := took (n_mem n),
               g_ifnet_addrs := Some (take half (old @ replicate (nat (g_if_indexlim n) - length old) 0) @
                 replicate (nat (g_if_indexlim n) - half) 0)\<rparr>) }
     else Some n }"

text \<open>The link-level address and its mask, in one block of two \<open>sockaddr_dl\<close>.\<close>

definition if_attach_dl :: "net \<Rightarrow> addr \<Rightarrow> ifnet \<Rightarrow> net option" where
  "if_attach_dl n dl i = do {
     n \<leftarrow> nwr n dl [20, AF_LINK];
     n \<leftarrow> nwr n (dl + 2) (nat_le 2 (unat (if_index i)));
     n \<leftarrow> nwr n (dl + 4) [ifi_type (if_data i)];
     nm \<leftarrow> if_name i;
     let s = nm @ dec (sint (if_unit i));
     n \<leftarrow> nwr n (dl + 8) (s @ [0]);
     let nlen = (word_of_nat (length s) :: u_char);
     n \<leftarrow> nwr n (dl + 5) [nlen, 6, 0];
     n \<leftarrow> nwr n (dl + 20) [word_of_nat (8 + unat nlen)];
     nwr n (dl + 28) (replicate (unat nlen) 0xff) }"

text \<open>Everything after the table has room: the index, the address and its entry in the table.\<close>

definition if_attach_addr :: "net \<Rightarrow> addr \<Rightarrow> net option" where
  "if_attach_addr n ifp = do {
     let n = n\<lparr>g_if_index := g_if_index n + 1\<rparr>;
     n \<leftarrow> updif n ifp (\<lambda>i. i\<lparr>if_index := word_of_int (g_if_index n)\<rparr>);
     let (ifa, n) = calloc_ifaddr n;
     n \<leftarrow> updif n ifp (\<lambda>i. i\<lparr>if_addrlist := ifa\<rparr>);
     let (dl, n) = calloc_buf n (2 * sizeof_sockaddr_dl);
     i \<leftarrow> ldif n ifp;
     n \<leftarrow> updifa n ifa (\<lambda>a. a\<lparr>ifa_next := 0, ifa_ifp := ifp, ifa_addr := dl, ifa_rtrequest := FNull,
            ifa_flags := if_flags i, ifa_refcnt := ifa_refcnt a + 1,
            ifa_metric := sint (ifi_metric (if_data i))\<rparr>);
     n \<leftarrow> if_attach_dl n dl i;
     n \<leftarrow> updifa n ifa (\<lambda>a. a\<lparr>ifa_netmask := dl + sizeof_sockaddr_dl\<rparr>);
     tab \<leftarrow> g_ifnet_addrs n;
     guard (1 \<le> g_if_index n \<and> nat (g_if_index n) \<le> length tab);
     let n = n\<lparr>g_ifnet_addrs := Some (tab[nat (g_if_index n) - 1 := ifa])\<rparr>;
     if if_output i = F_ether_output then ether_ifattach n ifp else Some n }"

definition if_attach :: "net \<Rightarrow> addr \<Rightarrow> net option" where
  "if_attach n ifp = do {
     n \<leftarrow> if_attach_link n ifp;
     n \<leftarrow> if_attach_grow n;
     if_attach_addr n ifp }"

section \<open>State of an interface\<close>

partial_function (option) if_down_loop :: "env \<Rightarrow> net \<Rightarrow> addr \<Rightarrow> net option" where
  "if_down_loop e n ifa =
     (if ifa = 0 then Some n
      else do {
        n \<leftarrow> pfctlinput (e_ctl e) (e_dtab e) PRC_IFDOWN ifa n;
        a \<leftarrow> ldifa n ifa;
        if_down_loop e n (ifa_next a) })"

definition if_down :: "env \<Rightarrow> net \<Rightarrow> addr \<Rightarrow> net option" where
  "if_down e n ifp = do {
     n \<leftarrow> updif n ifp (\<lambda>i. i\<lparr>if_flags := if_flags i AND NOT IFF_UP\<rparr>);
     i \<leftarrow> ldif n ifp;
     n \<leftarrow> if_down_loop e n (if_addrlist i);
     i \<leftarrow> ldif n ifp;
     (h, q) \<leftarrow> if_qflush (n_mem n) (if_snd i);
     n \<leftarrow> updif (n\<lparr>n_mem := h\<rparr>) ifp (\<lambda>i. i\<lparr>if_snd := q\<rparr>);
     Some (rt_ifmsg n ifp) }"

definition if_up :: "net \<Rightarrow> addr \<Rightarrow> net option" where
  "if_up n ifp = do {
     n \<leftarrow> updif n ifp (\<lambda>i. i\<lparr>if_flags := if_flags i OR IFF_UP\<rparr>);
     Some (rt_ifmsg n ifp) }"

partial_function (option) if_slowtimo_loop :: "env \<Rightarrow> net \<Rightarrow> addr \<Rightarrow> net option" where
  "if_slowtimo_loop e n ifp =
     (if ifp = 0 then Some n
      else do {
        i \<leftarrow> ldif n ifp;
        n \<leftarrow> (if if_timer i = 0 then Some n
              else do {
                n \<leftarrow> updif n ifp (\<lambda>i. i\<lparr>if_timer := if_timer i - 1\<rparr>);
                if if_timer i - 1 \<noteq> 0 then Some n
                else if if_watchdog i \<noteq> FNull then e_watchdog e (if_watchdog i) (if_unit i) n
                else Some n });
        i \<leftarrow> ldif n ifp;
        if_slowtimo_loop e n (if_next i) })"

definition if_slowtimo :: "env \<Rightarrow> net \<Rightarrow> net option" where
  "if_slowtimo e n = if_slowtimo_loop e n (g_ifnet n)"

partial_function (option) ifinit_loop :: "net \<Rightarrow> addr \<Rightarrow> net option" where
  "ifinit_loop n ifp =
     (if ifp = 0 then Some n
      else do {
        n \<leftarrow> updif n ifp (\<lambda>i. i\<lparr>if_snd := (if_snd i)\<lparr>ifq_maxlen := g_ifqmaxlen n\<rparr>\<rparr>);
        i \<leftarrow> ldif n ifp;
        ifinit_loop n (if_next i) })"

definition ifinit :: "env \<Rightarrow> net \<Rightarrow> net option" where
  "ifinit e n = do { n \<leftarrow> ifinit_loop n (g_ifnet n); if_slowtimo e n }"

end
