(* ===== verification/IfReq.thy ===== *)
theory IfReq
  imports If
begin

text \<open>
  The rest of \<open>net/if.c\<close>: the interface requests \<open>ifconf\<close> and \<open>ifioctl\<close>, and the functions that
  find an interface address.  Comparisons of socket addresses are byte comparisons in the heap, over
  the length that the first address says it has.
\<close>

section \<open>Interface list\<close>

text \<open>Filling in the name of the local request block: \<open>strncpy\<close> of at most fifteen bytes pads with
  zeros and leaves the sixteenth byte alone, and \<open>sprintf\<close> appends at the first zero.\<close>

definition ifconf_name :: "u_char list \<Rightarrow> ifnet \<Rightarrow> u_char list option" where
  "ifconf_name ifr i = do {
     nm \<leftarrow> if_name i;
     let ifr = patch ifr 0 (take 15 nm @ replicate (15 - length nm) 0);
     s \<leftarrow> c_str ifr;
     let d = dec (sint (if_unit i)) @ [0];
     guard (length s + length d \<le> length ifr);
     Some (patch ifr (length s) d) }"

text \<open>\<open>space > sizeof (ifr)\<close> compares in \<open>size_t\<close>.\<close>

definition has_space :: "int \<Rightarrow> bool" where
  "has_space space \<longleftrightarrow> space < 0 \<or> 32 < space"

partial_function (option) ifconf_addrs ::
    "net \<Rightarrow> u_char list \<Rightarrow> addr \<Rightarrow> int \<Rightarrow> addr \<Rightarrow> (net \<times> u_char list \<times> addr \<times> int \<times> addr) option" where
  "ifconf_addrs n ifr ifrp space ifa =
     (if \<not> (has_space space \<and> ifa \<noteq> 0) then Some (n, ifr, ifrp, space, ifa)
      else do {
        a \<leftarrow> ldifa n ifa;
        len \<leftarrow> sa_len n (ifa_addr a);
        (n, ifr, ifrp, space) \<leftarrow>
          (if unat len \<le> sizeof_sockaddr
           then do {
             sa \<leftarrow> nrd n (ifa_addr a) sizeof_sockaddr;
             let ifr = patch ifr 16 sa;
             n \<leftarrow> nwr n ifrp ifr;
             Some (n, ifr, ifrp + 32, space - 32) }
           else do {
             n \<leftarrow> nwr n ifrp (take 16 ifr);
             sa \<leftarrow> nrd n (ifa_addr a) (unat len);
             n \<leftarrow> nwr n (ifrp + 16) sa;
             let l = unat (ifr ! 16);
             Some (n, ifr, ifrp + 16 + l, space - 16 - int l) });
        a \<leftarrow> ldifa n ifa;
        ifconf_addrs n ifr ifrp space (ifa_next a) })"

partial_function (option) ifconf_ifs ::
    "net \<Rightarrow> u_char list \<Rightarrow> addr \<Rightarrow> int \<Rightarrow> addr \<Rightarrow> addr \<Rightarrow> net option" where
  "ifconf_ifs n ifr ifrp space ifa ifp =
     (if \<not> (has_space space \<and> ifp \<noteq> 0) then Some n
      else do {
        i \<leftarrow> ldif n ifp;
        ifr \<leftarrow> ifconf_name ifr i;
        (n, ifr, ifrp, space, ifa) \<leftarrow>
          (if ifa = 0
           then do {
             let ifr = patch ifr 16 (replicate 16 0);
             n \<leftarrow> nwr n ifrp ifr;
             Some (n, ifr, ifrp + 32, space - 32, ifa) }
           else ifconf_addrs n ifr ifrp space ifa);
        i \<leftarrow> ldif n ifp;
        ifconf_ifs n ifr ifrp space ifa (if_next i) })"

text \<open>\<open>junk\<close> is what the uninitialised local request block holds.\<close>

definition ifconf :: "u_char list \<Rightarrow> net \<Rightarrow> ioarg \<Rightarrow> (int \<times> ioarg \<times> net) option" where
  "ifconf junk n data = do {
     len \<leftarrow> req_field data 0 4;
     req \<leftarrow> req_field data 8 8;
     let space = sint (word_of_nat (le_nat len) :: 32 word);
     i \<leftarrow> ldif n (g_ifnet n);
     n \<leftarrow> ifconf_ifs n junk (le_nat req) space (if_addrlist i) (g_ifnet n);
     Some (0, data, n) }"

section \<open>Requests on one interface\<close>

definition ifr_name :: "ioarg \<Rightarrow> u_char list option" where
  "ifr_name d = (case d of Bytes bs \<Rightarrow> c_str bs | Ifa _ \<Rightarrow> None)"

definition ifioctl ::
    "env \<Rightarrow> u_char list \<Rightarrow> socket \<Rightarrow> u_int \<Rightarrow> ioarg \<Rightarrow> net \<Rightarrow> (int \<times> ioarg \<times> net) option" where
  "ifioctl e junk so cmd data n =
     (if cmd = SIOCGIFCONF then ifconf junk n data
      else do {
        name \<leftarrow> ifr_name data;
        ifp \<leftarrow> ifunit n name;
        if cmd = SIOCGIFFLAGS then do {
          i \<leftarrow> ldif n ifp;
          data \<leftarrow> req_store data 16 (nat_le 2 (unat (if_flags i)));
          Some (0, data, n) }
        else if cmd = SIOCGIFMETRIC then do {
          i \<leftarrow> ldif n ifp;
          data \<leftarrow> req_store data 16 (nat_le 4 (unat (ifi_metric (if_data i))));
          Some (0, data, n) }
        else if cmd = SIOCSIFFLAGS then do {
          i \<leftarrow> ldif n ifp;
          fl \<leftarrow> ifr_flags data;
          n \<leftarrow> (if has (if_flags i) IFF_UP \<and> \<not> has fl IFF_UP then if_down e n ifp else Some n);
          i \<leftarrow> ldif n ifp;
          n \<leftarrow> (if \<not> has (if_flags i) IFF_UP \<and> has fl IFF_UP then if_up n ifp else Some n);
          n \<leftarrow> updif n ifp (\<lambda>i. i\<lparr>if_flags := (if_flags i AND IFF_CANTCHANGE) OR (fl AND NOT IFF_CANTCHANGE)\<rparr>);
          i \<leftarrow> ldif n ifp;
          (data, n) \<leftarrow> (if if_ioctl i \<noteq> FNull
                      then do { (_, data, n) \<leftarrow> e_ioctl e (if_ioctl i) ifp cmd data n; Some (data, n) }
                      else Some (data, n));
          Some (0, data, n) }
        else if cmd = SIOCSIFMETRIC then do {
          m \<leftarrow> ifr_metric data;
          n \<leftarrow> updif n ifp (\<lambda>i. i\<lparr>if_data := (if_data i)\<lparr>ifi_metric := m\<rparr>\<rparr>);
          Some (0, data, n) }
        else if so_proto so = 0 then Some (EOPNOTSUPP, data, n)
        else e_usrreq e (so_proto so) PRU_CONTROL cmd data ifp n })"

section \<open>Finding an address\<close>

text \<open>\<open>memcmp (a, b, a->sa_len) == 0\<close>.\<close>

definition sockaddr_equal :: "net \<Rightarrow> addr \<Rightarrow> addr \<Rightarrow> bool option" where
  "sockaddr_equal n a b = do {
     len \<leftarrow> sa_len n a;
     xs \<leftarrow> nrd n a (unat len);
     ys \<leftarrow> nrd n b (unat len);
     Some (xs = ys) }"

text \<open>The nested loops over all addresses of all interfaces: the body of the inner loop as a test,
  and of the outer one as a guard.\<close>

partial_function (option) ifa_search :: "net \<Rightarrow> (ifaddr \<Rightarrow> bool option) \<Rightarrow> addr \<Rightarrow> addr option" where
  "ifa_search n test ifa =
     (if ifa = 0 then Some 0
      else do {
        a \<leftarrow> ldifa n ifa;
        b \<leftarrow> test a;
        if b then Some ifa else ifa_search n test (ifa_next a) })"

partial_function (option) if_search ::
    "net \<Rightarrow> (ifnet \<Rightarrow> bool) \<Rightarrow> (ifaddr \<Rightarrow> bool option) \<Rightarrow> addr \<Rightarrow> addr option" where
  "if_search n ok test ifp =
     (if ifp = 0 then Some 0
      else do {
        i \<leftarrow> ldif n ifp;
        r \<leftarrow> (if ok i then ifa_search n test (if_addrlist i) else Some 0);
        if r \<noteq> 0 then Some r else if_search n ok test (if_next i) })"

definition withaddr_test :: "net \<Rightarrow> addr \<Rightarrow> ifaddr \<Rightarrow> bool option" where
  "withaddr_test n addr a = do {
     b \<leftarrow> sockaddr_equal n addr (ifa_addr a);
     if b then Some True else sockaddr_equal n addr (ifa_dstaddr a) }"

definition ifa_ifwithaddr :: "net \<Rightarrow> addr \<Rightarrow> addr option" where
  "ifa_ifwithaddr n addr = if_search n (\<lambda>_. True) (withaddr_test n addr) (g_ifnet n)"

definition ifa_ifwithaf :: "net \<Rightarrow> int \<Rightarrow> addr option" where
  "ifa_ifwithaf n af = if_search n (\<lambda>_. True)
     (\<lambda>a. map_option (\<lambda>f. af = int (unat f)) (sa_family n (ifa_addr a))) (g_ifnet n)"

definition ifa_ifwithdstaddr :: "net \<Rightarrow> addr \<Rightarrow> addr option" where
  "ifa_ifwithdstaddr n addr = if_search n (\<lambda>i. has (if_flags i) IFF_POINTOPOINT)
     (\<lambda>a. sockaddr_equal n addr (ifa_dstaddr a)) (g_ifnet n)"

text \<open>Comparing \<open>k\<close> bytes under a mask, stopping at the first difference.\<close>

primrec masked_equal :: "net \<Rightarrow> nat \<Rightarrow> addr \<Rightarrow> addr \<Rightarrow> addr \<Rightarrow> bool option" where
  "masked_equal n 0 cp cp2 cp3 = Some True"
| "masked_equal n (Suc k) cp cp2 cp3 = do {
     x \<leftarrow> rd8 n cp; y \<leftarrow> rd8 n cp2; m \<leftarrow> rd8 n cp3;
     if (x XOR y) AND m \<noteq> 0 then Some False
     else masked_equal n k (cp + 1) (cp2 + 1) (cp3 + 1) }"

partial_function (option) withnet_addrs :: "net \<Rightarrow> addr \<Rightarrow> u_char \<Rightarrow> addr \<Rightarrow> addr \<Rightarrow> addr option" where
  "withnet_addrs n addr af maybe ifa =
     (if ifa = 0 then Some maybe
      else do {
        a \<leftarrow> ldifa n ifa;
        f \<leftarrow> sa_family n (ifa_addr a);
        maybe \<leftarrow> (if f \<noteq> af \<or> ifa_netmask a = 0 then Some maybe
                  else do {
                    len \<leftarrow> sa_len n (ifa_netmask a);
                    b \<leftarrow> masked_equal n (unat len) (addr + 2) (ifa_addr a + 2) (ifa_netmask a + 2);
                    if \<not> b then Some maybe
                    else if maybe = 0 then Some ifa
                    else do { m \<leftarrow> ldifa n maybe;
                              Some (if rn_refines (ifa_netmask a) (ifa_netmask m) \<noteq> 0 then ifa else maybe) } });
        withnet_addrs n addr af maybe (ifa_next a) })"

partial_function (option) withnet_ifs :: "net \<Rightarrow> addr \<Rightarrow> u_char \<Rightarrow> addr \<Rightarrow> addr \<Rightarrow> addr option" where
  "withnet_ifs n addr af maybe ifp =
     (if ifp = 0 then Some maybe
      else do {
        i \<leftarrow> ldif n ifp;
        maybe \<leftarrow> withnet_addrs n addr af maybe (if_addrlist i);
        withnet_ifs n addr af maybe (if_next i) })"

definition ifa_ifwithnet :: "net \<Rightarrow> addr \<Rightarrow> addr option" where
  "ifa_ifwithnet n addr = do {
     af \<leftarrow> sa_family n addr;
     idx \<leftarrow> (if af = AF_LINK then map_option (\<lambda>x. int (unat x)) (rd16 n (addr + 2)) else Some 0);
     if idx \<noteq> 0 \<and> idx \<le> g_if_index n
     then do { tab \<leftarrow> g_ifnet_addrs n; guard (nat idx \<le> length tab); Some (tab ! (nat idx - 1)) }
     else withnet_ifs n addr af 0 (g_ifnet n) }"

partial_function (option) ifpforaddr_loop ::
    "net \<Rightarrow> addr \<Rightarrow> u_char \<Rightarrow> addr \<Rightarrow> addr \<Rightarrow> addr option" where
  "ifpforaddr_loop n addr af maybe ifa =
     (if ifa = 0 then Some maybe
      else do {
        a \<leftarrow> ldifa n ifa;
        f \<leftarrow> sa_family n (ifa_addr a);
        if f \<noteq> af then ifpforaddr_loop n addr af maybe (ifa_next a)
        else if ifa_netmask a = 0
        then do {
          b \<leftarrow> sockaddr_equal n addr (ifa_addr a);
          b \<leftarrow> (if b then Some True
                else if ifa_dstaddr a = 0 then Some False
                else sockaddr_equal n addr (ifa_dstaddr a));
          if b then Some ifa else ifpforaddr_loop n addr af ifa (ifa_next a) }
        else do {
          len \<leftarrow> sa_len n (ifa_netmask a);
          b \<leftarrow> (if 2 \<le> unat len
                then masked_equal n (unat len - 2) (addr + 2) (ifa_addr a + 2) (ifa_netmask a + 2)
                else Some False);
          if b then Some ifa else ifpforaddr_loop n addr af ifa (ifa_next a) } })"

definition ifaof_ifpforaddr :: "net \<Rightarrow> addr \<Rightarrow> addr \<Rightarrow> addr option" where
  "ifaof_ifpforaddr n addr ifp = do {
     af \<leftarrow> sa_family n addr;
     if af \<ge> AF_MAX then Some 0
     else do { i \<leftarrow> ldif n ifp; ifpforaddr_loop n addr af 0 (if_addrlist i) } }"

text \<open>\<open>net/route.c\<close>: the loops of \<open>ifa_ifwithroute\<close> have empty bodies.\<close>

definition ifa_ifwithroute :: "net \<Rightarrow> int \<Rightarrow> addr \<Rightarrow> addr \<Rightarrow> addr option" where
  "ifa_ifwithroute n flags dst gateway =
     if_search n (\<lambda>_. True) (\<lambda>_. Some False) (g_ifnet n)"

end
