(* ===== verification/DemoNet.thy ===== *)
theory DemoNet
  imports IfReq
begin

text \<open>
  A concrete network state on which the properties about interfaces are instantiated: the loopback
  interface with a link-level and an internet address in the list, an Ethernet interface that is not
  attached yet, and the heap of \<open>Demo\<close> with the socket addresses.
\<close>

section \<open>Memory\<close>

definition demo_sin :: "u_char list" where
  "demo_sin = [16, 2, 0, 0, 127, 0, 0, 1, 0, 0, 0, 0, 0, 0, 0, 0]"

definition demo_mask :: "u_char list" where
  "demo_mask = [5, 0, 0, 0, 255, 0, 0, 0, 0, 0, 0, 0, 0, 0, 0, 0]"

definition demo_dl :: "u_char list" where
  "demo_dl = [20, 18, 1, 0, 24, 3, 6, 0, 108, 111, 48] @ replicate 9 0 @ [11] @ replicate 7 0 @ [255, 255, 255] @ replicate 9 0"

definition demo_in :: "u_char list" where
  "demo_in = replicate 88 0 @ demo_sin @ demo_sin @ demo_mask @ replicate 8 0"

definition demo_mem :: mem where
  "demo_mem = demo\<lparr>mm_buf := [12288 \<mapsto> [9, 8, 7, 6, 5, 4], 20480 \<mapsto> demo_dl, 24576 \<mapsto> demo_in, 28672 \<mapsto> demo_sin],
     mm_next := 10\<rparr>"

section \<open>Interfaces\<close>

definition zero_ifdata :: ifdata where
  "zero_ifdata = \<lparr>ifi_type = 0, ifi_addrlen = 0, ifi_hdrlen = 0, ifi_mtu = 0, ifi_metric = 0, ifi_baudrate = 0,
     ifi_ipackets = 0, ifi_ierrors = 0, ifi_opackets = 0, ifi_oerrors = 0, ifi_collisions = 0, ifi_ibytes = 0,
     ifi_obytes = 0, ifi_imcasts = 0, ifi_omcasts = 0, ifi_iqdrops = 0, ifi_noproto = 0,
     ifi_lastchange = \<lparr>tv_sec = 0, tv_usec = 0\<rparr>\<rparr>"

definition zero_ifnet :: ifnet where
  "zero_ifnet = \<lparr>if_next = 0, if_addrlist = 0, if_name = None, if_unit = 0, if_index = 0, if_flags = 0, if_timer = 0,
     if_pcount = 0, if_bpf = 0, if_data = zero_ifdata, if_init = FNull, if_output = FNull, if_start = FNull,
     if_done = FNull, if_ioctl = FNull, if_reset = FNull, if_watchdog = FNull, if_snd = empty_q\<rparr>"

definition demo_lo :: ifnet where
  "demo_lo = zero_ifnet\<lparr>if_name := Some [108, 111], if_index := 1, if_flags := IFF_UP OR IFF_LOOPBACK,
     if_addrlist := 32768, if_data := zero_ifdata\<lparr>ifi_type := IFT_LOOP, ifi_mtu := 1536\<rparr>,
     if_output := F_looutput, if_ioctl := F_loioctl\<rparr>"

definition demo_le :: ifnet where
  "demo_le = zero_ifnet\<lparr>if_name := Some [108, 101], if_flags := IFF_BROADCAST OR IFF_SIMPLEX,
     if_output := F_ether_output, if_ioctl := F_leioctl\<rparr>"

definition demo_ia :: in_part where
  "demo_ia = \<lparr>ia_net = 0x7F000000, ia_netmask = 0xFF000000, ia_subnet = 0x7F000000, ia_subnetmask = 0xFF000000,
     ia_netbroadcast = 0, ia_next = 0, ia_multiaddrs = 0\<rparr>"

definition demo_net :: net where
  "demo_net = \<lparr>n_mem = demo_mem, n_if = [8 \<mapsto> demo_lo, 16 \<mapsto> demo_le],
     n_ifa = [32768 \<mapsto> zero_ifaddr\<lparr>ifa_next := 24576, ifa_ifp := 8, ifa_addr := 20480, ifa_netmask := 20500\<rparr>,
              24576 \<mapsto> zero_ifaddr\<lparr>ifa_ifp := 8, ifa_addr := 24664, ifa_dstaddr := 24680, ifa_netmask := 24696,
                ifa_in := Some demo_ia\<rparr>],
     n_rt = Map.empty, n_ac = [16 \<mapsto> \<lparr>ac_enaddr = [8, 0, 9, 1, 2, 3], ac_ipaddr = 0, ac_multiaddrs = 0, ac_multicnt = 0\<rparr>],
     n_inm = Map.empty, n_enm = Map.empty,
     g_ifnet = 8, g_if_index = 1, g_if_indexlim = 8, g_ifnet_addrs = Some [32768, 0, 0, 0, 0, 0, 0, 0],
     g_ifqmaxlen = 50, g_in_ifaddr = 24576, g_in_interfaces = 1, g_subnetsarelocal = 1,
     g_ipintrq = empty_q, g_arpintrq = empty_q, g_time = \<lparr>tv_sec = 100, tv_usec = 5\<rparr>\<rparr>"

text \<open>Protocols and drivers that accept every call and do nothing.\<close>

definition demo_env :: env where
  "demo_env = \<lparr>e_dtab = \<lparr>d_dom = Map.empty, d_pro = Map.empty, domains = 0\<rparr>,
     e_ctl = (\<lambda>_ _ _ _ n. Some n), e_usrreq = (\<lambda>_ _ _ d _ n. Some (0, d, n)),
     e_ioctl = (\<lambda>_ _ _ d n. Some (0, d, n)), e_watchdog = (\<lambda>_ _ n. Some n),
     e_start = (\<lambda>_ _ n. Some n)\<rparr>"

definition demo_so :: socket where
  "demo_so = \<lparr>so_type = 2, so_options = 0, so_linger = 0, so_state = 0, so_pcb = 0, so_proto = 0\<rparr>"

section \<open>Lookups\<close>

lemma demo_net_sel [simp]:
  "n_mem demo_net = demo_mem" "g_ifnet demo_net = 8" "g_if_index demo_net = 1" "g_if_indexlim demo_net = 8"
  "g_ifnet_addrs demo_net = Some [32768, 0, 0, 0, 0, 0, 0, 0]" "g_in_ifaddr demo_net = 24576"
  "g_in_interfaces demo_net = 1" "g_ipintrq demo_net = empty_q" "g_arpintrq demo_net = empty_q"
  "g_time demo_net = \<lparr>tv_sec = 100, tv_usec = 5\<rparr>" "g_subnetsarelocal demo_net = 1" "g_ifqmaxlen demo_net = 50"
  "n_rt demo_net = Map.empty" "n_inm demo_net = Map.empty" "n_enm demo_net = Map.empty"
  by (simp_all add: demo_net_def)

lemma demo_net_if [simp]: "ldif demo_net 8 = Some demo_lo" "ldif demo_net 16 = Some demo_le"
  by (simp_all add: demo_net_def ldif_def)

lemma demo_net_ifa [simp]:
  "ldifa demo_net 32768 = Some (zero_ifaddr\<lparr>ifa_next := 24576, ifa_ifp := 8, ifa_addr := 20480, ifa_netmask := 20500\<rparr>)"
  "ldifa demo_net 24576 = Some (zero_ifaddr\<lparr>ifa_ifp := 8, ifa_addr := 24664, ifa_dstaddr := 24680, ifa_netmask := 24696,
     ifa_in := Some demo_ia\<rparr>)"
  by (simp_all add: demo_net_def ldifa_def)

lemma demo_net_ia [simp]: "ldia demo_net 24576 = Some demo_ia"
  by (simp add: ldia_def)

lemma demo_if_fields [simp]:
  "if_next demo_lo = 0" "if_addrlist demo_lo = 32768" "if_name demo_lo = Some [108, 111]" "if_unit demo_lo = 0"
  "if_index demo_lo = 1" "if_flags demo_lo = 9" "if_timer demo_lo = 0" "if_ioctl demo_lo = F_loioctl"
  "if_bpf demo_lo = 0" "if_snd demo_lo = empty_q"
  "if_next demo_le = 0" "if_addrlist demo_le = 0" "if_name demo_le = Some [108, 101]" "if_unit demo_le = 0"
  "if_index demo_le = 0" "if_flags demo_le = 0x802" "if_timer demo_le = 0" "if_ioctl demo_le = F_leioctl"
  "if_bpf demo_le = 0" "if_snd demo_le = empty_q"
  by (simp_all add: demo_lo_def demo_le_def zero_ifnet_def IFF_UP_def IFF_LOOPBACK_def IFF_BROADCAST_def IFF_SIMPLEX_def)

lemma zero_ifaddr_fields [simp]:
  "ifa_next zero_ifaddr = 0" "ifa_dstaddr zero_ifaddr = 0" "ifa_netmask zero_ifaddr = 0" "ifa_in zero_ifaddr = None"
  "ifa_refcnt zero_ifaddr = 0" "ifa_flags zero_ifaddr = 0"
  by (simp_all add: zero_ifaddr_def)

lemma demo_mem_fields [simp]:
  "mm_mbuf demo_mem = mm_mbuf demo" "mm_next demo_mem = 10" "mm_quota demo_mem = 20" "mm_junk demo_mem = mm_junk demo"
  "mm_buf demo_mem 12288 = Some [9, 8, 7, 6, 5, 4]" "mm_buf demo_mem 20480 = Some demo_dl"
  "mm_buf demo_mem 24576 = Some demo_in" "mm_buf demo_mem 28672 = Some demo_sin"
  by (simp_all add: demo_mem_def)

lemma demo_mem_ld [simp]: "ld demo_mem p = ld demo p"
  by (simp add: ld_def)

lemma demo_ld_none: "ld demo 20480 = None" "ld demo 24576 = None" "ld demo 28672 = None"
  by (simp_all add: ld_def demo_def)

lemma demo_mem_wf: "wf_mem demo_mem"
  by (simp add: wf_mem_def demo_mem_def demo_def demo_b1_def demo_b2_def demo_b3_def demo_dl_def demo_in_def
      demo_sin_def demo_mask_def)

lemma demo_mem_ok [simp]: "malloc_ok demo_mem"
  by (simp add: malloc_ok_def)

lemma demo_dec_0: "dec 0 = [48]" "ifunit_name demo_lo = Some [108, 111, 48]" "ifunit_name demo_le = Some [108, 101, 48]"
  by (simp_all add: dec_def digits.simps ifunit_name_def)

end
