(* ===== verification/IfProps.thy ===== *)
theory IfProps
  imports DemoNet
begin

text \<open>
  What the interface operations guarantee: the interface list with its index table as an
  invariant that \<open>if_attach\<close> extends, the lookups by name and by address as searches of those
  lists, the interface requests, and the timers.
\<close>

section \<open>Interface lists\<close>

definition if_next_of :: "net \<Rightarrow> addr \<Rightarrow> addr option" where
  "if_next_of n p = map_option if_next (ldif n p)"

definition ifa_next_of :: "net \<Rightarrow> addr \<Rightarrow> addr option" where
  "ifa_next_of n p = map_option ifa_next (ldifa n p)"

lemma if_next_of_Some: "ldif n p = Some i \<Longrightarrow> if_next_of n p = Some (if_next i)"
  by (simp add: if_next_of_def)

lemma ifa_next_of_Some: "ldifa n p = Some a \<Longrightarrow> ifa_next_of n p = Some (ifa_next a)"
  by (simp add: ifa_next_of_def)

lemma ifchain_Cons:
  "chain (if_next_of n) p (a # as) \<longleftrightarrow> p = a \<and> (\<exists>i. ldif n a = Some i \<and> chain (if_next_of n) (if_next i) as)"
  by (cases "ldif n a") (auto simp: chain.simps if_next_of_Some dest: ldif_nz, auto simp: if_next_of_def)

lemma ifachain_Cons:
  "chain (ifa_next_of n) p (a # as) \<longleftrightarrow> p = a \<and> (\<exists>i. ldifa n a = Some i \<and> chain (ifa_next_of n) (ifa_next i) as)"
  by (cases "ldifa n a") (auto simp: chain.simps ifa_next_of_Some dest: ldifa_nz, auto simp: ifa_next_of_def)

lemma if_next_of_upd:
  "if_next_of (n\<lparr>n_if := (n_if n)(p \<mapsto> i)\<rparr>) q = (if q = p \<and> p \<noteq> 0 then Some (if_next i) else if_next_of n q)"
  by (simp add: if_next_of_def)

interpretation units: list_search "if_next_of n" "\<lambda>p. map_option (\<lambda>s. name = s) (ldif n p \<bind> ifunit_name)"
  "ifunit_loop n name" for n name
proof unfold_locales
  show "ifunit_loop n name 0 = Some 0"
    by (subst ifunit_loop.simps) simp
next
  fix p q b
  assume "p \<noteq> 0" "if_next_of n p = Some q" "map_option (\<lambda>s. name = s) (ldif n p \<bind> ifunit_name) = Some b"
  then show "ifunit_loop n name p = (if b then Some p else ifunit_loop n name q)"
    by (subst ifunit_loop.simps) (auto simp: if_next_of_def split: Option.bind_splits)
qed

interpretation ifas: list_search "ifa_next_of n" "\<lambda>p. ldifa n p \<bind> test" "ifa_search n test" for n test
proof unfold_locales
  show "ifa_search n test 0 = Some 0"
    by (subst ifa_search.simps) simp
next
  fix p q b
  assume "p \<noteq> 0" "ifa_next_of n p = Some q" "ldifa n p \<bind> test = Some b"
  then show "ifa_search n test p = (if b then Some p else ifa_search n test q)"
    by (subst ifa_search.simps) (auto simp: ifa_next_of_def split: Option.bind_splits)
qed

definition if_fullname :: "net \<Rightarrow> addr \<Rightarrow> u_char list option" where
  "if_fullname n p = ldif n p \<bind> ifunit_name"

definition ifs_named :: "net \<Rightarrow> addr list \<Rightarrow> bool" where
  "ifs_named n ifs \<longleftrightarrow> chain (if_next_of n) (g_ifnet n) ifs \<and> (\<forall>p\<in>set ifs. if_fullname n p \<noteq> None)"

lemma ifunit_search:
  assumes "ifs_named n ifs"
  shows "ifunit n name = Some (case find (\<lambda>p. if_fullname n p = Some name) ifs of None \<Rightarrow> 0 | Some p \<Rightarrow> p)"
proof -
  have "(map_option (\<lambda>s. name = s) (ldif n p \<bind> ifunit_name) = Some True) = (if_fullname n p = Some name)" for p
    by (auto simp: if_fullname_def)
  then show ?thesis
    unfolding ifunit_def using units.srch_chain [of n "g_ifnet n" ifs name] assms
    by (fastforce simp: if_fullname_def ifs_named_def)
qed

text \<open>C29: \<open>ifunit\<close> returns the first interface in the list whose name followed by its unit number in
  decimal is the name asked for, and \<open>NULL\<close> if there is none.\<close>

theorem ifunit_finds:
  assumes "ifs_named n ifs"
  shows "ifunit n name = Some (case find (\<lambda>p. if_fullname n p = Some name) ifs of None \<Rightarrow> 0 | Some p \<Rightarrow> p)"
  using assms by (rule ifunit_search)

lemma demo_ifs_named: "ifs_named demo_net [8]"
  by (simp add: ifs_named_def ifchain_Cons if_fullname_def demo_dec_0)

theorem ifunit_finds_witness: "ifunit demo_net [108, 111, 48] = Some 8 \<and> ifunit demo_net [108, 101, 48] = Some 0"
  by (simp add: ifunit_finds [OF demo_ifs_named] if_fullname_def demo_dec_0)

section \<open>Attaching\<close>

definition net_wf :: "net \<Rightarrow> bool" where
  "net_wf n \<longleftrightarrow> wf_mem (n_mem n) \<and> (\<forall>a b. n_ifa n a = Some b \<longrightarrow> 0 < a \<and> a div 4096 < mm_next (n_mem n))"

text \<open>A link-level address is followed by its mask in one block, whose last byte is never written.\<close>

definition link_level :: "net \<Rightarrow> addr \<Rightarrow> bool" where
  "link_level n fa \<longleftrightarrow> (\<exists>a bs. ldifa n fa = Some a \<and> ifa_dstaddr a = 0 \<and> ifa_netmask a = ifa_addr a + sizeof_sockaddr_dl \<and>
     mm_buf (n_mem n) (ifa_addr a) = Some bs \<and> length bs = 40 \<and> bs ! 39 = 0)"

lemma link_level_if [simp]: "link_level (n\<lparr>n_if := f\<rparr>) a = link_level n a"
  by (simp add: link_level_def)

definition if_entry :: "net \<Rightarrow> addr list \<Rightarrow> addr list \<Rightarrow> nat \<Rightarrow> bool" where
  "if_entry n ifs tab k \<longleftrightarrow> (\<exists>i a. ldif n (ifs ! k) = Some i \<and> if_index i = word_of_nat (Suc k) \<and>
     if_addrlist i = tab ! k \<and> ldifa n (tab ! k) = Some a \<and> ifa_ifp a = ifs ! k \<and> link_level n (tab ! k))"

text \<open>The table starts with eight entries and is doubled when it is full.\<close>

definition table_size :: "int \<Rightarrow> bool" where
  "table_size L \<longleftrightarrow> (\<exists>j. L = 8 * 2 ^ j)"

lemma table_size_ge: "table_size L \<Longrightarrow> 8 \<le> L"
  by (auto simp: table_size_def)

lemma table_size_8 [simp]: "table_size 8"
  unfolding table_size_def by (rule exI [of _ 0]) simp

lemma table_size_double: "table_size L \<Longrightarrow> table_size (2 * L)"
  unfolding table_size_def by (metis mult.left_commute power_Suc)

definition iflist :: "net \<Rightarrow> addr list \<Rightarrow> bool" where
  "iflist n ifs \<longleftrightarrow> chain (if_next_of n) (g_ifnet n) ifs \<and> g_if_index n = int (length ifs) \<and>
     table_size (g_if_indexlim n) \<and> int (length ifs) \<le> g_if_indexlim n \<and>
     (case g_ifnet_addrs n of None \<Rightarrow> ifs = []
      | Some tab \<Rightarrow> length tab = nat (g_if_indexlim n) \<and> (\<forall>k<length ifs. if_entry n ifs tab k))"

lemma if_attach_last_chain:
  "chain (if_next_of n) p (ps @ [q]) \<Longrightarrow> if_attach_last n p = Some q"
proof (induction ps arbitrary: p)
  case Nil
  then show ?case
    by (subst if_attach_last.simps) (auto simp: ifchain_Cons)
next
  case (Cons a ps)
  then obtain i where a: "p = a" "ldif n a = Some i" "chain (if_next_of n) (if_next i) (ps @ [q])"
    by (auto simp: ifchain_Cons)
  then have "if_next i \<noteq> 0" by (cases ps) (auto simp: chain.simps)
  with a Cons.IH [OF a(3)] show ?case
    by (subst if_attach_last.simps) simp
qed

text \<open>Only link fields and the head of the list differ, and not the link of \<open>ifp\<close> itself.\<close>

definition relinked :: "net \<Rightarrow> addr \<Rightarrow> net \<Rightarrow> bool" where
  "relinked n ifp n' \<longleftrightarrow> n' = n\<lparr>n_if := n_if n', g_ifnet := g_ifnet n'\<rparr> \<and> n_if n' ifp = n_if n ifp \<and>
     (\<forall>p j. ldif n p = Some j \<longrightarrow> (\<exists>x. ldif n' p = Some (j\<lparr>if_next := x\<rparr>)))"

lemma ifnet_same: "\<exists>x. j = j\<lparr>if_next := x\<rparr>" for j :: ifnet
  by (rule exI [of _ "if_next j"]) simp

lemma if_attach_link_chain:
  assumes "chain (if_next_of n) (g_ifnet n) ifs" "ldif n ifp = Some i" "if_next i = 0" "ifp \<notin> set ifs"
  shows "\<exists>n'. if_attach_link n ifp = Some n' \<and> chain (if_next_of n') (g_ifnet n') (ifs @ [ifp]) \<and> relinked n ifp n' \<and>
    (\<forall>p. p \<notin> set ifs \<longrightarrow> ldif n' p = ldif n p)"
proof (cases ifs rule: rev_cases)
  case Nil
  let ?n = "n\<lparr>g_ifnet := ifp\<rparr>"
  have ld: "ldif ?n p = ldif n p" for p by (simp add: ldif_def)
  have "relinked n ifp ?n"
    unfolding relinked_def ld using ifnet_same by auto
  moreover have "chain (if_next_of ?n) ifp [ifp]"
    using assms ld by (simp add: ifchain_Cons)
  ultimately show ?thesis
    using assms Nil ld by (intro exI [of _ ?n]) (auto simp: if_attach_link_def)
next
  case (snoc ps q)
  have nz: "g_ifnet n \<noteq> 0" using assms(1) snoc by (cases ps) (auto simp: chain.simps)
  obtain r where r: "path (if_next_of n) (g_ifnet n) ps r" "chain (if_next_of n) r [q]"
    using assms(1) unfolding snoc chain_append by blast
  then obtain j where q: "r = q" "q \<noteq> 0" "ldif n q = Some j" "if_next j = 0"
    by (auto simp: ifchain_Cons dest: ldif_nz)
  let ?n = "n\<lparr>n_if := (n_if n)(q \<mapsto> j\<lparr>if_next := ifp\<rparr>)\<rparr>"
  have dist: "distinct (ps @ [q])" using chain_distinct [OF assms(1)] snoc by simp
  have link: "if_attach_link n ifp = Some ?n"
    using nz q(3) if_attach_last_chain [OF assms(1) [unfolded snoc]]
    by (simp add: if_attach_link_def updif_eq)
  have eq: "if_next_of ?n = (if_next_of n)(q \<mapsto> ifp)"
    using q(2) by (auto simp: if_next_of_upd fun_eq_iff)
  have "chain (if_next_of n) ifp [ifp]"
    using assms by (simp add: ifchain_Cons)
  then have "chain ((if_next_of n)(q \<mapsto> ifp)) (g_ifnet n) (ps @ q # [ifp])"
    using r(1) q dist assms(4) snoc by (intro chain_snoc_upd) auto
  then have "chain (if_next_of ?n) (g_ifnet ?n) (ifs @ [ifp])"
    unfolding eq by (simp add: snoc)
  moreover have "relinked n ifp ?n"
    unfolding relinked_def using q snoc assms(4) ifnet_same by auto
  moreover have "\<forall>p. p \<notin> set ifs \<longrightarrow> ldif ?n p = ldif n p" using q(1) snoc by simp
  ultimately show ?thesis using link by (intro exI [of _ ?n] conjI)
qed

text \<open>Writing into the block of the link-level address.\<close>

definition dl_state :: "net \<Rightarrow> addr \<Rightarrow> net \<Rightarrow> bool" where
  "dl_state n dl n' \<longleftrightarrow> n' = n\<lparr>n_mem := n_mem n'\<rparr> \<and> wf_mem (n_mem n') \<and>
     mm_next (n_mem n') = mm_next (n_mem n) \<and> mm_quota (n_mem n') = mm_quota (n_mem n) \<and>
     (\<forall>B. B \<noteq> dl \<longrightarrow> mm_buf (n_mem n') B = mm_buf (n_mem n) B) \<and>
     (\<exists>bs. mm_buf (n_mem n') dl = Some bs \<and> length bs = 40 \<and> bs ! 39 = 0)"

lemma nth_patch_after: "off + length ys \<le> k \<Longrightarrow> k < length xs \<Longrightarrow> patch xs off ys ! k = xs ! k"
  by (auto simp: patch_def nth_append)

lemma nwr_dl:
  assumes "dl_state n dl m" "k + length xs \<le> 39"
  shows "\<exists>m'. nwr m (dl + k) xs = Some m' \<and> dl_state n dl m'"
proof -
  from assms(1) obtain bs where b: "mm_buf (n_mem m) dl = Some bs" "length bs = 40" "bs ! 39 = 0" and wf: "wf_mem (n_mem m)"
    and m: "m = n\<lparr>n_mem := n_mem m\<rparr>"
    by (auto simp: dl_state_def)
  from wf b(1) have dl: "dl mod 4096 = 0" "dl \<noteq> 0" "dl div 4096 < mm_next (n_mem m)"
    by (auto simp: wf_mem_def)
  have none: "mm_mbuf (n_mem m) dl = None"
    using wf b(1) unfolding wf_mem_def by (metis not_Some_eq)
  let ?bs = "patch bs k xs"
  have len: "length ?bs = 40" "?bs ! 39 = 0" using b assms(2) nth_patch_after [of k xs 39 bs] by simp_all
  have "wr (n_mem m) (dl + k) xs = Some (wb (n_mem m) dl ?bs)"
    using b none dl assms(2) by (intro wr_buf) (auto simp: ld_def)
  then have "nwr m (dl + k) xs = Some (m\<lparr>n_mem := wb (n_mem m) dl ?bs\<rparr>)" by (simp add: nwr_def)
  moreover have wf': "wf_mem (wb (n_mem m) dl ?bs)"
    using wf dl none len by (intro wf_wb) auto
  have "dl_state n dl (m\<lparr>n_mem := wb (n_mem m) dl ?bs\<rparr>)"
  proof -
    have "m\<lparr>n_mem := h\<rparr> = n\<lparr>n_mem := h\<rparr>" for h by (subst m) simp
    with wf' show ?thesis
      using assms(1) len by (auto simp: dl_state_def wb_def)
  qed
  ultimately show ?thesis by blast
qed

lemma if_attach_dl_ok:
  assumes "dl_state n dl n" "if_name i = Some nm" "length nm + length (dec (sint (if_unit i))) \<le> 11"
  shows "\<exists>n'. if_attach_dl n dl i = Some n' \<and> dl_state n dl n'"
proof -
  let ?s = "nm @ dec (sint (if_unit i))" and ?l = "word_of_nat (length (nm @ dec (sint (if_unit i)))) :: u_char"
  have byte: "unat (word_of_nat k :: u_char) = k" if "k \<le> 11" for k
    using that by (simp add: unat_of_nat take_bit_nat_eq_self)
  have l: "unat ?l = length ?s"
    by (rule byte) (use assms(3) in simp)
  obtain n1 where n1: "nwr n dl [20, AF_LINK] = Some n1" "dl_state n dl n1"
    using nwr_dl [OF assms(1), of 0 "[20, AF_LINK]"] by auto
  obtain n2 where n2: "nwr n1 (dl + 2) (nat_le 2 (unat (if_index i))) = Some n2" "dl_state n dl n2"
    using nwr_dl [OF n1(2), of 2 "nat_le 2 (unat (if_index i))"] by auto
  obtain n3 where n3: "nwr n2 (dl + 4) [ifi_type (if_data i)] = Some n3" "dl_state n dl n3"
    using nwr_dl [OF n2(2), of 4 "[ifi_type (if_data i)]"] by auto
  obtain n4 where n4: "nwr n3 (dl + 8) (?s @ [0]) = Some n4" "dl_state n dl n4"
    using nwr_dl [OF n3(2), of 8 "?s @ [0]"] assms(3) by auto
  obtain n5 where n5: "nwr n4 (dl + 5) [?l, 6, 0] = Some n5" "dl_state n dl n5"
    using nwr_dl [OF n4(2), of 5 "[?l, 6, 0]"] by auto
  obtain n6 where n6: "nwr n5 (dl + 20) [word_of_nat (8 + unat ?l)] = Some n6" "dl_state n dl n6"
    using nwr_dl [OF n5(2), of 20 "[word_of_nat (8 + unat ?l)]"] by auto
  obtain n7 where n7: "nwr n6 (dl + 28) (replicate (unat ?l) 0xff) = Some n7" "dl_state n dl n7"
    using nwr_dl [OF n6(2), of 28 "replicate (unat ?l) 0xff"] assms(3) unfolding l by auto
  have "if_attach_dl n dl i = Some n7"
    unfolding if_attach_dl_def Let_def using n1(1) n2(1) n3(1) n4(1) n5(1) n6(1) n7(1) assms(2) by simp
  with n7(2) show ?thesis by blast
qed

lemma wf_frame:
  "wf_mem h \<Longrightarrow> malloc_ok h \<Longrightarrow> wf_mem ((took h)\<lparr>mm_buf := (mm_buf h)(fresh h \<mapsto> replicate 40 0)\<rparr>)"
  using wf_fresh [of h] unfolding wf_mem_def by (auto simp: fresh_def took_def less_SucI)

text \<open>Growing the table keeps its entries and makes room for one more.\<close>

definition tab_ok :: "net \<Rightarrow> addr list \<Rightarrow> bool" where
  "tab_ok n ifs \<longleftrightarrow> g_if_index n = int (length ifs) \<and> table_size (g_if_indexlim n) \<and> int (length ifs) \<le> g_if_indexlim n \<and>
     (case g_ifnet_addrs n of None \<Rightarrow> ifs = []
      | Some tab \<Rightarrow> length tab = nat (g_if_indexlim n) \<and> (\<forall>k<length ifs. if_entry n ifs tab k))"

lemma iflist_tab: "iflist n ifs \<longleftrightarrow> chain (if_next_of n) (g_ifnet n) ifs \<and> tab_ok n ifs"
  by (simp add: iflist_def tab_ok_def)

lemma if_entry_cong:
  "n_if n' = n_if n \<Longrightarrow> n_ifa n' = n_ifa n \<Longrightarrow> mm_buf (n_mem n') = mm_buf (n_mem n) \<Longrightarrow>
   if_entry n' ifs tab k = if_entry n ifs tab k"
  by (simp add: if_entry_def link_level_def ldif_def ldifa_def)

lemma if_entry_tab: "tab' ! k = tab ! k \<Longrightarrow> if_entry n ifs tab k \<Longrightarrow> if_entry n ifs tab' k"
  by (simp add: if_entry_def)

lemma if_attach_grow_ok:
  assumes "tab_ok n ifs" "wf_mem (n_mem n)" "2 \<le> mm_quota (n_mem n)" "mm_next (n_mem n) + 2 < 2 ^ 50"
  shows "\<exists>n' tab. if_attach_grow n = Some n' \<and>
    n' = n\<lparr>n_mem := n_mem n', g_if_indexlim := g_if_indexlim n', g_ifnet_addrs := Some tab\<rparr> \<and> wf_mem (n_mem n') \<and>
    mm_buf (n_mem n') = mm_buf (n_mem n) \<and> mm_next (n_mem n) \<le> mm_next (n_mem n') \<and> mm_next (n_mem n') \<le> mm_next (n_mem n) + 2 \<and>
    mm_quota (n_mem n) \<le> mm_quota (n_mem n') + 2 \<and>
    table_size (g_if_indexlim n') \<and> int (length ifs) < g_if_indexlim n' \<and> length tab = nat (g_if_indexlim n') \<and>
    (\<forall>k<length ifs. if_entry n ifs tab k)"
proof -
  let ?h = "n_mem n" and ?L = "g_if_indexlim n"
  have ok: "malloc_ok ?h" "malloc_ok (took ?h)"
    using assms(3,4) by (simp_all add: malloc_ok_def took_def)
  obtain n1 tab where n1: "n1 = n\<lparr>n_mem := n_mem n1, g_ifnet_addrs := Some tab\<rparr>" "wf_mem (n_mem n1)"
      "mm_buf (n_mem n1) = mm_buf ?h"
      "mm_next ?h \<le> mm_next (n_mem n1)" "mm_next (n_mem n1) \<le> mm_next ?h + 1" "mm_quota ?h \<le> mm_quota (n_mem n1) + 1"
      "malloc_ok (n_mem n1)" "length tab = nat ?L" "\<forall>k<length ifs. if_entry n ifs tab k"
      "(if g_ifnet_addrs n = None \<and> malloc_ok (n_mem n)
        then n\<lparr>n_mem := took (n_mem n), g_ifnet_addrs := Some (replicate (nat (g_if_indexlim n)) 0)\<rparr> else n) = n1"
  proof (cases "g_ifnet_addrs n")
    case None
    then have "ifs = []" using assms(1) by (simp add: tab_ok_def)
    with None ok that [of "n\<lparr>n_mem := took ?h, g_ifnet_addrs := Some (replicate (nat ?L) 0)\<rparr>" "replicate (nat ?L) 0"]
      wf_took [OF assms(2)] show ?thesis by (simp add: took_def)
  next
    case (Some tab)
    with assms ok that [of n tab] show ?thesis by (simp add: tab_ok_def)
  qed
  have L: "g_if_indexlim n1 = ?L" "g_if_index n1 = int (length ifs)" "g_ifnet_addrs n1 = Some tab"
    using assms(1) by (subst n1(1), simp add: tab_ok_def)+
  show ?thesis
  proof (cases "int (length ifs) \<ge> ?L")
    case False
    then have "if_attach_grow n = Some n1"
      unfolding if_attach_grow_def Let_def n1(10) using L by simp
    moreover have "n1 = n\<lparr>n_mem := n_mem n1, g_if_indexlim := g_if_indexlim n1, g_ifnet_addrs := Some tab\<rparr>"
      unfolding L(1) using n1(1) by simp
    ultimately show ?thesis
      using n1 False assms(1) L(1) by (intro exI [of _ n1] exI [of _ tab]) (simp add: tab_ok_def)
  next
    case True
    let ?half = "nat (2 * ?L) div 2"
    let ?tab = "take ?half (tab @ replicate (nat (2 * ?L) - length tab) 0) @ replicate (nat (2 * ?L) - ?half) 0"
    let ?n = "n1\<lparr>n_mem := took (n_mem n1), g_if_indexlim := 2 * ?L, g_ifnet_addrs := Some ?tab\<rparr>"
    have sz: "table_size ?L" using assms(1) by (simp add: tab_ok_def)
    note pos = table_size_ge [OF sz]
    have half: "?half = nat ?L" by simp
    have "if_attach_grow n = Some ?n"
      unfolding if_attach_grow_def Let_def n1(10) using L True n1(7) by simp
    moreover have "?n = n\<lparr>n_mem := n_mem ?n, g_if_indexlim := g_if_indexlim ?n, g_ifnet_addrs := Some ?tab\<rparr>"
      by (subst n1(1)) simp
    moreover have "wf_mem (n_mem ?n)" using wf_took [OF n1(2)] by simp
    moreover have "mm_next (n_mem n) \<le> mm_next (n_mem ?n)" "mm_next (n_mem ?n) \<le> mm_next (n_mem n) + 2"
      "mm_quota (n_mem n) \<le> mm_quota (n_mem ?n) + 2"
      using n1(4-6) by (simp_all add: took_def)
    moreover have "mm_buf (n_mem ?n) = mm_buf (n_mem n)" using n1(3) by (simp add: took_def)
    moreover have "table_size (g_if_indexlim ?n)" "int (length ifs) < g_if_indexlim ?n"
      using pos assms(1) table_size_double [OF sz] by (simp_all add: tab_ok_def)
    moreover have "length ?tab = nat (g_if_indexlim ?n)" using n1(8) pos by simp
    moreover have "\<forall>k<length ifs. if_entry n ifs ?tab k"
    proof (intro allI impI)
      fix k assume k: "k < length ifs"
      have "int (length ifs) \<le> ?L" using assms(1) by (simp add: tab_ok_def)
      then have "k < nat ?L" using k by linarith
      then have "?tab ! k = tab ! k" using n1(8) by (simp add: half nth_append)
      then show "if_entry n ifs ?tab k" by (rule if_entry_tab) (use n1(9) k in blast)
    qed
    ultimately show ?thesis by (intro exI [of _ ?n] exI [of _ ?tab] conjI)
  qed
qed

text \<open>The steps of \<open>if_attach\<close> after the table has room: the interface and the two new objects.\<close>

definition same_setup :: "ifnet \<Rightarrow> ifnet \<Rightarrow> bool" where
  "same_setup i i' \<longleftrightarrow> if_next i' = if_next i \<and> if_name i' = if_name i \<and> if_unit i' = if_unit i \<and>
     if_timer i' = if_timer i \<and> if_snd i' = if_snd i"

definition attached :: "net \<Rightarrow> addr \<Rightarrow> ifnet \<Rightarrow> addr list \<Rightarrow> net \<Rightarrow> bool" where
  "attached n ifp i tab n' \<longleftrightarrow> (\<exists>i' fa a h.
     n' = n\<lparr>n_mem := h, n_if := (n_if n)(ifp \<mapsto> i'), n_ifa := (n_ifa n)(fa \<mapsto> a),
            g_if_index := g_if_index n + 1, g_ifnet_addrs := Some (tab[nat (g_if_index n) := fa])\<rparr> \<and>
     same_setup i i' \<and> if_index i' = word_of_int (g_if_index n + 1) \<and> if_addrlist i' = fa \<and> ifa_ifp a = ifp \<and>
     link_level n' fa \<and> (\<forall>B bs. mm_buf (n_mem n) B = Some bs \<longrightarrow> mm_buf h B = Some bs) \<and>
     fa = fresh (n_mem n) \<and> wf_mem h \<and> mm_next h = mm_next (n_mem n) + 2 \<and> mm_quota (n_mem n) \<le> mm_quota h + 2)"

lemma updif_same: "p \<noteq> 0 \<Longrightarrow> updif (n\<lparr>n_if := (n_if m)(p \<mapsto> i)\<rparr>) p f = Some (n\<lparr>n_if := (n_if m)(p \<mapsto> f i)\<rparr>)"
  by (simp add: updif_def ldif_def)

lemma wf_calloc:
  assumes "wf_mem h" "malloc_ok h"
  shows "wf_mem ((took h)\<lparr>mm_buf := (mm_buf h)(fresh h \<mapsto> replicate 40 0)\<rparr>)"
  using wf_frame [OF assms] .

lemma if_attach_addr_steps:
  assumes "updif (n\<lparr>g_if_index := g_if_index n + 1\<rparr>) ifp (\<lambda>i. i\<lparr>if_index := word_of_int (g_if_index n + 1)\<rparr>) = Some n4"
    "calloc_ifaddr n4 = (fa, n5)" "updif n5 ifp (\<lambda>i. i\<lparr>if_addrlist := fa\<rparr>) = Some n6"
    "calloc_buf n6 (2 * sizeof_sockaddr_dl) = (dl, n7)" "ldif n7 ifp = Some i"
    "updifa n7 fa (\<lambda>a. a\<lparr>ifa_next := 0, ifa_ifp := ifp, ifa_addr := dl, ifa_rtrequest := FNull,
            ifa_flags := if_flags i, ifa_refcnt := ifa_refcnt a + 1,
            ifa_metric := sint (ifi_metric (if_data i))\<rparr>) = Some n8"
    "if_attach_dl n8 dl i = Some n9" "updifa n9 fa (\<lambda>a. a\<lparr>ifa_netmask := dl + sizeof_sockaddr_dl\<rparr>) = Some n10"
    "g_ifnet_addrs n10 = Some tab" "g_if_index n10 = k" "1 \<le> k \<and> nat k \<le> length tab" "nat k - 1 = j"
  shows "if_attach_addr n ifp =
    (let n = n10\<lparr>g_ifnet_addrs := Some (tab[j := fa])\<rparr>
     in if if_output i = F_ether_output then ether_ifattach n ifp else Some n)"
  using assms by (simp add: if_attach_addr_def)

lemma if_attach_rest:
  fixes n :: net and ifp :: addr
  assumes wf: "wf_mem (n_mem n)" and i: "ldif n ifp = Some i" and nm: "if_name i = Some nm"
    "length nm + length (dec (sint (if_unit i))) \<le> 11"
    and q: "2 \<le> mm_quota (n_mem n)" "mm_next (n_mem n) + 2 < 2 ^ 50"
    and tab: "g_ifnet_addrs n = Some tab" "0 \<le> g_if_index n" "nat (g_if_index n) < length tab"
  shows "\<exists>n'. if_attach_addr n ifp = Some n' \<and> attached n ifp i tab n'"
proof -
  let ?h = "n_mem n"
  let ?fa = "fresh ?h" and ?dl = "fresh (took ?h)"
  let ?h2 = "(took (took ?h))\<lparr>mm_buf := (mm_buf ?h)(?dl \<mapsto> replicate 40 0)\<rparr>"
  let ?i1 = "i\<lparr>if_index := word_of_int (g_if_index n + 1)\<rparr>"
  let ?i = "?i1\<lparr>if_addrlist := ?fa\<rparr>"
  let ?a = "zero_ifaddr\<lparr>ifa_next := 0, ifa_ifp := ifp, ifa_addr := ?dl, ifa_rtrequest := FNull,
            ifa_flags := if_flags i, ifa_refcnt := 1, ifa_metric := sint (ifi_metric (if_data i))\<rparr>"
  have nz: "ifp \<noteq> 0" using ldif_nz [OF i] .
  have ok: "malloc_ok ?h" "malloc_ok (took ?h)" using q by (simp_all add: malloc_ok_def took_def)
  have fa: "?fa \<noteq> 0" using wf by (simp add: fresh_def wf_mem_def)
  let ?n3 = "n\<lparr>g_if_index := g_if_index n + 1\<rparr>"
  let ?n4 = "?n3\<lparr>n_if := (n_if n)(ifp \<mapsto> ?i1)\<rparr>"
  let ?n5 = "?n4\<lparr>n_mem := took ?h, n_ifa := (n_ifa n)(?fa \<mapsto> zero_ifaddr)\<rparr>"
  let ?n6 = "?n5\<lparr>n_if := (n_if n)(ifp \<mapsto> ?i)\<rparr>"
  let ?n7 = "?n6\<lparr>n_mem := ?h2\<rparr>"
  let ?n8 = "?n7\<lparr>n_ifa := (n_ifa n)(?fa \<mapsto> ?a)\<rparr>"
  have wf2: "wf_mem ?h2"
    using wf_calloc [OF wf_took [OF wf] ok(2)] by (simp add: took_def)
  have "mm_buf ?h ?dl = None" using wf_fresh [OF wf_took [OF wf]] by (simp add: took_def)
  then have old: "\<forall>B bs. mm_buf ?h B = Some bs \<longrightarrow> B \<noteq> ?dl" by auto
  have "dl_state ?n8 ?dl ?n8" using wf2 by (simp add: dl_state_def)
  then obtain n9 where n9: "if_attach_dl ?n8 ?dl ?i = Some n9" "dl_state ?n8 ?dl n9"
    using if_attach_dl_ok [of ?n8 ?dl ?i nm] nm by auto
  obtain h9 where h9: "n9 = ?n8\<lparr>n_mem := h9\<rparr>" "wf_mem h9" "mm_next h9 = mm_next ?h + 2" "mm_quota ?h \<le> mm_quota h9 + 2"
      and dl9: "\<exists>bs. mm_buf h9 ?dl = Some bs \<and> length bs = 40 \<and> bs ! 39 = 0"
      and buf9: "\<forall>B bs. mm_buf ?h B = Some bs \<longrightarrow> mm_buf h9 B = Some bs"
    using n9(2) old unfolding dl_state_def by (auto simp: took_def)
  let ?n10 = "n9\<lparr>n_ifa := (n_ifa n)(?fa \<mapsto> ?a\<lparr>ifa_netmask := ?dl + sizeof_sockaddr_dl\<rparr>)\<rparr>"
  let ?n11 = "?n10\<lparr>g_ifnet_addrs := Some (tab[nat (g_if_index n) := ?fa])\<rparr>"
  have s1: "updif ?n3 ifp (\<lambda>i. i\<lparr>if_index := word_of_int (g_if_index n + 1)\<rparr>) = Some ?n4"
    using i by (simp add: updif_def ldif_def split: if_splits)
  have s2: "calloc_ifaddr ?n4 = (?fa, ?n5)" using ok by (simp add: calloc_ifaddr_def Let_def)
  have s3: "updif ?n5 ifp (\<lambda>i. i\<lparr>if_addrlist := ?fa\<rparr>) = Some ?n6"
    using nz by (simp add: updif_def ldif_def)
  have s4: "calloc_buf ?n6 (2 * sizeof_sockaddr_dl) = (?dl, ?n7)"
    using ok by (simp add: calloc_buf_def sizeof_sockaddr_dl_def took_def Let_def)
  have s5: "ldif ?n7 ifp = Some ?i" using nz by (simp add: ldif_def)
  have s6: "updifa ?n7 ?fa (\<lambda>a. a\<lparr>ifa_next := 0, ifa_ifp := ifp, ifa_addr := ?dl, ifa_rtrequest := FNull,
            ifa_flags := if_flags ?i, ifa_refcnt := ifa_refcnt a + 1,
            ifa_metric := sint (ifi_metric (if_data ?i))\<rparr>) = Some ?n8"
    using fa by (simp add: updifa_def ldifa_def zero_ifaddr_def)
  have s7: "updifa n9 ?fa (\<lambda>a. a\<lparr>ifa_netmask := ?dl + sizeof_sockaddr_dl\<rparr>) = Some ?n10"
    using fa by (simp add: updifa_def ldifa_def h9(1))
  have s8: "g_ifnet_addrs ?n10 = Some tab" "g_if_index ?n10 = g_if_index n + 1"
    using tab by (simp_all add: h9(1))
  have s9: "1 \<le> g_if_index n + 1 \<and> nat (g_if_index n + 1) \<le> length tab" "nat (g_if_index n + 1) - 1 = nat (g_if_index n)"
    using tab(2,3) by auto
  have idx: "g_if_index ?n3 = g_if_index n + 1" by simp
  have run: "if_attach_addr n ifp = (if if_output ?i = F_ether_output then ether_ifattach ?n11 ifp else Some ?n11)"
    using if_attach_addr_steps [OF s1 s2 s3 s4 s5 s6 n9(1) s7 s8 s9] by (simp only: Let_def)
  have nif: "n_if ?n11 = (n_if n)(ifp \<mapsto> ?i)" by (simp add: h9(1))
  have fin: "attached n ifp i tab (?n11\<lparr>n_if := (n_if n)(ifp \<mapsto> i')\<rparr>)"
    if "same_setup i i'" "if_index i' = word_of_int (g_if_index n + 1)" "if_addrlist i' = ?fa" for i'
  proof -
    have "link_level (?n11\<lparr>n_if := (n_if n)(ifp \<mapsto> i')\<rparr>) ?fa"
      using dl9 fa by (simp add: link_level_def ldifa_def h9(1))
    then show ?thesis
      unfolding attached_def
      by (intro exI [of _ i'] exI [of _ ?fa] exI [of _ "?a\<lparr>ifa_netmask := ?dl + sizeof_sockaddr_dl\<rparr>"] exI [of _ h9])
        (use that h9(2-4) buf9 in \<open>simp add: h9(1)\<close>)
  qed
  show ?thesis
  proof (cases "if_output ?i = F_ether_output")
    case True
    let ?i' = "?i\<lparr>if_data := (if_data ?i)\<lparr>ifi_type := IFT_ETHER, ifi_addrlen := 6, ifi_hdrlen := 14, ifi_mtu := ETHERMTU\<rparr>\<rparr>"
    have "ether_ifattach ?n11 ifp = Some (?n11\<lparr>n_if := (n_if n)(ifp \<mapsto> ?i')\<rparr>)"
      using nz by (simp add: ether_ifattach_def updif_def ldif_def nif)
    with run True fin [of ?i'] show ?thesis by (simp add: same_setup_def)
  next
    case False
    have "?n11\<lparr>n_if := (n_if n)(ifp \<mapsto> ?i)\<rparr> = ?n11" by (simp add: h9(1))
    with run False fin [of ?i] show ?thesis by (simp add: same_setup_def)
  qed
qed

text \<open>A new interface and a new address leave the entries that are there alone.\<close>

lemma if_entry_upd:
  assumes "if_entry n ifs tab k" "k < length ifs" "ifp \<notin> set ifs" "n_ifa n fa = None"
    "n_if n' = (n_if n)(ifp \<mapsto> i')" "n_ifa n' = (n_ifa n)(fa \<mapsto> a)"
    "\<forall>B bs. mm_buf (n_mem n) B = Some bs \<longrightarrow> mm_buf (n_mem n') B = Some bs"
  shows "if_entry n' (ifs @ [ifp]) (tab[length ifs := fa]) k"
proof -
  have "ifs ! k \<noteq> ifp" using assms(2,3) nth_mem by blast
  moreover have "tab ! k \<noteq> fa" using assms(1,4) by (auto simp: if_entry_def ldifa_def split: if_splits)
  ultimately show ?thesis
    using assms by (auto simp: if_entry_def link_level_def ldif_def ldifa_def nth_append split: if_splits)
qed

lemma attached_tab:
  assumes at: "attached n ifp i tab n'" and wf: "net_wf n" and i: "ldif n ifp = Some i" "ifp \<notin> set ifs"
    and tab: "\<forall>k<length ifs. if_entry n ifs tab k" "g_if_index n = int (length ifs)" "table_size (g_if_indexlim n)"
      "int (length ifs) < g_if_indexlim n" "length tab = nat (g_if_indexlim n)"
  shows "net_wf n' \<and> tab_ok n' (ifs @ [ifp]) \<and> g_ifnet n' = g_ifnet n \<and> if_next_of n' = if_next_of n \<and>
    mm_next (n_mem n') = mm_next (n_mem n) + 2 \<and> mm_quota (n_mem n) \<le> mm_quota (n_mem n') + 2 \<and>
    g_ifqmaxlen n' = g_ifqmaxlen n \<and> n_ac n' = n_ac n \<and>
    (\<forall>p. p \<noteq> ifp \<longrightarrow> ldif n' p = ldif n p) \<and> (\<exists>i'. ldif n' ifp = Some i' \<and> same_setup i i')"
proof -
  obtain i' fa a h where n': "n' = n\<lparr>n_mem := h, n_if := (n_if n)(ifp \<mapsto> i'), n_ifa := (n_ifa n)(fa \<mapsto> a),
        g_if_index := g_if_index n + 1, g_ifnet_addrs := Some (tab[nat (g_if_index n) := fa])\<rparr>"
    and i': "same_setup i i'" "if_index i' = word_of_int (g_if_index n + 1)" "if_addrlist i' = fa" and a: "ifa_ifp a = ifp"
    and ll: "link_level n' fa" and buf: "\<forall>B bs. mm_buf (n_mem n) B = Some bs \<longrightarrow> mm_buf h B = Some bs"
    and fa: "fa = fresh (n_mem n)" and h: "wf_mem h" "mm_next h = mm_next (n_mem n) + 2" "mm_quota (n_mem n) \<le> mm_quota h + 2"
    using at unfolding attached_def by blast
  have f: "n_mem n' = h" "n_if n' = (n_if n)(ifp \<mapsto> i')" "n_ifa n' = (n_ifa n)(fa \<mapsto> a)" "g_ifnet n' = g_ifnet n"
    "g_if_index n' = int (length (ifs @ [ifp]))" "g_if_indexlim n' = g_if_indexlim n"
    "g_ifnet_addrs n' = Some (tab[length ifs := fa])" "g_ifqmaxlen n' = g_ifqmaxlen n" "n_ac n' = n_ac n"
    unfolding n' using tab(2) by simp_all
  have fdiv: "fa div 4096 = mm_next (n_mem n)" "fa \<noteq> 0"
    using wf by (simp_all add: fa fresh_def net_wf_def wf_mem_def)
  have none: "n_ifa n fa = None"
    using wf fdiv unfolding net_wf_def by (metis less_irrefl not_Some_eq)
  have "net_wf n'"
    unfolding net_wf_def f(1,3) using wf h fdiv by (auto simp: net_wf_def less_SucI)
  moreover have "if_entry n' (ifs @ [ifp]) (tab[length ifs := fa]) (length ifs)"
    using f(2,3) ldif_nz [OF i(1)] fdiv(2) i'(2,3) a tab(2,4,5) ll
    by (auto simp: if_entry_def ldif_def ldifa_def)
  then have "\<forall>k<length (ifs @ [ifp]). if_entry n' (ifs @ [ifp]) (tab[length ifs := fa]) k"
    using if_entry_upd [OF _ _ i(2) none f(2,3)] tab(1) buf f(1) by (auto simp: less_Suc_eq)
  then have "tab_ok n' (ifs @ [ifp])"
    unfolding tab_ok_def f(5-7) using tab by simp
  moreover have "if_next_of n' = if_next_of n"
    using i(1) i'(1) f(2) by (auto simp: fun_eq_iff if_next_of_def ldif_def same_setup_def)
  moreover have "(\<forall>p. p \<noteq> ifp \<longrightarrow> ldif n' p = ldif n p) \<and> (\<exists>i'. ldif n' ifp = Some i' \<and> same_setup i i')"
    using ldif_nz [OF i(1)] i'(1) by (simp add: ldif_def f(2))
  ultimately show ?thesis using f(1,4,8,9) h(2,3) by simp
qed

lemma relinked_tab:
  assumes "relinked n ifp n1" "tab_ok n ifs" "net_wf n" "ldif n ifp = Some i"
  shows "tab_ok n1 ifs \<and> net_wf n1 \<and> ldif n1 ifp = Some i \<and> n_mem n1 = n_mem n"
proof -
  have n1: "n1 = n\<lparr>n_if := n_if n1, g_ifnet := g_ifnet n1\<rparr>" "n_if n1 ifp = n_if n ifp"
    and idx: "\<And>p j. ldif n p = Some j \<Longrightarrow> \<exists>x. ldif n1 p = Some (j\<lparr>if_next := x\<rparr>)"
    using assms(1) by (simp_all add: relinked_def)
  have f: "n_mem n1 = n_mem n" "n_ifa n1 = n_ifa n" "g_if_index n1 = g_if_index n"
    "g_if_indexlim n1 = g_if_indexlim n" "g_ifnet_addrs n1 = g_ifnet_addrs n"
    by (subst n1(1), simp)+
  have "if_entry n1 ifs tab k" if ent: "if_entry n ifs tab k" for tab k
  proof -
    obtain j a where "ldif n (ifs ! k) = Some j" "if_index j = word_of_nat (Suc k)" "if_addrlist j = tab ! k"
      "ldifa n (tab ! k) = Some a" "ifa_ifp a = ifs ! k" "link_level n (tab ! k)"
      using ent unfolding if_entry_def by blast
    moreover from this(1) obtain x where "ldif n1 (ifs ! k) = Some (j\<lparr>if_next := x\<rparr>)" using idx by blast
    ultimately show ?thesis using f(1,2) by (simp add: if_entry_def link_level_def ldifa_def split: if_splits)
  qed
  with assms(2) f have "tab_ok n1 ifs"
    by (auto simp: tab_ok_def split: option.splits)
  moreover have "ldif n1 ifp = Some i" using assms(4) n1(2) unfolding ldif_def by metis
  ultimately show ?thesis using assms(3) f(1,2) by (simp add: net_wf_def)
qed

text \<open>What attaching leaves alone: the set-up of every interface, and all that is not in the list yet.\<close>

definition attach_frame :: "net \<Rightarrow> addr list \<Rightarrow> net \<Rightarrow> bool" where
  "attach_frame n ifs n' \<longleftrightarrow> g_ifqmaxlen n' = g_ifqmaxlen n \<and> n_ac n' = n_ac n \<and>
     mm_next (n_mem n') \<le> mm_next (n_mem n) + 4 \<and> mm_quota (n_mem n) \<le> mm_quota (n_mem n') + 4 \<and>
     (\<forall>p. p \<notin> set ifs \<longrightarrow> ldif n' p = ldif n p) \<and>
     (\<forall>p j. ldif n p = Some j \<longrightarrow> (\<exists>j'. ldif n' p = Some j' \<and> same_setup (j\<lparr>if_next := if_next j'\<rparr>) j'))"

lemma if_attach_ok:
  assumes "net_wf n" "iflist n ifs" "ldif n ifp = Some i" "if_next i = 0" "ifp \<notin> set ifs"
    "if_name i = Some nm" "length nm + length (dec (sint (if_unit i))) \<le> 11"
    "4 \<le> mm_quota (n_mem n)" "mm_next (n_mem n) + 4 < 2 ^ 50"
  shows "\<exists>n'. if_attach n ifp = Some n' \<and> net_wf n' \<and> iflist n' (ifs @ [ifp]) \<and> attach_frame n (ifs @ [ifp]) n'"
proof -
  have ch: "chain (if_next_of n) (g_ifnet n) ifs" and tab: "tab_ok n ifs"
    using assms(2) by (simp_all add: iflist_tab)
  obtain n1 where n1: "if_attach_link n ifp = Some n1" "chain (if_next_of n1) (g_ifnet n1) (ifs @ [ifp])"
    "relinked n ifp n1" "\<forall>p. p \<notin> set ifs \<longrightarrow> ldif n1 p = ldif n p"
    using if_attach_link_chain [OF ch assms(3-5)] by blast
  have tab1: "tab_ok n1 ifs" and wf1: "net_wf n1" and i1: "ldif n1 ifp = Some i" and m1: "n_mem n1 = n_mem n"
    using relinked_tab [OF n1(3) tab assms(1,3)] by auto
  have wfm: "wf_mem (n_mem n1)" using wf1 by (simp add: net_wf_def)
  obtain n2 tab2 where grow: "if_attach_grow n1 = Some n2"
    and n2: "n2 = n1\<lparr>n_mem := n_mem n2, g_if_indexlim := g_if_indexlim n2, g_ifnet_addrs := Some tab2\<rparr>"
    and b2: "mm_buf (n_mem n2) = mm_buf (n_mem n1)"
    and m2: "wf_mem (n_mem n2)" "mm_next (n_mem n1) \<le> mm_next (n_mem n2)" "mm_next (n_mem n2) \<le> mm_next (n_mem n1) + 2"
      "mm_quota (n_mem n1) \<le> mm_quota (n_mem n2) + 2"
    and t2: "table_size (g_if_indexlim n2)" "int (length ifs) < g_if_indexlim n2" "length tab2 = nat (g_if_indexlim n2)"
      "\<forall>k<length ifs. if_entry n1 ifs tab2 k"
    using if_attach_grow_ok [OF tab1 wfm] assms(8,9) m1 by auto
  have f2: "n_if n2 = n_if n1" "n_ifa n2 = n_ifa n1" "g_ifnet_addrs n2 = Some tab2" "g_ifnet n2 = g_ifnet n1"
    "g_if_index n2 = int (length ifs)"
    using tab1 by (subst n2, simp add: tab_ok_def)+
  have wf2: "net_wf n2"
    using wf1 m2(1,2) f2(2) unfolding net_wf_def by (metis order_less_le_trans)
  have i2: "ldif n2 ifp = Some i" using i1 f2(1) unfolding ldif_def by metis
  have nx2: "if_next_of n2 = if_next_of n1" by (simp add: fun_eq_iff if_next_of_def ldif_def f2(1))
  have e2: "\<forall>k<length ifs. if_entry n2 ifs tab2 k"
    using t2(4) if_entry_cong [OF f2(1,2) b2] by blast
  have q2: "2 \<le> mm_quota (n_mem n2)" "mm_next (n_mem n2) + 2 < 2 ^ 50"
    using m2 m1 assms(8,9) by simp_all
  have x2: "0 \<le> g_if_index n2" "nat (g_if_index n2) < length tab2"
    using f2(5) t2 by simp_all
  obtain n' where n': "if_attach_addr n2 ifp = Some n'" "attached n2 ifp i tab2 n'"
    using if_attach_rest [OF m2(1) i2 assms(6,7) q2 f2(3) x2] by blast
  note at = attached_tab [OF n'(2) wf2 i2 assms(5) e2 f2(5) t2(1,2,3)]
  then have "net_wf n' \<and> iflist n' (ifs @ [ifp])"
    using n1(2) nx2 f2(4) by (simp add: iflist_tab)
  moreover have "attach_frame n (ifs @ [ifp]) n'"
  proof -
    have ld2: "ldif n2 p = ldif n1 p" for p by (simp add: ldif_def f2(1))
    have "ldif n' p = ldif n p" if "p \<notin> set (ifs @ [ifp])" for p
      using at that ld2 n1(4) by simp
    moreover have "\<exists>j'. ldif n' p = Some j' \<and> same_setup (j\<lparr>if_next := if_next j'\<rparr>) j'" if j: "ldif n p = Some j" for p j
    proof (cases "p = ifp")
      case True
      with at j assms(3) show ?thesis by (auto simp: same_setup_def)
    next
      case False
      obtain x where "ldif n1 p = Some (j\<lparr>if_next := x\<rparr>)" using n1(3) j unfolding relinked_def by blast
      with at False ld2 show ?thesis by (simp add: same_setup_def)
    qed
    moreover have "g_ifqmaxlen n2 = g_ifqmaxlen n1" "n_ac n2 = n_ac n1" by (subst n2, simp)+
    moreover have "g_ifqmaxlen n1 = g_ifqmaxlen n" "n_ac n1 = n_ac n"
    proof -
      have r: "n1 = n\<lparr>n_if := n_if n1, g_ifnet := g_ifnet n1\<rparr>" using n1(3) by (simp only: relinked_def)
      show "g_ifqmaxlen n1 = g_ifqmaxlen n" "n_ac n1 = n_ac n" by (subst r, simp)+
    qed
    ultimately show ?thesis using at m1 m2(2-4) by (simp add: attach_frame_def)
  qed
  ultimately show ?thesis
    using n1(1) grow n'(1) by (simp add: if_attach_def)
qed

text \<open>C11: attaching an interface that is not in the list yet appends it, numbers it with the next index
  and enters its link-level address in the index table, which is grown when it is full: the list, the
  indices and the table stay consistent.  It always returns when three blocks of memory (four when the
  table is grown) can be had and the name with the unit fits a link-level address.\<close>

theorem if_attach_extends:
  assumes "net_wf n" "iflist n ifs" "ldif n ifp = Some i" "if_next i = 0" "ifp \<notin> set ifs"
    "if_name i = Some nm" "length nm + length (dec (sint (if_unit i))) \<le> 11"
    "4 \<le> mm_quota (n_mem n)" "mm_next (n_mem n) + 4 < 2 ^ 50"
  shows "\<exists>n'. if_attach n ifp = Some n' \<and> net_wf n' \<and> iflist n' (ifs @ [ifp])"
  using if_attach_ok [OF assms] by blast

lemma demo_iflist: "iflist demo_net [8]"
  by (simp add: iflist_def ifchain_Cons if_entry_def link_level_def sizeof_sockaddr_dl_def)
    (simp add: demo_dl_def nth_append)

theorem if_attach_extends_witness:
  "\<exists>n'. if_attach demo_net 16 = Some n' \<and> net_wf n' \<and> iflist n' ([8] @ [16])"
proof (rule if_attach_extends [where i = demo_le and nm = "[108, 101]"])
  show "net_wf demo_net"
    by (simp add: net_wf_def demo_mem_wf, simp add: demo_net_def)
  show "iflist demo_net [8]" by (rule demo_iflist)
qed (simp_all add: demo_dec_0)

section \<open>Requests\<close>

text \<open>Changing fields of an interface that the name search does not look at.\<close>

lemma ifs_named_upd:
  assumes "ifs_named n ifs" "ldif n p = Some i" "if_next i' = if_next i" "if_name i' = if_name i" "if_unit i' = if_unit i"
  shows "ifs_named (n\<lparr>n_if := (n_if n)(p \<mapsto> i')\<rparr>) ifs"
    "if_fullname (n\<lparr>n_if := (n_if n)(p \<mapsto> i')\<rparr>) q = if_fullname n q"
proof -
  have "if_next_of (n\<lparr>n_if := (n_if n)(p \<mapsto> i')\<rparr>) = if_next_of n"
    using assms(2,3) ldif_nz [OF assms(2)] by (auto simp: fun_eq_iff if_next_of_upd if_next_of_Some)
  moreover have name: "if_fullname (n\<lparr>n_if := (n_if n)(p \<mapsto> i')\<rparr>) q = if_fullname n q" for q
    using assms(2,4,5) ldif_nz [OF assms(2)] by (simp add: if_fullname_def ifunit_name_def)
  ultimately show "ifs_named (n\<lparr>n_if := (n_if n)(p \<mapsto> i')\<rparr>) ifs"
    using assms(1) by (simp add: ifs_named_def)
  show "if_fullname (n\<lparr>n_if := (n_if n)(p \<mapsto> i')\<rparr>) q = if_fullname n q" by (rule name)
qed

lemma le_nat_4: "word_of_nat (le_nat (nat_le 4 (unat (w :: u_long)))) = w"
proof -
  have "unat w < 2 ^ LENGTH(32)" by (rule unsigned_less)
  then show ?thesis by (simp add: le_nat_nat_le)
qed

lemma sioc_metric_cases: "SIOCSIFMETRIC \<noteq> SIOCGIFCONF" "SIOCSIFMETRIC \<noteq> SIOCGIFFLAGS" "SIOCSIFMETRIC \<noteq> SIOCGIFMETRIC"
    "SIOCSIFMETRIC \<noteq> SIOCSIFFLAGS" "SIOCGIFMETRIC \<noteq> SIOCGIFCONF" "SIOCGIFMETRIC \<noteq> SIOCGIFFLAGS"
  using sioc_distinct by (auto simp: sioc_cmds_def)

text \<open>The metric that \<open>SIOCSIFMETRIC\<close> stores for a named interface is the one that
  \<open>SIOCGIFMETRIC\<close> for the same name puts in its request, and the second request changes nothing.\<close>

theorem metric_roundtrip:
  assumes "ifs_named n ifs" "ifr_name data = Some name" "p \<in> set ifs" "ifunit n name = Some p"
    "ifr_metric data = Some metric" "ifr_name (Bytes bs) = Some name" "20 \<le> length bs"
  shows "\<exists>n' data'. ifioctl e junk so SIOCSIFMETRIC data n = Some (0, data, n') \<and>
    ifioctl e junk so SIOCGIFMETRIC (Bytes bs) n' = Some (0, data', n') \<and> ifr_metric data' = Some metric"
proof -
  obtain i where i: "ldif n p = Some i"
    using assms(1,3) chain_alloc [of "if_next_of n" "g_ifnet n" ifs p] by (auto simp: ifs_named_def if_next_of_def)
  let ?i = "i\<lparr>if_data := (if_data i)\<lparr>ifi_metric := metric\<rparr>\<rparr>"
  let ?n = "n\<lparr>n_if := (n_if n)(p \<mapsto> ?i)\<rparr>"
  have named: "ifs_named ?n ifs" "if_fullname ?n q = if_fullname n q" for q
    using ifs_named_upd [OF assms(1) i, of ?i] by simp_all
  have "ifunit ?n name = Some p"
    using assms(4) by (simp add: ifunit_search [OF assms(1)] ifunit_search [OF named(1)] named(2))
  moreover have "ldif ?n p = Some ?i" using ldif_nz [OF i] by simp
  moreover obtain data' where d: "req_store (Bytes bs) 16 (nat_le 4 (unat metric)) = Some data'"
    using assms(7) req_store_defined [of bs 16 "nat_le 4 (unat metric)"] by fastforce
  moreover have "ifr_metric data' = Some metric"
    using req_store_field [OF d, of 4] by (simp add: ifr_metric_def le_nat_4)
  ultimately show ?thesis
    using assms(2,4,5,6) i
    by (intro exI [of _ ?n] exI [of _ data']) (simp add: ifioctl_def sioc_metric_cases sioc_metric_cases [symmetric] updif_eq)
qed

definition lo_req :: "u_long \<Rightarrow> ioarg" where
  "lo_req w = Bytes ([108, 111, 48] @ replicate 13 0 @ nat_le 4 (unat w) @ replicate 12 0)"

lemma lo_req_name: "ifr_name (lo_req w) = Some [108, 111, 48]"
  by (simp add: ifr_name_def lo_req_def c_str_def)

theorem metric_roundtrip_witness:
  "\<exists>n' data'. ifioctl demo_env [] demo_so SIOCSIFMETRIC (lo_req 7) demo_net = Some (0, lo_req 7, n') \<and>
    ifioctl demo_env [] demo_so SIOCGIFMETRIC (lo_req 0) n' = Some (0, data', n') \<and> ifr_metric data' = Some 7"
  unfolding lo_req_def [of 0]
proof (rule metric_roundtrip [OF demo_ifs_named lo_req_name])
  show "ifunit demo_net [108, 111, 48] = Some 8"
    by (simp add: ifunit_search [OF demo_ifs_named] if_fullname_def demo_dec_0)
  show "ifr_metric (lo_req 7) = Some 7"
    by (simp add: ifr_metric_def req_field_def lo_req_def slice_def le_nat_nat_le)
  show "ifr_name (Bytes ([108, 111, 48] @ replicate 13 0 @ nat_le 4 (unat (0 :: u_long)) @ replicate 12 0)) = Some [108, 111, 48]"
    using lo_req_name [of 0] by (simp only: lo_req_def)
qed simp_all

lemma sioc_flags_cases: "SIOCSIFFLAGS \<noteq> SIOCGIFCONF" "SIOCSIFFLAGS \<noteq> SIOCGIFFLAGS" "SIOCSIFFLAGS \<noteq> SIOCGIFMETRIC"
  using sioc_distinct by (auto simp: sioc_cmds_def)

lemma flags_mix: "((x AND c) OR (y AND NOT c)) AND c = x AND c" "((x AND c) OR (y AND NOT c)) AND NOT c = y AND NOT c"
  for x y c :: "'a::len word"
  by (auto intro!: bit_word_eqI simp: bit_simps)

lemma up_can_change: "(f OR IFF_UP) AND IFF_CANTCHANGE = f AND IFF_CANTCHANGE"
proof -
  have "IFF_UP AND IFF_CANTCHANGE = 0"
    by (simp add: IFF_UP_def IFF_CANTCHANGE_def IFF_BROADCAST_def IFF_POINTOPOINT_def IFF_RUNNING_def
        IFF_OACTIVE_def IFF_SIMPLEX_def IFF_MULTICAST_def IFF_ALLMULTI_def)
  then show ?thesis by (simp add: bit.conj_disj_distrib2)
qed

text \<open>\<open>SIOCSIFFLAGS\<close> changes exactly the flags a user may change: unless it takes the interface
  down, the interface ends with its own values of the protected flags and the requested values of all
  others, whether or not the interface was up before.\<close>

theorem setflags_protects:
  assumes "ifr_name data = Some name" "ifunit n name = Some p" "ldif n p = Some i" "ifr_flags data = Some fl"
    "has (if_flags i) IFF_UP \<Longrightarrow> has fl IFF_UP" "if_ioctl i = FNull"
  shows "\<exists>n' i'. ifioctl e junk so SIOCSIFFLAGS data n = Some (0, data, n') \<and> ldif n' p = Some i' \<and>
    if_flags i' AND IFF_CANTCHANGE = if_flags i AND IFF_CANTCHANGE \<and>
    if_flags i' AND NOT IFF_CANTCHANGE = fl AND NOT IFF_CANTCHANGE"
proof -
  let ?f = "(if_flags i AND IFF_CANTCHANGE) OR (fl AND NOT IFF_CANTCHANGE)"
  let ?n = "if \<not> has (if_flags i) IFF_UP \<and> has fl IFF_UP then n\<lparr>n_if := (n_if n)(p \<mapsto> i\<lparr>if_flags := if_flags i OR IFF_UP\<rparr>)\<rparr> else n"
  obtain j where j: "ldif ?n p = Some j" "if_flags j AND IFF_CANTCHANGE = if_flags i AND IFF_CANTCHANGE" "if_ioctl j = FNull"
  proof (cases "\<not> has (if_flags i) IFF_UP \<and> has fl IFF_UP")
    case True
    with that [of "i\<lparr>if_flags := if_flags i OR IFF_UP\<rparr>"] assms(6) ldif_nz [OF assms(3)]
      up_can_change [of "if_flags i"] show ?thesis by simp
  next
    case False
    with that [of i] assms(3,6) show ?thesis by simp
  qed
  have up: "(if \<not> has (if_flags i) IFF_UP \<and> has fl IFF_UP then if_up n p else Some n) = Some ?n"
    using assms(3) by (simp add: if_up_def updif_eq rt_ifmsg_def)
  let ?m = "?n\<lparr>n_if := (n_if ?n)(p \<mapsto> j\<lparr>if_flags := ?f\<rparr>)\<rparr>"
  have set: "updif ?n p (\<lambda>i. i\<lparr>if_flags := (if_flags i AND IFF_CANTCHANGE) OR (fl AND NOT IFF_CANTCHANGE)\<rparr>) = Some ?m"
    using updif_eq [OF j(1)] j(2) by simp
  have m: "ldif ?m p = Some (j\<lparr>if_flags := ?f\<rparr>)" using ldif_nz [OF j(1)] by simp
  have "ifioctl e junk so SIOCSIFFLAGS data n = Some (0, data, ?m)"
    using assms(1-5) up set m j(3)
    by (simp only: ifioctl_def sioc_flags_cases if_False if_True Option.bind.bind_lunit) auto
  then show ?thesis using m flags_mix [of "if_flags i" IFF_CANTCHANGE fl] by auto
qed

definition mute_lo :: ifnet where "mute_lo = demo_lo\<lparr>if_ioctl := FNull, if_flags := IFF_LOOPBACK\<rparr>"

theorem setflags_protects_witness:
  "\<exists>n' i'. ifioctl demo_env [] demo_so SIOCSIFFLAGS (lo_req 1) (demo_net\<lparr>n_if := (n_if demo_net)(8 \<mapsto> mute_lo)\<rparr>) = Some (0, lo_req 1, n') \<and>
    ldif n' 8 = Some i' \<and> if_flags i' AND IFF_CANTCHANGE = if_flags mute_lo AND IFF_CANTCHANGE \<and>
    if_flags i' AND NOT IFF_CANTCHANGE = 1 AND NOT IFF_CANTCHANGE"
proof (rule setflags_protects)
  show "ifr_name (lo_req 1) = Some [108, 111, 48]" by (rule lo_req_name)
  have lo: "ldif demo_net 8 = Some demo_lo" by simp
  have named: "ifs_named (demo_net\<lparr>n_if := (n_if demo_net)(8 \<mapsto> mute_lo)\<rparr>) [8]"
    "if_fullname (demo_net\<lparr>n_if := (n_if demo_net)(8 \<mapsto> mute_lo)\<rparr>) 8 = if_fullname demo_net 8"
    using ifs_named_upd [OF demo_ifs_named lo, of mute_lo] by (simp_all add: mute_lo_def)
  show "ifunit (demo_net\<lparr>n_if := (n_if demo_net)(8 \<mapsto> mute_lo)\<rparr>) [108, 111, 48] = Some 8"
    by (simp add: ifunit_search [OF named(1)] named(2), simp add: if_fullname_def demo_dec_0)
  show "ldif (demo_net\<lparr>n_if := (n_if demo_net)(8 \<mapsto> mute_lo)\<rparr>) 8 = Some mute_lo" by simp
  show "ifr_flags (lo_req 1) = Some 1"
  proof -
    have four: "4 = Suc (Suc (Suc (Suc 0)))" by simp
    have "nat_le 4 1 = [1, 0, 0, 0]" unfolding four by (simp only: nat_le.simps) simp
    then show ?thesis by (simp add: ifr_flags_def req_field_def lo_req_def slice_def)
  qed
  show "has 1 IFF_UP" by (simp add: has_def IFF_UP_def)
qed (simp add: mute_lo_def)

section \<open>Finding an address\<close>

text \<open>The addresses of all interfaces in the order in which the nested loops visit them.\<close>

definition ifa_order :: "net \<Rightarrow> addr list \<Rightarrow> (addr \<Rightarrow> addr list) \<Rightarrow> bool" where
  "ifa_order n ifs as \<longleftrightarrow> chain (if_next_of n) (g_ifnet n) ifs \<and>
     (\<forall>p\<in>set ifs. \<exists>i. ldif n p = Some i \<and> chain (ifa_next_of n) (if_addrlist i) (as p))"

definition ifa_family :: "net \<Rightarrow> addr \<Rightarrow> int option" where
  "ifa_family n a = ldifa n a \<bind> (\<lambda>a. map_option (\<lambda>f. int (unat f)) (sa_family n (ifa_addr a)))"

lemma find_append: "find P (xs @ ys) = (case find P xs of None \<Rightarrow> find P ys | Some x \<Rightarrow> Some x)"
  by (induction xs) auto

lemma if_search_chain:
  assumes "chain (if_next_of n) p ifs"
    "\<forall>p\<in>set ifs. \<exists>i. ldif n p = Some i \<and> chain (ifa_next_of n) (if_addrlist i) (as p)"
    "\<forall>p\<in>set ifs. \<forall>a\<in>set (as p). ldifa n a \<bind> test \<noteq> None"
  shows "if_search n (\<lambda>_. True) test p =
    Some (case find (\<lambda>a. ldifa n a \<bind> test = Some True) (concat (map as ifs)) of None \<Rightarrow> 0 | Some a \<Rightarrow> a)"
  using assms
proof (induction ifs arbitrary: p)
  case Nil
  then show ?case by (subst if_search.simps) simp
next
  case (Cons q ifs)
  then obtain i where q: "p = q" "ldif n q = Some i" "chain (ifa_next_of n) (if_addrlist i) (as q)"
      "chain (if_next_of n) (if_next i) ifs"
    by (auto simp: ifchain_Cons)
  have IH: "if_search n (\<lambda>_. True) test (if_next i) =
      Some (case find (\<lambda>a. ldifa n a \<bind> test = Some True) (concat (map as ifs)) of None \<Rightarrow> 0 | Some a \<Rightarrow> a)"
    using Cons.IH [OF q(4)] Cons.prems(2,3) by simp
  have inner: "ifa_search n test (if_addrlist i) =
      Some (case find (\<lambda>a. ldifa n a \<bind> test = Some True) (as q) of None \<Rightarrow> 0 | Some a \<Rightarrow> a)"
    using ifas.srch_chain [OF q(3)] Cons.prems(3) by simp
  have nz: "a \<noteq> 0" if "find (\<lambda>a. ldifa n a \<bind> test = Some True) (as q) = Some a" for a
    using that chain_alloc [OF q(3)] by (auto simp: find_Some_iff)
  have "p \<noteq> 0" using q(1,2) ldif_nz by blast
  then show ?case
    using inner IH q(1,2) nz by (subst if_search.simps) (auto simp: find_append split: option.splits)
qed

lemma ifa_ifwithaf_search:
  assumes "ifa_order n ifs as" "\<forall>p\<in>set ifs. \<forall>a\<in>set (as p). ifa_family n a \<noteq> None"
  shows "ifa_ifwithaf n af =
    Some (case find (\<lambda>a. ifa_family n a = Some af) (concat (map as ifs)) of None \<Rightarrow> 0 | Some a \<Rightarrow> a)"
proof -
  have eq: "(ldifa n a \<bind> (\<lambda>a. map_option (\<lambda>f. af = int (unat f)) (sa_family n (ifa_addr a))) = Some True)
      = (ifa_family n a = Some af)" for a
    by (auto simp: ifa_family_def bind_eq_Some_conv)
  have def_test: "ldifa n a \<bind> (\<lambda>a. map_option (\<lambda>f. af = int (unat f)) (sa_family n (ifa_addr a))) \<noteq> None"
    if "ifa_family n a \<noteq> None" for a
    using that by (auto simp: ifa_family_def bind_eq_None_conv split: Option.bind_splits)
  have "if_search n (\<lambda>_. True) (\<lambda>a. map_option (\<lambda>f. af = int (unat f)) (sa_family n (ifa_addr a))) (g_ifnet n) =
      Some (case find (\<lambda>a. ldifa n a \<bind> (\<lambda>a. map_option (\<lambda>f. af = int (unat f)) (sa_family n (ifa_addr a))) = Some True)
        (concat (map as ifs)) of None \<Rightarrow> 0 | Some a \<Rightarrow> a)"
  proof (rule if_search_chain)
    show "\<forall>p\<in>set ifs. \<forall>a\<in>set (as p).
        ldifa n a \<bind> (\<lambda>a. map_option (\<lambda>f. af = int (unat f)) (sa_family n (ifa_addr a))) \<noteq> None"
      using assms(2) def_test by blast
  qed (use assms(1) in \<open>auto simp only: ifa_order_def\<close>)
  then show ?thesis by (simp only: ifa_ifwithaf_def eq)
qed

text \<open>\<open>ifa_ifwithaf\<close> returns the first address of the family asked for, in the order of the
  interfaces and of the addresses of each, and \<open>NULL\<close> if no interface has one.\<close>

theorem ifa_ifwithaf_first:
  assumes "ifa_order n ifs as" "\<forall>p\<in>set ifs. \<forall>a\<in>set (as p). ifa_family n a \<noteq> None"
  shows "ifa_ifwithaf n af =
    Some (case find (\<lambda>a. ifa_family n a = Some af) (concat (map as ifs)) of None \<Rightarrow> 0 | Some a \<Rightarrow> a)"
  using assms by (rule ifa_ifwithaf_search)

lemma demo_ifa_order: "ifa_order demo_net [8] (\<lambda>_. [32768, 24576])"
  by (simp add: ifa_order_def ifchain_Cons ifachain_Cons)

lemma demo_sa_family: "sa_family demo_net 20480 = Some 18" "sa_family demo_net 24664 = Some 2"
proof -
  have "nrd demo_net 20481 1 = Some [18]"
    using rd_buf [of demo_mem 20480 demo_dl 1 1] by (simp add: nrd_def demo_ld_none demo_dl_def slice_def)
  moreover have "nrd demo_net 24665 1 = Some [2]"
    using rd_buf [of demo_mem 24576 demo_in 89 1] by (simp add: nrd_def demo_ld_none demo_in_def demo_sin_def demo_mask_def slice_def)
  ultimately show "sa_family demo_net 20480 = Some 18" "sa_family demo_net 24664 = Some 2"
    by (simp_all add: sa_family_def rd8_def)
qed

lemma demo_family: "ifa_family demo_net 32768 = Some 18" "ifa_family demo_net 24576 = Some 2"
  using demo_sa_family by (simp_all add: ifa_family_def)

theorem ifa_ifwithaf_first_witness: "ifa_ifwithaf demo_net 2 = Some 24576 \<and> ifa_ifwithaf demo_net 7 = Some 0"
  using ifa_ifwithaf_first [OF demo_ifa_order, of 2] ifa_ifwithaf_first [OF demo_ifa_order, of 7]
  by (simp add: demo_family)

text \<open>\<open>ifa_ifwithaddr\<close> compares the address with \<open>ifa_broadaddr\<close> of every entry it passes without
  asking whether there is one; a link-level address, which \<open>if_attach\<close> puts first in the list of every
  interface, has none, so a search for any other address dereferences a null pointer.\<close>

theorem ifa_ifwithaddr_undefined:
  assumes "ldif n (g_ifnet n) = Some i" "ldifa n (if_addrlist i) = Some a" "ifa_dstaddr a = 0"
    "sockaddr_equal n addr (ifa_addr a) = Some False" "wf_mem (n_mem n)"
  shows "ifa_ifwithaddr n addr = None"
proof -
  obtain len where len: "sa_len n addr = Some len" "unat len \<noteq> 0"
  proof -
    from assms(4) obtain len xs ys where "sa_len n addr = Some len" "nrd n addr (unat len) = Some xs"
        "nrd n (ifa_addr a) (unat len) = Some ys" "xs \<noteq> ys"
      by (auto simp: sockaddr_equal_def bind_eq_Some_conv)
    with that show ?thesis by (cases "unat len = 0") (auto simp: nrd_def rd_def)
  qed
  have "mm_buf (n_mem n) 0 = None"
    using assms(5) unfolding wf_mem_def by (metis not_Some_eq)
  then have "sockaddr_equal n addr 0 = None"
    using len by (simp add: sockaddr_equal_def nrd_def rd_def block_of_def ld_def split: Option.bind_splits)
  then show ?thesis
    using assms ldif_nz [OF assms(1)] ldifa_nz [OF assms(2)] unfolding ifa_ifwithaddr_def
    by (subst if_search.simps, simp) (subst ifa_search.simps, simp add: withaddr_test_def)
qed

theorem ifa_ifwithaddr_undefined_witness: "ifa_ifwithaddr demo_net 28672 = None"
proof (rule ifa_ifwithaddr_undefined)
  show "ldif demo_net (g_ifnet demo_net) = Some demo_lo" by simp
  show "ldifa demo_net (if_addrlist demo_lo) = Some (zero_ifaddr\<lparr>ifa_next := 24576, ifa_ifp := 8, ifa_addr := 20480, ifa_netmask := 20500\<rparr>)"
    by simp
  have "nrd demo_net 28672 1 = Some [16]" "nrd demo_net 28672 16 = Some demo_sin"
    using rd_buf [of demo_mem 28672 demo_sin 0 1] rd_buf [of demo_mem 28672 demo_sin 0 16]
    by (simp_all add: nrd_def demo_ld_none demo_sin_def slice_def)
  moreover have "nrd demo_net 20480 16 = Some (take 16 demo_dl)"
    using rd_buf [of demo_mem 20480 demo_dl 0 16] by (simp add: nrd_def demo_ld_none demo_dl_def slice_def)
  ultimately show "sockaddr_equal demo_net 28672 (ifa_addr (zero_ifaddr\<lparr>ifa_next := 24576, ifa_ifp := 8, ifa_addr := 20480, ifa_netmask := 20500\<rparr>)) = Some False"
    by (simp add: sockaddr_equal_def sa_len_def rd8_def demo_sin_def demo_dl_def)
qed (simp_all add: demo_mem_wf)

end
