(* ===== verification/Endian.thy ===== *)
theory Endian
  imports Prelude
begin

text \<open>
  Byte order conversion (\<open>hp300/include/endian.h\<close>) as the header writes it, and the variable
  length numbers of the TCP header compression (the macros of \<open>net/slcompress.c\<close>).  The
  conversions index the bytes of their argument in memory, which on the little-endian target is
  from the least significant one.
\<close>

section \<open>Conversions\<close>

text \<open>\<open>((unsigned char *)&x)[i]\<close>, promoted.\<close>

definition mem_byte :: "'a::len word \<Rightarrow> nat \<Rightarrow> u_int" where
  "mem_byte x i = ucast (drop_bit (8 * i) x) AND 0xff"

definition htonl :: "u_long \<Rightarrow> u_long" where
  "htonl l = drop_bit 24 (mem_byte l 0) OR drop_bit 8 (mem_byte l 1) OR
     push_bit 8 (mem_byte l 2) OR push_bit 24 (mem_byte l 3)"

definition htons :: "u_short \<Rightarrow> u_short" where
  "htons s = ucast (drop_bit 8 (mem_byte s 0) OR push_bit 8 (mem_byte s 1))"

definition ntohl :: "u_long \<Rightarrow> u_long" where
  "ntohl l = drop_bit 24 (mem_byte l 0) OR drop_bit 8 (mem_byte l 1) OR
     push_bit 8 (mem_byte l 2) OR push_bit 24 (mem_byte l 3)"

definition ntohs :: "u_short \<Rightarrow> u_short" where
  "ntohs s = ucast (drop_bit 8 (mem_byte s 0) OR push_bit 8 (mem_byte s 1))"

text \<open>The macro \<open>HTONS(x)\<close> assigns to its argument and has the value assigned.\<close>

definition HTONS :: "u_short \<Rightarrow> u_short" where
  "HTONS x = htons x"

section \<open>Network byte order\<close>

text \<open>What the names promise: the number whose bytes in memory are those of the argument, most
  significant first.\<close>

definition swap32 :: "u_long \<Rightarrow> u_long" where
  "swap32 l = push_bit 24 (mem_byte l 0) OR push_bit 16 (mem_byte l 1) OR
     push_bit 8 (mem_byte l 2) OR mem_byte l 3"

definition swap16 :: "u_short \<Rightarrow> u_short" where
  "swap16 s = ucast (push_bit 8 (mem_byte s 0) OR mem_byte s 1)"

lemma bit_byte_mask: "bit (0xff :: u_int) n \<longleftrightarrow> n < 8"
proof -
  have m: "(0xff :: u_int) = mask 8" by (simp add: mask_eq_exp_minus_1)
  show ?thesis unfolding m by (auto simp: bit_mask_iff)
qed

lemma bit_mem_byte: "bit (mem_byte x i) n \<longleftrightarrow> n < 8 \<and> bit x (8 * i + n)"
  for x :: "'a::len word"
  unfolding mem_byte_def bit_and_iff bit_byte_mask
  by (auto simp: bit_ucast_iff bit_drop_bit_eq dest: bit_imp_le_length)

lemmas endian_bits = bit_mem_byte bit_or_iff bit_and_iff bit_drop_bit_eq bit_push_bit_iff bit_ucast_iff

lemma bit_htonl: "bit (htonl l) n \<longleftrightarrow> 8 \<le> n \<and> n < 16 \<and> bit l (8 + n) \<or> 24 \<le> n \<and> n < 32 \<and> bit l n"
proof -
  have "n < 32" if "bit (htonl l) n" using bit_imp_le_length [OF that] by simp
  moreover have "n < 32" if "bit l n" using bit_imp_le_length [OF that] by simp
  ultimately show ?thesis unfolding htonl_def endian_bits by auto
qed

lemma ntohl_htonl_eq: "ntohl l = htonl l"
  by (simp add: ntohl_def htonl_def)

lemma bit_htons: "bit (htons s) n \<longleftrightarrow> 8 \<le> n \<and> n < 16 \<and> bit s n"
proof -
  have "n < 16" if "bit (htons s) n" using bit_imp_le_length [OF that] by simp
  moreover have "n < 16" if "bit s n" using bit_imp_le_length [OF that] by simp
  ultimately show ?thesis unfolding htons_def endian_bits by auto
qed

lemma ntohs_htons_eq: "ntohs s = htons s"
  by (simp add: ntohs_def htons_def)

lemma bit_swap16: "bit (swap16 s) n \<longleftrightarrow> n < 8 \<and> bit s (8 + n) \<or> 8 \<le> n \<and> n < 16 \<and> bit s (n - 8)"
proof -
  have "n < 16" if "bit (swap16 s) n" using bit_imp_le_length [OF that] by simp
  then show ?thesis unfolding swap16_def endian_bits by (auto dest: bit_imp_le_length)
qed

lemma bit_swap32:
  "bit (swap32 l) n \<longleftrightarrow> n < 8 \<and> bit l (24 + n) \<or> 8 \<le> n \<and> n < 16 \<and> bit l (8 + n) \<or>
     16 \<le> n \<and> n < 24 \<and> bit l (n - 8) \<or> 24 \<le> n \<and> n < 32 \<and> bit l (n - 24)"
proof -
  have lt: "n < 32" if "bit (swap32 l) n" using bit_imp_le_length [OF that] by simp
  have hi: "n < 32" if "bit (mem_byte l i) n" for i using bit_imp_le_length [OF that] by simp
  consider "n < 8" | "8 \<le> n" "n < 16" | "16 \<le> n" "n < 24" | "24 \<le> n" "n < 32" | "32 \<le> n" by linarith
  then show ?thesis
  proof cases
    case 5
    with lt show ?thesis by auto
  qed (auto simp: swap32_def endian_bits)
qed

section \<open>What the conversions do\<close>

lemma word_masks:
  "(0xff00ffff :: u_long) = mask 16 OR push_bit 24 (mask 8)"
  "(0xff000000 :: u_long) = push_bit 24 (mask 8)" "(0xff00 :: u_short) = push_bit 8 (mask 8)"
  by (simp_all add: mask_eq_exp_minus_1 push_bit_eq_mult)

lemma mask_zero_iff: "l AND 0xff00ffff = 0 \<longleftrightarrow> (\<forall>n<32. bit l n \<longrightarrow> 16 \<le> n \<and> n < 24)"
  for l :: u_long
proof -
  have "l AND 0xff00ffff = 0 \<longleftrightarrow> (\<forall>n<32. \<not> bit (l AND 0xff00ffff) n)"
    using bit_word_eqI [of "l AND 0xff00ffff" 0] by auto
  also have "\<dots> \<longleftrightarrow> (\<forall>n<32. bit l n \<longrightarrow> 16 \<le> n \<and> n < 24)"
    unfolding word_masks by (auto simp: bit_simps)
  finally show ?thesis .
qed

text \<open>\<open>htonl\<close> is not the conversion to network byte order: it keeps the top byte where it is,
  moves the third byte down one place and drops the other two, so it agrees with the byte swap only
  on arguments in which all bytes but the third are zero.  \<open>ntohl\<close> does the same.\<close>

theorem htonl_swaps_iff:
  "(htonl l = swap32 l \<longleftrightarrow> l AND 0xff00ffff = 0) \<and> ntohl l = htonl l"
proof -
  have "htonl l = swap32 l \<longleftrightarrow> (\<forall>n<32. bit l n \<longrightarrow> 16 \<le> n \<and> n < 24)"
  proof
    assume eq: "htonl l = swap32 l"
    have e: "bit (htonl l) n \<longleftrightarrow> bit (swap32 l) n" for n by (simp add: eq)
    show "\<forall>n<32. bit l n \<longrightarrow> 16 \<le> n \<and> n < 24"
    proof (intro allI impI)
      fix n assume n: "n < 32" "bit l n"
      have hi: "\<not> bit l (k + 24)" if "k < 8" for k
        using e [of k] that by (simp add: bit_htonl bit_swap32 add.commute)
      have "\<not> bit l n" if "8 \<le> n" "n < 16"
        using e [of "n + 8"] that by (simp add: bit_htonl bit_swap32)
      moreover have "\<not> bit l n" if "n < 8"
        using e [of "n + 24"] hi [of n] that by (simp add: bit_htonl bit_swap32)
      moreover have "\<not> 24 \<le> n"
      proof
        assume "24 \<le> n"
        then have "n - 24 < 8" "n - 24 + 24 = n" using n by linarith+
        then show False using hi [of "n - 24"] n by simp
      qed
      ultimately show "16 \<le> n \<and> n < 24" using n by (metis not_less)
    qed
  next
    assume z: "\<forall>n<32. bit l n \<longrightarrow> 16 \<le> n \<and> n < 24"
    have r: "bit l n \<Longrightarrow> 16 \<le> n \<and> n < 24" for n using z bit_imp_le_length [of l n] by auto
    show "htonl l = swap32 l"
      by (rule bit_word_eqI) (auto simp: bit_htonl bit_swap32 dest!: r)
  qed
  then show ?thesis by (simp add: mask_zero_iff ntohl_htonl_eq)
qed

lemma htons_mask: "htons s = s AND 0xff00"
  unfolding word_masks
  by (rule bit_word_eqI) (auto simp: bit_htons bit_and_iff bit_push_bit_iff bit_mask_iff)

text \<open>\<open>ntohl\<close> does not undo \<open>htonl\<close>: only the most significant byte survives, and \<open>htons\<close>
  keeps the high byte of its argument in place and clears the low one, which is the byte swap of
  zero only.\<close>

theorem ntohl_htonl:
  "ntohl (htonl l) = l AND 0xff000000 \<and> htons s = s AND 0xff00 \<and> (htons s = swap16 s \<longleftrightarrow> s = 0)"
proof -
  have "ntohl (htonl l) = l AND 0xff000000"
    unfolding word_masks ntohl_htonl_eq
    by (rule bit_word_eqI) (auto simp: bit_htonl bit_and_iff bit_push_bit_iff bit_mask_iff)
  moreover note htons_mask
  moreover have "s = 0" if "htons s = swap16 s"
  proof (rule bit_word_eqI)
    fix n assume "n < LENGTH(16)"
    have e: "bit (htons s) k \<longleftrightarrow> bit (swap16 s) k" for k by (simp add: that)
    show "bit s n \<longleftrightarrow> bit (0 :: u_short) n"
      using e [of n] e [of "n - 8"] e [of "n + 8"] \<open>n < LENGTH(16)\<close>
      by (cases "n < 8") (auto simp: bit_htons bit_swap16 add.commute)
  qed
  moreover have "htons 0 = swap16 0" by (simp add: htons_def swap16_def mem_byte_def)
  ultimately show ?thesis by auto
qed

end
