(* ===== verification/Inet.thy ===== *)
theory Inet
  imports Endian
begin

text \<open>
  Internet addresses (\<open>netinet/in.h\<close>): the address classes, and \<open>in_canforward\<close> of
  \<open>netinet/in.c\<close>, the test that keeps loopback, multicast and experimental destinations from
  being forwarded.
\<close>

section \<open>Address classes\<close>

definition IN_CLASSA :: "u_long \<Rightarrow> bool" where "IN_CLASSA i \<longleftrightarrow> i AND 0x80000000 = 0"
definition IN_CLASSA_NET :: u_long where "IN_CLASSA_NET = 0xff000000"
definition IN_CLASSA_NSHIFT :: nat where "IN_CLASSA_NSHIFT = 24"

definition IN_CLASSB :: "u_long \<Rightarrow> bool" where "IN_CLASSB i \<longleftrightarrow> i AND 0xc0000000 = 0x80000000"
definition IN_CLASSB_NET :: u_long where "IN_CLASSB_NET = 0xffff0000"

definition IN_CLASSC :: "u_long \<Rightarrow> bool" where "IN_CLASSC i \<longleftrightarrow> i AND 0xe0000000 = 0xc0000000"
definition IN_CLASSC_NET :: u_long where "IN_CLASSC_NET = 0xffffff00"

definition IN_CLASSD :: "u_long \<Rightarrow> bool" where "IN_CLASSD i \<longleftrightarrow> i AND 0xf0000000 = 0xe0000000"
definition IN_CLASSD_NET :: u_long where "IN_CLASSD_NET = 0xf0000000"
definition IN_MULTICAST :: "u_long \<Rightarrow> bool" where "IN_MULTICAST i \<longleftrightarrow> IN_CLASSD i"

definition IN_EXPERIMENTAL :: "u_long \<Rightarrow> bool" where
  "IN_EXPERIMENTAL i \<longleftrightarrow> i AND 0xf0000000 = 0xf0000000"
definition IN_BADCLASS :: "u_long \<Rightarrow> bool" where
  "IN_BADCLASS i \<longleftrightarrow> i AND 0xf0000000 = 0xf0000000"

definition INADDR_ANY :: u_long where "INADDR_ANY = 0x00000000"
definition INADDR_BROADCAST :: u_long where "INADDR_BROADCAST = 0xffffffff"
definition IN_LOOPBACKNET :: u_long where "IN_LOOPBACKNET = 127"

lemmas in_class_defs = IN_CLASSA_def IN_CLASSB_def IN_CLASSC_def IN_CLASSD_def IN_MULTICAST_def
  IN_EXPERIMENTAL_def IN_BADCLASS_def

definition in_canforward :: "u_long \<Rightarrow> int" where
  "in_canforward s_addr =
     (let i = ntohl s_addr in
      if IN_EXPERIMENTAL i \<or> IN_MULTICAST i then 0
      else if IN_CLASSA i \<and>
        (let net = i AND IN_CLASSA_NET in net = 0 \<or> net = push_bit IN_CLASSA_NSHIFT IN_LOOPBACKNET)
      then 0 else 1)"

section \<open>Classes as ranges\<close>

lemma take_unat [simp]: "take_bit 32 (unat i) = unat i" for i :: u_long
  by (rule take_bit_nat_eq_self) (use unsigned_less [of i, where 'a = nat] in simp)

text \<open>A test of the high bits of a word is a test of a quotient.\<close>

lemma high_bits_iff:
  fixes i :: u_long
  assumes "k + m = 32" "v < 2 ^ m"
  shows "i AND push_bit k (mask m) = push_bit k (word_of_nat v) \<longleftrightarrow> unat i div 2 ^ k = v"
proof -
  have v: "unat (word_of_nat v :: u_long) = v"
  proof -
    have "(2 :: nat) ^ m \<le> 2 ^ 32" using assms(1) by (intro power_increasing) auto
    then have "v < 2 ^ 32" using assms(2) by linarith
    then show ?thesis by (simp add: unat_of_nat take_bit_eq_mod)
  qed
  have bv: "\<not> bit (word_of_nat v :: u_long) n" if "m \<le> n" for n
  proof -
    have "take_bit m v = v" using assms(2) by (rule take_bit_nat_eq_self)
    then have "\<not> bit v n" using that by (metis bit_take_bit_iff not_less)
    then show ?thesis by (simp add: bit_of_nat_iff)
  qed
  have "i AND push_bit k (mask m) = push_bit k (word_of_nat v) \<longleftrightarrow> drop_bit k i = word_of_nat v"
    (is "?l \<longleftrightarrow> ?r")
  proof
    assume l: ?l
    have e: "bit (i AND push_bit k (mask m)) n \<longleftrightarrow> bit (push_bit k (word_of_nat v :: u_long)) n" for n
      by (simp add: l)
    show ?r
    proof (rule bit_word_eqI)
      fix n assume "n < LENGTH(32)"
      show "bit (drop_bit k i) n \<longleftrightarrow> bit (word_of_nat v :: u_long) n"
        using e [of "k + n"] bv [of n] assms(1) bit_imp_le_length [of i "k + n"]
        by (auto simp: bit_simps)
    qed
  next
    assume r: ?r
    show ?l
      unfolding r [symmetric]
      by (rule bit_word_eqI) (use assms(1) in \<open>auto simp: bit_simps\<close>)
  qed
  also have "\<dots> \<longleftrightarrow> unat i div 2 ^ k = v"
    unfolding word_unat_eq_iff v unsigned_drop_bit_eq by (simp add: drop_bit_eq_div)
  finally show ?thesis .
qed

text \<open>The number that the classes are read off: the address divided by \<open>2 ^ 24\<close> is its first octet.\<close>

definition first_octet :: "u_long \<Rightarrow> nat" where
  "first_octet i = unat i div 2 ^ 24"

lemma class_masks:
  "(0x80000000 :: u_long) = push_bit 31 (mask 1)" "(0xc0000000 :: u_long) = push_bit 30 (mask 2)"
  "(0xe0000000 :: u_long) = push_bit 29 (mask 3)" "(0xf0000000 :: u_long) = push_bit 28 (mask 4)"
  by (simp_all add: mask_eq_exp_minus_1 push_bit_eq_mult)

lemma class_iff:
  "IN_CLASSA i \<longleftrightarrow> first_octet i < 128"
  "IN_CLASSB i \<longleftrightarrow> 128 \<le> first_octet i \<and> first_octet i < 192"
  "IN_CLASSC i \<longleftrightarrow> 192 \<le> first_octet i \<and> first_octet i < 224"
  "IN_CLASSD i \<longleftrightarrow> 224 \<le> first_octet i \<and> first_octet i < 240"
  "IN_EXPERIMENTAL i \<longleftrightarrow> 240 \<le> first_octet i"
proof -
  have lt: "unat i < 2 ^ 32" using unsigned_less [of i] by simp
  have "IN_CLASSA i \<longleftrightarrow> unat i div 2 ^ 31 = 0"
    unfolding IN_CLASSA_def class_masks using high_bits_iff [of 31 1 0 i] by simp
  then show "IN_CLASSA i \<longleftrightarrow> first_octet i < 128" using lt by (simp add: first_octet_def) linarith
  have "IN_CLASSB i \<longleftrightarrow> unat i div 2 ^ 30 = 2"
    unfolding IN_CLASSB_def class_masks using high_bits_iff [of 30 2 2 i]
    by (simp add: push_bit_eq_mult mask_eq_exp_minus_1)
  then show "IN_CLASSB i \<longleftrightarrow> 128 \<le> first_octet i \<and> first_octet i < 192" 
    using lt by (simp add: first_octet_def) linarith
  have "IN_CLASSC i \<longleftrightarrow> unat i div 2 ^ 29 = 6"
    unfolding IN_CLASSC_def class_masks using high_bits_iff [of 29 3 6 i]
    by (simp add: push_bit_eq_mult mask_eq_exp_minus_1)
  then show "IN_CLASSC i \<longleftrightarrow> 192 \<le> first_octet i \<and> first_octet i < 224" 
    using lt by (simp add: first_octet_def) linarith
  have "IN_CLASSD i \<longleftrightarrow> unat i div 2 ^ 28 = 14"
    unfolding IN_CLASSD_def class_masks using high_bits_iff [of 28 4 14 i]
    by (simp add: push_bit_eq_mult mask_eq_exp_minus_1)
  then show "IN_CLASSD i \<longleftrightarrow> 224 \<le> first_octet i \<and> first_octet i < 240" 
    using lt by (simp add: first_octet_def) linarith
  have "IN_EXPERIMENTAL i \<longleftrightarrow> unat i div 2 ^ 28 = 15"
    unfolding IN_EXPERIMENTAL_def class_masks using high_bits_iff [of 28 4 15 i]
    by (simp add: push_bit_eq_mult mask_eq_exp_minus_1)
  then show "IN_EXPERIMENTAL i \<longleftrightarrow> 240 \<le> first_octet i" 
    using lt by (simp add: first_octet_def) linarith
qed

lemma classa_net_iff:
  assumes "v < 256"
  shows "i AND IN_CLASSA_NET = push_bit 24 (word_of_nat v) \<longleftrightarrow> first_octet i = v"
proof -
  have "IN_CLASSA_NET = push_bit 24 (mask 8)"
    by (simp add: IN_CLASSA_NET_def mask_eq_exp_minus_1 push_bit_eq_mult)
  then show ?thesis using high_bits_iff [of 24 8 v i] assms by (simp add: first_octet_def)
qed

lemma first_octet_ntohl: "first_octet (ntohl l) = first_octet l"
proof -
  have "unat (drop_bit 24 (ntohl l)) = unat (drop_bit 24 l)"
    by (rule arg_cong [of _ _ unat], rule bit_word_eqI)
      (auto simp: ntohl_htonl_eq bit_drop_bit_eq bit_htonl dest: bit_imp_le_length)
  then show ?thesis unfolding first_octet_def unsigned_drop_bit_eq by (simp add: drop_bit_eq_div)
qed

text \<open>Every address is in exactly one of the five classes.\<close>

lemma in_class_partition:
  "length (filter (\<lambda>c. c i) [IN_CLASSA, IN_CLASSB, IN_CLASSC, IN_CLASSD, IN_EXPERIMENTAL]) = 1"
  by (simp add: class_iff)

text \<open>\<open>in_canforward\<close> takes an address in network byte order and means to refuse net zero, the
  loopback net, multicast and experimental addresses.  The octet it looks at is the last one of the
  dotted address (the top byte of the little-endian word), not the first.\<close>

theorem in_canforward_last_octet:
  "in_canforward s = (if 1 \<le> first_octet s \<and> first_octet s < 224 \<and> first_octet s \<noteq> 127 then 1 else 0)"
proof -
  have net: "(ntohl s AND IN_CLASSA_NET = 0) = (first_octet s = 0)"
    "(ntohl s AND IN_CLASSA_NET = push_bit IN_CLASSA_NSHIFT IN_LOOPBACKNET) = (first_octet s = 127)"
    using classa_net_iff [of 0 "ntohl s"] classa_net_iff [of 127 "ntohl s"]
    by (simp_all add: first_octet_ntohl IN_CLASSA_NSHIFT_def IN_LOOPBACKNET_def)
  show ?thesis
    unfolding in_canforward_def Let_def IN_MULTICAST_def class_iff net first_octet_ntohl by auto
qed

text \<open>For instance 127.0.0.1, stored in network byte order, is judged forwardable, and 10.0.0.127 is
  not.\<close>

lemma in_canforward_loopback: "in_canforward 0x0100007f = 1 \<and> in_canforward 0x7f00000a = 0"
  by (simp add: in_canforward_def ntohl_htonl_eq htonl_def mem_byte_def in_class_defs IN_CLASSA_NET_def
      IN_CLASSA_NSHIFT_def IN_LOOPBACKNET_def push_bit_eq_mult drop_bit_eq_div)

end
