(* ===== verification/Stubs.thy ===== *)
theory Stubs
  imports Net
begin

text \<open>
  The parts of the kernel whose functions the source declares and defines with empty bodies:
  routing (\<open>net/route.c\<close>, \<open>net/radix.c\<close>), the packet filter (\<open>net/bpf.c\<close>), address resolution
  (\<open>netinet/if_ether.c\<close>), the IP layer (\<open>netinet/ip_input.c\<close>), the clock handlers
  (\<open>kern/kern_clock.c\<close>).  A call leaves the state as it is and returns zero, a null pointer or
  nothing.  The components that call them are modelled with these definitions, not with what the
  functions do in a complete system; the consequences (no packet is ever resolved, no route is
  ever found) appear in the properties.
\<close>

section \<open>Routing\<close>

definition rtable_init :: "net \<Rightarrow> addr \<Rightarrow> net" where "rtable_init n table = n"
definition route_init :: "net \<Rightarrow> net" where "route_init n = n"
definition rtalloc :: "net \<Rightarrow> addr \<Rightarrow> net" where "rtalloc n ro = n"
definition rtalloc1 :: "net \<Rightarrow> addr \<Rightarrow> int \<Rightarrow> addr \<times> net" where "rtalloc1 n dst report = (0, n)"
definition rtfree :: "net \<Rightarrow> addr \<Rightarrow> net" where "rtfree n rt = n"
definition ifafree :: "net \<Rightarrow> addr \<Rightarrow> net" where "ifafree n ifa = n"
definition rtredirect :: "net \<Rightarrow> addr \<Rightarrow> addr \<Rightarrow> addr \<Rightarrow> int \<Rightarrow> addr \<Rightarrow> addr \<Rightarrow> int \<times> net" where
  "rtredirect n dst gateway netmask flags src rtp = (0, n)"
definition rtioctl :: "net \<Rightarrow> int \<Rightarrow> addr \<Rightarrow> addr \<Rightarrow> int \<times> net" where "rtioctl n req data p = (0, n)"
definition rtrequest :: "net \<Rightarrow> int \<Rightarrow> addr \<Rightarrow> addr \<Rightarrow> addr \<Rightarrow> int \<Rightarrow> addr \<Rightarrow> int \<times> net" where
  "rtrequest n req dst gateway netmask flags ret_nrt = (0, n)"
definition rt_setgate :: "net \<Rightarrow> addr \<Rightarrow> addr \<Rightarrow> addr \<Rightarrow> int \<times> net" where "rt_setgate n rt0 dst gate = (0, n)"
definition rt_maskedcopy :: "net \<Rightarrow> addr \<Rightarrow> addr \<Rightarrow> addr \<Rightarrow> net" where "rt_maskedcopy n src dst netmask = n"
definition rtinit :: "net \<Rightarrow> addr \<Rightarrow> int \<Rightarrow> c_short \<Rightarrow> int \<times> net" where "rtinit n ifa cmd flags = (0, n)"

text \<open>The size of a socket address rounded up to a multiple of \<open>sizeof (long)\<close>, which is four.\<close>

definition ROUNDUP :: "int \<Rightarrow> int" where
  "ROUNDUP a = (if a > 0 then 1 + ((a - 1) OR (4 - 1)) else 4)"

definition rn_search :: "net \<Rightarrow> addr \<Rightarrow> addr \<Rightarrow> addr" where "rn_search n v head = 0"
definition rn_search_m :: "net \<Rightarrow> addr \<Rightarrow> addr \<Rightarrow> addr \<Rightarrow> addr" where "rn_search_m n v head m = 0"
definition rn_match :: "net \<Rightarrow> addr \<Rightarrow> addr \<Rightarrow> addr" where "rn_match n v head = 0"
definition rn_newpair :: "net \<Rightarrow> addr \<Rightarrow> int \<Rightarrow> addr \<Rightarrow> addr \<times> net" where "rn_newpair n v b nodes = (0, n)"
definition rn_insert :: "net \<Rightarrow> addr \<Rightarrow> addr \<Rightarrow> addr \<Rightarrow> addr \<Rightarrow> addr \<times> net" where
  "rn_insert n v head dupentry nodes = (0, n)"
definition rn_addmask :: "net \<Rightarrow> addr \<Rightarrow> int \<Rightarrow> int \<Rightarrow> addr \<times> net" where "rn_addmask n v srch skip = (0, n)"
definition rn_addroute :: "net \<Rightarrow> addr \<Rightarrow> addr \<Rightarrow> addr \<Rightarrow> addr \<Rightarrow> addr \<times> net" where
  "rn_addroute n v m head treenodes = (0, n)"
definition rn_delete :: "net \<Rightarrow> addr \<Rightarrow> addr \<Rightarrow> addr \<Rightarrow> addr \<times> net" where "rn_delete n v netmask head = (0, n)"
definition rn_walktree :: "net \<Rightarrow> addr \<Rightarrow> nat \<Rightarrow> addr \<Rightarrow> int \<times> net" where "rn_walktree n h f w = (0, n)"
definition rn_inithead :: "net \<Rightarrow> addr \<Rightarrow> int \<Rightarrow> int \<times> net" where "rn_inithead n head off = (0, n)"
definition rn_init :: "net \<Rightarrow> net" where "rn_init n = n"

section \<open>Packet filter\<close>

record bpf_d =
  bd_next :: addr
  bd_sbuf :: addr
  bd_hbuf :: addr
  bd_fbuf :: addr
  bd_slen :: int
  bd_hlen :: int
  bd_bufsize :: int
  bd_bif :: addr
  bd_rtout :: u_long
  bd_filter :: addr
  bd_rcount :: u_long
  bd_dcount :: u_long
  bd_promisc :: u_char
  bd_state :: u_char
  bd_immediate :: u_char
  bd_selcoll :: u_char
  bd_timedout :: int
  bd_selproc :: addr

record bpf_if =
  bif_next :: addr
  bif_dlist :: addr
  bif_driverp :: addr
  bif_dlt :: u_int
  bif_hdrlen :: u_int
  bif_ifp :: addr

text \<open>The macros on a descriptor at address \<open>p\<close>.\<close>

definition D_ISFREE :: "addr \<Rightarrow> bpf_d \<Rightarrow> bool" where "D_ISFREE p d \<longleftrightarrow> p = bd_next d"
definition D_MARKFREE :: "addr \<Rightarrow> bpf_d \<Rightarrow> bpf_d" where "D_MARKFREE p d = d\<lparr>bd_next := p\<rparr>"
definition D_MARKUSED :: "bpf_d \<Rightarrow> bpf_d" where "D_MARKUSED d = d\<lparr>bd_next := 0\<rparr>"

definition ROTATE_BUFFERS :: "bpf_d \<Rightarrow> bpf_d" where
  "ROTATE_BUFFERS d =
     (let d = d\<lparr>bd_hbuf := bd_sbuf d\<rparr>;
          d = d\<lparr>bd_hlen := bd_slen d\<rparr>;
          d = d\<lparr>bd_sbuf := bd_fbuf d\<rparr>;
          d = d\<lparr>bd_slen := 0\<rparr>
      in d\<lparr>bd_fbuf := 0\<rparr>)"

definition bpfilterattach :: "net \<Rightarrow> int \<Rightarrow> net" where "bpfilterattach n k = n"
definition bpf_movein :: "net \<Rightarrow> addr \<Rightarrow> int \<Rightarrow> addr \<Rightarrow> addr \<Rightarrow> addr \<Rightarrow> int \<times> net" where
  "bpf_movein n uio linktype mp sockp datlen = (0, n)"
definition bpf_attachd :: "bpf_d \<Rightarrow> addr \<Rightarrow> bpf_d" where "bpf_attachd d bp = d"
definition bpf_detachd :: "bpf_d \<Rightarrow> bpf_d" where "bpf_detachd d = d"
definition bpfopen :: "net \<Rightarrow> int \<Rightarrow> int \<Rightarrow> int \<times> net" where "bpfopen n dev flag = (0, n)"
definition bpfclose :: "net \<Rightarrow> int \<Rightarrow> int \<Rightarrow> int \<times> net" where "bpfclose n dev flag = (0, n)"
definition bpf_sleep :: "bpf_d \<Rightarrow> int \<times> bpf_d" where "bpf_sleep d = (0, d)"
definition bpfread :: "net \<Rightarrow> int \<Rightarrow> addr \<Rightarrow> int \<times> net" where "bpfread n dev uio = (0, n)"
definition bpf_wakeup :: "bpf_d \<Rightarrow> bpf_d" where "bpf_wakeup d = d"
definition bpfwrite :: "net \<Rightarrow> int \<Rightarrow> addr \<Rightarrow> int \<times> net" where "bpfwrite n dev uio = (0, n)"
definition reset_d :: "bpf_d \<Rightarrow> bpf_d" where "reset_d d = d"
definition bpfioctl :: "net \<Rightarrow> int \<Rightarrow> int \<Rightarrow> addr \<Rightarrow> int \<Rightarrow> int \<times> net" where "bpfioctl n dev cmd data flag = (0, n)"
definition bpf_setf :: "bpf_d \<Rightarrow> addr \<Rightarrow> int \<times> bpf_d" where "bpf_setf d fp = (0, d)"
definition bpf_setif :: "bpf_d \<Rightarrow> addr \<Rightarrow> int \<times> bpf_d" where "bpf_setif d ifr = (0, d)"
definition bpf_ifname :: "net \<Rightarrow> addr \<Rightarrow> addr \<Rightarrow> net" where "bpf_ifname n ifp ifr = n"
definition bpfselect :: "net \<Rightarrow> int \<Rightarrow> int \<Rightarrow> int \<times> net" where "bpfselect n dev rw = (0, n)"
definition bpf_select :: "net \<Rightarrow> int \<Rightarrow> int \<Rightarrow> addr \<Rightarrow> int \<times> net" where "bpf_select n dev rw p = (0, n)"
definition bpf_tap :: "net \<Rightarrow> addr \<Rightarrow> addr \<Rightarrow> int \<Rightarrow> net" where "bpf_tap n arg pkt pktlen = n"
definition bpf_mcopy :: "net \<Rightarrow> addr \<Rightarrow> addr \<Rightarrow> int \<Rightarrow> net" where "bpf_mcopy n src dst len = n"
definition bpf_mtap :: "net \<Rightarrow> addr \<Rightarrow> addr \<Rightarrow> net" where "bpf_mtap n arg m = n"
definition catchpacket :: "bpf_d \<Rightarrow> addr \<Rightarrow> int \<Rightarrow> int \<Rightarrow> nat \<Rightarrow> bpf_d" where "catchpacket d pkt pktlen snaplen cpfn = d"
definition bpf_allocbufs :: "bpf_d \<Rightarrow> int \<times> bpf_d" where "bpf_allocbufs d = (0, d)"
definition bpf_freed :: "bpf_d \<Rightarrow> bpf_d" where "bpf_freed d = d"
definition bpfattach :: "net \<Rightarrow> addr \<Rightarrow> addr \<Rightarrow> int \<Rightarrow> int \<Rightarrow> net" where "bpfattach n driverp ifp dlt hdrlen = n"
definition ifpromisc :: "net \<Rightarrow> addr \<Rightarrow> int \<Rightarrow> int \<times> net" where "ifpromisc n ifp pswitch = (0, n)"
definition bpf_alloc :: "net \<Rightarrow> int \<Rightarrow> int \<Rightarrow> addr \<times> net" where "bpf_alloc n len canwait = (0, n)"

section \<open>Address resolution\<close>

definition arptimer :: "net \<Rightarrow> addr \<Rightarrow> net" where "arptimer n ignored_arg = n"
definition arp_rtrequest :: "net \<Rightarrow> int \<Rightarrow> addr \<Rightarrow> addr \<Rightarrow> net" where "arp_rtrequest n req rt sa = n"
definition arpwhohas :: "net \<Rightarrow> addr \<Rightarrow> addr \<Rightarrow> net" where "arpwhohas n ac a = n"
definition arprequest :: "net \<Rightarrow> addr \<Rightarrow> addr \<Rightarrow> addr \<Rightarrow> addr \<Rightarrow> net" where "arprequest n ac sip tip enaddr = n"

text \<open>The result of \<open>arpresolve\<close>, the hardware address it leaves in its last argument, and the state.\<close>

definition arpresolve ::
    "net \<Rightarrow> addr \<Rightarrow> addr \<Rightarrow> addr \<Rightarrow> addr \<Rightarrow> u_char list \<Rightarrow> int \<times> u_char list \<times> net" where
  "arpresolve n ac rt m dst desten = (0, desten, n)"

definition arpintr :: "net \<Rightarrow> net" where "arpintr n = n"
definition in_arpinput :: "net \<Rightarrow> addr \<Rightarrow> net" where "in_arpinput n m = n"
definition arptfree :: "net \<Rightarrow> addr \<Rightarrow> net" where "arptfree n la = n"
definition arplookup :: "net \<Rightarrow> u_long \<Rightarrow> int \<Rightarrow> int \<Rightarrow> addr \<times> net" where "arplookup n a create proxy = (0, n)"
definition arpioctl :: "net \<Rightarrow> int \<Rightarrow> addr \<Rightarrow> int \<times> net" where "arpioctl n cmd data = (EOPNOTSUPP, n)"

section \<open>The IP layer\<close>

definition ip_init :: "net \<Rightarrow> net" where "ip_init n = n"
definition ipintr :: "net \<Rightarrow> net" where "ipintr n = n"
definition ip_reass :: "net \<Rightarrow> addr \<Rightarrow> addr \<Rightarrow> addr \<times> net" where "ip_reass n ip fp = (0, n)"
definition ip_freef :: "net \<Rightarrow> addr \<Rightarrow> net" where "ip_freef n fp = n"
definition ip_enq :: "net \<Rightarrow> addr \<Rightarrow> addr \<Rightarrow> net" where "ip_enq n p prev = n"
definition ip_deq :: "net \<Rightarrow> addr \<Rightarrow> net" where "ip_deq n p = n"
definition ip_slowtimo :: "net \<Rightarrow> net" where "ip_slowtimo n = n"
definition ip_drain :: "net \<Rightarrow> net" where "ip_drain n = n"
definition ip_dooptions :: "net \<Rightarrow> addr \<Rightarrow> int \<times> net" where "ip_dooptions n m = (0, n)"
definition ip_rtaddr :: "net \<Rightarrow> u_long \<Rightarrow> addr \<times> net" where "ip_rtaddr n dst = (0, n)"
definition save_rte :: "net \<Rightarrow> addr \<Rightarrow> u_long \<Rightarrow> net" where "save_rte n opt dst = n"
definition ip_srcroute :: "net \<Rightarrow> addr \<times> net" where "ip_srcroute n = (0, n)"
definition ip_stripoptions :: "net \<Rightarrow> addr \<Rightarrow> addr \<Rightarrow> net" where "ip_stripoptions n m mopt = n"
definition ip_forward :: "net \<Rightarrow> addr \<Rightarrow> int \<Rightarrow> net" where "ip_forward n m srcrt = n"
definition ip_sysctl :: "net \<Rightarrow> addr \<Rightarrow> u_int \<Rightarrow> addr \<Rightarrow> addr \<Rightarrow> addr \<Rightarrow> u_long \<Rightarrow> int \<times> net" where
  "ip_sysctl n name namelen oldp oldlenp newp newlen = (0, n)"

section \<open>Clock handlers\<close>

definition initclocks :: "net \<Rightarrow> net" where "initclocks n = n"
definition hardclock :: "net \<Rightarrow> addr \<Rightarrow> net" where "hardclock n frame = n"
definition softclock :: "net \<Rightarrow> net" where "softclock n = n"
definition timeout :: "net \<Rightarrow> nat \<Rightarrow> addr \<Rightarrow> int \<Rightarrow> net" where "timeout n ftn arg ticks = n"
definition untimeout :: "net \<Rightarrow> nat \<Rightarrow> addr \<Rightarrow> net" where "untimeout n ftn arg = n"
definition hzto :: "net \<Rightarrow> timeval \<Rightarrow> int" where "hzto n tv = 0"
definition startprofclock :: "net \<Rightarrow> addr \<Rightarrow> net" where "startprofclock n p = n"
definition stopprofclock :: "net \<Rightarrow> addr \<Rightarrow> net" where "stopprofclock n p = n"
definition statclock :: "net \<Rightarrow> addr \<Rightarrow> net" where "statclock n frame = n"
definition sysctl_clockrate :: "net \<Rightarrow> addr \<Rightarrow> addr \<Rightarrow> int \<times> net" where "sysctl_clockrate n dst sizep = (0, n)"

section \<open>Empty entry points\<close>

text \<open>\<open>kern/init_main.c\<close> and \<open>stand/ioctl.c\<close>.\<close>

definition main_1 :: "net \<Rightarrow> addr \<Rightarrow> int \<times> net" where "main_1 n framep = (0, n)"
definition stand_ioctl :: "net \<Rightarrow> int \<Rightarrow> int \<Rightarrow> addr \<Rightarrow> int \<times> net" where "stand_ioctl n fd cmd arg = (0, n)"

end
