(* ===== verification/In.thy ===== *)
theory In
  imports IfReq Inet Stubs
begin

text \<open>
  Internet addresses of interfaces: the macros of \<open>netinet/in_var.h\<close> and \<open>netinet/in.c\<close>.  The list of
  internet addresses runs through \<open>ia_next\<close>, the addresses of one interface through \<open>ifa_next\<close>; an
  \<open>in_ifaddr\<close> is on both.  \<open>in_control\<close> is split at its two \<open>switch\<close> statements and again by command.
\<close>

section \<open>Macros\<close>

partial_function (option) INADDR_TO_IFP_loop :: "net \<Rightarrow> u_long \<Rightarrow> addr \<Rightarrow> addr option" where
  "INADDR_TO_IFP_loop n s ia =
     (if ia = 0 then Some 0
      else do {
        x \<leftarrow> sin_s_addr n (ia_addr ia);
        if x = s then Some ia
        else do { p \<leftarrow> ldia n ia; INADDR_TO_IFP_loop n s (ia_next p) } })"

definition INADDR_TO_IFP :: "net \<Rightarrow> u_long \<Rightarrow> addr option" where
  "INADDR_TO_IFP n s = do {
     ia \<leftarrow> INADDR_TO_IFP_loop n s (g_in_ifaddr n);
     if ia = 0 then Some 0 else do { a \<leftarrow> ldifa n ia; Some (ifa_ifp a) } }"

partial_function (option) IFP_TO_IA_loop :: "net \<Rightarrow> addr \<Rightarrow> addr \<Rightarrow> addr option" where
  "IFP_TO_IA_loop n ifp ia =
     (if ia = 0 then Some 0
      else do {
        a \<leftarrow> ldifa n ia;
        if ifa_ifp a = ifp then Some ia
        else do { p \<leftarrow> ldia n ia; IFP_TO_IA_loop n ifp (ia_next p) } })"

definition IFP_TO_IA :: "net \<Rightarrow> addr \<Rightarrow> addr option" where
  "IFP_TO_IA n ifp = IFP_TO_IA_loop n ifp (g_in_ifaddr n)"

definition ld_inm :: "net \<Rightarrow> addr \<Rightarrow> in_multi option" where
  "ld_inm n p = (if p = 0 then None else n_inm n p)"

partial_function (option) IN_LOOKUP_loop :: "net \<Rightarrow> u_long \<Rightarrow> addr \<Rightarrow> addr option" where
  "IN_LOOKUP_loop n s inm =
     (if inm = 0 then Some 0
      else do {
        x \<leftarrow> ld_inm n inm;
        if inm_addr x = s then Some inm else IN_LOOKUP_loop n s (inm_next x) })"

definition IN_LOOKUP_MULTI :: "net \<Rightarrow> u_long \<Rightarrow> addr \<Rightarrow> addr option" where
  "IN_LOOKUP_MULTI n s ifp = do {
     ia \<leftarrow> IFP_TO_IA n ifp;
     if ia = 0 then Some 0 else do { p \<leftarrow> ldia n ia; IN_LOOKUP_loop n s (ia_multiaddrs p) } }"

record in_multistep =
  i_ia :: addr
  i_inm :: addr

text \<open>The loop of \<open>IN_NEXT_MULTI\<close> over the addresses; \<open>inm\<close> keeps its null value if there are none.\<close>

partial_function (option) IN_NEXT_loop :: "net \<Rightarrow> in_multistep \<Rightarrow> addr \<Rightarrow> (addr \<times> in_multistep) option" where
  "IN_NEXT_loop n sp inm =
     (if i_ia sp = 0 then Some (inm, sp)
      else do {
        p \<leftarrow> ldia n (i_ia sp);
        let inm = ia_multiaddrs p;
        let sp = sp\<lparr>i_ia := ia_next p\<rparr>;
        if inm \<noteq> 0 then do { x \<leftarrow> ld_inm n inm; Some (inm, sp\<lparr>i_inm := inm_next x\<rparr>) }
        else IN_NEXT_loop n sp inm })"

definition IN_NEXT_MULTI :: "net \<Rightarrow> in_multistep \<Rightarrow> (addr \<times> in_multistep) option" where
  "IN_NEXT_MULTI n sp =
     (let inm = i_inm sp in
      if inm \<noteq> 0 then do { x \<leftarrow> ld_inm n inm; Some (inm, sp\<lparr>i_inm := inm_next x\<rparr>) }
      else IN_NEXT_loop n sp inm)"

text \<open>\<open>IN_FIRST_MULTI\<close> is to set up the position \<open>i_ia = in_ifaddr\<close>, \<open>i_inm = NULL\<close> and to go on like
  \<open>IN_NEXT_MULTI\<close>, but its parentheses are unbalanced: no use of it compiles, and there is no definition
  for it here.\<close>

section \<open>Classification of addresses\<close>

definition in_ifscrub :: "net \<Rightarrow> addr \<Rightarrow> addr \<Rightarrow> net option" where
  "in_ifscrub n ifp ia = do {
     a \<leftarrow> ldifa n ia;
     if ifa_flags a AND IFA_ROUTE = 0 then Some n
     else do {
       i \<leftarrow> ldif n ifp;
       let (_, n) = (if has (if_flags i) (IFF_LOOPBACK OR IFF_POINTOPOINT)
                     then rtinit n ia RTM_DELETE RTF_HOST
                     else rtinit n ia RTM_DELETE 0);
       updifa n ia (\<lambda>a. a\<lparr>ifa_flags := ifa_flags a AND NOT IFA_ROUTE\<rparr>) } }"

definition class_net :: "u_long \<Rightarrow> u_long" where
  "class_net i =
     (if IN_CLASSA i then i AND IN_CLASSA_NET
      else if IN_CLASSB i then i AND IN_CLASSB_NET
      else if IN_CLASSC i then i AND IN_CLASSC_NET
      else if IN_CLASSD i then i AND IN_CLASSD_NET
      else 0)"

partial_function (option) in_netof_loop :: "net \<Rightarrow> u_long \<Rightarrow> u_long \<Rightarrow> addr \<Rightarrow> u_long option" where
  "in_netof_loop n i net ia =
     (if ia = 0 then Some net
      else do {
        p \<leftarrow> ldia n ia;
        if net = ia_net p then Some (i AND ia_subnetmask p) else in_netof_loop n i net (ia_next p) })"

definition in_netof :: "net \<Rightarrow> u_long \<Rightarrow> u_long option" where
  "in_netof n s = (let i = ntohl s in in_netof_loop n i (class_net i) (g_in_ifaddr n))"

partial_function (option) in_localaddr_loop :: "net \<Rightarrow> (in_part \<Rightarrow> bool) \<Rightarrow> addr \<Rightarrow> int option" where
  "in_localaddr_loop n test ia =
     (if ia = 0 then Some 0
      else do { p \<leftarrow> ldia n ia; if test p then Some 1 else in_localaddr_loop n test (ia_next p) })"

definition in_localaddr :: "net \<Rightarrow> u_long \<Rightarrow> int option" where
  "in_localaddr n s =
     (let i = ntohl s in
      if g_subnetsarelocal n \<noteq> 0
      then in_localaddr_loop n (\<lambda>p. i AND ia_netmask p = ia_net p) (g_in_ifaddr n)
      else in_localaddr_loop n (\<lambda>p. i AND ia_subnetmask p = ia_subnet p) (g_in_ifaddr n))"

text \<open>The body of the loop of \<open>in_broadcast\<close> is \<open>return 0\<close>; after the loop the function ends without a
  value, which is undefined for a caller that looks at it.\<close>

definition broadcast_match :: "net \<Rightarrow> u_long \<Rightarrow> u_long \<Rightarrow> addr \<Rightarrow> ifaddr \<Rightarrow> bool option" where
  "broadcast_match n s t p a = do {
     f \<leftarrow> sa_family n (ifa_addr a);
     if f = AF_INET
     then do {
       b \<leftarrow> sin_s_addr n (ia_dstaddr p);
       ia \<leftarrow> ldia n p;
       Some (s = b \<or> s = ia_netbroadcast ia \<or> t = ia_subnet ia \<or> t = ia_net ia) }
     else Some False }"

partial_function (option) in_broadcast_loop :: "net \<Rightarrow> u_long \<Rightarrow> u_long \<Rightarrow> addr \<Rightarrow> int option" where
  "in_broadcast_loop n s t ifa =
     (if ifa = 0 then None
      else do {
        a \<leftarrow> ldifa n ifa;
        b \<leftarrow> broadcast_match n s t ifa a;
        if b then Some 0 else in_broadcast_loop n s t (ifa_next a) })"

definition in_broadcast :: "net \<Rightarrow> u_long \<Rightarrow> addr \<Rightarrow> int option" where
  "in_broadcast n s ifp =
     (if s = INADDR_BROADCAST \<or> s = INADDR_ANY then Some 1
      else do {
        i \<leftarrow> ldif n ifp;
        if \<not> has (if_flags i) IFF_BROADCAST then Some 0
        else in_broadcast_loop n s (ntohl s) (if_addrlist i) })"

section \<open>Requests\<close>

definition in_ifinit :: "net \<Rightarrow> addr \<Rightarrow> addr \<Rightarrow> u_char list \<Rightarrow> int \<Rightarrow> int \<times> net" where
  "in_ifinit n ifp ia sin scrub = (0, n)"

text \<open>The search for the address of the interface writes where it means to compare.\<close>

partial_function (option) in_control_find :: "net \<Rightarrow> addr \<Rightarrow> addr \<Rightarrow> (addr \<times> net) option" where
  "in_control_find n ifp ia =
     (if ia = 0 then Some (0, n)
      else do {
        n \<leftarrow> updifa n ia (\<lambda>a. a\<lparr>ifa_ifp := ifp\<rparr>);
        if ifp \<noteq> 0 then Some (ia, n)
        else do { p \<leftarrow> ldia n ia; in_control_find n ifp (ia_next p) } })"

text \<open>Fields of the request: \<open>ifra_addr\<close> (and the union of an \<open>ifreq\<close>) at 16, \<open>ifra_broadaddr\<close> at 32,
  \<open>ifra_mask\<close> at 48; in each the length, the family, and the address at offset four.\<close>

definition req_byte :: "ioarg \<Rightarrow> nat \<Rightarrow> u_char option" where
  "req_byte d off = map_option hd (req_field d off 1)"

definition req_addr :: "ioarg \<Rightarrow> nat \<Rightarrow> u_long option" where
  "req_addr d off = map_option (\<lambda>b. word_of_nat (le_nat b)) (req_field d (off + 4) 4)"

definition zero_in_part :: in_part where
  "zero_in_part = \<lparr>ia_net = 0, ia_netmask = 0, ia_subnet = 0, ia_subnetmask = 0, ia_netbroadcast = 0,
     ia_next = 0, ia_multiaddrs = 0\<rparr>"

definition calloc_in_ifaddr :: "net \<Rightarrow> addr \<times> net" where
  "calloc_in_ifaddr n = (let (p, n') = calloc_buf n 144 in
     if p = 0 then (0, n)
     else (p, n'\<lparr>n_ifa := (n_ifa n')(p \<mapsto> zero_ifaddr\<lparr>ifa_in := Some zero_in_part\<rparr>)\<rparr>))"

partial_function (option) last_ia :: "net \<Rightarrow> addr \<Rightarrow> addr option" where
  "last_ia n ia = do { p \<leftarrow> ldia n ia; if ia_next p \<noteq> 0 then last_ia n (ia_next p) else Some ia }"

partial_function (option) last_ifa :: "net \<Rightarrow> addr \<Rightarrow> addr option" where
  "last_ifa n ifa = do { a \<leftarrow> ldifa n ifa; if ifa_next a \<noteq> 0 then last_ifa n (ifa_next a) else Some ifa }"

text \<open>The block that makes a new address and puts it on both lists.\<close>

definition in_control_new :: "net \<Rightarrow> addr \<Rightarrow> (addr \<times> net) option" where
  "in_control_new n ifp = do {
     let (oia, n) = calloc_in_ifaddr n;
     if oia = 0 then Some (0, n)
     else do {
       n \<leftarrow> (if g_in_ifaddr n \<noteq> 0
             then do { ia \<leftarrow> last_ia n (g_in_ifaddr n); updia n ia (\<lambda>p. p\<lparr>ia_next := oia\<rparr>) }
             else Some (n\<lparr>g_in_ifaddr := oia\<rparr>));
       i \<leftarrow> ldif n ifp;
       n \<leftarrow> (if if_addrlist i \<noteq> 0
             then do { ifa \<leftarrow> last_ifa n (if_addrlist i); updifa n ifa (\<lambda>a. a\<lparr>ifa_next := oia\<rparr>) }
             else updif n ifp (\<lambda>i. i\<lparr>if_addrlist := oia\<rparr>));
       n \<leftarrow> updifa n oia (\<lambda>a. a\<lparr>ifa_addr := ia_addr oia, ifa_dstaddr := ia_dstaddr oia,
              ifa_netmask := ia_sockmask oia\<rparr>);
       n \<leftarrow> nwr n (ia_sockmask oia) [8];
       n \<leftarrow> (if has (if_flags i) IFF_BROADCAST then nwr n (ia_dstaddr oia) [16, AF_INET] else Some n);
       n \<leftarrow> updifa n oia (\<lambda>a. a\<lparr>ifa_ifp := ifp\<rparr>);
       Some (oia, if ifp \<noteq> loif then n\<lparr>g_in_interfaces := g_in_interfaces n + 1\<rparr> else n) } }"

text \<open>The first \<open>switch\<close>: an error to return at once, or the address to go on with.\<close>

definition in_control_priv :: "socket \<Rightarrow> addr \<Rightarrow> addr \<Rightarrow> net \<Rightarrow> ((int + addr) \<times> net) option" where
  "in_control_priv so ifp ia n =
     (if so_state so = 0 then Some (Inl EPERM, n)
      else if ia = 0 then do {
        (oia, n) \<leftarrow> in_control_new n ifp;
        if oia = 0 then Some (Inl ENOBUFS, n) else Some (Inr oia, n) }
      else Some (Inr ia, n))"

definition in_control_check ::
    "socket \<Rightarrow> u_int \<Rightarrow> ioarg \<Rightarrow> addr \<Rightarrow> addr \<Rightarrow> net \<Rightarrow> ((int + addr) \<times> net) option" where
  "in_control_check so cmd data ifp ia n =
     (if cmd = SIOCAIFADDR \<or> cmd = SIOCDIFADDR then do {
        fam \<leftarrow> req_byte data 17;
        same \<leftarrow> (if fam = AF_INET
                 then do {
                   a \<leftarrow> ldifa n ia;
                   if ifa_ifp a = ifp
                   then do { x \<leftarrow> sin_s_addr n (ia_addr ia); y \<leftarrow> req_addr data 16; Some (x = y) }
                   else Some False }
                 else Some False);
        if same then Some (Inr ia, n)
        else if cmd = SIOCDIFADDR \<and> ia = 0 then Some (Inl EADDRNOTAVAIL, n)
        else in_control_priv so ifp ia n }
      else if cmd = SIOCSIFADDR \<or> cmd = SIOCSIFNETMASK \<or> cmd = SIOCSIFDSTADDR
      then in_control_priv so ifp ia n
      else if cmd = SIOCSIFBRDADDR \<and> \<not> has (so_state so) SS_PRIV then Some (Inl EPERM, n)
      else if cmd = SIOCSIFBRDADDR \<or> cmd = SIOCGIFADDR \<or> cmd = SIOCGIFNETMASK \<or> cmd = SIOCGIFDSTADDR \<or>
        cmd = SIOCGIFBRDADDR
      then Some (if ia = 0 then Inl EADDRNOTAVAIL else Inr ia, n)
      else Some (Inr ia, n))"

text \<open>\<open>SIOCAIFADDR\<close>: the test of the length of the address in the request is an assignment of zero.\<close>

definition in_control_alias :: "ioarg \<Rightarrow> addr \<Rightarrow> addr \<Rightarrow> net \<Rightarrow> (int \<times> ioarg \<times> net) option" where
  "in_control_alias data ifp ia n = do {
     f \<leftarrow> sa_family n (ia_addr ia);
     (data, hostIsNew) \<leftarrow>
       (if f = AF_INET
        then do {
          data \<leftarrow> req_store data 16 [0];
          x \<leftarrow> req_addr data 16;
          y \<leftarrow> sin_s_addr n (ia_addr ia);
          Some (data, x \<noteq> y) }
        else Some (data, True));
     l \<leftarrow> req_byte data 48;
     (n, maskIsNew) \<leftarrow>
       (if l \<noteq> 0
        then do {
          n \<leftarrow> in_ifscrub n ifp ia;
          m \<leftarrow> req_field data 48 16;
          n \<leftarrow> nwr n (ia_sockmask ia) m;
          s \<leftarrow> sin_s_addr n (ia_sockmask ia);
          n \<leftarrow> updia n ia (\<lambda>p. p\<lparr>ia_subnetmask := ntohl s\<rparr>);
          Some (n, True) }
        else Some (n, False));
     i \<leftarrow> ldif n ifp;
     bf \<leftarrow> req_byte data 33;
     (n, maskIsNew) \<leftarrow>
       (if has (if_flags i) IFF_POINTOPOINT \<and> bf = AF_INET
        then do {
          n \<leftarrow> in_ifscrub n ifp ia;
          d \<leftarrow> req_field data 32 16;
          n \<leftarrow> nwr n (ia_dstaddr ia) d;
          Some (n, True) }
        else Some (n, maskIsNew));
     af \<leftarrow> req_byte data 17;
     sin \<leftarrow> req_field data 16 16;
     let (error, n) = (if af = AF_INET \<and> (hostIsNew \<or> maskIsNew) then in_ifinit n ifp ia sin 0 else (0, n));
     n \<leftarrow> (if has (if_flags i) IFF_BROADCAST \<and> bf = AF_INET
           then do { d \<leftarrow> req_field data 32 16; nwr n (ia_dstaddr ia) d }
           else Some n);
     Some (error, data, n) }"

text \<open>\<open>SIOCDIFADDR\<close>: unlink the address from both lists.\<close>

partial_function (option) unlink_ifa :: "net \<Rightarrow> addr \<Rightarrow> addr \<Rightarrow> net option" where
  "unlink_ifa n ia ifa = do {
     a \<leftarrow> ldifa n ifa;
     if ifa_next a \<noteq> 0 \<and> ifa_next a \<noteq> ia then unlink_ifa n ia (ifa_next a)
     else if ifa_next a \<noteq> 0
     then do { x \<leftarrow> ldifa n ia; updifa n ifa (\<lambda>a. a\<lparr>ifa_next := ifa_next x\<rparr>) }
     else Some n }"

partial_function (option) unlink_ia :: "net \<Rightarrow> addr \<Rightarrow> addr \<Rightarrow> net option" where
  "unlink_ia n oia ia = do {
     p \<leftarrow> ldia n ia;
     if ia_next p \<noteq> 0 \<and> ia_next p \<noteq> oia then unlink_ia n oia (ia_next p)
     else if ia_next p \<noteq> 0
     then do { x \<leftarrow> ldia n oia; updia n ia (\<lambda>p. p\<lparr>ia_next := ia_next x\<rparr>) }
     else Some n }"

definition IFAFREE :: "net \<Rightarrow> addr \<Rightarrow> net option" where
  "IFAFREE n ifa = do {
     a \<leftarrow> ldifa n ifa;
     if sint (ifa_refcnt a) \<le> 0 then Some (ifafree n ifa)
     else updifa n ifa (\<lambda>a. a\<lparr>ifa_refcnt := ifa_refcnt a - 1\<rparr>) }"

definition in_control_delete :: "addr \<Rightarrow> addr \<Rightarrow> net \<Rightarrow> net option" where
  "in_control_delete ifp ia n = do {
     n \<leftarrow> in_ifscrub n ifp ia;
     i \<leftarrow> ldif n ifp;
     n \<leftarrow> (if if_addrlist i = ia
           then do { a \<leftarrow> ldifa n ia; updif n ifp (\<lambda>i. i\<lparr>if_addrlist := ifa_next a\<rparr>) }
           else unlink_ifa n ia (if_addrlist i));
     n \<leftarrow> (if ia = g_in_ifaddr n
           then do { p \<leftarrow> ldia n ia; Some (n\<lparr>g_in_ifaddr := ia_next p\<rparr>) }
           else unlink_ia n ia (g_in_ifaddr n));
     IFAFREE n ia }"

text \<open>\<open>SIOCSIFDSTADDR\<close>; \<open>oldaddr\<close> is a local variable whose address the entry holds for the length of
  one call.\<close>

definition stack_oldaddr :: addr where "stack_oldaddr = 2048"

definition in_control_dst ::
    "env \<Rightarrow> ioarg \<Rightarrow> addr \<Rightarrow> addr \<Rightarrow> net \<Rightarrow> (int \<times> ioarg \<times> net) option" where
  "in_control_dst e data ifp ia n = do {
     i \<leftarrow> ldif n ifp;
     if \<not> has (if_flags i) IFF_POINTOPOINT then Some (EINVAL, data, n)
     else do {
       oldaddr \<leftarrow> nrd n (ia_dstaddr ia) 16;
       d \<leftarrow> req_field data 16 16;
       n \<leftarrow> nwr n (ia_dstaddr ia) d;
       (error, n) \<leftarrow> (if if_ioctl i \<noteq> FNull
                     then do { (r, _, n) \<leftarrow> e_ioctl e (if_ioctl i) ifp SIOCSIFDSTADDR (Ifa ia) n; Some (r, n) }
                     else Some (0, n));
       if error \<noteq> 0 then do { n \<leftarrow> nwr n (ia_dstaddr ia) oldaddr; Some (error, data, n) }
       else do {
         a \<leftarrow> ldifa n ia;
         n \<leftarrow> (if ifa_flags a AND IFA_ROUTE \<noteq> 0
               then do {
                 n \<leftarrow> updifa n ia (\<lambda>a. a\<lparr>ifa_dstaddr := stack_oldaddr\<rparr>);
                 let (_, n) = rtinit n ia RTM_DELETE RTF_HOST;
                 n \<leftarrow> updifa n ia (\<lambda>a. a\<lparr>ifa_dstaddr := ia_dstaddr ia\<rparr>);
                 let (_, n) = rtinit n ia RTM_ADD (RTF_HOST OR RTF_UP);
                 Some n }
               else Some n);
         Some (0, data, n) } } }"

text \<open>Copying a socket address of the interface address into the request.\<close>

definition put_addr :: "addr \<Rightarrow> ioarg \<Rightarrow> net \<Rightarrow> (int \<times> ioarg \<times> net) option" where
  "put_addr p data n = do { s \<leftarrow> nrd n p 16; data \<leftarrow> req_store data 16 s; Some (0, data, n) }"

definition need_flag ::
    "c_short \<Rightarrow> addr \<Rightarrow> net \<Rightarrow> ioarg \<Rightarrow> (int \<times> ioarg \<times> net) option \<Rightarrow> (int \<times> ioarg \<times> net) option" where
  "need_flag fl ifp n data r = do {
     i \<leftarrow> ldif n ifp;
     if \<not> has (if_flags i) fl then Some (EINVAL, data, n) else r }"

definition in_control_do ::
    "env \<Rightarrow> u_int \<Rightarrow> ioarg \<Rightarrow> addr \<Rightarrow> addr \<Rightarrow> net \<Rightarrow> (int \<times> ioarg \<times> net) option" where
  "in_control_do e cmd data ifp ia n =
     (if cmd = SIOCGIFADDR then put_addr (ia_addr ia) data n
      else if cmd = SIOCAIFADDR then in_control_alias data ifp ia n
      else if cmd = SIOCDIFADDR then do { n \<leftarrow> in_control_delete ifp ia n; Some (0, data, n) }
      else if cmd = SIOCSIFADDR then do {
        sin \<leftarrow> req_field data 16 16;
        let (r, n) = in_ifinit n ifp ia sin 1;
        Some (r, data, n) }
      else if cmd = SIOCSIFNETMASK then do {
        i \<leftarrow> req_addr data 16;
        n \<leftarrow> nwr n (ia_sockmask ia + 4) (nat_le 4 (unat i));
        n \<leftarrow> updia n ia (\<lambda>p. p\<lparr>ia_subnetmask := ntohl i\<rparr>);
        Some (0, data, n) }
      else if cmd = SIOCSIFDSTADDR then in_control_dst e data ifp ia n
      else if cmd = SIOCSIFBRDADDR then need_flag IFF_BROADCAST ifp n data (do {
        d \<leftarrow> req_field data 16 16;
        n \<leftarrow> nwr n (ia_dstaddr ia) d;
        Some (0, data, n) })
      else if cmd = SIOCGIFNETMASK then put_addr (ia_sockmask ia) data n
      else if cmd = SIOCGIFDSTADDR then need_flag IFF_POINTOPOINT ifp n data (put_addr (ia_dstaddr ia) data n)
      else if cmd = SIOCGIFBRDADDR then need_flag IFF_BROADCAST ifp n data (put_addr (ia_dstaddr ia) data n)
      else if ifp = 0 then Some (EOPNOTSUPP, data, n)
      else do {
        i \<leftarrow> ldif n ifp;
        if if_ioctl i = FNull then Some (EOPNOTSUPP, data, n)
        else e_ioctl e (if_ioctl i) ifp cmd data n })"

definition in_control ::
    "env \<Rightarrow> socket \<Rightarrow> u_int \<Rightarrow> ioarg \<Rightarrow> addr \<Rightarrow> net \<Rightarrow> (int \<times> ioarg \<times> net) option" where
  "in_control e so cmd data ifp n = do {
     (ia, n) \<leftarrow> (if ifp \<noteq> 0 then in_control_find n ifp (g_in_ifaddr n) else Some (0, n));
     (r, n) \<leftarrow> in_control_check so cmd data ifp ia n;
     case r of Inl err \<Rightarrow> Some (err, data, n) | Inr ia \<Rightarrow> in_control_do e cmd data ifp ia n }"

end
