(* ===== verification/InProps.thy ===== *)
theory InProps
  imports In IfProps
begin

text \<open>
  What the internet address code guarantees: the macros that look up and step through lists, the
  classification of broadcast addresses, and the requests that read and write addresses.
\<close>

section \<open>Lists\<close>

definition ia_next_of :: "net \<Rightarrow> addr \<Rightarrow> addr option" where
  "ia_next_of n p = map_option ia_next (ldia n p)"

definition inm_next_of :: "net \<Rightarrow> addr \<Rightarrow> addr option" where
  "inm_next_of n p = map_option inm_next (ld_inm n p)"

lemma ldia_nz: "ldia n p = Some x \<Longrightarrow> p \<noteq> 0"
  by (auto simp: ldia_def split: option.splits dest: ldifa_nz)

lemma ld_inm_nz: "ld_inm n p = Some x \<Longrightarrow> p \<noteq> 0"
  by (auto simp: ld_inm_def split: if_splits)

lemma iachain_Cons:
  "chain (ia_next_of n) p (a # as) \<longleftrightarrow> p = a \<and> (\<exists>x. ldia n a = Some x \<and> chain (ia_next_of n) (ia_next x) as)"
  by (cases "ldia n a") (auto simp: chain.simps ia_next_of_def dest: ldia_nz)

lemma inmchain_Cons:
  "chain (inm_next_of n) p (a # as) \<longleftrightarrow> p = a \<and> (\<exists>x. ld_inm n a = Some x \<and> chain (inm_next_of n) (inm_next x) as)"
  by (cases "ld_inm n a") (auto simp: chain.simps inm_next_of_def dest: ld_inm_nz)

interpretation by_addr: list_search "ia_next_of n" "\<lambda>p. map_option (\<lambda>x. x = s) (sin_s_addr n (ia_addr p))"
  "INADDR_TO_IFP_loop n s" for n s
proof unfold_locales
  show "INADDR_TO_IFP_loop n s 0 = Some 0"
    by (subst INADDR_TO_IFP_loop.simps) simp
next
  fix p q b
  assume "p \<noteq> 0" "ia_next_of n p = Some q" "map_option (\<lambda>x. x = s) (sin_s_addr n (ia_addr p)) = Some b"
  then show "INADDR_TO_IFP_loop n s p = (if b then Some p else INADDR_TO_IFP_loop n s q)"
    by (subst INADDR_TO_IFP_loop.simps) (auto simp: ia_next_of_def split: Option.bind_splits)
qed

interpretation by_ifp: list_search "ia_next_of n" "\<lambda>p. map_option (\<lambda>a. ifa_ifp a = ifp) (ldifa n p)"
  "IFP_TO_IA_loop n ifp" for n ifp
proof unfold_locales
  show "IFP_TO_IA_loop n ifp 0 = Some 0"
    by (subst IFP_TO_IA_loop.simps) simp
next
  fix p q b
  assume "p \<noteq> 0" "ia_next_of n p = Some q" "map_option (\<lambda>a. ifa_ifp a = ifp) (ldifa n p) = Some b"
  then show "IFP_TO_IA_loop n ifp p = (if b then Some p else IFP_TO_IA_loop n ifp q)"
    by (subst IFP_TO_IA_loop.simps) (auto simp: ia_next_of_def split: Option.bind_splits)
qed

interpretation by_group: list_search "inm_next_of n" "\<lambda>p. map_option (\<lambda>x. inm_addr x = s) (ld_inm n p)"
  "IN_LOOKUP_loop n s" for n s
proof unfold_locales
  show "IN_LOOKUP_loop n s 0 = Some 0"
    by (subst IN_LOOKUP_loop.simps) simp
next
  fix p q b
  assume "p \<noteq> 0" "inm_next_of n p = Some q" "map_option (\<lambda>x. inm_addr x = s) (ld_inm n p) = Some b"
  then show "IN_LOOKUP_loop n s p = (if b then Some p else IN_LOOKUP_loop n s q)"
    by (subst IN_LOOKUP_loop.simps) (auto simp: inm_next_of_def split: Option.bind_splits)
qed

section \<open>Stepping through the groups\<close>

text \<open>The records a position still has to give: the rest of one list, then the lists of the addresses
  that follow.\<close>

definition multi_of :: "net \<Rightarrow> (addr \<Rightarrow> addr list) \<Rightarrow> addr list \<Rightarrow> bool" where
  "multi_of n ms ias \<longleftrightarrow>
     (\<forall>ia\<in>set ias. \<exists>p. ldia n ia = Some p \<and> chain (inm_next_of n) (ia_multiaddrs p) (ms ia))"

definition step_rep :: "net \<Rightarrow> (addr \<Rightarrow> addr list) \<Rightarrow> in_multistep \<Rightarrow> addr list \<Rightarrow> bool" where
  "step_rep n ms sp rest \<longleftrightarrow> (\<exists>now ias. chain (inm_next_of n) (i_inm sp) now \<and>
     chain (ia_next_of n) (i_ia sp) ias \<and> multi_of n ms ias \<and> rest = now @ concat (map ms ias))"

definition gives :: "net \<Rightarrow> (addr \<Rightarrow> addr list) \<Rightarrow> (addr \<times> in_multistep) option \<Rightarrow> addr list \<Rightarrow> bool" where
  "gives n ms r rest \<longleftrightarrow> (case rest of
     [] \<Rightarrow> \<exists>sp. r = Some (0, sp)
   | m # rest \<Rightarrow> \<exists>sp. r = Some (m, sp) \<and> m \<noteq> 0 \<and> step_rep n ms sp rest)"

lemma gives_Nil: "gives n ms (Some (0, sp)) []"
  by (simp add: gives_def)

lemma gives_Cons: "step_rep n ms sp rest \<Longrightarrow> m \<noteq> 0 \<Longrightarrow> gives n ms (Some (m, sp)) (m # rest)"
  by (simp add: gives_def)

text \<open>Taking records until there are no more, at most \<open>k\<close>.\<close>

primrec multi_walk :: "net \<Rightarrow> nat \<Rightarrow> in_multistep \<Rightarrow> addr list option" where
  "multi_walk n 0 sp = Some []"
| "multi_walk n (Suc k) sp = do {
     (inm, sp) \<leftarrow> IN_NEXT_MULTI n sp;
     if inm = 0 then Some [] else do { r \<leftarrow> multi_walk n k sp; Some (inm # r) } }"

lemma IN_NEXT_loop_rep:
  assumes "chain (ia_next_of n) (i_ia sp) ias" "multi_of n ms ias" "i_inm sp = 0"
  shows "gives n ms (IN_NEXT_loop n sp 0) (concat (map ms ias))"
  using assms
proof (induction ias arbitrary: sp)
  case Nil
  then show ?case by (subst IN_NEXT_loop.simps) (simp add: gives_Nil)
next
  case (Cons a ias)
  obtain p where p: "i_ia sp = a" "a \<noteq> 0" "ldia n a = Some p" "chain (ia_next_of n) (ia_next p) ias"
    using Cons.prems(1) by (auto simp: iachain_Cons dest: ldia_nz)
  have ms: "chain (inm_next_of n) (ia_multiaddrs p) (ms a)" and rest: "multi_of n ms ias"
    using Cons.prems(2) p(3) by (auto simp: multi_of_def)
  show ?case
  proof (cases "ms a")
    case Nil
    with ms have z: "ia_multiaddrs p = 0" by simp
    let ?sp = "sp\<lparr>i_ia := ia_next p\<rparr>"
    have "IN_NEXT_loop n sp 0 = IN_NEXT_loop n ?sp 0"
      using p z by (subst IN_NEXT_loop.simps) simp
    moreover have "gives n ms (IN_NEXT_loop n ?sp 0) (concat (map ms ias))"
      using p(4) rest Cons.prems(3) by (intro Cons.IH) simp_all
    ultimately show ?thesis using Nil by simp
  next
    case (Cons m now)
    with ms obtain x where x: "ia_multiaddrs p = m" "m \<noteq> 0" "ld_inm n m = Some x"
        "chain (inm_next_of n) (inm_next x) now"
      by (auto simp: inmchain_Cons dest: ld_inm_nz)
    let ?sp = "sp\<lparr>i_ia := ia_next p, i_inm := inm_next x\<rparr>"
    have "IN_NEXT_loop n sp 0 = Some (m, ?sp)"
      using p x by (subst IN_NEXT_loop.simps) simp
    moreover have "step_rep n ms ?sp (now @ concat (map ms ias))"
      unfolding step_rep_def using x(4) p(4) rest by auto
    ultimately show ?thesis using Cons gives_Cons [OF _ x(2)] by simp
  qed
qed

lemma IN_NEXT_rep:
  assumes "step_rep n ms sp rest"
  shows "gives n ms (IN_NEXT_MULTI n sp) rest"
proof -
  obtain now ias where r: "chain (inm_next_of n) (i_inm sp) now" "chain (ia_next_of n) (i_ia sp) ias"
      "multi_of n ms ias" "rest = now @ concat (map ms ias)"
    using assms by (auto simp: step_rep_def)
  show ?thesis
  proof (cases now)
    case Nil
    with r(1) have "i_inm sp = 0" by simp
    with IN_NEXT_loop_rep [OF r(2,3)] r(4) Nil show ?thesis
      by (simp add: IN_NEXT_MULTI_def)
  next
    case (Cons m now')
    with r(1) obtain x where x: "i_inm sp = m" "m \<noteq> 0" "ld_inm n m = Some x" "chain (inm_next_of n) (inm_next x) now'"
      by (auto simp: inmchain_Cons dest: ld_inm_nz)
    then have "IN_NEXT_MULTI n sp = Some (m, sp\<lparr>i_inm := inm_next x\<rparr>)" by (simp add: IN_NEXT_MULTI_def)
    moreover have "step_rep n ms (sp\<lparr>i_inm := inm_next x\<rparr>) (now' @ concat (map ms ias))"
      unfolding step_rep_def using x(4) r(2,3) by auto
    ultimately show ?thesis using r(4) Cons gives_Cons [OF _ x(2)] by simp
  qed
qed

text \<open>C36: from the position in front of the first internet address, stepping with \<open>IN_NEXT_MULTI\<close> gives
  every multicast record of every internet address exactly as often as it is on a list, in the order of
  the addresses and of their lists, and then reports the end.\<close>

theorem multi_walk_all:
  assumes "chain (ia_next_of n) (g_in_ifaddr n) ias" "multi_of n ms ias" "length (concat (map ms ias)) < k"
  shows "multi_walk n k \<lparr>i_ia = g_in_ifaddr n, i_inm = 0\<rparr> = Some (concat (map ms ias))"
proof -
  have walk: "multi_walk n k sp = Some rest" if "step_rep n ms sp rest" "length rest < k" for k sp rest
    using that
  proof (induction k arbitrary: sp rest)
    case 0
    then show ?case by simp
  next
    case (Suc k)
    then show ?case using IN_NEXT_rep [OF Suc.prems(1)] by (cases rest) (auto simp: gives_def)
  qed
  have "step_rep n ms \<lparr>i_ia = g_in_ifaddr n, i_inm = 0\<rparr> (concat (map ms ias))"
    unfolding step_rep_def using assms(1,2) by (intro exI [of _ "[]"] exI [of _ ias]) simp
  then show ?thesis using assms(3) by (rule walk)
qed

text \<open>Two records on the address of the loopback interface.\<close>

definition demo_multi :: net where
  "demo_multi = demo_net\<lparr>n_ifa := (n_ifa demo_net)(24576 \<mapsto>
       zero_ifaddr\<lparr>ifa_ifp := 8, ifa_addr := 24664, ifa_in := Some (demo_ia\<lparr>ia_multiaddrs := 64\<rparr>)\<rparr>),
     n_inm := [64 \<mapsto> \<lparr>inm_addr = 224, inm_ifp = 8, inm_ia = 24576, inm_refcount = 1, inm_timer = 0, inm_next = 72\<rparr>,
       72 \<mapsto> \<lparr>inm_addr = 225, inm_ifp = 8, inm_ia = 24576, inm_refcount = 1, inm_timer = 0, inm_next = 0\<rparr>]\<rparr>"

lemma demo_multi_simps:
  "ldia demo_multi 24576 = Some (demo_ia\<lparr>ia_multiaddrs := 64\<rparr>)" "g_in_ifaddr demo_multi = 24576"
  "ld_inm demo_multi 64 = Some \<lparr>inm_addr = 224, inm_ifp = 8, inm_ia = 24576, inm_refcount = 1, inm_timer = 0, inm_next = 72\<rparr>"
  "ld_inm demo_multi 72 = Some \<lparr>inm_addr = 225, inm_ifp = 8, inm_ia = 24576, inm_refcount = 1, inm_timer = 0, inm_next = 0\<rparr>"
  by (simp_all add: demo_multi_def ldia_def ldifa_def ld_inm_def)

theorem multi_walk_all_witness: "multi_walk demo_multi 3 \<lparr>i_ia = 24576, i_inm = 0\<rparr> = Some [64, 72]"
  using multi_walk_all [of demo_multi "[24576]" "\<lambda>_. [64, 72]" 3]
  by (simp add: demo_multi_simps iachain_Cons multi_of_def inmchain_Cons demo_ia_def)

section \<open>Broadcast addresses\<close>

lemma in_broadcast_loop_chain:
  assumes "chain (ifa_next_of n) p as" "\<forall>a\<in>set as. ldifa n a \<bind> broadcast_match n s t a \<noteq> None"
  shows "in_broadcast_loop n s t p =
    (if \<exists>a\<in>set as. ldifa n a \<bind> broadcast_match n s t a = Some True then Some 0 else None)"
  using assms
proof (induction as arbitrary: p)
  case Nil
  then show ?case by (subst in_broadcast_loop.simps) simp
next
  case (Cons a as)
  obtain x where x: "p = a" "a \<noteq> 0" "ldifa n a = Some x" "chain (ifa_next_of n) (ifa_next x) as"
    using Cons.prems(1) by (auto simp: ifachain_Cons dest: ldifa_nz)
  obtain b where "broadcast_match n s t a x = Some b"
    using Cons.prems(2) x(3) by auto
  then show ?case
    using x Cons.IH [OF x(4)] Cons.prems(2) by (subst in_broadcast_loop.simps) auto
qed

text \<open>C38: \<open>in_broadcast\<close> says yes to the two addresses that are a broadcast on every net and no on an
  interface without broadcast; on an interface with broadcast it says no to the broadcast addresses of
  the interface's own nets, and for every other address it ends without a result.\<close>

theorem in_broadcast_cases:
  assumes "ldif n ifp = Some i" "chain (ifa_next_of n) (if_addrlist i) as"
    "\<forall>a\<in>set as. ldifa n a \<bind> broadcast_match n s (ntohl s) a \<noteq> None"
  shows "in_broadcast n s ifp =
    (if s = INADDR_BROADCAST \<or> s = INADDR_ANY then Some 1
     else if \<not> has (if_flags i) IFF_BROADCAST then Some 0
     else if \<exists>a\<in>set as. ldifa n a \<bind> broadcast_match n s (ntohl s) a = Some True then Some 0
     else None)"
  using assms in_broadcast_loop_chain [OF assms(2,3)] by (simp add: in_broadcast_def)

text \<open>The loopback interface with the broadcast flag.\<close>

definition demo_bc :: net where
  "demo_bc = demo_net\<lparr>n_if := (n_if demo_net)(8 \<mapsto> demo_lo\<lparr>if_flags := IFF_UP OR IFF_BROADCAST\<rparr>)\<rparr>"

lemma demo_bc_simps:
  "ldif demo_bc 8 = Some (demo_lo\<lparr>if_flags := IFF_UP OR IFF_BROADCAST\<rparr>)" "ldifa demo_bc a = ldifa demo_net a"
  "ldia demo_bc a = ldia demo_net a" "nrd demo_bc = nrd demo_net" "n_mem demo_bc = demo_mem" "g_in_ifaddr demo_bc = 24576"
  by (simp_all add: demo_bc_def ldia_def ldifa_def nrd_def fun_eq_iff)

lemma demo_in_at: "k + m \<le> 144 \<Longrightarrow> nrd demo_net (24576 + k) m = Some (slice k m demo_in)"
  using rd_buf [of demo_mem 24576 demo_in k m]
  by (simp add: nrd_def demo_ld_none demo_in_def demo_sin_def demo_mask_def)

lemma demo_in_slices:
  "slice 88 16 demo_in = demo_sin" "slice 104 16 demo_in = demo_sin" "slice 120 16 demo_in = demo_mask"
  "slice 108 4 demo_in = [127, 0, 0, 1]"
  by (simp_all add: slice_def demo_in_def demo_sin_def demo_mask_def)

lemma demo_match:
  "ldifa demo_net 32768 \<bind> broadcast_match demo_bc s t 32768 = Some False"
  "ldifa demo_net 24576 \<bind> broadcast_match demo_bc s t 24576 = Some (s = 16777343 \<or> s = 0 \<or> t = 0x7F000000)"
proof -
  have fam: "sa_family demo_bc 20480 = Some 18" "sa_family demo_bc 24664 = Some 2"
    using demo_sa_family by (simp_all add: sa_family_def rd8_def demo_bc_simps)
  have bro: "sin_s_addr demo_bc 24680 = Some 16777343"
    using demo_in_at [of 108 4] by (simp add: sin_s_addr_def rd32_def demo_bc_simps demo_in_slices)
  show "ldifa demo_net 32768 \<bind> broadcast_match demo_bc s t 32768 = Some False"
    using fam(1) by (simp add: broadcast_match_def AF_INET_def)
  show "ldifa demo_net 24576 \<bind> broadcast_match demo_bc s t 24576 = Some (s = 16777343 \<or> s = 0 \<or> t = 0x7F000000)"
    using fam(2) bro by (simp add: broadcast_match_def AF_INET_def ia_dstaddr_def demo_bc_simps demo_ia_def)
qed

theorem in_broadcast_cases_witness:
  "in_broadcast demo_bc 16777343 8 = Some 0 \<and> in_broadcast demo_bc 0xffffffff 8 = Some 1 \<and> in_broadcast demo_bc 5 8 = None"
proof -
  let ?i = "demo_lo\<lparr>if_flags := IFF_UP OR IFF_BROADCAST\<rparr>"
  have c: "in_broadcast demo_bc s 8 =
    (if s = INADDR_BROADCAST \<or> s = INADDR_ANY then Some 1
     else if \<not> has (if_flags ?i) IFF_BROADCAST then Some 0
     else if \<exists>a\<in>set [32768, 24576]. ldifa demo_bc a \<bind> broadcast_match demo_bc s (ntohl s) a = Some True then Some 0
     else None)" for s
  proof (rule in_broadcast_cases)
    show "ldif demo_bc 8 = Some ?i" by (simp add: demo_bc_simps)
    have "ifa_next_of demo_bc = ifa_next_of demo_net" by (simp add: fun_eq_iff ifa_next_of_def demo_bc_simps)
    then show "chain (ifa_next_of demo_bc) (if_addrlist ?i) [32768, 24576]" by (simp add: ifachain_Cons)
    show "\<forall>a\<in>set [32768, 24576]. ldifa demo_bc a \<bind> broadcast_match demo_bc s (ntohl s) a \<noteq> None"
      using demo_match [of s "ntohl s"] by (auto simp: demo_bc_simps)
  qed
  have fl: "has (if_flags ?i) IFF_BROADCAST" by (simp add: has_def IFF_UP_def IFF_BROADCAST_def)
  have m: "(\<exists>a\<in>set [32768, 24576]. ldifa demo_bc a \<bind> broadcast_match demo_bc s (ntohl s) a = Some True) \<longleftrightarrow>
      s = 16777343 \<or> s = 0 \<or> ntohl s = 0x7F000000" for s
    using demo_match [of s "ntohl s"] by (auto simp: demo_bc_simps)
  have r: "in_broadcast demo_bc s 8 =
      (if s = 0xffffffff \<or> s = 0 then Some 1 else if s = 16777343 \<or> ntohl s = 0x7F000000 then Some 0 else None)" for s
    using c [of s] fl unfolding m by (simp add: INADDR_BROADCAST_def INADDR_ANY_def)
  have "ntohl 5 \<noteq> 0x7F000000" by (simp add: ntohl_def mem_byte_def)
  then show ?thesis by (simp add: r)
qed

section \<open>Requests\<close>

text \<open>The bytes of an \<open>in_ifaddr\<close>.\<close>

definition in_block :: "net \<Rightarrow> addr \<Rightarrow> u_char list \<Rightarrow> bool" where
  "in_block n ia bs \<longleftrightarrow> mm_buf (n_mem n) ia = Some bs \<and> length bs = 144 \<and> wf_mem (n_mem n)"

lemma in_block_at:
  assumes "in_block n ia bs"
  shows "ld (n_mem n) ia = None" "ia mod 4096 = 0" "ia \<noteq> 0"
proof -
  show "ia mod 4096 = 0" "ia \<noteq> 0" using assms by (auto simp: in_block_def wf_mem_def)
  show "ld (n_mem n) ia = None"
    using assms unfolding in_block_def wf_mem_def ld_def by (metis not_Some_eq)
qed

lemma nrd_in:
  assumes "in_block n ia bs" "k + m \<le> 144"
  shows "nrd n (ia + k) m = Some (slice k m bs)"
  using rd_buf [of "n_mem n" ia bs k m] in_block_at [OF assms(1)] assms by (simp add: in_block_def nrd_def)

lemma nwr_in:
  assumes "in_block n ia bs" "k + length xs \<le> 144"
  shows "nwr n (ia + k) xs = Some (n\<lparr>n_mem := wb (n_mem n) ia (patch bs k xs)\<rparr>)"
    "in_block (n\<lparr>n_mem := wb (n_mem n) ia (patch bs k xs)\<rparr>) ia (patch bs k xs)"
proof -
  note at = in_block_at [OF assms(1)]
  show "nwr n (ia + k) xs = Some (n\<lparr>n_mem := wb (n_mem n) ia (patch bs k xs)\<rparr>)"
    using wr_buf [of "n_mem n" ia bs k xs] at assms by (simp add: in_block_def nwr_def)
  have "mm_mbuf (n_mem n) ia = None" using at(1,3) by (simp add: ld_def)
  moreover have "ia div 4096 < mm_next (n_mem n)"
    using assms(1) by (auto simp: in_block_def wf_mem_def)
  ultimately have "wf_mem (wb (n_mem n) ia (patch bs k xs))"
    using assms at by (intro wf_wb) (auto simp: in_block_def)
  then show "in_block (n\<lparr>n_mem := wb (n_mem n) ia (patch bs k xs)\<rparr>) ia (patch bs k xs)"
    using assms by (simp add: in_block_def wb_def)
qed

text \<open>The state in which a request about the interface \<open>ifp\<close> is carried out.\<close>

definition rehomed :: "net \<Rightarrow> addr \<Rightarrow> ifaddr \<Rightarrow> net" where
  "rehomed n ifp a = n\<lparr>n_ifa := (n_ifa n)(g_in_ifaddr n \<mapsto> a\<lparr>ifa_ifp := ifp\<rparr>)\<rparr>"

lemma in_control_found:
  assumes "ifp \<noteq> 0" "ldifa n (g_in_ifaddr n) = Some a"
  shows "in_control_find n ifp (g_in_ifaddr n) = Some (g_in_ifaddr n, rehomed n ifp a)"
  using assms ldifa_nz [OF assms(2)]
  by (subst in_control_find.simps) (simp add: updifa_eq rehomed_def)

lemma rehomed_sel [simp]:
  "n_mem (rehomed n ifp a) = n_mem n" "g_in_ifaddr (rehomed n ifp a) = g_in_ifaddr n"
  "ldif (rehomed n ifp a) p = ldif n p" "nrd (rehomed n ifp a) = nrd n"
  "in_block (rehomed n ifp a) p bs = in_block n p bs"
  by (simp_all add: rehomed_def ldif_def nrd_def fun_eq_iff in_block_def)

lemma brdaddr_cases:
  "SIOCSIFBRDADDR \<notin> {SIOCAIFADDR, SIOCDIFADDR, SIOCSIFADDR, SIOCSIFNETMASK, SIOCSIFDSTADDR, SIOCGIFADDR}"
  "SIOCGIFBRDADDR \<notin> {SIOCAIFADDR, SIOCDIFADDR, SIOCSIFADDR, SIOCSIFNETMASK, SIOCSIFDSTADDR, SIOCGIFADDR,
     SIOCSIFBRDADDR, SIOCGIFNETMASK, SIOCGIFDSTADDR}"
  "SIOCGIFADDR \<notin> {SIOCAIFADDR, SIOCDIFADDR, SIOCSIFADDR, SIOCSIFNETMASK, SIOCSIFDSTADDR, SIOCSIFBRDADDR}"
  by (simp_all add: sioc_values)

text \<open>For any interface, \<open>SIOCGIFADDR\<close> answers with the first internet address of the system,
  whatever interface it belongs to, and hands that address over to the interface asked about.\<close>

theorem gifaddr_first:
  assumes "ifp \<noteq> 0" "in_block n (g_in_ifaddr n) bs" "ldifa n (g_in_ifaddr n) = Some a" "32 \<le> length ds"
  shows "\<exists>n' d'. in_control e so SIOCGIFADDR (Bytes ds) ifp n = Some (0, d', n') \<and>
    req_field d' 16 16 = nrd n (ia_addr (g_in_ifaddr n)) 16 \<and>
    map_option ifa_ifp (ldifa n' (g_in_ifaddr n)) = Some ifp"
proof -
  let ?n = "rehomed n ifp a" and ?ia = "g_in_ifaddr n"
  have rd: "nrd n (ia_addr ?ia) 16 = Some (slice 88 16 bs)"
    using nrd_in [OF assms(2), of 88 16] by (simp add: ia_addr_def)
  have len: "length (slice 88 16 bs) = 16" using assms(2) by (simp add: in_block_def)
  obtain d' where d: "req_store (Bytes ds) 16 (slice 88 16 bs) = Some d'"
    using assms(4) len by (simp add: req_store_def)
  have nz: "?ia \<noteq> 0" using ldifa_nz [OF assms(3)] .
  have "in_control e so SIOCGIFADDR (Bytes ds) ifp n = Some (0, d', ?n)"
    using assms(1) brdaddr_cases(3) nz rd d
    by (simp add: in_control_def in_control_found [OF assms(1,3)] in_control_check_def in_control_do_def put_addr_def)
  moreover have "req_field d' 16 16 = nrd n (ia_addr ?ia) 16"
    using req_store_field [OF d] len rd by simp
  moreover have "map_option ifa_ifp (ldifa ?n ?ia) = Some ifp"
    using nz by (simp add: rehomed_def)
  ultimately show ?thesis by blast
qed

theorem gifaddr_first_witness:
  "\<exists>n' d'. in_control demo_env demo_so SIOCGIFADDR (Bytes (replicate 32 0)) 16 demo_net = Some (0, d', n') \<and>
    req_field d' 16 16 = nrd demo_net (ia_addr (g_in_ifaddr demo_net)) 16 \<and>
    map_option ifa_ifp (ldifa n' (g_in_ifaddr demo_net)) = Some 16"
proof (rule gifaddr_first)
  show "in_block demo_net (g_in_ifaddr demo_net) demo_in"
    by (simp add: in_block_def demo_mem_wf, simp add: demo_in_def demo_sin_def demo_mask_def)
  show "ldifa demo_net (g_in_ifaddr demo_net) = Some (zero_ifaddr\<lparr>ifa_ifp := 8, ifa_addr := 24664, ifa_dstaddr := 24680,
     ifa_netmask := 24696, ifa_in := Some demo_ia\<rparr>)" by simp
qed simp_all

text \<open>On an interface with broadcast, the broadcast address that a privileged \<open>SIOCSIFBRDADDR\<close>
  stores is the one \<open>SIOCGIFBRDADDR\<close> gives back, byte for byte; without the privilege the request is
  refused and changes nothing in memory.\<close>

theorem brdaddr_roundtrip:
  assumes "ldif n ifp = Some i" "has (if_flags i) IFF_BROADCAST" "in_block n (g_in_ifaddr n) bs"
    "ldifa n (g_in_ifaddr n) = Some a" "length ds = 32" "length ds' = 32"
  shows "if has (so_state so) SS_PRIV
    then \<exists>n' n'' d. in_control e so SIOCSIFBRDADDR (Bytes ds) ifp n = Some (0, Bytes ds, n') \<and>
      in_control e so SIOCGIFBRDADDR (Bytes ds') ifp n' = Some (0, d, n'') \<and>
      req_field d 16 16 = req_field (Bytes ds) 16 16
    else \<exists>n'. in_control e so SIOCSIFBRDADDR (Bytes ds) ifp n = Some (EPERM, Bytes ds, n') \<and> n_mem n' = n_mem n"
proof -
  let ?ia = "g_in_ifaddr n" and ?x = "slice 16 16 ds"
  let ?n = "rehomed n ifp a"
  note nz = ldif_nz [OF assms(1)] ldifa_nz [OF assms(4)]
  have len: "length ?x = 16" using assms(5) by simp
  have blk: "in_block ?n ?ia bs" using assms(3) by simp
  note w = nwr_in [OF blk, of 104 ?x, unfolded len, simplified]
  let ?m = "?n\<lparr>n_mem := wb (n_mem n) ?ia (patch bs 104 ?x)\<rparr>"
  show ?thesis
  proof (cases "has (so_state so) SS_PRIV")
    case False
    then have "in_control e so SIOCSIFBRDADDR (Bytes ds) ifp n = Some (EPERM, Bytes ds, ?n)"
      using nz brdaddr_cases(1)
      by (simp add: in_control_def in_control_found [OF _ assms(4)] in_control_check_def)
    with False show ?thesis by auto
  next
    case True
    have field: "req_field (Bytes ds) 16 16 = Some ?x" using assms(5) by (simp add: req_field_def)
    have set: "in_control e so SIOCSIFBRDADDR (Bytes ds) ifp n = Some (0, Bytes ds, ?m)"
      using nz brdaddr_cases(1) True assms(1,2) field w(1)
      by (simp add: in_control_def in_control_found [OF _ assms(4)] in_control_check_def in_control_do_def
          need_flag_def ia_dstaddr_def)
    obtain b where b: "ldifa ?m ?ia = Some b" using nz by (simp add: rehomed_def)
    have g: "g_in_ifaddr ?m = ?ia" "ldif (rehomed ?m ifp b) ifp = Some i" using assms(1) by simp_all
    have "nrd (rehomed ?m ifp b) (?ia + 104) 16 = Some (slice 104 16 (patch bs 104 ?x))"
      using nrd_in [of "rehomed ?m ifp b" ?ia "patch bs 104 ?x" 104 16] w(2) by simp
    moreover have "slice 104 16 (patch bs 104 ?x) = ?x"
      using slice_patch_same [of 104 ?x bs] assms(3) len by (simp add: in_block_def)
    ultimately have rd: "nrd (rehomed ?m ifp b) (?ia + 104) 16 = Some ?x" by simp
    obtain d where d: "req_store (Bytes ds') 16 ?x = Some d" using assms(6) len by (simp add: req_store_def)
    have "in_control_find ?m ifp ?ia = Some (?ia, rehomed ?m ifp b)"
      using in_control_found [OF nz(1), of ?m b] b g(1) by simp
    then have "in_control e so SIOCGIFBRDADDR (Bytes ds') ifp ?m = Some (0, d, rehomed ?m ifp b)"
      using nz brdaddr_cases(2) assms(2) g rd d
      by (simp add: in_control_def in_control_check_def in_control_do_def need_flag_def put_addr_def ia_dstaddr_def)
    moreover have "req_field d 16 16 = req_field (Bytes ds) 16 16"
      using req_store_field [OF d, of 16] len field by simp
    ultimately show ?thesis using set True by auto
  qed
qed

theorem brdaddr_roundtrip_witness:
  "\<exists>n' n'' d. in_control demo_env (demo_so\<lparr>so_state := SS_PRIV\<rparr>) SIOCSIFBRDADDR (Bytes (replicate 32 7)) 8 demo_bc =
      Some (0, Bytes (replicate 32 7), n') \<and>
    in_control demo_env (demo_so\<lparr>so_state := SS_PRIV\<rparr>) SIOCGIFBRDADDR (Bytes (replicate 32 0)) 8 n' = Some (0, d, n'') \<and>
    req_field d 16 16 = req_field (Bytes (replicate 32 7)) 16 16"
proof -
  have priv: "has (so_state (demo_so\<lparr>so_state := SS_PRIV\<rparr>)) SS_PRIV" by (simp add: has_def SS_PRIV_def)
  have blk: "in_block demo_bc (g_in_ifaddr demo_bc) demo_in"
    by (simp add: in_block_def demo_bc_simps demo_mem_wf, simp add: demo_in_def demo_sin_def demo_mask_def)
  have bc: "has (if_flags (demo_lo\<lparr>if_flags := IFF_UP OR IFF_BROADCAST\<rparr>)) IFF_BROADCAST"
    by (simp add: has_def IFF_UP_def IFF_BROADCAST_def)
  have a: "ldifa demo_bc (g_in_ifaddr demo_bc) = Some (zero_ifaddr\<lparr>ifa_ifp := 8, ifa_addr := 24664, ifa_dstaddr := 24680,
     ifa_netmask := 24696, ifa_in := Some demo_ia\<rparr>)" by (simp add: demo_bc_simps)
  show ?thesis
    using brdaddr_roundtrip [OF demo_bc_simps(1) bc blk a, of "replicate 32 7" "replicate 32 0" "demo_so\<lparr>so_state := SS_PRIV\<rparr>" demo_env]
      priv by simp
qed

end
