(* ===== verification/Loop.thy ===== *)
theory Loop
  imports If Stubs
begin

text \<open>
  The loopback interface (\<open>net/if_loop.c\<close>): its output routine puts a packet on the IP input queue.
  The interface is the static object \<open>loif\<close>.
\<close>

section \<open>Counters\<close>

definition upd_data :: "net \<Rightarrow> addr \<Rightarrow> (ifdata \<Rightarrow> ifdata) \<Rightarrow> net option" where
  "upd_data n ifp f = updif n ifp (\<lambda>i. i\<lparr>if_data := f (if_data i)\<rparr>)"

definition upd_mbuf :: "net \<Rightarrow> addr \<Rightarrow> (mbuf \<Rightarrow> mbuf) \<Rightarrow> net option" where
  "upd_mbuf n m f = do { h \<leftarrow> upd (n_mem n) m f; Some (n\<lparr>n_mem := h\<rparr>) }"

definition freem :: "net \<Rightarrow> addr \<Rightarrow> net option" where
  "freem n m = do { h \<leftarrow> m_freem (n_mem n) m; Some (n\<lparr>n_mem := h\<rparr>) }"

text \<open>A driver takes the argument of a request for an interface address, whatever the caller passed; in the bytes of a
  request it finds the pointer \<open>ifa_addr\<close> at offset 16 and \<open>ifa_flags\<close> at offset 48.\<close>

definition arg_ifa_addr :: "net \<Rightarrow> ioarg \<Rightarrow> addr option" where
  "arg_ifa_addr n d = (case d of Ifa a \<Rightarrow> map_option ifa_addr (ldifa n a)
     | Bytes bs \<Rightarrow> map_option le_nat (req_field d 16 8))"

definition arg_ifa_flags :: "net \<Rightarrow> ioarg \<Rightarrow> u_short option" where
  "arg_ifa_flags n d = (case d of Ifa a \<Rightarrow> map_option ifa_flags (ldifa n a)
     | Bytes bs \<Rightarrow> map_option (\<lambda>b. word_of_nat (le_nat b)) (req_field d 48 2))"

section \<open>Operations\<close>

definition LOMTU :: u_long where "LOMTU = 1536"

definition loopattach :: "net \<Rightarrow> int \<Rightarrow> net option" where
  "loopattach n k = do {
     n \<leftarrow> updif n loif (\<lambda>i. i\<lparr>if_next := 0, if_name := Some [108, 111], if_flags := IFF_MULTICAST OR IFF_LOOPBACK,
            if_data := (if_data i)\<lparr>ifi_type := IFT_LOOP, ifi_mtu := LOMTU, ifi_metric := 0\<rparr>,
            if_output := F_looutput, if_ioctl := F_loioctl\<rparr>);
     if_attach n loif }"

definition loioctl :: "addr \<Rightarrow> u_int \<Rightarrow> ioarg \<Rightarrow> net \<Rightarrow> (int \<times> ioarg \<times> net) option" where
  "loioctl ifp cmd data n =
     (if cmd = SIOCSIFADDR
      then do { n \<leftarrow> updif n ifp (\<lambda>i. i\<lparr>if_flags := if_flags i OR IFF_UP\<rparr>); Some (0, data, n) }
      else Some (EINVAL, data, n))"

definition NETISR_IP :: int where "NETISR_IP = 2"

text \<open>The error for a route that refuses packets.\<close>

definition reject_error :: "rtentry \<Rightarrow> int" where
  "reject_error r = (if has (rt_flags r) RTF_BLACKHOLE then 0
     else if has (rt_flags r) RTF_HOST then EHOSTUNREACH else ENETUNREACH)"

definition lo_deliver :: "addr \<Rightarrow> addr \<Rightarrow> addr \<Rightarrow> net \<Rightarrow> (int \<times> net) option" where
  "lo_deliver ifp m dst n = do {
     b \<leftarrow> ld (n_mem n) m;
     n \<leftarrow> upd_data n ifp (\<lambda>d. d\<lparr>ifi_opackets := ifi_opackets d + 1, ifi_obytes := ifi_obytes d + word_of_int (pk_len b)\<rparr>);
     f \<leftarrow> sa_family n dst;
     if f = AF_INET
     then if IF_QFULL (g_ipintrq n)
          then do { n \<leftarrow> freem (n\<lparr>g_ipintrq := IF_DROP (g_ipintrq n)\<rparr>) m; Some (ENOBUFS, n) }
          else do {
            (h, q) \<leftarrow> IF_ENQUEUE (n_mem n) (g_ipintrq n) m;
            let n = n\<lparr>n_mem := h, g_ipintrq := q\<rparr>;
            b \<leftarrow> ld (n_mem n) m;
            n \<leftarrow> upd_data n ifp (\<lambda>d. d\<lparr>ifi_ipackets := ifi_ipackets d + 1, ifi_ibytes := ifi_ibytes d + word_of_int (pk_len b)\<rparr>);
            Some (0, n) }
     else do { n \<leftarrow> freem n m; Some (EAFNOSUPPORT, n) } }"

definition looutput :: "addr \<Rightarrow> addr \<Rightarrow> addr \<Rightarrow> addr \<Rightarrow> net \<Rightarrow> (int \<times> net) option" where
  "looutput ifp m dst rt n = do {
     _ \<leftarrow> ld (n_mem n) m;
     n \<leftarrow> upd_data n ifp (\<lambda>d. d\<lparr>ifi_lastchange := g_time n\<rparr>);
     lo \<leftarrow> ldif n loif;
     n \<leftarrow> (if if_bpf lo \<noteq> 0 then do { _ \<leftarrow> sa_family n dst; Some (bpf_mtap n (if_bpf lo) m) } else Some n);
     n \<leftarrow> upd_mbuf n m (set_pk_rcvif ifp);
     r \<leftarrow> (if rt = 0 then Some None else map_option Some (ldrt n rt));
     case r of
       Some r \<Rightarrow>
         if has (rt_flags r) (RTF_REJECT OR RTF_BLACKHOLE)
         then do { n \<leftarrow> freem n m; Some (reject_error r, n) }
         else lo_deliver ifp m dst n
     | None \<Rightarrow> lo_deliver ifp m dst n }"

definition lortrequest :: "net \<Rightarrow> int \<Rightarrow> addr \<Rightarrow> addr \<Rightarrow> net" where "lortrequest n cmd rt sa = n"

end
