(* ===== verification/Ether.thy ===== *)
theory Ether
  imports Loop Endian
begin

text \<open>
  Ethernet framing (\<open>net/if_ethersubr.c\<close>, \<open>netinet/if_ether.h\<close>): the output routine that prepends the
  header and queues the packet for the driver, the input routine that queues it for a protocol, and
  the macros over the multicast records of an interface.  Address resolution is the empty
  \<open>arpresolve\<close>, which never resolves.
\<close>

section \<open>Headers\<close>

record ether_header =
  ether_dhost :: "u_char list"
  ether_shost :: "u_char list"
  ether_type :: u_short

definition ETHERTYPE_IP :: u_short where "ETHERTYPE_IP = 0x0800"
definition ETHERTYPE_ARP :: u_short where "ETHERTYPE_ARP = 0x0806"
definition etherbroadcastaddr :: "u_char list" where
  "etherbroadcastaddr = [0xff, 0xff, 0xff, 0xff, 0xff, 0xff]"
definition ether_ipmulticast_min :: "u_char list" where "ether_ipmulticast_min = [0x01, 0x00, 0x5e, 0x00, 0x00, 0x00]"
definition ether_ipmulticast_max :: "u_char list" where "ether_ipmulticast_max = [0x01, 0x00, 0x5e, 0x7f, 0xff, 0xff]"
definition sizeof_ether_header :: nat where "sizeof_ether_header = 14"

definition get_eh :: "net \<Rightarrow> addr \<Rightarrow> ether_header option" where
  "get_eh n p = do {
     d \<leftarrow> nrd n p 6;
     s \<leftarrow> nrd n (p + 6) 6;
     t \<leftarrow> rd16 n (p + 12);
     Some \<lparr>ether_dhost = d, ether_shost = s, ether_type = t\<rparr> }"

section \<open>Output\<close>

text \<open>The route of a packet: an error, or the route entry to use.\<close>

definition ether_gateway :: "addr \<Rightarrow> net \<Rightarrow> ((int + addr) \<times> net) option" where
  "ether_gateway rt n = do {
     r \<leftarrow> ldrt n rt;
     let (g, n) = rtalloc1 n (rt_gateway r) 1;
     n \<leftarrow> updrt n rt (\<lambda>r. r\<lparr>rt_gwroute := g\<rparr>);
     Some (if g = 0 then Inl EHOSTUNREACH else Inr g, n) }"

definition ether_reject :: "addr \<Rightarrow> addr \<Rightarrow> net \<Rightarrow> ((int + addr) \<times> net) option" where
  "ether_reject rt rt0 n = do {
     r \<leftarrow> ldrt n rt;
     Some (if has (rt_flags r) RTF_REJECT \<and>
             (rmx_expire (rt_rmx r) = 0 \<or> word_of_int (tv_sec (g_time n)) < rmx_expire (rt_rmx r))
           then Inl (if rt = rt0 then EHOSTDOWN else EHOSTUNREACH) else Inr rt, n) }"

definition ether_route :: "addr \<Rightarrow> addr \<Rightarrow> net \<Rightarrow> ((int + addr) \<times> net) option" where
  "ether_route dst rt0 n =
     (if rt0 = 0 then Some (Inr 0, n)
      else do {
        r \<leftarrow> ldrt n rt0;
        (x, n) \<leftarrow> (if \<not> has (rt_flags r) RTF_UP
                  then do {
                    let (rt, n) = rtalloc1 n dst 1;
                    if rt = 0 then Some (Inl EHOSTUNREACH, n)
                    else do { n \<leftarrow> updrt n rt (\<lambda>r. r\<lparr>rt_refcnt := rt_refcnt r - 1\<rparr>); Some (Inr rt, n) } }
                  else Some (Inr rt0, n));
        case x of Inl e \<Rightarrow> Some (Inl e, n)
        | Inr rt0 \<Rightarrow> do {
            r \<leftarrow> ldrt n rt0;
            (x, n) \<leftarrow> (if has (rt_flags r) RTF_GATEWAY
                      then if rt_gwroute r = 0 then ether_gateway rt0 n
                           else do {
                             g \<leftarrow> ldrt n (rt_gwroute r);
                             if \<not> has (rt_flags g) RTF_UP then ether_gateway rt0 (rtfree n (rt_gwroute r))
                             else Some (Inr (rt_gwroute r), n) }
                      else Some (Inr rt0, n));
            case x of Inl e \<Rightarrow> Some (Inl e, n) | Inr rt \<Rightarrow> ether_reject rt rt0 n } })"

text \<open>The label \<open>bad\<close>.\<close>

definition ether_bad :: "int \<Rightarrow> addr \<Rightarrow> net \<Rightarrow> (int \<times> net) option" where
  "ether_bad err m n = (if m \<noteq> 0 then do { n \<leftarrow> freem n m; Some (err, n) } else Some (err, n))"

text \<open>From the header on: it is the packet without the header, \<open>m0\<close>, that is queued, and the packet with
  it, \<open>m\<close>, that is freed at the end of the normal path, too.\<close>

definition ether_send ::
    "env \<Rightarrow> addr \<Rightarrow> addr \<Rightarrow> int \<Rightarrow> u_char list \<Rightarrow> u_short \<Rightarrow> net \<Rightarrow> (int \<times> net) option" where
  "ether_send e ifp m0 len edst type n = do {
     (m, h) \<leftarrow> M_PREPEND (n_mem n) m0 sizeof_ether_header 1;
     let n = n\<lparr>n_mem := h\<rparr>;
     if m = 0 then ether_bad ENOBUFS m n
     else do {
       b \<leftarrow> ld (n_mem n) m;
       n \<leftarrow> nwr n (m_data b + 12) (nat_le 2 (unat (HTONS type)));
       n \<leftarrow> nwr n (m_data b) edst;
       ac \<leftarrow> n_ac n ifp;
       n \<leftarrow> nwr n (m_data b + 6) (ac_enaddr ac);
       i \<leftarrow> ldif n ifp;
       if IF_QFULL (if_snd i)
       then do { n \<leftarrow> updif n ifp (\<lambda>i. i\<lparr>if_snd := IF_DROP (if_snd i)\<rparr>); ether_bad ENOBUFS m n }
       else do {
         (h, q) \<leftarrow> IF_ENQUEUE (n_mem n) (if_snd i) m0;
         n \<leftarrow> updif (n\<lparr>n_mem := h\<rparr>) ifp (\<lambda>i. i\<lparr>if_snd := q\<rparr>);
         n \<leftarrow> (if \<not> has (if_flags i) IFF_OACTIVE \<and> if_start i \<noteq> FNull then e_start e (if_start i) ifp n else Some n);
         n \<leftarrow> upd_data n ifp (\<lambda>d. d\<lparr>ifi_obytes := word_of_int (len + int sizeof_ether_header)\<rparr>);
         b \<leftarrow> ld (n_mem n) m;
         n \<leftarrow> (if has (m_flags b) M_MCAST then upd_data n ifp (\<lambda>d. d\<lparr>ifi_omcasts := ifi_omcasts d + 1\<rparr>) else Some n);
         ether_bad 0 m n } } }"

text \<open>\<open>junk\<close> is what the uninitialised local variables hold: six bytes of address and a type.\<close>

definition ether_output ::
    "env \<Rightarrow> u_char list \<times> u_short \<Rightarrow> addr \<Rightarrow> addr \<Rightarrow> addr \<Rightarrow> addr \<Rightarrow> net \<Rightarrow> (int \<times> net) option" where
  "ether_output e junk ifp m0 dst rt0 n = do {
     b \<leftarrow> ld (n_mem n) m0;
     let len = pk_len b;
     i \<leftarrow> ldif n ifp;
     if \<not> has (if_flags i) IFF_UP then Some (ENETDOWN, n)
     else do {
       n \<leftarrow> upd_data n ifp (\<lambda>d. d\<lparr>ifi_lastchange := g_time n\<rparr>);
       (x, n) \<leftarrow> ether_route dst rt0 n;
       case x of Inl err \<Rightarrow> ether_bad err m0 n
       | Inr rt \<Rightarrow> do {
           f \<leftarrow> sa_family n dst;
           if f = AF_INET
           then do {
             let (r, edst, n) = arpresolve n ifp rt m0 dst (fst junk);
             if r = 0 then Some (0, n)
             else do {
               b \<leftarrow> ld (n_mem n) m0;
               n \<leftarrow> (if has (if_flags i) IFF_SIMPLEX \<and> has (m_flags b) IFF_BROADCAST
                     then do {
                       (mcopy, h) \<leftarrow> m_copy (n_mem n) m0 0 len;
                       if mcopy \<noteq> 0 then do { (_, n) \<leftarrow> looutput ifp mcopy dst rt (n\<lparr>n_mem := h\<rparr>); Some n }
                       else Some (n\<lparr>n_mem := h\<rparr>) }
                     else Some n);
               ether_send e ifp m0 len edst ETHERTYPE_IP n } }
           else if f = AF_ISO then ether_send e ifp m0 len (fst junk) (snd junk) n
           else if f = AF_UNSPEC
           then do {
             eh \<leftarrow> get_eh n (dst + 2);
             ether_send e ifp m0 len (ether_dhost eh) (ether_type eh) n }
           else ether_bad EAFNOSUPPORT m0 n } } }"

section \<open>Input\<close>

definition IFQ_in :: "net \<Rightarrow> ifqueue \<Rightarrow> addr \<Rightarrow> (ifqueue \<times> net) option" where
  "IFQ_in n q m =
     (if IF_QFULL q then do { n \<leftarrow> freem n m; Some (IF_DROP q, n) }
      else do { (h, q) \<leftarrow> IF_ENQUEUE (n_mem n) q m; Some (q, n\<lparr>n_mem := h\<rparr>) })"

definition ether_input :: "addr \<Rightarrow> addr \<Rightarrow> addr \<Rightarrow> net \<Rightarrow> net option" where
  "ether_input ifp eh m n = do {
     let n = n\<lparr>g_ipintrq := (g_ipintrq n)\<lparr>ifq_maxlen := IFQ_MAXLEN\<rparr>\<rparr>;
     i \<leftarrow> ldif n ifp;
     if \<not> has (if_flags i) IFF_UP then freem n m
     else do {
       b \<leftarrow> ld (n_mem n) m;
       n \<leftarrow> upd_data n ifp (\<lambda>d. d\<lparr>ifi_ibytes := ifi_ibytes d + word_of_int (pk_len b + 14),
              ifi_lastchange := \<lparr>tv_sec = 0, tv_usec = 0\<rparr>\<rparr>);
       dh \<leftarrow> nrd n eh 6;
       n \<leftarrow> (if dh = etherbroadcastaddr then upd_mbuf n m (\<lambda>b. b\<lparr>m_flags := m_flags b OR M_BCAST\<rparr>)
             else if has (hd dh) 0x1 then upd_mbuf n m (\<lambda>b. b\<lparr>m_flags := m_flags b OR M_MCAST\<rparr>)
             else Some n);
       t \<leftarrow> rd16 n (eh + 12);
       if htons t = ETHERTYPE_IP
       then do { (q, n) \<leftarrow> IFQ_in n (g_ipintrq n) m; Some (n\<lparr>g_ipintrq := q\<rparr>) }
       else if htons t = ETHERTYPE_ARP
       then do { (q, n) \<leftarrow> IFQ_in n (g_arpintrq n) m; Some (n\<lparr>g_arpintrq := q\<rparr>) }
       else if unat t > unat ETHERMTU then freem n m
       else Some n } }"

section \<open>Multicast records\<close>

definition ld_enm :: "net \<Rightarrow> addr \<Rightarrow> ether_multi option" where
  "ld_enm n p = (if p = 0 then None else n_enm n p)"

partial_function (option) ETHER_LOOKUP_loop ::
    "net \<Rightarrow> u_char list \<Rightarrow> u_char list \<Rightarrow> addr \<Rightarrow> addr option" where
  "ETHER_LOOKUP_loop n lo hi enm =
     (if enm = 0 then Some 0
      else do {
        x \<leftarrow> ld_enm n enm;
        if enm_addrlo x = lo \<and> enm_addrhi x = hi then Some enm
        else ETHER_LOOKUP_loop n lo hi (enm_next x) })"

definition ETHER_LOOKUP_MULTI :: "net \<Rightarrow> u_char list \<Rightarrow> u_char list \<Rightarrow> addr \<Rightarrow> addr option" where
  "ETHER_LOOKUP_MULTI n lo hi ac = do { a \<leftarrow> n_ac n ac; ETHER_LOOKUP_loop n lo hi (ac_multiaddrs a) }"

record ether_multistep =
  e_enm :: addr

definition ETHER_NEXT_MULTI :: "net \<Rightarrow> ether_multistep \<Rightarrow> (addr \<times> ether_multistep) option" where
  "ETHER_NEXT_MULTI n sp =
     (let enm = e_enm sp in
      if enm \<noteq> 0 then do { x \<leftarrow> ld_enm n enm; Some (enm, sp\<lparr>e_enm := enm_next x\<rparr>) }
      else Some (enm, sp))"

text \<open>\<open>ETHER_FIRST_MULTI\<close> has unbalanced parentheses, so that no use of it compiles; it is not modelled.\<close>

section \<open>Functions without a body\<close>

definition ether_sprintf :: "net \<Rightarrow> addr \<Rightarrow> addr" where "ether_sprintf n ap = 0"
definition ether_addmulti :: "net \<Rightarrow> addr \<Rightarrow> addr \<Rightarrow> int \<times> net" where "ether_addmulti n ifr ac = (0, n)"
definition ether_delmulti :: "net \<Rightarrow> addr \<Rightarrow> addr \<Rightarrow> int \<times> net" where "ether_delmulti n ifr ac = (0, n)"

end
