(* ===== verification/EtherProps.thy ===== *)
theory EtherProps
  imports Ether IfProps MbufProps
begin

text \<open>
  What the loopback and ethernet interfaces do with packets: delivery to the IP input queue, the
  queue on which a frame to be sent ends up, and the choice of the input queue of a received frame.
\<close>

section \<open>Facts\<close>

lemma upd_data_eq:
  "ldif n p = Some i \<Longrightarrow> upd_data n p f = Some (n\<lparr>n_if := (n_if n)(p \<mapsto> i\<lparr>if_data := f (if_data i)\<rparr>)\<rparr>)"
  by (simp add: upd_data_def updif_eq)

lemma upd_mbuf_eq: "ld (n_mem n) m = Some b \<Longrightarrow> upd_mbuf n m f = Some (n\<lparr>n_mem := st (n_mem n) m (f b)\<rparr>)"
  by (simp add: upd_mbuf_def upd_eq)

lemma sa_family_st:
  "block_of (p + 1) \<noteq> m \<Longrightarrow> sa_family (n\<lparr>n_mem := st (n_mem n) m b\<rparr>) p = sa_family n p"
  by (simp add: sa_family_def rd8_def nrd_def rd_st_other)

lemma sa_family_if [simp]: "sa_family (n\<lparr>n_if := f\<rparr>) p = sa_family n p"
  "sa_family (n\<lparr>n_if := f, n_mem := h\<rparr>) p = sa_family (n\<lparr>n_mem := h\<rparr>) p"
  by (simp_all add: sa_family_def rd8_def nrd_def)

text \<open>A packet whose mbufs are \<open>as\<close>, none with a cluster.\<close>

definition simple_packet :: "mem \<Rightarrow> addr \<Rightarrow> addr list \<Rightarrow> bool" where
  "simple_packet h m as \<longleftrightarrow> m \<noteq> 0 \<and> mchain h m as \<and> (\<forall>a\<in>set as. \<forall>b. ld h a = Some b \<longrightarrow> \<not> has (m_flags b) M_EXT)"

lemma simple_packet_freem: "simple_packet (n_mem n) m as \<Longrightarrow> freem n m = Some (n\<lparr>n_mem := without (n_mem n) (set as)\<rparr>)"
  using m_freem_chain [of "n_mem n" m as] by (simp add: freem_def simple_packet_def)

lemma simple_packet_ld: "simple_packet h m as \<Longrightarrow> \<exists>b. ld h m = Some b \<and> m \<in> set as"
  by (cases as) (auto simp: simple_packet_def mchain_Cons)

lemma simple_packet_lds: "simple_packet h m as \<Longrightarrow> a \<in> set as \<Longrightarrow> \<exists>b. ld h a = Some b"
  by (auto simp: simple_packet_def intro: mchain_ld)

text \<open>Linking packets into queues does not change them.\<close>

lemma simple_packet_nextpkt:
  assumes "simple_packet h m as" "\<And>a b. ld h a = Some b \<Longrightarrow> \<exists>y. ld h' a = Some (b\<lparr>m_nextpkt := y\<rparr>)"
  shows "simple_packet h' m as"
proof -
  have same: "\<exists>b y. ld h a = Some b \<and> ld h' a = Some (b\<lparr>m_nextpkt := y\<rparr>)" if "a \<in> set as" for a
    using simple_packet_lds [OF assms(1) that] assms(2) by blast
  have "mchain h' m as \<longleftrightarrow> mchain h m as"
    by (rule mchain_cong) (auto dest!: same simp: m_next_of_def)
  moreover have "\<not> has (m_flags c) M_EXT" if "a \<in> set as" "ld h' a = Some c" for a c
    using same [OF that(1)] assms(1) that by (auto simp: simple_packet_def)
  ultimately show ?thesis using assms(1) by (simp add: simple_packet_def)
qed

lemma simple_packet_upd:
  assumes "simple_packet h m as" "ld h m = Some b" "m_next c = m_next b" "has (m_flags c) M_EXT = has (m_flags b) M_EXT"
  shows "simple_packet (st h m c) m as"
  using assms mchain_st_same [of h m b c m as] simple_packet_ld [OF assms(1)]
  by (auto simp: simple_packet_def ld_st split: if_splits)

lemma queue_rep_st: "m \<notin> set ms \<Longrightarrow> queue_rep (st h m c) q ms \<longleftrightarrow> queue_rep h q ms"
  unfolding queue_rep_def by (subst chain_cong [of ms _ "m_nextpkt_of h"]) (auto simp: m_nextpkt_of_st)

section \<open>Loopback output\<close>

lemma looutput_steps:
  assumes "ld (n_mem n) m = Some b" "ldif n ifp = Some i" "ldif n loif = Some lo" "if_bpf lo = 0"
    "rt = 0 \<or> (\<exists>r. ldrt n rt = Some r \<and> \<not> has (rt_flags r) (RTF_REJECT OR RTF_BLACKHOLE))"
  shows "looutput ifp m dst rt n = lo_deliver ifp m dst
    (n\<lparr>n_if := (n_if n)(ifp \<mapsto> i\<lparr>if_data := (if_data i)\<lparr>ifi_lastchange := g_time n\<rparr>\<rparr>),
       n_mem := st (n_mem n) m (set_pk_rcvif ifp b)\<rparr>)"
proof -
  have "\<exists>l. ldif (n\<lparr>n_if := (n_if n)(ifp \<mapsto> i\<lparr>if_data := (if_data i)\<lparr>ifi_lastchange := g_time n\<rparr>\<rparr>)\<rparr>) loif = Some l \<and> if_bpf l = 0"
    using assms(2-4) by (auto simp: loif_def)
  then obtain l where l: "ldif (n\<lparr>n_if := (n_if n)(ifp \<mapsto> i\<lparr>if_data := (if_data i)\<lparr>ifi_lastchange := g_time n\<rparr>\<rparr>)\<rparr>) loif = Some l" "if_bpf l = 0"
    by blast
  show ?thesis
    using assms(1,2,5) l
    by (auto simp: looutput_def upd_data_eq upd_mbuf_eq ldrt_def)
qed

lemma lo_deliver_ok:
  assumes "ld (n_mem n) m = Some b" "ldif n ifp = Some i" "sa_family n dst = Some AF_INET" "\<not> IF_QFULL (g_ipintrq n)"
    "IF_ENQUEUE (n_mem n) (g_ipintrq n) m = Some (h, q)" "ld h m = Some c" "pk_len c = pk_len b"
  shows "lo_deliver ifp m dst n = Some (0, n\<lparr>n_if := (n_if n)(ifp \<mapsto> i\<lparr>if_data := (if_data i)
      \<lparr>ifi_opackets := ifi_opackets (if_data i) + 1, ifi_obytes := ifi_obytes (if_data i) + word_of_int (pk_len b),
       ifi_ipackets := ifi_ipackets (if_data i) + 1, ifi_ibytes := ifi_ibytes (if_data i) + word_of_int (pk_len b)\<rparr>\<rparr>),
     n_mem := h, g_ipintrq := q\<rparr>)"
proof -
  have nz: "0 < ifp" using ldif_nz [OF assms(2)] by simp
  have frame: "ldif (n\<lparr>n_if := f, n_mem := h, g_ipintrq := q\<rparr>) p = (if p = 0 then None else f p)" for f p
    by (simp add: ldif_def)
  show ?thesis
    unfolding lo_deliver_def using nz by (simp add: assms upd_data_eq frame)
qed

lemma lo_deliver_full:
  assumes "ld (n_mem n) m = Some b" "ldif n ifp = Some i" "sa_family n dst = Some AF_INET" "IF_QFULL (g_ipintrq n)"
    "simple_packet (n_mem n) m as"
  shows "lo_deliver ifp m dst n = Some (ENOBUFS, n\<lparr>n_if := (n_if n)(ifp \<mapsto> i\<lparr>if_data := (if_data i)
      \<lparr>ifi_opackets := ifi_opackets (if_data i) + 1, ifi_obytes := ifi_obytes (if_data i) + word_of_int (pk_len b)\<rparr>\<rparr>),
     n_mem := without (n_mem n) (set as), g_ipintrq := IF_DROP (g_ipintrq n)\<rparr>)"
  unfolding lo_deliver_def by (simp add: assms upd_data_eq simple_packet_freem [where as = as])

text \<open>C22: a packet for an internet address that goes out on the loopback interface comes in again: it is
  the last packet of the IP input queue, marked as received on that interface, and the interface counts
  it and its bytes as sent and as received; if the queue is full, every mbuf of the packet is released
  and the queue only counts a drop.\<close>

theorem looutput_delivers:
  assumes "wf_mem (n_mem n)" "simple_packet (n_mem n) m as" "ld (n_mem n) m = Some b" "ldif n ifp = Some i" "ifp < 2 ^ 64"
    "ldif n loif = Some lo" "if_bpf lo = 0"
    "rt = 0 \<or> (\<exists>r. ldrt n rt = Some r \<and> \<not> has (rt_flags r) (RTF_REJECT OR RTF_BLACKHOLE))"
    "sa_family n dst = Some AF_INET" "block_of (dst + 1) \<noteq> m"
    "queue_rep (n_mem n) (g_ipintrq n) ms" "m \<notin> set ms"
  shows "if int (length ms) < ifq_maxlen (g_ipintrq n)
    then \<exists>n' b' i'. looutput ifp m dst rt n = Some (0, n') \<and>
      queue_rep (n_mem n') (g_ipintrq n') (ms @ [m]) \<and> ld (n_mem n') m = Some b' \<and> pk_rcvif b' = ifp \<and>
      ldif n' ifp = Some i' \<and>
      ifi_opackets (if_data i') = ifi_opackets (if_data i) + 1 \<and> ifi_ipackets (if_data i') = ifi_ipackets (if_data i) + 1 \<and>
      ifi_obytes (if_data i') = ifi_obytes (if_data i) + word_of_int (pk_len b) \<and>
      ifi_ibytes (if_data i') = ifi_ibytes (if_data i) + word_of_int (pk_len b)
    else \<exists>n'. looutput ifp m dst rt n = Some (ENOBUFS, n') \<and>
      g_ipintrq n' = (g_ipintrq n)\<lparr>ifq_drops := ifq_drops (g_ipintrq n) + 1\<rparr> \<and>
      (\<forall>a\<in>set as. ld (n_mem n') a = None)"
proof -
  let ?c = "set_pk_rcvif ifp b" let ?h = "st (n_mem n) m ?c"
  let ?i = "i\<lparr>if_data := (if_data i)\<lparr>ifi_lastchange := g_time n\<rparr>\<rparr>"
  let ?n = "n\<lparr>n_if := (n_if n)(ifp \<mapsto> ?i), n_mem := ?h\<rparr>"
  note run = looutput_steps [OF assms(3,4,6,7,8), of dst]
  have nz: "0 < m" "0 < ifp" using ld_nz [OF assms(3)] ldif_nz [OF assms(4)] by simp_all
  have full: "full b" by (rule wf_ld_full [OF assms(1,3)])
  have fam: "sa_family (n\<lparr>n_mem := ?h\<rparr>) dst = Some AF_INET" using sa_family_st assms(9,10) by simp
  have len: "ifq_len (g_ipintrq n) = int (length ms)" using assms(11) by (simp add: queue_rep_def)
  have rep: "queue_rep ?h (g_ipintrq n) ms"
    using assms(11,12) by (simp add: queue_rep_st)
  show ?thesis
  proof (cases "int (length ms) < ifq_maxlen (g_ipintrq n)")
    case True
    have c: "ld ?h m = Some ?c" using nz by simp
    from enqueue_rep [OF rep c assms(12)] obtain h' q' where
      e: "IF_ENQUEUE ?h (g_ipintrq n) m = Some (h', q')" "queue_rep h' q' (ms @ [m])"
         "\<And>a d. ld ?h a = Some d \<Longrightarrow> \<exists>x. ld h' a = Some (d\<lparr>m_nextpkt := x\<rparr>)" by blast
    from e(3) [OF c] obtain x where x: "ld h' m = Some (?c\<lparr>m_nextpkt := x\<rparr>)" by blast
    have c': "pk_len (?c\<lparr>m_nextpkt := x\<rparr>) = pk_len ?c" by simp
    show ?thesis unfolding run
      using lo_deliver_ok [of ?n m ?c ifp ?i dst h' q' "?c\<lparr>m_nextpkt := x\<rparr>"] nz c fam e(1,2) x c' full assms(5) True len
      by (simp add: IF_QFULL_def ldif_def)
  next
    case False
    have "simple_packet ?h m as" by (rule simple_packet_upd [OF assms(2,3)]) simp_all
    with lo_deliver_full [of ?n m ?c ifp ?i dst as] nz fam False len
    show ?thesis unfolding run by (auto simp: IF_QFULL_def IF_DROP_def ld_without)
  qed
qed

lemma demo_looutput_sa: "sa_family demo_net 28672 = Some AF_INET"
  using rd_buf [of demo_mem 28672 demo_sin 1 1]
  by (simp add: sa_family_def rd8_def nrd_def demo_ld_none demo_sin_def slice_def AF_INET_def)

theorem looutput_delivers_witness:
  "\<exists>n' b' i'. looutput 8 16384 28672 0 demo_net = Some (0, n') \<and>
      queue_rep (n_mem n') (g_ipintrq n') [16384] \<and> ld (n_mem n') 16384 = Some b' \<and> pk_rcvif b' = 8 \<and>
      ldif n' 8 = Some i' \<and> ifi_opackets (if_data i') = ifi_opackets (if_data demo_lo) + 1 \<and>
      ifi_ipackets (if_data i') = ifi_ipackets (if_data demo_lo) + 1 \<and>
      ifi_obytes (if_data i') = ifi_obytes (if_data demo_lo) + word_of_int (pk_len demo_b3) \<and>
      ifi_ibytes (if_data i') = ifi_ibytes (if_data demo_lo) + word_of_int (pk_len demo_b3)"
proof -
  have p: "simple_packet (n_mem demo_net) 16384 [16384]"
    using demo_chain(2) by (simp add: simple_packet_def mchain_Cons demo_ld)
  have q: "queue_rep (n_mem demo_net) (g_ipintrq demo_net) []" by (simp add: queue_rep_empty empty_q_def)
  show ?thesis
    using looutput_delivers [of demo_net 16384 "[16384]" demo_b3 8 demo_lo demo_lo 0 28672 "[]"] p q
    by (simp add: demo_mem_wf demo_ld loif_def demo_looutput_sa block_of_def)
      (simp add: empty_q_def IFQ_MAXLEN_def)
qed

section \<open>Ethernet output\<close>

lemma prepend_in_place:
  assumes "ld h m = Some b" "has (m_flags b) M_PKTHDR" "\<not> has (m_flags b) M_EXT" "m + 70 < m_data b"
  shows "M_PREPEND h m 14 how =
    Some (m, st h m (set_pk_len (pk_len b + 14) (b\<lparr>m_data := m_data b - 14, m_len := m_len b + 14\<rparr>)))"
proof -
  have "0 < m" using ld_nz [OF assms(1)] by simp
  moreover have "ptr_add (m_data b) (- 14) = m_data b - 14" using assms(4) by (simp add: ptr_add_def)
  ultimately show ?thesis
    using assms by (simp add: M_PREPEND_def M_LEADINGSPACE_def upd_def ld_st)
qed

lemma nwr_own:
  assumes "ld (n_mem n) m = Some c" "full c" "m mod 4096 = 0" "m + 40 \<le> q" "q + length xs \<le> m + 128"
  shows "\<exists>d. length d = 88 \<and> nwr n q xs = Some (n\<lparr>n_mem := st (n_mem n) m (c\<lparr>m_dat := d\<rparr>)\<rparr>)"
proof -
  obtain k where k: "q = m + 40 + k" using assms(4) by (auto simp: le_iff_add)
  with assms(5) have "k + length xs \<le> 88" by simp
  with wr_mbuf [OF assms(1,3,2), of k xs] k assms(2) show ?thesis
    by (intro exI [of _ "patch (m_dat c) k xs"]) (auto simp: nwr_def full_def)
qed

lemma ether_send_steps:
  assumes "M_PREPEND (n_mem n) m0 14 1 = Some (m, h1)" "m \<noteq> 0" "ld h1 m = Some b1"
    "nwr (n\<lparr>n_mem := h1\<rparr>) (m_data b1 + 12) (nat_le 2 (unat (HTONS type))) = Some n2"
    "nwr n2 (m_data b1) edst = Some n3" "n_ac n3 ifp = Some ac" "nwr n3 (m_data b1 + 6) (ac_enaddr ac) = Some n4"
    "ldif n4 ifp = Some i" "\<not> IF_QFULL (if_snd i)" "IF_ENQUEUE (n_mem n4) (if_snd i) m0 = Some (h, q)"
    "updif (n4\<lparr>n_mem := h\<rparr>) ifp (\<lambda>i. i\<lparr>if_snd := q\<rparr>) = Some n5" "has (if_flags i) IFF_OACTIVE \<or> if_start i = FNull"
    "upd_data n5 ifp (\<lambda>d. d\<lparr>ifi_obytes := word_of_int (len + 14)\<rparr>) = Some n6" "ld (n_mem n6) m = Some b6"
    "(if has (m_flags b6) M_MCAST then upd_data n6 ifp (\<lambda>d. d\<lparr>ifi_omcasts := ifi_omcasts d + 1\<rparr>) else Some n6) = Some n7"
    "freem n7 m = Some n8"
  shows "ether_send e ifp m0 len edst type n = Some (0, n8)"
proof -
  have st: "(if \<not> has (if_flags i) IFF_OACTIVE \<and> if_start i \<noteq> FNull then e_start e (if_start i) ifp n5 else Some n5) = Some n5"
    using assms(12) by auto
  show ?thesis
    using assms(1-11,13-16) st by (simp add: ether_send_def ether_bad_def sizeof_ether_header_def Let_def)
qed

lemma ether_send_frees:
  assumes wf: "wf_mem (n_mem n)" and p: "simple_packet (n_mem n) m as" "ld (n_mem n) m = Some b" "has (m_flags b) M_PKTHDR"
    and room: "m + 70 < m_data b" "m_data b \<le> m + 128" and len: "length edst = 6" "length (ac_enaddr ac) = 6"
    and ifs: "n_ac n ifp = Some ac" "ldif n ifp = Some i" "has (if_flags i) IFF_OACTIVE \<or> if_start i = FNull"
    and q: "queue_rep (n_mem n) (if_snd i) ms" "m \<notin> set ms" "int (length ms) < ifq_maxlen (if_snd i)"
  shows "\<exists>n' i'. ether_send e ifp m l edst type n = Some (0, n') \<and> ldif n' ifp = Some i' \<and>
    ifq_tail (if_snd i') = m \<and> ifq_len (if_snd i') = int (length ms) + 1 \<and> (ms = [] \<longrightarrow> ifq_head (if_snd i') = m) \<and>
    (\<forall>a\<in>set as. ld (n_mem n') a = None)"
proof -
  let ?h = "n_mem n"
  have nz: "0 < m" "0 < ifp" using ld_nz [OF p(2)] ldif_nz [OF ifs(2)] by simp_all
  have noext: "\<not> has (m_flags b) M_EXT" using p(1,2) simple_packet_ld [OF p(1)] by (auto simp: simple_packet_def)
  have fb: "full b" and al: "m mod 4096 = 0" using wf_ld_full [OF wf p(2)] wf_ld [OF wf p(2)] by simp_all
  let ?b1 = "set_pk_len (pk_len b + 14) (b\<lparr>m_data := m_data b - 14, m_len := m_len b + 14\<rparr>)"
  let ?with = "\<lambda>d. n\<lparr>n_mem := st ?h m (?b1\<lparr>m_dat := d\<rparr>)\<rparr>"
  have b1: "full ?b1" using fb by simp
  have w: "\<exists>d'. length d' = 88 \<and> nwr (?with d) (m_data b - 14 + k) xs = Some (?with d')"
    if "length d = 88" "k + length xs \<le> 14" for d k xs
    using nwr_own [of "?with d" m "?b1\<lparr>m_dat := d\<rparr>" "m_data b - 14 + k" xs] that nz al room
    by (simp add: full_def)
  have "?b1 = ?b1\<lparr>m_dat := m_dat ?b1\<rparr>" by simp
  then have w0: "n\<lparr>n_mem := st ?h m ?b1\<rparr> = ?with (m_dat ?b1)" "length (m_dat ?b1) = 88" using b1 by (simp_all add: full_def)
  from w [OF w0(2), of 12 "nat_le 2 (unat (HTONS type))"] obtain d2 where
    d2: "length d2 = 88" "nwr (?with (m_dat ?b1)) (m_data b - 14 + 12) (nat_le 2 (unat (HTONS type))) = Some (?with d2)" by auto
  from w [OF d2(1), of 0 edst] len obtain d3 where
    d3: "length d3 = 88" "nwr (?with d2) (m_data b - 14) edst = Some (?with d3)" by auto
  from w [OF d3(1), of 6 "ac_enaddr ac"] len obtain d4 where
    d4: "length d4 = 88" "nwr (?with d3) (m_data b - 14 + 6) (ac_enaddr ac) = Some (?with d4)" by auto
  let ?c = "?b1\<lparr>m_dat := d4\<rparr>"
  have c: "ld (st ?h m ?c) m = Some ?c" "queue_rep (st ?h m ?c) (if_snd i) ms"
    using nz q by (simp_all add: queue_rep_st)
  from enqueue_rep [OF c(2,1) q(2)] obtain h' q' where
    e: "IF_ENQUEUE (st ?h m ?c) (if_snd i) m = Some (h', q')" "queue_rep h' q' (ms @ [m])"
       "\<And>a x. ld (st ?h m ?c) a = Some x \<Longrightarrow> \<exists>y. ld h' a = Some (x\<lparr>m_nextpkt := y\<rparr>)" by blast
  have "simple_packet (st ?h m ?c) m as" by (rule simple_packet_upd [OF p(1,2)]) simp_all
  then have sp: "simple_packet h' m as" by (rule simple_packet_nextpkt) (rule e(3))
  from simple_packet_ld [OF sp] obtain x where x: "ld h' m = Some x" by blast
  let ?n4 = "n\<lparr>n_mem := st ?h m ?c\<rparr>"
  let ?n5 = "n\<lparr>n_mem := h', n_if := (n_if n)(ifp \<mapsto> i\<lparr>if_snd := q'\<rparr>)\<rparr>"
  let ?i6 = "i\<lparr>if_snd := q', if_data := (if_data i)\<lparr>ifi_obytes := word_of_int (l + 14)\<rparr>\<rparr>"
  let ?n6 = "n\<lparr>n_mem := h', n_if := (n_if n)(ifp \<mapsto> ?i6)\<rparr>"
  let ?i7 = "if has (m_flags x) M_MCAST then ?i6\<lparr>if_data := (if_data ?i6)\<lparr>ifi_omcasts := ifi_omcasts (if_data i) + 1\<rparr>\<rparr> else ?i6"
  let ?n7 = "n\<lparr>n_mem := h', n_if := (n_if n)(ifp \<mapsto> ?i7)\<rparr>"
  have "ether_send e ifp m l edst type n = Some (0, ?n7\<lparr>n_mem := without h' (set as)\<rparr>)"
  proof (rule ether_send_steps)
    show "M_PREPEND (n_mem n) m 14 1 = Some (m, st ?h m ?b1)" by (rule prepend_in_place [OF p(2,3) noext room(1)])
    show "ld (st ?h m ?b1) m = Some ?b1" using nz by simp
    show "nwr (n\<lparr>n_mem := st ?h m ?b1\<rparr>) (m_data ?b1 + 12) (nat_le 2 (unat (HTONS type))) = Some (?with d2)"
      unfolding w0(1) using d2(2) by simp
    show "nwr (?with d2) (m_data ?b1) edst = Some (?with d3)" using d3(2) by simp
    show "nwr (?with d3) (m_data ?b1 + 6) (ac_enaddr ac) = Some ?n4" using d4(2) by simp
    show "\<not> IF_QFULL (if_snd i)" using q by (simp add: IF_QFULL_def queue_rep_def)
    show "IF_ENQUEUE (n_mem ?n4) (if_snd i) m = Some (h', q')" using e(1) by simp
    show "updif (?n4\<lparr>n_mem := h'\<rparr>) ifp (\<lambda>i. i\<lparr>if_snd := q'\<rparr>) = Some ?n5" using ifs nz by (simp add: updif_eq)
    show "upd_data ?n5 ifp (\<lambda>d. d\<lparr>ifi_obytes := word_of_int (l + 14)\<rparr>) = Some ?n6"
      using nz by (simp add: upd_data_def updif_def ldif_def)
    show "(if has (m_flags x) M_MCAST then upd_data ?n6 ifp (\<lambda>d. d\<lparr>ifi_omcasts := ifi_omcasts d + 1\<rparr>) else Some ?n6) = Some ?n7"
      using nz by (simp add: upd_data_def updif_def ldif_def)
    show "freem ?n7 m = Some (?n7\<lparr>n_mem := without h' (set as)\<rparr>)"
      using simple_packet_freem [of ?n7 m as] sp by simp
  qed (use nz ifs x in simp_all)
  moreover have "ldif (?n7\<lparr>n_mem := without h' (set as)\<rparr>) ifp = Some ?i7" using nz by (simp add: ldif_def)
  ultimately show ?thesis
    using e(2) by (intro exI conjI) (assumption | auto simp: queue_rep_def ld_without pchain_Cons)+
qed

lemma get_eh_if [simp]: "get_eh (n\<lparr>n_if := f\<rparr>) p = get_eh n p"
  by (simp add: get_eh_def nrd_def rd16_def)

lemma get_eh_len: "get_eh n p = Some x \<Longrightarrow> length (ether_dhost x) = 6"
  by (auto simp: get_eh_def nrd_def dest!: rd_length split: Option.bind_splits)

text \<open>C20: a frame that \<open>ether_output\<close> sends is queued and released at once.  For a packet with room for
  the header whose addresses come with it (\<open>AF_UNSPEC\<close>), on an interface that is up, has space in its
  queue and is not started here, the function reports success; the packet is the last in the interface
  queue, but none of its mbufs is allocated any more, so that the driver cannot even take it off the
  queue when it is the only one.\<close>

theorem ether_output_frees_queued:
  assumes "wf_mem (n_mem n)" "simple_packet (n_mem n) m as" "ld (n_mem n) m = Some b" "has (m_flags b) M_PKTHDR"
    "m + 70 < m_data b" "m_data b \<le> m + 128" "n_ac n ifp = Some ac" "length (ac_enaddr ac) = 6"
    "ldif n ifp = Some i" "has (if_flags i) IFF_UP" "has (if_flags i) IFF_OACTIVE \<or> if_start i = FNull"
    "queue_rep (n_mem n) (if_snd i) ms" "m \<notin> set ms" "int (length ms) < ifq_maxlen (if_snd i)"
    "sa_family n dst = Some AF_UNSPEC" "get_eh n (dst + 2) = Some eh"
  shows "\<exists>n' i'. ether_output e junk ifp m dst 0 n = Some (0, n') \<and> ldif n' ifp = Some i' \<and>
    ifq_tail (if_snd i') = m \<and> ifq_len (if_snd i') = int (length ms) + 1 \<and> (\<forall>a\<in>set as. ld (n_mem n') a = None) \<and>
    (ms = [] \<longrightarrow> IF_DEQUEUE (n_mem n') (if_snd i') = None)"
proof -
  let ?i = "i\<lparr>if_data := (if_data i)\<lparr>ifi_lastchange := g_time n\<rparr>\<rparr>"
  let ?n = "n\<lparr>n_if := (n_if n)(ifp \<mapsto> ?i)\<rparr>"
  have nz: "0 < ifp" using ldif_nz [OF assms(9)] by simp
  have "AF_UNSPEC \<noteq> AF_INET" "AF_UNSPEC \<noteq> AF_ISO" by (simp_all add: AF_UNSPEC_def AF_INET_def AF_ISO_def)
  then have run: "ether_output e junk ifp m dst 0 n =
      ether_send e ifp m (pk_len b) (ether_dhost eh) (ether_type eh) ?n"
    using assms(3,9,10,15,16) by (simp add: ether_output_def upd_data_eq ether_route_def)
  have m: "m \<in> set as" using simple_packet_ld [OF assms(2)] by auto
  have "\<exists>n' i'. ether_send e ifp m (pk_len b) (ether_dhost eh) (ether_type eh) ?n = Some (0, n') \<and> ldif n' ifp = Some i' \<and>
    ifq_tail (if_snd i') = m \<and> ifq_len (if_snd i') = int (length ms) + 1 \<and> (ms = [] \<longrightarrow> ifq_head (if_snd i') = m) \<and>
    (\<forall>a\<in>set as. ld (n_mem n') a = None)"
    by (rule ether_send_frees [where b = b and ac = ac and i = ?i]) (use assms nz get_eh_len [OF assms(16)] in simp_all)
  then obtain n' i' where r: "ether_send e ifp m (pk_len b) (ether_dhost eh) (ether_type eh) ?n = Some (0, n')"
      "ldif n' ifp = Some i'" "ifq_tail (if_snd i') = m" "ifq_len (if_snd i') = int (length ms) + 1"
      "ms = [] \<longrightarrow> ifq_head (if_snd i') = m" "\<forall>a\<in>set as. ld (n_mem n') a = None" by blast
  then have "ms = [] \<longrightarrow> IF_DEQUEUE (n_mem n') (if_snd i') = None" using m by (simp add: IF_DEQUEUE_def)
  with r run show ?thesis by auto
qed

definition demo_eth :: net where
  "demo_eth = demo_net\<lparr>n_if := [16 \<mapsto> demo_le\<lparr>if_flags := IFF_UP\<rparr>],
     n_mem := st demo_mem 16384 (demo_b3\<lparr>m_flags := M_PKTHDR, m_data := 16484\<rparr>)\<rparr>"

lemma demo_eth_simps [simp]:
  "n_mem demo_eth = st demo_mem 16384 (demo_b3\<lparr>m_flags := M_PKTHDR, m_data := 16484\<rparr>)"
  "ldif demo_eth 16 = Some (demo_le\<lparr>if_flags := IFF_UP\<rparr>)" "n_ac demo_eth 16 = Some \<lparr>ac_enaddr = [8, 0, 9, 1, 2, 3],
     ac_ipaddr = 0, ac_multiaddrs = 0, ac_multicnt = 0\<rparr>" "g_ipintrq demo_eth = empty_q" "g_arpintrq demo_eth = empty_q"
  by (simp_all add: demo_eth_def demo_net_def ldif_def)

lemma demo_eth_wf: "wf_mem (n_mem demo_eth)"
  using wf_st [OF demo_mem_wf, of 16384 demo_b3] by (simp add: demo_ld full_def demo_b3_def)

lemma demo_eth_packet: "simple_packet (n_mem demo_eth) 16384 [16384]"
  by (simp add: simple_packet_def mchain_Cons)

lemma demo_eth_nrd:
  "k + l \<le> 40 \<Longrightarrow> nrd demo_eth (20480 + k) l = Some (slice k l demo_dl)"
  using rd_buf [of "n_mem demo_eth" 20480 demo_dl k l] by (simp add: nrd_def demo_ld_none demo_dl_def)

theorem ether_output_frees_queued_witness:
  "\<exists>n' i'. ether_output demo_env ([], 0) 16 16384 20490 0 demo_eth = Some (0, n') \<and> ldif n' 16 = Some i' \<and>
    ifq_tail (if_snd i') = 16384 \<and> ifq_len (if_snd i') = 1 \<and> ld (n_mem n') 16384 = None \<and>
    IF_DEQUEUE (n_mem n') (if_snd i') = None"
proof -
  have "nrd demo_eth 20491 1 = Some [0]"
    using demo_eth_nrd [of 11 1] by (simp add: slice_def demo_dl_def)
  then have f: "sa_family demo_eth 20490 = Some AF_UNSPEC" by (simp add: sa_family_def rd8_def AF_UNSPEC_def)
  have "get_eh demo_eth 20492 \<noteq> None"
    using demo_eth_nrd [of 12 6] demo_eth_nrd [of 18 6] demo_eth_nrd [of 24 2] by (simp add: get_eh_def rd16_def)
  then obtain eh where eh: "get_eh demo_eth 20492 = Some eh" by auto
  have up: "has (if_flags (demo_le\<lparr>if_flags := IFF_UP\<rparr>)) IFF_UP" by (simp add: has_def IFF_UP_def)
  have q: "queue_rep (n_mem demo_eth) (if_snd (demo_le\<lparr>if_flags := IFF_UP\<rparr>)) []" by (simp add: queue_rep_empty empty_q_def)
  show ?thesis
    using ether_output_frees_queued [OF demo_eth_wf demo_eth_packet, of _ 16 _ _ "[]" 20490 eh demo_env "([], 0)"] f eh up q
    by (simp add: demo_le_def zero_ifnet_def empty_q_def IFQ_MAXLEN_def)
qed

section \<open>Ethernet input\<close>

lemma IFQ_in_room:
  "\<not> IF_QFULL q \<Longrightarrow> IF_ENQUEUE (n_mem n) q m = Some (h, q') \<Longrightarrow> IFQ_in n q m = Some (q', n\<lparr>n_mem := h\<rparr>)"
  by (simp add: IFQ_in_def)

lemma IFQ_in_full:
  "IF_QFULL q \<Longrightarrow> simple_packet (n_mem n) m as \<Longrightarrow> IFQ_in n q m = Some (IF_DROP q, n\<lparr>n_mem := without (n_mem n) (set as)\<rparr>)"
  by (simp add: IFQ_in_def simple_packet_freem)

text \<open>No ethernet type is the one of ARP after \<open>htons\<close>, which clears the low byte.\<close>

lemma htons_not_arp: "htons t \<noteq> ETHERTYPE_ARP"
proof
  assume "htons t = ETHERTYPE_ARP"
  then have "(t AND 0xff00) AND 0xff = 0x0806 AND 0xff" by (simp only: htons_mask ETHERTYPE_ARP_def)
  then show False by (simp add: and.assoc)
qed

lemma ether_input_abs:
  assumes "n1 = n\<lparr>g_ipintrq := (g_ipintrq n)\<lparr>ifq_maxlen := IFQ_MAXLEN\<rparr>\<rparr>" "ldif n1 ifp = Some i" "has (if_flags i) IFF_UP"
    "ld (n_mem n1) m = Some b"
    "upd_data n1 ifp (\<lambda>d. d\<lparr>ifi_ibytes := ifi_ibytes d + word_of_int (pk_len b + 14),
       ifi_lastchange := \<lparr>tv_sec = 0, tv_usec = 0\<rparr>\<rparr>) = Some n2" "nrd n2 eh 6 = Some dh"
    "(if dh = etherbroadcastaddr then upd_mbuf n2 m (\<lambda>b. b\<lparr>m_flags := m_flags b OR M_BCAST\<rparr>)
      else if has (hd dh) 0x1 then upd_mbuf n2 m (\<lambda>b. b\<lparr>m_flags := m_flags b OR M_MCAST\<rparr>) else Some n2) = Some n3"
    "rd16 n3 (eh + 12) = Some t"
  shows "ether_input ifp eh m n =
    (if htons t = ETHERTYPE_IP then do { (q, n) \<leftarrow> IFQ_in n3 (g_ipintrq n3) m; Some (n\<lparr>g_ipintrq := q\<rparr>) }
     else if unat t > unat ETHERMTU then freem n3 m else Some n3)"
  using assms(2-8) unfolding assms(1) ether_input_def Let_def by (simp add: htons_not_arp)

lemma ether_input_steps:
  assumes "ld (n_mem n) m = Some b" "ldif n ifp = Some i" "has (if_flags i) IFF_UP" "nrd n eh 6 = Some dh" "rd16 n (eh + 12) = Some t"
  shows "\<exists>f fl. has (m_flags b OR fl) M_EXT = has (m_flags b) M_EXT \<and>
    ether_input ifp eh m n = (let n' = n\<lparr>n_if := f, n_mem := st (n_mem n) m (b\<lparr>m_flags := m_flags b OR fl\<rparr>),
        g_ipintrq := (g_ipintrq n)\<lparr>ifq_maxlen := IFQ_MAXLEN\<rparr>\<rparr> in
      if htons t = ETHERTYPE_IP then do { (q, n) \<leftarrow> IFQ_in n' (g_ipintrq n') m; Some (n\<lparr>g_ipintrq := q\<rparr>) }
      else if unat t > unat ETHERMTU then freem n' m else Some n')"
proof -
  let ?fl = "if dh = etherbroadcastaddr then M_BCAST else if has (hd dh) 0x1 then M_MCAST else 0"
  let ?q = "(g_ipintrq n)\<lparr>ifq_maxlen := IFQ_MAXLEN\<rparr>"
  let ?f = "(n_if n)(ifp \<mapsto> i\<lparr>if_data := (if_data i)\<lparr>ifi_ibytes := ifi_ibytes (if_data i) + word_of_int (pk_len b + 14),
     ifi_lastchange := \<lparr>tv_sec = 0, tv_usec = 0\<rparr>\<rparr>\<rparr>)"
  let ?c = "b\<lparr>m_flags := m_flags b OR ?fl\<rparr>"
  let ?n = "n\<lparr>n_if := ?f, n_mem := st (n_mem n) m ?c, g_ipintrq := ?q\<rparr>"
  let ?n1 = "n\<lparr>g_ipintrq := ?q\<rparr>" and ?n2 = "n\<lparr>n_if := ?f, g_ipintrq := ?q\<rparr>"
  have id: "b\<lparr>m_flags := m_flags b\<rparr> = b" by simp
  have "has (m_flags b OR ?fl) M_EXT = has (m_flags b) M_EXT"
    by (simp add: has_or) (simp add: has_def m_flag_defs)
  moreover have "ether_input ifp eh m n =
    (if htons t = ETHERTYPE_IP then do { (q, n) \<leftarrow> IFQ_in ?n (g_ipintrq ?n) m; Some (n\<lparr>g_ipintrq := q\<rparr>) }
     else if unat t > unat ETHERMTU then freem ?n m else Some ?n)"
  proof (rule ether_input_abs [OF refl])
    show i: "ldif ?n1 ifp = Some i" using assms(2) by (simp add: ldif_def split: if_splits)
    show "upd_data ?n1 ifp (\<lambda>d. d\<lparr>ifi_ibytes := ifi_ibytes d + word_of_int (pk_len b + 14),
       ifi_lastchange := \<lparr>tv_sec = 0, tv_usec = 0\<rparr>\<rparr>) = Some ?n2"
      using upd_data_eq [OF i] by simp
    show "nrd ?n2 eh 6 = Some dh" using assms(4) by (simp add: nrd_def)
    show "(if dh = etherbroadcastaddr then upd_mbuf ?n2 m (\<lambda>b. b\<lparr>m_flags := m_flags b OR M_BCAST\<rparr>)
      else if has (hd dh) 0x1 then upd_mbuf ?n2 m (\<lambda>b. b\<lparr>m_flags := m_flags b OR M_MCAST\<rparr>) else Some ?n2) = Some ?n"
      using assms(1) st_ld [OF assms(1)] by (simp add: upd_mbuf_eq id)
    show "rd16 ?n (eh + 12) = Some t"
      using assms(1,5) by (simp add: rd16_def nrd_def rd_st_same_dat)
  qed (use assms in simp_all)
  ultimately show ?thesis unfolding Let_def by blast
qed

text \<open>C21: a received frame is chosen a queue by the high byte of its type only.  On an interface that is up,
  every frame whose type has the high byte 8 goes to the IP input queue, those of ARP too, and is released if
  that holds fifty packets already; the ARP queue never changes.  Of the other frames those with a type above
  1500 are released; the rest are neither queued nor released.\<close>

theorem ether_input_demux:
  assumes "simple_packet (n_mem n) m as" "ldif n ifp = Some i" "has (if_flags i) IFF_UP"
    "nrd n eh 6 \<noteq> None" "rd16 n (eh + 12) = Some t" "queue_rep (n_mem n) (g_ipintrq n) ms" "m \<notin> set ms"
  shows "\<exists>n'. ether_input ifp eh m n = Some n' \<and> g_arpintrq n' = g_arpintrq n \<and>
    (if t AND 0xff00 = 0x0800
     then if length ms < 50
          then queue_rep (n_mem n') (g_ipintrq n') (ms @ [m])
          else ifq_drops (g_ipintrq n') = ifq_drops (g_ipintrq n) + 1 \<and> (\<forall>a\<in>set as. ld (n_mem n') a = None)
     else g_ipintrq n' = (g_ipintrq n)\<lparr>ifq_maxlen := 50\<rparr> \<and>
          (\<forall>a\<in>set as. ld (n_mem n') a = None \<longleftrightarrow> 1500 < unat t))"
proof -
  obtain b where b: "ld (n_mem n) m = Some b" using simple_packet_ld [OF assms(1)] by blast
  obtain dh where dh: "nrd n eh 6 = Some dh" using assms(4) by auto
  from ether_input_steps [OF b assms(2,3) dh assms(5)] obtain f fl where
    s: "has (m_flags b OR fl) M_EXT = has (m_flags b) M_EXT"
       "ether_input ifp eh m n = (let n' = n\<lparr>n_if := f, n_mem := st (n_mem n) m (b\<lparr>m_flags := m_flags b OR fl\<rparr>),
        g_ipintrq := (g_ipintrq n)\<lparr>ifq_maxlen := IFQ_MAXLEN\<rparr>\<rparr> in
      if htons t = ETHERTYPE_IP then do { (q, n) \<leftarrow> IFQ_in n' (g_ipintrq n') m; Some (n\<lparr>g_ipintrq := q\<rparr>) }
      else if unat t > unat ETHERMTU then freem n' m else Some n')" by blast
  let ?c = "b\<lparr>m_flags := m_flags b OR fl\<rparr>"
  let ?q = "(g_ipintrq n)\<lparr>ifq_maxlen := IFQ_MAXLEN\<rparr>"
  let ?n = "n\<lparr>n_if := f, n_mem := st (n_mem n) m ?c, g_ipintrq := ?q\<rparr>"
  have nz: "0 < m" using ld_nz [OF b] by simp
  have sp: "simple_packet (st (n_mem n) m ?c) m as"
    by (rule simple_packet_upd [OF assms(1) b]) (simp_all add: s(1))
  have q: "queue_rep (st (n_mem n) m ?c) ?q ms" using assms(6,7) by (simp add: queue_rep_st) (simp add: queue_rep_def)
  have full: "IF_QFULL ?q \<longleftrightarrow> \<not> length ms < 50" using q by (auto simp: IF_QFULL_def queue_rep_def IFQ_MAXLEN_def)
  have ip: "htons t = ETHERTYPE_IP \<longleftrightarrow> t AND 0xff00 = 0x0800" by (simp add: htons_mask ETHERTYPE_IP_def)
  show ?thesis
  proof (cases "t AND 0xff00 = 0x0800")
    case True
    show ?thesis
    proof (cases "length ms < 50")
      case room: True
      have "ld (st (n_mem n) m ?c) m = Some ?c" using nz by simp
      from enqueue_rep [OF q this assms(7)] obtain h' q' where
        "IF_ENQUEUE (st (n_mem n) m ?c) ?q m = Some (h', q')" "queue_rep h' q' (ms @ [m])" by blast
      with IFQ_in_room [of ?q ?n m h' q'] True room full ip s(2) show ?thesis by simp
    next
      case False
      with IFQ_in_full [of ?q ?n m as] True sp full ip s(2) show ?thesis by (simp add: IF_DROP_def ld_without)
    qed
  next
    case False
    have "\<exists>x. ld (st (n_mem n) m ?c) a = Some x" if "a \<in> set as" for a
      using simple_packet_lds [OF sp that] .
    moreover have "unat ETHERMTU = 1500" by (simp add: ETHERMTU_def)
    ultimately show ?thesis
      using s(2) False ip simple_packet_freem [of ?n m as] sp
      by (cases "1500 < unat t") (auto simp: ld_without IFQ_MAXLEN_def)
  qed
qed

theorem ether_input_demux_witness:
  "\<exists>n'. ether_input 16 20480 16384 demo_eth = Some n' \<and> g_arpintrq n' = empty_q \<and>
    g_ipintrq n' = empty_q\<lparr>ifq_maxlen := 50\<rparr> \<and> ld (n_mem n') 16384 \<noteq> None"
proof -
  have up: "has (if_flags (demo_le\<lparr>if_flags := IFF_UP\<rparr>)) IFF_UP" by (simp add: has_def IFF_UP_def)
  have dh: "nrd demo_eth 20480 6 \<noteq> None" using demo_eth_nrd [of 0 6] by simp
  have t: "rd16 demo_eth (20480 + 12) = Some 0" using demo_eth_nrd [of 12 2] by (simp add: rd16_def slice_def demo_dl_def numeral_2_eq_2)
  have q: "queue_rep (n_mem demo_eth) (g_ipintrq demo_eth) []" by (simp add: queue_rep_empty empty_q_def)
  show ?thesis
    using ether_input_demux [OF demo_eth_packet demo_eth_simps(2) up dh t q] by simp
qed

end
