(* ===== verification/Tty.thy ===== *)
theory Tty
  imports Prelude
begin

text \<open>
  The terminal layer that the SLIP line discipline sits on (\<open>sys/tty.h\<close>, \<open>kern/tty.c\<close>,
  \<open>kern/tty_subr.c\<close>, \<open>sys/termios.h\<close>): character lists, the terminal structure, the flags SLIP
  tests, and the character class table.  The routines of \<open>kern/tty.c\<close> and \<open>kern/tty_subr.c\<close> have
  no bodies in the source: they change nothing, and those with a result return zero.
\<close>

section \<open>Terminals\<close>

record clist =
  c_cc :: int
  c_cf :: addr
  c_cl :: addr

record selinfo =
  si_pid :: int
  si_flags :: c_short

record winsize =
  ws_row :: u_short
  ws_col :: u_short
  ws_xpixel :: u_short
  ws_ypixel :: u_short

text \<open>The control characters of \<open>struct termios\<close> are named \<open>c_chars\<close> here, because the counter of a
  \<open>clist\<close> has the name of the field.\<close>

record termios =
  c_iflag :: u_long
  c_oflag :: u_long
  c_cflag :: u_long
  c_lflag :: u_long
  c_chars :: "u_char list"
  c_ispeed :: int
  c_ospeed :: int

record tty =
  t_rawq :: clist
  t_rawcc :: int
  t_canq :: clist
  t_cancc :: int
  t_outq :: clist
  t_outcc :: int
  t_line :: int
  t_dev :: int
  t_state :: u_int
  t_flags :: u_int
  t_pgrp :: addr
  t_session :: addr
  t_rsel :: selinfo
  t_wsel :: selinfo
  t_termios :: termios
  t_winsize :: winsize
  t_oproc :: nat
  t_stop :: nat
  t_param :: nat
  t_sc :: addr
  t_column :: c_short
  t_rocount :: c_short
  t_rocol :: c_short
  t_hiwat :: c_short
  t_lowat :: c_short
  t_gen :: c_short

definition t_iflag :: "tty \<Rightarrow> u_long" where "t_iflag tp = c_iflag (t_termios tp)"
definition t_oflag :: "tty \<Rightarrow> u_long" where "t_oflag tp = c_oflag (t_termios tp)"
definition t_cflag :: "tty \<Rightarrow> u_long" where "t_cflag tp = c_cflag (t_termios tp)"
definition t_lflag :: "tty \<Rightarrow> u_long" where "t_lflag tp = c_lflag (t_termios tp)"
definition t_ispeed :: "tty \<Rightarrow> int" where "t_ispeed tp = c_ispeed (t_termios tp)"
definition t_ospeed :: "tty \<Rightarrow> int" where "t_ospeed tp = c_ospeed (t_termios tp)"

definition TS_CARR_ON :: u_int where "TS_CARR_ON = 0x8"
definition CLOCAL :: u_int where "CLOCAL = 0x8000"
definition SLIPDISC :: int where "SLIPDISC = 4"
definition TTY_CHARMASK :: u_int where "TTY_CHARMASK = 0xff"
definition TTY_ERRORMASK :: u_int where "TTY_ERRORMASK = 0xff000000"

section \<open>Character lists\<close>

definition clist_init :: "'s \<Rightarrow> 's" where "clist_init s = s"
definition getc :: "clist \<Rightarrow> int \<times> clist" where "getc q = (0, q)"
definition q_to_b :: "clist \<Rightarrow> addr \<Rightarrow> int \<Rightarrow> int \<times> clist" where "q_to_b q cp n = (0, q)"
definition ndqb :: "clist \<Rightarrow> int \<Rightarrow> int \<times> clist" where "ndqb q n = (0, q)"
definition ndflush :: "clist \<Rightarrow> int \<Rightarrow> clist" where "ndflush q n = q"
definition putc :: "u_char \<Rightarrow> clist \<Rightarrow> int \<times> clist" where "putc c q = (0, q)"
definition b_to_q :: "addr \<Rightarrow> int \<Rightarrow> clist \<Rightarrow> int \<times> clist" where "b_to_q cp n q = (0, q)"
definition nextc :: "clist \<Rightarrow> addr \<Rightarrow> addr \<Rightarrow> addr \<times> clist" where "nextc q cp c = (0, q)"
definition unputc :: "clist \<Rightarrow> int \<times> clist" where "unputc q = (0, q)"
definition catq :: "clist \<Rightarrow> clist \<Rightarrow> clist \<times> clist" where "catq q r = (q, r)"

section \<open>Terminal operations\<close>

text \<open>The bodies in \<open>kern/tty.c\<close> are empty or return zero; a terminal they take is unchanged.\<close>

definition ttyopen :: "int \<Rightarrow> tty \<Rightarrow> int \<times> tty" where "ttyopen device tp = (0, tp)"
definition ttyclose :: "tty \<Rightarrow> int \<times> tty" where "ttyclose tp = (0, tp)"
definition ttyinput :: "int \<Rightarrow> tty \<Rightarrow> int \<times> tty" where "ttyinput c tp = (0, tp)"
definition ttyoutput :: "int \<Rightarrow> tty \<Rightarrow> int \<times> tty" where "ttyoutput c tp = (0, tp)"
definition ttioctl :: "tty \<Rightarrow> int \<Rightarrow> addr \<Rightarrow> int \<Rightarrow> int \<times> tty" where "ttioctl tp cmd data flag = (0, tp)"
definition ttselect :: "int \<Rightarrow> int \<Rightarrow> addr \<Rightarrow> int" where "ttselect device rw p = 0"
definition ttnread :: "tty \<Rightarrow> int \<times> tty" where "ttnread tp = (0, tp)"
definition ttywait :: "tty \<Rightarrow> int \<times> tty" where "ttywait tp = (0, tp)"
definition ttywflush :: "tty \<Rightarrow> int \<times> tty" where "ttywflush tp = (0, tp)"
definition ttyflush :: "tty \<Rightarrow> int \<Rightarrow> tty" where "ttyflush tp rw = tp"
definition ttychars :: "tty \<Rightarrow> tty" where "ttychars tp = tp"
definition ttyblock :: "tty \<Rightarrow> tty" where "ttyblock tp = tp"
definition ttrstrt :: "tty \<Rightarrow> tty" where "ttrstrt tp = tp"
definition ttstart :: "tty \<Rightarrow> int \<times> tty" where "ttstart tp = (0, tp)"
definition ttylclose :: "tty \<Rightarrow> int \<Rightarrow> int \<times> tty" where "ttylclose tp flag = (0, tp)"
definition ttymodem :: "tty \<Rightarrow> int \<Rightarrow> int \<times> tty" where "ttymodem tp flag = (0, tp)"
definition nullmodem :: "tty \<Rightarrow> int \<Rightarrow> int \<times> tty" where "nullmodem tp flag = (0, tp)"
definition ttypend :: "tty \<Rightarrow> tty" where "ttypend tp = tp"
definition ttread :: "tty \<Rightarrow> addr \<Rightarrow> int \<Rightarrow> int \<times> tty" where "ttread tp uio flag = (0, tp)"
definition ttycheckoutq :: "tty \<Rightarrow> int \<Rightarrow> int \<times> tty" where "ttycheckoutq tp wait = (0, tp)"
definition ttwrite :: "tty \<Rightarrow> addr \<Rightarrow> int \<Rightarrow> int \<times> tty" where "ttwrite tp uio flag = (0, tp)"
definition ttyrub :: "int \<Rightarrow> tty \<Rightarrow> tty" where "ttyrub c tp = tp"
definition ttyrubo :: "tty \<Rightarrow> int \<Rightarrow> tty" where "ttyrubo tp cnt = tp"
definition ttyretype :: "tty \<Rightarrow> tty" where "ttyretype tp = tp"
definition ttyecho :: "int \<Rightarrow> tty \<Rightarrow> tty" where "ttyecho c tp = tp"
definition ttwakeup :: "tty \<Rightarrow> tty" where "ttwakeup tp = tp"
definition ttspeedtab :: "int \<Rightarrow> addr \<Rightarrow> int" where "ttspeedtab speed table = 0"
definition ttsetwater :: "tty \<Rightarrow> tty" where "ttsetwater tp = tp"
definition ttyinfo :: "tty \<Rightarrow> tty" where "ttyinfo tp = tp"
definition proc_compare :: "addr \<Rightarrow> addr \<Rightarrow> int" where "proc_compare p1 p2 = 0"
definition tputchar :: "int \<Rightarrow> tty \<Rightarrow> int \<times> tty" where "tputchar c tp = (0, tp)"
definition ttysleep :: "tty \<Rightarrow> addr \<Rightarrow> int \<Rightarrow> addr \<Rightarrow> int \<Rightarrow> int \<times> tty" where
  "ttysleep tp chan pri wmesg timo = (0, tp)"

section \<open>Character classes\<close>

definition ORDINARY :: u_char where "ORDINARY = 0"
definition CONTROL :: u_char where "CONTROL = 1"
definition BACKSPACE :: u_char where "BACKSPACE = 2"
definition NEWLINE :: u_char where "NEWLINE = 3"
definition TAB :: u_char where "TAB = 4"
definition VTAB :: u_char where "VTAB = 5"
definition RETURN :: u_char where "RETURN = 6"
definition ALPHA :: u_char where "ALPHA = 0x40"

definition char_type :: "u_char list" where
  "char_type =
     (let E = 0x00; Od = 0x80; BS = BACKSPACE; CC = CONTROL; CR = RETURN; NA = ORDINARY OR ALPHA;
        NL = NEWLINE; NO = ORDINARY; TB = TAB; VT = VTAB in
      [E OR CC, Od OR CC, Od OR CC, E OR CC, Od OR CC, E OR CC, E OR CC, Od OR CC,
      Od OR BS, E OR TB, E OR NL, Od OR CC, E OR VT, Od OR CR, Od OR CC, E OR CC,
      Od OR CC, E OR CC, E OR CC, Od OR CC, E OR CC, Od OR CC, Od OR CC, E OR CC,
      E OR CC, Od OR CC, Od OR CC, E OR CC, Od OR CC, E OR CC, E OR CC, Od OR CC,
      Od OR NO, E OR NO, E OR NO, Od OR NO, E OR NO, Od OR NO, Od OR NO, E OR NO,
      E OR NO, Od OR NO, Od OR NO, E OR NO, Od OR NO, E OR NO, E OR NO, Od OR NO,
      E OR NA, Od OR NA, Od OR NA, E OR NA, Od OR NA, E OR NA, E OR NA, Od OR NA,
      Od OR NA, E OR NA, E OR NO, Od OR NO, E OR NO, Od OR NO, Od OR NO, E OR NO,
      Od OR NO, E OR NA, E OR NA, Od OR NA, E OR NA, Od OR NA, Od OR NA, E OR NA,
      E OR NA, Od OR NA, Od OR NA, E OR NA, Od OR NA, E OR NA, E OR NA, Od OR NA,
      E OR NA, Od OR NA, Od OR NA, E OR NA, Od OR NA, E OR NA, E OR NA, Od OR NA,
      Od OR NA, E OR NA, E OR NA, Od OR NO, E OR NO, Od OR NO, Od OR NO, Od OR NA,
      E OR NO, Od OR NA, Od OR NA, E OR NA, Od OR NA, E OR NA, E OR NA, Od OR NA,
      Od OR NA, E OR NA, E OR NA, Od OR NA, E OR NA, Od OR NA, Od OR NA, E OR NA,
      Od OR NA, E OR NA, E OR NA, Od OR NA, E OR NA, Od OR NA, Od OR NA, E OR NA,
      E OR NA, Od OR NA, Od OR NA, E OR NO, Od OR NO, E OR NO, E OR NO, Od OR CC] @ replicate 128 NA)"

definition PARITY :: "nat \<Rightarrow> bool" where "PARITY c \<longleftrightarrow> char_type ! c AND 0x80 \<noteq> 0"
definition ISALPHA :: "u_int \<Rightarrow> bool" where
  "ISALPHA c \<longleftrightarrow> char_type ! unat (c AND TTY_CHARMASK) AND ALPHA \<noteq> 0"
definition CCLASS :: "nat \<Rightarrow> u_char" where "CCLASS c = char_type ! c AND 0x3f"

lemmas char_type_simps = char_type_def Let_def ORDINARY_def CONTROL_def BACKSPACE_def NEWLINE_def
  TAB_def VTAB_def RETURN_def ALPHA_def

text \<open>What the comment on the table promises: bit 8 is odd parity over the character's bits, bit 7 marks
  the letters, the digits and the underscore.\<close>

definition odd_parity :: "nat \<Rightarrow> bool" where
  "odd_parity c \<longleftrightarrow> odd (length (filter (\<lambda>i. odd (c div 2 ^ i)) [0..<8]))"

definition word_char :: "nat \<Rightarrow> bool" where
  "word_char c \<longleftrightarrow> 48 \<le> c \<and> c \<le> 57 \<or> 65 \<le> c \<and> c \<le> 90 \<or> 97 \<le> c \<and> c \<le> 122 \<or> c = 95"

lemma parity_column:
  "map (\<lambda>x. x AND 0x80 \<noteq> 0) (take 128 char_type) =
     map (\<lambda>c. odd_parity c \<or> c = 95) [0..<128]"
  by (simp add: char_type_simps odd_parity_def upt_conv_Cons)

lemma alpha_column:
  "map (\<lambda>x. x AND ALPHA \<noteq> 0) (take 128 char_type) = map word_char [0..<128]"
  by (simp add: char_type_simps word_char_def upt_conv_Cons)

lemma class_column:
  "map (\<lambda>x. x AND 0x3f = 0) (take 128 char_type) = map (\<lambda>c. 32 \<le> c \<and> c \<noteq> 127) [0..<128]"
  by (simp add: char_type_simps upt_conv_Cons)

lemma length_char_type: "length char_type = 256"
  by (simp add: char_type_simps)

lemma meta_rows: "128 \<le> c \<Longrightarrow> c < 256 \<Longrightarrow> char_type ! c = ALPHA"
proof -
  assume c: "128 \<le> c" "c < 256"
  have "drop 128 char_type = replicate 128 ALPHA" by (simp add: char_type_simps)
  then have "drop 128 char_type ! (c - 128) = ALPHA" using c by simp
  then show ?thesis using c by (simp add: length_char_type)
qed

lemma column_nth:
  assumes "map f (take 128 char_type) = map g [0..<128]" "c < 128"
  shows "f (char_type ! c) = g c"
proof -
  have "map f (take 128 char_type) ! c = map g [0..<128] ! c" using assms(1) by simp
  then show ?thesis using assms(2) by (simp add: length_char_type)
qed

text \<open>The character table is what its comment says, with one exception: for every character of
  seven bits the alpha flag marks letters, digits and the underscore, exactly the printing characters
  have class zero, and the parity flag is the parity of the character except for the underscore, which
  has even parity and is marked odd.  Every eighth-bit character is an ordinary letter.\<close>

theorem char_type_table:
  "(\<forall>c<128. (PARITY c \<longleftrightarrow> odd_parity c \<or> c = 95) \<and> (ISALPHA (word_of_nat c) \<longleftrightarrow> word_char c) \<and>
     (CCLASS c = 0 \<longleftrightarrow> 32 \<le> c \<and> c \<noteq> 127)) \<and> \<not> odd_parity 95 \<and>
   (\<forall>c. 128 \<le> c \<and> c < 256 \<longrightarrow> \<not> PARITY c \<and> ISALPHA (word_of_nat c) \<and> CCLASS c = 0)"
proof -
  have idx: "unat (word_of_nat c AND TTY_CHARMASK) = c" if "c < 256" for c
  proof -
    have m: "TTY_CHARMASK = mask 8" by (simp add: TTY_CHARMASK_def mask_eq_exp_minus_1)
    have "unat (word_of_nat c :: u_int) = c"
      using that by (simp add: unat_of_nat take_bit_nat_eq_self)
    then show ?thesis
      using that unfolding m take_bit_eq_mask [symmetric]
      by (simp add: unsigned_take_bit_eq take_bit_nat_eq_self)
  qed
  show ?thesis
    using column_nth [OF parity_column] column_nth [OF alpha_column] column_nth [OF class_column]
    by (auto simp: PARITY_def ISALPHA_def CCLASS_def idx meta_rows ALPHA_def odd_parity_def upt_conv_Cons)
qed

theorem char_type_table_witness: "PARITY 95 \<and> \<not> odd_parity 95 \<and> ISALPHA 95 \<and> \<not> PARITY 200"
proof -
  note t = char_type_table [THEN conjunct1, rule_format, of 95]
    char_type_table [THEN conjunct2, THEN conjunct2, rule_format, of 200] char_type_table [THEN conjunct2, THEN conjunct1]
  from t(1) have "PARITY 95" "ISALPHA (word_of_nat 95)" by (simp_all add: word_char_def)
  with t(2,3) show ?thesis by simp
qed

end
