(* ===== verification/Compress.thy ===== *)
theory Compress
  imports Endian
begin

text \<open>
  TCP header compression as far as \<open>net/slcompress.c\<close> has it: the macros that write and read the
  variable length numbers of a compressed header, with their output appended to a byte string and
  their input taken off one, and the three stubbed entry points.
\<close>

section \<open>Packet types\<close>

definition TYPE_IP :: u_int where "TYPE_IP = 0x40"
definition TYPE_UNCOMPRESSED_TCP :: u_int where "TYPE_UNCOMPRESSED_TCP = 0x70"
definition TYPE_COMPRESSED_TCP :: u_int where "TYPE_COMPRESSED_TCP = 0x80"

section \<open>Variable length numbers\<close>

definition ENCODE :: "u_int \<Rightarrow> u_char list" where
  "ENCODE n = (if (ucast n :: u_short) \<ge> 256 then [0, ucast (drop_bit 8 n), ucast n] else [ucast n])"

definition ENCODEZ :: "u_int \<Rightarrow> u_char list" where
  "ENCODEZ n = (if (ucast n :: u_short) \<ge> 256 \<or> (ucast n :: u_short) = 0
     then [0, ucast (drop_bit 8 n), ucast n] else [ucast n])"

text \<open>\<open>(cp[1] << 8) | cp[2]\<close> of an escaped number, and the rest of the input.\<close>

fun take_number :: "u_char list \<Rightarrow> (u_int \<times> u_char list) option" where
  "take_number [] = None"
| "take_number (b # bs) =
     (if b = 0
      then (case bs of c1 # c2 # rest \<Rightarrow> Some (push_bit 8 (ucast c1) OR ucast c2, rest) | _ \<Rightarrow> None)
      else Some (ucast b, bs))"

definition DECODEL :: "u_long \<Rightarrow> u_char list \<Rightarrow> (u_long \<times> u_char list) option" where
  "DECODEL f cp = (case take_number cp of None \<Rightarrow> None
     | Some (x, rest) \<Rightarrow> Some (htonl (ntohl f + x), rest))"

definition DECODES :: "u_short \<Rightarrow> u_char list \<Rightarrow> (u_short \<times> u_char list) option" where
  "DECODES f cp = (case take_number cp of None \<Rightarrow> None
     | Some (x, rest) \<Rightarrow> Some (htons (ucast (ucast (ntohs f) + x)), rest))"

definition DECODEU :: "u_char list \<Rightarrow> (u_short \<times> u_char list) option" where
  "DECODEU cp = (case take_number cp of None \<Rightarrow> None
     | Some (x, rest) \<Rightarrow> Some (htons (ucast x), rest))"

section \<open>Stubs\<close>

definition sl_compress_init :: "'c \<Rightarrow> 'c" where "sl_compress_init cmp = cmp"
definition sl_compress_tcp :: "addr \<Rightarrow> u_int" where "sl_compress_tcp m = 0"
definition sl_uncompress_tcp :: "int \<Rightarrow> u_int \<Rightarrow> int" where "sl_uncompress_tcp len type = 0"

section \<open>What is read back\<close>

lemma short_bytes: "push_bit 8 (ucast (ucast (drop_bit 8 n) :: u_char)) OR ucast (ucast n :: u_char) =
    (ucast (ucast n :: u_short) :: u_int)" for n :: u_int
  by (rule bit_word_eqI) (auto simp: bit_simps)

lemma small_byte:
  fixes n :: u_int
  assumes "(ucast n :: u_short) < 256"
  shows "(ucast (ucast n :: u_char) :: u_int) = ucast (ucast n :: u_short)"
proof -
  have "unat n mod 65536 < 256"
    using assms by (simp add: word_less_nat_alt unsigned_ucast_eq take_bit_eq_mod)
  then have "unat n mod 256 = unat n mod 65536"
    using mod_mod_cancel [of 256 65536 "unat n"] by simp
  then have "take_bit 32 (take_bit 8 (unat n)) = take_bit 32 (take_bit 16 (unat n))"
    by (simp add: take_bit_eq_mod)
  then show ?thesis by (simp add: word_unat_eq_iff unsigned_ucast_eq unsigned_take_bit_eq)
qed

lemma short_back: "(ucast (ucast w :: u_int) :: u_short) = w" for w :: u_short
  by (rule bit_word_eqI) (auto simp: bit_simps)

lemma char_back: "(ucast (ucast w :: u_int) :: u_char) = w" for w :: u_char
  by (rule bit_word_eqI) (auto simp: bit_simps)

lemma take_encodez: "take_number (ENCODEZ n @ rest) = Some (ucast (ucast n :: u_short), rest)"
proof (cases "(ucast n :: u_short) \<ge> 256 \<or> (ucast n :: u_short) = 0")
  case True
  then show ?thesis by (auto simp: ENCODEZ_def short_bytes)
next
  case False
  then have lt: "(ucast n :: u_short) < 256" by (simp add: not_le)
  note eq = small_byte [OF lt]
  have "(ucast n :: u_char) \<noteq> 0"
  proof
    assume "(ucast n :: u_char) = 0"
    with eq have "(ucast (ucast n :: u_short) :: u_int) = 0" by simp
    then have "(ucast (ucast (ucast n :: u_short) :: u_int) :: u_short) = 0" by simp
    with False show False by (simp add: short_back)
  qed
  with False eq show ?thesis by (simp add: ENCODEZ_def)
qed

text \<open>C39: the bytes of \<open>ENCODEZ\<close> can be told from what follows and hold the low sixteen bits of the number,
  and so do those of \<open>ENCODE\<close> for the non-zero numbers it is meant for; zero it writes as an escape without
  digits.  But \<open>DECODEU\<close> stores the number
  with its low byte cleared, because \<open>htons\<close> clears it: it reads back exactly the multiples of 256, and
  every number below 256 as zero.\<close>

theorem decode_clears_low_byte:
  "take_number (ENCODEZ n @ rest) = Some (ucast (ucast n :: u_short), rest) \<and>
   ENCODE n = (if (ucast n :: u_short) = 0 then [0] else ENCODEZ n) \<and>
   DECODEU (ENCODEZ n @ rest) = Some (ucast n AND 0xff00, rest) \<and>
   (DECODEU (ENCODEZ n @ rest) = Some (ucast n, rest) \<longleftrightarrow> (ucast n :: u_short) AND 0xff = 0)"
proof -
  have d: "DECODEU (ENCODEZ n @ rest) = Some (ucast n AND 0xff00, rest)"
    by (simp add: take_encodez DECODEU_def htons_mask short_back)
  have "w = (w AND 0xff00) OR (w AND 0xff)" for w :: u_short
  proof -
    have "(0xff00 OR 0xff :: u_short) = - 1" by simp
    then show ?thesis by (metis and.right_neutral bit.conj_disj_distrib)
  qed
  moreover have "(w AND 0xff00) AND 0xff = 0" for w :: u_short by (simp add: and.assoc)
  ultimately have "w AND 0xff00 = w \<longleftrightarrow> w AND 0xff = 0" for w :: u_short
    by (metis or.right_neutral)
  moreover have "ENCODE n = (if (ucast n :: u_short) = 0 then [0] else ENCODEZ n)"
  proof (cases "(ucast n :: u_short) = 0")
    case True
    then have "(ucast (ucast n :: u_char) :: u_int) = 0" using small_byte [of n] by simp
    then have "(ucast (ucast (ucast n :: u_char) :: u_int) :: u_char) = 0" by simp
    with True show ?thesis by (simp add: ENCODE_def char_back)
  next
    case False
    then show ?thesis by (simp add: ENCODE_def ENCODEZ_def)
  qed
  ultimately show ?thesis using d by (simp add: take_encodez)
qed

theorem decode_clears_low_byte_witness:
  "ENCODE 0x10000 = [0] \<and> DECODEU (ENCODEZ 0x1234 @ [7]) = Some (0x1200, [7]) \<and>
   DECODEU (ENCODEZ 5 @ [7]) = Some (0, [7])"
  using decode_clears_low_byte [of "0x1234" "[7]"] decode_clears_low_byte [of 5 "[7]"]
    decode_clears_low_byte [of "0x10000" "[7]"] by simp

end
