(* ===== verification/Slip.thy ===== *)
theory Slip
  imports Loop Tty Compress
begin

text \<open>
  The serial line interfaces (\<open>net/if_sl.c\<close>, \<open>net/if_slvar.h\<close>, \<open>net/slip.h\<close>): attaching the 32
  interfaces, opening and closing a line, the input routine that collects characters into packets,
  the output routine and the loop that sends queued packets to the terminal.

  The interface structure at the front of a \<open>sl_softc\<close> is kept with the other interfaces, at the same
  address; \<open>struct slcompress\<close> is left out, because the compression functions have no bodies.
  Terminals are a map from addresses.  The driver's \<open>t_oproc\<close> is a parameter.
\<close>

section \<open>Constants\<close>

definition NSL :: nat where "NSL = 32"
definition BUFOFFSET :: int where "BUFOFFSET = 128 + 8"
definition SLMAX :: int where "SLMAX = MCLBYTES - BUFOFFSET"
definition SLBUFSIZE :: int where "SLBUFSIZE = SLMAX + BUFOFFSET"
definition SLMTU :: int where "SLMTU = 296"
definition CBLOCK :: int where "CBLOCK = 64"
definition CBQSIZE :: int where "CBQSIZE = CBLOCK div 8"
definition CBSIZE :: int where "CBSIZE = CBLOCK - 8 - CBQSIZE"
definition roundup :: "int \<Rightarrow> int \<Rightarrow> int" where "roundup x y = (x + (y - 1)) div y * y"
definition SLIP_HIWAT :: int where "SLIP_HIWAT = roundup 50 CBSIZE"
definition CLISTRESERVE :: int where "CLISTRESERVE = 1024"
definition ABT_ESC :: u_char where "ABT_ESC = 27"
definition ABT_IDLE :: int where "ABT_IDLE = 1"
definition ABT_COUNT :: int where "ABT_COUNT = 3"
definition ABT_WINDOW :: int where "ABT_WINDOW = ABT_COUNT * 2 + 2"
definition FRAME_END :: u_char where "FRAME_END = 0xc0"
definition FRAME_ESCAPE :: u_char where "FRAME_ESCAPE = 0xdb"
definition TRANS_FRAME_END :: u_char where "TRANS_FRAME_END = 0xdc"
definition TRANS_FRAME_ESCAPE :: u_char where "TRANS_FRAME_ESCAPE = 0xdd"
definition SLIP_HDRLEN :: int where "SLIP_HDRLEN = 16"
definition SLX_DIR :: nat where "SLX_DIR = 0"
definition SLX_CHDR :: nat where "SLX_CHDR = 1"
definition CHDR_LEN :: nat where "CHDR_LEN = 15"
definition SLIPDIR_IN :: u_char where "SLIPDIR_IN = 0"
definition SLIPDIR_OUT :: u_char where "SLIPDIR_OUT = 1"
definition SC_ERROR :: u_int where "SC_ERROR = 0x0001"
definition SC_COMPRESS :: c_short where "SC_COMPRESS = IFF_LINK0"
definition SC_NOICMP :: c_short where "SC_NOICMP = IFF_LINK1"
definition SC_AUTOCOMP :: c_short where "SC_AUTOCOMP = IFF_LINK2"
definition MCLSHIFT :: nat where "MCLSHIFT = 11"

section \<open>State\<close>

record sl_softc =
  sc_fastq :: ifqueue
  sc_ttyp :: addr
  sc_mp :: addr
  sc_ep :: addr
  sc_buf :: addr
  sc_flags :: u_int
  sc_escape :: u_int
  sc_lasttime :: int
  sc_abortcount :: int
  sc_starttime :: int
  sc_bpf :: addr

text \<open>The cluster pool of \<open>sys/mbuf.h\<close>; the table of reference counts is a pointer that no code of
  the repository sets, \<open>None\<close> if it is null.\<close>

record slip =
  s_net :: net
  s_sc :: "addr \<Rightarrow> sl_softc option"
  s_tty :: "addr \<Rightarrow> tty option"
  tk_nin :: int
  cfreecount :: int
  mbutl :: addr
  mclrefcnt :: "u_char list option"
  mclfree :: addr
  m_clfree :: u_long

text \<open>The address of the array element \<open>sl_softc[k]\<close>, and of the interface in it.\<close>

definition sl_addr :: "nat \<Rightarrow> addr" where "sl_addr k = 1024 + 64 * k"

definition ldsc :: "slip \<Rightarrow> addr \<Rightarrow> sl_softc option" where
  "ldsc s p = (if p = 0 then None else s_sc s p)"

definition updsc :: "slip \<Rightarrow> addr \<Rightarrow> (sl_softc \<Rightarrow> sl_softc) \<Rightarrow> slip option" where
  "updsc s p f = (case ldsc s p of None \<Rightarrow> None | Some c \<Rightarrow> Some (s\<lparr>s_sc := (s_sc s)(p \<mapsto> f c)\<rparr>))"

definition ldtty :: "slip \<Rightarrow> addr \<Rightarrow> tty option" where
  "ldtty s p = (if p = 0 then None else s_tty s p)"

definition updtty :: "slip \<Rightarrow> addr \<Rightarrow> (tty \<Rightarrow> tty) \<Rightarrow> slip option" where
  "updtty s p f = (case ldtty s p of None \<Rightarrow> None | Some t \<Rightarrow> Some (s\<lparr>s_tty := (s_tty s)(p \<mapsto> f t)\<rparr>))"

definition onnet :: "slip \<Rightarrow> (net \<Rightarrow> net option) \<Rightarrow> slip option" where
  "onnet s f = (case f (s_net s) of None \<Rightarrow> None | Some n \<Rightarrow> Some (s\<lparr>s_net := n\<rparr>))"

definition sl_count :: "slip \<Rightarrow> addr \<Rightarrow> (ifdata \<Rightarrow> ifdata) \<Rightarrow> slip option" where
  "sl_count s p f = onnet s (\<lambda>n. upd_data n p f)"

section \<open>Attach, open, close\<close>

definition slattach_one :: "slip \<Rightarrow> nat \<Rightarrow> slip option" where
  "slattach_one s k = do {
     let p = sl_addr k;
     s \<leftarrow> onnet s (\<lambda>n. updif n p (\<lambda>i. i\<lparr>if_name := Some [115, 108], if_next := 0, if_unit := word_of_nat k,
            if_flags := IFF_POINTOPOINT OR IFF_MULTICAST OR SC_AUTOCOMP,
            if_snd := (if_snd i)\<lparr>ifq_maxlen := g_ifqmaxlen n\<rparr>,
            if_data := (if_data i)\<lparr>ifi_mtu := word_of_int SLMTU, ifi_type := IFT_SLIP, ifi_metric := 0, ifi_baudrate := 0\<rparr>,
            if_output := F_sloutput, if_ioctl := F_slioctl\<rparr>));
     s \<leftarrow> updsc s p (\<lambda>c. c\<lparr>sc_fastq := (sc_fastq c)\<lparr>ifq_maxlen := 32\<rparr>,
            sc_flags := ucast (SC_AUTOCOMP OR SC_NOICMP)\<rparr>);
     s \<leftarrow> onnet s (\<lambda>n. if_attach n p);
     c \<leftarrow> ldsc s p;
     onnet s (\<lambda>n. Some (bpfattach n (sc_bpf c) p DLT_SLIP SLIP_HDRLEN)) }"

fun slattach_loop :: "nat \<Rightarrow> slip \<Rightarrow> nat \<Rightarrow> slip option" where
  "slattach_loop 0 s i = Some s"
| "slattach_loop (Suc r) s i = do { s \<leftarrow> slattach_one s i; slattach_loop r s (i + 1) }"

text \<open>The counter runs from 0 while it is less than \<open>NSL\<close>.\<close>

definition slattach :: "slip \<Rightarrow> slip option" where
  "slattach s = slattach_loop NSL s 0"

definition slinit :: "slip \<Rightarrow> addr \<Rightarrow> (int \<times> slip) option" where
  "slinit s p = do {
     c \<leftarrow> ldsc s p;
     s \<leftarrow> (if sc_ep c = 0
           then (let (b, h) = malloc_buf (nat MCLBYTES) (n_mem (s_net s)) in
                 updsc (s\<lparr>s_net := (s_net s)\<lparr>n_mem := h\<rparr>\<rparr>) p (\<lambda>c. c\<lparr>sc_ep := ptr_add b MCLBYTES\<rparr>))
           else Some s);
     s \<leftarrow> updsc s p (\<lambda>c. c\<lparr>sc_buf := ptr_add (sc_ep c) (- SLMAX)\<rparr>);
     s \<leftarrow> updsc s p (\<lambda>c. c\<lparr>sc_mp := sc_buf c\<rparr>);
     Some (1, sl_compress_init s) }"

text \<open>The loop of \<open>slopen\<close> over the interfaces from number \<open>k\<close> on, \<open>r\<close> of them left.\<close>

fun slopen_loop :: "nat \<Rightarrow> slip \<Rightarrow> nat \<Rightarrow> addr \<Rightarrow> (int \<times> slip) option" where
  "slopen_loop 0 s k tp = Some (ENXIO, s)"
| "slopen_loop (Suc r) s k tp = do {
     c \<leftarrow> ldsc s (sl_addr k);
     if sc_ttyp c = 0
     then do {
       (_, s) \<leftarrow> slinit s (sl_addr k);
       s \<leftarrow> updtty s tp (\<lambda>t. t\<lparr>t_sc := sl_addr k\<rparr>);
       s \<leftarrow> updsc s (sl_addr k) (\<lambda>c. c\<lparr>sc_ttyp := tp\<rparr>);
       t \<leftarrow> ldtty s tp;
       s \<leftarrow> sl_count s (sl_addr k) (\<lambda>d. d\<lparr>ifi_baudrate := word_of_int (t_ospeed t)\<rparr>);
       s \<leftarrow> updtty s tp (\<lambda>t. ttyflush t (FREAD OR FWRITE));
       Some (0, s) }
     else slopen_loop r s (k + 1) tp }"

definition slopen :: "slip \<Rightarrow> int \<Rightarrow> addr \<Rightarrow> (int \<times> slip) option" where
  "slopen s dev tp = do {
     t \<leftarrow> ldtty s tp;
     if t_line t = SLIPDISC then Some (0, s) else slopen_loop NSL s 0 tp }"

text \<open>Dropping a reference to a cluster: its counter in the table, and the free list threaded through
  the first bytes of free clusters.\<close>

definition mtocl :: "slip \<Rightarrow> addr \<Rightarrow> nat" where
  "mtocl s p = unat (drop_bit MCLSHIFT (word_of_nat p - word_of_nat (mbutl s) :: u_int))"

definition MCLFREE :: "slip \<Rightarrow> addr \<Rightarrow> slip option" where
  "MCLFREE s p = do {
     t \<leftarrow> mclrefcnt s;
     guard (mtocl s p < length t);
     let t = t[mtocl s p := t ! mtocl s p - 1];
     let s = s\<lparr>mclrefcnt := Some t\<rparr>;
     if t ! mtocl s p = 0
     then do {
       s \<leftarrow> onnet s (\<lambda>n. nwr n p (nat_le 8 (mclfree s)));
       Some (s\<lparr>mclfree := p, m_clfree := m_clfree s + 1\<rparr>) }
     else Some s }"

definition slclose :: "env \<Rightarrow> slip \<Rightarrow> addr \<Rightarrow> slip option" where
  "slclose e s tp = do {
     t \<leftarrow> ldtty s tp;
     let p = t_sc t;
     s \<leftarrow> updtty s tp (\<lambda>t. (snd (ttywflush t))\<lparr>t_line := 0\<rparr>);
     if p \<noteq> 0
     then do {
       s \<leftarrow> onnet s (\<lambda>n. if_down e n p);
       s \<leftarrow> updsc s p (\<lambda>c. c\<lparr>sc_ttyp := 0\<rparr>);
       s \<leftarrow> updtty s tp (\<lambda>t. t\<lparr>t_sc := 0\<rparr>);
       c \<leftarrow> ldsc s p;
       s \<leftarrow> MCLFREE s (ptr_add (sc_ep c) (- SLBUFSIZE));
       updsc s p (\<lambda>c. c\<lparr>sc_buf := 0, sc_mp := 0, sc_ep := 0\<rparr>) }
     else Some s }"

section \<open>Input\<close>

text \<open>A packet of \<open>len\<close> bytes from the buffer into a new mbuf: the bytes go to the mbuf itself, whose data
  area has 72 bytes; a length beyond a cluster would give an mbuf that points past a new cluster.\<close>

definition sl_btom :: "sl_softc \<Rightarrow> int \<Rightarrow> mem \<Rightarrow> (addr \<times> mem) option" where
  "sl_btom c len h = do {
     (m, h) \<leftarrow> MGETHDR h 0 0;
     h \<leftarrow> upd h m (\<lambda>b. b\<lparr>m_len := len\<rparr>);
     if len < MCLBYTES
     then do {
       h \<leftarrow> upd h m (set_pk_len len);
       b \<leftarrow> ld h m;
       h \<leftarrow> memcpy h (m_data b) (sc_buf c) len;
       Some (m, h) }
     else do {
       let (p, h) = malloc_buf (nat MCLBYTES) h;
       h \<leftarrow> upd h m (\<lambda>b. set_ext_buf (ptr_add p MCLBYTES)
              (b\<lparr>m_flags := m_flags b OR M_EXT, m_data := ptr_add p MCLBYTES\<rparr>));
       Some (m, h) } }"

text \<open>How \<open>slinput\<close> goes on after its \<open>switch\<close>: with a character to store, at the label \<open>error\<close>, at
  the label \<open>newpack\<close>, or it returns.\<close>

datatype sl_next = Store u_int | Error | Newpack | Return

definition sl_newpack :: "slip \<Rightarrow> addr \<Rightarrow> slip option" where
  "sl_newpack s p = updsc s p (\<lambda>c. c\<lparr>sc_buf := ptr_add (sc_ep c) (- SLMAX), sc_mp := ptr_add (sc_ep c) (- SLMAX),
     sc_escape := 0\<rparr>)"

definition sl_error :: "slip \<Rightarrow> addr \<Rightarrow> slip option" where
  "sl_error s p = do { s \<leftarrow> sl_count s p (\<lambda>d. d\<lparr>ifi_ierrors := ifi_ierrors d + 1\<rparr>); sl_newpack s p }"

text \<open>The packet at the end of a frame is not an IP packet as it stands: the type and length to go on with,
  or the label \<open>error\<close>.\<close>

definition sl_expand :: "slip \<Rightarrow> addr \<Rightarrow> u_int \<Rightarrow> u_char \<Rightarrow> int \<Rightarrow> ((u_int \<times> int) option \<times> slip) option" where
  "sl_expand s p ch b len = do {
     c \<leftarrow> ldsc s p;
     (ch, s) \<leftarrow> (if has ch 0x80 then Some (TYPE_COMPRESSED_TCP, s)
                else if ch = TYPE_UNCOMPRESSED_TCP
                then do { s \<leftarrow> onnet s (\<lambda>n. nwr n (sc_buf c) [b AND 0x4f]); Some (ch, s) }
                else Some (ch, s));
     i \<leftarrow> ldif (s_net s) p;
     if has (if_flags i) SC_COMPRESS
     then (let len = sl_uncompress_tcp len ch in Some (if len \<le> 0 then None else Some (ch, len), s))
     else if has (if_flags i) SC_AUTOCOMP \<and> ch = TYPE_UNCOMPRESSED_TCP \<and> len \<ge> 40
     then (let len = sl_uncompress_tcp len ch in
           if len \<le> 0 then Some (None, s)
           else do {
             s \<leftarrow> onnet s (\<lambda>n. updif n p (\<lambda>i. i\<lparr>if_flags := if_flags i OR SC_COMPRESS\<rparr>));
             Some (Some (ch, len), s) })
     else Some (None, s) }"

text \<open>The packet filter sees the packet with a header in front of it, in the buffer.\<close>

definition sl_tap_in :: "slip \<Rightarrow> addr \<Rightarrow> u_char list \<Rightarrow> int \<Rightarrow> slip option" where
  "sl_tap_in s p chdr len = do {
     c \<leftarrow> ldsc s p;
     if sc_bpf c \<noteq> 0
     then do {
       let hp = ptr_add (sc_buf c) (- SLIP_HDRLEN);
       s \<leftarrow> onnet s (\<lambda>n. nwr n (hp + SLX_DIR) [SLIPDIR_IN]);
       s \<leftarrow> onnet s (\<lambda>n. nwr n (hp + SLX_CHDR) chdr);
       Some (s\<lparr>s_net := bpf_tap (s_net s) (sc_bpf c) hp (len + SLIP_HDRLEN)\<rparr>) }
     else Some s }"

definition sl_deliver :: "slip \<Rightarrow> addr \<Rightarrow> u_int \<Rightarrow> int \<Rightarrow> (sl_next \<times> slip) option" where
  "sl_deliver s p ch len = do {
     c \<leftarrow> ldsc s p;
     (m, h) \<leftarrow> sl_btom c len (n_mem (s_net s));
     let s = s\<lparr>s_net := (s_net s)\<lparr>n_mem := h\<rparr>\<rparr>;
     if m = 0 then Some (Error, s)
     else do {
       s \<leftarrow> onnet s (\<lambda>n. upd_data n p (\<lambda>d. d\<lparr>ifi_ipackets := ifi_ipackets d + 1, ifi_lastchange := g_time n\<rparr>));
       let n = s_net s;
       if IF_QFULL (g_ipintrq n)
       then do {
         s \<leftarrow> onnet s (\<lambda>n. upd_data (n\<lparr>g_ipintrq := IF_DROP (g_ipintrq n)\<rparr>) p
                (\<lambda>d. d\<lparr>ifi_ierrors := ifi_ierrors d + 1, ifi_iqdrops := ifi_iqdrops d + 1\<rparr>));
         s \<leftarrow> onnet s (\<lambda>n. freem n m);
         Some (Store ch, s) }
       else do {
         (h, q) \<leftarrow> IF_ENQUEUE (n_mem n) (g_ipintrq n) m;
         Some (Store ch, s\<lparr>s_net := n\<lparr>n_mem := h, g_ipintrq := q\<rparr>\<rparr>) } } }"

text \<open>The case \<open>FRAME_END\<close>.  The character is a local variable that the test of the version overwrites.\<close>

definition sl_frame_end :: "slip \<Rightarrow> addr \<Rightarrow> (sl_next \<times> slip) option" where
  "sl_frame_end s p = do {
     c \<leftarrow> ldsc s p;
     if has (sc_flags c) SC_ERROR
     then do { s \<leftarrow> updsc s p (\<lambda>c. c\<lparr>sc_flags := sc_flags c AND NOT SC_ERROR\<rparr>); Some (Newpack, s) }
     else do {
       let len = int (sc_mp c) - int (sc_buf c);
       if len < 3 then Some (Newpack, s)
       else do {
         chdr \<leftarrow> (if sc_bpf c \<noteq> 0 then nrd (s_net s) (sc_buf c) CHDR_LEN else Some []);
         b \<leftarrow> rd8 (s_net s) (sc_buf c);
         let ch = (ucast b AND 0xf0 :: u_int);
         (r, s) \<leftarrow> (if ch \<noteq> push_bit 4 IPVERSION then sl_expand s p ch b len else Some (Some (ch, len), s));
         case r of None \<Rightarrow> Some (Error, s)
         | Some (ch, len) \<Rightarrow> do { s \<leftarrow> sl_tap_in s p chdr len; sl_deliver s p ch len } } } }"

definition sl_switch :: "slip \<Rightarrow> addr \<Rightarrow> u_int \<Rightarrow> (sl_next \<times> slip) option" where
  "sl_switch s p ch = do {
     c \<leftarrow> ldsc s p;
     if ch = ucast TRANS_FRAME_ESCAPE
     then Some (Store (if sc_escape c \<noteq> 0 then ucast FRAME_ESCAPE else ch), s)
     else if ch = ucast TRANS_FRAME_END
     then Some (Store (if sc_escape c \<noteq> 0 then ucast FRAME_END else ch), s)
     else if ch = ucast FRAME_ESCAPE
     then do { s \<leftarrow> updsc s p (\<lambda>c. c\<lparr>sc_escape := 1\<rparr>); Some (Return, s) }
     else if ch = ucast FRAME_END then sl_frame_end s p
     else Some (Store ch, s) }"

definition sl_store :: "slip \<Rightarrow> addr \<Rightarrow> u_int \<Rightarrow> slip option" where
  "sl_store s p ch = do {
     c \<leftarrow> ldsc s p;
     if sc_mp c < sc_ep c
     then do {
       s \<leftarrow> onnet s (\<lambda>n. nwr n (sc_mp c) [ucast ch]);
       updsc s p (\<lambda>c. c\<lparr>sc_mp := sc_mp c + 1, sc_escape := 0\<rparr>) }
     else do { s \<leftarrow> updsc s p (\<lambda>c. c\<lparr>sc_flags := sc_flags c OR SC_ERROR\<rparr>); sl_error s p } }"

definition slinput :: "u_int \<Rightarrow> addr \<Rightarrow> slip \<Rightarrow> slip option" where
  "slinput ch tp s = do {
     t \<leftarrow> ldtty s tp;
     let p = t_sc t;
     let s = s\<lparr>tk_nin := tk_nin s + 1\<rparr>;
     if p = 0 then Some s
     else if has ch TTY_ERRORMASK \<or> \<not> has (t_state t) TS_CARR_ON \<and> \<not> has (t_cflag t) CLOCAL
     then updsc s p (\<lambda>c. c\<lparr>sc_flags := sc_flags c OR SC_ERROR\<rparr>)
     else do {
       (x, s) \<leftarrow> sl_switch s p (ch AND TTY_CHARMASK);
       case x of Store ch \<Rightarrow> sl_store s p ch | Error \<Rightarrow> sl_error s p | Newpack \<Rightarrow> sl_newpack s p | Return \<Rightarrow> Some s } }"

section \<open>Output\<close>

text \<open>The queue of the next packet, interactive packets first; the count of multicasts is the count of
  interactive packets.\<close>

definition sl_dequeue :: "slip \<Rightarrow> addr \<Rightarrow> (addr \<times> slip) option" where
  "sl_dequeue s p = do {
     c \<leftarrow> ldsc s p;
     (m, q) \<leftarrow> IF_DEQUEUE (n_mem (s_net s)) (sc_fastq c);
     s \<leftarrow> updsc s p (\<lambda>c. c\<lparr>sc_fastq := q\<rparr>);
     if m \<noteq> 0
     then do { s \<leftarrow> sl_count s p (\<lambda>d. d\<lparr>ifi_omcasts := ifi_omcasts d + 1\<rparr>); Some (m, s) }
     else do {
       i \<leftarrow> ldif (s_net s) p;
       (m, q) \<leftarrow> IF_DEQUEUE (n_mem (s_net s)) (if_snd i);
       s \<leftarrow> onnet s (\<lambda>n. updif n p (\<lambda>i. i\<lparr>if_snd := q\<rparr>));
       Some (m, s) } }"

text \<open>The copy for the packet filter, in a local buffer of \<open>SLMTU\<close> bytes and a header.\<close>

partial_function (option) sl_bpfbuf :: "mem \<Rightarrow> addr \<Rightarrow> u_char list \<Rightarrow> u_char list option" where
  "sl_bpfbuf h m buf =
     (if m = 0 then Some buf
      else do {
        b \<leftarrow> ld h m;
        guard (m_len b \<ge> 0);
        xs \<leftarrow> rd h (m_data b) (nat (m_len b));
        guard (int (length (buf @ xs)) \<le> SLMTU);
        sl_bpfbuf h (m_next b) (buf @ xs) })"

definition stack_bpfbuf :: addr where "stack_bpfbuf = 2200"

definition sl_tap_out :: "slip \<Rightarrow> addr \<Rightarrow> addr \<Rightarrow> slip option" where
  "sl_tap_out s p m = do {
     c \<leftarrow> ldsc s p;
     if sc_bpf c \<noteq> 0
     then do {
       b \<leftarrow> ld (n_mem (s_net s)) m;
       _ \<leftarrow> nrd (s_net s) (m_data b) CHDR_LEN;
       Some (s\<lparr>s_net := bpf_tap (s_net s) (sc_bpf c) stack_bpfbuf (0 + SLIP_HDRLEN)\<rparr>) }
     else Some s }"

text \<open>The protocol field of an IP header is at offset 9, the type of service at offset 1.\<close>

definition sl_squeeze :: "slip \<Rightarrow> addr \<Rightarrow> addr \<Rightarrow> slip option" where
  "sl_squeeze s p m = do {
     b \<leftarrow> ld (n_mem (s_net s)) m;
     proto \<leftarrow> rd8 (s_net s) (m_data b + 9);
     i \<leftarrow> ldif (s_net s) p;
     if proto = IPPROTO_TCP \<and> has (if_flags i) SC_COMPRESS
     then do {
       x \<leftarrow> rd8 (s_net s) (m_data b);
       onnet s (\<lambda>n. nwr n (m_data b) [x OR ucast (sl_compress_tcp m)]) }
     else Some s }"

definition sl_putc :: "slip \<Rightarrow> addr \<Rightarrow> u_char \<Rightarrow> (int \<times> slip) option" where
  "sl_putc s tp c = do {
     t \<leftarrow> ldtty s tp;
     let (r, q) = putc c (t_outq t);
     s \<leftarrow> updtty s tp (\<lambda>t. t\<lparr>t_outq := q\<rparr>);
     Some (r, s) }"

text \<open>The innermost loop: \<open>break\<close> leaves the \<open>switch\<close>, not the loop, so that it takes all characters.\<close>

fun sl_skip :: "u_char list \<Rightarrow> u_char list" where
  "sl_skip [] = []"
| "sl_skip (x # xs) = (if x = FRAME_END \<or> x = FRAME_ESCAPE then sl_skip xs else sl_skip xs)"

text \<open>The characters \<open>xs\<close> of an mbuf from \<open>cp\<close> on.\<close>

partial_function (option) sl_chars :: "slip \<Rightarrow> addr \<Rightarrow> addr \<Rightarrow> addr \<Rightarrow> u_char list \<Rightarrow> slip option" where
  "sl_chars s p tp cp xs =
     (if xs = [] then Some s
      else do {
        let rest = sl_skip xs;
        let k = length xs - length rest;
        s \<leftarrow> (if k > 0
              then do {
                t \<leftarrow> ldtty s tp;
                s \<leftarrow> updtty s tp (\<lambda>t. t\<lparr>t_outq := snd (b_to_q cp (int k - 1) (t_outq t))\<rparr>);
                sl_count s p (\<lambda>d. d\<lparr>ifi_obytes := ifi_obytes d + word_of_nat k\<rparr>) }
              else Some s);
        s \<leftarrow> (if rest \<noteq> []
              then do {
                (_, s) \<leftarrow> sl_putc s tp FRAME_ESCAPE;
                (_, s) \<leftarrow> (if hd rest = FRAME_END then sl_putc s tp TRANS_FRAME_END
                          else if hd rest = FRAME_ESCAPE then sl_putc s tp TRANS_FRAME_ESCAPE else Some (0, s));
                sl_count s p (\<lambda>d. d\<lparr>ifi_obytes := ifi_obytes d + 2\<rparr>) }
              else Some s);
        sl_chars s p tp (cp + k) rest })"

partial_function (option) sl_packet :: "slip \<Rightarrow> addr \<Rightarrow> addr \<Rightarrow> addr \<Rightarrow> slip option" where
  "sl_packet s p tp m =
     (if m = 0 then Some s
      else do {
        b \<leftarrow> ld (n_mem (s_net s)) m;
        xs \<leftarrow> nrd (s_net s) (m_data b) (nat (m_len b));
        s \<leftarrow> sl_chars s p tp (m_data b) xs;
        (m2, h) \<leftarrow> MFREE (n_mem (s_net s)) m;
        sl_packet (s\<lparr>s_net := (s_net s)\<lparr>n_mem := h\<rparr>\<rparr>) p tp m2 })"

definition sl_frame :: "slip \<Rightarrow> addr \<Rightarrow> addr \<Rightarrow> addr \<Rightarrow> slip option" where
  "sl_frame s p tp m = do {
     t \<leftarrow> ldtty s tp;
     s \<leftarrow> (if c_cc (t_outq t) = 0
           then do {
             s \<leftarrow> sl_count s p (\<lambda>d. d\<lparr>ifi_obytes := ifi_obytes d + 1\<rparr>);
             (_, s) \<leftarrow> sl_putc s tp FRAME_END;
             Some s }
           else Some s);
     s \<leftarrow> sl_packet s p tp m;
     (r, s) \<leftarrow> sl_putc s tp FRAME_END;
     if r \<noteq> 0
     then do {
       s \<leftarrow> updtty s tp (\<lambda>t. t\<lparr>t_outq := snd (unputc (t_outq t))\<rparr>);
       (_, s) \<leftarrow> sl_putc s tp FRAME_END;
       sl_count s p (\<lambda>d. d\<lparr>ifi_collisions := ifi_collisions d + 1\<rparr>) }
     else do {
       s \<leftarrow> sl_count s p (\<lambda>d. d\<lparr>ifi_obytes := ifi_obytes d + 1\<rparr>);
       sl_count s p (\<lambda>d. d\<lparr>ifi_obytes := ifi_obytes d + 1\<rparr>) } }"

text \<open>One packet off the queue.\<close>

definition sl_send :: "slip \<Rightarrow> addr \<Rightarrow> addr \<Rightarrow> addr \<Rightarrow> slip option" where
  "sl_send s p tp m = do {
     c \<leftarrow> ldsc s p;
     _ \<leftarrow> (if sc_bpf c \<noteq> 0 then sl_bpfbuf (n_mem (s_net s)) m [] else Some []);
     s \<leftarrow> sl_squeeze s p m;
     s \<leftarrow> sl_tap_out s p m;
     s \<leftarrow> onnet s (\<lambda>n. upd_data n p (\<lambda>d. d\<lparr>ifi_lastchange := g_time n\<rparr>));
     if cfreecount s < CLISTRESERVE + SLMTU
     then do {
       s \<leftarrow> onnet s (\<lambda>n. freem n m);
       sl_count s p (\<lambda>d. d\<lparr>ifi_collisions := ifi_collisions d + 1\<rparr>) }
     else sl_frame s p tp m }"

text \<open>\<open>oproc\<close> is what the output procedures of the terminal drivers do; \<open>0\<close> is a null pointer.\<close>

type_synonym oproc = "nat \<Rightarrow> addr \<Rightarrow> slip \<Rightarrow> slip option"

partial_function (option) slstart_loop :: "oproc \<Rightarrow> addr \<Rightarrow> addr \<Rightarrow> slip \<Rightarrow> slip option" where
  "slstart_loop oproc p tp s = do {
     t \<leftarrow> ldtty s tp;
     s \<leftarrow> (if c_cc (t_outq t) \<noteq> 0
           then if t_oproc t = 0 then None else oproc (t_oproc t) tp s
           else Some s);
     t \<leftarrow> ldtty s tp;
     if c_cc (t_outq t) > SLIP_HIWAT then Some s
     else if p = 0 then Some s
     else do {
       (m, s) \<leftarrow> sl_dequeue s p;
       if m = 0 then Some s
       else do { s \<leftarrow> sl_send s p tp m; slstart_loop oproc p tp s } } }"

definition slstart :: "oproc \<Rightarrow> addr \<Rightarrow> slip \<Rightarrow> slip option" where
  "slstart oproc tp s = do { t \<leftarrow> ldtty s tp; slstart_loop oproc (t_sc t) tp s }"

text \<open>The element of \<open>sl_softc\<close> is the one with the unit number of the interface.\<close>

definition sl_unit :: "ifnet \<Rightarrow> addr option" where
  "sl_unit i = (let u = sint (if_unit i) in if 0 \<le> u \<and> u < int NSL then Some (sl_addr (nat u)) else None)"

definition sl_enqueue :: "oproc \<Rightarrow> addr \<Rightarrow> addr \<Rightarrow> addr \<Rightarrow> bool \<Rightarrow> slip \<Rightarrow> (int \<times> slip) option" where
  "sl_enqueue oproc ifp p m fast s = do {
     c \<leftarrow> ldsc s p;
     i \<leftarrow> ldif (s_net s) ifp;
     if IF_QFULL (if fast then sc_fastq c else if_snd i)
     then do {
       s \<leftarrow> (if fast then updsc s p (\<lambda>c. c\<lparr>sc_fastq := IF_DROP (sc_fastq c)\<rparr>)
             else onnet s (\<lambda>n. updif n ifp (\<lambda>i. i\<lparr>if_snd := IF_DROP (if_snd i)\<rparr>)));
       s \<leftarrow> sl_count s ifp (\<lambda>d. d\<lparr>ifi_oerrors := ifi_oerrors d + 1\<rparr>);
       s \<leftarrow> onnet s (\<lambda>n. freem n m);
       Some (ENOBUFS, s) }
     else do {
       (h, q) \<leftarrow> IF_ENQUEUE (n_mem (s_net s)) (if fast then sc_fastq c else if_snd i) m;
       let s = s\<lparr>s_net := (s_net s)\<lparr>n_mem := h\<rparr>\<rparr>;
       s \<leftarrow> (if fast then updsc s p (\<lambda>c. c\<lparr>sc_fastq := q\<rparr>)
             else onnet s (\<lambda>n. updif n ifp (\<lambda>i. i\<lparr>if_snd := q\<rparr>)));
       s \<leftarrow> onnet s (\<lambda>n. upd_data n p (\<lambda>d. d\<lparr>ifi_lastchange := g_time n\<rparr>));
       t \<leftarrow> ldtty s (sc_ttyp c);
       s \<leftarrow> (if c_cc (t_outq t) = 0 then slstart oproc (sc_ttyp c) s else Some s);
       Some (0, s) } }"

definition sloutput :: "oproc \<Rightarrow> addr \<Rightarrow> addr \<Rightarrow> addr \<Rightarrow> addr \<Rightarrow> slip \<Rightarrow> (int \<times> slip) option" where
  "sloutput oproc ifp m dst rtp s = do {
     b \<leftarrow> ld (n_mem (s_net s)) m;
     i \<leftarrow> ldif (s_net s) ifp;
     p \<leftarrow> sl_unit i;
     f \<leftarrow> sa_family (s_net s) dst;
     if f \<noteq> AF_INET
     then do {
       s \<leftarrow> onnet s (\<lambda>n. freem n m);
       s \<leftarrow> sl_count s p (\<lambda>d. d\<lparr>ifi_noproto := ifi_noproto d + 1\<rparr>);
       Some (EAFNOSUPPORT, s) }
     else do {
       c \<leftarrow> ldsc s p;
       if sc_ttyp c = 0 then do { s \<leftarrow> onnet s (\<lambda>n. freem n m); Some (ENETDOWN, s) }
       else do {
         t \<leftarrow> ldtty s (sc_ttyp c);
         if \<not> has (t_state t) TS_CARR_ON \<and> \<not> has (t_flags t) CLOCAL
         then do { s \<leftarrow> onnet s (\<lambda>n. freem n m); Some (EHOSTUNREACH, s) }
         else do {
           k \<leftarrow> ldif (s_net s) p;
           icmp \<leftarrow> (if has (if_flags k) SC_NOICMP
                    then map_option (\<lambda>x. x = IPPROTO_ICMP) (rd8 (s_net s) (m_data b + 9)) else Some False);
           if icmp then do { s \<leftarrow> onnet s (\<lambda>n. freem n m); Some (ENETRESET, s) }
           else do {
             tos \<leftarrow> rd8 (s_net s) (m_data b + 1);
             sl_enqueue oproc ifp p m (has tos IPTOS_LOWDELAY) s } } } } }"

section \<open>Requests\<close>

definition sltioctl :: "slip \<Rightarrow> addr \<Rightarrow> u_int \<Rightarrow> ioarg \<Rightarrow> int \<Rightarrow> (int \<times> ioarg) option" where
  "sltioctl s tp cmd data flag = do {
     t \<leftarrow> ldtty s tp;
     if cmd = SLIOCGUNIT
     then do {
       i \<leftarrow> (if t_sc t = 0 then None else ldif (s_net s) (t_sc t));
       d \<leftarrow> req_store data 0 (nat_le 4 (unat (scast (if_unit i) :: u_int)));
       Some (0, d) }
     else Some (-1, data) }"

definition slioctl :: "addr \<Rightarrow> u_int \<Rightarrow> ioarg \<Rightarrow> net \<Rightarrow> (int \<times> ioarg \<times> net) option" where
  "slioctl ifp cmd data n =
     (if cmd = SIOCSIFADDR
      then do {
        a \<leftarrow> arg_ifa_addr n data;
        f \<leftarrow> sa_family n a;
        if f = AF_INET
        then do { n \<leftarrow> updif n ifp (\<lambda>i. i\<lparr>if_flags := if_flags i OR IFF_UP\<rparr>); Some (0, data, n) }
        else Some (EAFNOSUPPORT, data, n) }
      else if cmd = SIOCSIFDSTADDR
      then do {
        a \<leftarrow> arg_ifa_addr n data;
        f \<leftarrow> sa_family n a;
        Some (if f \<noteq> AF_INET then EAFNOSUPPORT else 0, data, n) }
      else Some (EINVAL, data, n))"

end
