(* ===== verification/SlipProps.thy ===== *)
theory SlipProps
  imports Slip EtherProps
begin

text \<open>
  What the serial line interfaces do: how received characters become a packet in the line's buffer
  and what happens at the end of a frame, and what becomes of the packets that are queued for
  output.
\<close>

section \<open>The receive buffer\<close>

text \<open>The line of terminal \<open>tp\<close> uses the interface \<open>p\<close> and the cluster \<open>B\<close>; it has collected \<open>xs\<close>, and
  has just seen an escape or an error or not.  The buffer has 1912 bytes from offset 136 on.\<close>

definition line_ok :: "addr \<Rightarrow> u_char list \<Rightarrow> bool \<Rightarrow> bool \<Rightarrow> sl_softc \<Rightarrow> bool" where
  "line_ok B xs esc err c \<longleftrightarrow> sc_ep c = B + 2048 \<and> sc_buf c = B + 136 \<and> sc_mp c = B + (136 + length xs) \<and>
     length xs \<le> 1912 \<and> (sc_escape c \<noteq> 0 \<longleftrightarrow> esc) \<and> (has (sc_flags c) SC_ERROR \<longleftrightarrow> err)"

definition buf_ok :: "mem \<Rightarrow> addr \<Rightarrow> u_char list \<Rightarrow> bool" where
  "buf_ok h B xs \<longleftrightarrow> B mod 4096 = 0 \<and> wf_mem h \<and>
     (\<exists>blk. mm_buf h B = Some blk \<and> length blk = 2048 \<and> slice 136 (length xs) blk = xs)"

definition sl_line :: "slip \<Rightarrow> addr \<Rightarrow> addr \<Rightarrow> addr \<Rightarrow> u_char list \<Rightarrow> bool \<Rightarrow> bool \<Rightarrow> bool" where
  "sl_line s tp p B xs esc err \<longleftrightarrow> (\<exists>t. ldtty s tp = Some t \<and> t_sc t = p \<and> has (t_state t) TS_CARR_ON) \<and>
     (\<exists>c. ldsc s p = Some c \<and> line_ok B xs esc err c) \<and> ldif (s_net s) p \<noteq> None \<and> buf_ok (n_mem (s_net s)) B xs"

text \<open>What a character other than the end of a frame makes of the line.\<close>

definition line_char :: "bool \<Rightarrow> u_char \<Rightarrow> u_char" where
  "line_char esc c = (if esc \<and> c = TRANS_FRAME_END then FRAME_END
     else if esc \<and> c = TRANS_FRAME_ESCAPE then FRAME_ESCAPE else c)"

definition line_step :: "u_char \<Rightarrow> u_char list \<times> bool \<times> bool \<Rightarrow> u_char list \<times> bool \<times> bool" where
  "line_step c l = (case l of (xs, esc, err) \<Rightarrow>
     if c = FRAME_ESCAPE then (xs, True, err)
     else if length xs < 1912 then (xs @ [line_char esc c], False, err)
     else ([], False, True))"

lemmas frame_chars = FRAME_END_def FRAME_ESCAPE_def TRANS_FRAME_END_def TRANS_FRAME_ESCAPE_def

lemma char_int [simp]:
  "(ucast c :: u_int) AND TTY_CHARMASK = ucast c" "\<not> has (ucast c :: u_int) TTY_ERRORMASK"
  "(ucast c :: u_int) = ucast d \<longleftrightarrow> c = d" for c d :: u_char
proof -
  have m: "TTY_CHARMASK = mask 8" "TTY_ERRORMASK = NOT (mask 24)"
    by (simp_all add: TTY_CHARMASK_def TTY_ERRORMASK_def mask_eq_exp_minus_1)
  show "(ucast c :: u_int) AND TTY_CHARMASK = ucast c"
    by (rule bit_word_eqI) (auto simp: m bit_simps dest: bit_imp_le_length)
  have "(ucast c :: u_int) AND TTY_ERRORMASK = 0"
    by (rule bit_word_eqI) (auto simp: m bit_simps dest: bit_imp_le_length)
  then show "\<not> has (ucast c :: u_int) TTY_ERRORMASK" by (simp add: has_def)
  show "(ucast c :: u_int) = ucast d \<longleftrightarrow> c = d" by (metis char_back)
qed


lemma updsc_eq: "ldsc s p = Some c \<Longrightarrow> updsc s p f = Some (s\<lparr>s_sc := (s_sc s)(p \<mapsto> f c)\<rparr>)"
  by (simp add: updsc_def)

lemma updtty_eq: "ldtty s p = Some t \<Longrightarrow> updtty s p f = Some (s\<lparr>s_tty := (s_tty s)(p \<mapsto> f t)\<rparr>)"
  by (simp add: updtty_def)

lemma ldsc_frame [simp]:
  "ldsc (s\<lparr>s_net := n\<rparr>) p = ldsc s p" "ldsc (s\<lparr>tk_nin := k\<rparr>) p = ldsc s p"
  "ldtty (s\<lparr>s_net := n\<rparr>) p = ldtty s p" "ldtty (s\<lparr>tk_nin := k\<rparr>) p = ldtty s p"
  "ldtty (s\<lparr>s_sc := f\<rparr>) p = ldtty s p"
  "ldsc (s\<lparr>s_sc := (s_sc s)(q \<mapsto> c)\<rparr>) p = (if p = q \<and> p \<noteq> 0 then Some c else ldsc s p)"
  by (auto simp: ldsc_def ldtty_def)

lemma onnet_eq: "f (s_net s) = Some n \<Longrightarrow> onnet s f = Some (s\<lparr>s_net := n\<rparr>)"
  by (simp add: onnet_def)

lemma sc_error_has [simp]: "has SC_ERROR SC_ERROR"
  by (simp add: has_def SC_ERROR_def)

lemma ldsc_nz: "ldsc s p = Some c \<Longrightarrow> p \<noteq> 0"
  by (auto simp: ldsc_def split: if_splits)

text \<open>The four ways to leave the \<open>switch\<close>, on the state alone.\<close>

lemma slinput_unfold:
  assumes "ldtty s tp = Some t" "t_sc t = p" "p \<noteq> 0" "has (t_state t) TS_CARR_ON"
  shows "slinput (ucast (c :: u_char)) tp s = do {
    (x, s) \<leftarrow> sl_switch (s\<lparr>tk_nin := tk_nin s + 1\<rparr>) p (ucast c);
    case x of Store ch \<Rightarrow> sl_store s p ch | Error \<Rightarrow> sl_error s p | Newpack \<Rightarrow> sl_newpack s p | Return \<Rightarrow> Some s }"
  using assms(1,3,4) unfolding assms(2) [symmetric] by (simp add: slinput_def Let_def)

lemma wf_buf_ld: "wf_mem h \<Longrightarrow> mm_buf h B = Some bs \<Longrightarrow> ld h B = None"
  using wf_ld [of h B] by (cases "ld h B") auto

lemma wf_buf_wb: "wf_mem h \<Longrightarrow> mm_buf h B = Some bs \<Longrightarrow> length bs' = length bs \<Longrightarrow> wf_mem (wb h B bs')"
  by (rule wf_wb) (auto simp: wf_mem_def, metis option.exhaust option.distinct(1))

lemma slice_snoc: "slice k n bs = xs \<Longrightarrow> k + n < length bs \<Longrightarrow> slice k (n + 1) (patch bs (k + n) [x]) = xs @ [x]"
  using slice_append [of k n 1 "patch bs (k + n) [x]"] by (simp add: slice_patch_before slice_patch_same)

text \<open>The line machine is what the routine does on the buffer, for one character at a time; every store
  is inside the buffer.\<close>

lemma line_store:
  assumes "sl_line s tp p B xs esc err" "length xs < 1912"
  shows "\<exists>s' bs. sl_store s p (ucast c) = Some s' \<and> sl_line s' tp p B (xs @ [c]) False err \<and>
    s_net s' = (s_net s)\<lparr>n_mem := wb (n_mem (s_net s)) B bs\<rparr>"
proof -
  let ?h = "n_mem (s_net s)"
  obtain k where k: "ldsc s p = Some k" "line_ok B xs esc err k" using assms(1) by (auto simp: sl_line_def)
  obtain blk where b: "mm_buf ?h B = Some blk" "length blk = 2048" "slice 136 (length xs) blk = xs" "B mod 4096 = 0" "wf_mem ?h"
    using assms(1) by (auto simp: sl_line_def buf_ok_def)
  let ?h' = "wb ?h B (patch blk (136 + length xs) [c])"
  have w: "nwr (s_net s) (sc_mp k) [c] = Some ((s_net s)\<lparr>n_mem := ?h'\<rparr>)"
    using wr_buf [OF b(1) wf_buf_ld [OF b(5,1)] b(4), of "136 + length xs" "[c]"] k(2) b(2) assms(2)
    by (simp add: nwr_def line_ok_def)
  have "slice 136 (length xs + 1) (patch blk (136 + length xs) [c]) = xs @ [c]"
    using slice_snoc [OF b(3)] b(2) assms(2) by simp
  moreover have "wf_mem ?h'" using wf_buf_wb [OF b(5,1)] b(2) assms(2) by simp
  ultimately have buf: "buf_ok ?h' B (xs @ [c])" using b(2,4) assms(2) by (simp add: buf_ok_def)
  let ?k = "k\<lparr>sc_mp := sc_mp k + 1, sc_escape := 0\<rparr>"
  let ?s = "s\<lparr>s_net := (s_net s)\<lparr>n_mem := ?h'\<rparr>, s_sc := (s_sc s)(p \<mapsto> ?k)\<rparr>"
  have "sl_store s p (ucast c) = Some ?s"
    using k w assms(2) by (simp add: sl_store_def onnet_eq updsc_eq char_back line_ok_def)
  moreover have "line_ok B (xs @ [c]) False err ?k" using k(2) assms(2) by (simp add: line_ok_def)
  then have "sl_line ?s tp p B (xs @ [c]) False err"
    using assms(1) buf ldsc_nz [OF k(1)] by (simp add: sl_line_def ldsc_def)
  moreover have "s_net ?s = (s_net s)\<lparr>n_mem := ?h'\<rparr>" by simp
  ultimately show ?thesis by blast
qed

text \<open>A change of the line's own structure.\<close>

lemma line_upd:
  assumes "sl_line s tp p B xs esc err" "\<And>c. line_ok B xs esc err c \<Longrightarrow> line_ok B ys esc' err' (f c)"
    "buf_ok (n_mem (s_net s)) B xs \<Longrightarrow> buf_ok (n_mem (s_net s)) B ys"
  shows "\<exists>s'. updsc s p f = Some s' \<and> sl_line s' tp p B ys esc' err'"
  using assms by (auto simp: sl_line_def updsc_eq dest: ldsc_nz)

lemma buf_ok_Nil: "buf_ok h B xs \<Longrightarrow> buf_ok h B []"
  by (auto simp: buf_ok_def)

lemma line_newpack:
  assumes "sl_line s tp p B xs esc err"
  shows "\<exists>s'. sl_newpack s p = Some s' \<and> sl_line s' tp p B [] False err"
  unfolding sl_newpack_def
  by (rule line_upd [OF assms _ buf_ok_Nil]) (auto simp: line_ok_def ptr_add_def SLMAX_def BUFOFFSET_def)

lemma line_error:
  assumes "sl_line s tp p B xs esc err"
  shows "\<exists>s'. sl_error s p = Some s' \<and> sl_line s' tp p B [] False err"
proof -
  obtain i where i: "ldif (s_net s) p = Some i" using assms by (auto simp: sl_line_def)
  let ?n = "(s_net s)\<lparr>n_if := (n_if (s_net s))(p \<mapsto> i\<lparr>if_data := (if_data i)\<lparr>ifi_ierrors := ifi_ierrors (if_data i) + 1\<rparr>\<rparr>)\<rparr>"
  have "sl_count s p (\<lambda>d. d\<lparr>ifi_ierrors := ifi_ierrors d + 1\<rparr>) = Some (s\<lparr>s_net := ?n\<rparr>)"
    using upd_data_eq [OF i] by (simp add: sl_count_def onnet_eq)
  moreover have "sl_line (s\<lparr>s_net := ?n\<rparr>) tp p B xs esc err" using assms ldif_nz [OF i] by (simp add: sl_line_def)
  ultimately show ?thesis using line_newpack by (simp add: sl_error_def)
qed

lemma line_overflow:
  assumes "sl_line s tp p B xs esc err" "length xs = 1912"
  shows "\<exists>s'. sl_store s p ch = Some s' \<and> sl_line s' tp p B [] False True"
proof -
  obtain k where k: "ldsc s p = Some k" "sc_mp k = sc_ep k"
    using assms by (auto simp: sl_line_def line_ok_def)
  have "\<exists>s'. updsc s p (\<lambda>c. c\<lparr>sc_flags := sc_flags c OR SC_ERROR\<rparr>) = Some s' \<and> sl_line s' tp p B xs esc True"
    by (rule line_upd [OF assms(1)]) (auto simp: line_ok_def has_or)
  with line_error k show ?thesis by (auto simp: sl_store_def)
qed

text \<open>The line machine is what the routine does.\<close>

lemma line_switch:
  assumes "sl_line s tp p B xs esc err" "c \<noteq> FRAME_END" "c \<noteq> FRAME_ESCAPE"
  shows "sl_switch s p (ucast c) = Some (Store (ucast (line_char esc c)), s)"
proof -
  obtain k where k: "ldsc s p = Some k" "sc_escape k \<noteq> 0 \<longleftrightarrow> esc" using assms(1) by (auto simp: sl_line_def line_ok_def)
  have "TRANS_FRAME_END \<noteq> TRANS_FRAME_ESCAPE" by (simp add: frame_chars)
  with k assms(2,3) show ?thesis by (simp add: sl_switch_def line_char_def)
qed

lemma line_tick: "sl_line s tp p B xs esc err \<Longrightarrow> sl_line (s\<lparr>tk_nin := k\<rparr>) tp p B xs esc err"
  by (simp add: sl_line_def)

lemma slinput_line:
  assumes "sl_line s tp p B xs esc err" "c \<noteq> FRAME_END" "line_step c (xs, esc, err) = (xs', esc', err')"
  shows "\<exists>s'. slinput (ucast c) tp s = Some s' \<and> sl_line s' tp p B xs' esc' err'"
proof -
  let ?s = "s\<lparr>tk_nin := tk_nin s + 1\<rparr>"
  have l: "sl_line ?s tp p B xs esc err" by (rule line_tick [OF assms(1)])
  obtain t where t: "ldtty s tp = Some t" "t_sc t = p" "has (t_state t) TS_CARR_ON" and nz: "p \<noteq> 0"
    using assms(1) by (auto simp: sl_line_def dest: ldsc_nz)
  note run = slinput_unfold [OF t(1,2) nz t(3), of c]
  show ?thesis
  proof (cases "c = FRAME_ESCAPE")
    case True
    have "\<exists>s'. updsc ?s p (\<lambda>c. c\<lparr>sc_escape := 1\<rparr>) = Some s' \<and> sl_line s' tp p B xs True err"
      by (rule line_upd [OF l]) (auto simp: line_ok_def)
    moreover obtain k where "ldsc ?s p = Some k" using l by (auto simp: sl_line_def)
    ultimately show ?thesis using True assms(3) run
      by (auto simp: sl_switch_def line_step_def) (auto simp: frame_chars)
  next
    case False
    note sw = line_switch [OF l assms(2) False]
    show ?thesis
    proof (cases "length xs < 1912")
      case True
      with line_store [OF l, of "line_char esc c"] sw run False assms(3) show ?thesis by (auto simp: line_step_def)
    next
      case full: False
      have "length xs = 1912" using full l by (auto simp: sl_line_def line_ok_def)
      with line_overflow [OF l this, of "ucast (line_char esc c)"] sw run False full assms(3) show ?thesis
        by (auto simp: line_step_def)
    qed
  qed
qed

section \<open>Escaping\<close>

text \<open>The framing of RFC 1055: how a sender escapes the bytes of a packet.\<close>

definition slip_encode :: "u_char list \<Rightarrow> u_char list" where
  "slip_encode xs = concat (map (\<lambda>x. if x = FRAME_END then [FRAME_ESCAPE, TRANS_FRAME_END]
     else if x = FRAME_ESCAPE then [FRAME_ESCAPE, TRANS_FRAME_ESCAPE] else [x]) xs)"

primrec slinputs :: "u_char list \<Rightarrow> addr \<Rightarrow> slip \<Rightarrow> slip option" where
  "slinputs [] tp s = Some s"
| "slinputs (c # cs) tp s = do { s \<leftarrow> slinput (ucast c) tp s; slinputs cs tp s }"

lemma slinputs_append: "slinputs (cs @ ds) tp s = do { s \<leftarrow> slinputs cs tp s; slinputs ds tp s }"
  by (induction cs arbitrary: s) (auto split: bind_splits)

lemma slinputs_one: "slinputs (c # cs) tp s = do { s \<leftarrow> slinput (ucast c) tp s; slinputs cs tp s }"
  by simp

lemma slinput_encoded:
  assumes "sl_line s tp p B ys False err" "length ys < 1912"
  shows "\<exists>s'. slinputs (slip_encode [x]) tp s = Some s' \<and> sl_line s' tp p B (ys @ [x]) False err"
proof -
  have esc: "\<exists>s'. slinputs [FRAME_ESCAPE, c] tp s = Some s' \<and> sl_line s' tp p B (ys @ [line_char True c]) False err"
    if "c \<noteq> FRAME_END" "c \<noteq> FRAME_ESCAPE" for c
  proof -
    have "FRAME_ESCAPE \<noteq> FRAME_END" by (simp add: frame_chars)
    from slinput_line [OF assms(1) this] obtain s1 where s1: "slinput (ucast FRAME_ESCAPE) tp s = Some s1"
        "sl_line s1 tp p B ys True err" by (auto simp: line_step_def)
    from slinput_line [OF s1(2) that(1)] s1(1) that assms(2) show ?thesis by (auto simp: line_step_def)
  qed
  consider "x = FRAME_END" | "x = FRAME_ESCAPE" | "x \<noteq> FRAME_END" "x \<noteq> FRAME_ESCAPE" by blast
  then show ?thesis
  proof cases
    case 1
    then show ?thesis using esc [of TRANS_FRAME_END] by (simp add: slip_encode_def line_char_def frame_chars)
  next
    case 2
    then show ?thesis using esc [of TRANS_FRAME_ESCAPE] by (simp add: slip_encode_def line_char_def frame_chars)
  next
    case 3
    with slinput_line [OF assms(1) 3(1)] assms(2) show ?thesis
      by (auto simp: slip_encode_def line_step_def line_char_def)
  qed
qed

lemma slip_encode_Cons: "slip_encode (x # xs) = slip_encode [x] @ slip_encode xs"
  by (simp add: slip_encode_def)

lemma slinputs_encoded:
  assumes "sl_line s tp p B ys False err" "length ys + length xs \<le> 1912"
  shows "\<exists>s'. slinputs (slip_encode xs) tp s = Some s' \<and> sl_line s' tp p B (ys @ xs) False err"
  using assms
proof (induction xs arbitrary: s ys)
  case Nil
  then show ?case by (simp add: slip_encode_def)
next
  case (Cons x xs)
  obtain s1 where s1: "slinputs (slip_encode [x]) tp s = Some s1" "sl_line s1 tp p B (ys @ [x]) False err"
    using slinput_encoded [OF Cons.prems(1), of x] Cons.prems(2) by auto
  from Cons.IH [OF s1(2)] Cons.prems(2) s1(1) show ?case
    by (auto simp: slip_encode_Cons [of x xs] slinputs_append)
qed

text \<open>C7: escaping is undone on reception.  If the characters of a packet of up to 1912 bytes, escaped as
  RFC 1055 has it, come in on a line that has collected nothing, then its buffer holds exactly the
  packet; every character is stored inside the buffer.\<close>

theorem slip_roundtrip:
  assumes "sl_line s tp p B [] False err" "length xs \<le> 1912"
  shows "\<exists>s' c. slinputs (slip_encode xs) tp s = Some s' \<and> ldsc s' p = Some c \<and>
    sc_mp c = sc_buf c + length xs \<and> sc_mp c \<le> sc_ep c \<and> nrd (s_net s') (sc_buf c) (length xs) = Some xs"
proof -
  obtain s' where s': "slinputs (slip_encode xs) tp s = Some s'" "sl_line s' tp p B xs False err"
    using slinputs_encoded [OF assms(1), of xs] assms(2) by auto
  from s'(2) obtain c blk where c: "ldsc s' p = Some c" "line_ok B xs False err c"
    "mm_buf (n_mem (s_net s')) B = Some blk" "length blk = 2048" "slice 136 (length xs) blk = xs" "B mod 4096 = 0"
    "wf_mem (n_mem (s_net s'))"
    by (auto simp: sl_line_def buf_ok_def)
  have "nrd (s_net s') (B + 136) (length xs) = Some xs"
    using rd_buf [OF c(3) wf_buf_ld [OF c(7,3)] c(6), of 136 "length xs"] c(4,5) assms(2) by (simp add: nrd_def)
  with s'(1) c(1,2) show ?thesis by (auto simp: line_ok_def)
qed

text \<open>The serial interface of the example, at 1024: its line has collected \<open>xs\<close>.\<close>

definition demo_sc :: "nat \<Rightarrow> sl_softc" where
  "demo_sc n = \<lparr>sc_fastq = empty_q, sc_ttyp = 3000, sc_mp = 36864 + (136 + n), sc_ep = 36864 + 2048, sc_buf = 36864 + 136,
     sc_flags = 0, sc_escape = 0, sc_lasttime = 0, sc_abortcount = 0, sc_starttime = 0, sc_bpf = 0\<rparr>"

definition demo_tty :: tty where
  "demo_tty = \<lparr>t_rawq = \<lparr>c_cc = 0, c_cf = 0, c_cl = 0\<rparr>, t_rawcc = 0, t_canq = \<lparr>c_cc = 0, c_cf = 0, c_cl = 0\<rparr>, t_cancc = 0,
     t_outq = \<lparr>c_cc = 0, c_cf = 0, c_cl = 0\<rparr>, t_outcc = 0, t_line = 4, t_dev = 0, t_state = TS_CARR_ON, t_flags = 0,
     t_pgrp = 0, t_session = 0, t_rsel = \<lparr>si_pid = 0, si_flags = 0\<rparr>, t_wsel = \<lparr>si_pid = 0, si_flags = 0\<rparr>,
     t_termios = \<lparr>c_iflag = 0, c_oflag = 0, c_cflag = 0, c_lflag = 0, c_chars = [], c_ispeed = 0, c_ospeed = 0\<rparr>,
     t_winsize = \<lparr>ws_row = 0, ws_col = 0, ws_xpixel = 0, ws_ypixel = 0\<rparr>, t_oproc = 0, t_stop = 0, t_param = 0, t_sc = 1024,
     t_column = 0, t_rocount = 0, t_rocol = 0, t_hiwat = 0, t_lowat = 0, t_gen = 0\<rparr>"

definition demo_blk :: "u_char list \<Rightarrow> u_char list" where
  "demo_blk xs = replicate 136 0 @ xs @ replicate (1912 - length xs) 0"

definition demo_slip :: "u_char list \<Rightarrow> slip" where
  "demo_slip xs = \<lparr>s_net = demo_net\<lparr>n_mem := wb demo_mem 36864 (demo_blk xs), n_if := [1024 \<mapsto> zero_ifnet]\<rparr>,
     s_sc = [1024 \<mapsto> demo_sc (length xs)], s_tty = [3000 \<mapsto> demo_tty], tk_nin = 0, cfreecount = 0, mbutl = 0, mclrefcnt = None,
     mclfree = 0, m_clfree = 0\<rparr>"

lemma demo_slip_line:
  assumes "length xs \<le> 1912"
  shows "sl_line (demo_slip xs) 3000 1024 36864 xs False False"
proof -
  have l: "length (demo_blk xs) = 2048" using assms by (simp add: demo_blk_def)
  have "wf_mem (wb demo_mem 36864 (demo_blk xs))"
    by (rule wf_wb [OF demo_mem_wf]) (simp_all add: l, simp add: demo_def)
  then have "buf_ok (wb demo_mem 36864 (demo_blk xs)) 36864 xs"
    using l by (simp add: buf_ok_def) (simp add: demo_blk_def slice_def)
  moreover have "line_ok 36864 xs False False (demo_sc (length xs))" using assms by (simp add: line_ok_def demo_sc_def)
  ultimately show ?thesis
    by (simp add: sl_line_def demo_slip_def ldsc_def ldtty_def ldif_def demo_tty_def)
      (simp add: has_def TS_CARR_ON_def)
qed

theorem slip_roundtrip_witness:
  "\<exists>s' c. slinputs (slip_encode [0x45, 0xc0, 0xdb]) 3000 (demo_slip []) = Some s' \<and> ldsc s' 1024 = Some c \<and>
    sc_mp c = sc_buf c + length [0x45, 0xc0, 0xdb :: u_char] \<and> sc_mp c \<le> sc_ep c \<and>
    nrd (s_net s') (sc_buf c) (length [0x45, 0xc0, 0xdb :: u_char]) = Some [0x45, 0xc0, 0xdb]"
  by (rule slip_roundtrip [OF demo_slip_line]) simp_all

section \<open>The end of a frame\<close>

lemma wf_enqueue [wf_steps]: "IF_ENQUEUE h q m = Some (h', q') \<Longrightarrow> wf_from k h \<Longrightarrow> wf_from k h'"
  unfolding IF_ENQUEUE_def by (auto split: bind_splits if_splits elim!: wf_steps)

text \<open>The mbuf that \<open>sl_btom\<close> makes.\<close>

definition btom_mbuf :: "mem \<Rightarrow> u_char list \<Rightarrow> mbuf" where
  "btom_mbuf h xs = (let b = set_pk_len (int (length xs)) ((hdr_mbuf h 0)\<lparr>m_len := int (length xs)\<rparr>)
     in b\<lparr>m_dat := patch (m_dat b) 16 xs\<rparr>)"

lemma btom_mbuf_simps [simp]:
  "m_len (btom_mbuf h xs) = int (length xs)" "m_data (btom_mbuf h xs) = fresh h + 56" "m_next (btom_mbuf h xs) = 0"
  by (simp_all add: btom_mbuf_def Let_def)

lemma btom_mbuf_dat: "length xs \<le> 72 \<Longrightarrow> full (btom_mbuf h xs) \<and> slice 16 (length xs) (m_dat (btom_mbuf h xs)) = xs"
proof -
  assume xs: "length xs \<le> 72"
  have "full (set_pk_len (int (length xs)) ((hdr_mbuf h 0)\<lparr>m_len := int (length xs)\<rparr>))" by simp
  with xs show ?thesis by (simp add: btom_mbuf_def Let_def full_def slice_patch_same)
qed

lemma sl_btom_ok:
  assumes "wf_mem h" "malloc_ok h" "rd h (sc_buf c) (length xs) = Some xs" "length xs \<le> 72"
    "block_of (sc_buf c) \<noteq> fresh h" "sc_buf c mod 4096 + length xs \<le> 4096"
  shows "sl_btom c (int (length xs)) h = Some (fresh h, st (took h) (fresh h) (btom_mbuf h xs))"
proof -
  let ?f = "fresh h" and ?b = "set_pk_len (int (length xs)) ((hdr_mbuf h 0)\<lparr>m_len := int (length xs)\<rparr>)"
  let ?h = "st (took h) ?f ?b"
  have nz: "0 < ?f" by (rule fresh_nz [OF assms(2,1)])
  have al: "?f mod 4096 = 0" by (simp add: fresh_def)
  have m: "block_of (?f + 56) = ?f" "(?f + 56) mod 4096 = 56"
    using block_of_add [OF al, of 56] mod_add_base [OF al, of 56] by simp_all
  have rdt: "rd (took h) p n = rd h p n" for p n by (simp add: rd_def split: option.splits)
  have "memcpy ?h (?f + 56) (sc_buf c) (int (length xs)) = wr ?h (?f + 56) xs"
    using assms(3-6) m rdt rd_st_other [of "sc_buf c" ?f "took h" ?b] by (intro memcpy_eq) simp_all
  also have "\<dots> = Some (st (took h) ?f (btom_mbuf h xs))"
    using wr_mbuf_at [of "?f + 56" ?f 16 ?h ?b xs] nz al assms(4) by (simp add: btom_mbuf_def Let_def)
  finally show ?thesis
    using nz assms(4) by (simp add: sl_btom_def MGETHDR_ok [OF assms(2,1)] upd_def)
qed

lemma sl_btom_overflow:
  assumes "wf_mem h" "72 < length xs" "length xs < 2048"
  shows "sl_btom c (int (length xs)) h = None"
proof (cases "malloc_ok h")
  case False
  then show ?thesis by (simp add: sl_btom_def MGETHDR_fail upd_def)
next
  case True
  let ?f = "fresh h" and ?b = "set_pk_len (int (length xs)) ((hdr_mbuf h 0)\<lparr>m_len := int (length xs)\<rparr>)"
  let ?h = "st (took h) ?f ?b"
  have nz: "0 < ?f" by (rule fresh_nz [OF True assms(1)])
  have al: "?f mod 4096 = 0" by (simp add: fresh_def)
  have m: "block_of (?f + 56) = ?f" "(?f + 56) mod 4096 = 56"
    using block_of_add [OF al, of 56] mod_add_base [OF al, of 56] by simp_all
  have "full ?b" by simp
  then have "wr ?h (?f + 56) ys = None" if "length ys = length xs" for ys
    using that assms(2) nz m by (auto simp: wr_def full_def)
  then have "memcpy ?h (?f + 56) (sc_buf c) (int (length xs)) = None"
    using assms(2) by (auto simp: memcpy_def dest: rd_length split: Option.bind_splits)
  then show ?thesis
    using nz assms(3) by (simp add: sl_btom_def MGETHDR_ok [OF True assms(1)] upd_def)
qed

lemma line_buf:
  assumes "sl_line s tp p B xs esc err" "ldsc s p = Some c"
  shows "sc_buf c = B + 136" "sc_mp c = sc_buf c + length xs" "length xs \<le> 1912" "has (sc_flags c) SC_ERROR \<longleftrightarrow> err"
    "B mod 4096 = 0" "n \<le> length xs \<Longrightarrow> rd (n_mem (s_net s)) (sc_buf c) n = Some (take n xs)" "wf_mem (n_mem (s_net s))"
    "block_of (sc_buf c) = B" "sc_buf c mod 4096 = 136"
proof -
  obtain blk where b: "mm_buf (n_mem (s_net s)) B = Some blk" "length blk = 2048" "slice 136 (length xs) blk = xs"
      "B mod 4096 = 0" "wf_mem (n_mem (s_net s))"
    using assms(1) by (auto simp: sl_line_def buf_ok_def)
  from assms show c: "sc_buf c = B + 136" "sc_mp c = sc_buf c + length xs" and len: "length xs \<le> 1912"
    and "has (sc_flags c) SC_ERROR \<longleftrightarrow> err" by (auto simp: sl_line_def line_ok_def)
  show "B mod 4096 = 0" "wf_mem (n_mem (s_net s))" by fact+
  show "block_of (sc_buf c) = B" "sc_buf c mod 4096 = 136"
    using block_of_add [OF b(4), of 136] mod_add_base [OF b(4), of 136] c(1) by simp_all
  show "rd (n_mem (s_net s)) (sc_buf c) n = Some (take n xs)" if "n \<le> length xs"
    using rd_buf [OF b(1) wf_buf_ld [OF b(5,1)] b(4), of 136 n] b(2,3) c(1) len that
    by (simp add: slice_def) (metis min.absorb1 take_take)
qed

lemma ucast_nibble: "(ucast b AND 0xf0 :: u_int) = ucast (b AND 0xf0)" for b :: u_char
  by (rule bit_word_eqI) (auto simp: bit_simps dest: bit_imp_le_length)

text \<open>The end of the frame of an IP packet goes on to the delivery with the character 0x40.\<close>

lemma frame_end_ip:
  assumes "sl_line s tp p B xs esc False" "ldsc s p = Some c" "sc_bpf c = 0" "3 \<le> length xs" "hd xs AND 0xf0 = 0x40"
  shows "sl_switch s p (ucast FRAME_END) = sl_deliver s p 0x40 (int (length xs))"
proof -
  note l = line_buf [OF assms(1,2)]
  have "rd8 (s_net s) (sc_buf c) = Some (hd xs)"
    using l(6) [of 1] assms(4) by (cases xs) (simp_all add: rd8_def nrd_def)
  moreover have "(ucast (hd xs) AND 0xf0 :: u_int) = 0x40" using assms(5) by (simp add: ucast_nibble)
  ultimately have "sl_frame_end s p = sl_deliver s p 0x40 (int (length xs))"
    using l(2,4) assms(2-4) by (simp add: sl_frame_end_def sl_tap_in_def IPVERSION_def)
  then show ?thesis using assms(2) by (simp add: sl_switch_def) (simp add: frame_chars)
qed

lemma frame_end_short:
  assumes "sl_line s tp p B xs esc False" "ldsc s p = Some c" "length xs < 3"
  shows "sl_switch s p (ucast FRAME_END) = Some (Newpack, s)"
  using line_buf [OF assms(1,2)] assms(2,3)
  by (simp add: sl_switch_def sl_frame_end_def) (simp add: frame_chars)

lemma queue_rep_wb [simp]: "queue_rep (wb h B bs) q ms = queue_rep h q ms"
  by (simp add: queue_rep_def chain_cong [of ms "m_nextpkt_of (wb h B bs)" "m_nextpkt_of h"] m_nextpkt_of_def)

lemma deliver_ok:
  assumes "sl_line s tp p B xs esc False" "ldsc s p = Some c" "length xs \<le> 72"
    "malloc_ok (n_mem (s_net s))" "queue_rep (n_mem (s_net s)) (g_ipintrq (s_net s)) ms"
    "int (length ms) < ifq_maxlen (g_ipintrq (s_net s))"
  shows "\<exists>s' m. sl_deliver s p ch (int (length xs)) = Some (Store ch, s') \<and> sl_line s' tp p B xs esc False \<and>
    queue_rep (n_mem (s_net s')) (g_ipintrq (s_net s')) (ms @ [m]) \<and> mchain (n_mem (s_net s')) m [m] \<and>
    content (n_mem (s_net s')) [m] = Some xs \<and> (\<forall>bs. content (wb (n_mem (s_net s')) B bs) [m] = Some xs)"
proof -
  let ?n = "s_net s" let ?h = "n_mem ?n" let ?f = "fresh ?h" and ?b = "btom_mbuf ?h xs"
  let ?h1 = "st (took ?h) ?f ?b"
  note l = line_buf [OF assms(1,2)]
  note nz = fresh_nz [OF assms(4) l(7)]
  obtain blk where blk: "mm_buf ?h B = Some blk" "buf_ok ?h B xs" using assms(1) by (auto simp: sl_line_def buf_ok_def)
  obtain i where i: "ldif ?n p = Some i" using assms(1) by (auto simp: sl_line_def)
  have ne: "B \<noteq> ?f" using blk(1) wf_fresh [OF l(7)] by auto
  have mk: "sl_btom c (int (length xs)) ?h = Some (?f, ?h1)"
    using sl_btom_ok [OF l(7) assms(4), of c xs] l(3,6,8,9) ne assms(3) by simp
  have d: "full ?b" "slice 16 (length xs) (m_dat ?b) = xs" using btom_mbuf_dat [OF assms(3)] by simp_all
  have nin: "?f \<notin> set ms"
    using pchain_ld [of ?h "ifq_head (g_ipintrq ?n)" ms ?f] assms(5) ld_fresh [OF l(7)] by (auto simp: queue_rep_def)
  have "queue_rep (took ?h) (g_ipintrq ?n) ms"
    using assms(5) chain_cong [of ms "m_nextpkt_of (took ?h)" "m_nextpkt_of ?h"] by (simp add: queue_rep_def m_nextpkt_of_def)
  then have q: "queue_rep ?h1 (g_ipintrq ?n) ms" using nin by (simp add: queue_rep_st)
  have f1: "ld ?h1 ?f = Some ?b" using nz by simp
  from enqueue_rep [OF q f1 nin] obtain h' q' where
    e: "IF_ENQUEUE ?h1 (g_ipintrq ?n) ?f = Some (h', q')" "queue_rep h' q' (ms @ [?f])" "same_env ?h1 h'"
       "\<And>a x. ld ?h1 a = Some x \<Longrightarrow> \<exists>y. ld h' a = Some (x\<lparr>m_nextpkt := y\<rparr>)" by blast
  from e(4) [OF f1] obtain y where y: "ld h' ?f = Some (?b\<lparr>m_nextpkt := y\<rparr>)" by blast
  have wf': "wf_mem h'" using wf_enqueue [OF e(1), of 0] wf_took_st [OF l(7) d(1)] by simp
  have "rd h' (?f + 40 + 16) (length xs) = Some (slice 16 (length xs) (m_dat (?b\<lparr>m_nextpkt := y\<rparr>)))"
    by (rule rd_mbuf [OF y]) (use d(1) assms(3) in \<open>simp_all add: fresh_def\<close>)
  then have mb: "mbytes h' ?f = Some xs" using y d(2) by (simp add: mbytes_def add.assoc)
  have "block_of (?f + 56) = ?f" by (rule block_of_add) (simp_all add: fresh_def)
  then have mb': "mbytes (wb h' B bs) ?f = Some xs" for bs
    using mb ne rd_wb_other [of "?f + 56" B h' bs] y by (simp add: mbytes_def)
  let ?i = "i\<lparr>if_data := (if_data i)\<lparr>ifi_ipackets := ifi_ipackets (if_data i) + 1, ifi_lastchange := g_time ?n\<rparr>\<rparr>"
  let ?n' = "?n\<lparr>n_if := (n_if ?n)(p \<mapsto> ?i), n_mem := h', g_ipintrq := q'\<rparr>"
  have "sl_deliver s p ch (int (length xs)) = Some (Store ch, s\<lparr>s_net := ?n'\<rparr>)"
    using assms(2,6) mk nz i e(1) q
    by (simp add: sl_deliver_def onnet_def upd_data_eq IF_QFULL_def queue_rep_def)
  moreover have "buf_ok h' B xs" using blk wf' same_envD(3) [OF e(3)] by (simp add: buf_ok_def)
  then have "sl_line (s\<lparr>s_net := ?n'\<rparr>) tp p B xs esc False"
    using assms(1) ldsc_nz [OF assms(2)] by (simp add: sl_line_def ldif_def)
  moreover have "mchain h' ?f [?f]" using y by (simp add: mchain_Cons)
  ultimately show ?thesis using e(2) mb mb' by (intro exI [of _ "s\<lparr>s_net := ?n'\<rparr>"] exI [of _ ?f]) simp
qed

text \<open>C9: what the end of a frame does on a line without an error.  A frame of fewer than three bytes is
  dropped.  An IP packet of three to 72 bytes becomes a packet of one mbuf at the end of the IP input queue,
  with exactly the bytes that were collected; but the buffer is not emptied: the line has then collected
  the packet and the character 0x40, and goes on behind it.  A longer packet does not fit into the mbuf it is
  copied to, and the behaviour is undefined.\<close>

theorem slip_frame_end:
  assumes "sl_line s tp p B xs esc False" "ldsc s p = Some c" "sc_bpf c = 0"
    "malloc_ok (n_mem (s_net s))" "queue_rep (n_mem (s_net s)) (g_ipintrq (s_net s)) ms"
    "int (length ms) < ifq_maxlen (g_ipintrq (s_net s))"
  shows "(length xs < 3 \<longrightarrow> (\<exists>s'. slinput (ucast FRAME_END) tp s = Some s' \<and> sl_line s' tp p B [] False False)) \<and>
    (3 \<le> length xs \<and> hd xs AND 0xf0 = 0x40 \<longrightarrow>
      (if length xs \<le> 72
       then \<exists>s' m. slinput (ucast FRAME_END) tp s = Some s' \<and> sl_line s' tp p B (xs @ [0x40]) False False \<and>
         queue_rep (n_mem (s_net s')) (g_ipintrq (s_net s')) (ms @ [m]) \<and> mchain (n_mem (s_net s')) m [m] \<and>
         content (n_mem (s_net s')) [m] = Some xs
       else slinput (ucast FRAME_END) tp s = None))"
proof (intro conjI impI)
  let ?s = "s\<lparr>tk_nin := tk_nin s + 1\<rparr>"
  note l = line_tick [OF assms(1), of "tk_nin s + 1"]
  have c: "ldsc ?s p = Some c" using assms(2) by simp
  obtain t where t: "ldtty s tp = Some t" "t_sc t = p" "has (t_state t) TS_CARR_ON"
    using assms(1) by (auto simp: sl_line_def)
  note run = slinput_unfold [OF t(1,2) ldsc_nz [OF assms(2)] t(3), of FRAME_END]
  show "\<exists>s'. slinput (ucast FRAME_END) tp s = Some s' \<and> sl_line s' tp p B [] False False" if "length xs < 3"
    using run frame_end_short [OF l c that] line_newpack [OF l] by auto
  assume ip: "3 \<le> length xs \<and> hd xs AND 0xf0 = 0x40"
  have sw: "sl_switch ?s p (ucast FRAME_END) = sl_deliver ?s p 0x40 (int (length xs))"
    using frame_end_ip [OF l c assms(3)] ip by simp
  show "if length xs \<le> 72
       then \<exists>s' m. slinput (ucast FRAME_END) tp s = Some s' \<and> sl_line s' tp p B (xs @ [0x40]) False False \<and>
         queue_rep (n_mem (s_net s')) (g_ipintrq (s_net s')) (ms @ [m]) \<and> mchain (n_mem (s_net s')) m [m] \<and>
         content (n_mem (s_net s')) [m] = Some xs
       else slinput (ucast FRAME_END) tp s = None"
  proof (cases "length xs \<le> 72")
    case True
    from deliver_ok [OF l c True, of ms "0x40"] assms(4-6) obtain s1 m where s1:
      "sl_deliver ?s p 0x40 (int (length xs)) = Some (Store 0x40, s1)" "sl_line s1 tp p B xs esc False"
      "queue_rep (n_mem (s_net s1)) (g_ipintrq (s_net s1)) (ms @ [m])" "mchain (n_mem (s_net s1)) m [m]"
      "\<forall>bs. content (wb (n_mem (s_net s1)) B bs) [m] = Some xs" by auto
    from True have "length xs < 1912" by simp
    from line_store [OF s1(2) this, of "0x40"] obtain s2 bs where s2: "sl_store s1 p 0x40 = Some s2"
      "sl_line s2 tp p B (xs @ [0x40]) False False" "s_net s2 = (s_net s1)\<lparr>n_mem := wb (n_mem (s_net s1)) B bs\<rparr>" by auto
    have "slinput (ucast FRAME_END) tp s = Some s2" using run sw s1(1) s2(1) by simp
    moreover have "queue_rep (n_mem (s_net s2)) (g_ipintrq (s_net s2)) (ms @ [m])"
      using s1(3) s2(3) by (simp add: queue_rep_wb)
    moreover have "mchain (n_mem (s_net s2)) m [m]" "content (n_mem (s_net s2)) [m] = Some xs"
      using s1(4,5) s2(3) by simp_all
    ultimately show ?thesis using s2(2) True by auto
  next
    case False
    note b = line_buf [OF l c]
    have "sl_btom c (int (length xs)) (n_mem (s_net ?s)) = None"
      using sl_btom_overflow [OF b(7), of xs c] False b(3) by simp
    then have "sl_deliver ?s p 0x40 (int (length xs)) = None" using c by (simp add: sl_deliver_def)
    with run sw False show ?thesis by simp
  qed
qed

theorem slip_frame_end_witness:
  "(\<exists>s' m. slinput (ucast FRAME_END) 3000 (demo_slip [0x45, 1, 2]) = Some s' \<and>
      sl_line s' 3000 1024 36864 [0x45, 1, 2, 0x40] False False \<and> content (n_mem (s_net s')) [m] = Some [0x45, 1, 2]) \<and>
   slinput (ucast FRAME_END) 3000 (demo_slip (replicate 73 0x45)) = None"
proof -
  have h: "ldsc (demo_slip xs) 1024 = Some (demo_sc (length xs))" "sc_bpf (demo_sc n) = 0" "malloc_ok (n_mem (s_net (demo_slip xs)))"
    "queue_rep (n_mem (s_net (demo_slip xs))) (g_ipintrq (s_net (demo_slip xs))) []"
    "int (length ([] :: addr list)) < ifq_maxlen (g_ipintrq (s_net (demo_slip xs)))" for xs n
    by (simp_all add: demo_slip_def ldsc_def demo_sc_def empty_q_def queue_rep_empty IFQ_MAXLEN_def)
  note r = slip_frame_end [OF demo_slip_line h(1,2,3,4,5), THEN conjunct2, rule_format]
  from r [of "[0x45, 1, 2]"] obtain s' m where
    "slinput (ucast FRAME_END) 3000 (demo_slip [0x45, 1, 2]) = Some s'"
    "sl_line s' 3000 1024 36864 ([0x45, 1, 2] @ [0x40]) False False" "content (n_mem (s_net s')) [m] = Some [0x45, 1, 2]"
    by auto
  moreover have "slinput (ucast FRAME_END) 3000 (demo_slip (replicate 73 0x45)) = None"
    using r [of "replicate 73 0x45"] by simp
  ultimately show ?thesis by auto
qed

section \<open>Output\<close>

text \<open>The packets waiting for output: \<open>fs\<close> interactive ones and \<open>ns\<close> others, the packet \<open>m\<close> made of the
  mbufs \<open>pk m\<close>, without clusters, its IP header in the first mbuf.\<close>

definition out_packet :: "mem \<Rightarrow> addr \<Rightarrow> addr list \<Rightarrow> bool" where
  "out_packet h m as \<longleftrightarrow> simple_packet h m as \<and> (\<exists>b. ld h m = Some b \<and> m + 40 \<le> m_data b \<and> m_data b + 10 \<le> m + 128)"

definition outq :: "slip \<Rightarrow> addr \<Rightarrow> addr list \<Rightarrow> addr list \<Rightarrow> (addr \<Rightarrow> addr list) \<Rightarrow> bool" where
  "outq s p fs ns pk \<longleftrightarrow> wf_mem (n_mem (s_net s)) \<and>
     (\<exists>c. ldsc s p = Some c \<and> sc_bpf c = 0 \<and> queue_rep (n_mem (s_net s)) (sc_fastq c) fs) \<and>
     (\<exists>i. ldif (s_net s) p = Some i \<and> \<not> has (if_flags i) SC_COMPRESS \<and> queue_rep (n_mem (s_net s)) (if_snd i) ns) \<and>
     (\<forall>m\<in>set (fs @ ns). out_packet (n_mem (s_net s)) m (pk m)) \<and> distinct (fs @ ns) \<and>
     (\<forall>m\<in>set (fs @ ns). \<forall>k\<in>set (fs @ ns). m \<noteq> k \<longrightarrow> set (pk m) \<inter> set (pk k) = {})"

definition collisions :: "slip \<Rightarrow> addr \<Rightarrow> u_long" where
  "collisions s p = (case ldif (s_net s) p of None \<Rightarrow> 0 | Some i \<Rightarrow> ifi_collisions (if_data i))"

lemma out_packet_without:
  assumes "out_packet h m as" "A \<inter> set as = {}"
  shows "out_packet (without h A) m as"
proof -
  have "m \<in> set as" using assms(1) simple_packet_ld by (auto simp: out_packet_def)
  with assms mchain_without [of A as h m] show ?thesis
    by (auto simp: out_packet_def simple_packet_def ld_without)
qed

lemma queue_rep_without:
  assumes "A \<inter> set ms = {}"
  shows "queue_rep (without h A) q ms \<longleftrightarrow> queue_rep h q ms"
  unfolding queue_rep_def using assms
  by (subst chain_cong [of ms _ "m_nextpkt_of h"]) (auto simp: m_nextpkt_of_def ld_without)

lemma onnet_if:
  "ldif (s_net s) p = Some i \<Longrightarrow> onnet s (\<lambda>n. updif n p f) = Some (s\<lparr>s_net := (s_net s)\<lparr>n_if := (n_if (s_net s))(p \<mapsto> f i)\<rparr>\<rparr>)"
  by (simp add: onnet_eq updif_eq)

lemma onnet_data:
  "ldif (s_net s) p = Some i \<Longrightarrow> onnet s (\<lambda>n. upd_data n p (f n)) =
     Some (s\<lparr>s_net := (s_net s)\<lparr>n_if := (n_if (s_net s))(p \<mapsto> i\<lparr>if_data := f (s_net s) (if_data i)\<rparr>)\<rparr>\<rparr>)"
  by (simp add: onnet_eq upd_data_eq)

text \<open>Taking the next packet off its queue leaves it as it is, and the counter of collisions too.\<close>

lemma dequeue_step:
  assumes "outq s p fs ns pk" "fs @ ns = m # rest"
  shows "\<exists>s' fs' ns'. sl_dequeue s p = Some (m, s') \<and> fs' @ ns' = rest \<and> outq s' p fs' ns' pk \<and>
    n_mem (s_net s') = n_mem (s_net s) \<and> s_tty s' = s_tty s \<and> cfreecount s' = cfreecount s \<and> collisions s' p = collisions s p"
proof -
  let ?h = "n_mem (s_net s)"
  from assms(1) obtain c i where o: "ldsc s p = Some c" "sc_bpf c = 0" "queue_rep ?h (sc_fastq c) fs"
      "ldif (s_net s) p = Some i" "\<not> has (if_flags i) SC_COMPRESS" "queue_rep ?h (if_snd i) ns"
    by (auto simp: outq_def)
  note nz = ldsc_nz [OF o(1)]
  have m: "m \<noteq> 0" using assms by (auto simp: outq_def out_packet_def simple_packet_def)
  show ?thesis
  proof (cases fs)
    case (Cons f fs')
    with assms(2) have f: "f = m" "rest = fs' @ ns" by simp_all
    from dequeue_rep [of ?h "sc_fastq c" m fs'] o(3) Cons f obtain q where
      q: "IF_DEQUEUE ?h (sc_fastq c) = Some (m, q)" "queue_rep ?h q fs'" by auto
    let ?s = "s\<lparr>s_sc := (s_sc s)(p \<mapsto> c\<lparr>sc_fastq := q\<rparr>),
      s_net := (s_net s)\<lparr>n_if := (n_if (s_net s))(p \<mapsto> i\<lparr>if_data := (if_data i)\<lparr>ifi_omcasts := ifi_omcasts (if_data i) + 1\<rparr>\<rparr>)\<rparr>\<rparr>"
    have "sl_dequeue s p = Some (m, ?s)"
      using o(1,4) q(1) m by (simp add: sl_dequeue_def updsc_eq sl_count_def onnet_data)
    moreover have "outq ?s p fs' ns pk"
      using assms(1) o q(2) nz Cons f by (auto simp: outq_def)
    moreover have "collisions ?s p = collisions s p" using o(4) nz by (simp add: collisions_def)
    ultimately show ?thesis using f by (intro exI [of _ ?s] exI [of _ fs'] exI [of _ ns]) simp
  next
    case Nil
    with assms(2) have ns: "ns = m # rest" by simp
    from dequeue_rep [of ?h "if_snd i" m rest] o(6) ns obtain q where
      q: "IF_DEQUEUE ?h (if_snd i) = Some (m, q)" "queue_rep ?h q rest" by auto
    have e: "IF_DEQUEUE ?h (sc_fastq c) = Some (0, sc_fastq c)" using o(3) Nil by (simp add: dequeue_empty)
    let ?s = "s\<lparr>s_sc := (s_sc s)(p \<mapsto> c), s_net := (s_net s)\<lparr>n_if := (n_if (s_net s))(p \<mapsto> i\<lparr>if_snd := q\<rparr>)\<rparr>\<rparr>"
    have "sl_dequeue s p = Some (m, ?s)"
      using o(1,4) q(1) e by (simp add: sl_dequeue_def updsc_eq onnet_if)
    moreover have "outq ?s p [] rest pk"
      using assms(1) o q(2) nz Nil ns by (auto simp: outq_def)
    moreover have "collisions ?s p = collisions s p" using o(4) nz by (simp add: collisions_def)
    ultimately show ?thesis by (intro exI [of _ ?s] exI [of _ "[]"] exI [of _ rest]) simp
  qed
qed

lemma dequeue_none:
  assumes "outq s p [] [] pk"
  shows "\<exists>s'. sl_dequeue s p = Some (0, s') \<and> outq s' p [] [] pk \<and>
    n_mem (s_net s') = n_mem (s_net s) \<and> s_tty s' = s_tty s \<and> collisions s' p = collisions s p"
proof -
  let ?h = "n_mem (s_net s)"
  from assms obtain c i where o: "ldsc s p = Some c" "sc_bpf c = 0" "queue_rep ?h (sc_fastq c) []"
      "ldif (s_net s) p = Some i" "\<not> has (if_flags i) SC_COMPRESS" "queue_rep ?h (if_snd i) []"
    by (auto simp: outq_def)
  let ?s = "s\<lparr>s_sc := (s_sc s)(p \<mapsto> c), s_net := (s_net s)\<lparr>n_if := (n_if (s_net s))(p \<mapsto> i)\<rparr>\<rparr>"
  have "sl_dequeue s p = Some (0, ?s)"
    using o by (simp add: sl_dequeue_def dequeue_empty updsc_eq onnet_if)
  moreover have "outq ?s p [] [] pk" using assms o ldsc_nz [OF o(1)] by (auto simp: outq_def)
  moreover have "collisions ?s p = collisions s p" using o(4) ldif_nz [OF o(4)] by (simp add: collisions_def)
  ultimately show ?thesis by (intro exI [of _ ?s]) simp
qed

text \<open>When the character list is short of space, a packet is released and counted as a collision.\<close>

lemma send_step:
  assumes "outq s p fs ns pk" "out_packet (n_mem (s_net s)) m (pk m)" "cfreecount s < 1320"
    "\<forall>k\<in>set (fs @ ns). set (pk m) \<inter> set (pk k) = {}"
  shows "\<exists>s'. sl_send s p tp m = Some s' \<and> outq s' p fs ns pk \<and>
    n_mem (s_net s') = without (n_mem (s_net s)) (set (pk m)) \<and> s_tty s' = s_tty s \<and> cfreecount s' = cfreecount s \<and>
    collisions s' p = collisions s p + 1"
proof -
  let ?h = "n_mem (s_net s)" and ?A = "set (pk m)"
  from assms(1) obtain c i where o: "ldsc s p = Some c" "sc_bpf c = 0" "queue_rep ?h (sc_fastq c) fs"
      "ldif (s_net s) p = Some i" "\<not> has (if_flags i) SC_COMPRESS" "queue_rep ?h (if_snd i) ns" "wf_mem ?h"
    by (auto simp: outq_def)
  note nz = ldsc_nz [OF o(1)]
  from assms(2) obtain b where b: "ld ?h m = Some b" "m + 40 \<le> m_data b" "m_data b + 10 \<le> m + 128"
    and sp: "simple_packet ?h m (pk m)" by (auto simp: out_packet_def)
  from b(2) obtain k where k: "m_data b = m + 40 + k" by (auto simp: le_iff_add)
  have "rd ?h (m + 40 + (k + 9)) 1 = Some (slice (k + 9) 1 (m_dat b))"
    using b k wf_ld [OF o(7) b(1)] wf_ld_full [OF o(7) b(1)] by (intro rd_mbuf) simp_all
  then have proto: "\<exists>x. rd8 (s_net s) (m_data b + 9) = Some x" using k by (simp add: rd8_def nrd_def add.assoc)
  have sq: "sl_squeeze s p m = Some s" using b(1) proto o(4,5) by (auto simp: sl_squeeze_def)
  let ?i = "i\<lparr>if_data := (if_data i)\<lparr>ifi_lastchange := g_time (s_net s), ifi_collisions := ifi_collisions (if_data i) + 1\<rparr>\<rparr>"
  let ?s = "s\<lparr>s_net := (s_net s)\<lparr>n_mem := without ?h ?A, n_if := (n_if (s_net s))(p \<mapsto> ?i)\<rparr>\<rparr>"
  have fr: "onnet (s\<lparr>s_net := (s_net s)\<lparr>n_if := f\<rparr>\<rparr>) (\<lambda>n. freem n m) =
      Some (s\<lparr>s_net := (s_net s)\<lparr>n_if := f, n_mem := without ?h ?A\<rparr>\<rparr>)" for f
    using simple_packet_freem [of "(s_net s)\<lparr>n_if := f\<rparr>" m "pk m"] sp by (simp add: onnet_eq)
  have "sl_send s p tp m = Some ?s"
    using o(1,2,4) sq fr assms(3) nz
    by (simp add: sl_send_def sl_tap_out_def onnet_data sl_count_def CLISTRESERVE_def SLMTU_def onnet_def upd_data_def updif_def ldif_def)
  moreover have "outq ?s p fs ns pk"
  proof -
    have "k \<notin> ?A" if "k \<in> set (fs @ ns)" for k
    proof -
      have "out_packet ?h k (pk k)" using assms(1) that unfolding outq_def by blast
      then have "k \<in> set (pk k)" using simple_packet_ld by (auto simp: out_packet_def)
      with assms(4) that show ?thesis by blast
    qed
    then have "?A \<inter> set fs = {}" "?A \<inter> set ns = {}" by auto
    then have "queue_rep (without ?h ?A) (sc_fastq c) fs" "queue_rep (without ?h ?A) (if_snd i) ns"
      using o(3,6) by (simp_all add: queue_rep_without)
    moreover have "wf_mem (without ?h ?A)"
      using o(7) by (auto simp: wf_mem_def without_def)
    moreover have "out_packet (without ?h ?A) k (pk k)" if "k \<in> set (fs @ ns)" for k
      using assms(1,4) that by (intro out_packet_without) (auto simp: outq_def)
    moreover have "ldif (s_net ?s) p = Some ?i" using nz by (simp add: ldif_def)
    moreover have "\<forall>m\<in>set (fs @ ns). \<forall>k\<in>set (fs @ ns). m \<noteq> k \<longrightarrow> set (pk m) \<inter> set (pk k) = {}" "distinct (fs @ ns)"
      using assms(1) unfolding outq_def by blast+
    ultimately show ?thesis using o(1,2,5) nz by (simp add: outq_def)
  qed
  moreover have "collisions ?s p = collisions s p + 1" using o(4) nz by (simp add: collisions_def ldif_def)
  ultimately show ?thesis by (intro exI [of _ ?s]) simp
qed

lemma slstart_loop_step:
  assumes "ldtty s tp = Some t" "c_cc (t_outq t) = 0" "p \<noteq> 0" "sl_dequeue s p = Some (m, s1)"
  shows "slstart_loop oproc p tp s =
    (if m = 0 then Some s1 else do { s2 \<leftarrow> sl_send s1 p tp m; slstart_loop oproc p tp s2 })"
  using assms by (subst slstart_loop.simps) (simp add: SLIP_HIWAT_def roundup_def CBSIZE_def CBLOCK_def CBQSIZE_def)

lemma slstart_loop_drains:
  assumes "outq s p fs ns pk" "ldtty s tp = Some t" "c_cc (t_outq t) = 0" "cfreecount s < 1320"
  shows "\<exists>s'. slstart_loop oproc p tp s = Some s' \<and> outq s' p [] [] pk \<and> s_tty s' = s_tty s \<and>
    n_mem (s_net s') = without (n_mem (s_net s)) (\<Union>m\<in>set (fs @ ns). set (pk m)) \<and>
    collisions s' p = collisions s p + word_of_nat (length (fs @ ns))"
  using assms
proof (induction "fs @ ns" arbitrary: s fs ns)
  case Nil
  then have e: "fs = []" "ns = []" by simp_all
  have p: "p \<noteq> 0" using Nil.prems(1) ldsc_nz by (auto simp: outq_def)
  from dequeue_none Nil.prems(1) e obtain s' where "sl_dequeue s p = Some (0, s')" "outq s' p [] [] pk"
      "n_mem (s_net s') = n_mem (s_net s)" "s_tty s' = s_tty s" "collisions s' p = collisions s p" by blast
  with slstart_loop_step [OF Nil.prems(2,3) p] e show ?case by simp
next
  case (Cons m rest)
  have p: "p \<noteq> 0" using Cons.prems(1) ldsc_nz by (auto simp: outq_def)
  from dequeue_step [OF Cons.prems(1) Cons.hyps(2) [symmetric]] obtain s1 fs1 ns1 where
    d: "sl_dequeue s p = Some (m, s1)" "fs1 @ ns1 = rest" "outq s1 p fs1 ns1 pk" "n_mem (s_net s1) = n_mem (s_net s)"
      "s_tty s1 = s_tty s" "cfreecount s1 = cfreecount s" "collisions s1 p = collisions s p" by blast
  have all: "set (fs @ ns) = insert m (set rest)" "m \<notin> set rest"
    using Cons.hyps(2) [symmetric] Cons.prems(1) by (auto simp: outq_def)
  have op: "out_packet (n_mem (s_net s)) m (pk m)" and dj: "\<forall>k\<in>set rest. set (pk m) \<inter> set (pk k) = {}"
    using Cons.prems(1) all unfolding outq_def by (simp, metis insertCI)
  have nz: "m \<noteq> 0" using op by (simp add: out_packet_def simple_packet_def)
  from send_step [OF d(3), of m tp] op dj d(2,4,6) Cons.prems(4) obtain s2 where
    s2: "sl_send s1 p tp m = Some s2" "outq s2 p fs1 ns1 pk" "n_mem (s_net s2) = without (n_mem (s_net s)) (set (pk m))"
      "s_tty s2 = s_tty s" "cfreecount s2 < 1320" "collisions s2 p = collisions s p + 1"
    using d(5,7) by auto
  have t2: "ldtty s2 tp = Some t" using Cons.prems(2) s2(4) by (simp add: ldtty_def split: if_splits)
  from Cons.hyps(1) [OF d(2) [symmetric] s2(2) t2 Cons.prems(3) s2(5)] obtain s' where
    s': "slstart_loop oproc p tp s2 = Some s'" "outq s' p [] [] pk" "s_tty s' = s_tty s2"
      "n_mem (s_net s') = without (n_mem (s_net s2)) (\<Union>m\<in>set (fs1 @ ns1). set (pk m))"
      "collisions s' p = collisions s2 p + word_of_nat (length (fs1 @ ns1))" by blast
  have "slstart_loop oproc p tp s = Some s'"
    using slstart_loop_step [OF Cons.prems(2,3) p d(1)] nz s2(1) s'(1) by simp
  moreover have "n_mem (s_net s') = without (n_mem (s_net s)) (\<Union>m\<in>set (fs @ ns). set (pk m))"
    using s'(4) s2(3) d(2) all(1) by (simp add: without_without)
  moreover have "collisions s' p = collisions s p + word_of_nat (length (fs @ ns))"
    using s'(5) s2(6) d(2) Cons.hyps(2) [symmetric] by (simp add: add.assoc del: length_append)
  ultimately show ?case using s' s2(4) by auto
qed

lemma slstart_waits:
  assumes "ldtty s tp = Some t" "c_cc (t_outq t) \<noteq> 0" "t_oproc t \<noteq> 0" "oproc (t_oproc t) tp s = Some s1"
    "ldtty s1 tp = Some t1" "SLIP_HIWAT < c_cc (t_outq t1)"
  shows "slstart oproc tp s = Some s1"
  using assms unfolding slstart_def by (subst slstart_loop.simps) simp

text \<open>C18: no packet is ever sent while the character lists are short of space, and none stays queued.
  \<open>slstart\<close> on a terminal with an empty output list, for a line without packet filter and without header
  compression whose packets have no external storage, returns with both queues empty: it has released
  every mbuf of every waiting packet and nothing else, has counted one collision for each, and has not
  touched the terminal.  The repository leaves \<open>cfreecount\<close> at zero, below the 1320 that it asks for.
  With more than \<open>SLIP_HIWAT\<close> characters left to put out, it only starts the output
  (\<open>slstart_waits\<close>).\<close>

theorem slstart_drains:
  assumes "outq s p fs ns pk" "ldtty s tp = Some t" "t_sc t = p" "c_cc (t_outq t) = 0" "cfreecount s < 1320"
  shows "\<exists>s' c i. slstart oproc tp s = Some s' \<and> s_tty s' = s_tty s \<and>
    ldsc s' p = Some c \<and> queue_rep (n_mem (s_net s')) (sc_fastq c) [] \<and>
    ldif (s_net s') p = Some i \<and> queue_rep (n_mem (s_net s')) (if_snd i) [] \<and>
    (\<forall>a. ld (n_mem (s_net s')) a = (if a \<in> (\<Union>m\<in>set (fs @ ns). set (pk m)) then None else ld (n_mem (s_net s)) a)) \<and>
    collisions s' p = collisions s p + word_of_nat (length (fs @ ns))"
proof -
  from slstart_loop_drains [OF assms(1,2,4,5), of oproc] obtain s' where
    s': "slstart_loop oproc p tp s = Some s'" "outq s' p [] [] pk" "s_tty s' = s_tty s"
      "n_mem (s_net s') = without (n_mem (s_net s)) (\<Union>m\<in>set (fs @ ns). set (pk m))"
      "collisions s' p = collisions s p + word_of_nat (length (fs @ ns))" by blast
  have "slstart oproc tp s = Some s'" using s'(1) assms(2,3) by (simp add: slstart_def)
  moreover have "\<forall>a. ld (n_mem (s_net s')) a =
      (if a \<in> (\<Union>m\<in>set (fs @ ns). set (pk m)) then None else ld (n_mem (s_net s)) a)"
    unfolding s'(4) by (simp add: ld_without)
  moreover from s'(2) obtain c i where "ldsc s' p = Some c" "queue_rep (n_mem (s_net s')) (sc_fastq c) []"
    "ldif (s_net s') p = Some i" "queue_rep (n_mem (s_net s')) (if_snd i) []" by (auto simp: outq_def)
  ultimately show ?thesis using s'(3,5) by blast
qed

text \<open>The example with a packet of one mbuf in the queue of the interface.\<close>

definition demo_out :: slip where
  "demo_out = (demo_slip [])\<lparr>s_net := (s_net (demo_slip []))\<lparr>n_if := [1024 \<mapsto> zero_ifnet\<lparr>if_snd :=
     \<lparr>ifq_head = 16384, ifq_tail = 16384, ifq_len = 1, ifq_maxlen = 50, ifq_drops = 0\<rparr>\<rparr>]\<rparr>\<rparr>"

lemma demo_out_sel [simp]:
  "n_mem (s_net demo_out) = wb demo_mem 36864 (demo_blk [])" "ldsc demo_out 1024 = Some (demo_sc 0)"
  "ldif (s_net demo_out) 1024 = Some (zero_ifnet\<lparr>if_snd := \<lparr>ifq_head = 16384, ifq_tail = 16384, ifq_len = 1, ifq_maxlen = 50, ifq_drops = 0\<rparr>\<rparr>)"
  "ldtty demo_out 3000 = Some demo_tty" "cfreecount demo_out = 0"
  by (simp_all add: demo_out_def demo_slip_def ldsc_def ldif_def ldtty_def)

lemma demo_outq: "outq demo_out 1024 [] [16384] (\<lambda>_. [16384])"
proof -
  have "out_packet (wb demo_mem 36864 (demo_blk [])) 16384 [16384]"
    by (simp add: out_packet_def simple_packet_def mchain_Cons demo_ld)
  moreover have "wf_mem (wb demo_mem 36864 (demo_blk []))"
    using demo_slip_line [of "[]"] by (simp add: sl_line_def buf_ok_def demo_slip_def)
  moreover have "m_nextpkt demo_b3 = 0" by (simp add: demo_b3_def)
  ultimately show ?thesis
    by (simp add: outq_def demo_sc_def queue_rep_empty empty_q_def zero_ifnet_def)
      (simp add: queue_rep_def pchain_Cons demo_ld)
qed

theorem slstart_drains_witness:
  "\<exists>s' c i. slstart (\<lambda>_ _ s. Some s) 3000 demo_out = Some s' \<and> s_tty s' = s_tty demo_out \<and>
    ldsc s' 1024 = Some c \<and> queue_rep (n_mem (s_net s')) (sc_fastq c) [] \<and>
    ldif (s_net s') 1024 = Some i \<and> queue_rep (n_mem (s_net s')) (if_snd i) [] \<and>
    (\<forall>a. ld (n_mem (s_net s')) a = (if a \<in> (\<Union>m\<in>set ([] @ [16384 :: addr]). set [16384 :: addr]) then None else ld (n_mem (s_net demo_out)) a)) \<and>
    collisions s' 1024 = collisions demo_out 1024 + word_of_nat (length ([] @ [16384 :: addr]))"
  by (rule slstart_drains [OF demo_outq, of 3000 demo_tty]) (simp_all add: demo_tty_def)

end
