(* ===== verification/Le.thy ===== *)
theory Le
  imports Ether
begin

text \<open>
  The LANCE ethernet driver (\<open>hp300/dev/if_le.c\<close>, \<open>hp300/dev/if_lereg.h\<close>, \<open>hp300/dev/device.h\<close>):
  attaching an interface, the input routine that turns a frame in a receive buffer into a packet, the
  start routine that takes packets off the interface queue, and the requests.  The routines that
  touch the chip have no bodies.  Interface and \<open>arpcom\<close> part of a \<open>le_softc\<close> are kept with the
  other interfaces, at the same address.
\<close>

section \<open>Devices\<close>

record driver =
  d_init :: nat
  d_name :: addr
  d_start :: nat
  d_go :: nat
  d_intr :: nat
  d_done :: nat

record hp_ctlr =
  hpc_driver :: addr
  hpc_unit :: int
  hpc_alive :: int
  hpc_addr :: addr
  hpc_flags :: int
  hpc_ipl :: int

record hp_device =
  hp_driver :: addr
  hp_cdriver :: addr
  hp_unit :: int
  hp_ctlr_no :: int
  hp_slave :: int
  hp_addr :: addr
  hp_dk :: int
  hp_flags :: int
  hp_alive :: int
  hp_ipl :: int

record devqueue =
  dq_forw :: addr
  dq_back :: addr
  dq_ctlr :: int
  dq_unit :: int
  dq_slave :: int
  dq_driver :: addr

record hp_hw =
  hw_pa :: addr
  hw_size :: int
  hw_kva :: addr
  hw_id :: c_short
  hw_secid :: c_short
  hw_type :: c_short
  hw_sc :: c_short

definition MAXCTLRS :: nat where "MAXCTLRS = 16"
definition MAXSLAVES :: nat where "MAXSLAVES = 8"
definition B_MASK :: u_int where "B_MASK = 0xE000"
definition B_DIO :: u_int where "B_DIO = 0x2000"
definition B_DIOII :: u_int where "B_DIOII = 0x4000"
definition B_VME :: u_int where "B_VME = 0x6000"
definition C_MASK :: u_int where "C_MASK = 0x8F"
definition C_FLAG :: u_int where "C_FLAG = 0x80"
definition C_HPIB :: u_int where "C_HPIB = 0x81"
definition C_SCSI :: u_int where "C_SCSI = 0x82"
definition C_VME :: u_int where "C_VME = 0x83"
definition D_MASK :: u_int where "D_MASK = 0x8F"
definition D_LAN :: u_int where "D_LAN = 0x02"

text \<open>The macros see the type of a device as the \<open>int\<close> that a \<open>short\<close> becomes.\<close>

definition hw_int :: "hp_hw \<Rightarrow> u_int" where "hw_int hw = scast (hw_type hw)"
definition HW_ISCTLR :: "hp_hw \<Rightarrow> bool" where "HW_ISCTLR hw \<longleftrightarrow> has (hw_int hw) C_FLAG"
definition HW_ISDIOII :: "hp_hw \<Rightarrow> bool" where "HW_ISDIOII hw \<longleftrightarrow> has (hw_int hw) B_DIOII"
definition HW_ISHPIB :: "hp_hw \<Rightarrow> bool" where "HW_ISHPIB hw \<longleftrightarrow> hw_int hw AND C_MASK = C_HPIB"
definition HW_ISSCSI :: "hp_hw \<Rightarrow> bool" where "HW_ISSCSI hw \<longleftrightarrow> hw_int hw AND C_MASK = C_SCSI"
definition HW_ISDEV :: "hp_hw \<Rightarrow> u_int \<Rightarrow> bool" where "HW_ISDEV hw d \<longleftrightarrow> hw_int hw AND D_MASK = d"

section \<open>The chip\<close>

definition NLE :: nat where "NLE = 32"
definition LEID :: int where "LEID = 21"
definition LEMTU :: nat where "LEMTU = 1518"
definition LEMINSIZE :: int where "LEMINSIZE = 60"
definition LERBUF :: nat where "LERBUF = 8"
definition LERBUFLOG2 :: nat where "LERBUFLOG2 = 3"
definition LE_RLEN :: u_int where "LE_RLEN = push_bit 13 (word_of_nat LERBUFLOG2)"
definition LETBUF :: int where "LETBUF = 2"
definition LETBUFLOG2 :: nat where "LETBUFLOG2 = 1"
definition LE_TLEN :: u_int where "LE_TLEN = push_bit 13 (word_of_nat LETBUFLOG2)"

definition lestd :: "int list" where "lestd = [0, 0x4000, 0x8000, 0xC008]"

record lereg0 =
  ler0_pad0 :: u_char
  ler0_id :: u_char
  ler0_pad1 :: u_char
  ler0_status :: u_char

record lereg1 =
  ler1_rdp :: u_short
  ler1_rap :: u_short

text \<open>A message descriptor, and the offsets of its arrays and of the buffers in the shared memory.\<close>

record lermd =
  rmd0 :: u_short
  rmd1 :: u_short
  rmd2 :: c_short
  rmd3 :: u_short

definition ler2_rmd :: "addr \<Rightarrow> nat \<Rightarrow> addr" where "ler2_rmd p k = p + 0x18 + 8 * k"
definition ler2_tmd :: "addr \<Rightarrow> nat \<Rightarrow> addr" where "ler2_tmd p k = p + 0x58 + 8 * k"
definition ler2_rbuf :: "addr \<Rightarrow> nat \<Rightarrow> addr" where "ler2_rbuf p k = p + 0x68 + LEMTU * k"
definition ler2_tbuf :: "addr \<Rightarrow> nat \<Rightarrow> addr" where "ler2_tbuf p k = p + 0x2FD8 + LEMTU * k"

definition LE_ACK :: u_char where "LE_ACK = 0x04"
definition LE_IPL :: "u_int \<Rightarrow> u_int" where "LE_IPL x = (drop_bit 4 x AND 0x3) + 3"

text \<open>Register access: the transfer is repeated until the chip acknowledges it.  The parameter gives the
  status that the chip shows after each transfer.\<close>

partial_function (option) LERDWR :: "(nat \<Rightarrow> u_char) \<Rightarrow> nat \<Rightarrow> 'a \<Rightarrow> ('a \<times> nat) option" where
  "LERDWR status k src = (if has (status k) LE_ACK then Some (src, k + 1) else LERDWR status (k + 1) src)"

section \<open>State\<close>

record le_softc =
  sc_r0 :: addr
  sc_r1 :: addr
  sc_r2 :: addr
  sc_rmd :: int
  sc_tmd :: int
  sc_txcnt :: int
  sc_runt :: int
  sc_jab :: int
  sc_merr :: int
  sc_babl :: int
  sc_cerr :: int
  sc_miss :: int
  sc_rown :: int
  sc_xown :: int
  sc_xown2 :: int
  sc_uflo :: int
  sc_rxlen :: int
  sc_rxoff :: int
  sc_txoff :: int
  sc_busy :: int
  sc_iflags :: c_short

record lest =
  l_net :: net
  l_sc :: "addr \<Rightarrow> le_softc option"

text \<open>The array \<open>le_softc\<close> and the interfaces in it.\<close>

definition le_addr :: "int \<Rightarrow> addr option" where
  "le_addr u = (if 0 \<le> u \<and> u < int NLE then Some (16 + 16 * nat u) else None)"

definition upd_le :: "lest \<Rightarrow> addr \<Rightarrow> (le_softc \<Rightarrow> le_softc) \<Rightarrow> lest option" where
  "upd_le s p f = (case l_sc s p of None \<Rightarrow> None | Some c \<Rightarrow> Some (s\<lparr>l_sc := (l_sc s)(p \<mapsto> f c)\<rparr>))"

definition le_net :: "lest \<Rightarrow> (net \<Rightarrow> net option) \<Rightarrow> lest option" where
  "le_net s f = (case f (l_net s) of None \<Rightarrow> None | Some n \<Rightarrow> Some (s\<lparr>l_net := n\<rparr>))"

section \<open>Functions without a body\<close>

definition leinit :: "lest \<Rightarrow> int \<Rightarrow> int \<times> lest" where "leinit s a = (0, s)"
definition lereset :: "lest \<Rightarrow> int \<Rightarrow> int \<times> lest" where "lereset s a = (0, s)"
definition ether_attach :: "lest \<Rightarrow> addr \<Rightarrow> lest" where "ether_attach s ifp = s"
definition lesetladrf :: "lest \<Rightarrow> addr \<Rightarrow> lest" where "lesetladrf s sc = s"
definition ledrinit :: "lest \<Rightarrow> addr \<Rightarrow> addr \<Rightarrow> int \<times> lest" where "ledrinit s ler2 le = (0, s)"
definition leintr :: "lest \<Rightarrow> int \<Rightarrow> int \<times> lest" where "leintr s unit = (0, s)"
definition lexint :: "lest \<Rightarrow> int \<Rightarrow> int \<times> lest" where "lexint s unit = (0, s)"
definition lerint :: "lest \<Rightarrow> int \<Rightarrow> int \<times> lest" where "lerint s unit = (0, s)"
definition leput :: "lest \<Rightarrow> addr \<Rightarrow> addr \<Rightarrow> int \<times> lest" where "leput s lebuf m = (0, s)"
definition leerror :: "lest \<Rightarrow> int \<Rightarrow> int \<Rightarrow> lest" where "leerror s unit stat = s"


section \<open>Attach\<close>

definition DLT_EN10MB :: int where "DLT_EN10MB = 1"

definition leattach :: "lest \<Rightarrow> hp_device \<Rightarrow> (int \<times> lest) option" where
  "leattach s dev = do {
     p \<leftarrow> le_addr (hp_unit dev);
     en \<leftarrow> nrd (l_net s) (hp_addr dev) 6;
     ac \<leftarrow> n_ac (l_net s) p;
     s \<leftarrow> le_net s (\<lambda>n. Some (n\<lparr>n_ac := (n_ac n)(p \<mapsto> ac\<lparr>ac_enaddr := en\<rparr>)\<rparr>));
     s \<leftarrow> le_net s (\<lambda>n. updif n p (\<lambda>i. i\<lparr>if_name := Some [108, 101], if_next := 0,
            if_unit := word_of_int (hp_unit dev), if_flags := IFF_SIMPLEX OR IFF_BROADCAST OR IFF_MULTICAST,
            if_snd := (if_snd i)\<lparr>ifq_maxlen := g_ifqmaxlen n\<rparr>,
            if_data := (if_data i)\<lparr>ifi_type := IFT_ETHER, ifi_addrlen := 6, ifi_hdrlen := 14, ifi_mtu := ETHERMTU,
              ifi_metric := 0\<rparr>,
            if_init := F_leinit, if_start := F_lestart, if_ioctl := F_leioctl, if_reset := F_lereset,
            if_output := F_ether_output\<rparr>));
     s \<leftarrow> le_net s (\<lambda>n. Some (bpfattach n p p DLT_EN10MB (int sizeof_ether_header)));
     s \<leftarrow> le_net s (\<lambda>n. if_attach n p);
     Some (0, s) }"

section \<open>Input\<close>

text \<open>What follows the header of the frame is taken for a \<open>struct mbuf\<close>: its data pointer is at offset 24,
  its flags at offset 34.\<close>

definition as_mbuf_data :: "net \<Rightarrow> addr \<Rightarrow> addr option" where
  "as_mbuf_data n p = map_option le_nat (nrd n (p + 24) 8)"

definition as_mbuf_flag :: "net \<Rightarrow> addr \<Rightarrow> c_short \<Rightarrow> net option" where
  "as_mbuf_flag n p f = do { x \<leftarrow> rd16 n (p + 34); nwr n (p + 34) (nat_le 2 (unat (x OR f))) }"

definition leread :: "lest \<Rightarrow> int \<Rightarrow> addr \<Rightarrow> int \<Rightarrow> lest option" where
  "leread s unit buf len = do {
     p \<leftarrow> le_addr unit;
     let datalen = len - int sizeof_ether_header - 4;
     let mb = buf + sizeof_ether_header;
     s \<leftarrow> le_net s (\<lambda>n. updif n p (\<lambda>i. i\<lparr>if_flags := IFF_UP\<rparr>));
     t \<leftarrow> rd16 (l_net s) (buf + 12);
     s \<leftarrow> le_net s (\<lambda>n. nwr n (buf + 12) (nat_le 2 (unat (ntohs t))));
     s \<leftarrow> (if datalen < 0
           then do {
             s \<leftarrow> upd_le s p (\<lambda>c. c\<lparr>sc_runt := sc_runt c + 1\<rparr>);
             le_net s (\<lambda>n. upd_data n p (\<lambda>d. d\<lparr>ifi_ipackets := ifi_ipackets d + 1\<rparr>)) }
           else Some s);
     dh \<leftarrow> nrd (l_net s) buf 6;
     s \<leftarrow> (if dh = etherbroadcastaddr then le_net s (\<lambda>n. as_mbuf_flag n mb M_BCAST) else Some s);
     s \<leftarrow> (if has (hd dh) 0x1 then le_net s (\<lambda>n. as_mbuf_flag n mb M_MCAST) else Some s);
     d \<leftarrow> as_mbuf_data (l_net s) mb;
     (m, h) \<leftarrow> m_devget (n_mem (l_net s)) d datalen 0 p;
     let s = s\<lparr>l_net := (l_net s)\<lparr>n_mem := h\<rparr>\<rparr>;
     if m = 0 then Some s else le_net s (\<lambda>n. ether_input p buf m n) }"

section \<open>Output\<close>

text \<open>The loop of \<open>lestart\<close> on the interface \<open>ifp\<close> and the driver structure \<open>p\<close>: a packet that was taken off
  the queue is given to the empty \<open>leput\<close> and to nobody else.  The loop ends when the queue is empty
  or when the transmit buffers are counted as used.\<close>

partial_function (option) lestart_loop :: "addr \<Rightarrow> addr \<Rightarrow> lest \<Rightarrow> (int \<times> lest) option" where
  "lestart_loop ifp p s = do {
     i \<leftarrow> ldif (l_net s) ifp;
     (m, q) \<leftarrow> IF_DEQUEUE (n_mem (l_net s)) (if_snd i);
     s \<leftarrow> le_net s (\<lambda>n. updif n ifp (\<lambda>i. i\<lparr>if_snd := q\<rparr>));
     if m = 0 then Some (0, s)
     else do {
       c \<leftarrow> l_sc s p;
       let tbuf = ler2_tbuf (sc_r2 c) (nat (sc_tmd c));
       let (len, s) = leput s tbuf m;
       s \<leftarrow> (if if_bpf i \<noteq> 0 then le_net s (\<lambda>n. Some (bpf_tap n (if_bpf i) tbuf len)) else Some s);
       s \<leftarrow> upd_le s p (\<lambda>c. c\<lparr>sc_txcnt := sc_txcnt c + 1\<rparr>);
       c \<leftarrow> l_sc s p;
       if sc_txcnt c < LETBUF then lestart_loop ifp p s
       else do { s \<leftarrow> le_net s (\<lambda>n. updif n p (\<lambda>i. i\<lparr>if_flags := if_flags i OR IFF_OACTIVE\<rparr>)); Some (0, s) } } }"

definition lestart :: "addr \<Rightarrow> lest \<Rightarrow> (int \<times> lest) option" where
  "lestart ifp s =
     (if ifp = 0 then Some (0, s)
      else do {
        i \<leftarrow> ldif (l_net s) ifp;
        if \<not> has (if_flags i) IFF_RUNNING then Some (0, s)
        else do { p \<leftarrow> le_addr (sint (if_unit i)); lestart_loop ifp p s } })"

section \<open>Requests\<close>

definition leioctl_flags :: "addr \<Rightarrow> addr \<Rightarrow> ioarg \<Rightarrow> lest \<Rightarrow> (int \<times> ioarg \<times> lest) option" where
  "leioctl_flags ifp p data s = do {
     f \<leftarrow> arg_ifa_flags (l_net s) data;
     i \<leftarrow> ldif (l_net s) ifp;
     s \<leftarrow> (if \<not> has f IFF_UP \<and> has (if_flags i) IFF_RUNNING
           then le_net s (\<lambda>n. updif n ifp (\<lambda>i. i\<lparr>if_flags := if_flags i AND NOT IFF_RUNNING\<rparr>))
           else if has f IFF_UP \<and> \<not> has (if_flags i) IFF_RUNNING then Some (snd (leinit s (sint (if_unit i))))
           else Some s);
     i \<leftarrow> ldif (l_net s) ifp;
     c \<leftarrow> l_sc s p;
     if has (if_flags i XOR sc_iflags c) IFF_PROMISC \<and> has (if_flags i) IFF_RUNNING
     then do {
       s \<leftarrow> upd_le s p (\<lambda>c. c\<lparr>sc_iflags := if_flags i\<rparr>);
       let (_, s) = lereset s (sint (if_unit i));
       (_, s) \<leftarrow> lestart ifp s;
       Some (0, data, s) }
     else Some (0, data, s) }"

definition leioctl :: "addr \<Rightarrow> u_int \<Rightarrow> ioarg \<Rightarrow> lest \<Rightarrow> (int \<times> ioarg \<times> lest) option" where
  "leioctl ifp cmd data s = do {
     i \<leftarrow> ldif (l_net s) ifp;
     p \<leftarrow> le_addr (sint (if_unit i));
     if cmd = SIOCSIFADDR
     then do {
       s \<leftarrow> le_net s (\<lambda>n. updif n ifp (\<lambda>i. i\<lparr>if_flags := if_flags i OR IFF_UP\<rparr>));
       a \<leftarrow> arg_ifa_addr (l_net s) data;
       f \<leftarrow> sa_family (l_net s) a;
       let (_, s) = leinit s (sint (if_unit i));
       leioctl_flags ifp p data s }
     else if cmd = SIOCSIFFLAGS then leioctl_flags ifp p data s
     else Some (0, data, s) }"

end
