(* ===== verification/LeProps.thy ===== *)
theory LeProps
  imports Le EtherProps
begin

text \<open>What the LANCE driver does with the packets of its queue, and with requests.\<close>

section \<open>Start\<close>

lemma upd_le_eq: "l_sc s p = Some c \<Longrightarrow> upd_le s p f = Some (s\<lparr>l_sc := (l_sc s)(p \<mapsto> f c)\<rparr>)"
  by (simp add: upd_le_def)

lemma le_net_if:
  "ldif (l_net s) p = Some i \<Longrightarrow> le_net s (\<lambda>n. updif n p f) = Some (s\<lparr>l_net := (l_net s)\<lparr>n_if := (n_if (l_net s))(p \<mapsto> f i)\<rparr>\<rparr>)"
  by (simp add: le_net_def updif_eq)

lemma le_tap [simp]: "(if b then le_net s (\<lambda>n. Some (bpf_tap n x y z)) else Some s) = Some s"
  by (simp add: le_net_def bpf_tap_def)

lemma lestart_loop_step:
  assumes "ldif (l_net s) p = Some i" "l_sc s p = Some c" "IF_DEQUEUE (n_mem (l_net s)) (if_snd i) = Some (m, q)"
  shows "lestart_loop p p s = (let s1 = s\<lparr>l_net := (l_net s)\<lparr>n_if := (n_if (l_net s))(p \<mapsto> i\<lparr>if_snd := q\<rparr>)\<rparr>\<rparr>;
      s2 = s1\<lparr>l_sc := (l_sc s)(p \<mapsto> c\<lparr>sc_txcnt := sc_txcnt c + 1\<rparr>)\<rparr> in
    if m = 0 then Some (0, s1)
    else if sc_txcnt c + 1 < 2 then lestart_loop p p s2
    else Some (0, s2\<lparr>l_net := (l_net s)\<lparr>n_if := (n_if (l_net s))(p \<mapsto> i\<lparr>if_snd := q, if_flags := if_flags i OR IFF_OACTIVE\<rparr>)\<rparr>\<rparr>))"
proof -
  have nz: "0 < p" using ldif_nz [OF assms(1)] by simp
  let ?s1 = "s\<lparr>l_net := (l_net s)\<lparr>n_if := (n_if (l_net s))(p \<mapsto> i\<lparr>if_snd := q\<rparr>)\<rparr>\<rparr>"
  let ?s2 = "?s1\<lparr>l_sc := (l_sc s)(p \<mapsto> c\<lparr>sc_txcnt := sc_txcnt c + 1\<rparr>)\<rparr>"
  have 1: "le_net s (\<lambda>n. updif n p (\<lambda>i. i\<lparr>if_snd := q\<rparr>)) = Some ?s1" using le_net_if [OF assms(1)] by simp
  have 2: "l_sc ?s1 p = Some c" using assms(2) by simp
  have 3: "upd_le ?s1 p (\<lambda>c. c\<lparr>sc_txcnt := sc_txcnt c + 1\<rparr>) = Some ?s2" using upd_le_eq [OF 2] by simp
  have 4: "l_sc ?s2 p = Some (c\<lparr>sc_txcnt := sc_txcnt c + 1\<rparr>)" by simp
  have "ldif (l_net ?s2) p = Some (i\<lparr>if_snd := q\<rparr>)" using nz by simp
  note 5 = le_net_if [OF this, of "\<lambda>i. i\<lparr>if_flags := if_flags i OR IFF_OACTIVE\<rparr>"]
  show ?thesis
    by (subst lestart_loop.simps) (simp add: assms 1 2 3 4 5 leput_def LETBUF_def)
qed

text \<open>How many packets one call takes: at least one, and not more than there are free buffers otherwise.\<close>

definition le_takes :: "int \<Rightarrow> nat \<Rightarrow> nat" where
  "le_takes txcnt n = min n (nat (max 1 (2 - txcnt)))"

lemma lestart_loop_takes:
  assumes "ldif (l_net s) p = Some i" "l_sc s p = Some c" "queue_rep (n_mem (l_net s)) (if_snd i) ms"
  shows "\<exists>s' i' c'. lestart_loop p p s = Some (0, s') \<and> ldif (l_net s') p = Some i' \<and> l_sc s' p = Some c' \<and>
    n_mem (l_net s') = n_mem (l_net s) \<and> queue_rep (n_mem (l_net s)) (if_snd i') (drop (le_takes (sc_txcnt c) (length ms)) ms) \<and>
    sc_txcnt c' = sc_txcnt c + int (le_takes (sc_txcnt c) (length ms)) \<and>
    if_flags i' = (if ms \<noteq> [] \<and> 2 \<le> sc_txcnt c' then if_flags i OR IFF_OACTIVE else if_flags i)"
  using assms
proof (induction ms arbitrary: s i c)
  case Nil
  have nz: "0 < p" using ldif_nz [OF Nil(1)] by simp
  from dequeue_empty [OF Nil(3)] lestart_loop_step [OF Nil(1,2), of 0 "if_snd i"] Nil nz show ?case
    by (simp add: le_takes_def)
next
  case (Cons m ms)
  have nz: "0 < p" using ldif_nz [OF Cons.prems(1)] by simp
  have m: "m \<noteq> 0" using Cons.prems(3) by (auto simp: queue_rep_def pchain_Cons dest: ld_nz)
  from dequeue_rep [OF Cons.prems(3)] obtain q where q: "IF_DEQUEUE (n_mem (l_net s)) (if_snd i) = Some (m, q)"
    "queue_rep (n_mem (l_net s)) q ms" by blast
  note step = lestart_loop_step [OF Cons.prems(1,2) q(1)]
  let ?s = "s\<lparr>l_net := (l_net s)\<lparr>n_if := (n_if (l_net s))(p \<mapsto> i\<lparr>if_snd := q\<rparr>)\<rparr>,
    l_sc := (l_sc s)(p \<mapsto> c\<lparr>sc_txcnt := sc_txcnt c + 1\<rparr>)\<rparr>"
  show ?case
  proof (cases "sc_txcnt c + 1 < 2")
    case False
    then have k: "le_takes (sc_txcnt c) (length (m # ms)) = 1" by (simp add: le_takes_def)
    show ?thesis unfolding k using step False m q(2) nz by simp
  next
    case True
    have run: "lestart_loop p p s = lestart_loop p p ?s" using step True m by simp
    have st: "ldif (l_net ?s) p = Some (i\<lparr>if_snd := q\<rparr>)" "l_sc ?s p = Some (c\<lparr>sc_txcnt := sc_txcnt c + 1\<rparr>)"
      "queue_rep (n_mem (l_net ?s)) (if_snd (i\<lparr>if_snd := q\<rparr>)) ms" using nz q(2) by simp_all
    have k: "le_takes (sc_txcnt c) (length (m # ms)) = Suc (le_takes (sc_txcnt c + 1) (length ms))"
    proof -
      have "nat (max 1 (2 - sc_txcnt c)) = Suc (nat (max 1 (2 - (sc_txcnt c + 1))))" using True by linarith
      then show ?thesis by (simp add: le_takes_def)
    qed
    from Cons.IH [OF st] obtain s' i' c' where r: "lestart_loop p p ?s = Some (0, s')" "ldif (l_net s') p = Some i'"
      "l_sc s' p = Some c'" "n_mem (l_net s') = n_mem (l_net s)"
      "queue_rep (n_mem (l_net s)) (if_snd i') (drop (le_takes (sc_txcnt c + 1) (length ms)) ms)"
      "sc_txcnt c' = sc_txcnt c + 1 + int (le_takes (sc_txcnt c + 1) (length ms))"
      "if_flags i' = (if ms \<noteq> [] \<and> 2 \<le> sc_txcnt c' then if_flags i OR IFF_OACTIVE else if_flags i)" by auto
    have "ms = [] \<Longrightarrow> \<not> 2 \<le> sc_txcnt c'" using r(6) True by (simp add: le_takes_def)
    with r run show ?thesis unfolding k by auto
  qed
qed

text \<open>C19: \<open>lestart\<close> always returns, whatever the transmit counter is.  On a running interface it takes
  packets off the queue until two are counted as being sent, at least one if there is one; the packets it
  took are not released and nothing refers to them any more; and it marks the interface as busy exactly when it
  stops for the counter.  Since no code lowers the counter, from the third packet on every call takes one.\<close>

theorem lestart_takes:
  assumes "ldif (l_net s) p = Some i" "l_sc s p = Some c" "le_addr (sint (if_unit i)) = Some p" "has (if_flags i) IFF_RUNNING"
    "queue_rep (n_mem (l_net s)) (if_snd i) ms"
  shows "\<exists>s' i' c'. lestart p s = Some (0, s') \<and> ldif (l_net s') p = Some i' \<and> l_sc s' p = Some c' \<and>
    queue_rep (n_mem (l_net s')) (if_snd i') (drop (le_takes (sc_txcnt c) (length ms)) ms) \<and>
    sc_txcnt c' = sc_txcnt c + int (le_takes (sc_txcnt c) (length ms)) \<and>
    (\<forall>m\<in>set ms. ld (n_mem (l_net s')) m = ld (n_mem (l_net s)) m \<and> ld (n_mem (l_net s')) m \<noteq> None) \<and>
    if_flags i' = (if ms \<noteq> [] \<and> 2 \<le> sc_txcnt c' then if_flags i OR IFF_OACTIVE else if_flags i)"
proof -
  have "lestart p s = lestart_loop p p s" using assms(1,3,4) ldif_nz [OF assms(1)] by (simp add: lestart_def)
  moreover have "\<forall>m\<in>set ms. ld (n_mem (l_net s)) m \<noteq> None"
    using assms(5) pchain_ld by (fastforce simp: queue_rep_def)
  moreover from lestart_loop_takes [OF assms(1,2,5)] obtain s' i' c' where "lestart_loop p p s = Some (0, s')"
    "ldif (l_net s') p = Some i'" "l_sc s' p = Some c'" "n_mem (l_net s') = n_mem (l_net s)"
    "queue_rep (n_mem (l_net s)) (if_snd i') (drop (le_takes (sc_txcnt c) (length ms)) ms)"
    "sc_txcnt c' = sc_txcnt c + int (le_takes (sc_txcnt c) (length ms))"
    "if_flags i' = (if ms \<noteq> [] \<and> 2 \<le> sc_txcnt c' then if_flags i OR IFF_OACTIVE else if_flags i)" by blast
  ultimately show ?thesis by (intro exI [of _ s'] exI [of _ i'] exI [of _ c']) simp
qed

definition demo_softc :: le_softc where
  "demo_softc = \<lparr>sc_r0 = 0, sc_r1 = 0, sc_r2 = 0, sc_rmd = 0, sc_tmd = 0, sc_txcnt = 0, sc_runt = 0, sc_jab = 0, sc_merr = 0,
     sc_babl = 0, sc_cerr = 0, sc_miss = 0, sc_rown = 0, sc_xown = 0, sc_xown2 = 0, sc_uflo = 0, sc_rxlen = 0, sc_rxoff = 0,
     sc_txoff = 0, sc_busy = 0, sc_iflags = 0\<rparr>"

definition demo_run :: ifnet where
  "demo_run = demo_le\<lparr>if_flags := IFF_RUNNING, if_snd := \<lparr>ifq_head = 16384, ifq_tail = 16384, ifq_len = 1, ifq_maxlen = 50, ifq_drops = 0\<rparr>\<rparr>"

definition demo_lest :: lest where
  "demo_lest = \<lparr>l_net = demo_net\<lparr>n_if := [16 \<mapsto> demo_run]\<rparr>, l_sc = [16 \<mapsto> demo_softc]\<rparr>"

lemma demo_lest_sel [simp]: "ldif (l_net demo_lest) 16 = Some demo_run" "l_sc demo_lest 16 = Some demo_softc"
  "n_mem (l_net demo_lest) = demo_mem"
  by (simp_all add: demo_lest_def ldif_def)

theorem lestart_takes_witness:
  "\<exists>s' i' c'. lestart 16 demo_lest = Some (0, s') \<and> ldif (l_net s') 16 = Some i' \<and> l_sc s' 16 = Some c' \<and>
    queue_rep (n_mem (l_net s')) (if_snd i') [] \<and> sc_txcnt c' = 1 \<and> ld (n_mem (l_net s')) 16384 = Some demo_b3"
proof -
  have "queue_rep demo_mem (if_snd demo_run) [16384]"
    by (simp add: demo_run_def queue_rep_def pchain_Cons demo_ld) (simp add: demo_b3_def)
  moreover have "le_addr (sint (if_unit demo_run)) = Some 16" "has (if_flags demo_run) IFF_RUNNING"
    by (simp_all add: le_addr_def demo_run_def NLE_def has_def IFF_RUNNING_def)
  ultimately show ?thesis
    using lestart_takes [of demo_lest 16 demo_run demo_softc "[16384]"]
    by (simp add: le_takes_def demo_softc_def demo_ld) blast
qed

section \<open>Requests\<close>

text \<open>The driver answers every request it does not know with success.  A request to set the flags comes with an
  \<open>ifreq\<close> of 32 bytes; the driver reads the flags of an interface address there, at offset 48, behind its end.\<close>

lemma leioctl_requests:
  assumes "ldif (l_net s) p = Some i" "le_addr (sint (if_unit i)) = Some q"
  shows "cmd \<noteq> SIOCSIFADDR \<Longrightarrow> cmd \<noteq> SIOCSIFFLAGS \<Longrightarrow> leioctl p cmd d s = Some (0, d, s)"
    "length bs < 50 \<Longrightarrow> leioctl p SIOCSIFFLAGS (Bytes bs) s = None"
proof -
  show "cmd \<noteq> SIOCSIFADDR \<Longrightarrow> cmd \<noteq> SIOCSIFFLAGS \<Longrightarrow> leioctl p cmd d s = Some (0, d, s)"
    using assms by (simp add: leioctl_def)
  have "SIOCSIFFLAGS \<noteq> SIOCSIFADDR" by (simp add: SIOCSIFFLAGS_def SIOCSIFADDR_def ioc_defs)
  then show "length bs < 50 \<Longrightarrow> leioctl p SIOCSIFFLAGS (Bytes bs) s = None"
    using assms by (simp add: leioctl_def leioctl_flags_def arg_ifa_flags_def req_field_def)
qed

end
