(* ===== verification/Compare.thy ===== *)
theory Compare
  imports MbufProps
begin

text \<open>
  The comparison of packets in \<open>test.c\<close>: \<open>mbuf_equal\<close> without the lines it prints.  A negative
  \<open>m_len\<close> becomes a huge size for \<open>memcmp\<close>, which no block has.
\<close>

partial_function (option) mbuf_equal_loop :: "mem \<Rightarrow> addr \<Rightarrow> addr \<Rightarrow> bool option" where
  "mbuf_equal_loop h m1 m2 =
     (if m1 \<noteq> 0 \<and> m2 \<noteq> 0
      then do {
        b1 \<leftarrow> ld h m1;
        b2 \<leftarrow> ld h m2;
        if m_len b1 \<noteq> m_len b2 then Some False
        else do {
          guard (0 \<le> m_len b1);
          xs \<leftarrow> rd h (m_data b1) (nat (m_len b1));
          ys \<leftarrow> rd h (m_data b2) (nat (m_len b1));
          if xs \<noteq> ys then Some False else mbuf_equal_loop h (m_next b1) (m_next b2) } }
      else Some (m1 = 0 \<and> m2 = 0))"

definition mbuf_equal :: "mem \<Rightarrow> addr \<Rightarrow> addr \<Rightarrow> bool option" where
  "mbuf_equal h m1 m2 = do {
     b1 \<leftarrow> ld h m1;
     b2 \<leftarrow> ld h m2;
     if m_flags b1 \<noteq> m_flags b2 then Some False else mbuf_equal_loop h m1 m2 }"

text \<open>The bytes of a chain, one string for each mbuf.\<close>

definition segments :: "mem \<Rightarrow> addr list \<Rightarrow> u_char list option list" where
  "segments h as = map (mbytes h) as"

lemma mbytes_length: "mbytes h a = Some xs \<Longrightarrow> ld h a = Some b \<Longrightarrow> 0 \<le> m_len b \<and> m_len b = int (length xs) \<and> rd h (m_data b) (nat (m_len b)) = Some xs"
  by (auto simp: mbytes_def dest!: rd_length split: if_splits)

lemma mbuf_equal_loop_segments:
  assumes "mchain h m1 as" "mchain h m2 bs" "None \<notin> set (segments h as)" "None \<notin> set (segments h bs)"
  shows "mbuf_equal_loop h m1 m2 = Some (segments h as = segments h bs)"
  using assms
proof (induction as arbitrary: m1 m2 bs)
  case Nil
  then show ?case
    by (subst mbuf_equal_loop.simps) (cases bs, auto simp: segments_def mchain_Cons dest: ld_nz)
next
  case (Cons a as)
  then obtain b1 xs where a: "m1 = a" "ld h a = Some b1" "mchain h (m_next b1) as" "mbytes h a = Some xs"
    by (fastforce simp: mchain_Cons segments_def)
  show ?case
  proof (cases bs)
    case Nil
    with Cons.prems(2) a show ?thesis
      by (subst mbuf_equal_loop.simps) (auto simp: segments_def dest: ld_nz)
  next
    case (Cons c cs)
    with Cons.prems obtain b2 ys where c: "m2 = c" "ld h c = Some b2" "mchain h (m_next b2) cs" "mbytes h c = Some ys"
      by (fastforce simp: mchain_Cons segments_def)
    have nz: "a \<noteq> 0" "c \<noteq> 0" using a(2) c(2) ld_nz by blast+
    have IH: "mbuf_equal_loop h (m_next b1) (m_next b2) = Some (segments h as = segments h cs)"
      using Cons.IH [OF a(3) c(3)] Cons.prems(3,4) Cons by (simp add: segments_def)
    show ?thesis
      using a c nz IH mbytes_length [OF a(4,2)] mbytes_length [OF c(4,2)]
      by (subst mbuf_equal_loop.simps) (auto simp: Cons segments_def)
  qed
qed

text \<open>C30: \<open>mbuf_equal\<close> compares mbuf by mbuf: it says yes exactly if the flags of the two first mbufs
  are the same and the chains have the same bytes in the same mbufs.  Two packets with the same bytes
  that are cut differently are not equal.\<close>

theorem mbuf_equal_segments:
  assumes "mchain h m1 (m1 # as)" "mchain h m2 (m2 # bs)" "ld h m1 = Some b1" "ld h m2 = Some b2"
    "content h (m1 # as) = Some xs" "content h (m2 # bs) = Some ys"
  shows "mbuf_equal h m1 m2 = Some (m_flags b1 = m_flags b2 \<and> segments h (m1 # as) = segments h (m2 # bs))"
proof -
  have "None \<notin> set (segments h cs)" if "content h cs = Some zs" for cs zs
    using that by (induction cs arbitrary: zs) (auto simp: segments_def split: bind_splits)
  with assms mbuf_equal_loop_segments [OF assms(1,2)] show ?thesis by (simp add: mbuf_equal_def)
qed

theorem mbuf_equal_segments_witness:
  "mbuf_equal demo 4096 4096 = Some True \<and> mbuf_equal demo 8192 16384 = Some False"
proof -
  have "content demo [8192] = Some [4, 5]" using demo_bytes by simp
  then show ?thesis
    using mbuf_equal_segments [OF demo_chain(1) demo_chain(1) demo_ld(1) demo_ld(1) demo_content(1) demo_content(1)]
      mbuf_equal_segments [OF demo_chain(3) demo_chain(2) demo_ld(2,3) _ demo_content(2)]
    by (simp add: segments_def demo_bytes)
qed

end
