(* ===== verification/Sock.thy ===== *)
theory Sock
  imports Net Tty "HOL-Library.Multiset"
begin

text \<open>
  Sockets and their buffers, \<open>sys/socketvar.h\<close>: the structures and the macros that keep the byte
  counts and the lock of a buffer.  \<open>imin\<close>, \<open>sb_lock\<close> and the flag bits of a protocol are
  declared nowhere in the repository: they are parameters.
\<close>

section \<open>Structures\<close>

record sockbuf =
  sb_cc :: u_long
  sb_hiwat :: u_long
  sb_mbcnt :: u_long
  sb_mbmax :: u_long
  sb_lowat :: int
  sb_mb :: addr
  sb_sel :: selinfo
  sb_flags :: c_short
  sb_timeo :: c_short

record xsocket = socket +
  so_head :: addr
  so_q0 :: addr
  so_q :: addr
  so_q0len :: c_short
  so_qlen :: c_short
  so_qlimit :: c_short
  so_timeo :: c_short
  so_error :: u_short
  so_pgid :: int
  so_oobmark :: u_long
  so_rcv :: sockbuf
  so_snd :: sockbuf
  so_tpcb :: addr
  so_upcall :: hook
  so_upcallarg :: addr

definition SB_MAX :: int where "SB_MAX = 256 * 1024"
definition SB_LOCK :: c_short where "SB_LOCK = 0x01"
definition SB_WANT :: c_short where "SB_WANT = 0x02"
definition SB_WAIT :: c_short where "SB_WAIT = 0x04"
definition SB_SEL :: c_short where "SB_SEL = 0x08"
definition SB_ASYNC :: c_short where "SB_ASYNC = 0x10"
definition SB_NOTIFY :: c_short where "SB_NOTIFY = SB_WAIT OR SB_SEL OR SB_ASYNC"
definition SB_NOINTR :: c_short where "SB_NOINTR = 0x40"

definition SS_ISCONNECTED :: c_short where "SS_ISCONNECTED = 0x002"
definition SS_CANTSENDMORE :: c_short where "SS_CANTSENDMORE = 0x010"
definition SS_CANTRCVMORE :: c_short where "SS_CANTRCVMORE = 0x020"

definition EAGAIN :: int where "EAGAIN = 35"
definition EWOULDBLOCK :: int where "EWOULDBLOCK = EAGAIN"
definition M_WAITOK :: int where "M_WAITOK = 0x0000"
definition M_NOWAIT :: int where "M_NOWAIT = 0x0001"

section \<open>Space\<close>

text \<open>The differences are taken on \<open>u_long\<close> and then read as \<open>int\<close>.\<close>

definition sbspace :: "(int \<Rightarrow> int \<Rightarrow> int) \<Rightarrow> sockbuf \<Rightarrow> int" where
  "sbspace imin sb = imin (sint (sb_hiwat sb - sb_cc sb)) (sint (sb_mbmax sb - sb_mbcnt sb))"

definition so_pr_flags :: "dtab \<Rightarrow> xsocket \<Rightarrow> u_int option" where
  "so_pr_flags t so = map_option (\<lambda>p. word_of_int (pr_flags p)) (d_pro t (so_proto so))"

definition sosendallatonce :: "u_int \<Rightarrow> dtab \<Rightarrow> xsocket \<Rightarrow> bool option" where
  "sosendallatonce PR_ATOMIC t so = map_option (\<lambda>f. has f PR_ATOMIC) (so_pr_flags t so)"

text \<open>Here the low water mark is compared as an unsigned number, below as a signed one.\<close>

definition soreadable :: "xsocket \<Rightarrow> bool" where
  "soreadable so \<longleftrightarrow> word_of_int (sb_lowat (so_rcv so)) \<le> sb_cc (so_rcv so) \<or>
     has (so_state so) SS_CANTRCVMORE \<or> so_qlen so \<noteq> 0 \<or> so_error so \<noteq> 0"

definition sowriteable :: "(int \<Rightarrow> int \<Rightarrow> int) \<Rightarrow> u_int \<Rightarrow> dtab \<Rightarrow> xsocket \<Rightarrow> bool option" where
  "sowriteable imin PR_CONNREQUIRED t so = do {
     room \<leftarrow> (if sbspace imin (so_snd so) \<ge> sb_lowat (so_snd so)
              then (if has (so_state so) SS_ISCONNECTED then Some True
                    else map_option (\<lambda>f. \<not> has f PR_CONNREQUIRED) (so_pr_flags t so))
              else Some False);
     Some (room \<or> has (so_state so) SS_CANTSENDMORE \<or> so_error so \<noteq> 0) }"

section \<open>Accounting\<close>

definition ext_size :: "mbuf \<Rightarrow> u_int" where
  "ext_size b = word_of_nat (le_nat (slice 32 4 (m_dat b)))"

definition sballoc :: "mbuf \<Rightarrow> sockbuf \<Rightarrow> sockbuf" where
  "sballoc m sb = (let sb = sb\<lparr>sb_cc := sb_cc sb + word_of_int (m_len m)\<rparr>;
     sb = sb\<lparr>sb_mbcnt := sb_mbcnt sb + word_of_int MSIZE\<rparr>
   in if has (m_flags m) M_EXT then sb\<lparr>sb_mbcnt := sb_mbcnt sb + ext_size m\<rparr> else sb)"

definition sbfree :: "mbuf \<Rightarrow> sockbuf \<Rightarrow> sockbuf" where
  "sbfree m sb = (let sb = sb\<lparr>sb_cc := sb_cc sb - word_of_int (m_len m)\<rparr>;
     sb = sb\<lparr>sb_mbcnt := sb_mbcnt sb - word_of_int MSIZE\<rparr>
   in if has (m_flags m) M_EXT then sb\<lparr>sb_mbcnt := sb_mbcnt sb - ext_size m\<rparr> else sb)"

section \<open>The lock\<close>

text \<open>The macro ends in a comma expression: \<open>(held ? ... : set), 0\<close>.\<close>

definition sblock :: "(sockbuf \<Rightarrow> int \<times> sockbuf) \<Rightarrow> sockbuf \<Rightarrow> int \<Rightarrow> int \<times> sockbuf" where
  "sblock sb_lock sb how = (let (r, sb) =
     (if has (sb_flags sb) SB_LOCK
      then (if how = M_WAITOK then sb_lock sb else (EWOULDBLOCK, sb))
      else (sint (sb_flags sb OR SB_LOCK), sb\<lparr>sb_flags := sb_flags sb OR SB_LOCK\<rparr>))
   in (0, sb))"

text \<open>The second result says whether \<open>wakeup\<close> is called.\<close>

definition sbunlock :: "sockbuf \<Rightarrow> sockbuf \<times> bool" where
  "sbunlock sb = (let sb = sb\<lparr>sb_flags := sb_flags sb AND NOT SB_LOCK\<rparr> in
     if has (sb_flags sb) SB_WANT then (sb\<lparr>sb_flags := sb_flags sb AND NOT SB_WANT\<rparr>, True) else (sb, False))"

section \<open>Properties\<close>

definition mb_size :: "mbuf \<Rightarrow> u_long" where
  "mb_size m = word_of_int MSIZE + (if has (m_flags m) M_EXT then ext_size m else 0)"

lemma sballoc_eq: "sballoc m sb = sb\<lparr>sb_cc := sb_cc sb + word_of_int (m_len m), sb_mbcnt := sb_mbcnt sb + mb_size m\<rparr>"
  by (simp add: sballoc_def mb_size_def Let_def add.assoc)

lemma sbfree_eq: "sbfree m sb = sb\<lparr>sb_cc := sb_cc sb - word_of_int (m_len m), sb_mbcnt := sb_mbcnt sb - mb_size m\<rparr>"
  by (simp add: sbfree_def mb_size_def Let_def diff_diff_add)

lemma sballoc_all: "fold sballoc ms sb = sb\<lparr>sb_cc := sb_cc sb + (\<Sum>m\<leftarrow>ms. word_of_int (m_len m)),
    sb_mbcnt := sb_mbcnt sb + (\<Sum>m\<leftarrow>ms. mb_size m)\<rparr>"
  by (induction ms arbitrary: sb) (simp_all add: sballoc_eq add.assoc)

lemma sbfree_all: "fold sbfree ms sb = sb\<lparr>sb_cc := sb_cc sb - (\<Sum>m\<leftarrow>ms. word_of_int (m_len m)),
    sb_mbcnt := sb_mbcnt sb - (\<Sum>m\<leftarrow>ms. mb_size m)\<rparr>"
  by (induction ms arbitrary: sb) (simp_all add: sbfree_eq diff_diff_add)

text \<open>C25: the counters of a socket buffer survive any wrap-around: whatever mbufs are entered with
  \<open>sballoc\<close>, taking the same ones out with \<open>sbfree\<close>, in any order, gives back the counters of before.\<close>

theorem sballoc_sbfree:
  assumes "mset ls = mset ms"
  shows "fold sbfree ls (fold sballoc ms sb) = sb"
proof -
  have "(\<Sum>m\<leftarrow>ls. f m) = (\<Sum>m\<leftarrow>ms. f m)" for f :: "mbuf \<Rightarrow> u_long"
    using assms by (metis mset_map sum_mset_sum_list)
  then show ?thesis by (simp add: sballoc_all sbfree_all)
qed

definition demo_sb :: sockbuf where
  "demo_sb = \<lparr>sb_cc = 0, sb_hiwat = 4096, sb_mbcnt = 0, sb_mbmax = 8192, sb_lowat = 1, sb_mb = 0,
     sb_sel = \<lparr>si_pid = 0, si_flags = 0\<rparr>, sb_flags = 0, sb_timeo = 0\<rparr>"

theorem sballoc_sbfree_witness: "fold sbfree [demo_b2, demo_b1] (fold sballoc [demo_b1, demo_b2] demo_sb) = demo_sb"
  by (rule sballoc_sbfree) simp

text \<open>Lengths and sizes as numbers.\<close>

definition cc_total :: "mbuf list \<Rightarrow> int" where "cc_total ms = (\<Sum>m\<leftarrow>ms. m_len m)"
definition mb_total :: "mbuf list \<Rightarrow> int" where "mb_total ms = (\<Sum>m\<leftarrow>ms. uint (mb_size m))"

lemma sum_words:
  "(\<Sum>m\<leftarrow>ms. word_of_int (m_len m)) = (word_of_int (cc_total ms) :: u_long)"
  "(\<Sum>m\<leftarrow>ms. mb_size m) = word_of_int (mb_total ms)"
  by (induction ms) (simp_all add: cc_total_def mb_total_def)

lemma sint_diff:
  "- (2 ^ 31) \<le> x \<Longrightarrow> x < 2 ^ 31 \<Longrightarrow> sint (word_of_int x :: u_long) = x"
  by (simp add: signed_of_int signed_take_bit_int_eq_self)

text \<open>C24: an empty buffer that was given some mbufs has the space its limits leave, the smaller of
  the two differences, also where the limits are exceeded and the difference of the unsigned fields
  has wrapped around; it is exact as long as the true differences fit an \<open>int\<close>.\<close>

theorem sbspace_exact:
  assumes "\<And>x y. imin x y = min x y" "sb_cc sb = 0" "sb_mbcnt sb = 0"
    "- (2 ^ 31) \<le> uint (sb_hiwat sb) - cc_total ms" "uint (sb_hiwat sb) - cc_total ms < 2 ^ 31"
    "- (2 ^ 31) \<le> uint (sb_mbmax sb) - mb_total ms" "uint (sb_mbmax sb) - mb_total ms < 2 ^ 31"
  shows "sbspace imin (fold sballoc ms sb) = min (uint (sb_hiwat sb) - cc_total ms) (uint (sb_mbmax sb) - mb_total ms)"
proof -
  have w: "w - word_of_int x = word_of_int (uint w - x)" for w :: u_long and x by simp
  show ?thesis
    using assms sint_diff [OF assms(4,5)] sint_diff [OF assms(6,7)]
    by (simp only: sbspace_def sballoc_all sum_words) (simp add: w del: of_int_diff)
qed

theorem sbspace_exact_witness:
  "sbspace min (fold sballoc [demo_b1, demo_b2] (demo_sb\<lparr>sb_hiwat := 3\<rparr>)) = -2"
proof -
  have "mb_size demo_b1 = 128" "mb_size demo_b2 = 128"
    by (simp_all add: mb_size_def has_def M_EXT_def M_PKTHDR_def)
  then have "mb_total [demo_b1, demo_b2] = 256" by (simp add: mb_total_def)
  then show ?thesis
    using sbspace_exact [of min "demo_sb\<lparr>sb_hiwat := 3\<rparr>" "[demo_b1, demo_b2]"]
    by (simp add: cc_total_def demo_sb_def)
qed

text \<open>\<open>sblock\<close> does not keep callers out: the first takes the lock, and a second one that does not
  wait is told that it has the lock as well, not \<open>EWOULDBLOCK\<close>, and finds the buffer unchanged.\<close>

theorem sblock_shared:
  assumes "\<not> has (sb_flags sb) SB_LOCK" "sblock l sb how = (r1, sb1)" "sblock l sb1 M_NOWAIT = (r2, sb2)"
  shows "r1 = 0 \<and> r2 = 0 \<and> has (sb_flags sb1) SB_LOCK \<and> sb2 = sb1"
proof -
  have "has (w OR SB_LOCK) SB_LOCK" for w
    by (simp add: has_or) (simp add: has_def SB_LOCK_def)
  then show ?thesis using assms by (auto simp: sblock_def Let_def M_NOWAIT_def M_WAITOK_def)
qed

theorem sblock_shared_witness:
  "fst (sblock (Pair 0) (snd (sblock (Pair 0) demo_sb M_WAITOK)) M_NOWAIT) = 0 \<and>
   has (sb_flags (snd (sblock (Pair 0) demo_sb M_WAITOK))) SB_LOCK"
  using sblock_shared [of demo_sb "Pair 0" M_WAITOK, OF _ prod.collapse [symmetric] prod.collapse [symmetric]]
  by (simp add: demo_sb_def has_def)

end
