(* ===== verification/Param.thy ===== *)
theory Param
  imports Clock
begin

text \<open>
  Sizes, pages and bit maps: the macros of \<open>sys/param.h\<close> and \<open>hp300/include/param.h\<close>, the table
  sizes of \<open>conf/param.c\<close> as functions of the build parameters \<open>HZ\<close> and \<open>MAXUSERS\<close>, and the
  software interrupt register and address macros of \<open>hp300/include/cpu.h\<close>.
\<close>

section \<open>Pages and blocks\<close>

definition NBPG :: u_int where "NBPG = 4096"
definition PGOFSET :: u_int where "PGOFSET = NBPG - 1"
definition PGSHIFT :: nat where "PGSHIFT = 12"
definition DEV_BSIZE :: u_int where "DEV_BSIZE = 512"
definition DEV_BSHIFT :: nat where "DEV_BSHIFT = 9"
definition ALIGNBYTES :: u_int where "ALIGNBYTES = 3"

definition ALIGN :: "u_int \<Rightarrow> u_int" where "ALIGN p = (p + ALIGNBYTES) AND NOT ALIGNBYTES"

definition ctod :: "u_int \<Rightarrow> u_int" where "ctod x = push_bit (PGSHIFT - DEV_BSHIFT) x"
definition dtoc :: "u_int \<Rightarrow> u_int" where "dtoc x = drop_bit (PGSHIFT - DEV_BSHIFT) x"
definition dtob :: "u_int \<Rightarrow> u_int" where "dtob x = push_bit DEV_BSHIFT x"
definition ctob :: "u_int \<Rightarrow> u_int" where "ctob x = push_bit PGSHIFT x"
definition btoc :: "u_int \<Rightarrow> u_int" where "btoc x = drop_bit PGSHIFT (x + (NBPG - 1))"
definition btodb :: "u_int \<Rightarrow> u_int" where "btodb x = drop_bit DEV_BSHIFT x"
definition dbtob :: "u_int \<Rightarrow> u_int" where "dbtob x = push_bit DEV_BSHIFT x"

definition hp300_round_page :: "u_int \<Rightarrow> u_int" where "hp300_round_page x = (x + NBPG - 1) AND NOT (NBPG - 1)"
definition hp300_trunc_page :: "u_int \<Rightarrow> u_int" where "hp300_trunc_page x = x AND NOT (NBPG - 1)"
definition hp300_btop :: "u_int \<Rightarrow> u_int" where "hp300_btop x = drop_bit PGSHIFT x"
definition hp300_ptob :: "u_int \<Rightarrow> u_int" where "hp300_ptob x = push_bit PGSHIFT x"

section \<open>Bit maps\<close>

definition NBBY :: nat where "NBBY = 8"

definition setbit :: "u_char list \<Rightarrow> nat \<Rightarrow> u_char list option" where
  "setbit a i = (if i div NBBY < length a
     then Some (a[i div NBBY := a ! (i div NBBY) OR push_bit (i mod NBBY) 1]) else None)"

definition clrbit :: "u_char list \<Rightarrow> nat \<Rightarrow> u_char list option" where
  "clrbit a i = (if i div NBBY < length a
     then Some (a[i div NBBY := a ! (i div NBBY) AND NOT (push_bit (i mod NBBY) 1)]) else None)"

definition isset :: "u_char list \<Rightarrow> nat \<Rightarrow> bool option" where
  "isset a i = (if i div NBBY < length a then Some (has (a ! (i div NBBY)) (push_bit (i mod NBBY) 1)) else None)"

definition isclr :: "u_char list \<Rightarrow> nat \<Rightarrow> bool option" where
  "isclr a i = (if i div NBBY < length a then Some (a ! (i div NBBY) AND push_bit (i mod NBBY) 1 = 0) else None)"

definition howmany :: "int \<Rightarrow> int \<Rightarrow> int" where "howmany x y = (x + (y - 1)) div y"
definition powerof2 :: "u_int \<Rightarrow> bool" where "powerof2 x \<longleftrightarrow> (x - 1) AND x = 0"
definition FSHIFT :: nat where "FSHIFT = 11"
definition FSCALE :: int where "FSCALE = push_bit FSHIFT 1"

section \<open>Table sizes\<close>

definition hz :: "int \<Rightarrow> int" where "hz HZ = HZ"
definition tick :: "int \<Rightarrow> int" where "tick HZ = 1000000 div HZ"
definition tickadj :: "int \<Rightarrow> int" where "tickadj HZ = 30000 div (60 * HZ)"
definition NPROC :: "int \<Rightarrow> int" where "NPROC MAXUSERS = 20 + 16 * MAXUSERS"
definition maxproc :: "int \<Rightarrow> int" where "maxproc MAXUSERS = NPROC MAXUSERS"
definition NTEXT :: "int \<Rightarrow> int" where "NTEXT MAXUSERS = 80 + NPROC MAXUSERS div 8"
definition NVNODE :: "int \<Rightarrow> int" where "NVNODE MAXUSERS = NPROC MAXUSERS + NTEXT MAXUSERS + 100"
definition desiredvnodes :: "int \<Rightarrow> int" where "desiredvnodes MAXUSERS = NVNODE MAXUSERS"
definition maxfiles :: "int \<Rightarrow> int" where "maxfiles MAXUSERS = 3 * (NPROC MAXUSERS + MAXUSERS) + 80"
definition ncallout :: "int \<Rightarrow> int" where "ncallout MAXUSERS = 16 + NPROC MAXUSERS"
definition nclist :: "int \<Rightarrow> int" where "nclist MAXUSERS = 60 + 12 * MAXUSERS"

definition PIDHSZ :: "int \<Rightarrow> u_int" where
  "PIDHSZ MAXUSERS = (if NPROC MAXUSERS > 1024 then 512
     else if NPROC MAXUSERS > 512 then 256
     else if NPROC MAXUSERS > 256 then 128
     else 64)"

definition pidhashmask :: "int \<Rightarrow> u_int" where "pidhashmask MAXUSERS = PIDHSZ MAXUSERS - 1"

section \<open>Processor\<close>

definition SIR_NET :: u_char where "SIR_NET = 0x1"
definition SIR_CLOCK :: u_char where "SIR_CLOCK = 0x2"
definition siroff :: "u_char \<Rightarrow> u_char \<Rightarrow> u_char" where "siroff x ssir = ssir AND NOT x"
definition setsoftnet :: "u_char \<Rightarrow> u_char" where "setsoftnet ssir = ssir OR SIR_NET"
definition setsoftclock :: "u_char \<Rightarrow> u_char" where "setsoftclock ssir = ssir OR SIR_CLOCK"

record clockframe =
  cf_sr :: u_short
  cf_pc :: u_long
  cf_vo :: u_short

definition PSL_S :: u_int where "PSL_S = 0x2000"
definition PSL_IPL7 :: u_int where "PSL_IPL7 = 0x0700"
definition PSL_IPL :: u_int where "PSL_IPL = PSL_IPL7"
definition CLKF_USERMODE :: "clockframe \<Rightarrow> bool" where "CLKF_USERMODE f \<longleftrightarrow> ucast (cf_sr f) AND PSL_S = 0"
definition CLKF_BASEPRI :: "clockframe \<Rightarrow> bool" where "CLKF_BASEPRI f \<longleftrightarrow> ucast (cf_sr f) AND PSL_IPL = 0"
definition CLKF_PC :: "clockframe \<Rightarrow> u_long" where "CLKF_PC f = cf_pc f"
definition CLKF_INTR :: "clockframe \<Rightarrow> int" where "CLKF_INTR f = 0"

definition INTIOBASE :: int where "INTIOBASE = 0x00400000"
definition INTIOTOP :: int where "INTIOTOP = 0x00600000"
definition ISIIOVA :: "addr \<Rightarrow> addr \<Rightarrow> addr \<Rightarrow> bool" where
  "ISIIOVA intiobase intiolimit va \<longleftrightarrow> va \<ge> intiobase \<and> va < intiolimit"
definition IIOV :: "int \<Rightarrow> int \<Rightarrow> int" where "IIOV intiobase pa = pa - INTIOBASE + intiobase"
definition IIOP :: "int \<Rightarrow> int \<Rightarrow> int" where "IIOP intiobase va = va - intiobase + INTIOBASE"
definition IIOPOFF :: "int \<Rightarrow> int" where "IIOPOFF pa = pa - INTIOBASE"

section \<open>Properties\<close>

lemma has_bit: "has w (2 ^ k) \<longleftrightarrow> bit w k" for w :: u_char
  using bit_iff_and_push_bit_not_eq_0 [of w k] by (simp only: has_def push_bit_of_1)

text \<open>After \<open>setbit\<close> and \<open>clrbit\<close> of bit \<open>i\<close> the map tests as before in every other bit, of the
  same byte or of another one, and set or clear in bit \<open>i\<close>; \<open>isclr\<close> is the opposite of \<open>isset\<close>.\<close>

theorem setbit_isset:
  assumes "i div 8 < length a" "j div 8 < length a"
  shows "setbit a i \<bind> (\<lambda>a. isset a j) = (if j = i then Some True else isset a j) \<and>
    clrbit a i \<bind> (\<lambda>a. isset a j) = (if j = i then Some False else isset a j) \<and>
    isclr a j = map_option Not (isset a j)"
proof -
  have one: "bit (2 ^ k :: u_char) l \<longleftrightarrow> k = l \<and> l < 8" for k l
    by (auto simp: bit_simps)
  have eq: "j = i \<longleftrightarrow> i div 8 = j div 8 \<and> i mod 8 = j mod 8"
    by (metis div_mult_mod_eq)
  have "setbit a i \<bind> (\<lambda>a. isset a j) = (if j = i then Some True else isset a j)"
    using assms unfolding eq
    by (cases "i div 8 = j div 8") (simp_all add: setbit_def isset_def NBBY_def has_bit bit_or_iff one)
  moreover have "clrbit a i \<bind> (\<lambda>a. isset a j) = (if j = i then Some False else isset a j)"
    using assms unfolding eq
    by (cases "i div 8 = j div 8") (simp_all add: clrbit_def isset_def NBBY_def has_bit bit_and_iff bit_not_iff one)
  moreover have "isclr a j = map_option Not (isset a j)"
    by (simp add: isclr_def isset_def has_def)
  ultimately show ?thesis by blast
qed

theorem setbit_isset_witness:
  "setbit [0, 5] 9 \<bind> (\<lambda>a. isset a 8) = isset [0, 5] 8 \<and> setbit [0, 5] 9 \<bind> (\<lambda>a. isset a 9) = Some True"
  using setbit_isset [of 9 "[0, 5]" 8] setbit_isset [of 9 "[0, 5]" 9] by simp

lemma page_mask: "NBPG - 1 = mask 12"
  by (simp add: NBPG_def mask_eq_exp_minus_1)

lemma trunc_page: "x AND NOT (mask 12) = push_bit 12 (drop_bit 12 x)" for x :: u_int
  by (auto intro!: bit_eqI simp: bit_simps)

lemma uint_trunc_page: "uint (push_bit 12 (drop_bit 12 x)) = uint x div 4096 * 4096" for x :: u_int
proof -
  have x: "0 \<le> uint x" "uint x < 2 ^ 32" using unsigned_less [of x] by simp_all
  have y: "0 \<le> y div 4096 * 4096" "y div 4096 * 4096 \<le> y" if "0 \<le> y" for y :: int
    using that by (simp add: pos_imp_zdiv_nonneg_iff, simp add: minus_mod_eq_div_mult [symmetric])
  have d: "0 \<le> uint x div 4096 * 4096" by (rule y(1) [OF x(1)])
  have e: "uint x div 4096 * 4096 < 2 ^ 32" by (rule le_less_trans [OF y(2) [OF x(1)] x(2)])
  have "take_bit 32 (uint x) = uint x" "take_bit 32 (uint x div 4096 * 4096) = uint x div 4096 * 4096"
    using x d e by (simp_all only: take_bit_int_eq_self_iff)
  moreover have "push_bit 12 (drop_bit 12 (uint x)) = uint x div 4096 * 4096"
    by (simp add: push_bit_eq_mult drop_bit_eq_div)
  ultimately show ?thesis
    by (simp add: unsigned_push_bit_eq unsigned_drop_bit_eq)
qed

text \<open>\<open>hp300_round_page\<close> gives the smallest multiple of the page size that is not below its
  argument, and zero for the addresses of the last page; \<open>btoc\<close> counts the pages of that multiple.\<close>

theorem round_page_least:
  "uint (hp300_round_page x) = (if uint x \<le> 0xfffff000 then 4096 * ((uint x + 4095) div 4096) else 0) \<and>
   ctob (btoc x) = hp300_round_page x"
proof
  have r: "hp300_round_page x = push_bit 12 (drop_bit 12 (x + (NBPG - 1)))"
    unfolding hp300_round_page_def add_diff_eq [symmetric] page_mask by (rule trunc_page)
  then show "ctob (btoc x) = hp300_round_page x" by (simp only: ctob_def btoc_def PGSHIFT_def)
  have x: "0 \<le> uint x" "uint x < 2 ^ 32" using unsigned_less [of x] by simp_all
  have sum: "uint (x + 4095) = (if uint x \<le> 0xfffff000 then uint x + 4095 else uint x + 4095 - 2 ^ 32)"
    using x by (simp add: uint_plus_if') 
  show "uint (hp300_round_page x) = (if uint x \<le> 0xfffff000 then 4096 * ((uint x + 4095) div 4096) else 0)"
    unfolding r uint_trunc_page using x sum by (simp add: NBPG_def)
qed

text \<open>The size of the process hash tables is a power of two for every number of users, so that the
  mask of \<open>conf/param.c\<close> gives the remainder and an index into the table.\<close>

theorem pidhashmask_mod:
  "powerof2 (PIDHSZ u) \<and> x AND pidhashmask u = x mod PIDHSZ u \<and> x AND pidhashmask u < PIDHSZ u"
proof -
  have "PIDHSZ u = 2 ^ 6 \<or> PIDHSZ u = 2 ^ 7 \<or> PIDHSZ u = 2 ^ 8 \<or> PIDHSZ u = 2 ^ 9"
    by (simp add: PIDHSZ_def)
  then obtain k where k: "k < 10" "PIDHSZ u = 2 ^ k"
    by (elim disjE) (erule that [rotated], simp)+
  then have m: "pidhashmask u = mask k" by (simp add: pidhashmask_def mask_eq_exp_minus_1)
  have "x AND mask k = x mod 2 ^ k" by (simp add: take_bit_eq_mask [symmetric] take_bit_eq_mod)
  moreover have "powerof2 (2 ^ k)" 
    by (simp add: powerof2_def mask_eq_exp_minus_1 [symmetric] and.commute [of "mask k"] take_bit_eq_mask [symmetric] take_bit_eq_mod)
  moreover have "x mod 2 ^ k < 2 ^ k" using k(1) by (intro word_mod_less_divisor) (simp add: word_gt_0)
  ultimately show ?thesis using k(2) m by simp
qed

end
