(* ===== verification/Quiet.thy ===== *)
theory Quiet
  imports Ether In
begin

text \<open>
  Most operations of the network code change counters, flags, buffers and socket addresses, and leave
  the lists of interfaces and addresses and the index table alone.  The part of a state that the lists
  consist of is its \<open>shape\<close>; \<open>quiet k n\<close> says that \<open>n\<close> has the shape of \<open>k\<close>, over a well-formed heap
  whose allocator has not gone back.  Every operation but those that link and unlink objects has one rule
  in \<open>quiet_steps\<close>; the functions behind pointers are assumed to be quiet in the same sense
  (\<open>drivers_quiet\<close>).
\<close>

section \<open>Shape\<close>

definition if_shape :: "ifnet \<Rightarrow> addr \<times> addr \<times> u_short" where
  "if_shape i = (if_next i, if_addrlist i, if_index i)"

text \<open>The interface of a link-level address belongs to the table; that of an internet address does not.\<close>

definition ifa_shape :: "ifaddr \<Rightarrow> addr \<times> addr option \<times> addr" where
  "ifa_shape a = (ifa_next a, map_option ia_next (ifa_in a), if ifa_in a = None then ifa_ifp a else 0)"

definition shape where
  "shape n = (\<lambda>p. map_option if_shape (ldif n p), \<lambda>p. map_option ifa_shape (ldifa n p), g_ifnet n, g_if_index n,
     g_if_indexlim n, g_ifnet_addrs n, g_in_ifaddr n)"

lemma ld_net_frame [simp]:
  "ldif (n\<lparr>g_ipintrq := q\<rparr>) p = ldif n p" "ldifa (n\<lparr>g_ipintrq := q\<rparr>) p = ldifa n p"
  "ldif (n\<lparr>g_arpintrq := q\<rparr>) p = ldif n p" "ldifa (n\<lparr>g_arpintrq := q\<rparr>) p = ldifa n p"
  "ldif (n\<lparr>g_time := t\<rparr>) p = ldif n p" "ldifa (n\<lparr>g_time := t\<rparr>) p = ldifa n p"
  "ldif (n\<lparr>g_in_interfaces := x\<rparr>) p = ldif n p" "ldifa (n\<lparr>g_in_interfaces := x\<rparr>) p = ldifa n p"
  "ldif (n\<lparr>n_rt := r\<rparr>) p = ldif n p" "ldifa (n\<lparr>n_rt := r\<rparr>) p = ldifa n p"
  "ldif (n\<lparr>n_ac := c\<rparr>) p = ldif n p" "ldifa (n\<lparr>n_ac := c\<rparr>) p = ldifa n p"
  by (simp_all add: ldif_def ldifa_def)

definition quiet :: "net \<Rightarrow> net \<Rightarrow> bool" where
  "quiet k n \<longleftrightarrow> shape n = shape k \<and> wf_from (mm_next (n_mem k)) (n_mem n)"

lemma quiet_refl: "wf_mem (n_mem n) \<Longrightarrow> quiet n n"
  by (simp add: quiet_def wf_from_def)

lemma quiet_trans: "quiet k m \<Longrightarrow> quiet m n \<Longrightarrow> quiet k n"
  by (auto simp: quiet_def wf_from_def)

named_theorems quiet_steps \<open>operations that are quiet, one rule each\<close>

section \<open>Updates\<close>

lemma quiet_mem: "quiet k n \<Longrightarrow> wf_from (mm_next (n_mem k)) h \<Longrightarrow> quiet k (n\<lparr>n_mem := h\<rparr>)"
  by (simp add: quiet_def shape_def)

lemma quiet_wf: "quiet k n \<Longrightarrow> wf_from (mm_next (n_mem k)) (n_mem n)"
  by (simp add: quiet_def)

lemma quiet_fields [simp]:
  "quiet k (n\<lparr>g_ipintrq := q\<rparr>) = quiet k n" "quiet k (n\<lparr>g_arpintrq := q\<rparr>) = quiet k n"
  "quiet k (n\<lparr>g_time := t\<rparr>) = quiet k n" "quiet k (n\<lparr>g_in_interfaces := x\<rparr>) = quiet k n"
  "quiet k (n\<lparr>n_rt := r\<rparr>) = quiet k n" "quiet k (n\<lparr>n_ac := c\<rparr>) = quiet k n"
  by (simp_all add: quiet_def shape_def)

lemma shape_updif:
  "updif n p f = Some n' \<Longrightarrow> (\<And>i. if_shape (f i) = if_shape i) \<Longrightarrow> shape n' = shape n \<and> n_mem n' = n_mem n"
  by (auto simp: updif_def shape_def fun_eq_iff split: option.splits)

lemma shape_updifa:
  "updifa n p f = Some n' \<Longrightarrow> (\<And>a. ldifa n p = Some a \<Longrightarrow> ifa_shape (f a) = ifa_shape a) \<Longrightarrow>
    shape n' = shape n \<and> n_mem n' = n_mem n"
  by (auto simp: updifa_def shape_def fun_eq_iff split: option.splits)

lemma quiet_updif [quiet_steps]:
  "updif n p f = Some n' \<Longrightarrow> quiet k n \<Longrightarrow> (\<And>i. if_shape (f i) = if_shape i) \<Longrightarrow> quiet k n'"
  using shape_updif [of n p f n'] by (simp add: quiet_def)

lemma quiet_updifa [quiet_steps]:
  "updifa n p f = Some n' \<Longrightarrow> quiet k n \<Longrightarrow> (\<And>a. ldifa n p = Some a \<Longrightarrow> ifa_shape (f a) = ifa_shape a) \<Longrightarrow> quiet k n'"
  using shape_updifa [of n p f n'] by (simp add: quiet_def)

lemma quiet_updia [quiet_steps]:
  "updia n p f = Some n' \<Longrightarrow> quiet k n \<Longrightarrow> (\<And>a. ia_next (f a) = ia_next a) \<Longrightarrow> quiet k n'"
  unfolding updia_def by (auto split: bind_splits option.splits elim!: quiet_steps simp: ldia_def ifa_shape_def)

lemma quiet_updrt [quiet_steps]: "updrt n p f = Some n' \<Longrightarrow> quiet k n \<Longrightarrow> quiet k n'"
  by (auto simp: updrt_def split: option.splits)

lemma quiet_nwr [quiet_steps]: "nwr n p xs = Some n' \<Longrightarrow> quiet k n \<Longrightarrow> quiet k n'"
  unfolding nwr_def by (auto split: bind_splits intro!: quiet_mem quiet_wf elim!: wf_steps)

lemma if_shape_upd [simp]:
  "if_shape (i\<lparr>if_flags := a\<rparr>) = if_shape i" "if_shape (i\<lparr>if_data := d\<rparr>) = if_shape i"
  "if_shape (i\<lparr>if_snd := q\<rparr>) = if_shape i" "if_shape (i\<lparr>if_timer := t\<rparr>) = if_shape i"
  "if_shape (i\<lparr>if_name := m\<rparr>) = if_shape i" "if_shape (i\<lparr>if_unit := u\<rparr>) = if_shape i"
  "if_shape (i\<lparr>if_output := g\<rparr>) = if_shape i" "if_shape (i\<lparr>if_ioctl := g\<rparr>) = if_shape i"
  by (simp_all add: if_shape_def)

lemma ifa_shape_upd [simp]:
  "ifa_shape (a\<lparr>ifa_flags := x\<rparr>) = ifa_shape a" "ifa_shape (a\<lparr>ifa_refcnt := y\<rparr>) = ifa_shape a"
  "ifa_shape (a\<lparr>ifa_addr := p\<rparr>) = ifa_shape a" "ifa_shape (a\<lparr>ifa_dstaddr := p\<rparr>) = ifa_shape a"
  "ifa_shape (a\<lparr>ifa_netmask := p\<rparr>) = ifa_shape a" "ifa_shape (a\<lparr>ifa_metric := v\<rparr>) = ifa_shape a"
  "ifa_shape (a\<lparr>ifa_rtrequest := g\<rparr>) = ifa_shape a"
  by (simp_all add: ifa_shape_def)

section \<open>Buffers and queues\<close>

lemma wf_queue [wf_steps]:
  "IF_ENQUEUE h q m = Some (h', q') \<Longrightarrow> wf_from k h \<Longrightarrow> wf_from k h'"
  "IF_PREPEND h q m = Some (h', q') \<Longrightarrow> wf_from k h \<Longrightarrow> wf_from k h'"
  unfolding IF_ENQUEUE_def IF_PREPEND_def by (auto split: bind_splits if_splits elim!: wf_steps)

lemma wf_if_qflush [wf_steps]: "if_qflush h q = Some (h', q') \<Longrightarrow> wf_from k h \<Longrightarrow> wf_from k h'"
proof -
  assume run: "if_qflush h q = Some (h', q')" and wf: "wf_from k h"
  have "wf_from k h \<longrightarrow> wf_from k (fst (h', q'))"
  proof (rule if_qflush.raw_induct [of "\<lambda>h q r. wf_from k h \<longrightarrow> wf_from k (fst r)", OF _ run], goal_cases)
    case 1
    note IH = 1(1) [rule_format]
    show ?case using 1(2) by (auto split: bind_splits if_splits elim!: wf_steps IH)
  qed
  with wf show ?thesis by simp
qed

section \<open>The functions behind pointers\<close>

definition drivers_quiet :: "env \<Rightarrow> bool" where
  "drivers_quiet e \<longleftrightarrow> (\<forall>n n'. wf_mem (n_mem n) \<longrightarrow>
     (\<forall>h c a b. e_ctl e h c a b n = Some n' \<longrightarrow> quiet n n') \<and>
     (\<forall>f ifp c d r d'. e_ioctl e f ifp c d n = Some (r, d', n') \<longrightarrow> quiet n n') \<and>
     (\<forall>f u. e_watchdog e f u n = Some n' \<longrightarrow> quiet n n') \<and>
     (\<forall>f ifp. e_start e f ifp n = Some n' \<longrightarrow> quiet n n'))"

lemma quiet_hooks [quiet_steps]:
  "e_ctl e h c a b n = Some n' \<Longrightarrow> quiet k n \<Longrightarrow> drivers_quiet e \<Longrightarrow> quiet k n'"
  "e_ioctl e f ifp c' d n = Some (r, d', n') \<Longrightarrow> quiet k n \<Longrightarrow> drivers_quiet e \<Longrightarrow> quiet k n'"
  "e_watchdog e f u n = Some n' \<Longrightarrow> quiet k n \<Longrightarrow> drivers_quiet e \<Longrightarrow> quiet k n'"
  "e_start e f ifp n = Some n' \<Longrightarrow> quiet k n \<Longrightarrow> drivers_quiet e \<Longrightarrow> quiet k n'"
  unfolding drivers_quiet_def by (blast intro: quiet_trans dest: quiet_wf wf_from_mem)+

lemma pro_loop_keeps:
  assumes "pro_loop t body pro end s = Some s'" "P s" "\<And>p s s'. body p s = Some s' \<Longrightarrow> P s \<Longrightarrow> P s'"
  shows "P s'"
proof -
  have "P s \<longrightarrow> P s'"
  proof (rule pro_loop.raw_induct [of "\<lambda>t b pro end s r. b = body \<longrightarrow> P s \<longrightarrow> P r", THEN mp, OF _ assms(1) refl], goal_cases)
    case 1
    note IH = 1(1) [rule_format]
    show ?case using 1(2) by (auto split: bind_splits if_splits elim!: IH intro: assms(3))
  qed
  with assms(2) show ?thesis by simp
qed

lemma dom_loop_keeps:
  assumes "dom_loop t body d s = Some s'" "P s" "\<And>d s s'. body d s = Some s' \<Longrightarrow> P s \<Longrightarrow> P s'"
  shows "P s'"
proof -
  have "P s \<longrightarrow> P s'"
  proof (rule dom_loop.raw_induct [of "\<lambda>t b d s r. b = body \<longrightarrow> P s \<longrightarrow> P r", THEN mp, OF _ assms(1) refl], goal_cases)
    case 1
    note IH = 1(1) [rule_format]
    show ?case using 1(2) by (auto split: bind_splits if_splits elim!: IH intro: assms(3))
  qed
  with assms(2) show ?thesis by simp
qed

lemma quiet_pfctlinput [quiet_steps]:
  "pfctlinput (e_ctl e) t c a n = Some n' \<Longrightarrow> quiet k n \<Longrightarrow> drivers_quiet e \<Longrightarrow> quiet k n'"
  unfolding pfctlinput_def
  by (erule (1) dom_loop_keeps, erule (1) pro_loop_keeps) (auto simp: call_def split: if_splits elim!: quiet_steps)

section \<open>Interfaces\<close>

lemma quiet_simple [quiet_steps]:
  "upd_data n ifp g = Some n' \<Longrightarrow> quiet k n \<Longrightarrow> quiet k n'"
  "upd_mbuf n m h = Some n' \<Longrightarrow> quiet k n \<Longrightarrow> (\<And>b. full b \<Longrightarrow> full (h b)) \<Longrightarrow> quiet k n'"
  "freem n m = Some n' \<Longrightarrow> quiet k n \<Longrightarrow> quiet k n'"
  "if_up n ifp = Some n' \<Longrightarrow> quiet k n \<Longrightarrow> quiet k n'"
  unfolding upd_data_def upd_mbuf_def freem_def if_up_def rt_ifmsg_def
  by (auto split: bind_splits intro!: quiet_mem quiet_wf elim!: quiet_steps wf_steps)

lemma quiet_if_down_loop [quiet_steps]:
  assumes "if_down_loop e n p = Some n'" "quiet k n" "drivers_quiet e"
  shows "quiet k n'"
proof -
  have "quiet k n \<longrightarrow> drivers_quiet e \<longrightarrow> quiet k n'"
  proof (rule if_down_loop.raw_induct [of "\<lambda>e n p r. quiet k n \<longrightarrow> drivers_quiet e \<longrightarrow> quiet k r", OF _ assms(1)], goal_cases)
    case 1
    note IH = 1(1) [rule_format]
    show ?case using 1(2) by (auto split: bind_splits if_splits elim!: quiet_steps IH)
  qed
  with assms show ?thesis by simp
qed

lemma quiet_if_down [quiet_steps]:
  "if_down e n ifp = Some n' \<Longrightarrow> quiet k n \<Longrightarrow> drivers_quiet e \<Longrightarrow> quiet k n'"
  unfolding if_down_def rt_ifmsg_def
  by (auto split: bind_splits prod.splits intro!: quiet_mem quiet_wf elim!: quiet_steps wf_steps)

lemma quiet_if_slowtimo_loop [quiet_steps]:
  assumes "if_slowtimo_loop e n p = Some n'" "quiet k n" "drivers_quiet e"
  shows "quiet k n'"
proof -
  have "quiet k n \<longrightarrow> drivers_quiet e \<longrightarrow> quiet k n'"
  proof (rule if_slowtimo_loop.raw_induct [of "\<lambda>e n p r. quiet k n \<longrightarrow> drivers_quiet e \<longrightarrow> quiet k r", OF _ assms(1)], goal_cases)
    case 1
    note IH = 1(1) [rule_format]
    show ?case using 1(2) by (auto split: bind_splits if_splits elim!: quiet_steps IH)
  qed
  with assms show ?thesis by simp
qed

lemma quiet_ifinit_loop [quiet_steps]:
  assumes "ifinit_loop n p = Some n'" "quiet k n"
  shows "quiet k n'"
proof -
  have "quiet k n \<longrightarrow> quiet k n'"
  proof (rule ifinit_loop.raw_induct [of "\<lambda>n p r. quiet k n \<longrightarrow> quiet k r", OF _ assms(1)], goal_cases)
    case 1
    note IH = 1(1) [rule_format]
    show ?case using 1(2) by (auto split: bind_splits if_splits elim!: quiet_steps IH)
  qed
  with assms show ?thesis by simp
qed

lemma quiet_timers [quiet_steps]:
  "if_slowtimo e n = Some n' \<Longrightarrow> quiet k n \<Longrightarrow> drivers_quiet e \<Longrightarrow> quiet k n'"
  "ifinit e n = Some n' \<Longrightarrow> quiet k n \<Longrightarrow> drivers_quiet e \<Longrightarrow> quiet k n'"
  unfolding ifinit_def if_slowtimo_def by (auto split: bind_splits elim!: quiet_steps)

lemma quiet_ifconf_addrs [quiet_steps]:
  assumes "ifconf_addrs n b p x a = Some (n', r)" "quiet k n"
  shows "quiet k n'"
proof -
  have "quiet k n \<longrightarrow> quiet k (fst (n', r))"
  proof (rule ifconf_addrs.raw_induct [of "\<lambda>n b p x a r. quiet k n \<longrightarrow> quiet k (fst r)", OF _ assms(1)], goal_cases)
    case 1
    note IH = 1(1) [rule_format]
    show ?case using 1(2) by (auto split: bind_splits if_splits elim!: quiet_steps IH simp: Let_def)
  qed
  with assms show ?thesis by simp
qed

lemma quiet_ifconf_ifs [quiet_steps]:
  assumes "ifconf_ifs n b p x a i = Some n'" "quiet k n"
  shows "quiet k n'"
proof -
  have "quiet k n \<longrightarrow> quiet k n'"
  proof (rule ifconf_ifs.raw_induct [of "\<lambda>n b p x a i r. quiet k n \<longrightarrow> quiet k r", OF _ assms(1)], goal_cases)
    case 1
    note IH = 1(1) [rule_format]
    show ?case using 1(2) by (auto split: bind_splits if_splits elim!: quiet_steps IH simp: Let_def)
  qed
  with assms show ?thesis by simp
qed

lemma quiet_ifconf [quiet_steps]: "ifconf b n d = Some (r, d', n') \<Longrightarrow> quiet k n \<Longrightarrow> quiet k n'"
  unfolding ifconf_def by (auto split: bind_splits elim!: quiet_steps simp: Let_def)

section \<open>Internet addresses\<close>

lemma ifa_shape_in: "ifa_in a \<noteq> None \<Longrightarrow> ifa_shape (a\<lparr>ifa_ifp := p\<rparr>) = ifa_shape a"
  by (auto simp: ifa_shape_def)

lemma quiet_in_ifscrub [quiet_steps]: "in_ifscrub n ifp ia = Some n' \<Longrightarrow> quiet k n \<Longrightarrow> quiet k n'"
  unfolding in_ifscrub_def by (auto split: bind_splits if_splits elim!: quiet_steps simp: rtinit_def)

lemma quiet_IFAFREE [quiet_steps]: "IFAFREE n ia = Some n' \<Longrightarrow> quiet k n \<Longrightarrow> quiet k n'"
  unfolding IFAFREE_def by (auto split: bind_splits if_splits elim!: quiet_steps simp: ifafree_def)

text \<open>The steps of \<open>SIOCAIFADDR\<close>, cut where the state is passed on.\<close>

lemma quiet_in_control_alias [quiet_steps]:
  assumes "in_control_alias d ifp ia n = Some (r, d', n')" "quiet k n"
  shows "quiet k n'"
proof -
  from assms(1) obtain c1 c2 c3 d1 n1 m1 n2 m2 where
    s1: "(if c1
        then do {
          n \<leftarrow> in_ifscrub n ifp ia;
          m \<leftarrow> req_field d1 48 16;
          n \<leftarrow> nwr n (ia_sockmask ia) m;
          s \<leftarrow> sin_s_addr n (ia_sockmask ia);
          n \<leftarrow> updia n ia (\<lambda>p. p\<lparr>ia_subnetmask := ntohl s\<rparr>);
          Some (n, True) }
        else Some (n, False)) = Some (n1, m1)" and
    s2: "(if c2
        then do {
          n \<leftarrow> in_ifscrub n1 ifp ia;
          d \<leftarrow> req_field d1 32 16;
          n \<leftarrow> nwr n (ia_dstaddr ia) d;
          Some (n, True) }
        else Some (n1, m1)) = Some (n2, m2)" and
    s3: "(if c3 then do { d \<leftarrow> req_field d1 32 16; nwr n2 (ia_dstaddr ia) d } else Some n2) = Some n'"
    unfolding in_control_alias_def in_ifinit_def if_distrib [of Pair] Let_def
    by (simp only: bind_eq_Some_conv split_paired_Ex case_prod_conv if_cancel option.inject prod.inject)
      (elim exE conjE, hypsubst, rule that, assumption+)
  have "quiet k n1" using s1 assms(2) by (auto split: bind_splits if_splits elim!: quiet_steps)
  then have "quiet k n2" using s2 by (auto split: bind_splits if_splits elim!: quiet_steps)
  then show ?thesis using s3 by (auto split: bind_splits if_splits elim!: quiet_steps)
qed

lemma quiet_in_control_dst [quiet_steps]:
  "in_control_dst e d ifp ia n = Some (r, d', n') \<Longrightarrow> quiet k n \<Longrightarrow> drivers_quiet e \<Longrightarrow> quiet k n'"
  unfolding in_control_dst_def by (auto split: bind_splits if_splits elim!: quiet_steps simp: rtinit_def)

lemma quiet_put_addr [quiet_steps]: "put_addr p d n = Some (r, d', n') \<Longrightarrow> quiet k n \<Longrightarrow> quiet k n'"
  unfolding put_addr_def by (auto split: bind_splits)

section \<open>Packets\<close>

lemma quiet_loioctl [quiet_steps]: "loioctl ifp c d n = Some (r, d', n') \<Longrightarrow> quiet k n \<Longrightarrow> quiet k n'"
  unfolding loioctl_def by (auto split: bind_splits if_splits elim!: quiet_steps)

lemma quiet_lo_deliver [quiet_steps]: "lo_deliver ifp m dst n = Some (r, n') \<Longrightarrow> quiet k n \<Longrightarrow> quiet k n'"
  unfolding lo_deliver_def
  by (auto split: bind_splits if_splits prod.splits intro!: quiet_mem quiet_wf elim!: quiet_steps wf_steps simp: Let_def)

lemma quiet_looutput [quiet_steps]: "looutput ifp m dst rt n = Some (r, n') \<Longrightarrow> quiet k n \<Longrightarrow> quiet k n'"
  unfolding looutput_def bpf_mtap_def
  by (auto split: bind_splits if_splits option.splits elim!: quiet_steps)

lemma quiet_ether_bad [quiet_steps]: "ether_bad er m n = Some (r, n') \<Longrightarrow> quiet k n \<Longrightarrow> quiet k n'"
  unfolding ether_bad_def by (auto split: bind_splits if_splits elim!: quiet_steps)

lemma quiet_ether_gateway [quiet_steps]: "ether_gateway rt n = Some (r, n') \<Longrightarrow> quiet k n \<Longrightarrow> quiet k n'"
  unfolding ether_gateway_def rtalloc1_def by (auto split: bind_splits elim!: quiet_steps)

lemma quiet_ether_reject [quiet_steps]: "ether_reject rt rt0 n = Some (r, n') \<Longrightarrow> quiet k n \<Longrightarrow> quiet k n'"
  unfolding ether_reject_def by (auto split: bind_splits)

lemma quiet_ether_route [quiet_steps]: "ether_route dst rt0 n = Some (r, n') \<Longrightarrow> quiet k n \<Longrightarrow> quiet k n'"
  unfolding ether_route_def rtalloc1_def rtfree_def
  by (auto split: bind_splits if_splits sum.splits elim!: quiet_steps)

lemma quiet_ether_send [quiet_steps]:
  assumes "ether_send e ifp m0 len edst type n = Some (r, n')" "quiet k n" "drivers_quiet e"
  shows "quiet k n'"
  using assms unfolding ether_send_def
  by (auto split: bind_splits if_splits prod.splits intro!: quiet_mem quiet_wf elim!: quiet_steps wf_steps simp: Let_def)

lemma quiet_ether_output [quiet_steps]:
  assumes "ether_output e junk ifp m0 dst rt0 n = Some (r, n')" "quiet k n" "drivers_quiet e"
  shows "quiet k n'"
  using assms unfolding ether_output_def arpresolve_def
  by (auto split: bind_splits if_splits sum.splits elim!: quiet_steps simp: Let_def)

lemma quiet_IFQ_in [quiet_steps]: "IFQ_in n q m = Some (q', n') \<Longrightarrow> quiet k n \<Longrightarrow> quiet k n'"
  unfolding IFQ_in_def
  by (auto split: bind_splits if_splits prod.splits intro!: quiet_mem quiet_wf elim!: quiet_steps wf_steps)

lemma quiet_ether_input [quiet_steps]:
  assumes "ether_input ifp eh m n = Some n'" "quiet k n"
  shows "quiet k n'"
  using assms unfolding ether_input_def
  by (auto split: bind_splits if_splits elim!: quiet_steps simp: Let_def)

end
