(* ===== verification/QuietDev.thy ===== *)
theory QuietDev
  imports Quiet Slip Le
begin

text \<open>
  The drivers are quiet (theory \<open>Quiet\<close>): the serial line interfaces with their terminals and buffers,
  and the LANCE, except where they attach an interface.  The state of a driver is looked at through the
  network state in it.
\<close>

section \<open>Serial line interfaces\<close>

lemma quiet_onnet [quiet_steps]:
  "onnet s f = Some s' \<Longrightarrow> quiet k (s_net s) \<Longrightarrow> (\<And>n n'. f n = Some n' \<Longrightarrow> quiet k n \<Longrightarrow> quiet k n') \<Longrightarrow> quiet k (s_net s')"
  by (auto simp: onnet_def split: option.splits)

lemma quiet_upd_slip [quiet_steps]:
  "updsc s p f = Some s' \<Longrightarrow> quiet k (s_net s) \<Longrightarrow> quiet k (s_net s')"
  "updtty s p g = Some s' \<Longrightarrow> quiet k (s_net s) \<Longrightarrow> quiet k (s_net s')"
  "sl_count s p h = Some s' \<Longrightarrow> quiet k (s_net s) \<Longrightarrow> quiet k (s_net s')"
  unfolding updsc_def updtty_def sl_count_def
  by (auto split: option.splits elim!: quiet_steps)

lemma quiet_slinit [quiet_steps]: "slinit s p = Some (r, s') \<Longrightarrow> quiet k (s_net s) \<Longrightarrow> quiet k (s_net s')"
  unfolding slinit_def sl_compress_init_def
  by (auto split: bind_splits if_splits prod.splits elim!: quiet_steps intro!: quiet_mem quiet_wf dest: wf_malloc_buf)

lemma quiet_slopen_loop [quiet_steps]:
  "slopen_loop r s i tp = Some (x, s') \<Longrightarrow> quiet k (s_net s) \<Longrightarrow> quiet k (s_net s')"
  by (induction r arbitrary: s i) (auto split: bind_splits if_splits elim!: quiet_steps)

lemma quiet_slopen [quiet_steps]: "slopen s dev tp = Some (x, s') \<Longrightarrow> quiet k (s_net s) \<Longrightarrow> quiet k (s_net s')"
  unfolding slopen_def by (auto split: bind_splits if_splits elim!: quiet_steps)

lemma quiet_MCLFREE [quiet_steps]: "MCLFREE s p = Some s' \<Longrightarrow> quiet k (s_net s) \<Longrightarrow> quiet k (s_net s')"
  unfolding MCLFREE_def by (auto split: bind_splits if_splits elim!: quiet_steps simp: Let_def)

lemma quiet_slclose [quiet_steps]:
  "slclose e s tp = Some s' \<Longrightarrow> quiet k (s_net s) \<Longrightarrow> drivers_quiet e \<Longrightarrow> quiet k (s_net s')"
  unfolding slclose_def by (auto split: bind_splits if_splits elim!: quiet_steps simp: Let_def)

text \<open>Input.\<close>

lemma wf_sl_btom [wf_steps]: "sl_btom c len h = Some (m, h') \<Longrightarrow> wf_from k h \<Longrightarrow> wf_from k h'"
  unfolding sl_btom_def by (auto split: bind_splits if_splits prod.splits elim!: wf_steps simp: Let_def)

lemma quiet_sl_deliver [quiet_steps]:
  "sl_deliver s p ch len = Some (x, s') \<Longrightarrow> quiet k (s_net s) \<Longrightarrow> quiet k (s_net s')"
  unfolding sl_deliver_def
  by (auto split: bind_splits if_splits prod.splits intro!: quiet_mem quiet_wf elim!: quiet_steps wf_steps simp: Let_def)

lemma quiet_sl_input_parts [quiet_steps]:
  "sl_newpack s p = Some s' \<Longrightarrow> quiet k (s_net s) \<Longrightarrow> quiet k (s_net s')"
  "sl_error s p = Some s' \<Longrightarrow> quiet k (s_net s) \<Longrightarrow> quiet k (s_net s')"
  "sl_tap_in s p chdr len = Some s' \<Longrightarrow> quiet k (s_net s) \<Longrightarrow> quiet k (s_net s')"
  "sl_expand s p ch b len = Some (x, s') \<Longrightarrow> quiet k (s_net s) \<Longrightarrow> quiet k (s_net s')"
  "sl_store s p ch = Some s' \<Longrightarrow> quiet k (s_net s) \<Longrightarrow> quiet k (s_net s')"
  unfolding sl_newpack_def sl_error_def sl_tap_in_def sl_expand_def sl_store_def bpf_tap_def sl_uncompress_tcp_def
  by (auto split: bind_splits if_splits elim!: quiet_steps simp: Let_def)

lemma quiet_sl_frame_end [quiet_steps]: "sl_frame_end s p = Some (x, s') \<Longrightarrow> quiet k (s_net s) \<Longrightarrow> quiet k (s_net s')"
  unfolding sl_frame_end_def by (auto split: bind_splits if_splits option.splits elim!: quiet_steps simp: Let_def)

lemma quiet_slinput [quiet_steps]: "slinput ch tp s = Some s' \<Longrightarrow> quiet k (s_net s) \<Longrightarrow> quiet k (s_net s')"
  unfolding slinput_def sl_switch_def
  by (auto split: bind_splits if_splits sl_next.splits elim!: quiet_steps simp: Let_def)

text \<open>Output.\<close>

lemma quiet_sl_output_parts [quiet_steps]:
  "sl_dequeue s p = Some (m, s') \<Longrightarrow> quiet k (s_net s) \<Longrightarrow> quiet k (s_net s')"
  "sl_tap_out s p m = Some s' \<Longrightarrow> quiet k (s_net s) \<Longrightarrow> quiet k (s_net s')"
  "sl_squeeze s p m = Some s' \<Longrightarrow> quiet k (s_net s) \<Longrightarrow> quiet k (s_net s')"
  "sl_putc s tp c = Some (r, s') \<Longrightarrow> quiet k (s_net s) \<Longrightarrow> quiet k (s_net s')"
  unfolding sl_dequeue_def sl_tap_out_def sl_squeeze_def sl_putc_def bpf_tap_def
  by (auto split: bind_splits if_splits prod.splits elim!: quiet_steps simp: Let_def)

lemma quiet_sl_chars [quiet_steps]:
  assumes "sl_chars s p tp cp xs = Some s'" "quiet k (s_net s)"
  shows "quiet k (s_net s')"
proof -
  have "quiet k (s_net s) \<longrightarrow> quiet k (s_net s')"
  proof (rule sl_chars.raw_induct [of "\<lambda>s p tp cp xs r. quiet k (s_net s) \<longrightarrow> quiet k (s_net r)", OF _ assms(1)], goal_cases)
    case 1
    note IH = 1(1) [rule_format]
    show ?case using 1(2) by (auto split: bind_splits if_splits elim!: quiet_steps IH simp: Let_def)
  qed
  with assms show ?thesis by simp
qed

lemma quiet_sl_packet [quiet_steps]:
  assumes "sl_packet s p tp m = Some s'" "quiet k (s_net s)"
  shows "quiet k (s_net s')"
proof -
  have "quiet k (s_net s) \<longrightarrow> quiet k (s_net s')"
  proof (rule sl_packet.raw_induct [of "\<lambda>s p tp m r. quiet k (s_net s) \<longrightarrow> quiet k (s_net r)", OF _ assms(1)], goal_cases)
    case 1
    note IH = 1(1) [rule_format]
    show ?case using 1(2)
      by (auto split: bind_splits if_splits intro!: quiet_mem quiet_wf elim!: quiet_steps wf_steps IH)
  qed
  with assms show ?thesis by simp
qed

lemma quiet_sl_frame [quiet_steps]: "sl_frame s p tp m = Some s' \<Longrightarrow> quiet k (s_net s) \<Longrightarrow> quiet k (s_net s')"
  unfolding sl_frame_def by (auto split: bind_splits if_splits elim!: quiet_steps)

lemma quiet_sl_send [quiet_steps]: "sl_send s p tp m = Some s' \<Longrightarrow> quiet k (s_net s) \<Longrightarrow> quiet k (s_net s')"
  unfolding sl_send_def by (auto split: bind_splits if_splits elim!: quiet_steps)

text \<open>The output procedures of the terminal drivers do not touch the network.\<close>

definition oproc_quiet :: "oproc \<Rightarrow> bool" where
  "oproc_quiet oproc \<longleftrightarrow> (\<forall>f tp s s'. oproc f tp s = Some s' \<longrightarrow> s_net s' = s_net s)"

lemma quiet_slstart_loop [quiet_steps]:
  assumes "slstart_loop oproc p tp s = Some s'" "quiet k (s_net s)" "oproc_quiet oproc"
  shows "quiet k (s_net s')"
proof -
  have "quiet k (s_net s) \<longrightarrow> oproc_quiet oproc \<longrightarrow> quiet k (s_net s')"
  proof (rule slstart_loop.raw_induct [of "\<lambda>oproc p tp s r. quiet k (s_net s) \<longrightarrow> oproc_quiet oproc \<longrightarrow> quiet k (s_net r)",
        OF _ assms(1)], goal_cases)
    case 1
    note IH = 1(1) [rule_format]
    show ?case using 1(2)
      by (auto split: bind_splits if_splits elim!: quiet_steps IH) (auto simp: oproc_quiet_def elim!: quiet_steps IH)
  qed
  with assms show ?thesis by simp
qed

lemma quiet_slstart [quiet_steps]:
  "slstart oproc tp s = Some s' \<Longrightarrow> quiet k (s_net s) \<Longrightarrow> oproc_quiet oproc \<Longrightarrow> quiet k (s_net s')"
  unfolding slstart_def by (auto split: bind_splits elim!: quiet_steps)

lemma quiet_sl_enqueue [quiet_steps]:
  "sl_enqueue oproc ifp p m fast s = Some (r, s') \<Longrightarrow> quiet k (s_net s) \<Longrightarrow> oproc_quiet oproc \<Longrightarrow> quiet k (s_net s')"
  unfolding sl_enqueue_def
  by (auto split: bind_splits if_splits prod.splits intro!: quiet_mem quiet_wf elim!: quiet_steps wf_steps simp: Let_def)

lemma quiet_sloutput [quiet_steps]:
  "sloutput oproc ifp m dst rt s = Some (r, s') \<Longrightarrow> quiet k (s_net s) \<Longrightarrow> oproc_quiet oproc \<Longrightarrow> quiet k (s_net s')"
  unfolding sloutput_def by (auto split: bind_splits if_splits elim!: quiet_steps)

lemma quiet_slioctl [quiet_steps]: "slioctl ifp c d n = Some (r, d', n') \<Longrightarrow> quiet k n \<Longrightarrow> quiet k n'"
  unfolding slioctl_def by (auto split: bind_splits if_splits elim!: quiet_steps)

section \<open>LANCE\<close>

lemma quiet_le_net [quiet_steps]:
  "le_net s f = Some s' \<Longrightarrow> quiet k (l_net s) \<Longrightarrow> (\<And>n n'. f n = Some n' \<Longrightarrow> quiet k n \<Longrightarrow> quiet k n') \<Longrightarrow> quiet k (l_net s')"
  by (auto simp: le_net_def split: option.splits)

lemma quiet_upd_le [quiet_steps]: "upd_le s p f = Some s' \<Longrightarrow> quiet k (l_net s) \<Longrightarrow> quiet k (l_net s')"
  by (auto simp: upd_le_def split: option.splits)

lemma quiet_as_mbuf_flag [quiet_steps]: "as_mbuf_flag n p f = Some n' \<Longrightarrow> quiet k n \<Longrightarrow> quiet k n'"
  unfolding as_mbuf_flag_def by (auto split: bind_splits elim!: quiet_steps)

lemma quiet_leread [quiet_steps]: "leread s u buf len = Some s' \<Longrightarrow> quiet k (l_net s) \<Longrightarrow> quiet k (l_net s')"
  unfolding leread_def
  by (auto split: bind_splits if_splits prod.splits intro!: quiet_mem quiet_wf elim!: quiet_steps wf_steps simp: Let_def)

lemma quiet_lestart_loop [quiet_steps]:
  assumes "lestart_loop ifp p s = Some (r, s')" "quiet k (l_net s)"
  shows "quiet k (l_net s')"
proof -
  have "quiet k (l_net s) \<longrightarrow> quiet k (l_net (snd (r, s')))"
  proof (rule lestart_loop.raw_induct [of "\<lambda>ifp p s r. quiet k (l_net s) \<longrightarrow> quiet k (l_net (snd r))", OF _ assms(1)], goal_cases)
    case 1
    note IH = 1(1) [rule_format]
    show ?case using 1(2)
      by (auto split: bind_splits if_splits elim!: quiet_steps IH simp: Let_def leput_def bpf_tap_def)
  qed
  with assms show ?thesis by simp
qed

lemma quiet_lestart [quiet_steps]: "lestart ifp s = Some (r, s') \<Longrightarrow> quiet k (l_net s) \<Longrightarrow> quiet k (l_net s')"
  unfolding lestart_def by (auto split: bind_splits if_splits elim!: quiet_steps)

lemma quiet_leioctl_flags [quiet_steps]:
  "leioctl_flags ifp p d s = Some (r, d', s') \<Longrightarrow> quiet k (l_net s) \<Longrightarrow> quiet k (l_net s')"
  unfolding leioctl_flags_def leinit_def lereset_def
  by (auto split: bind_splits if_splits elim!: quiet_steps simp: Let_def)

lemma quiet_leioctl [quiet_steps]: "leioctl ifp c d s = Some (r, d', s') \<Longrightarrow> quiet k (l_net s) \<Longrightarrow> quiet k (l_net s')"
  unfolding leioctl_def leinit_def by (auto split: bind_splits if_splits elim!: quiet_steps simp: Let_def)

end
