(* ===== verification/NetInv.thy ===== *)
theory NetInv
  imports QuietDev InProps
begin

text \<open>
  The invariant of the network state: all lists end, all heads point to objects, and the interface
  list, the interface indices and the table of link-level addresses agree.  Quiet operations (theory
  \<open>Quiet\<close>) keep it, and so do the elementary changes of a link or of a head.
\<close>

section \<open>Lists that end\<close>

definition ended :: "(addr \<Rightarrow> addr option) \<Rightarrow> bool" where
  "ended nxt \<longleftrightarrow> (\<forall>p q. nxt p = Some q \<longrightarrow> (\<exists>as. chain nxt p as))"

lemma ended_chain: "ended nxt \<Longrightarrow> p = 0 \<or> nxt p \<noteq> None \<Longrightarrow> \<exists>as. chain nxt p as"
  unfolding ended_def by (metis chain.simps(1) not_None_eq)

text \<open>Redirecting a link to a list that does not come back.\<close>

lemma ended_upd:
  assumes "ended nxt" "p \<noteq> 0" "chain nxt q as" "p \<notin> set as"
  shows "ended (nxt(p \<mapsto> q))"
  unfolding ended_def
proof (intro allI impI)
  fix x y assume "(nxt(p \<mapsto> q)) x = Some y"
  have tl: "chain (nxt(p \<mapsto> q)) q as" using assms(3,4) by (subst chain_cong [of _ _ nxt]) auto
  then have self: "chain (nxt(p \<mapsto> q)) p (p # as)" using assms(2) by (simp add: chain.simps)
  show "\<exists>bs. chain (nxt(p \<mapsto> q)) x bs"
  proof (cases "x = p")
    case True
    with self show ?thesis by blast
  next
    case False
    then obtain bs where bs: "chain nxt x bs"
      using assms(1) \<open>(nxt(p \<mapsto> q)) x = Some y\<close> by (auto simp: ended_def)
    show ?thesis
    proof (cases "p \<in> set bs")
      case True
      then obtain us vs where us: "bs = us @ p # vs" "p \<notin> set us" by (meson split_list_first)
      then have "path nxt x us p" using bs by (auto simp: chain_append chain.simps split: option.splits)
      then have "chain (nxt(p \<mapsto> q)) x (us @ p # as)" using assms us(2) by (intro chain_snoc_upd) auto
      then show ?thesis by blast
    next
      case False
      then have "chain (nxt(p \<mapsto> q)) x bs" using bs by (subst chain_cong [of _ _ nxt]) auto
      then show ?thesis by blast
    qed
  qed
qed

lemma ended_next: "ended nxt \<Longrightarrow> nxt p = Some q \<Longrightarrow> p \<noteq> 0 \<Longrightarrow> \<exists>as. chain nxt q as \<and> p \<notin> set as"
proof -
  assume e: "ended nxt" and n: "nxt p = Some q" "p \<noteq> 0"
  then obtain bs where "chain nxt p bs" by (auto simp: ended_def)
  with n obtain as where "chain nxt p (p # as)" "chain nxt q as" by (auto simp: chain_Cons_iff)
  then show ?thesis using chain_notin_tl by blast
qed

section \<open>The invariant\<close>

text \<open>Entry \<open>k\<close> of the table: a link-level address of interface \<open>k\<close>, which knows its index.\<close>

definition link_entry :: "net \<Rightarrow> addr list \<Rightarrow> addr list \<Rightarrow> nat \<Rightarrow> bool" where
  "link_entry n ifs tab k \<longleftrightarrow> (\<exists>i a. ldif n (ifs ! k) = Some i \<and> if_index i = word_of_nat (Suc k) \<and>
     ldifa n (tab ! k) = Some a \<and> ifa_in a = None \<and> ifa_ifp a = ifs ! k)"

definition lists_end :: "net \<Rightarrow> bool" where
  "lists_end n \<longleftrightarrow> ended (if_next_of n) \<and> ended (ifa_next_of n) \<and> ended (ia_next_of n) \<and>
     (\<forall>p i. ldif n p = Some i \<longrightarrow> if_addrlist i = 0 \<or> ldifa n (if_addrlist i) \<noteq> None) \<and>
     (g_in_ifaddr n = 0 \<or> ldia n (g_in_ifaddr n) \<noteq> None)"

text \<open>The first \<open>k\<close> interfaces of the list are entered.\<close>

definition entered :: "net \<Rightarrow> addr list \<Rightarrow> nat \<Rightarrow> bool" where
  "entered n ifs k \<longleftrightarrow> chain (if_next_of n) (g_ifnet n) ifs \<and> k \<le> length ifs \<and> g_if_index n = int k \<and>
     8 \<le> g_if_indexlim n \<and> int k \<le> g_if_indexlim n \<and>
     (case g_ifnet_addrs n of None \<Rightarrow> k = 0
      | Some tab \<Rightarrow> length tab = nat (g_if_indexlim n) \<and> (\<forall>j<k. link_entry n ifs tab j))"

definition mem_ok :: "net \<Rightarrow> bool" where
  "mem_ok n \<longleftrightarrow> wf_mem (n_mem n) \<and> (\<forall>p a. ldifa n p = Some a \<longrightarrow> p div 4096 < mm_next (n_mem n))"

definition net_ok :: "net \<Rightarrow> bool" where
  "net_ok n \<longleftrightarrow> mem_ok n \<and> lists_end n \<and> (\<exists>ifs. entered n ifs (length ifs))"

section \<open>Quiet operations\<close>

text \<open>What the invariant looks at can be read off the shape.\<close>

lemma nexts_shape:
  "if_next_of n p = map_option fst (fst (shape n) p)"
  "ifa_next_of n p = map_option fst (fst (snd (shape n)) p)"
  "ia_next_of n p = fst (snd (shape n)) p \<bind> (\<lambda>a. fst (snd a))"
  by (simp_all add: if_next_of_def ifa_next_of_def ia_next_of_def ldia_def shape_def if_shape_def ifa_shape_def
      option.map_comp comp_def split: option.splits)

lemma shape_sel:
  assumes "shape n = shape k"
  shows "if_next_of n = if_next_of k" "ifa_next_of n = ifa_next_of k" "ia_next_of n = ia_next_of k"
    "map_option if_shape (ldif n p) = map_option if_shape (ldif k p)"
    "map_option ifa_shape (ldifa n p) = map_option ifa_shape (ldifa k p)"
    "g_ifnet n = g_ifnet k" "g_if_index n = g_if_index k" "g_if_indexlim n = g_if_indexlim k"
    "g_ifnet_addrs n = g_ifnet_addrs k" "g_in_ifaddr n = g_in_ifaddr k"
  using assms by (auto simp: fun_eq_iff nexts_shape) (simp_all add: shape_def fun_eq_iff)

lemma shape_live: "shape n = shape k \<Longrightarrow> (ldifa n p = None) = (ldifa k p = None)" "shape n = shape k \<Longrightarrow> (ldia n p = None) = (ldia k p = None)"
  using shape_sel(5) [of n k p] shape_sel(3) [of n k] by (auto simp: ia_next_of_def fun_eq_iff) (metis option.map_disc_iff)+

lemma shape_if: "shape n = shape k \<Longrightarrow> ldif n p = Some i \<Longrightarrow> \<exists>j. ldif k p = Some j \<and> if_shape i = if_shape j"
  using shape_sel(4) [of n k p] by (auto simp: map_option_case split: option.splits)

lemma shape_ifa: "shape n = shape k \<Longrightarrow> ldifa n p = Some i \<Longrightarrow> \<exists>j. ldifa k p = Some j \<and> ifa_shape i = ifa_shape j"
  using shape_sel(5) [of n k p] by (auto simp: map_option_case split: option.splits)

lemma link_entry_shape:
  assumes eq: "shape n = shape k" and k: "link_entry k ifs tab j"
  shows "link_entry n ifs tab j"
proof -
  obtain i a where "ldif k (ifs ! j) = Some i" "if_index i = word_of_nat (Suc j)" "ldifa k (tab ! j) = Some a"
    "ifa_in a = None" "ifa_ifp a = ifs ! j"
    using k unfolding link_entry_def by blast
  moreover from this obtain i' a' where "ldif n (ifs ! j) = Some i'" "if_shape i = if_shape i'"
    "ldifa n (tab ! j) = Some a'" "ifa_shape a = ifa_shape a'"
    using shape_if [OF eq [symmetric]] shape_ifa [OF eq [symmetric]] by blast
  ultimately show ?thesis unfolding link_entry_def
    by (intro exI [of _ i'] exI [of _ a']) (auto simp: if_shape_def ifa_shape_def split: if_splits)
qed

lemma lists_end_shape:
  assumes eq: "shape n = shape k" and k: "lists_end k"
  shows "lists_end n"
  unfolding lists_end_def shape_sel [OF eq] shape_live [OF eq]
  using k shape_if [OF eq] by (fastforce simp: lists_end_def if_shape_def)

lemma entered_shape:
  assumes eq: "shape n = shape k" and k: "entered k ifs j"
  shows "entered n ifs j"
  unfolding entered_def shape_sel [OF eq]
  using k link_entry_shape [OF eq] by (auto simp: entered_def split: option.splits)

lemma mem_ok_quiet: "quiet k n \<Longrightarrow> mem_ok k \<Longrightarrow> mem_ok n"
  by (fastforce simp: quiet_def mem_ok_def wf_from_def dest!: shape_ifa)

text \<open>Every quiet operation keeps the invariant.\<close>

lemma net_ok_quiet: "quiet k n \<Longrightarrow> net_ok k \<Longrightarrow> net_ok n"
  using mem_ok_quiet lists_end_shape entered_shape unfolding net_ok_def quiet_def by metis

lemma net_ok_self: "net_ok n \<Longrightarrow> quiet n n"
  by (simp add: net_ok_def mem_ok_def quiet_refl)

section \<open>Linking and unlinking\<close>

definition net_at :: "net \<Rightarrow> addr list \<Rightarrow> nat \<Rightarrow> bool" where
  "net_at n ifs k \<longleftrightarrow> mem_ok n \<and> lists_end n \<and> entered n ifs k"

lemma net_ok_at: "net_ok n \<longleftrightarrow> (\<exists>ifs. net_at n ifs (length ifs))"
  by (auto simp: net_ok_def net_at_def)

lemma net_at_quiet: "quiet k n \<Longrightarrow> net_at k ifs j \<Longrightarrow> net_at n ifs j"
  unfolding net_at_def quiet_def using lists_end_shape entered_shape mem_ok_quiet [unfolded quiet_def] by blast

text \<open>The table only depends on the indices of interfaces and on the link-level addresses.\<close>

lemma entered_chain:
  assumes "entered n ifs k" "chain (if_next_of n') (g_ifnet n') ifs" "g_if_index n' = g_if_index n"
    "g_if_indexlim n' = g_if_indexlim n" "g_ifnet_addrs n' = g_ifnet_addrs n"
    and i: "\<And>p i. ldif n p = Some i \<Longrightarrow> \<exists>i'. ldif n' p = Some i' \<and> if_index i' = if_index i"
    and a: "\<And>p a. ldifa n p = Some a \<Longrightarrow> ifa_in a = None \<Longrightarrow>
      \<exists>a'. ldifa n' p = Some a' \<and> ifa_in a' = None \<and> ifa_ifp a' = ifa_ifp a"
  shows "entered n' ifs k"
proof -
  have "link_entry n' ifs tab j" if l: "link_entry n ifs tab j" for tab j
  proof -
    obtain x y where xy: "ldif n (ifs ! j) = Some x" "if_index x = word_of_nat (Suc j)" "ldifa n (tab ! j) = Some y"
      "ifa_in y = None" "ifa_ifp y = ifs ! j"
      using l unfolding link_entry_def by blast
    from i [OF xy(1)] a [OF xy(3,4)] xy(2,5) show ?thesis unfolding link_entry_def by auto
  qed
  with assms(1-5) show ?thesis by (auto simp: entered_def split: option.splits)
qed

lemma entered_cong:
  assumes "entered n ifs k" "if_next_of n' = if_next_of n" "g_ifnet n' = g_ifnet n" "g_if_index n' = g_if_index n"
    "g_if_indexlim n' = g_if_indexlim n" "g_ifnet_addrs n' = g_ifnet_addrs n"
    and "\<And>p i. ldif n p = Some i \<Longrightarrow> \<exists>i'. ldif n' p = Some i' \<and> if_index i' = if_index i"
    and "\<And>p a. ldifa n p = Some a \<Longrightarrow> ifa_in a = None \<Longrightarrow>
      \<exists>a'. ldifa n' p = Some a' \<and> ifa_in a' = None \<and> ifa_ifp a' = ifa_ifp a"
  shows "entered n' ifs k"
proof (rule entered_chain [OF assms(1) _ assms(4-8)])
  show "chain (if_next_of n') (g_ifnet n') ifs" using assms(1-3) by (simp add: entered_def)
qed

lemma updif_SomeE:
  assumes "updif n p f = Some n'"
  obtains i where "ldif n p = Some i" "p \<noteq> 0" "n' = n\<lparr>n_if := (n_if n)(p \<mapsto> f i)\<rparr>"
  using assms by (auto simp: updif_def dest: ldif_nz split: option.splits)

lemma updifa_SomeE:
  assumes "updifa n p f = Some n'"
  obtains a where "ldifa n p = Some a" "p \<noteq> 0" "n' = n\<lparr>n_ifa := (n_ifa n)(p \<mapsto> f a)\<rparr>"
  using assms by (auto simp: updifa_def dest: ldifa_nz split: option.splits)

text \<open>The next interface address of an address, set to a list that does not come back to it.\<close>

lemma relink_ifa:
  assumes "updifa n p (\<lambda>a. a\<lparr>ifa_next := q\<rparr>) = Some n'" "net_at n ifs k" "chain (ifa_next_of n) q as" "p \<notin> set as"
  shows "net_at n' ifs k \<and> ia_next_of n' = ia_next_of n \<and> ldif n' = ldif n \<and> g_in_ifaddr n' = g_in_ifaddr n"
proof -
  obtain a where a: "ldifa n p = Some a" "p \<noteq> 0" and n': "n' = n\<lparr>n_ifa := (n_ifa n)(p \<mapsto> a\<lparr>ifa_next := q\<rparr>)\<rparr>"
    using assms(1) by (rule updifa_SomeE)
  have ld: "ldifa n' r = (if r = p then Some (a\<lparr>ifa_next := q\<rparr>) else ldifa n r)" for r using a(2) by (simp add: n')
  have lf: "ldif n' = ldif n" by (simp add: n' fun_eq_iff)
  have ia: "ia_next_of n' = ia_next_of n" using a(1) by (simp add: fun_eq_iff ia_next_of_def ldia_def ld)
  have nif: "if_next_of n' = if_next_of n" by (simp add: fun_eq_iff if_next_of_def lf)
  have nxt: "ifa_next_of n' = (ifa_next_of n)(p \<mapsto> q)" by (simp add: fun_eq_iff ifa_next_of_def ld)
  have g: "g_in_ifaddr n' = g_in_ifaddr n" by (simp add: n')
  have live: "(ldifa n' r = None) = (ldifa n r = None)" "(ldia n' r = None) = (ldia n r = None)" for r
    using a(1) by (simp_all add: ldia_def ld)
  have "lists_end n'"
    unfolding lists_end_def nif ia nxt lf live g
    using assms(2-4) ended_upd [OF _ a(2) assms(3,4)] by (auto simp: net_at_def lists_end_def)
  moreover have "entered n' ifs k"
    by (rule entered_cong [of n]) (use assms(2) nif lf a(1) in \<open>auto simp: n' net_at_def\<close>)
  moreover have "mem_ok n'" using assms(2) a(1) by (auto simp: net_at_def mem_ok_def ld) (simp_all add: n')
  ultimately show ?thesis using ia lf g by (simp add: net_at_def)
qed

text \<open>The next internet address likewise.\<close>

lemma relink_ia:
  assumes "updia n p (\<lambda>x. x\<lparr>ia_next := q\<rparr>) = Some n'" "net_at n ifs k" "chain (ia_next_of n) q as" "p \<notin> set as"
  shows "net_at n' ifs k \<and> ifa_next_of n' = ifa_next_of n \<and> ldif n' = ldif n \<and> (\<forall>r. (ldia n' r = None) = (ldia n r = None))"
proof -
  obtain x where x: "ldia n p = Some x" and u: "updifa n p (\<lambda>a. a\<lparr>ifa_in := Some (x\<lparr>ia_next := q\<rparr>)\<rparr>) = Some n'"
    using assms(1) unfolding updia_def by (auto split: bind_splits)
  obtain a where a: "ldifa n p = Some a" "p \<noteq> 0"
    and n': "n' = n\<lparr>n_ifa := (n_ifa n)(p \<mapsto> a\<lparr>ifa_in := Some (x\<lparr>ia_next := q\<rparr>)\<rparr>)\<rparr>"
    using u by (rule updifa_SomeE)
  have ax: "ifa_in a = Some x" using x a(1) by (simp add: ldia_def)
  have ld: "ldifa n' r = (if r = p then Some (a\<lparr>ifa_in := Some (x\<lparr>ia_next := q\<rparr>)\<rparr>) else ldifa n r)" for r
    using a(2) by (simp add: n')
  have lf: "ldif n' = ldif n" by (simp add: n' fun_eq_iff)
  have ifa: "ifa_next_of n' = ifa_next_of n" using a(1) by (simp add: fun_eq_iff ifa_next_of_def ld)
  have nif: "if_next_of n' = if_next_of n" by (simp add: fun_eq_iff if_next_of_def lf)
  have nxt: "ia_next_of n' = (ia_next_of n)(p \<mapsto> q)" by (simp add: fun_eq_iff ia_next_of_def ldia_def ld)
  have g: "g_in_ifaddr n' = g_in_ifaddr n" by (simp add: n')
  have live: "(ldifa n' r = None) = (ldifa n r = None)" "(ldia n' r = None) = (ldia n r = None)" for r
    using a(1) x by (simp_all add: ldia_def ld)
  have "lists_end n'"
    unfolding lists_end_def nif ifa nxt lf live g
    using assms(2-4) ended_upd [OF _ a(2) assms(3,4)] by (auto simp: net_at_def lists_end_def)
  moreover have "entered n' ifs k"
    by (rule entered_cong [of n]) (use assms(2) nif lf a(1) ax in \<open>auto simp: n' net_at_def\<close>)
  moreover have "mem_ok n'" using assms(2) a(1) by (auto simp: net_at_def mem_ok_def ld) (simp_all add: n')
  ultimately show ?thesis using ifa lf live by (simp add: net_at_def)
qed

text \<open>Skipping the successor of an address leads to a list that does not come back.\<close>

lemma ended_skip:
  assumes "ended nxt" "nxt p = Some q" "p \<noteq> 0" "q \<noteq> 0" "nxt q = Some r"
  shows "\<exists>as. chain nxt r as \<and> p \<notin> set as"
proof -
  obtain as where "chain nxt q as" "p \<notin> set as" using ended_next [OF assms(1-3)] by blast
  moreover from this(1) assms(4,5) obtain bs where "as = q # bs" "chain nxt r bs" by (auto simp: chain_Cons_iff)
  ultimately show ?thesis by auto
qed

definition skips_ifa :: "net \<Rightarrow> addr \<Rightarrow> net \<Rightarrow> bool" where
  "skips_ifa n ia n' \<longleftrightarrow> (\<exists>q x. ifa_next_of n q = Some ia \<and> ia \<noteq> 0 \<and> ldifa n ia = Some x \<and>
    updifa n q (\<lambda>a. a\<lparr>ifa_next := ifa_next x\<rparr>) = Some n')"

definition skips_ia :: "net \<Rightarrow> addr \<Rightarrow> net \<Rightarrow> bool" where
  "skips_ia n oia n' \<longleftrightarrow> (\<exists>q x. ia_next_of n q = Some oia \<and> oia \<noteq> 0 \<and> ldia n oia = Some x \<and>
    updia n q (\<lambda>p. p\<lparr>ia_next := ia_next x\<rparr>) = Some n')"

lemma unlink_ifa_cases:
  assumes "unlink_ifa n ia p = Some n'"
  shows "n' = n \<or> skips_ifa n ia n'"
proof (rule unlink_ifa.raw_induct [of "\<lambda>n ia p n'. n' = n \<or> skips_ifa n ia n'", OF _ assms], goal_cases)
  case 1
  note IH = 1(1)
  have "skips_ifa n ia n'" if "ldifa n q = Some a" "ifa_next a = ia" "ia \<noteq> 0" "ldifa n ia = Some x"
    "updifa n q (\<lambda>a. a\<lparr>ifa_next := ifa_next x\<rparr>) = Some n'" for n ia q a x n'
    using that unfolding skips_ifa_def ifa_next_of_def by (intro exI [of _ q] exI [of _ x]) simp
  then show ?case using 1(2) by (auto split: bind_splits if_splits dest: IH)
qed

lemma unlink_ia_cases:
  assumes "unlink_ia n oia p = Some n'"
  shows "n' = n \<or> skips_ia n oia n'"
proof (rule unlink_ia.raw_induct [of "\<lambda>n oia p n'. n' = n \<or> skips_ia n oia n'", OF _ assms], goal_cases)
  case 1
  note IH = 1(1)
  have "skips_ia n oia n'" if "ldia n q = Some a" "ia_next a = oia" "oia \<noteq> 0" "ldia n oia = Some x"
    "updia n q (\<lambda>p. p\<lparr>ia_next := ia_next x\<rparr>) = Some n'" for n oia q a x n'
    using that unfolding skips_ia_def ia_next_of_def by (intro exI [of _ q] exI [of _ x]) simp
  then show ?case using 1(2) by (auto split: bind_splits if_splits dest: IH)
qed

lemma unlink_ifa_ok:
  assumes "unlink_ifa n ia p = Some n'" "net_at n ifs k"
  shows "net_at n' ifs k"
  using unlink_ifa_cases [OF assms(1)] unfolding skips_ifa_def
proof (elim disjE exE conjE)
  fix q x assume q: "ifa_next_of n q = Some ia" "ia \<noteq> 0" "ldifa n ia = Some x"
    and u: "updifa n q (\<lambda>a. a\<lparr>ifa_next := ifa_next x\<rparr>) = Some n'"
  have "q \<noteq> 0" using u by (rule updifa_SomeE)
  then obtain as where "chain (ifa_next_of n) (ifa_next x) as" "q \<notin> set as"
    using ended_skip [OF _ q(1) _ q(2) ifa_next_of_Some [OF q(3)]] assms(2) by (auto simp: net_at_def lists_end_def)
  then show ?thesis using relink_ifa [OF u assms(2)] by blast
qed (use assms(2) in simp)

lemma unlink_ia_ok:
  assumes "unlink_ia n oia p = Some n'" "net_at n ifs k"
  shows "net_at n' ifs k"
  using unlink_ia_cases [OF assms(1)] unfolding skips_ia_def
proof (elim disjE exE conjE)
  fix q x assume q: "ia_next_of n q = Some oia" "oia \<noteq> 0" "ldia n oia = Some x"
    and u: "updia n q (\<lambda>p. p\<lparr>ia_next := ia_next x\<rparr>) = Some n'"
  have "q \<noteq> 0" using u by (auto simp: updia_def dest: ldia_nz split: bind_splits)
  moreover have "ia_next_of n oia = Some (ia_next x)" using q(3) by (simp add: ia_next_of_def)
  ultimately obtain as where "chain (ia_next_of n) (ia_next x) as" "q \<notin> set as"
    using ended_skip [of "ia_next_of n" q oia "ia_next x"] q assms(2) by (auto simp: net_at_def lists_end_def)
  then show ?thesis using relink_ia [OF u assms(2)] by blast
qed (use assms(2) in simp)

text \<open>Setting the heads of the lists.\<close>

lemma set_addrlist:
  assumes "updif n p (\<lambda>i. i\<lparr>if_addrlist := q\<rparr>) = Some n'" "net_at n ifs k" "q = 0 \<or> ldifa n q \<noteq> None"
  shows "net_at n' ifs k \<and> ifa_next_of n' = ifa_next_of n \<and> ia_next_of n' = ia_next_of n \<and> g_in_ifaddr n' = g_in_ifaddr n"
proof -
  obtain i where i: "ldif n p = Some i" "p \<noteq> 0" and n': "n' = n\<lparr>n_if := (n_if n)(p \<mapsto> i\<lparr>if_addrlist := q\<rparr>)\<rparr>"
    using assms(1) by (rule updif_SomeE)
  have ld: "ldif n' r = (if r = p then Some (i\<lparr>if_addrlist := q\<rparr>) else ldif n r)" for r using i(2) by (simp add: n')
  have la: "ldifa n' = ldifa n" "ldia n' = ldia n" by (simp_all add: n' fun_eq_iff ldia_def)
  have nif: "if_next_of n' = if_next_of n" using i(1) by (simp add: fun_eq_iff if_next_of_def ld)
  have nx: "ifa_next_of n' = ifa_next_of n" "ia_next_of n' = ia_next_of n"
    by (simp_all add: fun_eq_iff ifa_next_of_def ia_next_of_def la)
  have g: "g_in_ifaddr n' = g_in_ifaddr n" by (simp add: n')
  have "lists_end n'" unfolding lists_end_def nif nx la ld g
    using assms(2,3) by (auto simp: net_at_def lists_end_def)
  moreover have "entered n' ifs k"
    by (rule entered_cong [of n]) (use assms(2) nif ld i(1) la in \<open>auto simp: n' net_at_def\<close>)
  moreover have "mem_ok n'" using assms(2) unfolding net_at_def mem_ok_def la by (simp add: n')
  ultimately show ?thesis using nx g by (simp add: net_at_def)
qed

lemma set_in_ifaddr:
  assumes "net_at n ifs k" "q = 0 \<or> ldia n q \<noteq> None"
  shows "net_at (n\<lparr>g_in_ifaddr := q\<rparr>) ifs k"
proof -
  let ?n = "n\<lparr>g_in_ifaddr := q\<rparr>"
  have ld: "ldif ?n = ldif n" "ldifa ?n = ldifa n" "ldia ?n = ldia n" by (simp_all add: fun_eq_iff ldif_def ldifa_def ldia_def)
  have nx: "if_next_of ?n = if_next_of n" "ifa_next_of ?n = ifa_next_of n" "ia_next_of ?n = ia_next_of n"
    by (simp_all add: fun_eq_iff if_next_of_def ifa_next_of_def ia_next_of_def ld)
  have "lists_end ?n" using assms unfolding lists_end_def ld nx by (simp add: net_at_def lists_end_def)
  moreover have "entered ?n ifs k" by (rule entered_cong [of n]) (use assms ld nx in \<open>auto simp: net_at_def\<close>)
  ultimately show ?thesis using assms(1) by (simp add: net_at_def mem_ok_def ld)
qed

end
