(* ===== verification/NetOps.thy ===== *)
theory NetOps
  imports NetInv
begin

text \<open>
  The operations that link and unlink keep the invariant of \<open>NetInv\<close>: requests that make, alter and
  delete internet addresses, interface requests, and \<open>if_attach\<close>.
\<close>

section \<open>Programs in the option monad\<close>

text \<open>A decision whose condition does not matter.\<close>

lemma ifE: "(if c then x else y) = z \<Longrightarrow> (x = z \<Longrightarrow> P) \<Longrightarrow> (y = z \<Longrightarrow> P) \<Longrightarrow> P"
  by (cases c) auto

lemma bindE: "m \<bind> f = Some y \<Longrightarrow> (\<And>x. m = Some x \<Longrightarrow> f x = Some y \<Longrightarrow> P) \<Longrightarrow> P"
  by (cases m) auto

section \<open>Requests on internet addresses\<close>

lemma net_at_step: "net_at n ifs k \<Longrightarrow> (\<And>k. quiet k n \<Longrightarrow> quiet k n') \<Longrightarrow> net_at n' ifs k"
  by (rule net_at_quiet [of n]) (simp_all add: net_at_def mem_ok_def quiet_refl)

lemma addrlist_live: "lists_end n \<Longrightarrow> ldif n p = Some i \<Longrightarrow> if_addrlist i = 0 \<or> ldifa n (if_addrlist i) \<noteq> None"
  by (simp add: lists_end_def)

lemma next_live: "lists_end n \<Longrightarrow> ldifa n p = Some a \<Longrightarrow> ifa_next a = 0 \<or> ldifa n (ifa_next a) \<noteq> None"
proof -
  assume l: "lists_end n" and a: "ldifa n p = Some a"
  then obtain as where as: "chain (ifa_next_of n) (ifa_next a) as"
    using ended_next [of "ifa_next_of n" p "ifa_next a"] ifa_next_of_Some [OF a] ldifa_nz [OF a] l by (auto simp: lists_end_def)
  then show ?thesis by (cases as) (auto simp: ifachain_Cons)
qed

lemma next_ia_live: "lists_end n \<Longrightarrow> ldia n p = Some a \<Longrightarrow> ia_next a = 0 \<or> ldia n (ia_next a) \<noteq> None"
proof -
  assume l: "lists_end n" and a: "ldia n p = Some a"
  have "ia_next_of n p = Some (ia_next a)" using a by (simp add: ia_next_of_def)
  then obtain as where as: "chain (ia_next_of n) (ia_next a) as"
    using ended_next [of "ia_next_of n" p "ia_next a"] ldia_nz [OF a] l by (auto simp: lists_end_def)
  then show ?thesis by (cases as) (auto simp: iachain_Cons)
qed

lemma in_control_delete_ok:
  assumes "in_control_delete ifp ia n = Some n'" "net_at n ifs k"
  shows "net_at n' ifs k"
proof -
  obtain n1 i n2 n3 where s: "in_ifscrub n ifp ia = Some n1" "ldif n1 ifp = Some i"
      "(if if_addrlist i = ia
           then do { a \<leftarrow> ldifa n1 ia; updif n1 ifp (\<lambda>i. i\<lparr>if_addrlist := ifa_next a\<rparr>) }
           else unlink_ifa n1 ia (if_addrlist i)) = Some n2"
      "(if ia = g_in_ifaddr n2
           then do { p \<leftarrow> ldia n2 ia; Some (n2\<lparr>g_in_ifaddr := ia_next p\<rparr>) }
           else unlink_ia n2 ia (g_in_ifaddr n2)) = Some n3"
      "IFAFREE n3 ia = Some n'"
    using assms(1) unfolding in_control_delete_def by (auto simp: bind_eq_Some_conv)
  have n1: "net_at n1 ifs k" by (rule net_at_step [OF assms(2)]) (use s(1) in \<open>auto elim: quiet_steps\<close>)
  have n2: "net_at n2 ifs k"
    using s(3) n1 set_addrlist [OF _ n1] next_live [of n1 ia] unlink_ifa_ok
    by (auto simp: net_at_def split: if_splits bind_splits)
  have n3: "net_at n3 ifs k"
    using s(4) n2 set_in_ifaddr [OF n2] next_ia_live [of n2 ia] unlink_ia_ok
    by (auto simp: net_at_def split: if_splits bind_splits)
  show ?thesis by (rule net_at_step [OF n3]) (use s(5) in \<open>auto elim: quiet_steps\<close>)
qed

section \<open>New addresses\<close>

text \<open>An address that is not on any list yet.\<close>

lemma fresh_ifa: "mem_ok n \<Longrightarrow> fresh (n_mem n) \<noteq> 0 \<and> ldifa n (fresh (n_mem n)) = None \<and> fresh (n_mem n) div 4096 = mm_next (n_mem n)"
  using fresh_props(1) [of "n_mem n"] by (cases "ldifa n (fresh (n_mem n))") (fastforce simp: mem_ok_def fresh_def)+

lemma new_ifa:
  assumes at: "net_at n ifs k" and h: "wf_from (mm_next (n_mem n) + 1) h" and p: "p = fresh (n_mem n)"
    and a: "ifa_next a = 0" "\<forall>x. ifa_in a = Some x \<longrightarrow> ia_next x = 0"
    and n': "n' = n\<lparr>n_mem := h, n_ifa := (n_ifa n)(p \<mapsto> a)\<rparr>"
  shows "net_at n' ifs k \<and> p \<noteq> 0 \<and> ldifa n p = None \<and> (\<forall>q. ldifa n' q = (if q = p then Some a else ldifa n q)) \<and>
    ldif n' = ldif n \<and> g_in_ifaddr n' = g_in_ifaddr n"
proof -
  have f: "p \<noteq> 0" "ldifa n p = None" "p div 4096 = mm_next (n_mem n)" using at fresh_ifa [of n] by (simp_all add: net_at_def p)
  have ld: "ldifa n' r = (if r = p then Some a else ldifa n r)" for r using f(1) by (simp add: n' ldifa_def)
  have lf: "ldif n' = ldif n" by (simp add: n' fun_eq_iff ldif_def)
  have nif: "if_next_of n' = if_next_of n" by (simp add: fun_eq_iff if_next_of_def lf)
  have none: "ldia n p = None" using f(2) by (simp add: ldia_def)
  have nxt: "ifa_next_of n' = (ifa_next_of n)(p \<mapsto> 0)" using a(1) by (simp add: fun_eq_iff ifa_next_of_def ld)
  have ia: "ia_next_of n' = (if ifa_in a = None then ia_next_of n else (ia_next_of n)(p \<mapsto> 0))"
    using a(2) none f(2) by (auto simp: fun_eq_iff ia_next_of_def ldia_def ld)
  have old: "ended (if_next_of n)" "ended (ifa_next_of n)" "ended (ia_next_of n)"
    using at by (simp_all add: net_at_def lists_end_def)
  have "ended (ifa_next_of n')" "ended (ia_next_of n')"
    using ended_upd [OF old(2) f(1), of 0 "[]"] ended_upd [OF old(3) f(1), of 0 "[]"] old(3) by (simp_all add: nxt ia)
  moreover have live: "ldifa n r \<noteq> None \<Longrightarrow> ldifa n' r \<noteq> None" "ldia n r \<noteq> None \<Longrightarrow> ldia n' r \<noteq> None" for r
    using f(2) by (auto simp: ldia_def ld)
  moreover have "g_in_ifaddr n' = g_in_ifaddr n" by (simp add: n')
  ultimately have "lists_end n'"
    using at old(1) unfolding net_at_def lists_end_def lf nif by metis
  moreover have "entered n' ifs k"
    by (rule entered_cong [of n]) (use at f(2) lf nif ld in \<open>auto simp: net_at_def n'\<close>)
  moreover have nm: "n_mem n' = h" by (simp add: n')
  then have "mem_ok n'" unfolding mem_ok_def ld nm
    using at h f(3) by (auto simp: net_at_def mem_ok_def wf_from_def intro: less_le_trans less_SucI)
  ultimately show ?thesis using f ld lf by (simp add: net_at_def n')
qed

lemma wf_calloc_block: "wf_mem h \<Longrightarrow> k \<le> 4096 \<Longrightarrow> wf_mem ((took h)\<lparr>mm_buf := (mm_buf h)(fresh h \<mapsto> replicate k 0)\<rparr>)"
  using wf_wb [OF wf_took, of h "fresh h" "replicate k 0"] wf_fresh [of h] by (simp add: wb_def fresh_def)

lemma calloc_in_ok:
  assumes "calloc_in_ifaddr n = (p, n')" "net_at n ifs k"
  shows "net_at n' ifs k \<and> (p \<noteq> 0 \<longrightarrow> ldifa n p = None \<and> ldif n' = ldif n \<and> g_in_ifaddr n' = g_in_ifaddr n \<and>
    (\<forall>q. ldifa n' q = (if q = p then Some (zero_ifaddr\<lparr>ifa_in := Some zero_in_part\<rparr>) else ldifa n q)))"
proof (cases "malloc_ok (n_mem n)")
  case True
  let ?h = "(took (n_mem n))\<lparr>mm_buf := (mm_buf (n_mem n))(fresh (n_mem n) \<mapsto> replicate 144 0)\<rparr>"
  have "fresh (n_mem n) \<noteq> 0" using assms(2) fresh_ifa [of n] by (simp add: net_at_def)
  with True assms(1) have p: "p = fresh (n_mem n)"
    and n': "n' = n\<lparr>n_mem := ?h, n_ifa := (n_ifa n)(p \<mapsto> zero_ifaddr\<lparr>ifa_in := Some zero_in_part\<rparr>)\<rparr>"
    by (auto simp: calloc_in_ifaddr_def calloc_buf_def Let_def)
  have h: "wf_from (mm_next (n_mem n) + 1) ?h"
    using assms(2) wf_calloc_block [of "n_mem n" 144] by (simp add: net_at_def mem_ok_def wf_from_def)
  show ?thesis using new_ifa [OF assms(2) h p _ _ n'] by (simp add: zero_in_part_def)
next
  case False
  then show ?thesis using assms by (auto simp: calloc_in_ifaddr_def calloc_buf_def Let_def)
qed

lemma last_ia_chain: "chain (ia_next_of n) p as \<Longrightarrow> p \<noteq> 0 \<Longrightarrow> last_ia n p = Some (last as)"
proof (induction as arbitrary: p)
  case (Cons a as)
  then obtain x where x: "p = a" "ldia n a = Some x" "chain (ia_next_of n) (ia_next x) as" by (auto simp: iachain_Cons)
  show ?case
  proof (cases "ia_next x = 0")
    case True
    with x show ?thesis by (subst last_ia.simps) simp
  next
    case False
    then have "as \<noteq> []" using x(3) by (cases as) auto
    with False x Cons.IH [OF x(3)] show ?thesis by (subst last_ia.simps) simp
  qed
qed simp

lemma last_ifa_chain: "chain (ifa_next_of n) p as \<Longrightarrow> p \<noteq> 0 \<Longrightarrow> last_ifa n p = Some (last as)"
proof (induction as arbitrary: p)
  case (Cons a as)
  then obtain x where x: "p = a" "ldifa n a = Some x" "chain (ifa_next_of n) (ifa_next x) as" by (auto simp: ifachain_Cons)
  show ?case
  proof (cases "ifa_next x = 0")
    case True
    with x show ?thesis by (subst last_ifa.simps) simp
  next
    case False
    then have "as \<noteq> []" using x(3) by (cases as) auto
    with False x Cons.IH [OF x(3)] show ?thesis by (subst last_ifa.simps) simp
  qed
qed simp

text \<open>A list that does not contain the new address is still there, and its last element is another one.\<close>

lemma last_other: "chain nxt p as \<Longrightarrow> p \<noteq> 0 \<Longrightarrow> nxt r = None \<Longrightarrow> chain (nxt(r \<mapsto> q)) p as \<and> last as \<noteq> r"
proof -
  assume c: "chain nxt p as" "p \<noteq> 0" "nxt r = None"
  then have "r \<notin> set as" using chain_alloc by blast
  moreover from c have "as \<noteq> []" by (cases as) auto
  ultimately show ?thesis using c by (subst chain_cong [of _ _ nxt]) auto
qed

text \<open>Appending the new address \<open>oia\<close> to both lists.\<close>

lemma append_ia:
  assumes at: "net_at n1 ifs k" and new: "ia_next_of n1 = (ia_next_of n)(oia \<mapsto> 0)" "ia_next_of n oia = None" "oia \<noteq> 0"
    and old: "g_in_ifaddr n1 = g_in_ifaddr n" "lists_end n"
    and run: "(if g_in_ifaddr n1 \<noteq> 0
             then do { ia \<leftarrow> last_ia n1 (g_in_ifaddr n1); updia n1 ia (\<lambda>p. p\<lparr>ia_next := oia\<rparr>) }
             else Some (n1\<lparr>g_in_ifaddr := oia\<rparr>)) = Some n2"
  shows "net_at n2 ifs k \<and> ifa_next_of n2 = ifa_next_of n1 \<and> ldif n2 = ldif n1 \<and> (\<forall>r. (ldia n2 r = None) = (ldia n1 r = None))"
proof (cases "g_in_ifaddr n1 = 0")
  case False
  have "ldia n (g_in_ifaddr n) \<noteq> None" using False old by (simp add: lists_end_def)
  then obtain as where as: "chain (ia_next_of n) (g_in_ifaddr n) as"
    using old(2) ended_chain [of "ia_next_of n" "g_in_ifaddr n"] by (auto simp: lists_end_def ia_next_of_def)
  have c: "chain (ia_next_of n1) (g_in_ifaddr n1) as" "last as \<noteq> oia"
    using last_other [OF as _ new(2), of 0] False old(1) by (simp_all add: new(1))
  then have "updia n1 (last as) (\<lambda>p. p\<lparr>ia_next := oia\<rparr>) = Some n2"
    using run False last_ia_chain [OF c(1) False] by simp
  moreover have "chain (ia_next_of n1) oia [oia]" using new(1,3) by (simp add: chain.simps)
  ultimately show ?thesis using relink_ia [OF _ at] c(2) by simp
next
  case True
  then have n2: "n2 = n1\<lparr>g_in_ifaddr := oia\<rparr>" using run by simp
  have "ia_next_of n1 oia = Some 0" by (simp add: new(1))
  then have "ldia n1 oia \<noteq> None" by (auto simp: ia_next_of_def)
  then show ?thesis using set_in_ifaddr [OF at, of oia] unfolding n2
    by (simp add: fun_eq_iff ifa_next_of_def ldia_def ldifa_def ldif_def)
qed

lemma append_ifa:
  assumes at: "net_at n2 ifs k" and new: "ifa_next_of n2 = (ifa_next_of n)(oia \<mapsto> 0)" "ifa_next_of n oia = None" "oia \<noteq> 0"
    and old: "ldif n2 = ldif n" "lists_end n" and i: "ldif n2 ifp = Some i"
    and run: "(if if_addrlist i \<noteq> 0
             then do { ifa \<leftarrow> last_ifa n2 (if_addrlist i); updifa n2 ifa (\<lambda>a. a\<lparr>ifa_next := oia\<rparr>) }
             else updif n2 ifp (\<lambda>i. i\<lparr>if_addrlist := oia\<rparr>)) = Some n3"
  shows "net_at n3 ifs k \<and> ia_next_of n3 = ia_next_of n2"
proof (cases "if_addrlist i = 0")
  case False
  have li: "ldif n ifp = Some i" using old(1) i by simp
  have "ldifa n (if_addrlist i) \<noteq> None" using addrlist_live [OF old(2) li] False by simp
  then obtain as where as: "chain (ifa_next_of n) (if_addrlist i) as"
    using old(2) ended_chain [of "ifa_next_of n" "if_addrlist i"] by (auto simp: lists_end_def ifa_next_of_def)
  have c: "chain (ifa_next_of n2) (if_addrlist i) as" "last as \<noteq> oia"
    using last_other [OF as False new(2), of 0] by (simp_all add: new(1))
  then have "updifa n2 (last as) (\<lambda>a. a\<lparr>ifa_next := oia\<rparr>) = Some n3"
    using run False last_ifa_chain [OF c(1) False] by simp
  moreover have "chain (ifa_next_of n2) oia [oia]" using new(1,3) by (simp add: chain.simps)
  ultimately show ?thesis using relink_ifa [OF _ at] c(2) by simp
next
  case True
  then have "updif n2 ifp (\<lambda>i. i\<lparr>if_addrlist := oia\<rparr>) = Some n3" using run by simp
  moreover have "ifa_next_of n2 oia = Some 0" by (simp add: new(1))
  then have "ldifa n2 oia \<noteq> None" by (auto simp: ifa_next_of_def)
  ultimately show ?thesis using set_addrlist [OF _ at] by blast
qed

lemma in_control_new_ok:
  assumes "in_control_new n ifp = Some (r, n')" "net_at n ifs k"
  shows "net_at n' ifs k"
proof -
  obtain oia n1 where ca: "calloc_in_ifaddr n = (oia, n1)" by fastforce
  note new = calloc_in_ok [OF ca assms(2)]
  show ?thesis
  proof (cases "oia = 0")
    case True
    then show ?thesis using assms(1) ca new by (simp add: in_control_new_def)
  next
    case False
    then have nw: "ldifa n oia = None" "ldif n1 = ldif n" "g_in_ifaddr n1 = g_in_ifaddr n" "net_at n1 ifs k"
      "\<And>q. ldifa n1 q = (if q = oia then Some (zero_ifaddr\<lparr>ifa_in := Some zero_in_part\<rparr>) else ldifa n q)"
      using new by simp_all
    have nx: "ia_next_of n1 = (ia_next_of n)(oia \<mapsto> 0)" "ifa_next_of n1 = (ifa_next_of n)(oia \<mapsto> 0)"
      "ia_next_of n oia = None" "ifa_next_of n oia = None"
      using nw(1) by (simp_all add: fun_eq_iff ia_next_of_def ifa_next_of_def ldia_def nw(5) zero_in_part_def)
    have le: "lists_end n" using assms(2) by (simp add: net_at_def)
    obtain n2 i n3 where
      s2: "(if g_in_ifaddr n1 \<noteq> 0
             then do { ia \<leftarrow> last_ia n1 (g_in_ifaddr n1); updia n1 ia (\<lambda>p. p\<lparr>ia_next := oia\<rparr>) }
             else Some (n1\<lparr>g_in_ifaddr := oia\<rparr>)) = Some n2" and i: "ldif n2 ifp = Some i" and
      s3: "(if if_addrlist i \<noteq> 0
             then do { ifa \<leftarrow> last_ifa n2 (if_addrlist i); updifa n2 ifa (\<lambda>a. a\<lparr>ifa_next := oia\<rparr>) }
             else updif n2 ifp (\<lambda>i. i\<lparr>if_addrlist := oia\<rparr>)) = Some n3" and
      s4: "do { n \<leftarrow> updifa n3 oia (\<lambda>a. a\<lparr>ifa_addr := ia_addr oia, ifa_dstaddr := ia_dstaddr oia,
              ifa_netmask := ia_sockmask oia\<rparr>);
            n \<leftarrow> nwr n (ia_sockmask oia) [8];
            n \<leftarrow> (if has (if_flags i) IFF_BROADCAST then nwr n (ia_dstaddr oia) [16, AF_INET] else Some n);
            n \<leftarrow> updifa n oia (\<lambda>a. a\<lparr>ifa_ifp := ifp\<rparr>);
            Some (oia, if ifp \<noteq> loif then n\<lparr>g_in_interfaces := g_in_interfaces n + 1\<rparr> else n) } = Some (r, n')"
      using assms(1) False unfolding in_control_new_def ca
      by (simp only: case_prod_conv Let_def if_False bind_eq_Some_conv) (elim exE conjE, rule that, assumption+, simp only: bind_eq_Some_conv, blast)
    have a2: "net_at n2 ifs k" "ifa_next_of n2 = ifa_next_of n1" "ldif n2 = ldif n1" "ldia n2 oia \<noteq> None"
      using append_ia [OF nw(4) nx(1,3) False nw(3) le s2] nw(5) by (simp_all add: ldia_def)
    have a3: "net_at n3 ifs k" "ia_next_of n3 = ia_next_of n2"
      using append_ifa [OF a2(1) _ nx(4) False _ le i s3] a2(2,3) nx(2) nw(2) by simp_all
    have "ldia n3 oia \<noteq> None"
      using a2(4) a3(2) by (metis ia_next_of_def option.map_disc_iff)
    then have rest: "quiet n3 m \<Longrightarrow> ldifa m oia = Some a \<Longrightarrow> ifa_shape (a\<lparr>ifa_ifp := ifp\<rparr>) = ifa_shape a" for m a
      using shape_live(2) [of m n3 oia] by (intro ifa_shape_in) (auto simp: quiet_def ldia_def)
    obtain m1 m2 m3 m4 where m: "updifa n3 oia (\<lambda>a. a\<lparr>ifa_addr := ia_addr oia, ifa_dstaddr := ia_dstaddr oia,
          ifa_netmask := ia_sockmask oia\<rparr>) = Some m1" "nwr m1 (ia_sockmask oia) [8] = Some m2"
        "(if has (if_flags i) IFF_BROADCAST then nwr m2 (ia_dstaddr oia) [16, AF_INET] else Some m2) = Some m3"
        "updifa m3 oia (\<lambda>a. a\<lparr>ifa_ifp := ifp\<rparr>) = Some m4"
        "n' = (if ifp \<noteq> loif then m4\<lparr>g_in_interfaces := g_in_interfaces m4 + 1\<rparr> else m4)"
      using s4 by (auto simp: bind_eq_Some_conv)
    have "quiet n3 n3" using a3(1) by (simp add: net_at_def mem_ok_def quiet_refl)
    then have "quiet n3 m3" using m(1-3) by (auto split: if_splits elim!: quiet_steps)
    then have "quiet n3 m4" using m(4) rest by (blast intro: quiet_updifa)
    then have "quiet n3 n'" using m(5) by simp
    then show ?thesis using a3(1) by (rule net_at_quiet)
  qed
qed

section \<open>Requests\<close>

lemma in_control_find_quiet:
  assumes "in_control_find n ifp (g_in_ifaddr n) = Some (r, n')" "ifp \<noteq> 0" "lists_end n" "quiet k n"
  shows "quiet k n'"
proof (cases "g_in_ifaddr n = 0")
  case True
  then show ?thesis using assms by (subst (asm) in_control_find.simps) simp
next
  case False
  then have "ldia n (g_in_ifaddr n) \<noteq> None" using assms(3) by (simp add: lists_end_def)
  then have "ifa_shape (a\<lparr>ifa_ifp := ifp\<rparr>) = ifa_shape a" if "ldifa n (g_in_ifaddr n) = Some a" for a
    using that by (intro ifa_shape_in) (auto simp: ldia_def)
  moreover have "updifa n (g_in_ifaddr n) (\<lambda>a. a\<lparr>ifa_ifp := ifp\<rparr>) = Some n'"
    using assms(1,2) False by (subst (asm) in_control_find.simps) (auto split: bind_splits)
  ultimately show ?thesis using assms(4) by (blast intro: quiet_updifa)
qed

lemma in_control_check_ok:
  assumes "in_control_check so cmd d ifp ia n = Some (r, n')" "net_at n ifs k"
  shows "net_at n' ifs k"
  using assms unfolding in_control_check_def in_control_priv_def
  by (auto split: bind_splits if_splits dest: in_control_new_ok)

lemma in_control_do_cases:
  assumes "in_control_do e cmd d ifp ia n = Some (r, d', n')" "quiet k n" "drivers_quiet e"
  shows "quiet k n' \<or> in_control_delete ifp ia n = Some n'"
  using assms unfolding in_control_do_def need_flag_def in_ifinit_def
  by (elim ifE) (auto split: bind_splits if_splits elim!: quiet_steps simp: Let_def)

lemma in_control_ok:
  assumes "in_control e so cmd d ifp n = Some (r, d', n')" "net_at n ifs k" "drivers_quiet e"
  shows "net_at n' ifs k"
proof -
  obtain ia n1 x n2 where s: "(if ifp \<noteq> 0 then in_control_find n ifp (g_in_ifaddr n) else Some (0, n)) = Some (ia, n1)"
    "in_control_check so cmd d ifp ia n1 = Some (x, n2)"
    "(case x of Inl err \<Rightarrow> Some (err, d, n2) | Inr ia \<Rightarrow> in_control_do e cmd d ifp ia n2) = Some (r, d', n')"
    using assms(1) unfolding in_control_def by (auto simp: bind_eq_Some_conv)
  have "net_at n1 ifs k"
    using s(1) in_control_find_quiet [of n ifp ia n1 n] assms(2) net_at_quiet [of n n1]
    by (auto simp: net_at_def mem_ok_def quiet_refl split: if_splits)
  then have n2: "net_at n2 ifs k" using in_control_check_ok s(2) by blast
  then have "quiet n2 n2" by (simp add: net_at_def mem_ok_def quiet_refl)
  then show ?thesis
    using s(3) n2 in_control_do_cases [OF _ _ assms(3)] in_control_delete_ok net_at_quiet
    by (cases x) (auto, blast)
qed

text \<open>The protocol's request routine leaves the lists alone or passes the request to \<open>in_control\<close>, as
  \<open>udp_usrreq\<close> does.\<close>

definition usrreq_control :: "env \<Rightarrow> bool" where
  "usrreq_control e \<longleftrightarrow> (\<forall>h req c d ifp n r d' n'. e_usrreq e h req c d ifp n = Some (r, d', n') \<longrightarrow> wf_mem (n_mem n) \<longrightarrow>
     quiet n n' \<or> (\<exists>so. in_control e so c d ifp n = Some (r, d', n')))"

lemma ifioctl_flags_quiet:
  assumes "ifioctl e junk so SIOCSIFFLAGS d n = Some (r, d', n')" "quiet k n" "drivers_quiet e"
  shows "quiet k n'"
proof -
  obtain c1 c2 ifp fl n1 n2 n3 d1 io c3 where
    s: "(if c1 then if_down e n ifp else Some n) = Some n1" "(if c2 then if_up n1 ifp else Some n1) = Some n2"
    "updif n2 ifp (\<lambda>i. i\<lparr>if_flags := (if_flags i AND IFF_CANTCHANGE) OR (fl AND NOT IFF_CANTCHANGE)\<rparr>) = Some n3"
    "(if c3 then do { (_, data, n) \<leftarrow> e_ioctl e io ifp SIOCSIFFLAGS d n3; Some (data, n) } else Some (d, n3)) = Some (d1, n')"
    using assms(1) unfolding ifioctl_def
    by (simp only: sioc_flags_cases simp_thms if_False if_True bind_eq_Some_conv split_paired_Ex case_prod_conv option.inject prod.inject)
      (elim exE conjE, hypsubst, rule that, assumption+)
  have "quiet k n1" using s(1) assms(2,3) by (auto split: if_splits elim!: quiet_steps)
  then have "quiet k n2" using s(2) by (auto split: if_splits elim!: quiet_steps)
  then have "quiet k n3" using s(3) by (auto elim!: quiet_steps)
  then show ?thesis using s(4) assms(3) by (auto split: bind_splits if_splits elim!: quiet_steps)
qed

lemma ifioctl_cases:
  assumes "ifioctl e junk so cmd d n = Some (r, d', n')" "quiet k n" "drivers_quiet e"
  shows "quiet k n' \<or> (\<exists>ifp. e_usrreq e (so_proto so) PRU_CONTROL cmd d ifp n = Some (r, d', n'))"
proof (cases "cmd = SIOCSIFFLAGS")
  case True
  then show ?thesis using assms ifioctl_flags_quiet by blast
next
  case False
  show ?thesis using assms unfolding ifioctl_def
    by (simp only: False if_False) (auto split: bind_splits if_splits elim!: quiet_steps simp: Let_def)
qed

lemma ifioctl_ok:
  assumes "ifioctl e junk so cmd d n = Some (r, d', n')" "net_at n ifs k" "drivers_quiet e" "usrreq_control e"
  shows "net_at n' ifs k"
proof -
  have wf: "quiet n n" "wf_mem (n_mem n)" using assms(2) by (simp_all add: net_at_def mem_ok_def quiet_refl)
  consider "quiet n n'" | ifp where "e_usrreq e (so_proto so) PRU_CONTROL cmd d ifp n = Some (r, d', n')"
    using ifioctl_cases [OF assms(1) wf(1) assms(3)] by blast
  then show ?thesis
  proof cases
    case 1
    then show ?thesis using assms(2) by (rule net_at_quiet)
  next
    case 2
    then consider "quiet n n'" | so' where "in_control e so' cmd d ifp n = Some (r, d', n')"
      using assms(4) wf(2) unfolding usrreq_control_def by blast
    then show ?thesis using assms(2,3) net_at_quiet in_control_ok by cases blast+
  qed
qed

section \<open>Attaching\<close>

lemma link_lists:
  assumes "if_attach_link n ifp = Some n1" "net_at n ifs k" "ldif n ifp = Some i" "if_next i = 0" "ifp \<notin> set ifs"
  shows "lists_end n1"
proof (cases "g_ifnet n = 0")
  case True
  then have n1: "n1 = n\<lparr>g_ifnet := ifp\<rparr>" using assms(1) by (simp add: if_attach_link_def)
  have "ldif n1 = ldif n" "ldifa n1 = ldifa n" "ldia n1 = ldia n" "g_in_ifaddr n1 = g_in_ifaddr n"
    by (simp_all add: n1 fun_eq_iff ldif_def ldifa_def ldia_def)
  moreover from this have "if_next_of n1 = if_next_of n" "ifa_next_of n1 = ifa_next_of n" "ia_next_of n1 = ia_next_of n"
    by (simp_all add: fun_eq_iff if_next_of_def ifa_next_of_def ia_next_of_def)
  ultimately show ?thesis using assms(2) by (simp add: net_at_def lists_end_def)
next
  case False
  have ch: "chain (if_next_of n) (g_ifnet n) ifs" using assms(2) by (simp add: net_at_def entered_def)
  with False obtain ps q where ifs: "ifs = ps @ [q]" by (cases ifs rule: rev_cases) auto
  have u: "updif n q (\<lambda>i. i\<lparr>if_next := ifp\<rparr>) = Some n1"
    using assms(1) False if_attach_last_chain [of n "g_ifnet n" ps q] ch ifs by (simp add: if_attach_link_def)
  then obtain j where j: "ldif n q = Some j" "q \<noteq> 0" and n1: "n1 = n\<lparr>n_if := (n_if n)(q \<mapsto> j\<lparr>if_next := ifp\<rparr>)\<rparr>"
    by (rule updif_SomeE)
  have ld: "ldif n1 r = (if r = q then Some (j\<lparr>if_next := ifp\<rparr>) else ldif n r)" for r using j(2) by (simp add: n1)
  have la: "ldifa n1 = ldifa n" "ldia n1 = ldia n" "g_in_ifaddr n1 = g_in_ifaddr n" by (simp_all add: n1 fun_eq_iff ldia_def)
  then have nx: "ifa_next_of n1 = ifa_next_of n" "ia_next_of n1 = ia_next_of n" "if_next_of n1 = (if_next_of n)(q \<mapsto> ifp)"
    by (simp_all add: fun_eq_iff if_next_of_def ifa_next_of_def ia_next_of_def ld)
  have "chain (if_next_of n) ifp [ifp]" using assms(3,4) by (simp add: ifchain_Cons)
  moreover have "q \<notin> set [ifp]" using assms(5) ifs by auto
  moreover have "ended (if_next_of n)" using assms(2) by (simp add: net_at_def lists_end_def)
  ultimately have "ended (if_next_of n1)" using ended_upd j(2) unfolding nx by blast
  then show ?thesis using assms(2) j(1) unfolding lists_end_def la nx(1,2) by (auto simp: net_at_def lists_end_def ld)
qed

lemma if_attach_link_at:
  assumes "if_attach_link n ifp = Some n1" "net_at n ifs (length ifs)" "ldif n ifp = Some i" "if_next i = 0" "ifp \<notin> set ifs"
  shows "net_at n1 (ifs @ [ifp]) (length ifs) \<and> ldif n1 ifp = Some i"
proof -
  have ch: "chain (if_next_of n) (g_ifnet n) ifs" using assms(2) by (simp add: net_at_def entered_def)
  have r: "chain (if_next_of n1) (g_ifnet n1) (ifs @ [ifp])" "relinked n ifp n1"
    using if_attach_link_chain [OF ch assms(3-5)] assms(1) by auto
  have n1: "n1 = n\<lparr>n_if := n_if n1, g_ifnet := g_ifnet n1\<rparr>" "n_if n1 ifp = n_if n ifp"
    and idx: "\<And>p j. ldif n p = Some j \<Longrightarrow> \<exists>x. ldif n1 p = Some (j\<lparr>if_next := x\<rparr>)"
    using r(2) by (simp_all add: relinked_def)
  have f: "n_mem n1 = n_mem n" "n_ifa n1 = n_ifa n" "g_if_index n1 = g_if_index n"
    "g_if_indexlim n1 = g_if_indexlim n" "g_ifnet_addrs n1 = g_ifnet_addrs n"
    by (subst n1(1), simp)+
  have la: "ldifa n1 = ldifa n" by (simp add: fun_eq_iff ldifa_def f(2))
  have "link_entry n1 (ifs @ [ifp]) tab j" if l: "link_entry n ifs tab j" "j < length ifs" for tab j
  proof -
    obtain x a where xa: "ldif n (ifs ! j) = Some x" "if_index x = word_of_nat (Suc j)" "ldifa n (tab ! j) = Some a"
      "ifa_in a = None" "ifa_ifp a = ifs ! j"
      using l(1) unfolding link_entry_def by blast
    obtain y where "ldif n1 (ifs ! j) = Some (x\<lparr>if_next := y\<rparr>)" using idx [OF xa(1)] by blast
    with xa l(2) show ?thesis by (simp add: link_entry_def nth_append la)
  qed
  then have "entered n1 (ifs @ [ifp]) (length ifs)"
    using assms(2) r(1) by (auto simp: net_at_def entered_def f split: option.splits)
  moreover have "mem_ok n1" using assms(2) by (simp add: net_at_def mem_ok_def f la)
  ultimately show ?thesis using link_lists [OF assms] assms(3) n1(2) by (simp add: net_at_def ldif_def split: if_splits)
qed

text \<open>A new table, with the entries of the old one.\<close>

lemma retable:
  assumes at: "net_at n ifs k" and n': "n' = n\<lparr>n_mem := took (n_mem n), g_if_indexlim := l, g_ifnet_addrs := Some tab\<rparr>"
    and l: "g_if_indexlim n \<le> l" "length tab = nat l"
    and tab: "\<And>old j. g_ifnet_addrs n = Some old \<Longrightarrow> j < k \<Longrightarrow> tab ! j = old ! j"
  shows "net_at n' ifs k \<and> ldif n' = ldif n"
proof -
  have ld: "ldif n' = ldif n" "ldifa n' = ldifa n" "ldia n' = ldia n" "g_in_ifaddr n' = g_in_ifaddr n"
    by (simp_all add: n' fun_eq_iff ldif_def ldifa_def ldia_def)
  then have nx: "if_next_of n' = if_next_of n" "ifa_next_of n' = ifa_next_of n" "ia_next_of n' = ia_next_of n"
    by (simp_all add: fun_eq_iff if_next_of_def ifa_next_of_def ia_next_of_def)
  have f: "g_ifnet n' = g_ifnet n" "g_if_index n' = g_if_index n" "g_if_indexlim n' = l" "g_ifnet_addrs n' = Some tab"
    "n_mem n' = took (n_mem n)" by (simp_all add: n')
  have "link_entry n' ifs tab j" if "j < k" for j
    using at that tab [of _ j] by (cases "g_ifnet_addrs n") (auto simp: net_at_def entered_def link_entry_def ld)
  then have "entered n' ifs k" using at l by (auto simp: net_at_def entered_def nx f)
  moreover have "mem_ok n'" using at wf_took [of "n_mem n"] by (auto simp: net_at_def mem_ok_def ld f intro: less_SucI)
  ultimately show ?thesis using at ld nx by (simp add: net_at_def lists_end_def)
qed

lemma if_attach_grow_at:
  assumes "if_attach_grow n = Some n'" "net_at n ifs k"
  shows "net_at n' ifs k \<and> ldif n' = ldif n \<and> int k < g_if_indexlim n'"
proof -
  let ?new = "g_ifnet_addrs n = None \<and> malloc_ok (n_mem n)"
  let ?L = "g_if_indexlim n"
  let ?n1 = "if ?new then n\<lparr>n_mem := took (n_mem n), g_ifnet_addrs := Some (replicate (nat ?L) 0)\<rparr> else n"
  have e: "g_if_index n = int k" "8 \<le> ?L" "int k \<le> ?L" using assms(2) by (simp_all add: net_at_def entered_def)
  have at: "net_at ?n1 ifs k \<and> ldif ?n1 = ldif n"
    using assms(2) retable [OF assms(2) refl, of ?L "replicate (nat ?L) 0"] by auto
  have f: "g_if_index ?n1 = int k" "g_if_indexlim ?n1 = ?L" using e by simp_all
  show ?thesis
  proof (cases "int k \<ge> ?L")
    case False
    then have "n' = ?n1" using assms(1) f unfolding if_attach_grow_def Let_def by (simp only: f) simp
    with at f False show ?thesis by simp
  next
    case True
    then obtain old where old: "g_ifnet_addrs ?n1 = Some old" and
      n': "n' = ?n1\<lparr>n_mem := took (n_mem ?n1), g_if_indexlim := 2 * ?L,
        g_ifnet_addrs := Some (take (nat (2 * ?L) div 2) (old @ replicate (nat (2 * ?L) - length old) 0) @
          replicate (nat (2 * ?L) - nat (2 * ?L) div 2) 0)\<rparr>"
      using assms(1) f unfolding if_attach_grow_def Let_def by (simp only: f) (auto simp: bind_eq_Some_conv split: if_splits)
    have len: "length old = nat ?L" using at old f by (auto simp: net_at_def entered_def split: if_splits)
    have half: "nat (2 * ?L) div 2 = nat ?L" by simp
    have "net_at n' ifs k \<and> ldif n' = ldif ?n1"
      by (rule retable [OF conjunct1 [OF at] n'])
        (use e f old len in \<open>auto simp: half nth_append\<close>)
    with at e n' show ?thesis by simp
  qed
qed

text \<open>The steps of \<open>if_attach\<close> after the table has room, up to the contents of the new address.\<close>

definition linked_state :: "net \<Rightarrow> addr \<Rightarrow> ifnet \<Rightarrow> mem \<Rightarrow> ifaddr \<Rightarrow> net" where
  "linked_state n ifp i h a = n\<lparr>g_if_index := g_if_index n + 1, n_mem := h,
     n_if := (n_if n)(ifp \<mapsto> i\<lparr>if_index := word_of_int (g_if_index n + 1), if_addrlist := fresh (n_mem n)\<rparr>),
     n_ifa := (n_ifa n)(fresh (n_mem n) \<mapsto> a)\<rparr>"

lemma wf_calloc_buf: "calloc_buf n j = (p, n') \<Longrightarrow> wf_from k (n_mem n) \<Longrightarrow> j \<le> 4096 \<Longrightarrow> n' = n\<lparr>n_mem := n_mem n'\<rparr> \<and> wf_from k (n_mem n')"
  using wf_calloc_block [of "n_mem n" j] by (auto simp: calloc_buf_def wf_from_def Let_def split: if_splits)

lemma if_attach_addr_run:
  assumes run: "if_attach_addr n ifp = Some n'" and i: "ldif n ifp = Some i" and wf: "wf_mem (n_mem n)"
  obtains h a dl i' n9 n10 tab where
    "wf_from (mm_next (n_mem n) + 1) h" "ifa_next a = 0" "ifa_in a = None" "ifa_ifp a = ifp"
    "if_attach_dl (linked_state n ifp i h a) dl i' = Some n9"
    "updifa n9 (fresh (n_mem n)) (\<lambda>a. a\<lparr>ifa_netmask := dl + sizeof_sockaddr_dl\<rparr>) = Some n10"
    "g_ifnet_addrs n10 = Some tab"
    "(if if_output i' = F_ether_output
      then ether_ifattach (n10\<lparr>g_ifnet_addrs := Some (tab[nat (g_if_index n10) - 1 := fresh (n_mem n)])\<rparr>) ifp
      else Some (n10\<lparr>g_ifnet_addrs := Some (tab[nat (g_if_index n10) - 1 := fresh (n_mem n)])\<rparr>)) = Some n'"
proof -
  let ?fa = "fresh (n_mem n)"
  let ?n4 = "n\<lparr>g_if_index := g_if_index n + 1, n_if := (n_if n)(ifp \<mapsto> i\<lparr>if_index := word_of_int (g_if_index n + 1)\<rparr>)\<rparr>"
  let ?i = "i\<lparr>if_index := word_of_int (g_if_index n + 1), if_addrlist := ?fa\<rparr>"
  have nz: "ifp \<noteq> 0" "?fa \<noteq> 0" using ldif_nz [OF i] fresh_props(1) [OF wf] by simp_all
  have s1: "updif (n\<lparr>g_if_index := g_if_index n + 1\<rparr>) ifp
      (\<lambda>i. i\<lparr>if_index := word_of_int (g_if_index (n\<lparr>g_if_index := g_if_index n + 1\<rparr>))\<rparr>) = Some ?n4"
    using i by (simp add: updif_def ldif_def split: if_splits)
  have ok: "malloc_ok (n_mem n)"
  proof (rule ccontr)
    assume "\<not> malloc_ok (n_mem n)"
    then have "calloc_ifaddr ?n4 = (0, ?n4)" by (simp add: calloc_ifaddr_def Let_def)
    with run show False
      by (simp only: if_attach_addr_def Let_def s1 Option.bind.bind_lunit case_prod_conv) (auto simp: updifa_def bind_eq_Some_conv split: prod.splits)
  qed
  let ?n6 = "n\<lparr>g_if_index := g_if_index n + 1, n_mem := took (n_mem n), n_if := (n_if n)(ifp \<mapsto> ?i),
    n_ifa := (n_ifa n)(?fa \<mapsto> zero_ifaddr)\<rparr>"
  have s2: "calloc_ifaddr ?n4 = (?fa, ?n4\<lparr>n_mem := took (n_mem n), n_ifa := (n_ifa n)(?fa \<mapsto> zero_ifaddr)\<rparr>)"
    using ok by (simp add: calloc_ifaddr_def Let_def)
  have s3: "updif (?n4\<lparr>n_mem := took (n_mem n), n_ifa := (n_ifa n)(?fa \<mapsto> zero_ifaddr)\<rparr>) ifp (\<lambda>i. i\<lparr>if_addrlist := ?fa\<rparr>) = Some ?n6"
    using nz by (simp add: updif_def ldif_def)
  obtain dl n7 where s4: "calloc_buf ?n6 (2 * sizeof_sockaddr_dl) = (dl, n7)" by fastforce
  have wf6: "wf_from (mm_next (n_mem n) + 1) (n_mem ?n6)" using wf_took [OF wf] by (simp add: wf_from_def)
  have n7: "n7 = ?n6\<lparr>n_mem := n_mem n7\<rparr>" "wf_from (mm_next (n_mem n) + 1) (n_mem n7)"
    using wf_calloc_buf [OF s4 wf6] by (simp_all add: sizeof_sockaddr_dl_def)
  have s5: "ldif n7 ifp = Some ?i" using nz by (subst n7(1)) (simp add: ldif_def)
  let ?a = "zero_ifaddr\<lparr>ifa_next := 0, ifa_ifp := ifp, ifa_addr := dl, ifa_rtrequest := FNull,
            ifa_flags := if_flags i, ifa_refcnt := ifa_refcnt zero_ifaddr + 1,
            ifa_metric := sint (ifi_metric (if_data i))\<rparr>"
  have s6: "updifa n7 ?fa (\<lambda>a. a\<lparr>ifa_next := 0, ifa_ifp := ifp, ifa_addr := dl, ifa_rtrequest := FNull,
            ifa_flags := if_flags ?i, ifa_refcnt := ifa_refcnt a + 1,
            ifa_metric := sint (ifi_metric (if_data ?i))\<rparr>) = Some (linked_state n ifp i (n_mem n7) ?a)"
    using nz by (subst n7(1)) (simp add: updifa_def ldifa_def linked_state_def)
  from run obtain n9 n10 tab where
    "if_attach_dl (linked_state n ifp i (n_mem n7) ?a) dl ?i = Some n9"
    "updifa n9 ?fa (\<lambda>a. a\<lparr>ifa_netmask := dl + sizeof_sockaddr_dl\<rparr>) = Some n10" "g_ifnet_addrs n10 = Some tab"
    "(if if_output ?i = F_ether_output
      then ether_ifattach (n10\<lparr>g_ifnet_addrs := Some (tab[nat (g_if_index n10) - 1 := ?fa])\<rparr>) ifp
      else Some (n10\<lparr>g_ifnet_addrs := Some (tab[nat (g_if_index n10) - 1 := ?fa])\<rparr>)) = Some n'"
    by (simp only: if_attach_addr_def Let_def s1 s2 s3 s4 s5 s6 Option.bind.bind_lunit case_prod_conv)
      (elim bindE, rule that, assumption+)
  then show thesis using that [of "n_mem n7" ?a dl ?i n9 n10 tab] n7(2) by (simp add: zero_ifaddr_def)
qed

lemma enter_next:
  assumes at: "net_at n ifs k" and k: "k < length ifs" "ifs ! k = ifp" "int k < g_if_indexlim n" and i: "ldif n ifp = Some i"
    and h: "wf_from (mm_next (n_mem n) + 1) h" and a: "ifa_next a = 0" "ifa_in a = None" "ifa_ifp a = ifp"
    and tab: "g_ifnet_addrs n = Some tab"
  shows "net_at ((linked_state n ifp i h a)\<lparr>g_ifnet_addrs := Some (tab[k := fresh (n_mem n)])\<rparr>) ifs (Suc k)"
    (is "net_at ?m ifs (Suc k)")
proof -
  let ?fa = "fresh (n_mem n)"
  let ?m1 = "n\<lparr>n_mem := h, n_ifa := (n_ifa n)(?fa \<mapsto> a)\<rparr>"
  let ?m2 = "?m1\<lparr>n_if := (n_if n)(ifp \<mapsto> i\<lparr>if_addrlist := ?fa\<rparr>)\<rparr>"
  have nz: "ifp \<noteq> 0" using ldif_nz [OF i] .
  have m1: "net_at ?m1 ifs k" "ldifa ?m1 q = (if q = ?fa then Some a else ldifa n q)" "ldif ?m1 = ldif n" for q
    using new_ifa [OF at h refl a(1) _ refl] a(2) by auto
  have "updif ?m1 ifp (\<lambda>i. i\<lparr>if_addrlist := ?fa\<rparr>) = Some ?m2"
    using i nz by (simp add: updif_def m1(3))
  then have m2: "net_at ?m2 ifs k" using set_addrlist [OF _ m1(1)] m1(2) by auto
  have ld: "ldif ?m p = (if p = ifp then Some (i\<lparr>if_index := word_of_int (g_if_index n + 1), if_addrlist := ?fa\<rparr>) else ldif n p)"
      "ldif ?m2 p = (if p = ifp then Some (i\<lparr>if_addrlist := ?fa\<rparr>) else ldif n p)" for p
    using nz by (simp_all add: linked_state_def ldif_def)
  have la: "ldifa ?m = ldifa ?m2" "ldia ?m = ldia ?m2" "ldifa ?m2 = ldifa ?m1"
    by (simp_all add: fun_eq_iff linked_state_def ldia_def ldifa_def)
  have nx: "if_next_of ?m = if_next_of ?m2" "ifa_next_of ?m = ifa_next_of ?m2" "ia_next_of ?m = ia_next_of ?m2"
    by (simp_all add: fun_eq_iff if_next_of_def ifa_next_of_def ia_next_of_def la ld)
  have g: "g_ifnet ?m = g_ifnet ?m2" "g_if_index ?m = g_if_index n + 1" "g_if_indexlim ?m = g_if_indexlim ?m2"
    "g_ifnet_addrs ?m = Some (tab[k := ?fa])" "g_in_ifaddr ?m = g_in_ifaddr ?m2" "n_mem ?m = n_mem ?m2"
    by (simp_all add: linked_state_def)
  have e: "g_if_index n = int k" "chain (if_next_of ?m2) (g_ifnet ?m2) ifs" "8 \<le> g_if_indexlim ?m2"
    "length tab = nat (g_if_indexlim ?m2)" "\<And>j. j < k \<Longrightarrow> link_entry ?m2 ifs tab j"
    using at m2 tab by (auto simp: net_at_def entered_def)
  have "link_entry ?m ifs (tab[k := ?fa]) j" if "j < Suc k" for j
  proof (cases "j = k")
    case True
    then show ?thesis using k e(1,4) a(2,3) nz m1(2) by (simp add: link_entry_def ld la)
  next
    case False
    then have "ifs ! j \<noteq> ifp"
      using that k nth_eq_iff_index_eq [OF chain_distinct [OF e(2)], of j k] by simp
    then show ?thesis using e(5) [of j] False that by (simp add: link_entry_def ld la)
  qed
  then have "entered ?m ifs (Suc k)" using e(1-4) k(1,3) unfolding entered_def nx(1) g by simp
  moreover have "lists_end ?m"
    using m2 unfolding net_at_def lists_end_def nx la g(5) by (auto simp: ld split: if_splits)
  moreover have "mem_ok ?m" using m2 unfolding net_at_def mem_ok_def la g(6) by simp
  ultimately show ?thesis by (simp add: net_at_def)
qed

lemma quiet_tab: "quiet k n \<Longrightarrow> quiet (k\<lparr>g_ifnet_addrs := t\<rparr>) (n\<lparr>g_ifnet_addrs := t\<rparr>)"
proof -
  have "ldif (m\<lparr>g_ifnet_addrs := t\<rparr>) = ldif m" "ldifa (m\<lparr>g_ifnet_addrs := t\<rparr>) = ldifa m" for m
    by (simp_all add: fun_eq_iff ldif_def ldifa_def)
  then show "quiet k n \<Longrightarrow> quiet (k\<lparr>g_ifnet_addrs := t\<rparr>) (n\<lparr>g_ifnet_addrs := t\<rparr>)"
    by (simp add: quiet_def shape_def)
qed

lemma quiet_if_attach_dl [quiet_steps]: "if_attach_dl n dl i = Some n' \<Longrightarrow> quiet k n \<Longrightarrow> quiet k n'"
  unfolding if_attach_dl_def by (auto split: bind_splits elim!: quiet_steps simp: Let_def)

lemma quiet_ether_ifattach [quiet_steps]: "ether_ifattach n ifp = Some n' \<Longrightarrow> quiet k n \<Longrightarrow> quiet k n'"
  unfolding ether_ifattach_def by (auto elim!: quiet_steps)

lemma if_attach_addr_at:
  assumes run: "if_attach_addr n ifp = Some n'" and at: "net_at n ifs k" and k: "k < length ifs" "ifs ! k = ifp"
    "int k < g_if_indexlim n" and i: "ldif n ifp = Some i"
  shows "net_at n' ifs (Suc k)"
proof -
  let ?fa = "fresh (n_mem n)"
  have wf: "wf_mem (n_mem n)" using at by (simp add: net_at_def mem_ok_def)
  obtain h a dl i' n9 n10 tab where r: "wf_from (mm_next (n_mem n) + 1) h" "ifa_next a = 0" "ifa_in a = None" "ifa_ifp a = ifp"
    "if_attach_dl (linked_state n ifp i h a) dl i' = Some n9"
    "updifa n9 ?fa (\<lambda>a. a\<lparr>ifa_netmask := dl + sizeof_sockaddr_dl\<rparr>) = Some n10"
    "g_ifnet_addrs n10 = Some tab"
    "(if if_output i' = F_ether_output
      then ether_ifattach (n10\<lparr>g_ifnet_addrs := Some (tab[nat (g_if_index n10) - 1 := ?fa])\<rparr>) ifp
      else Some (n10\<lparr>g_ifnet_addrs := Some (tab[nat (g_if_index n10) - 1 := ?fa])\<rparr>)) = Some n'"
    using if_attach_addr_run [OF run i wf] by metis
  have "quiet (linked_state n ifp i h a) (linked_state n ifp i h a)"
    by (rule quiet_refl) (use r(1) in \<open>simp add: linked_state_def wf_from_def\<close>)
  then have q: "quiet (linked_state n ifp i h a) n10" using r(5,6) by (auto elim!: quiet_steps)
  have idx: "g_if_index n10 = int k + 1" "g_ifnet_addrs n = Some tab"
    using q r(7) at shape_sel(7,9) [of n10 "linked_state n ifp i h a"]
    by (simp_all add: quiet_def linked_state_def net_at_def entered_def)
  have n10: "nat (g_if_index n10) - 1 = k" by (simp add: idx(1) nat_add_distrib)
  have "quiet ((linked_state n ifp i h a)\<lparr>g_ifnet_addrs := Some (tab[k := ?fa])\<rparr>) n'"
    using r(8) quiet_tab [OF q, of "Some (tab[k := ?fa])"] unfolding n10 by (auto split: if_splits elim!: quiet_steps)
  then show ?thesis using enter_next [OF at k i r(1-4) idx(2)] by (rule net_at_quiet)
qed

text \<open>Attaching an interface that is not in the list and leads nowhere.\<close>

definition detached :: "net \<Rightarrow> addr \<Rightarrow> bool" where
  "detached n p \<longleftrightarrow> (\<forall>ifs. chain (if_next_of n) (g_ifnet n) ifs \<longrightarrow> p \<notin> set ifs)"

lemma if_attach_ok_at:
  assumes "if_attach n ifp = Some n'" "net_at n ifs (length ifs)" "ldif n ifp = Some i" "if_next i = 0" "detached n ifp"
  shows "net_at n' (ifs @ [ifp]) (length (ifs @ [ifp]))"
proof -
  obtain n1 n2 where s: "if_attach_link n ifp = Some n1" "if_attach_grow n1 = Some n2" "if_attach_addr n2 ifp = Some n'"
    using assms(1) by (auto simp: if_attach_def bind_eq_Some_conv)
  have "ifp \<notin> set ifs" using assms(2,5) by (simp add: detached_def net_at_def entered_def)
  then have n1: "net_at n1 (ifs @ [ifp]) (length ifs)" "ldif n1 ifp = Some i"
    using if_attach_link_at [OF s(1) assms(2-4)] by simp_all
  have "net_at n2 (ifs @ [ifp]) (length ifs)" "ldif n2 ifp = Some i" "int (length ifs) < g_if_indexlim n2"
    using if_attach_grow_at [OF s(2) n1(1)] n1(2) by simp_all
  then show ?thesis using if_attach_addr_at [OF s(3)] by simp
qed

section \<open>Attaching by the drivers\<close>

lemma reset_detached:
  assumes u: "updif n p f = Some n'" and at: "net_at n ifs k" and d: "detached n p"
    and f: "\<And>i. if_next (f i) = 0 \<and> if_addrlist (f i) = if_addrlist i \<and> if_index (f i) = if_index i"
  shows "net_at n' ifs k \<and> detached n' p \<and> (\<exists>i. ldif n' p = Some i \<and> if_next i = 0)"
proof -
  obtain i where i: "ldif n p = Some i" "p \<noteq> 0" and n': "n' = n\<lparr>n_if := (n_if n)(p \<mapsto> f i)\<rparr>"
    using u by (rule updif_SomeE)
  have ld: "ldif n' r = (if r = p then Some (f i) else ldif n r)" for r using i(2) by (simp add: n')
  have la: "ldifa n' = ldifa n" "ldia n' = ldia n" "g_in_ifaddr n' = g_in_ifaddr n" "g_ifnet n' = g_ifnet n"
    by (simp_all add: n' fun_eq_iff ldia_def)
  have nx: "ifa_next_of n' = ifa_next_of n" "ia_next_of n' = ia_next_of n" "if_next_of n' = (if_next_of n)(p \<mapsto> 0)"
    using f by (simp_all add: fun_eq_iff if_next_of_def ifa_next_of_def ia_next_of_def la ld)
  have ch: "chain (if_next_of n) (g_ifnet n) ifs" and p: "p \<notin> set ifs"
    using at d by (auto simp: net_at_def entered_def detached_def)
  then have ch': "chain (if_next_of n') (g_ifnet n') ifs"
    unfolding nx la by (subst chain_cong [of _ _ "if_next_of n"]) auto
  have "ended (if_next_of n)" using at by (simp add: net_at_def lists_end_def)
  then have "ended (if_next_of n')" unfolding nx using ended_upd [OF _ i(2), of _ 0 "[]"] by simp
  then have "lists_end n'" using at i(1) f unfolding lists_end_def la nx(1,2) by (auto simp: net_at_def lists_end_def ld)
  moreover have "entered n' ifs k"
    by (rule entered_chain [of n, OF _ ch']) (use at i(1) f in \<open>auto simp: net_at_def ld la\<close>, simp_all add: n')
  moreover have "mem_ok n'" using at unfolding net_at_def mem_ok_def la by (simp add: n')
  moreover have "detached n' p" using chain_unique [OF ch'] p by (auto simp: detached_def)
  ultimately show ?thesis using f by (simp add: net_at_def ld)
qed

end
