(* ===== verification/Boot.thy ===== *)
theory Boot
  imports LeProps SlipProps
begin

text \<open>
  The start of the program, chapter 3 of \<open>main.c\<close>: the LANCE, loopback and SLIP interfaces are
  attached one after the other and the queues of all interfaces are given their length, so that the
  drivers, \<open>net/if.c\<close> and the interface table work on one network state.  The calls in between that
  print the structures are left out.
\<close>

section \<open>The run of main\<close>

record machine =
  mc_le :: "addr \<Rightarrow> le_softc option"
  mc_sl :: slip

definition main_attach :: "env \<Rightarrow> hp_device \<Rightarrow> machine \<Rightarrow> machine option" where
  "main_attach e dev s = do {
     (_, le) \<leftarrow> leattach \<lparr>l_net = s_net (mc_sl s), l_sc = mc_le s\<rparr> dev;
     n \<leftarrow> loopattach (l_net le) 6;
     sl \<leftarrow> slattach ((mc_sl s)\<lparr>s_net := n\<rparr>);
     n \<leftarrow> ifinit e (s_net sl);
     Some (s\<lparr>mc_le := l_sc le, mc_sl := sl\<lparr>s_net := n\<rparr>\<rparr>) }"

section \<open>One interface after the other\<close>

text \<open>The state between two attachments: the interfaces in the list with their full names, and those
  still to come, which no code has touched.  \<open>Q\<close> is what holds of the ends of their queues; no attach
  function moves them.\<close>

definition idle :: "(addr \<Rightarrow> addr \<Rightarrow> bool) \<Rightarrow> ifnet \<Rightarrow> bool" where
  "idle Q i \<longleftrightarrow> if_timer i = 0 \<and> Q (ifq_head (if_snd i)) (ifq_tail (if_snd i))"

definition attaching :: "(addr \<Rightarrow> addr \<Rightarrow> bool) \<Rightarrow> net \<Rightarrow> addr list \<Rightarrow> u_char list list \<Rightarrow> addr list \<Rightarrow> bool" where
  "attaching Q n ifs names todo \<longleftrightarrow> net_wf n \<and> iflist n ifs \<and> map (if_fullname n) ifs = map Some names \<and>
     (\<forall>p\<in>set ifs. \<exists>i. ldif n p = Some i \<and> idle Q i) \<and>
     (\<forall>p\<in>set todo. p \<notin> set ifs \<and> (\<exists>i. ldif n p = Some i \<and> idle Q i \<and> if_unit i = 0)) \<and>
     distinct todo \<and> 4 * length todo \<le> mm_quota (n_mem n) \<and> mm_next (n_mem n) + 4 * length todo < 2 ^ 50"

lemma fullname_setup: "same_setup (j\<lparr>if_next := x\<rparr>) j' \<Longrightarrow> ifunit_name j' = ifunit_name j"
  by (simp add: same_setup_def ifunit_name_def)

lemma net_wf_if: "net_wf (n\<lparr>n_if := f\<rparr>) = net_wf n"
  by (simp add: net_wf_def)

lemma iflist_other:
  assumes "p \<notin> set ifs"
  shows "iflist (n\<lparr>n_if := (n_if n)(p \<mapsto> i)\<rparr>) ifs = iflist n ifs"
proof -
  let ?n = "n\<lparr>n_if := (n_if n)(p \<mapsto> i)\<rparr>"
  have ld: "ldif ?n q = ldif n q" if "q \<in> set ifs" for q using that assms by auto
  have "chain (if_next_of ?n) (g_ifnet n) ifs = chain (if_next_of n) (g_ifnet n) ifs"
    by (rule chain_cong) (simp only: if_next_of_def ld)
  moreover have "if_entry ?n ifs tab k = if_entry n ifs tab k" if "k < length ifs" for tab k
    using ld [OF nth_mem [OF that]] by (simp add: if_entry_def)
  ultimately show ?thesis by (simp add: iflist_def split: option.splits)
qed

text \<open>Setting up the next interface and attaching it.\<close>

lemma attaching_next:
  assumes "attaching Q n ifs names (p # todo)" "ldif n p = Some i"
    "if_next i' = 0" "if_name i' = Some nm" "length nm + length (dec (sint (if_unit i'))) \<le> 11" "idle Q i'"
  shows "\<exists>n'. if_attach (n\<lparr>n_if := (n_if n)(p \<mapsto> i')\<rparr>) p = Some n' \<and> n_ac n' = n_ac n \<and> g_ifqmaxlen n' = g_ifqmaxlen n \<and>
    attaching Q n' (ifs @ [p]) (names @ [nm @ dec (sint (if_unit i'))]) todo"
proof -
  let ?n = "n\<lparr>n_if := (n_if n)(p \<mapsto> i')\<rparr>"
  have at: "net_wf ?n" "iflist ?n ifs" and p: "p \<notin> set ifs" "p \<noteq> 0" and td: "p \<notin> set todo" "distinct todo"
    and ifs: "map (if_fullname n) ifs = map Some names" "\<forall>q\<in>set ifs. \<exists>i. ldif n q = Some i \<and> idle Q i"
    and todo: "\<forall>q\<in>set todo. q \<notin> set ifs \<and> (\<exists>i. ldif n q = Some i \<and> idle Q i \<and> if_unit i = 0)"
    and room: "4 * length todo + 4 \<le> mm_quota (n_mem n)" "mm_next (n_mem n) + 4 * length todo + 4 < 2 ^ 50"
    using assms(1) ldif_nz [OF assms(2)] by (auto simp: attaching_def net_wf_if iflist_other)
  have ldp: "ldif ?n p = Some i'" using p by simp
  obtain n' where n': "if_attach ?n p = Some n'" "net_wf n'" "iflist n' (ifs @ [p])" "attach_frame ?n (ifs @ [p]) n'"
    using if_attach_ok [OF at ldp assms(3) p(1) assms(4,5)] room by auto
  note fr = n'(4) [unfolded attach_frame_def]
  have keep: "\<exists>j'. ldif n' q = Some j' \<and> ifunit_name j' = ifunit_name j \<and> idle Q j' = idle Q j" if l: "ldif ?n q = Some j" for q j
  proof -
    obtain j' where "ldif n' q = Some j'" "same_setup (j\<lparr>if_next := if_next j'\<rparr>) j'" using fr l by blast
    then show ?thesis using fullname_setup [of "if_next j'" j j'] by (simp add: same_setup_def idle_def)
  qed
  have name: "if_fullname n' q = if_fullname ?n q" if "ldif ?n q = Some j" for q j
    using keep [OF that] that by (auto simp: if_fullname_def)
  have old: "if_fullname n' q = if_fullname n q" "\<exists>i. ldif n' q = Some i \<and> idle Q i" if q: "q \<in> set ifs" for q
  proof -
    obtain j where j: "ldif n q = Some j" "idle Q j" using ifs(2) q by blast
    have "q \<noteq> p" using q p(1) by blast
    with j(1) have l: "ldif ?n q = Some j" by simp
    show "if_fullname n' q = if_fullname n q" using name [OF l] j(1) l by (simp add: if_fullname_def)
    show "\<exists>i. ldif n' q = Some i \<and> idle Q i" using keep [OF l] j(2) by auto
  qed
  have full: "if_fullname n' p = Some (nm @ dec (sint (if_unit i')))"
    using name [OF ldp] p assms(4,5) by (simp add: if_fullname_def ifunit_name_def Let_def)
  have "map (if_fullname n') ifs = map Some names"
    using ifs(1) old(1) by (metis map_eq_conv)
  moreover have "\<forall>q\<in>set todo. q \<notin> set (ifs @ [p]) \<and> (\<exists>i. ldif n' q = Some i \<and> idle Q i \<and> if_unit i = 0)"
  proof
    fix q assume q: "q \<in> set todo"
    then have new: "q \<noteq> p" "q \<notin> set (ifs @ [p])" using todo td by auto
    then have "ldif n' q = ldif n q" using fr by simp
    then show "q \<notin> set (ifs @ [p]) \<and> (\<exists>i. ldif n' q = Some i \<and> idle Q i \<and> if_unit i = 0)"
      using todo q new(2) by simp
  qed
  moreover have "\<forall>q\<in>set (ifs @ [p]). \<exists>i. ldif n' q = Some i \<and> idle Q i"
    using old(2) keep [OF ldp] assms(6) by auto
  ultimately show ?thesis
    using n'(1-3) fr full td(2) room by (auto simp: attaching_def)
qed

text \<open>The 32 SLIP interfaces, with the records of the SLIP line beside them.\<close>

lemma short_dec: "k < 32 \<Longrightarrow> length (dec (int k)) \<le> 2"
proof -
  assume "k < 32"
  then have "k div 10 < 10" by simp
  then show ?thesis by (simp add: dec_def digits.simps [of k] digits.simps [of "k div 10"])
qed

lemma sint_unit: "k < 32 \<Longrightarrow> sint (word_of_nat k :: c_short) = int k"
  by (simp add: signed_of_nat signed_take_bit_int_eq_self_iff)

lemma slattach_one_ok:
  assumes "attaching Q (s_net s) ifs names (sl_addr k # todo)" "k < 32" "s_sc s (sl_addr k) = Some c"
  shows "\<exists>n'. slattach_one s k = Some (s\<lparr>s_net := n', s_sc := (s_sc s)(sl_addr k \<mapsto>
      c\<lparr>sc_fastq := (sc_fastq c)\<lparr>ifq_maxlen := 32\<rparr>, sc_flags := ucast (SC_AUTOCOMP OR SC_NOICMP)\<rparr>)\<rparr>) \<and>
    n_ac n' = n_ac (s_net s) \<and> g_ifqmaxlen n' = g_ifqmaxlen (s_net s) \<and> attaching Q n' (ifs @ [sl_addr k]) (names @ [[115, 108] @ dec (int k)]) todo"
proof -
  let ?p = "sl_addr k"
  obtain i where i: "ldif (s_net s) ?p = Some i" "idle Q i" using assms(1) by (auto simp: attaching_def)
  let ?i = "i\<lparr>if_name := Some [115, 108], if_next := 0, if_unit := word_of_nat k,
            if_flags := IFF_POINTOPOINT OR IFF_MULTICAST OR SC_AUTOCOMP,
            if_snd := (if_snd i)\<lparr>ifq_maxlen := g_ifqmaxlen (s_net s)\<rparr>,
            if_data := (if_data i)\<lparr>ifi_mtu := word_of_int SLMTU, ifi_type := IFT_SLIP, ifi_metric := 0, ifi_baudrate := 0\<rparr>,
            if_output := F_sloutput, if_ioctl := F_slioctl\<rparr>"
  obtain n' where n': "if_attach ((s_net s)\<lparr>n_if := (n_if (s_net s))(?p \<mapsto> ?i)\<rparr>) ?p = Some n'"
    "n_ac n' = n_ac (s_net s)" "g_ifqmaxlen n' = g_ifqmaxlen (s_net s)"
    "attaching Q n' (ifs @ [?p]) (names @ [[115, 108] @ dec (sint (if_unit ?i))]) todo"
    using attaching_next [OF assms(1) i(1), of ?i "[115, 108]"] i(2) short_dec [OF assms(2)] sint_unit [OF assms(2)]
    by (auto simp: idle_def)
  then have "attaching Q n' (ifs @ [?p]) (names @ [[115, 108] @ dec (int k)]) todo"
    using sint_unit [OF assms(2)] by simp
  moreover have "slattach_one s k = Some (s\<lparr>s_net := n', s_sc := (s_sc s)(?p \<mapsto>
      c\<lparr>sc_fastq := (sc_fastq c)\<lparr>ifq_maxlen := 32\<rparr>, sc_flags := ucast (SC_AUTOCOMP OR SC_NOICMP)\<rparr>)\<rparr>)"
    using n'(1) assms(3) updif_eq [OF i(1)]
    by (simp add: slattach_one_def onnet_def updsc_def ldsc_def sl_addr_def Let_def bpfattach_def)
  ultimately show ?thesis using n'(2,3) by blast
qed

lemma slattach_loop_ok:
  assumes "attaching Q (s_net s) ifs names (map sl_addr [k..<k + r])" "k + r \<le> 32" "\<forall>j<32. s_sc s (sl_addr j) \<noteq> None"
  shows "\<exists>s'. slattach_loop r s k = Some s' \<and> n_ac (s_net s') = n_ac (s_net s) \<and> g_ifqmaxlen (s_net s') = g_ifqmaxlen (s_net s) \<and>
    attaching Q (s_net s') (ifs @ map sl_addr [k..<k + r]) (names @ map (\<lambda>j. [115, 108] @ dec (int j)) [k..<k + r]) []"
  using assms
proof (induction r arbitrary: s k ifs names)
  case 0
  then show ?case by simp
next
  case (Suc r)
  have cons: "[k..<k + Suc r] = k # [k + 1..<k + 1 + r]" by (simp add: upt_conv_Cons)
  have k: "k < 32" using Suc.prems(2) by simp
  then obtain c where c: "s_sc s (sl_addr k) = Some c" using Suc.prems(3) by blast
  obtain s1 where s1: "slattach_one s k = Some s1" "n_ac (s_net s1) = n_ac (s_net s)" "g_ifqmaxlen (s_net s1) = g_ifqmaxlen (s_net s)"
    "attaching Q (s_net s1) (ifs @ [sl_addr k]) (names @ [[115, 108] @ dec (int k)]) (map sl_addr [k + 1..<k + 1 + r])"
    "\<forall>j<32. s_sc s1 (sl_addr j) \<noteq> None"
    using slattach_one_ok [OF Suc.prems(1) [unfolded cons list.map] k c] Suc.prems(3) by auto
  have "k + 1 + r \<le> 32" using Suc.prems(2) by simp
  from Suc.IH [OF s1(4) this s1(5)] s1(1-3) show ?case unfolding cons by simp
qed

section \<open>Initialising the queues\<close>

definition maxed :: "net \<Rightarrow> addr list \<Rightarrow> net" where
  "maxed n ifs = n\<lparr>n_if := (\<lambda>p. if p \<in> set ifs
     then map_option (\<lambda>i. i\<lparr>if_snd := (if_snd i)\<lparr>ifq_maxlen := g_ifqmaxlen n\<rparr>\<rparr>) (n_if n p) else n_if n p)\<rparr>"

lemma ldif_maxed:
  "ldif (maxed n ifs) p = (if p \<in> set ifs
     then map_option (\<lambda>i. i\<lparr>if_snd := (if_snd i)\<lparr>ifq_maxlen := g_ifqmaxlen n\<rparr>\<rparr>) (ldif n p) else ldif n p)"
  by (simp add: maxed_def ldif_def)

lemma if_next_maxed: "if_next_of (maxed n ifs) = if_next_of n"
  by (rule ext) (simp add: if_next_of_def ldif_maxed option.map_comp comp_def)

lemma ifinit_loop_chain: "chain (if_next_of n) p ifs \<Longrightarrow> ifinit_loop n p = Some (maxed n ifs)"
proof (induction ifs arbitrary: n p)
  case Nil
  then show ?case by (subst ifinit_loop.simps) (simp add: maxed_def)
next
  case (Cons a ifs)
  then obtain i where a: "p = a" "ldif n a = Some i" "chain (if_next_of n) (if_next i) ifs"
    by (auto simp: ifchain_Cons)
  let ?i = "i\<lparr>if_snd := (if_snd i)\<lparr>ifq_maxlen := g_ifqmaxlen n\<rparr>\<rparr>"
  let ?n = "n\<lparr>n_if := (n_if n)(a \<mapsto> ?i)\<rparr>"
  have nz: "a \<noteq> 0" using ldif_nz [OF a(2)] .
  have "if_next_of ?n = if_next_of n"
    using a(2) by (auto simp: fun_eq_iff if_next_of_upd if_next_of_Some)
  then have "ifinit_loop ?n (if_next i) = Some (maxed ?n ifs)" using Cons.IH a(3) by simp
  moreover have "maxed ?n ifs = maxed n (a # ifs)"
    using a(2) nz by (auto simp: maxed_def fun_eq_iff ldif_def)
  ultimately show ?case
    using a(1,2) nz by (subst ifinit_loop.simps) (simp add: updif_eq)
qed

lemma if_slowtimo_idle:
  "chain (if_next_of n) p ifs \<Longrightarrow> \<forall>q\<in>set ifs. \<exists>i. ldif n q = Some i \<and> if_timer i = 0 \<Longrightarrow> if_slowtimo_loop e n p = Some n"
proof (induction ifs arbitrary: p)
  case Nil
  then show ?case by (subst if_slowtimo_loop.simps) simp
next
  case (Cons a ifs)
  then obtain i where "p = a" "ldif n a = Some i" "if_timer i = 0" "chain (if_next_of n) (if_next i) ifs"
    by (auto simp: ifchain_Cons)
  moreover from this Cons have "if_slowtimo_loop e n (if_next i) = Some n" by simp
  ultimately show ?case using ldif_nz [of n a i] by (subst if_slowtimo_loop.simps) simp
qed

lemma iflist_maxed:
  assumes "iflist n ifs"
  shows "iflist (maxed n ifs) ifs"
proof -
  have "if_entry (maxed n ifs) ifs tab k" if "if_entry n ifs tab k" "k < length ifs" for tab k
    using that unfolding if_entry_def ldif_maxed by (auto simp: maxed_def ldifa_def split: if_splits)
  moreover have "g_ifnet (maxed n ifs) = g_ifnet n" "g_if_index (maxed n ifs) = g_if_index n"
    "g_if_indexlim (maxed n ifs) = g_if_indexlim n" "g_ifnet_addrs (maxed n ifs) = g_ifnet_addrs n"
    by (simp_all add: maxed_def)
  ultimately show ?thesis
    using assms unfolding iflist_def if_next_maxed by (auto split: option.splits)
qed

lemma ifinit_attached:
  assumes "attaching Q n ifs names []"
  shows "ifinit e n = Some (maxed n ifs) \<and> iflist (maxed n ifs) ifs \<and> map (if_fullname (maxed n ifs)) ifs = map Some names \<and>
    n_ac (maxed n ifs) = n_ac n \<and>
    (\<forall>p\<in>set ifs. map_option (\<lambda>i. ifq_maxlen (if_snd i)) (ldif (maxed n ifs) p) = Some (g_ifqmaxlen n))"
proof -
  have ch: "chain (if_next_of n) (g_ifnet n) ifs" and il: "iflist n ifs"
    and t: "\<forall>p\<in>set ifs. \<exists>i. ldif n p = Some i \<and> if_timer i = 0"
    and nm: "map (if_fullname n) ifs = map Some names"
    using assms by (auto simp: attaching_def iflist_def idle_def)
  have "g_ifnet (maxed n ifs) = g_ifnet n" by (simp add: maxed_def)
  moreover have t': "\<forall>p\<in>set ifs. \<exists>i. ldif (maxed n ifs) p = Some i \<and> if_timer i = 0"
    using t by (auto simp: ldif_maxed)
  ultimately have "if_slowtimo e (maxed n ifs) = Some (maxed n ifs)"
    using if_slowtimo_idle [of "maxed n ifs" "g_ifnet n" ifs] ch by (simp add: if_slowtimo_def if_next_maxed)
  then have "ifinit e n = Some (maxed n ifs)" by (simp add: ifinit_def ifinit_loop_chain [OF ch])
  moreover have "if_fullname (maxed n ifs) p = if_fullname n p" if "p \<in> set ifs" for p
    using t that by (auto simp: if_fullname_def ldif_maxed ifunit_name_def)
  then have "map (if_fullname (maxed n ifs)) ifs = map Some names"
    using nm by (metis (no_types, lifting) map_eq_conv)
  moreover have "\<forall>p\<in>set ifs. map_option (\<lambda>i. ifq_maxlen (if_snd i)) (ldif (maxed n ifs) p) = Some (g_ifqmaxlen n)"
    using t by (auto simp: ldif_maxed)
  ultimately show ?thesis using iflist_maxed [OF il] by (simp add: maxed_def)
qed

section \<open>The whole run\<close>

definition main_ifs :: "int \<Rightarrow> addr list" where
  "main_ifs u = (16 + 16 * nat u) # loif # map sl_addr [0..<32]"

definition main_names :: "int \<Rightarrow> u_char list list" where
  "main_names u = ([108, 101] @ dec u) # ([108, 111] @ dec 0) # map (\<lambda>k. [115, 108] @ dec (int k)) [0..<32]"

text \<open>The program before \<open>main\<close> runs: no interface in the list, the static structures zero as far as
  the attach functions rely on it, and memory for the table and four blocks per interface.\<close>

definition cold_with :: "(addr \<Rightarrow> addr \<Rightarrow> bool) \<Rightarrow> machine \<Rightarrow> hp_device \<Rightarrow> bool" where
  "cold_with Q s dev \<longleftrightarrow> (let n = s_net (mc_sl s) in net_wf n \<and> iflist n [] \<and> 0 \<le> hp_unit dev \<and> hp_unit dev < 32 \<and>
     (\<forall>p\<in>set (main_ifs (hp_unit dev)). \<exists>i. ldif n p = Some i \<and> idle Q i \<and> if_unit i = 0) \<and>
     (\<forall>k<32. s_sc (mc_sl s) (sl_addr k) \<noteq> None) \<and> n_ac n (16 + 16 * nat (hp_unit dev)) \<noteq> None \<and>
     nrd n (hp_addr dev) 6 \<noteq> None \<and> 136 \<le> mm_quota (n_mem n) \<and> mm_next (n_mem n) + 136 < 2 ^ 50)"

definition cold :: "machine \<Rightarrow> hp_device \<Rightarrow> bool" where
  "cold = cold_with (\<lambda>_ _. True)"

lemma main_ifs_distinct: "0 \<le> u \<Longrightarrow> u < 32 \<Longrightarrow> distinct (main_ifs u)"
  by (auto simp: main_ifs_def loif_def sl_addr_def distinct_map inj_on_def)

lemma leattach_ok:
  assumes "attaching Q (l_net s) [] [] (p # todo)" "le_addr (hp_unit dev) = Some p"
    "nrd (l_net s) (hp_addr dev) 6 = Some en" "n_ac (l_net s) p = Some ac"
  shows "\<exists>n'. leattach s dev = Some (0, s\<lparr>l_net := n'\<rparr>) \<and> g_ifqmaxlen n' = g_ifqmaxlen (l_net s) \<and>
    n_ac n' p = Some (ac\<lparr>ac_enaddr := en\<rparr>) \<and> attaching Q n' [p] [[108, 101] @ dec (hp_unit dev)] todo"
proof -
  let ?n = "(l_net s)\<lparr>n_ac := (n_ac (l_net s))(p \<mapsto> ac\<lparr>ac_enaddr := en\<rparr>)\<rparr>"
  have ld: "ldif ?n q = ldif (l_net s) q" for q by (simp add: ldif_def)
  have at: "attaching Q ?n [] [] (p # todo)"
    using assms(1) by (simp add: attaching_def net_wf_def iflist_def ld split: option.splits)
  obtain i where i: "ldif ?n p = Some i" "idle Q i" using at by (auto simp: attaching_def)
  let ?i = "i\<lparr>if_name := Some [108, 101], if_next := 0,
            if_unit := word_of_int (hp_unit dev), if_flags := IFF_SIMPLEX OR IFF_BROADCAST OR IFF_MULTICAST,
            if_snd := (if_snd i)\<lparr>ifq_maxlen := g_ifqmaxlen (l_net s)\<rparr>,
            if_data := (if_data i)\<lparr>ifi_type := IFT_ETHER, ifi_addrlen := 6, ifi_hdrlen := 14, ifi_mtu := ETHERMTU,
              ifi_metric := 0\<rparr>,
            if_init := F_leinit, if_start := F_lestart, if_ioctl := F_leioctl, if_reset := F_lereset,
            if_output := F_ether_output\<rparr>"
  have u: "0 \<le> hp_unit dev" "nat (hp_unit dev) < 32"
    using assms(2) by (auto simp: le_addr_def NLE_def split: if_splits)
  have un: "sint (word_of_int (hp_unit dev) :: c_short) = hp_unit dev"
    using sint_unit [OF u(2)] u(1) by simp
  have len: "length (dec (hp_unit dev)) \<le> 2" using short_dec [OF u(2)] u(1) by simp
  obtain n' where n': "if_attach (?n\<lparr>n_if := (n_if ?n)(p \<mapsto> ?i)\<rparr>) p = Some n'" "n_ac n' = n_ac ?n"
    "g_ifqmaxlen n' = g_ifqmaxlen ?n" "attaching Q n' ([] @ [p]) ([] @ [[108, 101] @ dec (sint (if_unit ?i))]) todo"
    using attaching_next [OF at i(1), of ?i "[108, 101]"] i(2) un len by (auto simp: idle_def)
  have "leattach s dev = Some (0, s\<lparr>l_net := n'\<rparr>)"
    using n'(1) assms(2-4) updif_eq [OF i(1)] by (simp add: leattach_def le_net_def bpfattach_def)
  then show ?thesis using n'(2-4) un by (intro exI [of _ n']) simp
qed

lemma loopattach_ok:
  assumes "attaching Q n ifs names (loif # todo)"
  shows "\<exists>n'. loopattach n k = Some n' \<and> n_ac n' = n_ac n \<and> g_ifqmaxlen n' = g_ifqmaxlen n \<and>
    attaching Q n' (ifs @ [loif]) (names @ [[108, 111] @ dec 0]) todo"
proof -
  obtain i where i: "ldif n loif = Some i" "idle Q i" "if_unit i = 0" using assms by (auto simp: attaching_def)
  let ?i = "i\<lparr>if_next := 0, if_name := Some [108, 111], if_flags := IFF_MULTICAST OR IFF_LOOPBACK,
            if_data := (if_data i)\<lparr>ifi_type := IFT_LOOP, ifi_mtu := LOMTU, ifi_metric := 0\<rparr>,
            if_output := F_looutput, if_ioctl := F_loioctl\<rparr>"
  obtain n' where "if_attach (n\<lparr>n_if := (n_if n)(loif \<mapsto> ?i)\<rparr>) loif = Some n'" "n_ac n' = n_ac n"
    "g_ifqmaxlen n' = g_ifqmaxlen n" "attaching Q n' (ifs @ [loif]) (names @ [[108, 111] @ dec (sint (if_unit ?i))]) todo"
    using attaching_next [OF assms i(1), of ?i "[108, 111]"] i(2,3) short_dec [of 0] by (auto simp: idle_def)
  then show ?thesis using i(3) updif_eq [OF i(1)] by (simp add: loopattach_def)
qed

text \<open>The states after each attach call.\<close>

lemma main_steps:
  assumes "cold_with Q s dev"
  obtains n1 n2 s3 where
    "leattach \<lparr>l_net = s_net (mc_sl s), l_sc = mc_le s\<rparr> dev = Some (0, \<lparr>l_net = n1, l_sc = mc_le s\<rparr>)"
    "attaching Q n1 [16 + 16 * nat (hp_unit dev)] [[108, 101] @ dec (hp_unit dev)] (loif # map sl_addr [0..<32])"
    "loopattach n1 6 = Some n2"
    "attaching Q n2 [16 + 16 * nat (hp_unit dev), loif] [[108, 101] @ dec (hp_unit dev), [108, 111] @ dec 0] (map sl_addr [0..<32])"
    "slattach ((mc_sl s)\<lparr>s_net := n2\<rparr>) = Some s3"
    "attaching Q (s_net s3) (main_ifs (hp_unit dev)) (main_names (hp_unit dev)) []"
    "g_ifqmaxlen (s_net s3) = g_ifqmaxlen (s_net (mc_sl s))"
    "map_option ac_enaddr (n_ac (s_net s3) (16 + 16 * nat (hp_unit dev))) = nrd (s_net (mc_sl s)) (hp_addr dev) 6"
proof -
  let ?n = "s_net (mc_sl s)" and ?u = "hp_unit dev"
  let ?p = "16 + 16 * nat ?u" and ?sl = "map sl_addr [0..<0 + 32]"
  note c = assms [unfolded cold_with_def Let_def]
  have p: "le_addr ?u = Some ?p" using c by (simp add: le_addr_def NLE_def)
  obtain en ac where en: "nrd ?n (hp_addr dev) 6 = Some en" "n_ac ?n ?p = Some ac" using c by blast
  have "attaching Q ?n [] [] (?p # loif # ?sl)"
    using c main_ifs_distinct [of ?u] by (simp add: attaching_def main_ifs_def)
  then obtain n1 where n1: "leattach \<lparr>l_net = ?n, l_sc = mc_le s\<rparr> dev = Some (0, \<lparr>l_net = n1, l_sc = mc_le s\<rparr>)"
      "g_ifqmaxlen n1 = g_ifqmaxlen ?n" "n_ac n1 ?p = Some (ac\<lparr>ac_enaddr := en\<rparr>)"
      "attaching Q n1 [?p] [[108, 101] @ dec ?u] (loif # ?sl)"
    using leattach_ok [of Q "\<lparr>l_net = ?n, l_sc = mc_le s\<rparr>" ?p "loif # ?sl" dev en ac] p en by auto
  obtain n2 where n2: "loopattach n1 6 = Some n2" "n_ac n2 = n_ac n1" "g_ifqmaxlen n2 = g_ifqmaxlen n1"
      "attaching Q n2 ([?p] @ [loif]) ([[108, 101] @ dec ?u] @ [[108, 111] @ dec 0]) ?sl"
    using loopattach_ok [OF n1(4)] by blast
  let ?s2 = "(mc_sl s)\<lparr>s_net := n2\<rparr>"
  obtain s3 where s3: "slattach ?s2 = Some s3" "n_ac (s_net s3) = n_ac n2" "g_ifqmaxlen (s_net s3) = g_ifqmaxlen n2"
      "attaching Q (s_net s3) (main_ifs ?u) (main_names ?u) []"
    using slattach_loop_ok [of Q ?s2 "[?p] @ [loif]" "[[108, 101] @ dec ?u] @ [[108, 111] @ dec 0]" 0 32] n2(4) c
    by (auto simp: slattach_def NSL_def main_ifs_def main_names_def)
  show ?thesis by (rule that [of n1 n2 s3]) (use n1 n2 s3 en(1) in simp_all)
qed

lemma main_attach_returns:
  assumes "cold s dev"
  shows "\<exists>s' n'. main_attach e dev s = Some s' \<and> s_net (mc_sl s') = n' \<and> iflist n' (main_ifs (hp_unit dev)) \<and>
    map (if_fullname n') (main_ifs (hp_unit dev)) = map Some (main_names (hp_unit dev)) \<and>
    (\<forall>p\<in>set (main_ifs (hp_unit dev)).
       map_option (\<lambda>i. ifq_maxlen (if_snd i)) (ldif n' p) = Some (g_ifqmaxlen (s_net (mc_sl s)))) \<and>
    map_option ac_enaddr (n_ac n' (16 + 16 * nat (hp_unit dev))) = nrd (s_net (mc_sl s)) (hp_addr dev) 6"
proof -
  obtain n1 n2 s3 where st: "leattach \<lparr>l_net = s_net (mc_sl s), l_sc = mc_le s\<rparr> dev = Some (0, \<lparr>l_net = n1, l_sc = mc_le s\<rparr>)"
    "loopattach n1 6 = Some n2" "slattach ((mc_sl s)\<lparr>s_net := n2\<rparr>) = Some s3"
    "attaching (\<lambda>_ _. True) (s_net s3) (main_ifs (hp_unit dev)) (main_names (hp_unit dev)) []"
    "g_ifqmaxlen (s_net s3) = g_ifqmaxlen (s_net (mc_sl s))"
    "map_option ac_enaddr (n_ac (s_net s3) (16 + 16 * nat (hp_unit dev))) = nrd (s_net (mc_sl s)) (hp_addr dev) 6"
    using main_steps [OF assms [unfolded cold_def]] by metis
  note fin = ifinit_attached [OF st(4), of e]
  have "main_attach e dev s = Some (s\<lparr>mc_le := mc_le s, mc_sl := s3\<lparr>s_net := maxed (s_net s3) (main_ifs (hp_unit dev))\<rparr>\<rparr>)"
    using st(1-3) fin by (simp add: main_attach_def)
  then show ?thesis using fin st(5,6) by simp
qed

text \<open>C17: the attach calls of \<open>main\<close> return and leave the Ethernet interface, the loopback interface
  and the 32 SLIP interfaces in the list and the index table, in that order, with the names
  \<open>le<u>\<close>, \<open>lo0\<close>, \<open>sl0\<close> to \<open>sl31\<close>; every output queue has the length
  \<open>ifqmaxlen\<close>, and the Ethernet interface has the hardware address of the device.\<close>

theorem main_attaches:
  assumes "cold s dev"
  shows "\<exists>s' n'. main_attach e dev s = Some s' \<and> s_net (mc_sl s') = n' \<and> iflist n' (main_ifs (hp_unit dev)) \<and>
    map (if_fullname n') (main_ifs (hp_unit dev)) = map Some (main_names (hp_unit dev)) \<and>
    (\<forall>p\<in>set (main_ifs (hp_unit dev)).
       map_option (\<lambda>i. ifq_maxlen (if_snd i)) (ldif n' p) = Some (g_ifqmaxlen (s_net (mc_sl s)))) \<and>
    map_option ac_enaddr (n_ac n' (16 + 16 * nat (hp_unit dev))) = nrd (s_net (mc_sl s)) (hp_addr dev) 6"
  using assms by (rule main_attach_returns)

definition demo_cold :: machine where
  "demo_cold = \<lparr>mc_le = Map.empty, mc_sl = (demo_slip [])\<lparr>s_net := demo_net\<lparr>n_mem := demo_mem\<lparr>mm_quota := 200\<rparr>,
     n_if := (\<lambda>_. Some zero_ifnet), n_ifa := Map.empty, n_ac := (\<lambda>_. Some \<lparr>ac_enaddr = [0, 0, 0, 0, 0, 0], ac_ipaddr = 0,
       ac_multiaddrs = 0, ac_multicnt = 0\<rparr>),
     g_ifnet := 0, g_if_index := 0, g_ifnet_addrs := None, g_in_ifaddr := 0\<rparr>, s_sc := (\<lambda>k. Some (demo_sc k))\<rparr>\<rparr>"

definition demo_dev :: hp_device where
  "demo_dev = \<lparr>hp_driver = 0, hp_cdriver = 0, hp_unit = 0, hp_ctlr_no = 0, hp_slave = 0, hp_addr = 12288, hp_dk = 0,
     hp_flags = 0, hp_alive = 1, hp_ipl = 0\<rparr>"

lemma demo_cold_cold: "cold demo_cold demo_dev"
proof -
  have "nrd (s_net (mc_sl demo_cold)) 12288 6 = Some [9, 8, 7, 6, 5, 4]"
    by (simp add: demo_cold_def nrd_def rd_def ld_def block_of_def slice_def demo_mem_def demo_def)
  moreover have "wf_mem (demo_mem\<lparr>mm_quota := 200\<rparr>)" using demo_mem_wf by (simp add: wf_mem_def)
  moreover have "mm_next demo_mem = 10" by (simp add: demo_mem_def)
  ultimately show ?thesis
    by (simp add: cold_def cold_with_def Let_def demo_cold_def demo_dev_def net_wf_def iflist_def main_ifs_def loif_def sl_addr_def
      ldif_def zero_ifnet_def idle_def)
qed

theorem main_attaches_witness:
  "\<exists>s'. main_attach demo_env demo_dev demo_cold = Some s' \<and> iflist (s_net (mc_sl s')) (16 # 8 # map sl_addr [0..<32])"
  using main_attaches [OF demo_cold_cold, of demo_env] by (auto simp: main_ifs_def demo_dev_def loif_def)

end
