(* ===== verification/Reach.thy ===== *)
theory Reach
  imports NetOps Boot
begin

text \<open>
  Runs of the whole program: a step is one call of an operation of the buffer, interface, internet
  address, loopback or Ethernet code, of the LANCE driver or of the serial line driver, with any
  arguments, in any order, on one network state.  A step carries the interface it attaches, if it does.
  \<open>machine_reach\<close> allows every sequence of steps.  \<open>machine_run\<close> asks of the caller, as the code does
  without checking, that an interface is attached only while it is not in the list: then every state
  satisfies \<open>net_ok\<close>, so that every loop over a list ends; attaching it again makes the list a cycle.
\<close>

section \<open>Steps\<close>

inductive net_step :: "env \<Rightarrow> addr option \<Rightarrow> net \<Rightarrow> net \<Rightarrow> bool" for e where
  mbuf: "mbuf_step (n_mem n) h \<Longrightarrow> net_step e None n (n\<lparr>n_mem := h\<rparr>)"
| ipintr: "IF_DEQUEUE (n_mem n) (g_ipintrq n) = Some (m, q) \<Longrightarrow> net_step e None n (n\<lparr>g_ipintrq := q\<rparr>)"
| arpintr: "IF_DEQUEUE (n_mem n) (g_arpintrq n) = Some (m, q) \<Longrightarrow> net_step e None n (n\<lparr>g_arpintrq := q\<rparr>)"
| clock: "net_step e None n (n\<lparr>g_time := BUMPTIME (g_time n) usec\<rparr>)"
| loopattach: "loopattach n k = Some n' \<Longrightarrow> net_step e (Some loif) n n'"
| ifinit: "ifinit e n = Some n' \<Longrightarrow> net_step e None n n'"
| if_slowtimo: "if_slowtimo e n = Some n' \<Longrightarrow> net_step e None n n'"
| if_up: "if_up n ifp = Some n' \<Longrightarrow> net_step e None n n'"
| if_down: "if_down e n ifp = Some n' \<Longrightarrow> net_step e None n n'"
| ifioctl: "ifioctl e junk so cmd d n = Some (r, d', n') \<Longrightarrow> net_step e None n n'"
| in_control: "in_control e so cmd d ifp n = Some (r, d', n') \<Longrightarrow> net_step e None n n'"
| loioctl: "loioctl ifp cmd d n = Some (r, d', n') \<Longrightarrow> net_step e None n n'"
| slioctl: "slioctl ifp cmd d n = Some (r, d', n') \<Longrightarrow> net_step e None n n'"
| looutput: "looutput ifp m dst rt n = Some (r, n') \<Longrightarrow> net_step e None n n'"
| ether_output: "ether_output e loc ifp m dst rt n = Some (r, n') \<Longrightarrow> net_step e None n n'"
| ether_input: "ether_input ifp eh m n = Some n' \<Longrightarrow> net_step e None n n'"

inductive slip_step :: "env \<Rightarrow> oproc \<Rightarrow> addr option \<Rightarrow> slip \<Rightarrow> slip \<Rightarrow> bool" for e oproc where
  slattach: "slattach_one s k = Some s' \<Longrightarrow> slip_step e oproc (Some (sl_addr k)) s s'"
| slopen: "slopen s dev tp = Some (r, s') \<Longrightarrow> slip_step e oproc None s s'"
| slclose: "slclose e s tp = Some s' \<Longrightarrow> slip_step e oproc None s s'"
| slinput: "slinput ch tp s = Some s' \<Longrightarrow> slip_step e oproc None s s'"
| slstart: "slstart oproc tp s = Some s' \<Longrightarrow> slip_step e oproc None s s'"
| sloutput: "sloutput oproc ifp m dst rt s = Some (r, s') \<Longrightarrow> slip_step e oproc None s s'"

inductive le_step :: "addr option \<Rightarrow> lest \<Rightarrow> lest \<Rightarrow> bool" where
  leattach: "leattach l dev = Some (r, l') \<Longrightarrow> le_addr (hp_unit dev) = Some p \<Longrightarrow> le_step (Some p) l l'"
| leread: "leread l u buf len = Some l' \<Longrightarrow> le_step None l l'"
| lestart: "lestart ifp l = Some (r, l') \<Longrightarrow> le_step None l l'"
| leioctl: "leioctl ifp cmd d l = Some (r, d', l') \<Longrightarrow> le_step None l l'"

inductive machine_step :: "env \<Rightarrow> oproc \<Rightarrow> addr option \<Rightarrow> machine \<Rightarrow> machine \<Rightarrow> bool" for e oproc where
  net: "net_step e a (s_net (mc_sl s)) n \<Longrightarrow> machine_step e oproc a s (s\<lparr>mc_sl := (mc_sl s)\<lparr>s_net := n\<rparr>\<rparr>)"
| slip: "slip_step e oproc a (mc_sl s) t \<Longrightarrow> machine_step e oproc a s (s\<lparr>mc_sl := t\<rparr>)"
| le: "le_step a \<lparr>l_net = s_net (mc_sl s), l_sc = mc_le s\<rparr> l \<Longrightarrow>
    machine_step e oproc a s (s\<lparr>mc_le := l_sc l, mc_sl := (mc_sl s)\<lparr>s_net := l_net l\<rparr>\<rparr>)"

text \<open>Any calls in any order, and those in which an interface is attached while it is not in the list.\<close>

inductive machine_reach :: "env \<Rightarrow> oproc \<Rightarrow> machine \<Rightarrow> machine \<Rightarrow> bool" for e oproc s0 where
  start: "machine_reach e oproc s0 s0"
| step: "machine_reach e oproc s0 s \<Longrightarrow> machine_step e oproc a s s' \<Longrightarrow> machine_reach e oproc s0 s'"

definition attach_ok :: "addr option \<Rightarrow> net \<Rightarrow> bool" where
  "attach_ok a n \<longleftrightarrow> (\<forall>p. a = Some p \<longrightarrow> detached n p)"

inductive machine_run :: "env \<Rightarrow> oproc \<Rightarrow> machine \<Rightarrow> machine \<Rightarrow> bool" for e oproc s0 where
  start: "machine_run e oproc s0 s0"
| step: "machine_run e oproc s0 s \<Longrightarrow> machine_step e oproc a s s' \<Longrightarrow> attach_ok a (s_net (mc_sl s)) \<Longrightarrow>
    machine_run e oproc s0 s'"

lemma attach_ok_simps [simp]: "attach_ok None n" "attach_ok (Some p) n \<longleftrightarrow> detached n p"
  by (simp_all add: attach_ok_def)

lemma run_reach: "machine_run e oproc s0 s \<Longrightarrow> machine_reach e oproc s0 s"
  by (induction rule: machine_run.induct) (auto intro: machine_reach.intros)

section \<open>Every step keeps the invariant\<close>

text \<open>What the code behind pointers has to observe.\<close>

definition hooks_ok :: "env \<Rightarrow> oproc \<Rightarrow> bool" where
  "hooks_ok e oproc \<longleftrightarrow> drivers_quiet e \<and> usrreq_control e \<and> oproc_quiet oproc"

lemma net_ok_step: "net_ok n \<Longrightarrow> (\<And>k. quiet k n \<Longrightarrow> quiet k n') \<Longrightarrow> net_ok n'"
  using net_ok_self net_ok_quiet by blast

lemma loopattach_at:
  assumes "loopattach n k = Some n'" "detached n loif" and at: "net_at n ifs (length ifs)"
  shows "net_at n' (ifs @ [loif]) (length (ifs @ [loif]))"
proof -
  obtain n1 where u: "updif n loif (\<lambda>i. i\<lparr>if_next := 0, if_name := Some [108, 111], if_flags := IFF_MULTICAST OR IFF_LOOPBACK,
            if_data := (if_data i)\<lparr>ifi_type := IFT_LOOP, ifi_mtu := LOMTU, ifi_metric := 0\<rparr>,
            if_output := F_looutput, if_ioctl := F_loioctl\<rparr>) = Some n1" and a: "if_attach n1 loif = Some n'"
    using assms(1) unfolding loopattach_def by (auto simp: bind_eq_Some_conv)
  have "net_at n1 ifs (length ifs) \<and> detached n1 loif \<and> (\<exists>i. ldif n1 loif = Some i \<and> if_next i = 0)"
    by (rule reset_detached [OF u at assms(2)]) simp
  then show ?thesis using if_attach_ok_at [OF a] by blast
qed

lemma slattach_at:
  assumes "slattach_one s k = Some s'" "detached (s_net s) (sl_addr k)" and at: "net_at (s_net s) ifs (length ifs)"
  shows "net_at (s_net s') (ifs @ [sl_addr k]) (length (ifs @ [sl_addr k]))"
proof -
  obtain s1 s2 s3 where u: "onnet s (\<lambda>n. updif n (sl_addr k) (\<lambda>i. i\<lparr>if_name := Some [115, 108], if_next := 0, if_unit := word_of_nat k,
            if_flags := IFF_POINTOPOINT OR IFF_MULTICAST OR SC_AUTOCOMP,
            if_snd := (if_snd i)\<lparr>ifq_maxlen := g_ifqmaxlen n\<rparr>,
            if_data := (if_data i)\<lparr>ifi_mtu := word_of_int SLMTU, ifi_type := IFT_SLIP, ifi_metric := 0, ifi_baudrate := 0\<rparr>,
            if_output := F_sloutput, if_ioctl := F_slioctl\<rparr>)) = Some s1" and
    m: "updsc s1 (sl_addr k) (\<lambda>c. c\<lparr>sc_fastq := (sc_fastq c)\<lparr>ifq_maxlen := 32\<rparr>,
            sc_flags := ucast (SC_AUTOCOMP OR SC_NOICMP)\<rparr>) = Some s2" and
    a: "onnet s2 (\<lambda>n. if_attach n (sl_addr k)) = Some s3" and fin: "s_net s' = s_net s3"
    using assms(1) unfolding slattach_one_def Let_def bpfattach_def by (auto simp: bind_eq_Some_conv onnet_def)
  obtain n1 where u': "updif (s_net s) (sl_addr k) (\<lambda>i. i\<lparr>if_name := Some [115, 108], if_next := 0, if_unit := word_of_nat k,
            if_flags := IFF_POINTOPOINT OR IFF_MULTICAST OR SC_AUTOCOMP,
            if_snd := (if_snd i)\<lparr>ifq_maxlen := g_ifqmaxlen (s_net s)\<rparr>,
            if_data := (if_data i)\<lparr>ifi_mtu := word_of_int SLMTU, ifi_type := IFT_SLIP, ifi_metric := 0, ifi_baudrate := 0\<rparr>,
            if_output := F_sloutput, if_ioctl := F_slioctl\<rparr>) = Some n1" "s_net s1 = n1"
    using u by (auto simp: onnet_def split: option.splits)
  have s2: "s_net s2 = n1" using m u'(2) by (auto simp: updsc_def split: option.splits)
  have "net_at n1 ifs (length ifs) \<and> detached n1 (sl_addr k) \<and> (\<exists>i. ldif n1 (sl_addr k) = Some i \<and> if_next i = 0)"
    by (rule reset_detached [OF u'(1) at assms(2)]) simp
  moreover have "if_attach n1 (sl_addr k) = Some (s_net s3)" using a s2 by (auto simp: onnet_def split: option.splits)
  ultimately show ?thesis using if_attach_ok_at unfolding fin by blast
qed

lemma le_net_Some: "le_net s f = Some s' \<longleftrightarrow> (\<exists>n. f (l_net s) = Some n \<and> s' = s\<lparr>l_net := n\<rparr>)"
  by (auto simp: le_net_def split: option.splits)

lemma leattach_at:
  assumes "leattach l dev = Some (r, l')" "le_addr (hp_unit dev) = Some p" "detached (l_net l) p"
    "net_at (l_net l) ifs (length ifs)"
  shows "net_at (l_net l') (ifs @ [p]) (length (ifs @ [p]))"
proof -
  obtain ac f n1 where
    u: "updif ((l_net l)\<lparr>n_ac := (n_ac (l_net l))(p \<mapsto> ac)\<rparr>) p f = Some n1" and
    f: "\<And>i. if_next (f i) = 0 \<and> if_addrlist (f i) = if_addrlist i \<and> if_index (f i) = if_index i" and
    a: "if_attach n1 p = Some (l_net l')"
    using assms(1,2) unfolding leattach_def bpfattach_def
    by (clarsimp simp: bind_eq_Some_conv le_net_Some)
  let ?n = "(l_net l)\<lparr>n_ac := (n_ac (l_net l))(p \<mapsto> ac)\<rparr>"
  have q: "quiet (l_net l) ?n" using assms(4) by (simp add: net_at_def mem_ok_def quiet_refl)
  then have at: "net_at ?n ifs (length ifs)" using assms(4) by (rule net_at_quiet)
  have "if_next_of ?n = if_next_of (l_net l)" using q shape_sel(1) [of ?n "l_net l"] by (simp add: quiet_def)
  then have "detached ?n p" using assms(3) by (simp add: detached_def)
  then have "net_at n1 ifs (length ifs) \<and> detached n1 p \<and> (\<exists>i. ldif n1 p = Some i \<and> if_next i = 0)"
    using reset_detached [OF u at _ f] by blast
  then show ?thesis using if_attach_ok_at [OF a] by blast
qed

lemma net_step_ok: "net_step e a n n' \<Longrightarrow> attach_ok a n \<Longrightarrow> net_ok n \<Longrightarrow> hooks_ok e oproc \<Longrightarrow> net_ok n'"
proof (induction rule: net_step.induct)
  case (mbuf n h)
  have "quiet n (n\<lparr>n_mem := h\<rparr>)"
    using net_ok_self [OF mbuf(3)] wf_mbuf_step [OF mbuf(1)] by (intro quiet_mem) (simp_all add: quiet_wf)
  then show ?case using mbuf(3) net_ok_quiet by blast
next
  case (loopattach n k n')
  then show ?case using loopattach_at unfolding net_ok_at attach_ok_simps by blast
next
  case (ifioctl junk so cmd d n r d' n')
  then show ?case using ifioctl_ok unfolding net_ok_at hooks_ok_def by blast
next
  case (in_control so cmd d ifp n r d' n')
  then show ?case using in_control_ok unfolding net_ok_at hooks_ok_def by blast
qed (auto simp: hooks_ok_def elim!: quiet_steps net_ok_step)

lemma slip_step_ok: "slip_step e oproc a s s' \<Longrightarrow> attach_ok a (s_net s) \<Longrightarrow> net_ok (s_net s) \<Longrightarrow> hooks_ok e oproc \<Longrightarrow> net_ok (s_net s')"
proof (induction rule: slip_step.induct)
  case (slattach s k s')
  then show ?case using slattach_at unfolding net_ok_at attach_ok_simps by blast
qed (auto simp: hooks_ok_def elim!: quiet_steps net_ok_step)

lemma le_step_ok: "le_step a l l' \<Longrightarrow> attach_ok a (l_net l) \<Longrightarrow> net_ok (l_net l) \<Longrightarrow> net_ok (l_net l')"
proof (induction rule: le_step.induct)
  case (leattach l dev r l' p)
  then show ?case using leattach_at unfolding net_ok_at attach_ok_simps by blast
qed (auto elim!: quiet_steps net_ok_step)

lemma machine_step_ok: "machine_step e oproc a s s' \<Longrightarrow> attach_ok a (s_net (mc_sl s)) \<Longrightarrow> net_ok (s_net (mc_sl s)) \<Longrightarrow> hooks_ok e oproc \<Longrightarrow> net_ok (s_net (mc_sl s'))"
  by (induction rule: machine_step.induct) (auto dest: net_step_ok slip_step_ok le_step_ok)

lemma machine_run_keeps:
  assumes "machine_run e oproc s0 s" "net_ok (s_net (mc_sl s0))" "hooks_ok e oproc"
  shows "net_ok (s_net (mc_sl s))"
  using assms by (induction rule: machine_run.induct) (auto intro: machine_step_ok)

text \<open>C1: every sequence of calls of the operations of the program, with any arguments and in any order,
  in which an interface is attached only while it is not in the list, keeps the invariant of the network
  state: the heap is well formed, every list of interfaces, of addresses and of internet addresses ends,
  every head points to an object, the indices number the interfaces in list order, and entry \<open>k\<close> of the
  table is a link-level address that points back to interface \<open>k\<close>.  Of the code behind pointers
  (\<open>hooks_ok\<close>) it is asked that drivers, protocols and the output of the terminal leave these lists alone.\<close>

theorem machine_run_ok:
  assumes "machine_run e oproc s0 s" "net_ok (s_net (mc_sl s0))" "hooks_ok e oproc"
  shows "net_ok (s_net (mc_sl s))"
  using assms by (rule machine_run_keeps)

section \<open>Attaching twice\<close>

lemma chain_after_path: "path nxt p as q \<Longrightarrow> chain nxt p cs \<Longrightarrow> \<exists>ds. cs = as @ ds \<and> chain nxt q ds"
proof (induction as arbitrary: p cs)
  case Nil
  then show ?case by simp
next
  case (Cons a as)
  obtain r where r: "p = a" "a \<noteq> 0" "nxt a = Some r" "path nxt r as q"
    using Cons.prems(1) by (auto simp: path.simps split: option.splits)
  then obtain cs' where "cs = a # cs'" "chain nxt r cs'" using Cons.prems(2) by (auto simp: chain_Cons_iff)
  with Cons.IH [OF r(4)] show ?case by auto
qed

lemma cycle_no_chain: "path nxt p as q \<Longrightarrow> q \<noteq> 0 \<Longrightarrow> nxt q = Some q \<Longrightarrow> \<not> chain nxt p cs"
  by (metis chain_after_path chain_Cons_iff chain_unique not_Cons_self2)

lemma if_attach_addr_lists:
  assumes "if_attach_addr n ifp = Some n'" "ldif n ifp = Some i" "wf_mem (n_mem n)"
  shows "if_next_of n' = if_next_of n \<and> g_ifnet n' = g_ifnet n"
proof -
  obtain h a dl i' n9 n10 tab where r: "wf_from (mm_next (n_mem n) + 1) h"
    "if_attach_dl (linked_state n ifp i h a) dl i' = Some n9"
    "updifa n9 (fresh (n_mem n)) (\<lambda>a. a\<lparr>ifa_netmask := dl + sizeof_sockaddr_dl\<rparr>) = Some n10"
    "(if if_output i' = F_ether_output
      then ether_ifattach (n10\<lparr>g_ifnet_addrs := Some (tab[nat (g_if_index n10) - 1 := fresh (n_mem n)])\<rparr>) ifp
      else Some (n10\<lparr>g_ifnet_addrs := Some (tab[nat (g_if_index n10) - 1 := fresh (n_mem n)])\<rparr>)) = Some n'"
    by (rule if_attach_addr_run [OF assms])
  let ?L = "linked_state n ifp i h a" and ?t = "\<lambda>n. n\<lparr>g_ifnet_addrs := Some (tab[nat (g_if_index n10) - 1 := fresh (n_mem n)])\<rparr>"
  have "quiet ?L ?L" by (rule quiet_refl) (use r(1) in \<open>simp add: linked_state_def wf_from_def\<close>)
  then have q: "quiet ?L n10" using r(2,3) by (auto elim!: quiet_steps)
  define tb where "tb = Some (tab[nat (g_if_index n10) - 1 := fresh (n_mem n)])"
  have "quiet (?L\<lparr>g_ifnet_addrs := tb\<rparr>) n'"
    using r(4) quiet_tab [OF q, of tb] unfolding tb_def by (auto split: if_splits elim!: quiet_steps)
  then have "if_next_of n' = if_next_of (?L\<lparr>g_ifnet_addrs := tb\<rparr>)" "g_ifnet n' = g_ifnet (?L\<lparr>g_ifnet_addrs := tb\<rparr>)"
    using shape_sel [of n' "?L\<lparr>g_ifnet_addrs := tb\<rparr>"] by (simp_all add: quiet_def)
  moreover have "if_next_of (?L\<lparr>g_ifnet_addrs := tb\<rparr>) = if_next_of n"
    using assms(2) ldif_nz [OF assms(2)] by (auto simp: fun_eq_iff if_next_of_def linked_state_def ldif_def)
  ultimately show ?thesis by (simp add: linked_state_def)
qed

text \<open>C12: \<open>loopattach\<close> for an interface that is in the list already makes the list a cycle: no walk along it
  comes to an end any more.  The code does not check for it, and \<open>main\<close> calls it once.\<close>

theorem loopattach_twice_cycles:
  assumes "net_at n ifs (length ifs)" "loif \<in> set ifs" "loopattach n k = Some n'"
  shows "\<not> chain (if_next_of n') (g_ifnet n') cs"
proof -
  obtain n1 where u: "updif n loif (\<lambda>i. i\<lparr>if_next := 0, if_name := Some [108, 111], if_flags := IFF_MULTICAST OR IFF_LOOPBACK,
            if_data := (if_data i)\<lparr>ifi_type := IFT_LOOP, ifi_mtu := LOMTU, ifi_metric := 0\<rparr>,
            if_output := F_looutput, if_ioctl := F_loioctl\<rparr>) = Some n1" and a: "if_attach n1 loif = Some n'"
    using assms(3) unfolding loopattach_def by (auto simp: bind_eq_Some_conv)
  obtain n2 n3 where s: "if_attach_link n1 loif = Some n2" "if_attach_grow n2 = Some n3" "if_attach_addr n3 loif = Some n'"
    using a by (auto simp: if_attach_def bind_eq_Some_conv)
  have nz: "loif \<noteq> 0" by (simp add: loif_def)
  have n1: "if_next_of n1 = (if_next_of n)(loif \<mapsto> 0)" "g_ifnet n1 = g_ifnet n" "n_mem n1 = n_mem n"
    using u nz by (auto simp: fun_eq_iff if_next_of_def ldif_def elim!: updif_SomeE)
  from assms(2) obtain as bs where ifs: "ifs = as @ loif # bs" "loif \<notin> set as" using split_list_first by fast
  have "chain (if_next_of n) (g_ifnet n) ifs" using assms(1) by (simp add: net_at_def entered_def)
  then have p: "path (if_next_of n) (g_ifnet n) as loif" unfolding ifs(1) chain_append by (metis chain.simps(2))
  then have p1: "path (if_next_of n1) (g_ifnet n1) as loif"
    unfolding n1 using ifs(2) by (subst path_cong [of _ _ "if_next_of n"]) auto
  then have "chain (if_next_of n1) (g_ifnet n1) (as @ [loif])"
    unfolding chain_append using nz by (intro exI [of _ loif]) (simp add: n1 chain.simps)
  note last = if_attach_last_chain [OF this]
  have "g_ifnet n1 \<noteq> 0" using p1 nz by (cases as) (auto simp: path.simps)
  then have l: "updif n1 loif (\<lambda>i. i\<lparr>if_next := loif\<rparr>) = Some n2" using s(1) last by (simp add: if_attach_link_def)
  then have n2: "if_next_of n2 = (if_next_of n1)(loif \<mapsto> loif)" "g_ifnet n2 = g_ifnet n1" "n_mem n2 = n_mem n1"
    using nz by (auto simp: fun_eq_iff if_next_of_def ldif_def elim!: updif_SomeE)
  obtain i where i: "ldif n2 loif = Some i" using l nz by (auto simp: ldif_def elim!: updif_SomeE)
  have wf: "wf_mem (n_mem n2)" using assms(1) n1(3) n2(3) by (simp add: net_at_def mem_ok_def)
  have n3: "if_next_of n3 = if_next_of n2" "g_ifnet n3 = g_ifnet n2" "wf_mem (n_mem n3)" "ldif n3 loif = Some i"
    using s(2) wf i wf_took [OF wf] wf_took [OF wf_took [OF wf]]
    by (auto simp: if_attach_grow_def Let_def fun_eq_iff if_next_of_def ldif_def bind_eq_Some_conv split: if_splits)
  have n': "if_next_of n' = if_next_of n2" "g_ifnet n' = g_ifnet n"
    using if_attach_addr_lists [OF s(3) n3(4,3)] n3 n1(2) n2(2) by simp_all
  have "path (if_next_of n') (g_ifnet n') as loif"
    using p1 ifs(2) unfolding n' n2 n1(2) by (subst path_cong [of _ _ "if_next_of n1"]) auto
  moreover have "if_next_of n' loif = Some loif" by (simp add: n' n2)
  ultimately show ?thesis using nz by (intro cycle_no_chain)
qed

section \<open>A run\<close>

definition demo_oproc :: oproc where
  "demo_oproc f tp s = Some s"

definition demo_machine :: machine where
  "demo_machine = \<lparr>mc_le = Map.empty, mc_sl = (demo_slip [])\<lparr>s_net := demo_net\<rparr>\<rparr>"

lemma demo_hooks_ok: "hooks_ok demo_env demo_oproc"
  by (auto simp: hooks_ok_def drivers_quiet_def usrreq_control_def oproc_quiet_def demo_env_def demo_oproc_def intro: quiet_refl)

lemma demo_net_ok: "net_ok demo_net"
proof -
  have i: "ldif demo_net p = (if p = 8 then Some demo_lo else if p = 16 then Some demo_le else None)" for p
    by (simp add: demo_net_def ldif_def)
  have a: "ldifa demo_net p = None \<or> p = 32768 \<or> p = 24576" for p by (simp add: demo_net_def ldifa_def)
  have ia: "ldia demo_net 32768 = None" by (simp add: ldia_def)
  have "chain (if_next_of demo_net) 8 [8]" "chain (if_next_of demo_net) 16 [16]" by (simp_all add: ifchain_Cons)
  then have "ended (if_next_of demo_net)"
    unfolding ended_def by (auto simp: if_next_of_def i split: if_splits)
  moreover have c: "chain (ifa_next_of demo_net) 24576 [24576]" "chain (ifa_next_of demo_net) 32768 [32768, 24576]"
    by (simp_all add: ifachain_Cons)
  then have "ended (ifa_next_of demo_net)"
    unfolding ended_def using a by (metis ifa_next_of_def option.distinct(1) option.map_disc_iff)
  moreover have "chain (ia_next_of demo_net) 24576 [24576]" by (simp add: iachain_Cons demo_ia_def)
  then have "ended (ia_next_of demo_net)"
    unfolding ended_def using a ia by (metis ia_next_of_def ldia_def option.case(1) option.distinct(1) option.map_disc_iff)
  ultimately have "lists_end demo_net" unfolding lists_end_def by (auto simp: i)
  moreover have "p div 4096 < mm_next (n_mem demo_net)" if "ldifa demo_net p = Some x" for p x
    using that a [of p] by auto
  then have "mem_ok demo_net" unfolding mem_ok_def using demo_mem_wf by simp
  moreover have "entered demo_net [8] (length [8])"
    by (simp add: entered_def ifchain_Cons link_entry_def)
  ultimately show ?thesis unfolding net_ok_def by blast
qed

theorem machine_run_ok_witness:
  "net_ok (demo_net\<lparr>n_if := (n_if demo_net)(16 \<mapsto> demo_le\<lparr>if_flags := if_flags demo_le OR IFF_UP\<rparr>)\<rparr>)"
proof -
  let ?n = "demo_net\<lparr>n_if := (n_if demo_net)(16 \<mapsto> demo_le\<lparr>if_flags := if_flags demo_le OR IFF_UP\<rparr>)\<rparr>"
  have "if_up demo_net 16 = Some ?n" by (simp add: if_up_def updif_def rt_ifmsg_def)
  then have "net_step demo_env None (s_net (mc_sl demo_machine)) ?n"
    by (intro net_step.if_up) (simp add: demo_machine_def)
  then have "machine_run demo_env demo_oproc demo_machine (demo_machine\<lparr>mc_sl := (mc_sl demo_machine)\<lparr>s_net := ?n\<rparr>\<rparr>)"
    by (intro machine_run.step [OF machine_run.start _ attach_ok_simps(1)] machine_step.net)
  from machine_run_ok [OF this _ demo_hooks_ok] show ?thesis using demo_net_ok by (simp add: demo_machine_def)
qed

theorem loopattach_twice_cycles_witness:
  "\<exists>n'. loopattach demo_net 0 = Some n' \<and> \<not> chain (if_next_of n') (g_ifnet n') [8]"
proof -
  let ?f = "\<lambda>i. i\<lparr>if_next := 0, if_name := Some [108, 111], if_flags := IFF_MULTICAST OR IFF_LOOPBACK,
            if_data := (if_data i)\<lparr>ifi_type := IFT_LOOP, ifi_mtu := LOMTU, ifi_metric := 0\<rparr>,
            if_output := F_looutput, if_ioctl := F_loioctl\<rparr>"
  let ?n1 = "demo_net\<lparr>n_if := (n_if demo_net)(8 \<mapsto> ?f demo_lo)\<rparr>"
  let ?i = "(?f demo_lo)\<lparr>if_next := 8\<rparr>"
  let ?n2 = "?n1\<lparr>n_if := (n_if ?n1)(8 \<mapsto> ?i)\<rparr>"
  have nm: "updif demo_net 8 ?f = Some ?n1" using updif_eq [of demo_net 8 demo_lo ?f] by simp
  have i1: "ldif ?n1 8 = Some (?f demo_lo)" by (simp add: ldif_def)
  have "chain (if_next_of ?n1) 8 ([] @ [8])" using i1 by (simp add: ifchain_Cons)
  then have "if_attach_last ?n1 8 = Some 8" by (rule if_attach_last_chain)
  moreover have "updif ?n1 8 (\<lambda>i. i\<lparr>if_next := 8\<rparr>) = Some ?n2" by (rule updif_eq [OF i1])
  ultimately have "if_attach_link ?n1 8 = Some ?n2" by (simp add: if_attach_link_def)
  moreover have "if_attach_grow ?n2 = Some ?n2" by (simp add: if_attach_grow_def)
  moreover have "\<exists>n'. if_attach_addr ?n2 8 = Some n' \<and> attached ?n2 8 ?i [32768, 0, 0, 0, 0, 0, 0, 0] n'"
    by (rule if_attach_rest [where nm = "[108, 111]"])
      (use demo_mem_wf in \<open>simp_all add: ldif_def demo_dec_0 demo_lo_def zero_ifnet_def\<close>)
  ultimately obtain n' where run: "loopattach demo_net 0 = Some n'"
    using nm by (auto simp: loopattach_def if_attach_def loif_def)
  have "net_at demo_net [8] (length [8])"
    using demo_net_ok by (simp add: net_ok_def net_at_def) (simp add: entered_def ifchain_Cons link_entry_def)
  from loopattach_twice_cycles [OF this _ run] show ?thesis using run by (simp add: loif_def)
qed

section \<open>Loops over the lists\<close>

lemma in_localaddr_loop_returns:
  "chain (ia_next_of n) p as \<Longrightarrow> in_localaddr_loop n test p = Some (if \<exists>a\<in>set as. \<exists>x. ldia n a = Some x \<and> test x then 1 else 0)"
proof (induction as arbitrary: p)
  case Nil
  then show ?case by (subst in_localaddr_loop.simps) simp
next
  case (Cons a as)
  then obtain x where x: "p = a" "ldia n a = Some x" "chain (ia_next_of n) (ia_next x) as" by (auto simp: iachain_Cons)
  then show ?case using Cons.IH [OF x(3)] ldia_nz [OF x(2)] by (subst in_localaddr_loop.simps) auto
qed

lemma in_netof_loop_returns: "chain (ia_next_of n) p as \<Longrightarrow> in_netof_loop n i net p \<noteq> None"
proof (induction as arbitrary: p)
  case Nil
  then show ?case by (subst in_netof_loop.simps) simp
next
  case (Cons a as)
  then obtain x where x: "p = a" "ldia n a = Some x" "chain (ia_next_of n) (ia_next x) as" by (auto simp: iachain_Cons)
  then show ?case using Cons.IH [OF x(3)] ldia_nz [OF x(2)] by (subst in_netof_loop.simps) auto
qed

lemma if_search_false:
  assumes "chain (if_next_of n) p ifs" "lists_end n"
  shows "if_search n (\<lambda>_. True) (\<lambda>_. Some False) p = Some 0"
  using assms(1)
proof (induction ifs arbitrary: p)
  case Nil
  then show ?case by (subst if_search.simps) simp
next
  case (Cons a ifs)
  then obtain i where i: "p = a" "ldif n a = Some i" "chain (if_next_of n) (if_next i) ifs" by (auto simp: ifchain_Cons)
  have "if_addrlist i = 0 \<or> ifa_next_of n (if_addrlist i) \<noteq> None"
    using addrlist_live [OF assms(2) i(2)] by (auto simp: ifa_next_of_def)
  then obtain as where as: "chain (ifa_next_of n) (if_addrlist i) as"
    using assms(2) ended_chain [of "ifa_next_of n" "if_addrlist i"] by (auto simp: lists_end_def)
  have "ifa_search n (\<lambda>_. Some False) (if_addrlist i) = Some 0"
  proof (subst ifas.srch_not_found [OF as])
    show "ldifa n b \<bind> (\<lambda>_. Some False) \<noteq> None" if "b \<in> set as" for b
      using chain_alloc [OF as that] by (auto simp: ifa_next_of_def)
    show "\<forall>b\<in>set as. ldifa n b \<bind> (\<lambda>_. Some False) \<noteq> Some True" by (auto simp: bind_eq_Some_conv)
  qed
  then show ?case using i Cons.IH [OF i(3)] ldif_nz [OF i(2)] by (subst if_search.simps) simp
qed

lemma ias_end: "lists_end n \<Longrightarrow> \<exists>as. chain (ia_next_of n) (g_in_ifaddr n) as"
  by (rule ended_chain) (auto simp: lists_end_def ia_next_of_def)

lemma IFP_TO_IA_returns:
  assumes "lists_end n"
  shows "\<exists>ia. IFP_TO_IA n ifp = Some ia \<and> (ia = 0 \<or> (\<exists>a. ldifa n ia = Some a \<and> ifa_ifp a = ifp))"
proof -
  obtain as where as: "chain (ia_next_of n) (g_in_ifaddr n) as" using ias_end [OF assms] by blast
  have t: "map_option (\<lambda>a. ifa_ifp a = ifp) (ldifa n b) \<noteq> None" if "b \<in> set as" for b
    using chain_alloc [OF as that] by (auto simp: ia_next_of_def ldia_def split: option.splits)
  obtain r where r: "IFP_TO_IA_loop n ifp (g_in_ifaddr n) = Some r"
    using by_ifp.srch_chain [OF as t] by blast
  then show ?thesis using by_ifp.srch_found [OF as t r] by (cases "r = 0") (auto simp: IFP_TO_IA_def)
qed

text \<open>C15: in every state such a run (\<open>machine_run\<close>) reaches, the loops over the address lists end: \<open>in_localaddr\<close> returns zero
  or one, \<open>in_netof\<close> a network, \<open>IFP_TO_IA\<close> null or an address of the interface asked for, and
  \<open>ifa_ifwithroute\<close>, whose loops are empty, null.\<close>

theorem reachable_lookups_return:
  assumes "machine_run e oproc s0 s" "net_ok (s_net (mc_sl s0))" "hooks_ok e oproc" "n = s_net (mc_sl s)"
  shows "(in_localaddr n a = Some 0 \<or> in_localaddr n a = Some 1) \<and> in_netof n a \<noteq> None \<and>
    (\<exists>ia. IFP_TO_IA n ifp = Some ia \<and> (ia = 0 \<or> (\<exists>x. ldifa n ia = Some x \<and> ifa_ifp x = ifp))) \<and>
    ifa_ifwithroute n fl dst gw = Some 0"
proof -
  have ok: "net_ok n" using machine_run_keeps [OF assms(1-3)] assms(4) by simp
  then have le: "lists_end n" by (simp add: net_ok_def)
  obtain as where as: "chain (ia_next_of n) (g_in_ifaddr n) as" using ias_end [OF le] by blast
  obtain ifs where ifs: "chain (if_next_of n) (g_ifnet n) ifs" using ok by (auto simp: net_ok_def entered_def)
  show ?thesis
    using in_localaddr_loop_returns [OF as] in_netof_loop_returns [OF as] IFP_TO_IA_returns [OF le]
      if_search_false [OF ifs le]
    by (auto simp: in_localaddr_def in_netof_def ifa_ifwithroute_def Let_def)
qed

theorem reachable_lookups_return_witness:
  "(in_localaddr demo_net 1 = Some 0 \<or> in_localaddr demo_net 1 = Some 1) \<and> in_netof demo_net 1 \<noteq> None"
  using reachable_lookups_return [OF machine_run.start _ demo_hooks_ok, of demo_machine demo_net 1] demo_net_ok
  by (simp add: demo_machine_def)

section \<open>The start of the program is a run\<close>

lemma detached_at: "net_at n ifs k \<Longrightarrow> p \<notin> set ifs \<Longrightarrow> detached n p"
  unfolding net_at_def entered_def detached_def using chain_unique by blast

lemma slattach_loop_run:
  assumes "slattach_loop r (mc_sl s) k = Some t" "machine_run e oproc s0 s" "net_at (s_net (mc_sl s)) ifs (length ifs)"
    "sl_addr ` {k..<k + r} \<inter> set ifs = {}"
  shows "machine_run e oproc s0 (s\<lparr>mc_sl := t\<rparr>)"
  using assms
proof (induction r arbitrary: s k ifs)
  case 0
  then have "s\<lparr>mc_sl := t\<rparr> = s" by (cases s) simp
  then show ?case using 0(2) by (simp only:)
next
  case (Suc r)
  obtain u where u: "slattach_one (mc_sl s) k = Some u" "slattach_loop r u (k + 1) = Some t"
    using Suc.prems(1) by (auto simp: bind_eq_Some_conv)
  have "sl_addr k \<in> sl_addr ` {k..<k + Suc r}" by simp
  then have "sl_addr k \<notin> set ifs" using Suc.prems(4) by blast
  then have d: "detached (s_net (mc_sl s)) (sl_addr k)" by (rule detached_at [OF Suc.prems(3)])
  have run: "machine_run e oproc s0 (s\<lparr>mc_sl := u\<rparr>)"
    using Suc.prems(2) u(1) d by (auto intro!: machine_run.step [OF _ machine_step.slip [OF slip_step.slattach]])
  have at: "net_at (s_net u) (ifs @ [sl_addr k]) (length (ifs @ [sl_addr k]))"
    by (rule slattach_at [OF u(1) d Suc.prems(3)])
  have "sl_addr k \<notin> sl_addr ` {k + 1..<k + 1 + r}" by (auto simp: sl_addr_def)
  moreover have "sl_addr ` {k + 1..<k + 1 + r} \<subseteq> sl_addr ` {k..<k + Suc r}" by (rule image_mono) auto
  ultimately have "sl_addr ` {k + 1..<k + 1 + r} \<inter> set (ifs @ [sl_addr k]) = {}" using Suc.prems(4) by (simp, blast)
  then show ?case using Suc.IH [of "s\<lparr>mc_sl := u\<rparr>" "k + 1" "ifs @ [sl_addr k]"] u(2) run at by simp
qed

lemma main_attach_reach:
  assumes "main_attach e dev s = Some s'" "net_ok (s_net (mc_sl s))" "g_ifnet (s_net (mc_sl s)) = 0"
    "distinct (main_ifs (hp_unit dev))"
  shows "machine_run e oproc s s'"
proof -
  let ?n = "s_net (mc_sl s)" and ?l = "\<lparr>l_net = s_net (mc_sl s), l_sc = mc_le s\<rparr>" and ?p = "16 + 16 * nat (hp_unit dev)"
  obtain r l n2 t n where run: "leattach ?l dev = Some (r, l)" "loopattach (l_net l) 6 = Some n2"
    "slattach ((mc_sl s)\<lparr>s_net := n2\<rparr>) = Some t" "ifinit e (s_net t) = Some n"
    "s' = s\<lparr>mc_le := l_sc l, mc_sl := t\<lparr>s_net := n\<rparr>\<rparr>"
    using assms(1) unfolding main_attach_def by (auto simp: bind_eq_Some_conv)
  have at0: "net_at ?n [] (length [])"
    using assms(2,3) by (auto simp: net_ok_at net_at_def entered_def split: option.splits)
  have p: "le_addr (hp_unit dev) = Some ?p" using run(1) unfolding leattach_def le_addr_def by (auto simp: bind_eq_Some_conv split: if_splits)
  have d: "?p \<noteq> loif" "sl_addr ` {0..<32} \<inter> {?p, loif} = {}"
    using assms(4) by (auto simp: main_ifs_def)
  let ?s1 = "s\<lparr>mc_le := l_sc l, mc_sl := (mc_sl s)\<lparr>s_net := l_net l\<rparr>\<rparr>"
  have d1: "detached (l_net ?l) ?p" using at0 by (intro detached_at) auto
  have r1: "machine_run e oproc s ?s1"
    by (rule machine_run.step [OF machine_run.start machine_step.le [OF le_step.leattach [OF run(1) p]]]) (use d1 in simp)
  have a1: "net_at (l_net l) [?p] (length [?p])" using leattach_at [OF run(1) p d1, of "[]"] at0 by simp
  have d2: "detached (l_net l) loif" using d(1) by (intro detached_at [OF a1]) auto
  have a2: "net_at n2 [?p, loif] (length [?p, loif])" using loopattach_at [OF run(2) d2 a1] by simp
  let ?s2 = "?s1\<lparr>mc_sl := (mc_sl ?s1)\<lparr>s_net := n2\<rparr>\<rparr>"
  have "net_step e (Some loif) (s_net (mc_sl ?s1)) n2" using net_step.loopattach [OF run(2)] by simp
  then have r2: "machine_run e oproc s ?s2" by (rule machine_run.step [OF r1 machine_step.net]) (use d2 in simp)
  have r3: "machine_run e oproc s (?s2\<lparr>mc_sl := t\<rparr>)"
    by (rule slattach_loop_run [OF _ r2, of NSL 0 _ "[?p, loif]"]) (use run(3) a2 d(2) in \<open>auto simp: slattach_def NSL_def\<close>)
  have "net_step e None (s_net (mc_sl (?s2\<lparr>mc_sl := t\<rparr>))) n" using net_step.ifinit [OF run(4)] by simp
  from machine_run.step [OF r3 machine_step.net [OF this]] show ?thesis by (simp add: run(5))
qed

text \<open>The attach calls of \<open>main\<close> are themselves such a run: from a cold machine they return, and every
  call is made while its interface is not attached, so that the invariant holds when they are done.\<close>

theorem main_attach_run:
  assumes "cold s dev" "net_ok (s_net (mc_sl s))"
  shows "\<exists>s'. main_attach e dev s = Some s' \<and> machine_run e oproc s s'"
proof -
  have c: "iflist (s_net (mc_sl s)) []" "distinct (main_ifs (hp_unit dev))"
    using assms(1) main_ifs_distinct by (auto simp: cold_def cold_with_def Let_def)
  obtain s' where "main_attach e dev s = Some s'" using main_attach_returns [OF assms(1), of e] by blast
  then show ?thesis using main_attach_reach [OF _ assms(2) _ c(2)] c(1) by (auto simp: iflist_def)
qed

lemma demo_cold_ok: "net_ok (s_net (mc_sl demo_cold))" (is "net_ok ?n")
proof -
  have i: "ldif ?n p = (if p = 0 then None else Some zero_ifnet)" for p by (simp add: demo_cold_def ldif_def)
  have a: "ldifa ?n p = None" "ldia ?n p = None" for p by (simp_all add: demo_cold_def ldia_def ldifa_def)
  have "chain (if_next_of ?n) p [p]" if "p \<noteq> 0" for p using that by (simp add: ifchain_Cons i zero_ifnet_def)
  then have "ended (if_next_of ?n)" unfolding ended_def by (metis i if_next_of_def option.distinct(1) option.map_disc_iff)
  moreover have "ended (ifa_next_of ?n)" "ended (ia_next_of ?n)" by (simp_all add: ended_def ifa_next_of_def ia_next_of_def a)
  moreover have "g_in_ifaddr ?n = 0" "if_addrlist zero_ifnet = 0" by (simp_all add: demo_cold_def zero_ifnet_def)
  ultimately have "lists_end ?n" unfolding lists_end_def by (auto simp: i)
  moreover have "mem_ok ?n" unfolding mem_ok_def a using demo_mem_wf by (simp add: demo_cold_def wf_mem_def)
  moreover have "entered ?n [] (length [])" by (simp add: entered_def demo_cold_def)
  ultimately show ?thesis unfolding net_ok_def by blast
qed

theorem main_attach_run_witness: "\<exists>s'. machine_run demo_env demo_oproc demo_cold s'"
  using main_attach_run [OF demo_cold_cold demo_cold_ok, of demo_env demo_oproc] by blast

end
