(* ===== verification/SlipRun.thy ===== *)
theory SlipRun
  imports Reach
begin

text \<open>
  The input buffers of the serial lines in every run of the program: whatever characters arrive, and
  whatever else is called in between, the next character goes into the buffer of the line.
\<close>

section \<open>Buffers\<close>

definition buf_ok :: "sl_softc \<Rightarrow> bool" where
  "buf_ok c \<longleftrightarrow> sc_buf c = ptr_add (sc_ep c) (- SLMAX) \<and> sc_buf c \<le> sc_mp c \<and> sc_mp c \<le> sc_ep c"

definition bufs_ok :: "slip \<Rightarrow> bool" where
  "bufs_ok s \<longleftrightarrow> (\<forall>p c. s_sc s p = Some c \<longrightarrow> buf_ok c)"

named_theorems buf_steps \<open>operations that keep the buffer pointers in order, one rule each\<close>

lemma ptr_add_le: "ptr_add p (- SLMAX) \<le> p"
  by (simp add: ptr_add_def SLMAX_def BUFOFFSET_def)

lemma ldsc_s_sc: "s_sc s' = s_sc s \<Longrightarrow> ldsc s' p = ldsc s p"
  by (simp add: ldsc_def)

lemma same_sc: "s_sc s' = s_sc s \<Longrightarrow> bufs_ok s' = bufs_ok s"
  by (simp add: bufs_ok_def)

lemma bufs_net [simp]:
  "bufs_ok (s\<lparr>s_net := n\<rparr>) = bufs_ok s" "bufs_ok (s\<lparr>tk_nin := k\<rparr>) = bufs_ok s"
  "bufs_ok (s\<lparr>mclrefcnt := r\<rparr>) = bufs_ok s" "bufs_ok (s\<lparr>mclfree := p\<rparr>) = bufs_ok s" "bufs_ok (s\<lparr>m_clfree := x\<rparr>) = bufs_ok s"
  by (simp_all add: bufs_ok_def)

lemma buf_updsc:
  "updsc s p f = Some s' \<Longrightarrow> bufs_ok s \<Longrightarrow> (\<And>c. ldsc s p = Some c \<Longrightarrow> buf_ok c \<Longrightarrow> buf_ok (f c)) \<Longrightarrow> bufs_ok s'"
  by (auto simp: updsc_def bufs_ok_def ldsc_def split: option.splits if_splits)

lemma buf_ok_upd [simp]:
  "buf_ok (c\<lparr>sc_fastq := q\<rparr>) = buf_ok c" "buf_ok (c\<lparr>sc_ttyp := t\<rparr>) = buf_ok c" "buf_ok (c\<lparr>sc_flags := f\<rparr>) = buf_ok c"
  "buf_ok (c\<lparr>sc_escape := e\<rparr>) = buf_ok c"
  by (simp_all add: buf_ok_def)

lemma buf_same [buf_steps]:
  "onnet s g = Some s' \<Longrightarrow> bufs_ok s \<Longrightarrow> bufs_ok s'"
  "updtty s tp h = Some s' \<Longrightarrow> bufs_ok s \<Longrightarrow> bufs_ok s'"
  "sl_count s p d = Some s' \<Longrightarrow> bufs_ok s \<Longrightarrow> bufs_ok s'"
  by (auto simp: onnet_def updtty_def sl_count_def bufs_ok_def split: option.splits)

lemma buf_updsc_same [buf_steps]:
  "updsc s p (\<lambda>c. c\<lparr>sc_fastq := q c\<rparr>) = Some s' \<Longrightarrow> bufs_ok s \<Longrightarrow> bufs_ok s'"
  "updsc s p (\<lambda>c. c\<lparr>sc_ttyp := t\<rparr>) = Some s' \<Longrightarrow> bufs_ok s \<Longrightarrow> bufs_ok s'"
  "updsc s p (\<lambda>c. c\<lparr>sc_flags := f c\<rparr>) = Some s' \<Longrightarrow> bufs_ok s \<Longrightarrow> bufs_ok s'"
  "updsc s p (\<lambda>c. c\<lparr>sc_escape := e\<rparr>) = Some s' \<Longrightarrow> bufs_ok s \<Longrightarrow> bufs_ok s'"
  "updsc s p (\<lambda>c. c\<lparr>sc_fastq := q c, sc_flags := f c\<rparr>) = Some s' \<Longrightarrow> bufs_ok s \<Longrightarrow> bufs_ok s'"
  "updsc s p (\<lambda>c. c\<lparr>sc_buf := 0, sc_mp := 0, sc_ep := 0\<rparr>) = Some s' \<Longrightarrow> bufs_ok s \<Longrightarrow> bufs_ok s'"
  by (erule (1) buf_updsc, simp add: buf_ok_def ptr_add_def SLMAX_def BUFOFFSET_def)+

section \<open>Opening and closing\<close>

lemma updsc_SomeE:
  assumes "updsc s p f = Some s'"
  obtains c where "ldsc s p = Some c" "p \<noteq> 0" "s' = s\<lparr>s_sc := (s_sc s)(p \<mapsto> f c)\<rparr>"
  using assms by (auto simp: updsc_def ldsc_def split: option.splits if_splits)

lemma buf_slinit [buf_steps]: "slinit s p = Some (r, s') \<Longrightarrow> bufs_ok s \<Longrightarrow> bufs_ok s'"
proof -
  assume run: "slinit s p = Some (r, s')" and ok: "bufs_ok s"
  obtain c :: sl_softc and s1 s2 where s0: "(if sc_ep c = 0
           then (let (b, h) = malloc_buf (nat MCLBYTES) (n_mem (s_net s)) in
                 updsc (s\<lparr>s_net := (s_net s)\<lparr>n_mem := h\<rparr>\<rparr>) p (\<lambda>c. c\<lparr>sc_ep := ptr_add b MCLBYTES\<rparr>))
           else Some s) = Some s1"
    and s: "updsc s1 p (\<lambda>c. c\<lparr>sc_buf := ptr_add (sc_ep c) (- SLMAX)\<rparr>) = Some s2"
      "updsc s2 p (\<lambda>c. c\<lparr>sc_mp := sc_buf c\<rparr>) = Some s'"
    using run unfolding slinit_def sl_compress_init_def 
    by (elim bindE) (clarify, rule that, assumption+)
  have "s_sc s1 q = s_sc s q" if "q \<noteq> p" for q
    using s0 that by (auto simp: Let_def split: if_splits prod.splits elim!: updsc_SomeE)
  then have other: "buf_ok d" if "s_sc s1 q = Some d" "q \<noteq> p" for q d using that ok by (auto simp: bufs_ok_def)
  have "buf_ok (d\<lparr>sc_buf := ptr_add (sc_ep d) (- SLMAX), sc_mp := ptr_add (sc_ep d) (- SLMAX)\<rparr>)" for d
    using ptr_add_le by (simp add: buf_ok_def)
  then show ?thesis using s other
    by (auto simp: bufs_ok_def ldsc_def split: if_splits elim!: updsc_SomeE)
qed

lemma buf_slopen_loop [buf_steps]: "slopen_loop r s k tp = Some (x, s') \<Longrightarrow> bufs_ok s \<Longrightarrow> bufs_ok s'"
  by (induction r arbitrary: s k) (auto split: bind_splits if_splits elim!: buf_steps)

lemma buf_slopen [buf_steps]: "slopen s dev tp = Some (x, s') \<Longrightarrow> bufs_ok s \<Longrightarrow> bufs_ok s'"
  unfolding slopen_def by (auto split: bind_splits if_splits elim!: buf_steps)

lemma buf_slattach_one [buf_steps]: "slattach_one s k = Some s' \<Longrightarrow> bufs_ok s \<Longrightarrow> bufs_ok s'"
  unfolding slattach_one_def by (auto split: bind_splits elim!: buf_steps simp: Let_def)

lemma buf_MCLFREE [buf_steps]: "MCLFREE s p = Some s' \<Longrightarrow> bufs_ok s \<Longrightarrow> bufs_ok s'"
  unfolding MCLFREE_def by (auto split: bind_splits if_splits elim!: buf_steps simp: Let_def)

lemma buf_slclose [buf_steps]: "slclose e s tp = Some s' \<Longrightarrow> bufs_ok s \<Longrightarrow> bufs_ok s'"
  unfolding slclose_def by (auto split: bind_splits if_splits elim!: buf_steps simp: Let_def)

section \<open>Input\<close>

lemma buf_newpack [buf_steps]: "sl_newpack s p = Some s' \<Longrightarrow> bufs_ok s \<Longrightarrow> bufs_ok s'"
  unfolding sl_newpack_def by (erule (1) buf_updsc) (use ptr_add_le in \<open>auto simp: buf_ok_def\<close>)

lemma buf_error [buf_steps]: "sl_error s p = Some s' \<Longrightarrow> bufs_ok s \<Longrightarrow> bufs_ok s'"
  unfolding sl_error_def by (auto split: bind_splits elim!: buf_steps)

lemma buf_store [buf_steps]: "sl_store s p ch = Some s' \<Longrightarrow> bufs_ok s \<Longrightarrow> bufs_ok s'"
proof -
  assume run: "sl_store s p ch = Some s'" and ok: "bufs_ok s"
  obtain c where c: "ldsc s p = Some c" and r: "(if sc_mp c < sc_ep c
     then do {
       s \<leftarrow> onnet s (\<lambda>n. nwr n (sc_mp c) [ucast ch]);
       updsc s p (\<lambda>c. c\<lparr>sc_mp := sc_mp c + 1, sc_escape := 0\<rparr>) }
     else do { s \<leftarrow> updsc s p (\<lambda>c. c\<lparr>sc_flags := sc_flags c OR SC_ERROR\<rparr>); sl_error s p }) = Some s'"
    using run unfolding sl_store_def by (elim bindE)
  show ?thesis
  proof (cases "sc_mp c < sc_ep c")
    case True
    then obtain t where t: "onnet s (\<lambda>n. nwr n (sc_mp c) [ucast ch]) = Some t"
      "updsc t p (\<lambda>c. c\<lparr>sc_mp := sc_mp c + 1, sc_escape := 0\<rparr>) = Some s'"
      using r by (auto simp: bind_eq_Some_conv)
    have "ldsc t p = Some c" using c t(1) by (auto simp: onnet_def ldsc_def split: option.splits if_splits)
    then show ?thesis using buf_updsc [OF t(2)] buf_same(1) [OF t(1) ok] True by (auto simp: buf_ok_def)
  next
    case False
    then show ?thesis using r ok by (auto simp: bind_eq_Some_conv elim!: buf_steps)
  qed
qed

lemma buf_input_parts [buf_steps]:
  "sl_tap_in s p chdr len = Some s' \<Longrightarrow> bufs_ok s \<Longrightarrow> bufs_ok s'"
  "sl_expand s p ch b len = Some (x, s') \<Longrightarrow> bufs_ok s \<Longrightarrow> bufs_ok s'"
  "sl_deliver s p ch len = Some (y, s') \<Longrightarrow> bufs_ok s \<Longrightarrow> bufs_ok s'"
  unfolding sl_tap_in_def sl_expand_def sl_deliver_def
  by (auto split: bind_splits if_splits prod.splits elim!: buf_steps simp: Let_def)

lemma buf_frame_end [buf_steps]: "sl_frame_end s p = Some (x, s') \<Longrightarrow> bufs_ok s \<Longrightarrow> bufs_ok s'"
  unfolding sl_frame_end_def by (auto split: bind_splits if_splits option.splits elim!: buf_steps simp: Let_def)

lemma buf_slinput [buf_steps]: "slinput ch tp s = Some s' \<Longrightarrow> bufs_ok s \<Longrightarrow> bufs_ok s'"
  unfolding slinput_def sl_switch_def
  by (auto split: bind_splits if_splits sl_next.splits elim!: buf_steps simp: Let_def)

section \<open>Output\<close>

lemma buf_output_parts [buf_steps]:
  "sl_dequeue s p = Some (m, s') \<Longrightarrow> bufs_ok s \<Longrightarrow> bufs_ok s'"
  "sl_tap_out s p m = Some s' \<Longrightarrow> bufs_ok s \<Longrightarrow> bufs_ok s'"
  "sl_squeeze s p m = Some s' \<Longrightarrow> bufs_ok s \<Longrightarrow> bufs_ok s'"
  "sl_putc s tp c = Some (r, s') \<Longrightarrow> bufs_ok s \<Longrightarrow> bufs_ok s'"
  unfolding sl_dequeue_def sl_tap_out_def sl_squeeze_def sl_putc_def
  by (auto split: bind_splits if_splits prod.splits elim!: buf_steps simp: Let_def)

lemma buf_sl_chars [buf_steps]:
  assumes "sl_chars s p tp cp xs = Some s'" "bufs_ok s"
  shows "bufs_ok s'"
proof -
  have "bufs_ok s \<longrightarrow> bufs_ok s'"
  proof (rule sl_chars.raw_induct [of "\<lambda>s p tp cp xs r. bufs_ok s \<longrightarrow> bufs_ok r", OF _ assms(1)], goal_cases)
    case 1
    note IH = 1(1) [rule_format]
    show ?case using 1(2) by (auto split: bind_splits if_splits elim!: buf_steps IH simp: Let_def)
  qed
  with assms show ?thesis by simp
qed

lemma buf_sl_packet [buf_steps]:
  assumes "sl_packet s p tp m = Some s'" "bufs_ok s"
  shows "bufs_ok s'"
proof -
  have "bufs_ok s \<longrightarrow> bufs_ok s'"
  proof (rule sl_packet.raw_induct [of "\<lambda>s p tp m r. bufs_ok s \<longrightarrow> bufs_ok r", OF _ assms(1)], goal_cases)
    case 1
    note IH = 1(1) [rule_format]
    show ?case using 1(2) by (auto split: bind_splits if_splits elim!: buf_steps IH)
  qed
  with assms show ?thesis by simp
qed

lemma buf_sl_send [buf_steps]: "sl_send s p tp m = Some s' \<Longrightarrow> bufs_ok s \<Longrightarrow> bufs_ok s'"
  unfolding sl_send_def sl_frame_def by (auto split: bind_splits if_splits elim!: buf_steps)

text \<open>The output procedures of the terminal drivers leave the interfaces alone.\<close>

definition oproc_keeps :: "oproc \<Rightarrow> bool" where
  "oproc_keeps oproc \<longleftrightarrow> (\<forall>f tp s s'. oproc f tp s = Some s' \<longrightarrow> s_sc s' = s_sc s)"

lemma buf_slstart_loop [buf_steps]:
  assumes "slstart_loop oproc p tp s = Some s'" "bufs_ok s" "oproc_keeps oproc"
  shows "bufs_ok s'"
proof -
  have "bufs_ok s \<longrightarrow> oproc_keeps oproc \<longrightarrow> bufs_ok s'"
  proof (rule slstart_loop.raw_induct [of "\<lambda>oproc p tp s r. bufs_ok s \<longrightarrow> oproc_keeps oproc \<longrightarrow> bufs_ok r",
        OF _ assms(1)], goal_cases)
    case 1
    note IH = 1(1) [rule_format]
    show ?case using 1(2)
      by (auto split: bind_splits if_splits elim!: buf_steps IH)
        (auto simp: oproc_keeps_def bufs_ok_def elim!: buf_steps IH)
  qed
  with assms show ?thesis by simp
qed

lemma buf_sl_enqueue [buf_steps]:
  "sl_enqueue oproc ifp p m fast s = Some (r, s') \<Longrightarrow> bufs_ok s \<Longrightarrow> oproc_keeps oproc \<Longrightarrow> bufs_ok s'"
  unfolding sl_enqueue_def slstart_def
  by (auto split: bind_splits if_splits prod.splits elim!: buf_steps simp: Let_def)

lemma buf_sloutput [buf_steps]:
  "sloutput oproc ifp m dst rt s = Some (r, s') \<Longrightarrow> bufs_ok s \<Longrightarrow> oproc_keeps oproc \<Longrightarrow> bufs_ok s'"
  unfolding sloutput_def by (auto split: bind_splits if_splits elim!: buf_steps)

lemma buf_slip_step: "slip_step e oproc a s s' \<Longrightarrow> bufs_ok s \<Longrightarrow> oproc_keeps oproc \<Longrightarrow> bufs_ok s'"
  by (cases rule: slip_step.cases) (auto simp: slstart_def split: bind_splits elim!: buf_steps)

section \<open>Runs\<close>

lemma machine_step_bufs: "machine_step e oproc a s s' \<Longrightarrow> bufs_ok (mc_sl s) \<Longrightarrow> oproc_keeps oproc \<Longrightarrow> bufs_ok (mc_sl s')"
  by (induction rule: machine_step.induct) (auto dest: buf_slip_step)

lemma machine_reach_bufs:
  "machine_reach e oproc s0 s \<Longrightarrow> bufs_ok (mc_sl s0) \<Longrightarrow> oproc_keeps oproc \<Longrightarrow> bufs_ok (mc_sl s)"
  by (induction rule: machine_reach.induct) (auto dest: machine_step_bufs)

text \<open>C8: in every state a run reaches, the input pointer of every serial line lies between the start of its
  buffer, \<open>SLMAX\<close> bytes before the end of its cluster, and that end: \<open>slinput\<close> never stores a character
  outside the buffer, whatever arrives and whatever is called in between.\<close>

theorem slinput_bounded:
  assumes "machine_reach e oproc s0 s" "bufs_ok (mc_sl s0)" "oproc_keeps oproc" "s_sc (mc_sl s) p = Some c"
  shows "sc_buf c = ptr_add (sc_ep c) (- SLMAX) \<and> sc_buf c \<le> sc_mp c \<and> sc_mp c \<le> sc_ep c"
  using machine_reach_bufs [OF assms(1-3)] assms(4) unfolding bufs_ok_def buf_ok_def by blast

theorem slinput_bounded_witness: "sc_buf (demo_sc 0) = 36864 + 136 \<and> sc_mp (demo_sc 0) \<le> 36864 + 2048"
proof -
  have "buf_ok (demo_sc 0)" by (simp add: buf_ok_def demo_sc_def ptr_add_def SLMAX_def BUFOFFSET_def)
  then have "bufs_ok (mc_sl demo_machine)" by (auto simp: bufs_ok_def demo_machine_def demo_slip_def split: if_splits)
  from slinput_bounded [OF machine_reach.start this, of demo_oproc 1024 "demo_sc 0"] show ?thesis
    by (simp add: oproc_keeps_def demo_oproc_def demo_machine_def demo_slip_def demo_sc_def)
qed

end
