(* ===== verification/Print.thy ===== *)
theory Print
  imports Slip
begin

text \<open>
  The functions of \<open>test.c\<close> that print the structures of the program.  What such a call writes to
  standard output is its value, a string of bytes; it is undefined where the code follows a dangling
  pointer or gives \<open>%s\<close> a pointer to bytes that no zero ends.  How \<open>%p\<close> shows a pointer is left to
  the implementation by the C standard: the argument \<open>fp\<close>.
\<close>

section \<open>printf\<close>

type_synonym out = "u_char list option"
type_synonym show_ptr = "addr \<Rightarrow> u_char list"

definition lit :: "string \<Rightarrow> u_char list" where
  "lit s = map of_char s"

text \<open>The bytes from \<open>p\<close> to the next zero.\<close>

partial_function (option) cstr :: "mem \<Rightarrow> addr \<Rightarrow> out" where
  "cstr h p = do {
     c \<leftarrow> rd h p 1;
     if hd c = 0 then Some [] else do { s \<leftarrow> cstr h (p + 1); Some (hd c # s) } }"

text \<open>One output after the other.\<close>

fun outs :: "out list \<Rightarrow> out" where
  "outs [] = Some []"
| "outs (x # xs) = do { a \<leftarrow> x; b \<leftarrow> outs xs; Some (a @ b) }"

definition nl :: "u_char list" where "nl = [10]"

definition p_line :: "string \<Rightarrow> out" where "p_line s = Some (lit s @ nl)"
definition p_bytes :: "string \<Rightarrow> out \<Rightarrow> out" where
  "p_bytes s b = map_option (\<lambda>b. lit s @ b @ nl) b"
definition p_d :: "string \<Rightarrow> int \<Rightarrow> out" where "p_d s v = p_bytes s (Some (dec v))"
definition p_s :: "string \<Rightarrow> mem \<Rightarrow> addr \<Rightarrow> out" where "p_s s h p = p_bytes s (cstr h p)"
definition p_p :: "show_ptr \<Rightarrow> string \<Rightarrow> addr \<Rightarrow> out" where "p_p fp s p = p_bytes s (Some (fp p))"
definition p_ps :: "show_ptr \<Rightarrow> string \<Rightarrow> mem \<Rightarrow> addr \<Rightarrow> out" where
  "p_ps fp s h p = outs [Some (lit s), Some (fp p), Some (lit '' : ''), p_s '''' h p]"

definition start_line :: "string \<Rightarrow> out" where
  "start_line f = Some (nl @ lit ''**************'' @ lit f @ lit '' START************'' @ nl)"
definition end_line :: "string \<Rightarrow> out" where
  "end_line f = Some (lit ''**************'' @ lit f @ lit '' END************'' @ nl)"

definition section_of :: "string \<Rightarrow> out list \<Rightarrow> out" where
  "section_of f xs = outs (start_line f # xs @ [end_line f])"

section \<open>Buffers\<close>

partial_function (option) print_mbuf_seek :: "mem \<Rightarrow> addr \<Rightarrow> int \<Rightarrow> (addr \<times> int) option" where
  "print_mbuf_seek h m offset = do {
     b \<leftarrow> ld h m;
     if m_len b < offset then print_mbuf_seek h (m_next b) (offset - m_len b) else Some (m, offset) }"

partial_function (option) print_mbuf_loop :: "mem \<Rightarrow> addr \<Rightarrow> int \<Rightarrow> int \<Rightarrow> out" where
  "print_mbuf_loop h m offset len =
     (if len \<noteq> 0 \<and> m \<noteq> 0
      then do {
        b \<leftarrow> ld h m;
        s \<leftarrow> p_s '''' h (ptr_add (m_data b) offset);
        t \<leftarrow> print_mbuf_loop h (m_next b) 0 (len - min (m_len b - offset) len);
        Some (s @ t) }
      else Some [])"

definition print_mbuf :: "mem \<Rightarrow> addr \<Rightarrow> int \<Rightarrow> int \<Rightarrow> out" where
  "print_mbuf h m offset len = do {
     (m, offset) \<leftarrow> print_mbuf_seek h m offset;
     section_of ''print_mbuf'' [print_mbuf_loop h m offset len] }"

definition p_mbuf :: "show_ptr \<Rightarrow> mem \<Rightarrow> int \<Rightarrow> mbuf \<Rightarrow> out" where
  "p_mbuf fp h i b = outs [Some (dec i), Some (lit ''st mbuf: p=0x''), Some (fp (m_data b)),
     p_d '', m_len='' (m_len b), p_s ''content: '' h (m_data b)]"

partial_function (option) print_mbuf_content_loop :: "show_ptr \<Rightarrow> mem \<Rightarrow> addr \<Rightarrow> int \<Rightarrow> int \<Rightarrow> out" where
  "print_mbuf_content_loop fp h m i total_len =
     (if m \<noteq> 0
      then do {
        b \<leftarrow> ld h m;
        s \<leftarrow> p_mbuf fp h (i + 1) b;
        t \<leftarrow> print_mbuf_content_loop fp h (m_next b) (i + 1) (total_len + m_len b);
        Some (s @ t) }
      else p_d ''total_len='' total_len)"

definition print_mbuf_content :: "show_ptr \<Rightarrow> mem \<Rightarrow> addr \<Rightarrow> out" where
  "print_mbuf_content fp h m = section_of ''print_mbuf_content'' [print_mbuf_content_loop fp h m 0 0]"

definition print_ifqueue :: "show_ptr \<Rightarrow> mem \<Rightarrow> ifqueue \<Rightarrow> out" where
  "print_ifqueue fp h q = section_of ''print_ifqueue''
     [p_p fp ''if_snd.ifq_head @ '' (ifq_head q),
      p_p fp ''if_snd.ifq_tail @ '' (ifq_tail q),
      p_d ''if_snd.ifq_len: '' (ifq_len q),
      p_d ''if_snd.ifq_maxlen: '' (ifq_maxlen q),
      p_d ''if_snd.ifq_drops: '' (ifq_drops q),
      if ifq_head q \<noteq> 0 then print_mbuf_content fp h (ifq_head q) else p_line ''ifq->ifq_head is NULL'',
      if ifq_tail q \<noteq> 0 then print_mbuf_content fp h (ifq_tail q) else p_line ''ifq->ifq_tail is NULL'']"

section \<open>Addresses and interfaces\<close>

definition p_rd8 :: "string \<Rightarrow> net \<Rightarrow> addr \<Rightarrow> out" where
  "p_rd8 s n p = do { v \<leftarrow> rd8 n p; p_d s (uint v) }"
definition p_rd16 :: "string \<Rightarrow> net \<Rightarrow> addr \<Rightarrow> out" where
  "p_rd16 s n p = do { v \<leftarrow> rd16 n p; p_d s (uint v) }"

definition print_sockaddr_dl :: "net \<Rightarrow> addr \<Rightarrow> out" where
  "print_sockaddr_dl n sdl = section_of ''print_sockaddr_dl'' (if sdl \<noteq> 0 then
     [p_rd8 ''sdl_len: '' n sdl,
      p_rd8 ''sdl_family: '' n (sdl + 1),
      p_rd16 ''sdl_index: '' n (sdl + 2),
      p_rd8 ''sdl_type: '' n (sdl + 4),
      p_rd8 ''sdl_nlen: '' n (sdl + 5),
      p_rd8 ''sdl_alen: '' n (sdl + 6),
      p_rd8 ''sdl_slen: '' n (sdl + 7),
      p_s ''sdl_data: '' (n_mem n) (sdl + 8)] else [])"

definition print_ifaddr :: "show_ptr \<Rightarrow> net \<Rightarrow> addr \<Rightarrow> out" where
  "print_ifaddr fp n ifa = section_of ''print_ifaddr'' (if ifa \<noteq> 0 then [do {
     a \<leftarrow> ldifa n ifa;
     outs [p_p fp ''ifa_addr: '' (ifa_addr a),
       p_p fp ''ifa_dstaddr: '' (ifa_dstaddr a),
       p_p fp ''ifa_netmask: '' (ifa_netmask a),
       p_d ''ifa_flags: '' (uint (ifa_flags a)),
       p_d ''ifa_refcnt: '' (sint (ifa_refcnt a)),
       p_d ''ifa_metric: '' (ifa_metric a),
       print_sockaddr_dl n (ifa_addr a),
       print_sockaddr_dl n (ifa_dstaddr a),
       print_sockaddr_dl n (ifa_netmask a)] }] else [])"

text \<open>A \<open>u_long\<close> given to \<open>%d\<close> has the width of an \<open>int\<close> and is shown as one.\<close>

definition print_ifnet :: "show_ptr \<Rightarrow> net \<Rightarrow> addr \<Rightarrow> out" where
  "print_ifnet fp n ifp = section_of ''print_ifnet'' (if ifp \<noteq> 0 then [do {
     i \<leftarrow> ldif n ifp;
     let d = if_data i;
     outs [p_bytes ''if_name: '' (if_name i),
       p_d ''if_unit: '' (sint (if_unit i)),
       p_d ''if_index: '' (uint (if_index i)),
       p_d ''if_flags: '' (sint (if_flags i)),
       p_d ''if_pcount: '' (if_pcount i),
       p_d ''if_mtu: '' (sint (ifi_mtu d)),
       p_d ''if_type: '' (uint (ifi_type d)),
       p_d ''if_addrlen: '' (uint (ifi_addrlen d)),
       p_d ''if_hdrlen: '' (uint (ifi_hdrlen d)),
       p_d ''if_metric: '' (sint (ifi_metric d)),
       p_d ''if_baudrate: '' (sint (ifi_baudrate d)),
       p_d ''if_ipackets: '' (sint (ifi_ipackets d)),
       p_d ''if_ierrors: '' (sint (ifi_ierrors d)),
       p_d ''if_opackets: '' (sint (ifi_opackets d)),
       p_d ''if_oerrors: '' (sint (ifi_oerrors d)),
       p_d ''if_collisions: '' (sint (ifi_collisions d)),
       p_d ''if_ibytes: '' (sint (ifi_ibytes d)),
       p_d ''if_obytes: '' (sint (ifi_obytes d)),
       p_d ''if_imcasts: '' (sint (ifi_imcasts d)),
       p_d ''if_omcasts: '' (sint (ifi_omcasts d)),
       p_d ''if_iqdrops: '' (sint (ifi_iqdrops d)),
       p_d ''if_noproto: '' (sint (ifi_noproto d)),
       p_line ''if_lastchange: _1'',
       print_ifqueue fp (n_mem n) (if_snd i),
       print_ifaddr fp n (if_addrlist i)] }] else [])"

partial_function (option) print_global_ifnet_loop :: "show_ptr \<Rightarrow> net \<Rightarrow> addr \<Rightarrow> out" where
  "print_global_ifnet_loop fp n ifp =
     (if ifp \<noteq> 0
      then do {
        s \<leftarrow> print_ifnet fp n ifp;
        i \<leftarrow> ldif n ifp;
        t \<leftarrow> print_global_ifnet_loop fp n (if_next i);
        Some (s @ t) }
      else Some [])"

definition print_global_ifnet :: "show_ptr \<Rightarrow> net \<Rightarrow> out" where
  "print_global_ifnet fp n = section_of ''print_global_ifnet'' [print_global_ifnet_loop fp n (g_ifnet n)]"

text \<open>The loop reads the next entry of the table before it compares the counter with \<open>if_index\<close>: with
  no entry left that is a read behind the end of the table.\<close>

fun print_global_ifaddr_loop :: "show_ptr \<Rightarrow> net \<Rightarrow> addr list \<Rightarrow> int \<Rightarrow> out" where
  "print_global_ifaddr_loop fp n [] i = None"
| "print_global_ifaddr_loop fp n (pifa # tab) i =
     (if pifa \<noteq> 0 \<and> i < g_if_index n
      then outs [print_ifaddr fp n pifa, print_global_ifaddr_loop fp n tab (i + 1)]
      else Some [])"

definition print_global_ifaddr :: "show_ptr \<Rightarrow> net \<Rightarrow> out" where
  "print_global_ifaddr fp n = do {
     tab \<leftarrow> g_ifnet_addrs n;
     outs [start_line ''print_global_ifaddr'', print_global_ifaddr_loop fp n tab 0,
       Some (lit ''**************'' @ lit ''print_global_ifaddr'' @ lit '' END************'')] }"

text \<open>The counter only stops the loop at the end of the list.\<close>

fun ifnet_at :: "net \<Rightarrow> nat \<Rightarrow> addr \<Rightarrow> addr option" where
  "ifnet_at n 0 ifp = Some ifp"
| "ifnet_at n (Suc k) ifp = (if ifp \<noteq> 0 then do { i \<leftarrow> ldif n ifp; ifnet_at n k (if_next i) } else Some ifp)"

definition print_i_global_ifnet :: "show_ptr \<Rightarrow> net \<Rightarrow> int \<Rightarrow> out" where
  "print_i_global_ifnet fp n index = do {
     ifp \<leftarrow> ifnet_at n (nat index) (g_ifnet n);
     section_of ''print_i_global_ifnet''
       [if ifp = 0 then p_line ''index is out of range of global ifnet'' else Some [], print_ifnet fp n ifp] }"

text \<open>The pointer that is compared with \<open>NULL\<close> is the place in the table, not the entry.\<close>

definition print_i_global_ifaddr :: "show_ptr \<Rightarrow> net \<Rightarrow> int \<Rightarrow> out" where
  "print_i_global_ifaddr fp n index = do {
     tab \<leftarrow> g_ifnet_addrs n;
     guard (nat index < length tab);
     section_of ''print_i_global_ifaddr'' [print_ifaddr fp n (tab ! nat index)] }"

definition print_sockaddr :: "net \<Rightarrow> addr \<Rightarrow> out" where
  "print_sockaddr n sa = section_of ''print_sockaddr''
     [p_rd8 ''sa_len: '' n sa, p_rd8 ''sa_family: '' n (sa + 1), p_s ''sa_data: '' (n_mem n) (sa + 2)]"

section \<open>Requests\<close>

definition rd_ptr :: "net \<Rightarrow> addr \<Rightarrow> addr option" where
  "rd_ptr n p = map_option le_nat (nrd n p 8)"

definition print_ifreq :: "net \<Rightarrow> addr \<Rightarrow> out" where
  "print_ifreq n ifrq = section_of ''print_ifreq''
     [p_s ''ifr_name: '' (n_mem n) ifrq,
      print_sockaddr n (ifrq + 16),
      print_sockaddr n (ifrq + 16),
      print_sockaddr n (ifrq + 16),
      do { v \<leftarrow> rd16 n (ifrq + 16); p_d ''ifr_flags: '' (sint (ucast v :: c_short)) },
      do { v \<leftarrow> rd32 n (ifrq + 16); p_d ''ifr_metric: '' (sint v) },
      do { p \<leftarrow> rd_ptr n (ifrq + 16); p_s ''ifr_data: '' (n_mem n) p }]"

text \<open>The end of the loop is measured from the \<open>ifconf\<close> itself, not from the requests it points to.\<close>

partial_function (option) print_ifconf_loop :: "net \<Rightarrow> addr \<Rightarrow> int \<Rightarrow> out" where
  "print_ifconf_loop n ifrq lim =
     (if int ifrq < lim
      then do { s \<leftarrow> print_ifreq n ifrq; t \<leftarrow> print_ifconf_loop n (ifrq + 32) lim; Some (s @ t) }
      else Some [])"

definition print_ifconf :: "net \<Rightarrow> addr \<Rightarrow> out" where
  "print_ifconf n ifc = do {
     len \<leftarrow> rd32 n ifc;
     req \<leftarrow> rd_ptr n (ifc + 8);
     section_of ''print_ifconf'' [p_d ''ifc_len: '' (sint len), print_ifconf_loop n req (int ifc + sint len)] }"

section \<open>Serial lines\<close>

definition print_sl_softc :: "show_ptr \<Rightarrow> slip \<Rightarrow> addr \<Rightarrow> out" where
  "print_sl_softc fp s sl = do {
     c \<leftarrow> ldsc s sl;
     let n = s_net s;
     let h = n_mem n;
     section_of ''print_sl_softc''
       [print_ifnet fp n sl,
        print_ifqueue fp h (sc_fastq c),
        p_p fp ''sc_ttyp @ '' (sc_ttyp c),
        p_ps fp ''sc_mp @ '' h (sc_mp c),
        p_ps fp ''sc_ep @ '' h (sc_ep c),
        p_ps fp ''sc_buf @ '' h (sc_buf c),
        p_d ''sc_flags: '' (sint (sc_flags c)),
        p_d ''sc_escape: '' (sint (sc_escape c)),
        p_line ''sc_lasttime, sc_abortcount, sc_starttime'',
        p_line ''sc_comp: need function'',
        p_s ''sc_bpf: '' h (sc_bpf c)] }"

definition print_global_sl_softc :: "show_ptr \<Rightarrow> slip \<Rightarrow> out" where
  "print_global_sl_softc fp s = section_of ''print_global_sl_softc''
     (map (\<lambda>i. print_sl_softc fp s (sl_addr i)) [0..<32])"

definition print_i_global_sl_softc :: "show_ptr \<Rightarrow> slip \<Rightarrow> nat \<Rightarrow> out" where
  "print_i_global_sl_softc fp s i = section_of ''print_i_global_sl_softc'' [print_sl_softc fp s (sl_addr i)]"

end
