(* ===== verification/MainRun.thy ===== *)
theory MainRun
  imports Print Boot
begin

text \<open>
  The test program \<open>main.c\<close>: chapters 2 to 5, one after the other on one state, with what they print.
  Automatic arrays and string literals are blocks of the heap that no allocation request is counted
  for; an uninitialised one holds the junk of the heap.  Stores to local structures that no call reads
  (\<open>ifnet1\<close>, the route and the socket of chapter 4) have no counterpart, and neither has the
  unused variable \<open>dd\<close>.
\<close>

section \<open>Memory of main\<close>

definition stack_block :: "u_char list \<Rightarrow> mem \<Rightarrow> addr \<times> mem" where
  "stack_block bs h = (fresh h, h\<lparr>mm_next := mm_next h + 1, mm_buf := (mm_buf h)(fresh h \<mapsto> bs)\<rparr>)"

definition N :: nat where "N = 1024"

definition main_p :: "u_char list" where
  "main_p = lit ''it'' @ [39] @ lit ''s a test of mbuf on T460s, end...''"

text \<open>\<open>buf\<close>, filled with zeros, and the literal that \<open>p\<close> points to.\<close>

definition main_locals :: "mem \<Rightarrow> addr \<times> addr \<times> mem" where
  "main_locals h = (let (buf, h) = stack_block (replicate N 0) h; (p, h) = stack_block (main_p @ [0]) h in (buf, p, h))"

definition strlen :: "mem \<Rightarrow> addr \<Rightarrow> int option" where
  "strlen h p = map_option (\<lambda>s. int (length s)) (cstr h p)"

section \<open>Chapter 2\<close>

definition show_mbuf :: "show_ptr \<Rightarrow> mem \<Rightarrow> addr \<Rightarrow> int \<Rightarrow> out" where
  "show_mbuf fp h m offset = outs [print_mbuf h m offset 0, print_mbuf_content fp h m]"

definition MT_DATA :: int where "MT_DATA = 1"
definition MT_HEADER :: int where "MT_HEADER = 2"

definition main_chapter2 :: "show_ptr \<Rightarrow> addr \<Rightarrow> addr \<Rightarrow> mem \<Rightarrow> (u_char list \<times> mem) option" where
  "main_chapter2 fp buf p h = do {
     (m1, h) \<leftarrow> MGET h 0 MT_HEADER;
     (m2, h) \<leftarrow> MGET h 0 MT_DATA;
     l \<leftarrow> strlen h p;
     h \<leftarrow> m_copyback h m1 0 l p;
     o1 \<leftarrow> show_mbuf fp h m1 0;
     h \<leftarrow> m_copyback h m2 4 l p;
     o2 \<leftarrow> show_mbuf fp h m2 4;
     h \<leftarrow> m_adj h m1 (-5);
     o3 \<leftarrow> show_mbuf fp h m1 0;
     h \<leftarrow> m_cat h m1 m2;
     o4 \<leftarrow> show_mbuf fp h m1 0;
     h \<leftarrow> m_copydata h m1 4 5 buf;
     o5 \<leftarrow> show_mbuf fp h m1 0;
     o6 \<leftarrow> p_s '''' h buf;
     (m3, h) \<leftarrow> m_copym h m2 15 40 0;
     o7 \<leftarrow> show_mbuf fp h m3 0;
     let (ifnet1, h) = stack_block [] h;
     (m4, h) \<leftarrow> m_devget h buf 20 5 ifnet1;
     o8 \<leftarrow> show_mbuf fp h m4 0;
     Some (o1 @ o2 @ o3 @ o4 @ o5 @ o6 @ o7 @ o8, h) }"

section \<open>Chapter 3\<close>

definition show_ifs :: "show_ptr \<Rightarrow> net \<Rightarrow> out" where
  "show_ifs fp n = outs [print_global_ifnet fp n, print_global_ifaddr fp n]"

text \<open>The device structure: \<open>dev\<close> is what it holds uninitialised; its address is that of the literal.\<close>

definition main_dev :: "hp_device \<Rightarrow> net \<Rightarrow> hp_device \<times> net" where
  "main_dev dev n = (let (p, h) = stack_block (lit ''hp_addr'' @ [0]) (n_mem n) in
     (dev\<lparr>hp_addr := p, hp_unit := 0\<rparr>, n\<lparr>n_mem := h\<rparr>))"

definition main_chapter3 :: "show_ptr \<Rightarrow> env \<Rightarrow> hp_device \<Rightarrow> machine \<Rightarrow> (u_char list \<times> machine) option" where
  "main_chapter3 fp e dev s = do {
     let (d, n) = main_dev dev (s_net (mc_sl s));
     (_, le) \<leftarrow> leattach \<lparr>l_net = n, l_sc = mc_le s\<rparr> d;
     o1 \<leftarrow> show_ifs fp (l_net le);
     n \<leftarrow> loopattach (l_net le) 6;
     o2 \<leftarrow> show_ifs fp n;
     sl \<leftarrow> slattach ((mc_sl s)\<lparr>s_net := n\<rparr>);
     o3 \<leftarrow> show_ifs fp (s_net sl);
     n \<leftarrow> ifinit e (s_net sl);
     o4 \<leftarrow> print_global_ifnet fp n;
     Some (o1 @ o2 @ o3 @ o4, s\<lparr>mc_le := l_sc le, mc_sl := sl\<lparr>s_net := n\<rparr>\<rparr>) }"

section \<open>Chapter 4\<close>

text \<open>The bytes of a \<open>struct mbuf\<close>; \<open>pad\<close> is what its eight bytes of padding hold.\<close>

definition mbuf_bytes :: "u_char list \<Rightarrow> mbuf \<Rightarrow> u_char list" where
  "mbuf_bytes pad b = nat_le 8 (m_next b) @ nat_le 8 (m_nextpkt b) @ nat_le 4 (unat (word_of_int (m_len b) :: u_int)) @
     take 4 pad @ nat_le 8 (m_data b) @ nat_le 2 (unat (m_type b)) @ nat_le 2 (unat (m_flags b)) @ take 4 (drop 4 pad) @ m_dat b"

text \<open>The list of interfaces is written behind an \<open>ifconf\<close> at the front of the same array.\<close>

definition main_conf :: "net \<Rightarrow> net option" where
  "main_conf n = do {
     let (data, h) = stack_block (replicate 1024 0) (n_mem n);
     h \<leftarrow> wr h data (nat_le 4 1024);
     h \<leftarrow> wr h (data + 8) (nat_le 8 (data + 16));
     ifc \<leftarrow> rd h data 16;
     (_, _, n) \<leftarrow> ifconf (junk_bytes h 32) (n\<lparr>n_mem := h\<rparr>) (Bytes ifc);
     nwr n data (lit ''le0'' @ [0]) }"

definition main_chapter4 :: "show_ptr \<Rightarrow> addr \<Rightarrow> machine \<Rightarrow> (u_char list \<times> machine) option" where
  "main_chapter4 fp p s = do {
     let n = s_net (mc_sl s);
     let h = n_mem n;
     let eh = etherbroadcastaddr @ junk_bytes h 6 @ nat_le 2 (unat (htons ETHERTYPE_IP));
     let (buf, h) = stack_block (junk_bytes h 1024) h;
     (m1, h) \<leftarrow> MGET h 0 MT_HEADER;
     l \<leftarrow> strlen h p;
     h \<leftarrow> m_copyback h m1 0 l p;
     o1 \<leftarrow> print_mbuf h m1 0 l;
     h \<leftarrow> wr h buf eh;
     b \<leftarrow> ld h m1;
     h \<leftarrow> wr h (buf + sizeof_ether_header) (mbuf_bytes (junk_bytes h 8) b);
     le \<leftarrow> leread \<lparr>l_net = n\<lparr>n_mem := h\<rparr>, l_sc = mc_le s\<rparr> 5 buf 100;
     o2 \<leftarrow> print_mbuf (n_mem (l_net le)) m1 0 100;
     n \<leftarrow> main_conf (l_net le);
     Some (o1 @ o2, s\<lparr>mc_le := l_sc le, mc_sl := (mc_sl s)\<lparr>s_net := n\<rparr>\<rparr>) }"

section \<open>Chapter 5\<close>

definition zero_tty :: tty where
  "zero_tty = \<lparr>t_rawq = \<lparr>c_cc = 0, c_cf = 0, c_cl = 0\<rparr>, t_rawcc = 0, t_canq = \<lparr>c_cc = 0, c_cf = 0, c_cl = 0\<rparr>, t_cancc = 0,
     t_outq = \<lparr>c_cc = 0, c_cf = 0, c_cl = 0\<rparr>, t_outcc = 0, t_line = 0, t_dev = 0, t_state = 0, t_flags = 0,
     t_pgrp = 0, t_session = 0, t_rsel = \<lparr>si_pid = 0, si_flags = 0\<rparr>, t_wsel = \<lparr>si_pid = 0, si_flags = 0\<rparr>,
     t_termios = \<lparr>c_iflag = 0, c_oflag = 0, c_cflag = 0, c_lflag = 0, c_chars = replicate 20 0, c_ispeed = 0, c_ospeed = 0\<rparr>,
     t_winsize = \<lparr>ws_row = 0, ws_col = 0, ws_xpixel = 0, ws_ypixel = 0\<rparr>, t_oproc = 0, t_stop = 0, t_param = 0, t_sc = 0,
     t_column = 0, t_rocount = 0, t_rocol = 0, t_hiwat = 0, t_lowat = 0, t_gen = 0\<rparr>"

definition main_tt :: "u_int list" where
  "main_tt = [1, 0xdb, 0xdd, 0xdb, 2, 0xdb, 0xdc, 3, 4, 5, 6, 7, 0xc0]"

text \<open>The characters one after the other.\<close>

fun slinput_all :: "u_int list \<Rightarrow> addr \<Rightarrow> slip \<Rightarrow> slip option" where
  "slinput_all [] tp s = Some s"
| "slinput_all (c # cs) tp s = do { s \<leftarrow> slinput c tp s; slinput_all cs tp s }"

text \<open>\<open>rt\<close> is what is uninitialised in the route, \<open>sa\<close> in the socket address.\<close>

definition main_chapter5 ::
    "show_ptr \<Rightarrow> oproc \<Rightarrow> rtentry \<Rightarrow> u_char list \<Rightarrow> machine \<Rightarrow> (u_char list \<times> machine) option" where
  "main_chapter5 fp oproc rt sa s = do {
     let sl = mc_sl s;
     let (tp, h) = stack_block [] (n_mem (s_net sl));
     let ty = zero_tty\<lparr>t_termios := (t_termios zero_tty)\<lparr>c_ospeed := 150\<rparr>, t_sc := sl_addr 0, t_state := TS_CARR_ON\<rparr>;
     let sl = sl\<lparr>s_net := (s_net sl)\<lparr>n_mem := h\<rparr>, s_tty := (s_tty sl)(tp \<mapsto> ty)\<rparr>;
     (_, sl) \<leftarrow> slopen sl 0 tp;
     t \<leftarrow> ldtty sl tp;
     c \<leftarrow> ldsc sl (t_sc t);
     sl \<leftarrow> onnet sl (\<lambda>n. nwr n (sc_buf c) [0x70]);
     sl \<leftarrow> slinput_all main_tt tp sl;
     let (sap, h) = stack_block (patch (take 16 sa) 1 [AF_INET]) (n_mem (s_net sl));
     (m1, h) \<leftarrow> MGET h 0 0;
     let sl = sl\<lparr>s_net := (s_net sl)\<lparr>n_mem := h\<rparr>, cfreecount := 1500\<rparr>;
     (_, sl) \<leftarrow> sloutput oproc (sl_addr 0) m1 sap 0 sl;
     let sl = sl\<lparr>cfreecount := 0\<rparr>;
     (_, d) \<leftarrow> sltioctl sl tp SLIOCGUNIT (Bytes (nat_le 4 1)) 0;
     tt0 \<leftarrow> req_field d 0 4;
     t \<leftarrow> ldtty sl tp;
     i \<leftarrow> ldif (s_net sl) (t_sc t);
     o1 \<leftarrow> outs [Some (lit ''tt[0]: ''), Some (dec (sint (word_of_nat (le_nat tt0) :: u_int))),
       p_d '', if_unit: '' (sint (if_unit i))];
     let (rtp, h) = stack_block [] (n_mem (s_net sl));
     let n = (s_net sl)\<lparr>n_mem := h, n_rt := (n_rt (s_net sl))(rtp \<mapsto> rt\<lparr>rt_flags := RTF_UP\<rparr>)\<rparr>;
     h \<leftarrow> upd (n_mem n) m1 (\<lambda>b. b\<lparr>m_flags := m_flags b OR M_PKTHDR\<rparr>);
     (_, n) \<leftarrow> looutput (g_ifnet n) m1 sap rtp (n\<lparr>n_mem := h\<rparr>);
     o2 \<leftarrow> print_i_global_ifnet fp n 0;
     Some (o1 @ o2, s\<lparr>mc_sl := sl\<lparr>s_net := n\<rparr>\<rparr>) }"

section \<open>The program\<close>

definition main_run ::
    "show_ptr \<Rightarrow> env \<Rightarrow> oproc \<Rightarrow> hp_device \<Rightarrow> rtentry \<Rightarrow> u_char list \<Rightarrow> machine \<Rightarrow> (u_char list \<times> machine) option" where
  "main_run fp e oproc dev rt sa s = do {
     let (buf, p, h) = main_locals (n_mem (s_net (mc_sl s)));
     (o2, h) \<leftarrow> main_chapter2 fp buf p h;
     let s = s\<lparr>mc_sl := (mc_sl s)\<lparr>s_net := (s_net (mc_sl s))\<lparr>n_mem := h\<rparr>\<rparr>\<rparr>;
     (o3, s) \<leftarrow> main_chapter3 fp e dev s;
     (o4, s) \<leftarrow> main_chapter4 fp p s;
     (o5, s) \<leftarrow> main_chapter5 fp oproc rt sa s;
     Some (o2 @ o3 @ o4 @ o5, s) }"

end
