(* ===== verification/PrintProps.thy ===== *)
theory PrintProps
  imports MainRun
begin

text \<open>
  What the printing functions of \<open>test.c\<close> write: the lists in their order, the strings as far as
  their zero, and where they run off the end of a table or a string.
\<close>

text \<open>Pointers shown as decimal numbers, for the concrete states.\<close>

definition dec_ptr :: show_ptr where "dec_ptr p = dec (int p)"

section \<open>Strings and sequences\<close>

lemma outs_append: "outs (xs @ ys) = do { a \<leftarrow> outs xs; b \<leftarrow> outs ys; Some (a @ b) }"
  by (induction xs) (auto split: bind_splits)

lemma outs_None [simp]: "outs xs = None \<longleftrightarrow> None \<in> set xs"
  by (induction xs) (auto split: bind_splits)

lemma None_outs [simp]: "None = outs xs \<longleftrightarrow> None \<in> set xs"
  by (subst eq_commute) (rule outs_None)

lemma section_None [simp]: "section_of f xs = None \<longleftrightarrow> None \<in> set xs"
  unfolding section_of_def start_line_def end_line_def outs_None by auto

lemma p_None [simp]:
  "p_line s \<noteq> None" "p_d s v \<noteq> None" "p_p fp s p \<noteq> None"
  "None \<noteq> p_line s" "None \<noteq> p_d s v" "None \<noteq> p_p fp s p" "p_bytes s b = None \<longleftrightarrow> b = None"
  "p_s s h p = None \<longleftrightarrow> cstr h p = None" "None = p_bytes s b \<longleftrightarrow> b = None" "None = p_s s h p \<longleftrightarrow> cstr h p = None"
  by (auto simp: p_line_def p_d_def p_p_def p_bytes_def p_s_def)

text \<open>A string in a block ends at its first zero.\<close>

lemma rd_block:
  assumes "wf_mem h" "mm_buf h B = Some bs" "k + n \<le> length bs"
  shows "rd h (B + k) n = Some (slice k n bs)"
proof -
  have "B mod 4096 = 0" "length bs \<le> 4096" using assms(1,2) unfolding wf_mem_def by blast+
  with assms wf_buf_ld [OF assms(1,2)] show ?thesis by (intro rd_buf)
qed

lemma cstr_step:
  "rd h p 1 = Some [c] \<Longrightarrow> cstr h p = (if c = 0 then Some [] else do { s \<leftarrow> cstr h (p + 1); Some (c # s) })"
  by (subst cstr.simps) simp

lemma cstr_buf:
  assumes "mm_buf h B = Some bs" "wf_mem h" "k \<le> j" "j < length bs" "bs ! j = 0"
  shows "cstr h (B + k) = Some (takeWhile (\<lambda>c. c \<noteq> 0) (drop k bs))"
  using assms(3)
proof (induction "j - k" arbitrary: k)
  case 0
  have r: "rd h (B + k) 1 = Some (slice k 1 bs)"
    using assms(4) 0 by (intro rd_block [OF assms(2,1)]) simp
  have "drop k bs = bs ! k # drop (Suc k) bs" using assms(4) 0 by (simp add: Cons_nth_drop_Suc)
  moreover have "k = j" using 0 by simp
  ultimately show ?case using r assms(5) by (subst cstr.simps) (simp add: slice_def)
next
  case (Suc m)
  have r: "rd h (B + k) 1 = Some (slice k 1 bs)"
    using assms(4) Suc by (intro rd_block [OF assms(2,1)]) simp
  have d: "drop k bs = bs ! k # drop (Suc k) bs" using assms(4) Suc by (simp add: Cons_nth_drop_Suc)
  have "cstr h (B + Suc k) = Some (takeWhile (\<lambda>c. c \<noteq> 0) (drop (Suc k) bs))"
    using Suc.hyps(1) [of "Suc k"] Suc.hyps(2) Suc.prems by simp
  then show ?case using r d by (subst cstr.simps) (simp add: slice_def)
qed

section \<open>Packets\<close>

text \<open>What is shown for the mbuf \<open>a\<close>, the \<open>i\<close>th of a chain.\<close>

definition mbuf_lines :: "show_ptr \<Rightarrow> mem \<Rightarrow> int \<Rightarrow> addr \<Rightarrow> out" where
  "mbuf_lines fp h i a = do { b \<leftarrow> ld h a; p_mbuf fp h i b }"

lemma print_mbuf_content_chain:
  assumes "mchain h m as"
  shows "print_mbuf_content_loop fp h m i t =
    outs (map (\<lambda>k. mbuf_lines fp h (i + 1 + int k) (as ! k)) [0..<length as] @
      [p_d ''total_len='' (t + (\<Sum>a\<leftarrow>as. case ld h a of None \<Rightarrow> 0 | Some b \<Rightarrow> m_len b))])"
  using assms
proof (induction as arbitrary: m i t)
  case Nil
  then show ?case by (subst print_mbuf_content_loop.simps) (simp add: p_d_def p_bytes_def)
next
  case (Cons a as)
  then obtain b where a: "m = a" "ld h a = Some b" "mchain h (m_next b) as" by (auto simp: mchain_Cons)
  have up: "[0..<length (a # as)] = 0 # map Suc [0..<length as]" by (simp add: upt_conv_Cons map_Suc_upt del: upt_Suc)
  have "print_mbuf_content_loop fp h m i t = do {
      s \<leftarrow> mbuf_lines fp h (i + 1) a;
      t \<leftarrow> print_mbuf_content_loop fp h (m_next b) (i + 1) (t + m_len b); Some (s @ t) }"
    using a(1,2) ld_nz [OF a(2)] by (subst print_mbuf_content_loop.simps) (simp add: mbuf_lines_def)
  then show ?case unfolding up by (simp add: Cons.IH [OF a(3)] a(2) comp_def ac_simps)
qed

text \<open>\<open>print_mbuf_content\<close> shows the mbufs of a packet in their order, each with its number, pointer
  and length, and in the end the sum of the lengths.  The bytes it shows are those up to the next zero:
  neither the length of the mbuf nor the end of its data stops it.\<close>

theorem print_mbuf_content_lists:
  assumes "mchain h m as"
  shows "print_mbuf_content fp h m = section_of ''print_mbuf_content'' [outs (
    map (\<lambda>k. do {
        b \<leftarrow> ld h (as ! k);
        outs [Some (dec (1 + int k)), Some (lit ''st mbuf: p=0x''), Some (fp (m_data b)),
          p_d '', m_len='' (m_len b), p_bytes ''content: '' (cstr h (m_data b))] }) [0..<length as] @
    [p_d ''total_len='' (\<Sum>a\<leftarrow>as. case ld h a of None \<Rightarrow> 0 | Some b \<Rightarrow> m_len b)])]"
  using print_mbuf_content_chain [OF assms, of fp 0 0]
  by (simp add: print_mbuf_content_def mbuf_lines_def p_mbuf_def p_s_def)

text \<open>The second mbuf of the packet of \<open>Demo\<close> holds two bytes; what follows them in its block is zero.\<close>

theorem print_mbuf_content_lists_witness:
  "print_mbuf_content dec_ptr demo 4096 = section_of ''print_mbuf_content'' [outs [
     outs [Some (dec 1), Some (lit ''st mbuf: p=0x''), Some (dec_ptr 4152), p_d '', m_len='' 3, p_bytes ''content: '' (Some [1, 2, 3])],
     outs [Some (dec 2), Some (lit ''st mbuf: p=0x''), Some (dec_ptr 8232), p_d '', m_len='' 2, p_bytes ''content: '' (Some [4, 5])],
     p_d ''total_len='' 5]]"
proof -
  have "rd demo 4152 1 = Some [1]" "rd demo 4153 1 = Some [2]" "rd demo 4154 1 = Some [3]" "rd demo 4155 1 = Some [0]"
    "rd demo 8232 1 = Some [4]" "rd demo 8233 1 = Some [5]" "rd demo 8234 1 = Some [0]"
    by (simp_all add: rd_def demo_ld block_of_def) (simp_all add: demo_b1_def demo_b2_def slice_def)
  note c = this [THEN cstr_step]
  show ?thesis
    using print_mbuf_content_lists [OF demo_chain(1), of dec_ptr] by (simp add: c demo_ld upt_rec)
qed

section \<open>Lists of interfaces and addresses\<close>

lemma print_global_ifnet_chain:
  "chain (if_next_of n) p ifs \<Longrightarrow> print_global_ifnet_loop fp n p = outs (map (print_ifnet fp n) ifs)"
proof (induction ifs arbitrary: p)
  case Nil
  then show ?case by (subst print_global_ifnet_loop.simps) simp
next
  case (Cons a ifs)
  then obtain i where a: "p = a" "ldif n a = Some i" "chain (if_next_of n) (if_next i) ifs" by (auto simp: ifchain_Cons)
  then show ?case using ldif_nz [OF a(2)] Cons.IH [OF a(3)]
    by (subst print_global_ifnet_loop.simps) simp
qed

lemma print_global_ifaddr_tab:
  assumes "\<forall>k<m. tab ! k \<noteq> 0" "m \<le> length tab" "g_if_index n = i + int m"
  shows "print_global_ifaddr_loop fp n tab i =
    (if length tab = m then None else outs (map (print_ifaddr fp n) (take m tab)))"
  using assms
proof (induction m arbitrary: tab i)
  case 0
  then show ?case by (cases tab) auto
next
  case (Suc m)
  then obtain a tab' where t: "tab = a # tab'" by (cases tab) auto
  have "\<forall>k<m. tab' ! k \<noteq> 0" using Suc.prems(1) unfolding t by (metis Suc_less_eq nth_Cons_Suc)
  moreover have "a \<noteq> 0" using Suc.prems(1) unfolding t by (metis nth_Cons_0 zero_less_Suc)
  ultimately show ?case using Suc.IH [of tab' "i + 1"] Suc.prems by (auto simp: t split: bind_splits)
qed

lemma iflist_tabE:
  assumes "iflist n ifs" "g_ifnet_addrs n = Some tab"
  shows "\<forall>k<length ifs. tab ! k \<noteq> 0" "length ifs \<le> length tab" "length tab = nat (g_if_indexlim n)" "g_if_index n = int (length ifs)"
proof -
  show "\<forall>k<length ifs. tab ! k \<noteq> 0"
    using assms ldifa_nz by (fastforce simp: iflist_def if_entry_def)
  show "length ifs \<le> length tab" "length tab = nat (g_if_indexlim n)" "g_if_index n = int (length ifs)"
    using assms by (auto simp: iflist_def le_nat_iff)
qed

text \<open>C16: \<open>print_global_ifnet\<close> shows the interfaces in the order of the list and
  \<open>print_global_ifaddr\<close> their link-level addresses in the order of the indices.  But the second one
  reads an entry of the table before it asks whether there is one: when the table is full, as it is with
  8, 16 or 32 interfaces, it reads behind its end.\<close>

theorem print_lists_in_order:
  assumes "iflist n ifs" "g_ifnet_addrs n = Some tab"
  shows "print_global_ifnet fp n = section_of ''print_global_ifnet'' [outs (map (print_ifnet fp n) ifs)] \<and>
    print_global_ifaddr fp n =
      (if int (length ifs) = g_if_indexlim n then None
       else outs ([start_line ''print_global_ifaddr''] @ map (print_ifaddr fp n) (take (length ifs) tab) @
         [Some (lit ''**************'' @ lit ''print_global_ifaddr'' @ lit '' END************'')]))"
proof -
  note t = iflist_tabE [OF assms]
  have "chain (if_next_of n) (g_ifnet n) ifs" "8 \<le> g_if_indexlim n"
    using assms(1) table_size_ge by (simp_all add: iflist_def)
  moreover have "print_global_ifaddr_loop fp n tab 0 =
      (if length tab = length ifs then None else outs (map (print_ifaddr fp n) (take (length ifs) tab)))"
    using print_global_ifaddr_tab [OF t(1,2), of n 0 fp] t(4) by simp
  moreover have "length tab = length ifs \<longleftrightarrow> int (length ifs) = g_if_indexlim n" using t(2,3) calculation(2) by auto
  ultimately show ?thesis
    by (simp add: assms(2) print_global_ifnet_def print_global_ifnet_chain print_global_ifaddr_def outs_append)
qed

section \<open>What can be shown\<close>

lemma link_level_shown:
  assumes "link_level n fa" "wf_mem (n_mem n)"
  shows "print_ifaddr fp n fa \<noteq> None"
proof -
  obtain a bs where a: "ldifa n fa = Some a" "ifa_dstaddr a = 0" "ifa_netmask a = ifa_addr a + sizeof_sockaddr_dl"
    "mm_buf (n_mem n) (ifa_addr a) = Some bs" "length bs = 40" "bs ! 39 = 0"
    using assms(1) unfolding link_level_def by blast
  have c: "cstr (n_mem n) (ifa_addr a + k) \<noteq> None" if "k < 40" for k
    using cstr_buf [OF a(4) assms(2), of k 39] a(5,6) that by simp
  have r: "rd (n_mem n) (ifa_addr a + k) m \<noteq> None" if "k + m \<le> 40" for k m
    using rd_block [OF assms(2) a(4), of k m] a(5) that by simp
  have dl: "print_sockaddr_dl n (ifa_addr a + k) \<noteq> None" if "k \<le> 20" for k
    using c [of "k + 8"] r [of k 1] r [of "k + 1" 1] r [of "k + 2" 2] r [of "k + 4" 1] r [of "k + 5" 1] r [of "k + 6" 1] r [of "k + 7" 1] that
    by (auto simp: print_sockaddr_dl_def p_rd8_def p_rd16_def rd8_def rd16_def nrd_def add.assoc split: bind_splits)
  have "print_sockaddr_dl n 0 \<noteq> None" by (simp add: print_sockaddr_dl_def)
  then show ?thesis
    using dl [of 0] dl [of 20] a(1-3) by (auto simp: print_ifaddr_def sizeof_sockaddr_dl_def split: bind_splits)
qed

lemma ifnet_shown:
  assumes "ldif n p = Some i" "if_name i \<noteq> None" "ifq_head (if_snd i) = 0" "ifq_tail (if_snd i) = 0"
    "link_level n (if_addrlist i)" "wf_mem (n_mem n)"
  shows "print_ifnet fp n p \<noteq> None"
proof -
  have "print_ifqueue fp (n_mem n) (if_snd i) \<noteq> None" using assms(3,4) by (simp add: print_ifqueue_def)
  then show ?thesis
    using assms(1,2) link_level_shown [OF assms(5,6), of fp]
    by (auto simp: print_ifnet_def Let_def split: bind_splits)
qed

abbreviation no_packets :: "addr \<Rightarrow> addr \<Rightarrow> bool" where
  "no_packets qh qt \<equiv> qh = 0 \<and> qt = 0"

lemma attaching_shown:
  assumes "attaching no_packets n ifs names todo" "ifs \<noteq> []"
  shows "print_global_ifnet fp n \<noteq> None" and "int (length ifs) < g_if_indexlim n \<Longrightarrow> show_ifs fp n \<noteq> None"
proof -
  have at: "net_wf n" "iflist n ifs" "map (if_fullname n) ifs = map Some names" "\<forall>p\<in>set ifs. \<exists>i. ldif n p = Some i \<and> idle no_packets i"
    using assms(1) by (simp_all add: attaching_def)
  have wf: "wf_mem (n_mem n)" using at(1) by (simp add: net_wf_def)
  obtain tab where tab: "g_ifnet_addrs n = Some tab" "\<forall>k<length ifs. if_entry n ifs tab k"
    using at(2) assms(2) by (auto simp: iflist_def split: option.splits)
  have p: "print_ifnet fp n (ifs ! k) \<noteq> None" "print_ifaddr fp n (tab ! k) \<noteq> None" if k: "k < length ifs" for k
  proof -
    obtain i where i: "ldif n (ifs ! k) = Some i" "if_addrlist i = tab ! k" "link_level n (tab ! k)"
      using tab(2) k unfolding if_entry_def by blast
    have "ifs ! k \<in> set ifs" using k by simp
    then have "idle no_packets i" "if_fullname n (ifs ! k) \<noteq> None"
      using at(3,4) i(1) by (fastforce, metis map_eq_conv imageE list.set_map option.distinct(1) image_eqI)
    then have "if_name i \<noteq> None" "ifq_head (if_snd i) = 0" "ifq_tail (if_snd i) = 0"
      using i(1) by (cases "if_name i", auto simp: idle_def if_fullname_def ifunit_name_def)
    then show "print_ifnet fp n (ifs ! k) \<noteq> None" using ifnet_shown [OF i(1) _ _ _ _ wf] i(2,3) by simp
    show "print_ifaddr fp n (tab ! k) \<noteq> None" by (rule link_level_shown [OF i(3) wf])
  qed
  have o: "None \<notin> set (map (print_ifnet fp n) ifs)" using p(1) by (fastforce simp: in_set_conv_nth)
  note l = print_global_ifnet_chain [of n "g_ifnet n" ifs fp]
  show g: "print_global_ifnet fp n \<noteq> None"
    using o at(2) by (auto simp: print_global_ifnet_def l iflist_def)
  assume lim: "int (length ifs) < g_if_indexlim n"
  have a: "None \<notin> set (map (print_ifaddr fp n) (take (length ifs) tab))"
    using p(2) iflist_tabE(2) [OF at(2) tab(1)] by (fastforce simp: in_set_conv_nth)
  note t = iflist_tabE [OF at(2) tab(1)]
  have "length tab \<noteq> length ifs" using t(2,3) lim by auto
  moreover have "outs (map (print_ifaddr fp n) (take (length ifs) tab)) \<noteq> None" using a by (simp del: set_map)
  ultimately have "print_global_ifaddr_loop fp n tab 0 \<noteq> None"
    using print_global_ifaddr_tab [OF t(1,2), of n 0 fp] t(4) by (simp del: outs_None)
  then show "show_ifs fp n \<noteq> None"
    using g tab(1) by (auto simp: show_ifs_def print_global_ifaddr_def start_line_def)
qed

theorem print_lists_in_order_witness:
  "print_global_ifnet dec_ptr demo_net = section_of ''print_global_ifnet'' [outs [print_ifnet dec_ptr demo_net 8]] \<and>
   print_global_ifaddr dec_ptr demo_net \<noteq> None"
proof -
  have "print_ifaddr dec_ptr demo_net 32768 \<noteq> None"
    using link_level_shown [of demo_net 32768 dec_ptr] demo_iflist demo_mem_wf by (auto simp: iflist_def if_entry_def)
  then show ?thesis
    using print_lists_in_order [OF demo_iflist, of "[32768, 0, 0, 0, 0, 0, 0, 0]" dec_ptr] by (auto simp: start_line_def)
qed

section \<open>Chapter 3\<close>

lemma main_chapter3_steps:
  assumes "main_dev dev (s_net (mc_sl s)) = (d, n)" "leattach \<lparr>l_net = n, l_sc = mc_le s\<rparr> d = Some (r, le)"
    "show_ifs fp (l_net le) = Some o1" "loopattach (l_net le) 6 = Some n2" "show_ifs fp n2 = Some o2"
    "slattach ((mc_sl s)\<lparr>s_net := n2\<rparr>) = Some sl" "show_ifs fp (s_net sl) = Some o3"
    "ifinit e (s_net sl) = Some n4" "print_global_ifnet fp n4 = Some o4"
  shows "main_chapter3 fp e dev s =
    Some (o1 @ o2 @ o3 @ o4, s\<lparr>mc_le := l_sc le, mc_sl := sl\<lparr>s_net := n4\<rparr>\<rparr>)"
  using assms by (simp add: main_chapter3_def Let_def)

lemma maxed_shown:
  assumes "attaching no_packets n ifs names []" "ifs \<noteq> []"
  shows "print_global_ifnet fp (maxed n ifs) \<noteq> None"
proof -
  have at: "net_wf n" "iflist n ifs" using assms(1) by (simp_all add: attaching_def)
  have "attaching no_packets (maxed n ifs) ifs names []"
  proof -
    have "if_fullname (maxed n ifs) p = if_fullname n p" if "p \<in> set ifs" for p
      using assms(1) that by (force simp: attaching_def if_fullname_def ldif_maxed ifunit_name_def)
    then have "map (if_fullname (maxed n ifs)) ifs = map Some names"
      using assms(1) unfolding attaching_def by (metis (no_types, lifting) map_eq_conv)
    moreover have "\<forall>p\<in>set ifs. \<exists>i. ldif (maxed n ifs) p = Some i \<and> idle no_packets i"
      using assms(1) by (fastforce simp: attaching_def ldif_maxed idle_def)
    ultimately show ?thesis
      using assms(1) iflist_maxed [OF at(2)] by (simp add: attaching_def maxed_def net_wf_if)
  qed
  then show ?thesis by (rule attaching_shown(1) [OF _ assms(2)])
qed

text \<open>C14: chapter 3 of \<open>main\<close> runs to its end.  From a cold machine with empty queues every attach call
  returns, every structure printed in between can be shown, down to the zero of each string, and the table
  of addresses is never full when it is printed; in the end the list shows all 34 interfaces in order.\<close>

theorem main_chapter3_returns:
  assumes "main_dev dev (s_net (mc_sl s)) = (d, n)" "cold_with no_packets (s\<lparr>mc_sl := (mc_sl s)\<lparr>s_net := n\<rparr>\<rparr>) d"
  shows "\<exists>o1 o2 s'. main_chapter3 fp e dev s = Some (o1 @ o2, s') \<and>
    print_global_ifnet fp (s_net (mc_sl s')) = Some o2 \<and>
    Some o2 = section_of ''print_global_ifnet'' [outs (map (print_ifnet fp (s_net (mc_sl s'))) (main_ifs 0))]"
proof -
  have u: "hp_unit d = 0" using assms(1) by (auto simp: main_dev_def Let_def split: prod.splits)
  obtain n1 n2 s3 where st: "leattach \<lparr>l_net = n, l_sc = mc_le s\<rparr> d = Some (0, \<lparr>l_net = n1, l_sc = mc_le s\<rparr>)"
    "attaching no_packets n1 [16 + 16 * nat 0] [[108, 101] @ dec 0] (loif # map sl_addr [0..<32])"
    "loopattach n1 6 = Some n2"
    "attaching no_packets n2 [16 + 16 * nat 0, loif] [[108, 101] @ dec 0, [108, 111] @ dec 0] (map sl_addr [0..<32])"
    "slattach ((mc_sl s)\<lparr>s_net := n2\<rparr>) = Some s3"
    "attaching no_packets (s_net s3) (main_ifs 0) (main_names 0) []"
    by (rule main_steps [OF assms(2)]) (rule that, simp_all add: u)
  have len: "length (main_ifs 0) = 34" "main_ifs 0 \<noteq> []" by (simp_all add: main_ifs_def)
  have room: "int (length ifs) < g_if_indexlim m" if "attaching no_packets m ifs names todo" "length ifs \<in> {1, 2, 34}" for m ifs names todo
  proof -
    have "table_size (g_if_indexlim m)" "int (length ifs) \<le> g_if_indexlim m"
      using that(1) by (simp_all add: attaching_def iflist_def)
    moreover from this(1) obtain j where "g_if_indexlim m = 8 * 2 ^ j" unfolding table_size_def by blast
    moreover from this have "g_if_indexlim m mod 8 = 0" by simp
    then have "g_if_indexlim m \<noteq> int (length ifs)" using that(2) by auto
    ultimately show ?thesis by linarith
  qed
  have "show_ifs fp n1 \<noteq> None" "show_ifs fp n2 \<noteq> None" "show_ifs fp (s_net s3) \<noteq> None"
    using attaching_shown(2) [OF st(2) _ room [OF st(2)]] attaching_shown(2) [OF st(4) _ room [OF st(4)]]
      attaching_shown(2) [OF st(6) len(2) room [OF st(6)]] len(1) by simp_all
  then obtain o1 o2 o3 where sh: "show_ifs fp n1 = Some o1" "show_ifs fp n2 = Some o2" "show_ifs fp (s_net s3) = Some o3"
    by blast
  let ?n4 = "maxed (s_net s3) (main_ifs 0)"
  obtain o4 where o4: "print_global_ifnet fp ?n4 = Some o4" using maxed_shown [OF st(6) len(2)] by blast
  have fin: "ifinit e (s_net s3) = Some ?n4" "iflist ?n4 (main_ifs 0)" using ifinit_attached [OF st(6)] by auto
  then have "Some o4 = section_of ''print_global_ifnet'' [outs (map (print_ifnet fp ?n4) (main_ifs 0))]"
    using o4 print_global_ifnet_chain [of ?n4 "g_ifnet ?n4" "main_ifs 0" fp] by (simp add: print_global_ifnet_def iflist_def)
  moreover have "main_chapter3 fp e dev s = Some (o1 @ o2 @ o3 @ o4, s\<lparr>mc_sl := s3\<lparr>s_net := ?n4\<rparr>\<rparr>)"
    using main_chapter3_steps [OF assms(1) st(1) _ _ sh(2) st(5) sh(3) fin(1) o4] sh(1) st(3) by simp
  ultimately show ?thesis using o4
    by (intro exI [of _ "o1 @ o2 @ o3"] exI [of _ o4] exI [of _ "s\<lparr>mc_sl := s3\<lparr>s_net := ?n4\<rparr>\<rparr>"]) simp
qed

lemma wf_stack_block: "wf_mem h \<Longrightarrow> length bs \<le> 4096 \<Longrightarrow> wf_mem (snd (stack_block bs h))"
  using wf_fresh [of h] unfolding wf_mem_def by (auto simp: stack_block_def fresh_def less_SucI)

lemma demo_main_dev:
  obtains d n where "main_dev demo_dev (s_net (mc_sl demo_cold)) = (d, n)"
    "cold_with no_packets (demo_cold\<lparr>mc_sl := (mc_sl demo_cold)\<lparr>s_net := n\<rparr>\<rparr>) d"
proof -
  let ?h = "n_mem (s_net (mc_sl demo_cold))"
  let ?bs = "lit ''hp_addr'' @ [0]"
  let ?n = "(s_net (mc_sl demo_cold))\<lparr>n_mem := ?h\<lparr>mm_next := 11, mm_buf := (mm_buf ?h)(40960 \<mapsto> ?bs)\<rparr>\<rparr>"
  let ?d = "demo_dev\<lparr>hp_addr := 40960, hp_unit := 0\<rparr>"
  have m: "mm_next ?h = 10" by (simp add: demo_cold_def demo_mem_def)
  have "main_dev demo_dev (s_net (mc_sl demo_cold)) = (?d, ?n)"
    by (simp add: main_dev_def stack_block_def Let_def fresh_def m)
  moreover have "cold_with no_packets (demo_cold\<lparr>mc_sl := (mc_sl demo_cold)\<lparr>s_net := ?n\<rparr>\<rparr>) ?d"
  proof -
    have none: "mm_mbuf ?h 40960 = None" by (simp add: demo_cold_def demo_def)
    have wf: "wf_mem ?h" using demo_mem_wf by (simp add: demo_cold_def wf_mem_def)
    then have wf': "wf_mem (n_mem ?n)" using wf_stack_block [OF wf, of ?bs] m
      by (simp add: stack_block_def fresh_def lit_def)
    have "nrd ?n 40960 6 \<noteq> None"
      using none by (simp add: nrd_def rd_def ld_def block_of_def lit_def)
    with wf' show ?thesis using demo_cold_cold
      by (simp add: cold_def cold_with_def Let_def demo_cold_def demo_dev_def net_wf_def iflist_def idle_def
          main_ifs_def loif_def sl_addr_def ldif_def zero_ifnet_def empty_q_def)
  qed
  ultimately show ?thesis by (rule that)
qed

theorem main_chapter3_returns_witness:
  "\<exists>os s'. main_chapter3 dec_ptr demo_env demo_dev demo_cold = Some (os, s') \<and>
    print_global_ifnet dec_ptr (s_net (mc_sl s')) \<noteq> None"
  by (rule demo_main_dev) (use main_chapter3_returns in fastforce)

end
