(* ===== verification/Files.thy ===== *)
theory Files
  imports Param Consts
begin

text \<open>
  Device numbers and descriptor sets (\<open>sys/types.h\<close>), file modes and the tests on them
  (\<open>sys/stat.h\<close>), open flags and record locks (\<open>sys/fcntl.h\<close>), open files (\<open>sys/file.h\<close>) and the
  numbers of \<open>sys/unistd.h\<close>.  Octal numbers of the source are written in hexadecimal.  The locale
  \<open>bit_table\<close> is what a table of bits promises as a set of numbers; the descriptor sets and the
  bit maps of \<open>sys/param.h\<close> both provide it.
\<close>

section \<open>Device numbers\<close>

definition major :: "u_long \<Rightarrow> int" where "major x = uint (drop_bit 8 x AND 0xff)"
definition minor :: "u_long \<Rightarrow> int" where "minor x = uint (x AND 0xff)"
definition makedev :: "int \<Rightarrow> int \<Rightarrow> u_long" where
  "makedev x y = word_of_int (push_bit 8 x OR y)"

lemma byte_join: "0 \<le> y \<Longrightarrow> y < 256 \<Longrightarrow> push_bit 8 x OR y = 256 * x + y" for x y :: int
proof -
  assume y: "0 \<le> y" "y < 256"
  then have t: "take_bit 8 y = y" by (simp add: take_bit_int_eq_self_iff)
  have "\<not> (bit (push_bit 8 x) n \<and> bit y n)" for n
    using t by (metis bit_push_bit_iff bit_take_bit_iff linorder_not_less)
  then have "push_bit 8 x OR y = push_bit 8 x + y" by (simp add: disjunctive_add)
  then show ?thesis by (simp add: push_bit_eq_mult)
qed

section \<open>Descriptor sets\<close>

record fd_set =
  fds_bits :: "u_long list"

definition FD_SETSIZE :: nat where "FD_SETSIZE = 256"
definition NFDBITS :: nat where "NFDBITS = 4 * NBBY"

definition FD_SET :: "nat \<Rightarrow> fd_set \<Rightarrow> fd_set option" where
  "FD_SET n p = (if n div NFDBITS < length (fds_bits p)
     then Some (p\<lparr>fds_bits := (fds_bits p)[n div NFDBITS := fds_bits p ! (n div NFDBITS) OR push_bit (n mod NFDBITS) 1]\<rparr>)
     else None)"

definition FD_CLR :: "nat \<Rightarrow> fd_set \<Rightarrow> fd_set option" where
  "FD_CLR n p = (if n div NFDBITS < length (fds_bits p)
     then Some (p\<lparr>fds_bits := (fds_bits p)[n div NFDBITS := fds_bits p ! (n div NFDBITS) AND NOT (push_bit (n mod NFDBITS) 1)]\<rparr>)
     else None)"

definition FD_ISSET :: "nat \<Rightarrow> fd_set \<Rightarrow> bool option" where
  "FD_ISSET n p = (if n div NFDBITS < length (fds_bits p)
     then Some (has (fds_bits p ! (n div NFDBITS)) (push_bit (n mod NFDBITS) 1)) else None)"

definition FD_COPY :: "fd_set \<Rightarrow> fd_set \<Rightarrow> fd_set" where "FD_COPY f t = f"
definition FD_ZERO :: "fd_set \<Rightarrow> fd_set" where
  "FD_ZERO p = p\<lparr>fds_bits := replicate (length (fds_bits p)) 0\<rparr>"

text \<open>A descriptor set has \<open>howmany(FD_SETSIZE, NFDBITS)\<close> words.\<close>

definition fd_ok :: "fd_set \<Rightarrow> bool" where
  "fd_ok p \<longleftrightarrow> int (length (fds_bits p)) = howmany (int FD_SETSIZE) (int NFDBITS)"

section \<open>Tables of bits as sets\<close>

locale bit_table =
  fixes ins del :: "'m \<Rightarrow> nat \<Rightarrow> 'm option" and test :: "'m \<Rightarrow> nat \<Rightarrow> bool option" and room :: "'m \<Rightarrow> nat"
  assumes test_room: "test m i = None \<longleftrightarrow> \<not> i < room m"
    and ins_room: "ins m i = None \<longleftrightarrow> \<not> i < room m"
    and del_room: "del m i = None \<longleftrightarrow> \<not> i < room m"
    and ins_test: "ins m i = Some m' \<Longrightarrow> room m' = room m \<and> (j < room m \<longrightarrow> test m' j = (if j = i then Some True else test m j))"
    and del_test: "del m i = Some m' \<Longrightarrow> room m' = room m \<and> (j < room m \<longrightarrow> test m' j = (if j = i then Some False else test m j))"
begin

definition members :: "'m \<Rightarrow> nat set" where
  "members m = {i. test m i = Some True}"

lemma members_room: "members m \<subseteq> {..<room m}"
proof
  fix i assume "i \<in> members m"
  then show "i \<in> {..<room m}" using test_room [of m i] by (auto simp: members_def)
qed

lemma ins_members: "ins m i = Some m' \<Longrightarrow> members m' = insert i (members m)"
proof -
  assume i: "ins m i = Some m'"
  have r: "i < room m" "room m' = room m" using ins_room [of m i] i ins_test [OF i] by auto
  have "test m' j = Some True \<longleftrightarrow> j = i \<or> test m j = Some True" for j
    using ins_test [OF i, of j] test_room [of m j] test_room [of m' j] r by (cases "j < room m") auto
  then show ?thesis by (auto simp: members_def)
qed

lemma del_members: "del m i = Some m' \<Longrightarrow> members m' = members m - {i}"
proof -
  assume i: "del m i = Some m'"
  have r: "i < room m" "room m' = room m" using del_room [of m i] i del_test [OF i] by auto
  have "test m' j = Some True \<longleftrightarrow> j \<noteq> i \<and> test m j = Some True" for j
    using del_test [OF i, of j] test_room [of m j] test_room [of m' j] r by (cases "j < room m") auto
  then show ?thesis by (auto simp: members_def)
qed

primrec ins_all :: "nat list \<Rightarrow> 'm \<Rightarrow> 'm option" where
  "ins_all [] m = Some m"
| "ins_all (i # ns) m = ins m i \<bind> ins_all ns"

lemma ins_all_members: "\<forall>i\<in>set ns. i < room m \<Longrightarrow> \<exists>m'. ins_all ns m = Some m' \<and> room m' = room m \<and> members m' = set ns \<union> members m"
proof (induction ns arbitrary: m)
  case Nil
  then show ?case by simp
next
  case (Cons i ns)
  obtain k where k: "ins m i = Some k" using ins_room [of m i] Cons.prems by auto
  have "room k = room m" "members k = insert i (members m)" using ins_test [OF k] ins_members [OF k] by auto
  with Cons.IH [of k] Cons.prems k show ?case by auto
qed

lemma ins_all_overrun: "i \<in> set ns \<Longrightarrow> \<not> i < room m \<Longrightarrow> ins_all ns m = None"
proof (induction ns arbitrary: m)
  case Nil
  then show ?case by simp
next
  case (Cons j ns)
  show ?case
  proof (cases "ins m j")
    case (Some k)
    then have "room k = room m" "j < room m" using ins_test [OF Some] ins_room [of m j] by auto
    with Cons Some show ?thesis by auto
  qed simp
qed

end

lemma has_long_bit: "has w (2 ^ k) \<longleftrightarrow> bit w k" for w :: u_long
  using bit_iff_and_push_bit_not_eq_0 [of w k] by (simp only: has_def push_bit_of_1)

lemma one_long: "bit (2 ^ k :: u_long) l \<longleftrightarrow> k = l \<and> l < 32"
  by (auto simp: bit_simps)

lemma div_less: "i div k < n \<longleftrightarrow> i < k * n" if "0 < k" for i k n :: nat
  using that by (simp add: div_less_iff_less_mult mult.commute)

lemma same_place: "i = j \<longleftrightarrow> i div k = j div k \<and> i mod k = j mod k" for i j k :: nat
  by (metis div_mult_mod_eq)

interpretation fdm: bit_table "\<lambda>p n. FD_SET n p" "\<lambda>p n. FD_CLR n p" "\<lambda>p n. FD_ISSET n p"
  "\<lambda>p. 32 * length (fds_bits p)"
proof
  fix m m' i j
  note d = FD_SET_def FD_CLR_def FD_ISSET_def NFDBITS_def NBBY_def
  show "FD_ISSET i m = None \<longleftrightarrow> \<not> i < 32 * length (fds_bits m)"
    "FD_SET i m = None \<longleftrightarrow> \<not> i < 32 * length (fds_bits m)"
    "FD_CLR i m = None \<longleftrightarrow> \<not> i < 32 * length (fds_bits m)" by (auto simp: d div_less)
  assume s: "FD_SET i m = Some m'"
  then show "32 * length (fds_bits m') = 32 * length (fds_bits m) \<and> (j < 32 * length (fds_bits m) \<longrightarrow>
      FD_ISSET j m' = (if j = i then Some True else FD_ISSET j m))"
    by (cases "i div 32 = j div 32")
      (auto simp: d div_less same_place [of j i 32] has_long_bit bit_or_iff one_long split: if_splits)
next
  fix m m' i j
  note d = FD_SET_def FD_CLR_def FD_ISSET_def NFDBITS_def NBBY_def
  assume s: "FD_CLR i m = Some m'"
  then show "32 * length (fds_bits m') = 32 * length (fds_bits m) \<and> (j < 32 * length (fds_bits m) \<longrightarrow>
      FD_ISSET j m' = (if j = i then Some False else FD_ISSET j m))"
    by (cases "i div 32 = j div 32")
      (auto simp: d div_less same_place [of j i 32] has_long_bit bit_and_iff bit_not_iff one_long split: if_splits)
qed

interpretation bm: bit_table setbit clrbit isset "\<lambda>a. 8 * length a"
proof
  fix m m' i j
  note d = setbit_def clrbit_def isset_def NBBY_def
  show "isset m i = None \<longleftrightarrow> \<not> i < 8 * length m" "setbit m i = None \<longleftrightarrow> \<not> i < 8 * length m"
    "clrbit m i = None \<longleftrightarrow> \<not> i < 8 * length m" by (auto simp: d div_less)
  assume s: "setbit m i = Some m'"
  then have l: "i div 8 < length m" "length m' = length m" by (auto simp: setbit_def NBBY_def split: if_splits)
  show "8 * length m' = 8 * length m \<and> (j < 8 * length m \<longrightarrow> isset m' j = (if j = i then Some True else isset m j))"
    using setbit_isset [of i m j] s l by (auto simp: div_less)
next
  fix m m' i j
  assume s: "clrbit m i = Some m'"
  then have l: "i div 8 < length m" "length m' = length m" by (auto simp: clrbit_def NBBY_def split: if_splits)
  show "8 * length m' = 8 * length m \<and> (j < 8 * length m \<longrightarrow> isset m' j = (if j = i then Some False else isset m j))"
    using setbit_isset [of i m j] s l by (auto simp: div_less)
qed

text \<open>Filling a descriptor set, one \<open>FD_SET\<close> after the other.\<close>

primrec fd_fill :: "nat list \<Rightarrow> fd_set \<Rightarrow> fd_set option" where
  "fd_fill [] p = Some p"
| "fd_fill (n # ns) p = FD_SET n p \<bind> fd_fill ns"

lemma fd_fill_ins_all: "fd_fill ns p = fdm.ins_all ns p"
  by (induction ns arbitrary: p) (auto simp: bind_eq_Some_conv cong: option.case_cong split: bind_split)

lemma fd_room: "fd_ok p \<Longrightarrow> 32 * length (fds_bits p) = FD_SETSIZE"
  by (simp add: fd_ok_def FD_SETSIZE_def NFDBITS_def NBBY_def howmany_def)

lemma fd_zero_clear: "n < 32 * length (fds_bits p) \<Longrightarrow> FD_ISSET n (FD_ZERO p) = Some False"
  by (simp add: FD_ISSET_def FD_ZERO_def NFDBITS_def NBBY_def div_less)

text \<open>C33: A descriptor set behaves as a set of numbers: zeroed and then filled with descriptors below
  \<open>FD_SETSIZE\<close>, in any order and with repetitions, it answers \<open>FD_ISSET\<close> with yes exactly for these,
  and clearing one removes that one only.  A descriptor of \<open>FD_SETSIZE\<close> or more writes behind the
  structure.\<close>

theorem fd_set_is_set:
  assumes "fd_ok p" "n < FD_SETSIZE" "k < FD_SETSIZE"
  shows "if \<forall>i\<in>set ns. i < FD_SETSIZE
     then \<exists>q. fd_fill ns (FD_ZERO p) = Some q \<and> fd_ok q \<and> FD_ISSET n q = Some (n \<in> set ns) \<and>
       FD_CLR k q \<bind> (\<lambda>r. FD_ISSET n r) = Some (n \<in> set ns - {k})
     else fd_fill ns (FD_ZERO p) = None"
proof (cases "\<forall>i\<in>set ns. i < FD_SETSIZE")
  case True
  have z: "fd_ok (FD_ZERO p)" "fdm.members (FD_ZERO p) = {}"
    using assms(1) fdm.members_room [of "FD_ZERO p"] fd_zero_clear [of _ p]
    by (auto simp: fd_ok_def FD_ZERO_def fdm.members_def)
  have "\<forall>i\<in>set ns. i < 32 * length (fds_bits (FD_ZERO p))" using True fd_room [OF z(1)] by simp
  from fdm.ins_all_members [OF this] obtain q where q: "fdm.ins_all ns (FD_ZERO p) = Some q"
      "32 * length (fds_bits q) = 32 * length (fds_bits (FD_ZERO p))" "fdm.members q = set ns \<union> fdm.members (FD_ZERO p)"
    by blast
  have ok: "fd_ok q" using q(2) z(1) by (simp add: fd_ok_def)
  have t: "FD_ISSET n q = Some (n \<in> set ns)"
  proof -
    have "n \<in> fdm.members q \<longleftrightarrow> n \<in> set ns" using q(3) z(2) by simp
    then have "FD_ISSET n q = Some True \<longleftrightarrow> n \<in> set ns" by (simp add: fdm.members_def)
    moreover have "FD_ISSET n q \<noteq> None" using fdm.test_room [where m = q and i = n] fd_room [OF ok] assms(2) by simp
    ultimately show ?thesis by (cases "FD_ISSET n q") auto
  qed
  obtain r where r: "FD_CLR k q = Some r"
    using fdm.del_room [where m = q and i = k] fd_room [OF ok] assms(3) by auto
  have "FD_ISSET n r = Some (n \<in> set ns - {k})"
    using fdm.del_test [OF r, where j = n] t fd_room [OF ok] assms(2) by auto
  with True q(1) ok t r show ?thesis by (simp add: fd_fill_ins_all)
next
  case False
  then obtain i where "i \<in> set ns" "\<not> i < FD_SETSIZE" by blast
  moreover have "32 * length (fds_bits (FD_ZERO p)) = FD_SETSIZE"
    using fd_room [OF assms(1)] by (simp add: FD_ZERO_def)
  ultimately have "fd_fill ns (FD_ZERO p) = None"
    unfolding fd_fill_ins_all using fdm.ins_all_overrun [of i ns "FD_ZERO p"] by simp
  with False show ?thesis by simp
qed

theorem fd_set_is_set_witness:
  "fd_fill [3, 77, 3] (FD_ZERO \<lparr>fds_bits = replicate 8 9\<rparr>) \<noteq> None \<and> fd_fill [256] (FD_ZERO \<lparr>fds_bits = replicate 8 9\<rparr>) = None"
proof -
  have ok: "fd_ok \<lparr>fds_bits = replicate 8 9\<rparr>"
    by (simp add: fd_ok_def FD_SETSIZE_def NFDBITS_def NBBY_def howmany_def)
  show ?thesis
    using fd_set_is_set [OF ok, of 5 6 "[3, 77, 3]"] fd_set_is_set [OF ok, of 5 6 "[256]"]
    by (auto simp: FD_SETSIZE_def)
qed

section \<open>File modes\<close>

record stat =
  st_dev :: u_long
  st_ino :: u_short
  st_mode :: u_short
  st_nlink :: u_short
  st_uid :: u_long
  st_gid :: u_long
  st_rdev :: u_long
  st_atimespec :: timespec
  st_mtimespec :: timespec
  st_ctimespec :: timespec
  st_size :: int
  st_blocks :: int
  st_blksize :: u_long
  st_flags :: u_long
  st_gen :: u_long
  st_lspare :: int
  st_qspare :: "int list"

definition st_atime :: "stat \<Rightarrow> int" where "st_atime s = ts_sec (st_atimespec s)"
definition st_mtime :: "stat \<Rightarrow> int" where "st_mtime s = ts_sec (st_mtimespec s)"
definition st_ctime :: "stat \<Rightarrow> int" where "st_ctime s = ts_sec (st_ctimespec s)"

definition S_ISUID :: u_int where "S_ISUID = 0x800"
definition S_ISGID :: u_int where "S_ISGID = 0x400"
definition S_ISTXT :: u_int where "S_ISTXT = 0x200"
definition S_IRWXU :: u_int where "S_IRWXU = 0x1c0"
definition S_IRUSR :: u_int where "S_IRUSR = 0x100"
definition S_IWUSR :: u_int where "S_IWUSR = 0x80"
definition S_IXUSR :: u_int where "S_IXUSR = 0x40"
definition S_IREAD :: u_int where "S_IREAD = S_IRUSR"
definition S_IWRITE :: u_int where "S_IWRITE = S_IWUSR"
definition S_IEXEC :: u_int where "S_IEXEC = S_IXUSR"
definition S_IRWXG :: u_int where "S_IRWXG = 0x38"
definition S_IRGRP :: u_int where "S_IRGRP = 0x20"
definition S_IWGRP :: u_int where "S_IWGRP = 0x10"
definition S_IXGRP :: u_int where "S_IXGRP = 0x8"
definition S_IRWXO :: u_int where "S_IRWXO = 7"
definition S_IROTH :: u_int where "S_IROTH = 4"
definition S_IWOTH :: u_int where "S_IWOTH = 2"
definition S_IXOTH :: u_int where "S_IXOTH = 1"
definition S_IFMT :: u_int where "S_IFMT = 0xf000"
definition S_IFIFO :: u_int where "S_IFIFO = 0x1000"
definition S_IFCHR :: u_int where "S_IFCHR = 0x2000"
definition S_IFDIR :: u_int where "S_IFDIR = 0x4000"
definition S_IFBLK :: u_int where "S_IFBLK = 0x6000"
definition S_IFREG :: u_int where "S_IFREG = 0x8000"
definition S_IFLNK :: u_int where "S_IFLNK = 0xa000"
definition S_IFSOCK :: u_int where "S_IFSOCK = 0xc000"
definition S_ISVTX :: u_int where "S_ISVTX = 0x200"
definition ACCESSPERMS :: u_int where "ACCESSPERMS = S_IRWXU OR S_IRWXG OR S_IRWXO"
definition ALLPERMS :: u_int where "ALLPERMS = S_ISUID OR S_ISGID OR S_ISTXT OR S_IRWXU OR S_IRWXG OR S_IRWXO"
definition DEFFILEMODE :: u_int where "DEFFILEMODE = S_IRUSR OR S_IWUSR OR S_IRGRP OR S_IWGRP OR S_IROTH OR S_IWOTH"
definition S_BLKSIZE :: u_int where "S_BLKSIZE = 512"
definition UF_SETTABLE :: u_int where "UF_SETTABLE = 0xffff"
definition UF_NODUMP :: u_int where "UF_NODUMP = 0x1"
definition UF_IMMUTABLE :: u_int where "UF_IMMUTABLE = 0x2"
definition UF_APPEND :: u_int where "UF_APPEND = 0x4"
definition SF_SETTABLE :: u_int where "SF_SETTABLE = 0xffff0000"
definition SF_ARCHIVED :: u_int where "SF_ARCHIVED = 0x10000"
definition SF_IMMUTABLE :: u_int where "SF_IMMUTABLE = 0x20000"
definition SF_APPEND :: u_int where "SF_APPEND = 0x40000"
definition APPEND :: u_int where "APPEND = UF_APPEND OR SF_APPEND"
definition IMMUTABLE :: u_int where "IMMUTABLE = UF_IMMUTABLE OR SF_IMMUTABLE"

lemmas stat_defs = S_ISUID_def S_ISGID_def S_ISTXT_def S_IRWXU_def S_IRUSR_def S_IWUSR_def S_IXUSR_def
  S_IREAD_def S_IWRITE_def S_IEXEC_def S_IRWXG_def S_IRGRP_def S_IWGRP_def S_IXGRP_def S_IRWXO_def
  S_IROTH_def S_IWOTH_def S_IXOTH_def S_IFMT_def S_IFIFO_def S_IFCHR_def S_IFDIR_def S_IFBLK_def S_IFREG_def
  S_IFLNK_def S_IFSOCK_def S_ISVTX_def ACCESSPERMS_def ALLPERMS_def DEFFILEMODE_def S_BLKSIZE_def
  UF_SETTABLE_def UF_NODUMP_def UF_IMMUTABLE_def UF_APPEND_def SF_SETTABLE_def SF_ARCHIVED_def
  SF_IMMUTABLE_def SF_APPEND_def APPEND_def IMMUTABLE_def
definition S_ISDIR :: "u_int \<Rightarrow> bool" where "S_ISDIR m \<longleftrightarrow> m AND 0xf000 = 0x4000"
definition S_ISCHR :: "u_int \<Rightarrow> bool" where "S_ISCHR m \<longleftrightarrow> m AND 0xf000 = 0x2000"
definition S_ISBLK :: "u_int \<Rightarrow> bool" where "S_ISBLK m \<longleftrightarrow> m AND 0xf000 = 0x6000"
definition S_ISREG :: "u_int \<Rightarrow> bool" where "S_ISREG m \<longleftrightarrow> m AND 0xf000 = 0x8000"
definition S_ISFIFO :: "u_int \<Rightarrow> bool" where
  "S_ISFIFO m \<longleftrightarrow> m AND 0xf000 = 0x8000 \<or> m AND 0xf000 = 0xc000"
definition S_ISLNK :: "u_int \<Rightarrow> bool" where "S_ISLNK m \<longleftrightarrow> m AND 0xf000 = 0xa000"
definition S_ISSOCK :: "u_int \<Rightarrow> bool" where
  "S_ISSOCK m \<longleftrightarrow> m AND 0xf000 = 0x8000 \<or> m AND 0xf000 = 0xc000"

section \<open>Open flags\<close>

definition O_RDONLY :: u_int where "O_RDONLY = 0"
definition O_WRONLY :: u_int where "O_WRONLY = 0x1"
definition O_RDWR :: u_int where "O_RDWR = 0x2"
definition O_ACCMODE :: u_int where "O_ACCMODE = 0x3"
definition O_NONBLOCK :: u_int where "O_NONBLOCK = 0x4"
definition O_APPEND :: u_int where "O_APPEND = 0x8"
definition O_SHLOCK :: u_int where "O_SHLOCK = 0x10"
definition O_EXLOCK :: u_int where "O_EXLOCK = 0x20"
definition O_ASYNC :: u_int where "O_ASYNC = 0x40"
definition O_FSYNC :: u_int where "O_FSYNC = 0x80"
definition O_CREAT :: u_int where "O_CREAT = 0x200"
definition O_TRUNC :: u_int where "O_TRUNC = 0x400"
definition O_EXCL :: u_int where "O_EXCL = 0x800"
definition FMARK :: u_int where "FMARK = 0x1000"
definition FDEFER :: u_int where "FDEFER = 0x2000"
definition FHASLOCK :: u_int where "FHASLOCK = 0x4000"
definition O_NOCTTY :: u_int where "O_NOCTTY = 0"

lemmas open_defs = O_RDONLY_def O_WRONLY_def O_RDWR_def O_ACCMODE_def O_NONBLOCK_def O_APPEND_def
  O_SHLOCK_def O_EXLOCK_def O_ASYNC_def O_FSYNC_def O_CREAT_def O_TRUNC_def O_EXCL_def FMARK_def FDEFER_def
  FHASLOCK_def O_NOCTTY_def
definition FAPPEND :: u_int where "FAPPEND = O_APPEND"
definition FASYNC :: u_int where "FASYNC = O_ASYNC"
definition FFSYNC :: u_int where "FFSYNC = O_FSYNC"
definition FNONBLOCK :: u_int where "FNONBLOCK = O_NONBLOCK"
definition FNDELAY :: u_int where "FNDELAY = O_NONBLOCK"
definition O_NDELAY :: u_int where "O_NDELAY = O_NONBLOCK"

lemmas falias_defs = FAPPEND_def FASYNC_def FFSYNC_def FNONBLOCK_def FNDELAY_def O_NDELAY_def
definition FMASK :: u_int where
  "FMASK = word_of_int FREAD OR word_of_int FWRITE OR FAPPEND OR FASYNC OR FFSYNC OR FNONBLOCK"
definition FCNTLFLAGS :: u_int where "FCNTLFLAGS = FAPPEND OR FASYNC OR FFSYNC OR FNONBLOCK"
definition F_DUPFD :: u_int where "F_DUPFD = 0"
definition F_GETFD :: u_int where "F_GETFD = 1"
definition F_SETFD :: u_int where "F_SETFD = 2"
definition F_GETFL :: u_int where "F_GETFL = 3"
definition F_SETFL :: u_int where "F_SETFL = 4"
definition F_GETOWN :: u_int where "F_GETOWN = 5"
definition F_SETOWN :: u_int where "F_SETOWN = 6"
definition F_GETLK :: u_int where "F_GETLK = 7"
definition F_SETLK :: u_int where "F_SETLK = 8"
definition F_SETLKW :: u_int where "F_SETLKW = 9"
definition FD_CLOEXEC :: u_int where "FD_CLOEXEC = 1"
definition F_RDLCK :: u_int where "F_RDLCK = 1"
definition F_UNLCK :: u_int where "F_UNLCK = 2"
definition F_WRLCK :: u_int where "F_WRLCK = 3"
definition F_WAIT :: u_int where "F_WAIT = 0x10"
definition F_FLOCK :: u_int where "F_FLOCK = 0x20"
definition F_POSIX :: u_int where "F_POSIX = 0x40"
definition LOCK_SH :: u_int where "LOCK_SH = 0x1"
definition LOCK_EX :: u_int where "LOCK_EX = 0x2"
definition LOCK_NB :: u_int where "LOCK_NB = 0x4"
definition LOCK_UN :: u_int where "LOCK_UN = 0x8"

lemmas fcntl_defs = F_DUPFD_def F_GETFD_def F_SETFD_def F_GETFL_def F_SETFL_def F_GETOWN_def F_SETOWN_def
  F_GETLK_def F_SETLK_def F_SETLKW_def FD_CLOEXEC_def F_RDLCK_def F_UNLCK_def F_WRLCK_def F_WAIT_def
  F_FLOCK_def F_POSIX_def LOCK_SH_def LOCK_EX_def LOCK_NB_def LOCK_UN_def

definition FFLAGS :: "u_int \<Rightarrow> u_int" where "FFLAGS oflags = oflags + 1"
definition OFLAGS :: "u_int \<Rightarrow> u_int" where "OFLAGS fflags = fflags - 1"

record flock =
  l_start :: int
  l_len :: int
  l_pid :: int
  l_type :: c_short
  l_whence :: c_short

section \<open>Open files\<close>

record kfile =
  f_filef :: addr
  f_fileb :: addr
  f_flag :: c_short
  f_type :: c_short
  f_count :: c_short
  f_msgcount :: c_short
  f_cred :: addr
  f_ops :: addr
  f_offset :: int
  f_data :: addr

definition DTYPE_VNODE :: c_short where "DTYPE_VNODE = 1"
definition DTYPE_SOCKET :: c_short where "DTYPE_SOCKET = 2"

lemmas dtype_defs = DTYPE_VNODE_def DTYPE_SOCKET_def

section \<open>Numbers of unistd.h\<close>

definition POSIX_VERSION :: int where "POSIX_VERSION = 198808"
definition POSIX2_VERSION :: int where "POSIX2_VERSION = 199212"
definition POSIX_CHOWN_RESTRICTED :: int where "POSIX_CHOWN_RESTRICTED = 1"
definition POSIX_NO_TRUNC :: int where "POSIX_NO_TRUNC = 1"
definition POSIX_VDISABLE :: int where "POSIX_VDISABLE = 255"
definition F_OK :: int where "F_OK = 0"
definition X_OK :: int where "X_OK = 0x1"
definition W_OK :: int where "W_OK = 0x2"
definition R_OK :: int where "R_OK = 0x4"
definition SEEK_SET :: int where "SEEK_SET = 0"
definition SEEK_CUR :: int where "SEEK_CUR = 1"
definition SEEK_END :: int where "SEEK_END = 2"
definition L_SET :: int where "L_SET = SEEK_SET"
definition L_INCR :: int where "L_INCR = SEEK_CUR"
definition L_XTND :: int where "L_XTND = SEEK_END"
definition PC_LINK_MAX :: int where "PC_LINK_MAX = 1"
definition PC_MAX_CANON :: int where "PC_MAX_CANON = 2"
definition PC_MAX_INPUT :: int where "PC_MAX_INPUT = 3"
definition PC_NAME_MAX :: int where "PC_NAME_MAX = 4"
definition PC_PATH_MAX :: int where "PC_PATH_MAX = 5"
definition PC_PIPE_BUF :: int where "PC_PIPE_BUF = 6"
definition PC_CHOWN_RESTRICTED :: int where "PC_CHOWN_RESTRICTED = 7"
definition PC_NO_TRUNC :: int where "PC_NO_TRUNC = 8"
definition PC_VDISABLE :: int where "PC_VDISABLE = 9"
definition SC_ARG_MAX :: int where "SC_ARG_MAX = 1"
definition SC_CHILD_MAX :: int where "SC_CHILD_MAX = 2"
definition SC_CLK_TCK :: int where "SC_CLK_TCK = 3"
definition SC_NGROUPS_MAX :: int where "SC_NGROUPS_MAX = 4"
definition SC_OPEN_MAX :: int where "SC_OPEN_MAX = 5"
definition SC_JOB_CONTROL :: int where "SC_JOB_CONTROL = 6"
definition SC_SAVED_IDS :: int where "SC_SAVED_IDS = 7"
definition SC_VERSION :: int where "SC_VERSION = 8"
definition SC_BC_BASE_MAX :: int where "SC_BC_BASE_MAX = 9"
definition SC_BC_DIM_MAX :: int where "SC_BC_DIM_MAX = 10"
definition SC_BC_SCALE_MAX :: int where "SC_BC_SCALE_MAX = 11"
definition SC_BC_STRING_MAX :: int where "SC_BC_STRING_MAX = 12"
definition SC_COLL_WEIGHTS_MAX :: int where "SC_COLL_WEIGHTS_MAX = 13"
definition SC_EXPR_NEST_MAX :: int where "SC_EXPR_NEST_MAX = 14"
definition SC_LINE_MAX :: int where "SC_LINE_MAX = 15"
definition SC_RE_DUP_MAX :: int where "SC_RE_DUP_MAX = 16"
definition SC_2_VERSION :: int where "SC_2_VERSION = 17"
definition SC_2_C_BIND :: int where "SC_2_C_BIND = 18"
definition SC_2_C_DEV :: int where "SC_2_C_DEV = 19"
definition SC_2_CHAR_TERM :: int where "SC_2_CHAR_TERM = 20"
definition SC_2_FORT_DEV :: int where "SC_2_FORT_DEV = 21"
definition SC_2_FORT_RUN :: int where "SC_2_FORT_RUN = 22"
definition SC_2_LOCALEDEF :: int where "SC_2_LOCALEDEF = 23"
definition SC_2_SW_DEV :: int where "SC_2_SW_DEV = 24"
definition SC_2_UPE :: int where "SC_2_UPE = 25"
definition SC_STREAM_MAX :: int where "SC_STREAM_MAX = 26"
definition SC_TZNAME_MAX :: int where "SC_TZNAME_MAX = 27"
definition CS_PATH :: int where "CS_PATH = 1"

lemmas unistd_defs = POSIX_VERSION_def POSIX2_VERSION_def POSIX_CHOWN_RESTRICTED_def POSIX_NO_TRUNC_def
  POSIX_VDISABLE_def F_OK_def X_OK_def W_OK_def R_OK_def SEEK_SET_def SEEK_CUR_def SEEK_END_def L_SET_def
  L_INCR_def L_XTND_def PC_LINK_MAX_def PC_MAX_CANON_def PC_MAX_INPUT_def PC_NAME_MAX_def PC_PATH_MAX_def
  PC_PIPE_BUF_def PC_CHOWN_RESTRICTED_def PC_NO_TRUNC_def PC_VDISABLE_def SC_ARG_MAX_def SC_CHILD_MAX_def
  SC_CLK_TCK_def SC_NGROUPS_MAX_def SC_OPEN_MAX_def SC_JOB_CONTROL_def SC_SAVED_IDS_def SC_VERSION_def
  SC_BC_BASE_MAX_def SC_BC_DIM_MAX_def SC_BC_SCALE_MAX_def SC_BC_STRING_MAX_def SC_COLL_WEIGHTS_MAX_def
  SC_EXPR_NEST_MAX_def SC_LINE_MAX_def SC_RE_DUP_MAX_def SC_2_VERSION_def SC_2_C_BIND_def SC_2_C_DEV_def
  SC_2_CHAR_TERM_def SC_2_FORT_DEV_def SC_2_FORT_RUN_def SC_2_LOCALEDEF_def SC_2_SW_DEV_def SC_2_UPE_def
  SC_STREAM_MAX_def SC_TZNAME_MAX_def CS_PATH_def

section \<open>Properties of file modes and open flags\<close>

text \<open>The file type tests of \<open>sys/stat.h\<close> compare the type bits with the constants of the same
  header, except \<open>S_ISFIFO\<close> and \<open>S_ISSOCK\<close>: both accept regular files and sockets, and
  neither accepts a named pipe.  Two different types never have the same type bits.\<close>

theorem file_type_tests:
  "(S_ISDIR m \<longleftrightarrow> m AND S_IFMT = S_IFDIR) \<and> (S_ISCHR m \<longleftrightarrow> m AND S_IFMT = S_IFCHR) \<and>
   (S_ISBLK m \<longleftrightarrow> m AND S_IFMT = S_IFBLK) \<and> (S_ISREG m \<longleftrightarrow> m AND S_IFMT = S_IFREG) \<and>
   (S_ISLNK m \<longleftrightarrow> m AND S_IFMT = S_IFLNK) \<and>
   (S_ISFIFO m \<longleftrightarrow> m AND S_IFMT \<in> {S_IFREG, S_IFSOCK}) \<and> (S_ISSOCK m \<longleftrightarrow> S_ISFIFO m) \<and>
   \<not> S_ISFIFO S_IFIFO \<and> S_ISFIFO S_IFREG \<and>
   distinct [S_IFIFO, S_IFCHR, S_IFDIR, S_IFBLK, S_IFREG, S_IFLNK, S_IFSOCK]"
  by (simp add: S_ISDIR_def S_ISCHR_def S_ISBLK_def S_ISREG_def S_ISLNK_def S_ISFIFO_def S_ISSOCK_def stat_defs)

lemma and_not_plus: "y = (y AND NOT m) + (y AND m)" for y m :: u_int
proof -
  have "(y AND NOT m) + (y AND m) = (y AND NOT m) OR (y AND m)"
    by (rule disjunctive_add) (simp add: bit_and_iff bit_not_iff)
  also have "\<dots> = y" by (simp flip: bit.conj_disj_distrib)
  finally show ?thesis by simp
qed

lemma low_bits: "(x + 1) AND NOT 3 = x AND NOT 3 \<and> (x + 1) AND 3 = (x AND 3) + 1" if "x AND 3 \<noteq> 3" for x :: u_int
proof -
  have m: "(3 :: u_int) = mask 2" by (simp add: mask_eq_exp_minus_1)
  have u: "uint (y AND 3) = uint y mod 4" for y :: u_int
    unfolding m take_bit_eq_mask [symmetric] by (simp only: unsigned_take_bit_eq) (simp add: take_bit_eq_mod)
  have s: "y = (y AND NOT 3) + (y AND 3)" for y :: u_int by (rule and_not_plus)
  have "uint (x AND 3) \<noteq> uint (3 :: u_int)" using that by (simp only: word_uint_eq_iff) simp
  then have r: "uint x mod 4 \<noteq> 3" by (simp add: u)
  have x: "0 \<le> uint x" "uint x < 2 ^ 32" using unsigned_less [of x] by simp_all
  have n: "uint x \<noteq> 2 ^ 32 - 1" using r by auto
  have p: "uint (x + 1) = uint x + 1" using x n by (simp add: uint_plus_if')
  have q: "(uint x + 1) mod 4 = uint x mod 4 + 1" using r by presburger
  have "uint ((x AND 3) + 1) = uint x mod 4 + 1"
  proof -
    have "uint x mod 4 < 4" by simp
    then have "uint x mod 4 + 1 < 2 ^ 32" by (rule order.strict_trans1 [OF zless_imp_add1_zle]) simp
    then show ?thesis unfolding uint_plus_if' u by simp
  qed
  then have low: "(x + 1) AND 3 = (x AND 3) + 1" by (simp add: word_uint_eq_iff u p q)
  have "(x + 1) AND NOT 3 = x + 1 - ((x + 1) AND 3)" using s [of "x + 1"] by (metis add_diff_cancel_right')
  also have "\<dots> = x - (x AND 3)" by (simp add: low)
  also have "\<dots> = x AND NOT 3" using s [of x] by (metis add_diff_cancel_right')
  finally show ?thesis using low by simp
qed

text \<open>\<open>FFLAGS\<close> turns the access mode of \<open>open\<close> into two flags that can be tested alone, keeps
  every other flag, and \<open>OFLAGS\<close> is its inverse.\<close>

theorem fflags_modes:
  assumes "oflags AND O_ACCMODE = a" "a \<in> {O_RDONLY, O_WRONLY, O_RDWR}"
  shows "(has (FFLAGS oflags) (word_of_int FREAD) \<longleftrightarrow> a \<in> {O_RDONLY, O_RDWR}) \<and> (has (FFLAGS oflags) (word_of_int FWRITE) \<longleftrightarrow> a \<in> {O_WRONLY, O_RDWR}) \<and>
    FFLAGS oflags AND NOT O_ACCMODE = oflags AND NOT O_ACCMODE \<and> OFLAGS (FFLAGS oflags) = oflags"
proof -
  have a3: "oflags AND 3 = a" "a \<in> {0, 1, 2}" using assms by (auto simp: open_defs)
  then have l: "(oflags + 1) AND NOT 3 = oflags AND NOT 3" "(oflags + 1) AND 3 = a + 1"
    using low_bits [of oflags] by auto
  have "(oflags + 1) AND 1 = (a + 1) AND 1" "(oflags + 1) AND 2 = (a + 1) AND 2"
    unfolding l(2) [symmetric] by (simp_all add: and.assoc)
  then show ?thesis using a3(2) l(1)
    by (auto simp: has_def FFLAGS_def OFLAGS_def open_defs FREAD_def FWRITE_def)
qed

theorem fflags_modes_witness: "has (FFLAGS (O_RDWR OR O_CREAT)) (word_of_int FREAD) \<and> has (FFLAGS (O_RDWR OR O_CREAT)) (word_of_int FWRITE)"
  using fflags_modes [of "O_RDWR OR O_CREAT" O_RDWR] by (simp add: open_defs)

text \<open>Device numbers: a device made of a major and a minor number of one byte gives them back.\<close>

lemma dev_numbers: "0 \<le> x \<Longrightarrow> x < 256 \<Longrightarrow> 0 \<le> y \<Longrightarrow> y < 256 \<Longrightarrow>
    major (makedev x y) = x \<and> minor (makedev x y) = y"
proof -
  assume r: "0 \<le> x" "x < 256" "0 \<le> y" "y < 256"
  have b: "push_bit 8 x OR y = 256 * x + y" by (rule byte_join) (use r in auto)
  have m: "(0xff :: u_int) = mask 8" by (simp add: mask_eq_exp_minus_1)
  have u: "uint (makedev x y) = 256 * x + y"
    using r unfolding makedev_def b by (simp only: uint_word_of_int) simp
  have f: "uint (z AND 0xff) = uint z mod 256" for z :: u_int
    unfolding m take_bit_eq_mask [symmetric] by (simp only: unsigned_take_bit_eq) (simp add: take_bit_eq_mod)
  show ?thesis using r by (simp add: major_def minor_def f u drop_bit_eq_div uint_div_distrib)
qed

end
