(* ===== verification/Cluster.thy ===== *)
theory Cluster
  imports SlipProps
begin

text \<open>
  The rest of \<open>sys/mbuf.h\<close>: taking a cluster from the pool, mbuf types and statistics, and the address
  macros.  \<open>m_clalloc\<close>, which fills the pool, is defined nowhere in the repository and is an
  argument.  The pool is the free list threaded through the clusters and the table of reference counts, in
  the record \<open>slip\<close>, because the only code that returns a cluster is \<open>slclose\<close>.
\<close>

section \<open>Mbuf types\<close>

definition MT_FREE :: int where "MT_FREE = 0"
definition MT_SOCKET :: int where "MT_SOCKET = 3"
definition MT_PCB :: int where "MT_PCB = 4"
definition MT_RTABLE :: int where "MT_RTABLE = 5"
definition MT_HTABLE :: int where "MT_HTABLE = 6"
definition MT_ATABLE :: int where "MT_ATABLE = 7"
definition MT_SONAME :: int where "MT_SONAME = 8"
definition MT_SOOPTS :: int where "MT_SOOPTS = 10"
definition MT_FTABLE :: int where "MT_FTABLE = 11"
definition MT_RIGHTS :: int where "MT_RIGHTS = 12"

lemmas mt_defs = MT_FREE_def MT_SOCKET_def MT_PCB_def MT_RTABLE_def MT_HTABLE_def MT_ATABLE_def
  MT_SONAME_def MT_SOOPTS_def MT_FTABLE_def MT_RIGHTS_def
definition M_DONTWAIT :: int where "M_DONTWAIT = 1"
definition M_WAIT :: int where "M_WAIT = 0"
definition M_COPYALL :: int where "M_COPYALL = 1000000000"
definition M_MAXCOMPRESS :: int where "M_MAXCOMPRESS = MHLEN div 2"

record mbstat =
  m_mbufs :: u_long
  m_clusters :: u_long
  m_spare :: u_long
  ms_clfree :: u_long
  m_drops :: u_long
  m_wait :: u_long
  m_drain :: u_long
  m_mtypes :: "u_short list"

section \<open>Addresses\<close>

text \<open>The casts to \<open>int\<close> and \<open>u_int\<close> keep 32 bits of an address.\<close>

definition dtom :: "addr \<Rightarrow> u_int" where "dtom x = word_of_nat x AND NOT (128 - 1)"
definition cltom :: "slip \<Rightarrow> u_int \<Rightarrow> u_int" where "cltom s x = word_of_nat (mbutl s) + push_bit MCLSHIFT x"

section \<open>Taking a cluster\<close>

definition MCLALLOC :: "(int \<Rightarrow> int \<Rightarrow> slip \<Rightarrow> slip option) \<Rightarrow> int \<Rightarrow> slip \<Rightarrow> (addr \<times> slip) option" where
  "MCLALLOC m_clalloc how s = do {
     s \<leftarrow> (if mclfree s = 0 then m_clalloc 1 how s else Some s);
     let p = mclfree s;
     if p \<noteq> 0
     then do {
       t \<leftarrow> mclrefcnt s;
       guard (mtocl s p < length t);
       let s = s\<lparr>mclrefcnt := Some (t[mtocl s p := t ! mtocl s p + 1]), m_clfree := m_clfree s - 1\<rparr>;
       q \<leftarrow> nrd (s_net s) p 8;
       Some (p, s\<lparr>mclfree := le_nat q\<rparr>) }
     else Some (0, s) }"

section \<open>The pool\<close>

definition cl_next :: "slip \<Rightarrow> addr \<Rightarrow> addr option" where
  "cl_next s p = map_option le_nat (nrd (s_net s) p 8)"

definition pool :: "slip \<Rightarrow> addr list \<Rightarrow> u_char list \<Rightarrow> bool" where
  "pool s fl t \<longleftrightarrow> mclrefcnt s = Some t \<and> chain (cl_next s) (mclfree s) fl \<and> m_clfree s = of_nat (length fl) \<and>
     inj_on (mtocl s) (set fl) \<and> (\<forall>p\<in>set fl. mtocl s p < length t \<and> t ! mtocl s p = 0)"

lemma mtocl_simps [simp]:
  "mtocl (s\<lparr>mclrefcnt := r\<rparr>) = mtocl s" "mtocl (s\<lparr>mclfree := f\<rparr>) = mtocl s"
  "mtocl (s\<lparr>m_clfree := c\<rparr>) = mtocl s" "mtocl (s\<lparr>s_net := n\<rparr>) = mtocl s"
  by (simp_all add: mtocl_def fun_eq_iff)

lemma cl_next_simps [simp]:
  "cl_next (s\<lparr>mclrefcnt := r\<rparr>) = cl_next s" "cl_next (s\<lparr>mclfree := f\<rparr>) = cl_next s"
  "cl_next (s\<lparr>m_clfree := c\<rparr>) = cl_next s"
  by (simp_all add: cl_next_def fun_eq_iff)

lemma nat_le_le_nat: "nat_le (length xs) (le_nat xs) = xs"
proof (induction xs)
  case Nil
  then show ?case by simp
next
  case (Cons b xs)
  have "unat b < 256" using unsigned_less [of b] by simp
  then have "(unat b + 256 * le_nat xs) mod 256 = unat b" "(unat b + 256 * le_nat xs) div 256 = le_nat xs" by simp_all
  with Cons show ?case by simp
qed

lemma patch_slice: "patch bs k (slice k n bs) = bs"
proof -
  let ?ys = "drop k bs"
  have "take n ?ys @ drop (k + length (take n ?ys)) bs = take n ?ys @ drop n ?ys"
    by (cases "n \<le> length ?ys") (simp_all add: add.commute)
  also have "\<dots> = ?ys" by (rule append_take_drop_id)
  finally show ?thesis by (simp only: patch_def slice_def append_take_drop_id)
qed

lemma wr_same: "rd h p n = Some xs \<Longrightarrow> wr h p xs = Some h"
  using st_ld [of h "block_of p"]
  by (auto simp: rd_def wr_def patch_slice  fun_upd_idem split: if_splits option.splits)

text \<open>A cluster taken from a pool with free clusters is the first of the list, has one reference, and the
  others stay a pool.\<close>

lemma mclalloc_takes_first:
  assumes "pool s (p # fl) t"
  shows "\<exists>s'. MCLALLOC m_clalloc how s = Some (p, s') \<and> pool s' fl (t[mtocl s p := 1]) \<and> n_mem (s_net s') = n_mem (s_net s)"
proof -
  have s: "mclrefcnt s = Some t" "mclfree s = p" "p \<noteq> 0" "mtocl s p < length t" "t ! mtocl s p = 0"
      "m_clfree s = of_nat (Suc (length fl))"
    using assms by (auto simp: pool_def chain.simps split: option.splits)
  obtain q where q: "nrd (s_net s) p 8 = Some q" "chain (cl_next s) (le_nat q) fl"
    using assms by (auto simp: pool_def cl_next_def chain.simps split: option.splits)
  have "chain (cl_next s) (mclfree s) (p # fl)" using assms by (simp add: pool_def)
  from chain_distinct [OF this] have "p \<notin> set fl" by simp
  then have "mtocl s r \<noteq> mtocl s p" if "r \<in> set fl" for r
    using assms that by (auto simp: pool_def inj_on_def)
  then show ?thesis
    using assms s q by (auto simp: MCLALLOC_def Let_def pool_def nth_list_update)
qed

text \<open>C31: Releasing a cluster that has just been taken restores the pool and the memory, the bytes of the link
  included.\<close>

theorem mclalloc_mclfree:
  assumes "pool s (p # fl) t" "MCLALLOC m_clalloc how s = Some (p', s')"
  shows "p' = p \<and> MCLFREE s' p' = Some s"
proof -
  have s: "mclrefcnt s = Some t" "mclfree s = p" "p \<noteq> 0" "mtocl s p < length t" "t ! mtocl s p = 0"
    using assms by (auto simp: pool_def chain.simps split: option.splits)
  obtain q where q: "nrd (s_net s) p 8 = Some q"
    using assms by (auto simp: pool_def cl_next_def chain.simps split: option.splits)
  have l: "nat_le 8 (le_nat q) = q" using nat_le_le_nat [of q] q rd_length by (simp add: nrd_def)
  have s': "p' = p" "s' = s\<lparr>mclrefcnt := Some (t[mtocl s p := 1]), m_clfree := m_clfree s - 1, mclfree := le_nat q\<rparr>"
    using assms(2) s q by (auto simp: MCLALLOC_def Let_def)
  have w: "nwr (s_net s) p q = Some (s_net s)" using wr_same q by (simp add: nrd_def nwr_def)
  have "t[mtocl s p := 0] = t" using s(5) by (metis list_update_id)
  then show ?thesis
    using s s' w by (simp add: MCLFREE_def Let_def onnet_def l)
qed

definition demo_pool :: slip where
  "demo_pool = (demo_slip [])\<lparr>mbutl := 36864, mclrefcnt := Some [0], mclfree := 36864, m_clfree := 1\<rparr>"

lemma le_nat_zeros: "le_nat (replicate n 0) = 0"
  by (induction n) simp_all

lemma demo_pool_ok: "pool demo_pool [36864] [0]"
proof -
  have "wf_mem (n_mem (s_net (demo_slip [])))" using demo_slip_line [of "[]"] by (simp add: sl_line_def buf_ok_def)
  then have "ld (n_mem (s_net (demo_slip []))) 36864 = None"
    by (rule wf_buf_ld) (simp add: demo_slip_def)
  from rd_buf [OF _ this, of "demo_blk []" 0 8]
  have "nrd (s_net demo_pool) 36864 8 = Some (replicate 8 0)"
    by (simp add: nrd_def demo_pool_def demo_slip_def demo_blk_def slice_def)
  then have "cl_next demo_pool 36864 = Some 0" by (simp add: cl_next_def le_nat_zeros)
  then show ?thesis
    by (simp add: pool_def chain.simps) (simp add: demo_pool_def mtocl_def)
qed

theorem mclalloc_mclfree_witness:
  "\<exists>s. MCLALLOC (\<lambda>_ _. Some) 0 demo_pool = Some (36864, s) \<and> s \<noteq> demo_pool \<and> MCLFREE s 36864 = Some demo_pool"
proof -
  obtain s where s: "MCLALLOC (\<lambda>_ _. Some) 0 demo_pool = Some (36864, s)" "pool s [] ([0][mtocl demo_pool 36864 := 1])"
    using mclalloc_takes_first [OF demo_pool_ok] by blast
  have "s \<noteq> demo_pool" using s(2) demo_pool_ok by (auto simp: pool_def)
  with s(1) mclalloc_mclfree [OF demo_pool_ok s(1)] show ?thesis by blast
qed

text \<open>While a cluster has further references, releasing one of them only counts.\<close>

lemma mclfree_shared: "mclrefcnt s = Some t \<Longrightarrow> mtocl s p < length t \<Longrightarrow> t ! mtocl s p \<noteq> 1 \<Longrightarrow>
    MCLFREE s p = Some (s\<lparr>mclrefcnt := Some (t[mtocl s p := t ! mtocl s p - 1])\<rparr>)"
  by (simp add: MCLFREE_def Let_def)

section \<open>Closing a line\<close>

text \<open>\<open>slclose\<close> gives the buffer of the line, which \<open>slinit\<close> took from \<open>malloc\<close>, back to a pool that no
  code of the repository sets up: with the table of reference counts still a null pointer, closing a line
  that is open has no defined result.\<close>

lemma slclose_undefined:
  assumes "mclrefcnt s = None" "ldtty s tp = Some t" "t_sc t \<noteq> 0"
  shows "slclose e s tp = None"
proof -
  have "MCLFREE s' q = None" if "mclrefcnt s' = None" for s' q using that by (simp add: MCLFREE_def)
  then show ?thesis
    using assms by (auto simp: slclose_def Let_def updtty_def updsc_def onnet_def split: option.splits bind_splits)
qed

end
