(* ===== verification/CloseRun.thy ===== *)
theory CloseRun
  imports SlipRun Cluster
begin

text \<open>
  The table of reference counts of clusters in every run of the program.  No code of the repository
  allocates it; so it stays a null pointer, and no open serial line can be closed.
\<close>

section \<open>Nothing sets the table\<close>

named_theorems ref_steps \<open>operations that leave the table of reference counts null, one rule each\<close>

abbreviation no_table :: "slip \<Rightarrow> bool" where "no_table s \<equiv> mclrefcnt s = None"

lemma ref_parts [ref_steps]:
  "onnet s g = Some s' \<Longrightarrow> no_table s \<Longrightarrow> no_table s'"
  "updtty s tp h = Some s' \<Longrightarrow> no_table s \<Longrightarrow> no_table s'"
  "sl_count s p d = Some s' \<Longrightarrow> no_table s \<Longrightarrow> no_table s'"
  "updsc s p f = Some s' \<Longrightarrow> no_table s \<Longrightarrow> no_table s'"
  by (auto simp: onnet_def updtty_def sl_count_def updsc_def split: option.splits)

lemma ref_slinit [ref_steps]: "slinit s p = Some (r, s') \<Longrightarrow> no_table s \<Longrightarrow> no_table s'"
  unfolding slinit_def sl_compress_init_def
  by (auto split: bind_splits if_splits prod.splits elim!: ref_steps simp: Let_def)

lemma ref_slopen_loop [ref_steps]: "slopen_loop r s k tp = Some (x, s') \<Longrightarrow> no_table s \<Longrightarrow> no_table s'"
  by (induction r arbitrary: s k) (auto split: bind_splits if_splits elim!: ref_steps)

lemma ref_slopen [ref_steps]: "slopen s dev tp = Some (x, s') \<Longrightarrow> no_table s \<Longrightarrow> no_table s'"
  unfolding slopen_def by (auto split: bind_splits if_splits elim!: ref_steps)

lemma ref_slattach_one [ref_steps]: "slattach_one s k = Some s' \<Longrightarrow> no_table s \<Longrightarrow> no_table s'"
  unfolding slattach_one_def by (auto split: bind_splits elim!: ref_steps simp: Let_def)

lemma ref_MCLFREE [ref_steps]: "MCLFREE s p = Some s' \<Longrightarrow> no_table s \<Longrightarrow> no_table s'"
  by (simp add: MCLFREE_def)

lemma ref_slclose [ref_steps]: "slclose e s tp = Some s' \<Longrightarrow> no_table s \<Longrightarrow> no_table s'"
  unfolding slclose_def by (auto split: bind_splits if_splits elim!: ref_steps simp: Let_def)

section \<open>Input and output\<close>

lemma ref_input_parts [ref_steps]:
  "sl_newpack s p = Some s' \<Longrightarrow> no_table s \<Longrightarrow> no_table s'"
  "sl_error s p = Some s' \<Longrightarrow> no_table s \<Longrightarrow> no_table s'"
  "sl_store s p ch = Some s' \<Longrightarrow> no_table s \<Longrightarrow> no_table s'"
  "sl_tap_in s p chdr len = Some s' \<Longrightarrow> no_table s \<Longrightarrow> no_table s'"
  "sl_expand s p ch b len = Some (x, s') \<Longrightarrow> no_table s \<Longrightarrow> no_table s'"
  "sl_deliver s p ch len = Some (y, s') \<Longrightarrow> no_table s \<Longrightarrow> no_table s'"
  unfolding sl_newpack_def sl_error_def sl_store_def sl_tap_in_def sl_expand_def sl_deliver_def
  by (auto split: bind_splits if_splits prod.splits elim!: ref_steps simp: Let_def)

lemma ref_frame_end [ref_steps]: "sl_frame_end s p = Some (x, s') \<Longrightarrow> no_table s \<Longrightarrow> no_table s'"
  unfolding sl_frame_end_def by (auto split: bind_splits if_splits option.splits elim!: ref_steps simp: Let_def)

lemma ref_slinput [ref_steps]: "slinput ch tp s = Some s' \<Longrightarrow> no_table s \<Longrightarrow> no_table s'"
  unfolding slinput_def sl_switch_def
  by (auto split: bind_splits if_splits sl_next.splits elim!: ref_steps simp: Let_def)

lemma ref_output_parts [ref_steps]:
  "sl_dequeue s p = Some (m, s') \<Longrightarrow> no_table s \<Longrightarrow> no_table s'"
  "sl_tap_out s p m = Some s' \<Longrightarrow> no_table s \<Longrightarrow> no_table s'"
  "sl_squeeze s p m = Some s' \<Longrightarrow> no_table s \<Longrightarrow> no_table s'"
  "sl_putc s tp c = Some (r, s') \<Longrightarrow> no_table s \<Longrightarrow> no_table s'"
  unfolding sl_dequeue_def sl_tap_out_def sl_squeeze_def sl_putc_def
  by (auto split: bind_splits if_splits prod.splits elim!: ref_steps simp: Let_def)

lemma ref_sl_chars [ref_steps]:
  assumes "sl_chars s p tp cp xs = Some s'" "no_table s"
  shows "no_table s'"
proof -
  have "no_table s \<longrightarrow> no_table s'"
  proof (rule sl_chars.raw_induct [of "\<lambda>s p tp cp xs r. no_table s \<longrightarrow> no_table r", OF _ assms(1)], goal_cases)
    case 1
    note IH = 1(1) [rule_format]
    show ?case using 1(2) by (auto split: bind_splits if_splits elim!: ref_steps IH simp: Let_def)
  qed
  with assms show ?thesis by simp
qed

lemma ref_sl_packet [ref_steps]:
  assumes "sl_packet s p tp m = Some s'" "no_table s"
  shows "no_table s'"
proof -
  have "no_table s \<longrightarrow> no_table s'"
  proof (rule sl_packet.raw_induct [of "\<lambda>s p tp m r. no_table s \<longrightarrow> no_table r", OF _ assms(1)], goal_cases)
    case 1
    note IH = 1(1) [rule_format]
    show ?case using 1(2) by (auto split: bind_splits if_splits elim!: ref_steps IH)
  qed
  with assms show ?thesis by simp
qed

lemma ref_sl_send [ref_steps]: "sl_send s p tp m = Some s' \<Longrightarrow> no_table s \<Longrightarrow> no_table s'"
  unfolding sl_send_def sl_frame_def by (auto split: bind_splits if_splits elim!: ref_steps)

text \<open>The output procedures of the terminal drivers leave the pool alone.\<close>

definition oproc_no_pool :: "oproc \<Rightarrow> bool" where
  "oproc_no_pool oproc \<longleftrightarrow> (\<forall>f tp s s'. oproc f tp s = Some s' \<longrightarrow> mclrefcnt s' = mclrefcnt s)"

lemma ref_slstart_loop [ref_steps]:
  assumes "slstart_loop oproc p tp s = Some s'" "no_table s" "oproc_no_pool oproc"
  shows "no_table s'"
proof -
  have "no_table s \<longrightarrow> oproc_no_pool oproc \<longrightarrow> no_table s'"
  proof (rule slstart_loop.raw_induct [of "\<lambda>oproc p tp s r. no_table s \<longrightarrow> oproc_no_pool oproc \<longrightarrow> no_table r",
        OF _ assms(1)], goal_cases)
    case 1
    note IH = 1(1) [rule_format]
    show ?case using 1(2)
      by (auto split: bind_splits if_splits elim!: ref_steps IH)
        (auto simp: oproc_no_pool_def elim!: ref_steps IH)
  qed
  with assms show ?thesis by simp
qed

lemma ref_sl_enqueue [ref_steps]:
  "sl_enqueue oproc ifp p m fast s = Some (r, s') \<Longrightarrow> no_table s \<Longrightarrow> oproc_no_pool oproc \<Longrightarrow> no_table s'"
  unfolding sl_enqueue_def slstart_def
  by (auto split: bind_splits if_splits prod.splits elim!: ref_steps simp: Let_def)

lemma ref_sloutput [ref_steps]:
  "sloutput oproc ifp m dst rt s = Some (r, s') \<Longrightarrow> no_table s \<Longrightarrow> oproc_no_pool oproc \<Longrightarrow> no_table s'"
  unfolding sloutput_def by (auto split: bind_splits if_splits elim!: ref_steps)

lemma ref_slip_step: "slip_step e oproc a s s' \<Longrightarrow> no_table s \<Longrightarrow> oproc_no_pool oproc \<Longrightarrow> no_table s'"
  by (cases rule: slip_step.cases) (auto simp: slstart_def split: bind_splits elim!: ref_steps)

section \<open>Runs\<close>

lemma machine_step_refs: "machine_step e oproc a s s' \<Longrightarrow> no_table (mc_sl s) \<Longrightarrow> oproc_no_pool oproc \<Longrightarrow> no_table (mc_sl s')"
  by (induction rule: machine_step.induct) (auto dest: ref_slip_step)

lemma machine_reach_refs:
  "machine_reach e oproc s0 s \<Longrightarrow> no_table (mc_sl s0) \<Longrightarrow> oproc_no_pool oproc \<Longrightarrow> no_table (mc_sl s)"
  by (induction rule: machine_reach.induct) (auto dest: machine_step_refs)

text \<open>C10: Whatever the program does after a start with the table of reference counts null, as the loader leaves
  it, closing a serial line that is open dereferences that null pointer: \<open>slclose\<close> has no defined result, on
  any open terminal and in every state a run reaches.\<close>

theorem open_line_never_closes:
  assumes "machine_reach e oproc s0 s" "mclrefcnt (mc_sl s0) = None" "oproc_no_pool oproc"
    "ldtty (mc_sl s) tp = Some t" "t_sc t \<noteq> 0"
  shows "slclose e (mc_sl s) tp = None"
  using slclose_undefined [OF machine_reach_refs [OF assms(1-3)] assms(4,5)] .

theorem open_line_never_closes_witness: "\<forall>e. slclose e (mc_sl demo_machine) 3000 = None"
proof
  fix e
  have t: "ldtty (mc_sl demo_machine) 3000 = Some demo_tty" by (simp add: demo_machine_def demo_slip_def ldtty_def)
  have n: "mclrefcnt (mc_sl demo_machine) = None" by (simp add: demo_machine_def demo_slip_def)
  have o: "oproc_no_pool demo_oproc" by (simp add: oproc_no_pool_def demo_oproc_def)
  have "t_sc demo_tty \<noteq> 0" by (simp add: demo_tty_def)
  from open_line_never_closes [OF machine_reach.start n o t this] show "slclose e (mc_sl demo_machine) 3000 = None" .
qed

end
