(* ===== verification/Signal.thy ===== *)
theory Signal
  imports Consts
begin

text \<open>
  Signals and signal masks (\<open>sys/signal.h\<close>), and the priorities, facilities and masks of the
  system log with the tables of their names (\<open>sys/syslog.h\<close>).
\<close>

section \<open>Signals\<close>

definition NSIG :: int where "NSIG = 32"
definition SIGHUP :: int where "SIGHUP = 1"
definition SIGINT :: int where "SIGINT = 2"
definition SIGQUIT :: int where "SIGQUIT = 3"
definition SIGILL :: int where "SIGILL = 4"
definition SIGTRAP :: int where "SIGTRAP = 5"
definition SIGABRT :: int where "SIGABRT = 6"
definition SIGIOT :: int where "SIGIOT = SIGABRT"
definition SIGEMT :: int where "SIGEMT = 7"
definition SIGFPE :: int where "SIGFPE = 8"
definition SIGKILL :: int where "SIGKILL = 9"
definition SIGBUS :: int where "SIGBUS = 10"
definition SIGSEGV :: int where "SIGSEGV = 11"
definition SIGSYS :: int where "SIGSYS = 12"
definition SIGPIPE :: int where "SIGPIPE = 13"
definition SIGALRM :: int where "SIGALRM = 14"
definition SIGTERM :: int where "SIGTERM = 15"
definition SIGURG :: int where "SIGURG = 16"
definition SIGSTOP :: int where "SIGSTOP = 17"
definition SIGTSTP :: int where "SIGTSTP = 18"
definition SIGCONT :: int where "SIGCONT = 19"
definition SIGCHLD :: int where "SIGCHLD = 20"
definition SIGTTIN :: int where "SIGTTIN = 21"
definition SIGTTOU :: int where "SIGTTOU = 22"
definition SIGIO :: int where "SIGIO = 23"
definition SIGXCPU :: int where "SIGXCPU = 24"
definition SIGXFSZ :: int where "SIGXFSZ = 25"
definition SIGVTALRM :: int where "SIGVTALRM = 26"
definition SIGPROF :: int where "SIGPROF = 27"
definition SIGWINCH :: int where "SIGWINCH = 28"
definition SIGINFO :: int where "SIGINFO = 29"
definition SIGUSR1 :: int where "SIGUSR1 = 30"
definition SIGUSR2 :: int where "SIGUSR2 = 31"

lemmas signal_defs = NSIG_def SIGHUP_def SIGINT_def SIGQUIT_def SIGILL_def SIGTRAP_def SIGABRT_def
  SIGIOT_def SIGEMT_def SIGFPE_def SIGKILL_def SIGBUS_def SIGSEGV_def SIGSYS_def SIGPIPE_def SIGALRM_def
  SIGTERM_def SIGURG_def SIGSTOP_def SIGTSTP_def SIGCONT_def SIGCHLD_def SIGTTIN_def SIGTTOU_def SIGIO_def
  SIGXCPU_def SIGXFSZ_def SIGVTALRM_def SIGPROF_def SIGWINCH_def SIGINFO_def SIGUSR1_def SIGUSR2_def
definition SA_ONSTACK :: int where "SA_ONSTACK = 0x1"
definition SA_RESTART :: int where "SA_RESTART = 0x2"
definition SA_DISABLE :: int where "SA_DISABLE = 0x4"
definition SA_USERTRAMP :: int where "SA_USERTRAMP = 0x100"
definition SA_NOCLDSTOP :: int where "SA_NOCLDSTOP = 0x8"
definition SIG_BLOCK :: int where "SIG_BLOCK = 1"
definition SIG_UNBLOCK :: int where "SIG_UNBLOCK = 2"
definition SIG_SETMASK :: int where "SIG_SETMASK = 3"

lemmas sigact_defs = SA_ONSTACK_def SA_RESTART_def SA_DISABLE_def SA_USERTRAMP_def SA_NOCLDSTOP_def
  SIG_BLOCK_def SIG_UNBLOCK_def SIG_SETMASK_def
definition MINSIGSTKSZ :: int where "MINSIGSTKSZ = 8192"
definition SIGSTKSZ :: int where "SIGSTKSZ = MINSIGSTKSZ + 32768"

lemmas sigstk_defs = MINSIGSTKSZ_def SIGSTKSZ_def

definition SIG_DFL :: addr where "SIG_DFL = 0"
definition SIG_IGN :: addr where "SIG_IGN = 1"
definition SIG_ERR :: addr where "SIG_ERR = unat (- 1 :: 64 word)"
definition BADSIG :: addr where "BADSIG = SIG_ERR"

record sigaction =
  sa_handler :: addr
  sa_mask :: u_int
  sa_flags :: int

record sigaltstack =
  ss_base :: addr
  ss_size :: int
  ss_flags :: int

record sigvec =
  sv_handler :: addr
  sv_mask :: int
  sv_flags :: int

record sigstack =
  ss_sp :: addr
  ss_onstack :: int

definition SV_ONSTACK :: int where "SV_ONSTACK = SA_ONSTACK"
definition SV_INTERRUPT :: int where "SV_INTERRUPT = SA_RESTART"
definition sv_onstack :: "sigvec \<Rightarrow> int" where "sv_onstack v = sv_flags v"

text \<open>A shift by a negative number, or by the width of \<open>int\<close> or more, has no defined result.\<close>

definition sigmask :: "int \<Rightarrow> u_int option" where
  "sigmask m = (if 0 \<le> m - 1 \<and> m - 1 < 32 then Some (push_bit (nat (m - 1)) 1) else None)"

lemma sigmask_bit: "sigmask m = Some w \<Longrightarrow> bit w k \<longleftrightarrow> int k = m - 1"
  by (auto simp: sigmask_def bit_simps split: if_splits)

text \<open>The mask of a set of signals, as a caller of \<open>sigblock\<close> builds it with \<open>|\<close>.\<close>

primrec sigmasks :: "int list \<Rightarrow> u_int option" where
  "sigmasks [] = Some 0"
| "sigmasks (m # ms) = do { w \<leftarrow> sigmask m; v \<leftarrow> sigmasks ms; Some (w OR v) }"

text \<open>Every signal of the header has a mask of its own: the mask of a list of signals, built in any
  order, is defined when they are numbers from 1 to 32, and tells for every signal whether it is in
  the list.\<close>

theorem sigmasks_members:
  assumes "\<forall>m\<in>set ms. 1 \<le> m \<and> m \<le> NSIG" "sigmask k = Some w"
  shows "\<exists>v. sigmasks ms = Some v \<and> (has v w \<longleftrightarrow> k \<in> set ms)"
proof -
  have sh: "has v w \<longleftrightarrow> bit v (nat (k - 1))" for v
    using assms(2) bit_iff_and_push_bit_not_eq_0 [of v "nat (k - 1)"]
    by (auto simp: sigmask_def has_def split: if_splits)
  have k: "1 \<le> k" using assms(2) by (auto simp: sigmask_def split: if_splits)
  have "\<exists>v. sigmasks ms = Some v \<and> (\<forall>j. bit v j \<longleftrightarrow> 1 + int j \<in> set ms)"
    using assms(1)
  proof (induction ms)
    case Nil
    then show ?case by simp
  next
    case (Cons m ms)
    then obtain v where v: "sigmasks ms = Some v" "\<forall>j. bit v j \<longleftrightarrow> 1 + int j \<in> set ms" by auto
    obtain u where u: "sigmask m = Some u" using Cons.prems by (auto simp: sigmask_def NSIG_def)
    show ?case using u v sigmask_bit [OF u] by (auto simp: bit_or_iff)
  qed
  then show ?thesis using k unfolding sh by auto
qed

theorem sigmasks_members_witness:
  "\<exists>v w. sigmasks [SIGINT, SIGHUP] = Some v \<and> sigmask SIGINT = Some w \<and> has v w"
  using sigmasks_members [of "[SIGINT, SIGHUP]" SIGINT 2] by (simp add: signal_defs sigmask_def)

lemma signals_distinct:
  "distinct [SIGHUP, SIGINT, SIGQUIT, SIGILL, SIGTRAP, SIGABRT, SIGEMT, SIGFPE, SIGKILL, SIGBUS, SIGSEGV, SIGSYS,
     SIGPIPE, SIGALRM, SIGTERM, SIGURG, SIGSTOP, SIGTSTP, SIGCONT, SIGCHLD, SIGTTIN, SIGTTOU, SIGIO, SIGXCPU,
     SIGXFSZ, SIGVTALRM, SIGPROF, SIGWINCH, SIGINFO, SIGUSR1, SIGUSR2] \<and> SIGIOT = SIGABRT"
  by (simp add: signal_defs)

section \<open>The system log\<close>

definition LOG_EMERG :: u_int where "LOG_EMERG = 0"
definition LOG_ALERT :: u_int where "LOG_ALERT = 1"
definition LOG_CRIT :: u_int where "LOG_CRIT = 2"
definition LOG_ERR :: u_int where "LOG_ERR = 3"
definition LOG_WARNING :: u_int where "LOG_WARNING = 4"
definition LOG_NOTICE :: u_int where "LOG_NOTICE = 5"
definition LOG_INFO :: u_int where "LOG_INFO = 6"
definition LOG_DEBUG :: u_int where "LOG_DEBUG = 7"
definition LOG_PRIMASK :: u_int where "LOG_PRIMASK = 0x7"
definition INTERNAL_NOPRI :: u_int where "INTERNAL_NOPRI = 0x10"

lemmas logpri_defs = LOG_EMERG_def LOG_ALERT_def LOG_CRIT_def LOG_ERR_def LOG_WARNING_def LOG_NOTICE_def
  LOG_INFO_def LOG_DEBUG_def LOG_PRIMASK_def INTERNAL_NOPRI_def
definition LOG_KERN :: u_int where "LOG_KERN = push_bit 3 0"
definition LOG_USER :: u_int where "LOG_USER = push_bit 3 1"
definition LOG_MAIL :: u_int where "LOG_MAIL = push_bit 3 2"
definition LOG_DAEMON :: u_int where "LOG_DAEMON = push_bit 3 3"
definition LOG_AUTH :: u_int where "LOG_AUTH = push_bit 3 4"
definition LOG_SYSLOG :: u_int where "LOG_SYSLOG = push_bit 3 5"
definition LOG_LPR :: u_int where "LOG_LPR = push_bit 3 6"
definition LOG_NEWS :: u_int where "LOG_NEWS = push_bit 3 7"
definition LOG_UUCP :: u_int where "LOG_UUCP = push_bit 3 8"
definition LOG_CRON :: u_int where "LOG_CRON = push_bit 3 9"
definition LOG_AUTHPRIV :: u_int where "LOG_AUTHPRIV = push_bit 3 10"
definition LOG_FTP :: u_int where "LOG_FTP = push_bit 3 11"
definition LOG_LOCAL0 :: u_int where "LOG_LOCAL0 = push_bit 3 16"
definition LOG_LOCAL1 :: u_int where "LOG_LOCAL1 = push_bit 3 17"
definition LOG_LOCAL2 :: u_int where "LOG_LOCAL2 = push_bit 3 18"
definition LOG_LOCAL3 :: u_int where "LOG_LOCAL3 = push_bit 3 19"
definition LOG_LOCAL4 :: u_int where "LOG_LOCAL4 = push_bit 3 20"
definition LOG_LOCAL5 :: u_int where "LOG_LOCAL5 = push_bit 3 21"
definition LOG_LOCAL6 :: u_int where "LOG_LOCAL6 = push_bit 3 22"
definition LOG_LOCAL7 :: u_int where "LOG_LOCAL7 = push_bit 3 23"
definition LOG_NFACILITIES :: u_int where "LOG_NFACILITIES = 24"
definition LOG_FACMASK :: u_int where "LOG_FACMASK = 0x3f8"
definition LOG_PRINTF :: u_int where "LOG_PRINTF = - 1"

lemmas logfac_defs = LOG_KERN_def LOG_USER_def LOG_MAIL_def LOG_DAEMON_def LOG_AUTH_def LOG_SYSLOG_def
  LOG_LPR_def LOG_NEWS_def LOG_UUCP_def LOG_CRON_def LOG_AUTHPRIV_def LOG_FTP_def LOG_LOCAL0_def
  LOG_LOCAL1_def LOG_LOCAL2_def LOG_LOCAL3_def LOG_LOCAL4_def LOG_LOCAL5_def LOG_LOCAL6_def LOG_LOCAL7_def
  LOG_NFACILITIES_def LOG_FACMASK_def LOG_PRINTF_def
definition LOG_PRI :: "u_int \<Rightarrow> u_int" where "LOG_PRI p = p AND LOG_PRIMASK"
definition LOG_MAKEPRI :: "u_int \<Rightarrow> u_int \<Rightarrow> u_int" where "LOG_MAKEPRI fac pri = push_bit 3 fac OR pri"
definition INTERNAL_MARK :: u_int where "INTERNAL_MARK = LOG_MAKEPRI LOG_NFACILITIES 0"
definition LOG_FAC :: "u_int \<Rightarrow> u_int" where "LOG_FAC p = drop_bit 3 (p AND LOG_FACMASK)"
definition LOG_MASK :: "nat \<Rightarrow> u_int" where "LOG_MASK pri = push_bit pri 1"
definition LOG_UPTO :: "nat \<Rightarrow> u_int" where "LOG_UPTO pri = push_bit (pri + 1) 1 - 1"
definition LOG_PID :: u_int where "LOG_PID = 0x1"
definition LOG_CONS :: u_int where "LOG_CONS = 0x2"
definition LOG_ODELAY :: u_int where "LOG_ODELAY = 0x4"
definition LOG_NDELAY :: u_int where "LOG_NDELAY = 0x8"
definition LOG_NOWAIT :: u_int where "LOG_NOWAIT = 0x10"
definition LOG_PERROR :: u_int where "LOG_PERROR = 0x20"

lemmas logopt_defs = LOG_PID_def LOG_CONS_def LOG_ODELAY_def LOG_NDELAY_def LOG_NOWAIT_def LOG_PERROR_def

record CODE =
  c_name :: "string option"
  c_val :: u_int

abbreviation named :: "string \<Rightarrow> u_int \<Rightarrow> CODE" where "named s v \<equiv> \<lparr>c_name = Some s, c_val = v\<rparr>"

definition prioritynames :: "CODE list" where
  "prioritynames = [named ''alert'' LOG_ALERT, named ''crit'' LOG_CRIT, named ''debug'' LOG_DEBUG,
     named ''emerg'' LOG_EMERG, named ''err'' LOG_ERR, named ''error'' LOG_ERR, named ''info'' LOG_INFO,
     named ''none'' INTERNAL_NOPRI, named ''notice'' LOG_NOTICE, named ''panic'' LOG_EMERG,
     named ''warn'' LOG_WARNING, named ''warning'' LOG_WARNING, \<lparr>c_name = None, c_val = - 1\<rparr>]"

definition facilitynames :: "CODE list" where
  "facilitynames = [named ''auth'' LOG_AUTH, named ''authpriv'' LOG_AUTHPRIV, named ''cron'' LOG_CRON,
     named ''daemon'' LOG_DAEMON, named ''ftp'' LOG_FTP, named ''kern'' LOG_KERN, named ''lpr'' LOG_LPR,
     named ''mail'' LOG_MAIL, named ''mark'' INTERNAL_MARK, named ''news'' LOG_NEWS,
     named ''security'' LOG_AUTH, named ''syslog'' LOG_SYSLOG, named ''user'' LOG_USER,
     named ''uucp'' LOG_UUCP, named ''local0'' LOG_LOCAL0, named ''local1'' LOG_LOCAL1,
     named ''local2'' LOG_LOCAL2, named ''local3'' LOG_LOCAL3, named ''local4'' LOG_LOCAL4,
     named ''local5'' LOG_LOCAL5, named ''local6'' LOG_LOCAL6, named ''local7'' LOG_LOCAL7,
     \<lparr>c_name = None, c_val = - 1\<rparr>]"

lemmas log_macros = LOG_PRI_def LOG_MAKEPRI_def LOG_FAC_def INTERNAL_MARK_def logpri_defs logfac_defs

lemma small_bit: "w < 2 ^ k \<Longrightarrow> bit w n \<Longrightarrow> n < k" for w :: u_int
proof -
  assume w: "w < 2 ^ k" "bit w n"
  have "take_bit k w = w" using w(1) by (simp add: take_bit_eq_mod mod_word_less)
  then show "n < k" using w(2) bit_take_bit_iff [of k w n] by simp
qed

lemma makepri_parts: "f < 128 \<Longrightarrow> p < 8 \<Longrightarrow> LOG_FAC (LOG_MAKEPRI f p) = f \<and> LOG_PRI (LOG_MAKEPRI f p) = p"
proof -
  assume f: "f < 128" and p: "p < 8"
  have m: "(7 :: u_int) = mask 3" "(0x3f8 :: u_int) = push_bit 3 (mask 7)"
    by (simp_all add: mask_eq_exp_minus_1)
  note b = small_bit [of f 7] small_bit [of p 3]
  have "LOG_FAC (LOG_MAKEPRI f p) = f"
    unfolding LOG_FAC_def LOG_MAKEPRI_def LOG_FACMASK_def m
    by (rule bit_word_eqI) (use f p b in \<open>fastforce simp: bit_simps\<close>)
  moreover have "LOG_PRI (LOG_MAKEPRI f p) = p"
    unfolding LOG_PRI_def LOG_MAKEPRI_def LOG_PRIMASK_def m
    by (rule bit_word_eqI) (use f p b in \<open>auto simp: bit_simps\<close>)
  ultimately show ?thesis by simp
qed

definition facilities :: "u_int list" where
  "facilities = [LOG_KERN, LOG_USER, LOG_MAIL, LOG_DAEMON, LOG_AUTH, LOG_SYSLOG, LOG_LPR, LOG_NEWS, LOG_UUCP,
     LOG_CRON, LOG_AUTHPRIV, LOG_FTP, LOG_LOCAL0, LOG_LOCAL1, LOG_LOCAL2, LOG_LOCAL3, LOG_LOCAL4, LOG_LOCAL5,
     LOG_LOCAL6, LOG_LOCAL7]"

lemma facilities_shifted: "set facilities \<subseteq> push_bit 3 ` {k. k < 24}"
proof -
  let ?ns = "[0, 1, 2, 3, 4, 5, 6, 7, 8, 9, 10, 11, 16, 17, 18, 19, 20, 21, 22, 23] :: u_int list"
  have f: "facilities = map (push_bit 3) ?ns" by (simp add: facilities_def logfac_defs)
  have "set ?ns \<subseteq> {k. k < 24}" by simp
  then show ?thesis unfolding f set_map by (rule image_mono)
qed

text \<open>A facility code of \<open>sys/syslog.h\<close> together with a priority is taken apart by \<open>LOG_FAC\<close> and
  \<open>LOG_PRI\<close>: the facility part is the number of the facility, below \<open>LOG_NFACILITIES\<close>.  The codes are
  shifted already: given to \<open>LOG_MAKEPRI\<close>, which shifts once more, a code below 128 comes back as the
  facility itself and not as its number.\<close>

theorem syslog_facilities:
  assumes "fac \<in> set facilities" "p < 8"
  shows "\<exists>k<LOG_NFACILITIES. fac = push_bit 3 k \<and> LOG_FAC (fac OR p) = k \<and> LOG_PRI (fac OR p) = p \<and>
    LOG_MAKEPRI k p = fac OR p \<and> (fac < 128 \<longrightarrow> LOG_FAC (LOG_MAKEPRI fac p) = fac)"
proof -
  obtain k where k: "k < 24" "fac = push_bit 3 k" using assms(1) facilities_shifted by auto
  then have "k < 128" by (auto intro: order.strict_trans)
  with makepri_parts [of k p] assms(2) k makepri_parts [of fac p]
  show ?thesis by (intro exI [of _ k]) (auto simp: LOG_MAKEPRI_def LOG_NFACILITIES_def)
qed

theorem syslog_facilities_witness: "LOG_FAC (LOG_MAIL OR LOG_ERR) = 2 \<and> LOG_FAC (LOG_MAKEPRI LOG_MAIL LOG_ERR) = 16"
proof -
  have "LOG_MAIL \<in> set facilities" "LOG_ERR < 8" by (simp_all add: facilities_def logpri_defs)
  from syslog_facilities [OF this] show ?thesis by (auto simp: LOG_MAIL_def LOG_ERR_def LOG_FAC_def LOG_FACMASK_def)
qed

end
