(* ===== verification/KMem.thy ===== *)
theory KMem
  imports Consts Sock
begin

text \<open>
  The kernel memory allocator as far as \<open>sys/malloc.h\<close> describes it: the types of memory, the table
  of their names \<open>INITKMEMNAMES\<close>, and the structures of the statistics and the buckets.
\<close>

section \<open>Types of memory\<close>

definition M_FREE :: nat where "M_FREE = 0"
definition M_MBUF :: nat where "M_MBUF = 1"
definition M_DEVBUF :: nat where "M_DEVBUF = 2"
definition M_SOCKET :: nat where "M_SOCKET = 3"
definition M_PCB :: nat where "M_PCB = 4"
definition M_RTABLE :: nat where "M_RTABLE = 5"
definition M_HTABLE :: nat where "M_HTABLE = 6"
definition M_FTABLE :: nat where "M_FTABLE = 7"
definition M_ZOMBIE :: nat where "M_ZOMBIE = 8"
definition M_IFADDR :: nat where "M_IFADDR = 9"
definition M_SOOPTS :: nat where "M_SOOPTS = 10"
definition M_SONAME :: nat where "M_SONAME = 11"
definition M_NAMEI :: nat where "M_NAMEI = 12"
definition M_GPROF :: nat where "M_GPROF = 13"
definition M_IOCTLOPS :: nat where "M_IOCTLOPS = 14"
definition M_MAPMEM :: nat where "M_MAPMEM = 15"
definition M_CRED :: nat where "M_CRED = 16"
definition M_PGRP :: nat where "M_PGRP = 17"
definition M_SESSION :: nat where "M_SESSION = 18"
definition M_IOV :: nat where "M_IOV = 19"
definition M_MOUNT :: nat where "M_MOUNT = 20"
definition M_FHANDLE :: nat where "M_FHANDLE = 21"
definition M_NFSREQ :: nat where "M_NFSREQ = 22"
definition M_NFSMNT :: nat where "M_NFSMNT = 23"
definition M_NFSNODE :: nat where "M_NFSNODE = 24"
definition M_VNODE :: nat where "M_VNODE = 25"
definition M_CACHE :: nat where "M_CACHE = 26"
definition M_DQUOT :: nat where "M_DQUOT = 27"
definition M_UFSMNT :: nat where "M_UFSMNT = 28"
definition M_SHM :: nat where "M_SHM = 29"
definition M_VMMAP :: nat where "M_VMMAP = 30"
definition M_VMMAPENT :: nat where "M_VMMAPENT = 31"
definition M_VMOBJ :: nat where "M_VMOBJ = 32"
definition M_VMOBJHASH :: nat where "M_VMOBJHASH = 33"
definition M_VMPMAP :: nat where "M_VMPMAP = 34"
definition M_VMPVENT :: nat where "M_VMPVENT = 35"
definition M_VMPAGER :: nat where "M_VMPAGER = 36"
definition M_VMPGDATA :: nat where "M_VMPGDATA = 37"
definition M_FILE :: nat where "M_FILE = 38"
definition M_FILEDESC :: nat where "M_FILEDESC = 39"
definition M_LOCKF :: nat where "M_LOCKF = 40"
definition M_PROC :: nat where "M_PROC = 41"
definition M_SUBPROC :: nat where "M_SUBPROC = 42"
definition M_SEGMENT :: nat where "M_SEGMENT = 43"
definition M_LFSNODE :: nat where "M_LFSNODE = 44"
definition M_FFSNODE :: nat where "M_FFSNODE = 45"
definition M_MFSNODE :: nat where "M_MFSNODE = 46"
definition M_NQLEASE :: nat where "M_NQLEASE = 47"
definition M_NQMHOST :: nat where "M_NQMHOST = 48"
definition M_NETADDR :: nat where "M_NETADDR = 49"
definition M_NFSSVC :: nat where "M_NFSSVC = 50"
definition M_NFSUID :: nat where "M_NFSUID = 51"
definition M_NFSD :: nat where "M_NFSD = 52"
definition M_IPMOPTS :: nat where "M_IPMOPTS = 53"
definition M_IPMADDR :: nat where "M_IPMADDR = 54"
definition M_IFMADDR :: nat where "M_IFMADDR = 55"
definition M_MRTABLE :: nat where "M_MRTABLE = 56"
definition M_ISOFSMNT :: nat where "M_ISOFSMNT = 57"
definition M_ISOFSNODE :: nat where "M_ISOFSNODE = 58"
definition M_TEMP :: nat where "M_TEMP = 74"
definition M_LAST :: nat where "M_LAST = 75"

lemmas kmem_defs = M_FREE_def M_MBUF_def M_DEVBUF_def M_SOCKET_def M_PCB_def M_RTABLE_def M_HTABLE_def
  M_FTABLE_def M_ZOMBIE_def M_IFADDR_def M_SOOPTS_def M_SONAME_def M_NAMEI_def M_GPROF_def M_IOCTLOPS_def
  M_MAPMEM_def M_CRED_def M_PGRP_def M_SESSION_def M_IOV_def M_MOUNT_def M_FHANDLE_def M_NFSREQ_def
  M_NFSMNT_def M_NFSNODE_def M_VNODE_def M_CACHE_def M_DQUOT_def M_UFSMNT_def M_SHM_def M_VMMAP_def
  M_VMMAPENT_def M_VMOBJ_def M_VMOBJHASH_def M_VMPMAP_def M_VMPVENT_def M_VMPAGER_def M_VMPGDATA_def
  M_FILE_def M_FILEDESC_def M_LOCKF_def M_PROC_def M_SUBPROC_def M_SEGMENT_def M_LFSNODE_def M_FFSNODE_def
  M_MFSNODE_def M_NQLEASE_def M_NQMHOST_def M_NETADDR_def M_NFSSVC_def M_NFSUID_def M_NFSD_def M_IPMOPTS_def
  M_IPMADDR_def M_IFMADDR_def M_MRTABLE_def M_ISOFSMNT_def M_ISOFSNODE_def M_TEMP_def M_LAST_def

definition INITKMEMNAMES :: "string option list" where
  "INITKMEMNAMES =
    map Some [''free'', ''mbuf'', ''devbuf'', ''socket'', ''pcb'', ''routetbl'', ''hosttbl'', 
      ''fragtbl'', ''zombie'', ''ifaddr'', ''soopts'', ''soname'', ''namei'', ''gprof'', 
      ''ioctlops'', ''mapmem'', ''cred'', ''pgrp'', ''session'', ''iov'', ''mount'', ''fhandle'', 
      ''NFS req'', ''NFS mount'', ''NFS node'', ''vnodes'', ''namecache'', ''UFS quota'', 
      ''UFS mount'', ''shm'', ''VM map'', ''VM mapent'', ''VM object'', ''VM objhash'', ''VM pmap'', 
      ''VM pvmap'', ''VM pager'', ''VM pgdata'', ''file'', ''file desc'', ''lockf'', ''proc'', 
      ''subproc'', ''LFS segment'', ''LFS node'', ''FFS node'', ''MFS node'', ''NQNFS Lease'', 
      ''NQNFS Host'', ''Export Host'', ''NFS srvsock'', ''NFS uid'', ''NFS daemon'', ''ip_moptions'', 
      ''in_multi'', ''ether_multi'', ''mrt'', ''ISOFS mount'', ''ISOFS node''] @
    replicate 15 None @
    map Some [''temp'']"

section \<open>Statistics and buckets\<close>

record kmemstats =
  ks_inuse :: int
  ks_calls :: int
  ks_memuse :: int
  ks_limblocks :: u_short
  ks_mapblocks :: u_short
  ks_maxused :: int
  ks_limit :: int
  ks_size :: int
  ks_spare :: int

text \<open>The two names \<open>freecnt\<close> and \<open>pagecnt\<close> of the union are the same sixteen bits.\<close>

record kmemusage =
  ku_indx :: c_short
  ku_un :: u_short

definition ku_freecnt :: "kmemusage \<Rightarrow> u_short" where "ku_freecnt u = ku_un u"
definition ku_pagecnt :: "kmemusage \<Rightarrow> u_short" where "ku_pagecnt u = ku_un u"

record kmembuckets =
  kb_next :: addr
  kb_last :: addr
  kb_calls :: int
  kb_total :: int
  kb_totalfree :: int
  kb_elmpercl :: int
  kb_highwat :: int
  kb_couldfree :: int

section \<open>The table of names\<close>

text \<open>The table names every type below \<open>M_LAST\<close>, no two types alike, and no name stands at a number that no
  type has.\<close>

theorem kmem_names:
  "length INITKMEMNAMES = M_LAST \<and> (\<forall>t<M_LAST. INITKMEMNAMES ! t = None \<longleftrightarrow> M_ISOFSNODE < t \<and> t < M_TEMP) \<and>
   distinct (filter (\<lambda>n. n \<noteq> None) INITKMEMNAMES) \<and>
   INITKMEMNAMES ! M_MBUF = Some ''mbuf'' \<and> INITKMEMNAMES ! M_SOCKET = Some ''socket'' \<and>
   INITKMEMNAMES ! M_RTABLE = Some ''routetbl'' \<and> INITKMEMNAMES ! M_IFADDR = Some ''ifaddr'' \<and>
   INITKMEMNAMES ! M_IPMADDR = Some ''in_multi'' \<and> INITKMEMNAMES ! M_IFMADDR = Some ''ether_multi'' \<and>
   INITKMEMNAMES ! M_TEMP = Some ''temp''"
proof -
  have none: "map (\<lambda>n. n = None) INITKMEMNAMES = map (\<lambda>t. M_ISOFSNODE < t \<and> t < M_TEMP) [0..<M_LAST]"
    by (simp add: INITKMEMNAMES_def kmem_defs upt_conv_Cons) (simp add: numeral_eq_Suc)
  then have l: "length INITKMEMNAMES = M_LAST" by (metis length_map length_upt diff_zero)
  have "\<forall>t<M_LAST. INITKMEMNAMES ! t = None \<longleftrightarrow> M_ISOFSNODE < t \<and> t < M_TEMP"
  proof (intro allI impI)
    fix t assume t: "t < M_LAST"
    have "map (\<lambda>n. n = None) INITKMEMNAMES ! t = map (\<lambda>t. M_ISOFSNODE < t \<and> t < M_TEMP) [0..<M_LAST] ! t"
      by (simp only: none)
    then show "INITKMEMNAMES ! t = None \<longleftrightarrow> M_ISOFSNODE < t \<and> t < M_TEMP" using t l by simp
  qed
  moreover have "distinct (filter (\<lambda>n. n \<noteq> None) INITKMEMNAMES)"
    by (simp add: INITKMEMNAMES_def)
  moreover have "INITKMEMNAMES ! M_MBUF = Some ''mbuf''" "INITKMEMNAMES ! M_SOCKET = Some ''socket''"
    "INITKMEMNAMES ! M_RTABLE = Some ''routetbl''" "INITKMEMNAMES ! M_IFADDR = Some ''ifaddr''"
    "INITKMEMNAMES ! M_IPMADDR = Some ''in_multi''" "INITKMEMNAMES ! M_IFMADDR = Some ''ether_multi''"
    "INITKMEMNAMES ! M_TEMP = Some ''temp''"
    by (simp_all add: INITKMEMNAMES_def kmem_defs nth_append)
  ultimately show ?thesis using l by blast
qed

end
