(* ===== verification/Proc.thy ===== *)
theory Proc
  imports Tty Signal Clock Param KMem
begin

text \<open>
  Processes, process groups and sessions (\<open>sys/proc.h\<close>), resource usage and limits
  (\<open>sys/resource.h\<close>, \<open>sys/resourcevar.h\<close>), credentials (\<open>sys/ucred.h\<close>), and the two tests of
  \<open>sys/tty.h\<close> that relate a process to a terminal.  \<open>FREE\<close>, \<open>addupc_task\<close> and the trap
  flags of the processor are defined nowhere in the repository or kept by other code; they are arguments.
\<close>

section \<open>Resources\<close>

definition PRIO_MIN :: int where "PRIO_MIN = - 20"
definition PRIO_MAX :: int where "PRIO_MAX = 20"
definition PRIO_PROCESS :: int where "PRIO_PROCESS = 0"
definition PRIO_PGRP :: int where "PRIO_PGRP = 1"
definition PRIO_USER :: int where "PRIO_USER = 2"
definition RUSAGE_SELF :: int where "RUSAGE_SELF = 0"
definition RUSAGE_CHILDREN :: int where "RUSAGE_CHILDREN = - 1"

lemmas prio_defs = PRIO_MIN_def PRIO_MAX_def PRIO_PROCESS_def PRIO_PGRP_def PRIO_USER_def RUSAGE_SELF_def
  RUSAGE_CHILDREN_def
definition RLIMIT_CPU :: nat where "RLIMIT_CPU = 0"
definition RLIMIT_FSIZE :: nat where "RLIMIT_FSIZE = 1"
definition RLIMIT_DATA :: nat where "RLIMIT_DATA = 2"
definition RLIMIT_STACK :: nat where "RLIMIT_STACK = 3"
definition RLIMIT_CORE :: nat where "RLIMIT_CORE = 4"
definition RLIMIT_RSS :: nat where "RLIMIT_RSS = 5"
definition RLIMIT_MEMLOCK :: nat where "RLIMIT_MEMLOCK = 6"
definition RLIMIT_NPROC :: nat where "RLIMIT_NPROC = 7"
definition RLIMIT_NOFILE :: nat where "RLIMIT_NOFILE = 8"
definition RLIM_NLIMITS :: nat where "RLIM_NLIMITS = 9"

lemmas rlimit_defs = RLIMIT_CPU_def RLIMIT_FSIZE_def RLIMIT_DATA_def RLIMIT_STACK_def RLIMIT_CORE_def
  RLIMIT_RSS_def RLIMIT_MEMLOCK_def RLIMIT_NPROC_def RLIMIT_NOFILE_def RLIM_NLIMITS_def
definition RLIM_INFINITY :: "64 word" where "RLIM_INFINITY = push_bit 63 1 - 1"

record rusage =
  ru_utime :: timeval
  ru_stime :: timeval
  ru_maxrss :: int
  ru_ixrss :: int
  ru_idrss :: int
  ru_isrss :: int
  ru_minflt :: int
  ru_majflt :: int
  ru_nswap :: int
  ru_inblock :: int
  ru_oublock :: int
  ru_msgsnd :: int
  ru_msgrcv :: int
  ru_nsignals :: int
  ru_nvcsw :: int
  ru_nivcsw :: int

definition ru_first :: "rusage \<Rightarrow> int" where "ru_first r = ru_ixrss r"
definition ru_last :: "rusage \<Rightarrow> int" where "ru_last r = ru_nivcsw r"

record rlimit =
  rlim_cur :: int
  rlim_max :: int

record loadavg =
  ldavg :: "u_long list"
  fscale :: int

record uprof =
  pr_base :: addr
  pr_size :: u_long
  pr_off :: u_long
  pr_scale :: u_long
  pr_addr :: u_long
  pr_ticks :: u_long

record pstats =
  ps_ru :: rusage
  ps_cru :: rusage
  ps_timer :: "itimerval list"
  ps_prof :: uprof
  ps_start :: timeval

record plimit =
  pl_rlimit :: "rlimit list"
  p_lflags :: int
  pl_refcnt :: int

definition PL_SHAREMOD :: int where "PL_SHAREMOD = 0x01"

section \<open>Credentials\<close>

definition ARG_MAX_bytes :: nat where "ARG_MAX_bytes = 20480"
definition CHILD_MAX :: nat where "CHILD_MAX = 40"
definition LINK_MAX :: nat where "LINK_MAX = 32767"
definition MAX_CANON :: nat where "MAX_CANON = 255"
definition MAX_INPUT :: nat where "MAX_INPUT = 255"
definition NAME_MAX :: nat where "NAME_MAX = 255"
definition NGROUPS_MAX :: nat where "NGROUPS_MAX = 16"
definition OPEN_MAX :: nat where "OPEN_MAX = 64"
definition PATH_MAX :: nat where "PATH_MAX = 1024"
definition PIPE_BUF :: nat where "PIPE_BUF = 512"
definition BC_BASE_MAX :: nat where "BC_BASE_MAX = 99"
definition BC_DIM_MAX :: nat where "BC_DIM_MAX = 2048"
definition BC_SCALE_MAX :: nat where "BC_SCALE_MAX = 99"
definition BC_STRING_MAX :: nat where "BC_STRING_MAX = 1000"
definition COLL_WEIGHTS_MAX :: nat where "COLL_WEIGHTS_MAX = 0"
definition EXPR_NEST_MAX :: nat where "EXPR_NEST_MAX = 32"
definition LINE_MAX :: nat where "LINE_MAX = 2048"
definition RE_DUP_MAX :: nat where "RE_DUP_MAX = 255"

lemmas syslimit_defs = CHILD_MAX_def LINK_MAX_def MAX_CANON_def MAX_INPUT_def NAME_MAX_def NGROUPS_MAX_def
  OPEN_MAX_def PATH_MAX_def PIPE_BUF_def BC_BASE_MAX_def BC_DIM_MAX_def BC_SCALE_MAX_def BC_STRING_MAX_def
  COLL_WEIGHTS_MAX_def EXPR_NEST_MAX_def LINE_MAX_def RE_DUP_MAX_def
definition NGROUPS :: nat where "NGROUPS = 16"

record ucred =
  cr_ref :: u_short
  cr_uid :: u_long
  cr_ngroups :: c_short
  cr_groups :: "u_long list"

definition cr_gid :: "ucred \<Rightarrow> u_long" where "cr_gid c = cr_groups c ! 0"
definition NOCRED :: addr where "NOCRED = unat (- 1 :: 64 word)"
definition FSCRED :: addr where "FSCRED = unat (- 2 :: 64 word)"
definition crhold :: "ucred \<Rightarrow> ucred" where "crhold c = c\<lparr>cr_ref := cr_ref c + 1\<rparr>"

record pcred =
  pc_ucred :: addr
  p_ruid :: u_long
  p_svuid :: u_long
  p_rgid :: u_long
  p_svgid :: u_long
  p_refcnt :: int

section \<open>Processes\<close>

record session =
  s_count :: int
  s_leader :: addr
  s_ttyvp :: addr
  s_ttyp :: addr
  s_login :: "u_char list"

record pgrp =
  pg_hforw :: addr
  pg_mem :: addr
  pg_session :: addr
  pg_id :: int
  pg_jobc :: int

record mdproc =
  md_regs :: addr
  md_flags :: int

definition MDP_AST :: int where "MDP_AST = 0x1"
definition MDP_HPUX :: int where "MDP_HPUX = 0x2"
definition MDP_HPUXTRACE :: int where "MDP_HPUXTRACE = 0x4"
definition MDP_HPUXMMAP :: int where "MDP_HPUXMMAP = 0x8"
definition MDP_CCBDATA :: int where "MDP_CCBDATA = 0x10"
definition MDP_CCBSTACK :: int where "MDP_CCBSTACK = 0x20"

lemmas mdp_defs = MDP_AST_def MDP_HPUX_def MDP_HPUXTRACE_def MDP_HPUXMMAP_def MDP_CCBDATA_def
  MDP_CCBSTACK_def

text \<open>\<open>struct proc\<close>, in the parts its comments divide it into: links and substructures, the fields that
  \<open>fork\<close> clears, those it copies, and the rest.\<close>

record proc_head =
  p_forw :: addr
  p_back :: addr
  p_next :: addr
  p_prev :: addr
  p_cred :: addr
  p_fd :: addr
  p_stats :: addr
  p_limit :: addr
  p_vmspace :: addr
  p_sigacts :: addr
  p_flag :: u_int
  p_stat :: int
  p_pad1 :: "u_char list"
  p_pid :: int
  p_hash :: addr
  p_pgrpnxt :: addr
  p_pptr :: addr
  p_osptr :: addr

record proc_zeroed = proc_head +
  p_ysptr :: addr
  p_cptr :: addr
  p_oppid :: int
  p_dupfd :: int
  p_estcpu :: u_int
  p_cpticks :: int
  p_pctcpu :: u_long
  p_wchan :: addr
  p_wmesg :: addr
  p_swtime :: u_int
  p_slptime :: u_int
  p_realtimer :: itimerval
  p_rtime :: timeval
  p_uticks :: "64 word"
  p_sticks :: "64 word"
  p_iticks :: "64 word"
  p_traceflag :: int
  p_tracep :: addr
  p_siglist :: int
  p_textvp :: addr
  p_spare :: "int list"

record proc_copied = proc_zeroed +
  p_sigmask :: u_int
  p_sigignore :: u_int
  p_sigcatch :: u_int
  p_priority :: u_char
  p_usrpri :: u_char
  p_nice :: int
  p_comm :: "u_char list"
  p_pgrp :: addr

record proc = proc_copied +
  p_thread :: int
  p_addr :: addr
  p_md :: mdproc
  p_xstat :: u_short
  p_acflag :: u_short
  p_ru :: addr

definition SIDL :: int where "SIDL = 1"
definition SRUN :: int where "SRUN = 2"
definition SSLEEP :: int where "SSLEEP = 3"
definition SSTOP :: int where "SSTOP = 4"
definition SZOMB :: int where "SZOMB = 5"

lemmas pstat_defs = SIDL_def SRUN_def SSLEEP_def SSTOP_def SZOMB_def
definition P_ADVLOCK :: u_int where "P_ADVLOCK = 0x1"
definition P_CONTROLT :: u_int where "P_CONTROLT = 0x2"
definition P_INMEM :: u_int where "P_INMEM = 0x4"
definition P_NOCLDSTOP :: u_int where "P_NOCLDSTOP = 0x8"
definition P_PPWAIT :: u_int where "P_PPWAIT = 0x10"
definition P_PROFIL :: u_int where "P_PROFIL = 0x20"
definition P_SELECT :: u_int where "P_SELECT = 0x40"
definition P_SINTR :: u_int where "P_SINTR = 0x80"
definition P_SUGID :: u_int where "P_SUGID = 0x100"
definition P_SYSTEM :: u_int where "P_SYSTEM = 0x200"
definition P_TIMEOUT :: u_int where "P_TIMEOUT = 0x400"
definition P_TRACED :: u_int where "P_TRACED = 0x800"
definition P_WAITED :: u_int where "P_WAITED = 0x1000"
definition P_WEXIT :: u_int where "P_WEXIT = 0x2000"
definition P_EXEC :: u_int where "P_EXEC = 0x4000"
definition P_NOSWAP :: u_int where "P_NOSWAP = 0x8000"
definition P_PHYSIO :: u_int where "P_PHYSIO = 0x10000"
definition P_OWEUPC :: u_int where "P_OWEUPC = 0x20000"

lemmas pflag_defs = P_ADVLOCK_def P_CONTROLT_def P_INMEM_def P_NOCLDSTOP_def P_PPWAIT_def P_PROFIL_def
  P_SELECT_def P_SINTR_def P_SUGID_def P_SYSTEM_def P_TIMEOUT_def P_TRACED_def P_WAITED_def P_WEXIT_def
  P_EXEC_def P_NOSWAP_def P_PHYSIO_def P_OWEUPC_def
definition PID_MAX :: int where "PID_MAX = 30000"
definition NO_PID :: int where "NO_PID = 30001"

lemmas pid_defs = PID_MAX_def NO_PID_def
definition NQS :: nat where "NQS = 32"

record prochd =
  ph_link :: addr
  ph_rlink :: addr

text \<open>The memory that the macros follow: processes, groups and sessions at their addresses.\<close>

record pheap =
  ph_proc :: "addr \<rightharpoonup> proc"
  ph_pgrp :: "addr \<rightharpoonup> pgrp"
  ph_session :: "addr \<rightharpoonup> session"
  ph_stats :: "addr \<rightharpoonup> pstats"

definition p_session :: "pheap \<Rightarrow> addr \<Rightarrow> addr option" where
  "p_session h p = do { b \<leftarrow> ph_proc h p; g \<leftarrow> ph_pgrp h (p_pgrp b); Some (pg_session g) }"

definition p_pgid :: "pheap \<Rightarrow> addr \<Rightarrow> int option" where
  "p_pgid h p = do { b \<leftarrow> ph_proc h p; g \<leftarrow> ph_pgrp h (p_pgrp b); Some (pg_id g) }"

definition SESS_LEADER :: "pheap \<Rightarrow> addr \<Rightarrow> bool option" where
  "SESS_LEADER h p = do { sp \<leftarrow> p_session h p; s \<leftarrow> ph_session h sp; Some (s_leader s = p) }"

definition SESSHOLD :: "pheap \<Rightarrow> addr \<Rightarrow> pheap option" where
  "SESSHOLD h sp = do { s \<leftarrow> ph_session h sp;
     Some (h\<lparr>ph_session := (ph_session h)(sp \<mapsto> s\<lparr>s_count := s_count s + 1\<rparr>)\<rparr>) }"

definition SESSRELE :: "(addr \<Rightarrow> nat \<Rightarrow> pheap \<Rightarrow> pheap) \<Rightarrow> pheap \<Rightarrow> addr \<Rightarrow> pheap option" where
  "SESSRELE FREE h sp = do { s \<leftarrow> ph_session h sp;
     let c = s_count s - 1;
     let h = h\<lparr>ph_session := (ph_session h)(sp \<mapsto> s\<lparr>s_count := c\<rparr>)\<rparr>;
     Some (if c = 0 then FREE sp M_SESSION h else h) }"

definition PIDHASH :: "int \<Rightarrow> u_int \<Rightarrow> u_int" where
  "PIDHASH MAXUSERS pid = pid AND pidhashmask MAXUSERS"

definition ADDUPROF :: "(addr \<Rightarrow> u_long \<Rightarrow> u_long \<Rightarrow> pheap \<Rightarrow> pheap) \<Rightarrow> addr \<Rightarrow> pheap \<Rightarrow> pheap option" where
  "ADDUPROF addupc_task p h = do { b \<leftarrow> ph_proc h p; s \<leftarrow> ph_stats h (p_stats b);
     Some (addupc_task p (pr_addr (ps_prof s)) (pr_ticks (ps_prof s)) h) }"

definition isctty :: "pheap \<Rightarrow> addr \<Rightarrow> tty \<Rightarrow> bool option" where
  "isctty h p tp = do { sp \<leftarrow> p_session h p; b \<leftarrow> ph_proc h p;
     Some (sp = t_session tp \<and> has (p_flag b) P_CONTROLT) }"

definition isbackground :: "pheap \<Rightarrow> addr \<Rightarrow> tty \<Rightarrow> bool option" where
  "isbackground h p tp = do { c \<leftarrow> isctty h p tp;
     if c then do { b \<leftarrow> ph_proc h p; Some (p_pgrp b \<noteq> t_pgrp tp) } else Some False }"

section \<open>Processor flags of a process\<close>

record cpu =
  astpending :: int
  want_resched :: int

definition aston :: "cpu \<Rightarrow> cpu" where "aston c = c\<lparr>astpending := astpending c + 1\<rparr>"
definition need_resched :: "cpu \<Rightarrow> cpu" where
  "need_resched c = aston (c\<lparr>want_resched := want_resched c + 1\<rparr>)"
definition need_proftick :: "proc \<Rightarrow> cpu \<Rightarrow> proc \<times> cpu" where
  "need_proftick p c = (p\<lparr>p_flag := p_flag p OR P_OWEUPC\<rparr>, aston c)"
definition signotify :: "cpu \<Rightarrow> cpu" where "signotify c = aston c"

section \<open>Sessions\<close>

primrec sess_times :: "nat \<Rightarrow> (pheap \<Rightarrow> pheap option) \<Rightarrow> pheap \<Rightarrow> pheap option" where
  "sess_times 0 f h = Some h"
| "sess_times (Suc n) f h = f h \<bind> sess_times n f"

lemma hold_times: "ph_session h sp = Some s \<Longrightarrow>
    sess_times n (\<lambda>h. SESSHOLD h sp) h =
      Some (h\<lparr>ph_session := (ph_session h)(sp \<mapsto> s\<lparr>s_count := s_count s + int n\<rparr>)\<rparr>)"
  by (induction n arbitrary: h s) (auto simp: SESSHOLD_def ac_simps fun_upd_idem)

lemma rele_times: "ph_session h sp = Some s \<Longrightarrow> int n < s_count s \<Longrightarrow>
    sess_times n (\<lambda>h. SESSRELE FREE h sp) h =
      Some (h\<lparr>ph_session := (ph_session h)(sp \<mapsto> s\<lparr>s_count := s_count s - int n\<rparr>)\<rparr>)"
  by (induction n arbitrary: h s) (auto simp: SESSRELE_def Let_def diff_diff_eq fun_upd_idem)

lemma times_Suc: "sess_times (Suc n) f h = sess_times n f h \<bind> f"
proof (induction n arbitrary: h)
  case 0
  then show ?case by (cases "f h") auto
next
  case (Suc n)
  then show ?case by (cases "f h") simp_all
qed

text \<open>C34: A session lives as long as somebody holds it: holds and as many releases leave the heap as it was,
  and \<open>FREE\<close> is called exactly by the release of the last reference, with the count at zero.\<close>

theorem session_references:
  assumes "ph_session h sp = Some s" "0 < s_count s"
  shows "sess_times n (\<lambda>h. SESSHOLD h sp) h \<bind> sess_times n (\<lambda>h. SESSRELE FREE h sp) = Some h \<and>
    sess_times n (\<lambda>h. SESSHOLD h sp) h \<bind> sess_times (n + nat (s_count s)) (\<lambda>h. SESSRELE FREE h sp) =
      Some (FREE sp M_SESSION (h\<lparr>ph_session := (ph_session h)(sp \<mapsto> s\<lparr>s_count := 0\<rparr>)\<rparr>))"
proof
  let ?k = "h\<lparr>ph_session := (ph_session h)(sp \<mapsto> s\<lparr>s_count := s_count s + int n\<rparr>)\<rparr>"
  let ?t = "s\<lparr>s_count := s_count s + int n\<rparr>"
  have k: "ph_session ?k sp = Some ?t" by simp
  note hold = hold_times [OF assms(1), of n]
  show "sess_times n (\<lambda>h. SESSHOLD h sp) h \<bind> sess_times n (\<lambda>h. SESSRELE FREE h sp) = Some h"
    unfolding hold using rele_times [OF k, of n FREE] assms by (simp add: fun_upd_idem)
  obtain j where j: "n + nat (s_count s) = Suc j" using assms(2) by (cases "n + nat (s_count s)") auto
  then have jc: "int j = s_count s + int n - 1" using assms(2) by simp
  show "sess_times n (\<lambda>h. SESSHOLD h sp) h \<bind> sess_times (n + nat (s_count s)) (\<lambda>h. SESSRELE FREE h sp) =
      Some (FREE sp M_SESSION (h\<lparr>ph_session := (ph_session h)(sp \<mapsto> s\<lparr>s_count := 0\<rparr>)\<rparr>))"
    unfolding hold j times_Suc bind.bind_lunit using rele_times [OF k, of j FREE] jc
    by (simp add: SESSRELE_def Let_def)
qed

definition demo_sess :: pheap where
  "demo_sess = \<lparr>ph_proc = Map.empty, ph_pgrp = Map.empty,
     ph_session = [8 \<mapsto> \<lparr>s_count = 1, s_leader = 0, s_ttyvp = 0, s_ttyp = 0, s_login = []\<rparr>], ph_stats = Map.empty\<rparr>"

theorem session_references_witness:
  "\<exists>h. sess_times 2 (\<lambda>h. SESSHOLD h 8) demo_sess \<bind> sess_times 3 (\<lambda>h. SESSRELE (\<lambda>p _ h. h\<lparr>ph_session := (ph_session h)(p := None)\<rparr>) h 8) = Some h \<and> ph_session h 8 = None"
proof -
  obtain s where s: "ph_session demo_sess 8 = Some s" "s_count s = 1" by (simp add: demo_sess_def)
  show ?thesis using session_references [OF s(1), of 2 "\<lambda>p _ h. h\<lparr>ph_session := (ph_session h)(p := None)\<rparr>"] s(2)
    by (simp add: eval_nat_numeral)
qed

text \<open>The reference count of a credential has sixteen bits and nothing stops it: 65536 holds bring it back to
  where it was.\<close>

lemma crhold_wraps: "(crhold ^^ n) c = c\<lparr>cr_ref := cr_ref c + of_nat n\<rparr>"
  by (induction n) (auto simp: crhold_def ac_simps)

end
