(* ===== verification/Names.thy ===== *)
theory Names
  imports Domain Sock Loop Param
begin

text \<open>
  The rest of the numbers that programs and protocols exchange: error numbers (\<open>sys/errno.h\<close>), socket
  options and address families (\<open>sys/socket.h\<close>), socket states, interface types and flags, software
  interrupts (\<open>net/netisr.h\<close>), and the requests of protocol switches with the tables of their names
  (\<open>sys/protosw.h\<close>).
\<close>

section \<open>Error numbers\<close>

definition ENOENT :: int where "ENOENT = 2"
definition ESRCH :: int where "ESRCH = 3"
definition EINTR :: int where "EINTR = 4"
definition EIO :: int where "EIO = 5"
definition E2BIG :: int where "E2BIG = 7"
definition ENOEXEC :: int where "ENOEXEC = 8"
definition EBADF :: int where "EBADF = 9"
definition ECHILD :: int where "ECHILD = 10"
definition EDEADLK :: int where "EDEADLK = 11"
definition ENOMEM :: int where "ENOMEM = 12"
definition EACCES :: int where "EACCES = 13"
definition EFAULT :: int where "EFAULT = 14"
definition ENOTBLK :: int where "ENOTBLK = 15"
definition EBUSY :: int where "EBUSY = 16"
definition EEXIST :: int where "EEXIST = 17"
definition EXDEV :: int where "EXDEV = 18"
definition ENODEV :: int where "ENODEV = 19"
definition ENOTDIR :: int where "ENOTDIR = 20"
definition EISDIR :: int where "EISDIR = 21"
definition ENFILE :: int where "ENFILE = 23"
definition EMFILE :: int where "EMFILE = 24"
definition ENOTTY :: int where "ENOTTY = 25"
definition ETXTBSY :: int where "ETXTBSY = 26"
definition EFBIG :: int where "EFBIG = 27"
definition ENOSPC :: int where "ENOSPC = 28"
definition ESPIPE :: int where "ESPIPE = 29"
definition EROFS :: int where "EROFS = 30"
definition EMLINK :: int where "EMLINK = 31"
definition EPIPE :: int where "EPIPE = 32"
definition EDOM :: int where "EDOM = 33"
definition ERANGE :: int where "ERANGE = 34"
definition EINPROGRESS :: int where "EINPROGRESS = 36"
definition EALREADY :: int where "EALREADY = 37"
definition ENOTSOCK :: int where "ENOTSOCK = 38"
definition EDESTADDRREQ :: int where "EDESTADDRREQ = 39"
definition EPROTOTYPE :: int where "EPROTOTYPE = 41"
definition EPROTONOSUPPORT :: int where "EPROTONOSUPPORT = 43"
definition ESOCKTNOSUPPORT :: int where "ESOCKTNOSUPPORT = 44"
definition EPFNOSUPPORT :: int where "EPFNOSUPPORT = 46"
definition EADDRINUSE :: int where "EADDRINUSE = 48"
definition ECONNABORTED :: int where "ECONNABORTED = 53"
definition ECONNRESET :: int where "ECONNRESET = 54"
definition EISCONN :: int where "EISCONN = 56"
definition ENOTCONN :: int where "ENOTCONN = 57"
definition ESHUTDOWN :: int where "ESHUTDOWN = 58"
definition ETOOMANYREFS :: int where "ETOOMANYREFS = 59"
definition ETIMEDOUT :: int where "ETIMEDOUT = 60"
definition ELOOP :: int where "ELOOP = 62"
definition ENAMETOOLONG :: int where "ENAMETOOLONG = 63"
definition ENOTEMPTY :: int where "ENOTEMPTY = 66"
definition EPROCLIM :: int where "EPROCLIM = 67"
definition EUSERS :: int where "EUSERS = 68"
definition EDQUOT :: int where "EDQUOT = 69"
definition ESTALE :: int where "ESTALE = 70"
definition EREMOTE :: int where "EREMOTE = 71"
definition EBADRPC :: int where "EBADRPC = 72"
definition ERPCMISMATCH :: int where "ERPCMISMATCH = 73"
definition EPROGUNAVAIL :: int where "EPROGUNAVAIL = 74"
definition EPROGMISMATCH :: int where "EPROGMISMATCH = 75"
definition EPROCUNAVAIL :: int where "EPROCUNAVAIL = 76"
definition ENOLCK :: int where "ENOLCK = 77"
definition ENOSYS :: int where "ENOSYS = 78"
definition EFTYPE :: int where "EFTYPE = 79"
definition EAUTH :: int where "EAUTH = 80"
definition ENEEDAUTH :: int where "ENEEDAUTH = 81"
definition ELAST :: int where "ELAST = 81"
definition ERESTART :: int where "ERESTART = - 1"
definition EJUSTRETURN :: int where "EJUSTRETURN = - 2"

lemmas errno_more = ENOENT_def ESRCH_def EINTR_def EIO_def E2BIG_def ENOEXEC_def EBADF_def ECHILD_def
  EDEADLK_def ENOMEM_def EACCES_def EFAULT_def ENOTBLK_def EBUSY_def EEXIST_def EXDEV_def ENODEV_def
  ENOTDIR_def EISDIR_def ENFILE_def EMFILE_def ENOTTY_def ETXTBSY_def EFBIG_def ENOSPC_def ESPIPE_def
  EROFS_def EMLINK_def EPIPE_def EDOM_def ERANGE_def EINPROGRESS_def EALREADY_def ENOTSOCK_def
  EDESTADDRREQ_def EPROTOTYPE_def EPROTONOSUPPORT_def ESOCKTNOSUPPORT_def EPFNOSUPPORT_def EADDRINUSE_def
  ECONNABORTED_def ECONNRESET_def EISCONN_def ENOTCONN_def ESHUTDOWN_def ETOOMANYREFS_def ETIMEDOUT_def
  ELOOP_def ENAMETOOLONG_def ENOTEMPTY_def EPROCLIM_def EUSERS_def EDQUOT_def ESTALE_def EREMOTE_def
  EBADRPC_def ERPCMISMATCH_def EPROGUNAVAIL_def EPROGMISMATCH_def EPROCUNAVAIL_def ENOLCK_def ENOSYS_def
  EFTYPE_def EAUTH_def ENEEDAUTH_def ELAST_def ERESTART_def EJUSTRETURN_def

text \<open>The error numbers have no gap: the header names every number from 1 to \<open>ELAST\<close>, in order.\<close>

lemma errno_complete:
  "[EPERM, ENOENT, ESRCH, EINTR, EIO, ENXIO, E2BIG, ENOEXEC, EBADF, ECHILD, EDEADLK, ENOMEM, EACCES, EFAULT, ENOTBLK,
    EBUSY, EEXIST, EXDEV, ENODEV, ENOTDIR, EISDIR, EINVAL, ENFILE, EMFILE, ENOTTY, ETXTBSY, EFBIG, ENOSPC, ESPIPE, EROFS,
    EMLINK, EPIPE, EDOM, ERANGE, EAGAIN, EINPROGRESS, EALREADY, ENOTSOCK, EDESTADDRREQ, EMSGSIZE, EPROTOTYPE,
    ENOPROTOOPT, EPROTONOSUPPORT, ESOCKTNOSUPPORT, EOPNOTSUPP, EPFNOSUPPORT, EAFNOSUPPORT, EADDRINUSE, EADDRNOTAVAIL,
    ENETDOWN, ENETUNREACH, ENETRESET, ECONNABORTED, ECONNRESET, ENOBUFS, EISCONN, ENOTCONN, ESHUTDOWN, ETOOMANYREFS,
    ETIMEDOUT, ECONNREFUSED, ELOOP, ENAMETOOLONG, EHOSTDOWN, EHOSTUNREACH, ENOTEMPTY, EPROCLIM, EUSERS, EDQUOT, ESTALE,
    EREMOTE, EBADRPC, ERPCMISMATCH, EPROGUNAVAIL, EPROGMISMATCH, EPROCUNAVAIL, ENOLCK, ENOSYS, EFTYPE, EAUTH, ENEEDAUTH] =
   [1..ELAST]"
  by (simp add: errno_defs errno_more EAGAIN_def upto.simps [of 1] upto_rec_numeral)

section \<open>Sockets\<close>

definition SOCK_RDM :: int where "SOCK_RDM = 4"
definition SOCK_SEQPACKET :: int where "SOCK_SEQPACKET = 5"

lemmas sock_types = SOCK_RDM_def SOCK_SEQPACKET_def
definition SO_DEBUG :: u_int where "SO_DEBUG = 0x1"
definition SO_ACCEPTCONN :: u_int where "SO_ACCEPTCONN = 0x2"
definition SO_REUSEADDR :: u_int where "SO_REUSEADDR = 0x4"
definition SO_KEEPALIVE :: u_int where "SO_KEEPALIVE = 0x8"
definition SO_DONTROUTE :: u_int where "SO_DONTROUTE = 0x10"
definition SO_BROADCAST :: u_int where "SO_BROADCAST = 0x20"
definition SO_USELOOPBACK :: u_int where "SO_USELOOPBACK = 0x40"
definition SO_LINGER :: u_int where "SO_LINGER = 0x80"
definition SO_OOBINLINE :: u_int where "SO_OOBINLINE = 0x100"
definition SO_REUSEPORT :: u_int where "SO_REUSEPORT = 0x200"
definition SO_TIMESTAMP :: u_int where "SO_TIMESTAMP = 0x400"
definition SO_NOSIGPIPE :: u_int where "SO_NOSIGPIPE = 0x800"
definition SO_ACCEPTFILTER :: u_int where "SO_ACCEPTFILTER = 0x1000"
definition SO_BINTIME :: u_int where "SO_BINTIME = 0x2000"
definition SO_NO_OFFLOAD :: u_int where "SO_NO_OFFLOAD = 0x4000"
definition SO_NO_DDP :: u_int where "SO_NO_DDP = 0x8000"
definition SO_SNDBUF :: u_int where "SO_SNDBUF = 0x1001"
definition SO_RCVBUF :: u_int where "SO_RCVBUF = 0x1002"
definition SO_SNDLOWAT :: u_int where "SO_SNDLOWAT = 0x1003"
definition SO_RCVLOWAT :: u_int where "SO_RCVLOWAT = 0x1004"
definition SO_SNDTIMEO :: u_int where "SO_SNDTIMEO = 0x1005"
definition SO_RCVTIMEO :: u_int where "SO_RCVTIMEO = 0x1006"
definition SO_ERROR :: u_int where "SO_ERROR = 0x1007"
definition SO_TYPE :: u_int where "SO_TYPE = 0x1008"
definition SO_LABEL :: u_int where "SO_LABEL = 0x1009"
definition SO_PEERLABEL :: u_int where "SO_PEERLABEL = 0x1010"
definition SO_LISTENQLIMIT :: u_int where "SO_LISTENQLIMIT = 0x1011"
definition SO_LISTENQLEN :: u_int where "SO_LISTENQLEN = 0x1012"
definition SO_LISTENINCQLEN :: u_int where "SO_LISTENINCQLEN = 0x1013"
definition SO_SETFIB :: u_int where "SO_SETFIB = 0x1014"
definition SO_USER_COOKIE :: u_int where "SO_USER_COOKIE = 0x1015"
definition SO_PROTOCOL :: u_int where "SO_PROTOCOL = 0x1016"
definition SO_PROTOTYPE :: u_int where "SO_PROTOTYPE = SO_PROTOCOL"

lemmas so_defs = SO_DEBUG_def SO_ACCEPTCONN_def SO_REUSEADDR_def SO_KEEPALIVE_def SO_DONTROUTE_def
  SO_BROADCAST_def SO_USELOOPBACK_def SO_LINGER_def SO_OOBINLINE_def SO_REUSEPORT_def SO_TIMESTAMP_def
  SO_NOSIGPIPE_def SO_ACCEPTFILTER_def SO_BINTIME_def SO_NO_OFFLOAD_def SO_NO_DDP_def SO_SNDBUF_def
  SO_RCVBUF_def SO_SNDLOWAT_def SO_RCVLOWAT_def SO_SNDTIMEO_def SO_RCVTIMEO_def SO_ERROR_def SO_TYPE_def
  SO_LABEL_def SO_PEERLABEL_def SO_LISTENQLIMIT_def SO_LISTENQLEN_def SO_LISTENINCQLEN_def SO_SETFIB_def
  SO_USER_COOKIE_def SO_PROTOCOL_def SO_PROTOTYPE_def
definition AF_UNIX :: u_char where "AF_UNIX = 1"
definition AF_LOCAL :: u_char where "AF_LOCAL = AF_UNIX"
definition AF_IMPLINK :: u_char where "AF_IMPLINK = 3"
definition AF_PUP :: u_char where "AF_PUP = 4"
definition AF_CHAOS :: u_char where "AF_CHAOS = 5"
definition AF_NETBIOS :: u_char where "AF_NETBIOS = 6"
definition AF_OSI :: u_char where "AF_OSI = AF_ISO"
definition AF_ECMA :: u_char where "AF_ECMA = 8"
definition AF_DATAKIT :: u_char where "AF_DATAKIT = 9"
definition AF_CCITT :: u_char where "AF_CCITT = 10"
definition AF_SNA :: u_char where "AF_SNA = 11"
definition AF_DECnet :: u_char where "AF_DECnet = 12"
definition AF_DLI :: u_char where "AF_DLI = 13"
definition AF_LAT :: u_char where "AF_LAT = 14"
definition AF_HYLINK :: u_char where "AF_HYLINK = 15"
definition AF_APPLETALK :: u_char where "AF_APPLETALK = 16"
definition AF_ROUTE :: u_char where "AF_ROUTE = 17"
definition pseudo_AF_XTP :: u_char where "pseudo_AF_XTP = 19"
definition AF_COIP :: u_char where "AF_COIP = 20"
definition AF_CNT :: u_char where "AF_CNT = 21"
definition pseudo_AF_RTIP :: u_char where "pseudo_AF_RTIP = 22"
definition AF_IPX :: u_char where "AF_IPX = 23"
definition AF_SIP :: u_char where "AF_SIP = 24"
definition pseudo_AF_PIP :: u_char where "pseudo_AF_PIP = 25"
definition AF_ISDN :: u_char where "AF_ISDN = 26"
definition AF_E164 :: u_char where "AF_E164 = AF_ISDN"
definition pseudo_AF_KEY :: u_char where "pseudo_AF_KEY = 27"
definition AF_INET6 :: u_char where "AF_INET6 = 28"
definition AF_NATM :: u_char where "AF_NATM = 29"
definition AF_ATM :: u_char where "AF_ATM = 30"
definition pseudo_AF_HDRCMPLT :: u_char where "pseudo_AF_HDRCMPLT = 31"
definition AF_NETGRAPH :: u_char where "AF_NETGRAPH = 32"
definition AF_SLOW :: u_char where "AF_SLOW = 33"
definition AF_SCLUSTER :: u_char where "AF_SCLUSTER = 34"
definition AF_ARP :: u_char where "AF_ARP = 35"
definition AF_BLUETOOTH :: u_char where "AF_BLUETOOTH = 36"
definition AF_IEEE80211 :: u_char where "AF_IEEE80211 = 37"
definition AF_INET_SDP :: u_char where "AF_INET_SDP = 40"
definition AF_INET6_SDP :: u_char where "AF_INET6_SDP = 42"

lemmas af_more = AF_LOCAL_def AF_IMPLINK_def AF_PUP_def AF_CHAOS_def AF_NETBIOS_def AF_OSI_def AF_ECMA_def
  AF_DATAKIT_def AF_CCITT_def AF_SNA_def AF_DECnet_def AF_DLI_def AF_LAT_def AF_HYLINK_def AF_APPLETALK_def
  AF_ROUTE_def pseudo_AF_XTP_def AF_COIP_def AF_CNT_def pseudo_AF_RTIP_def AF_IPX_def AF_SIP_def
  pseudo_AF_PIP_def AF_ISDN_def AF_E164_def pseudo_AF_KEY_def AF_INET6_def AF_NATM_def AF_ATM_def
  pseudo_AF_HDRCMPLT_def AF_NETGRAPH_def AF_SLOW_def AF_SCLUSTER_def AF_ARP_def AF_BLUETOOTH_def
  AF_IEEE80211_def AF_INET_SDP_def AF_INET6_SDP_def
definition SS_NOFDREF :: c_short where "SS_NOFDREF = 0x1"
definition SS_ISCONNECTING :: c_short where "SS_ISCONNECTING = 0x4"
definition SS_ISDISCONNECTING :: c_short where "SS_ISDISCONNECTING = 0x8"
definition SS_RCVATMARK :: c_short where "SS_RCVATMARK = 0x40"
definition SS_NBIO :: c_short where "SS_NBIO = 0x100"
definition SS_ASYNC :: c_short where "SS_ASYNC = 0x200"
definition SS_ISCONFIRMING :: c_short where "SS_ISCONFIRMING = 0x400"

lemmas ss_defs = SS_NOFDREF_def SS_ISCONNECTING_def SS_ISDISCONNECTING_def SS_RCVATMARK_def SS_NBIO_def
  SS_ASYNC_def SS_ISCONFIRMING_def

record osockaddr =
  osa_family :: u_short
  osa_data :: "u_char list"

section \<open>Interfaces\<close>

definition IFT_OTHER :: u_char where "IFT_OTHER = 0x1"
definition IFT_1822 :: u_char where "IFT_1822 = 0x2"
definition IFT_HDH1822 :: u_char where "IFT_HDH1822 = 0x3"
definition IFT_X25DDN :: u_char where "IFT_X25DDN = 0x4"
definition IFT_X25 :: u_char where "IFT_X25 = 0x5"
definition IFT_ISO88023 :: u_char where "IFT_ISO88023 = 0x7"
definition IFT_ISO88024 :: u_char where "IFT_ISO88024 = 0x8"
definition IFT_ISO88025 :: u_char where "IFT_ISO88025 = 0x9"
definition IFT_ISO88026 :: u_char where "IFT_ISO88026 = 0xa"
definition IFT_STARLAN :: u_char where "IFT_STARLAN = 0xb"
definition IFT_P10 :: u_char where "IFT_P10 = 0xc"
definition IFT_P80 :: u_char where "IFT_P80 = 0xd"
definition IFT_HY :: u_char where "IFT_HY = 0xe"
definition IFT_FDDI :: u_char where "IFT_FDDI = 0xf"
definition IFT_LAPB :: u_char where "IFT_LAPB = 0x10"
definition IFT_SDLC :: u_char where "IFT_SDLC = 0x11"
definition IFT_T1 :: u_char where "IFT_T1 = 0x12"
definition IFT_CEPT :: u_char where "IFT_CEPT = 0x13"
definition IFT_ISDNBASIC :: u_char where "IFT_ISDNBASIC = 0x14"
definition IFT_ISDNPRIMARY :: u_char where "IFT_ISDNPRIMARY = 0x15"
definition IFT_PTPSERIAL :: u_char where "IFT_PTPSERIAL = 0x16"
definition IFT_PPP :: u_char where "IFT_PPP = 0x17"
definition IFT_EON :: u_char where "IFT_EON = 0x19"
definition IFT_XETHER :: u_char where "IFT_XETHER = 0x1a"
definition IFT_NSIP :: u_char where "IFT_NSIP = 0x1b"
definition IFT_ULTRA :: u_char where "IFT_ULTRA = 0x1d"
definition IFT_DS3 :: u_char where "IFT_DS3 = 0x1e"
definition IFT_SIP :: u_char where "IFT_SIP = 0x1f"
definition IFT_FRELAY :: u_char where "IFT_FRELAY = 0x20"
definition IFT_RS232 :: u_char where "IFT_RS232 = 0x21"
definition IFT_PARA :: u_char where "IFT_PARA = 0x22"
definition IFT_ARCNET :: u_char where "IFT_ARCNET = 0x23"
definition IFT_ARCNETPLUS :: u_char where "IFT_ARCNETPLUS = 0x24"
definition IFT_ATM :: u_char where "IFT_ATM = 0x25"
definition IFT_MIOX25 :: u_char where "IFT_MIOX25 = 0x26"
definition IFT_SONET :: u_char where "IFT_SONET = 0x27"
definition IFT_X25PLE :: u_char where "IFT_X25PLE = 0x28"
definition IFT_ISO88022LLC :: u_char where "IFT_ISO88022LLC = 0x29"
definition IFT_LOCALTALK :: u_char where "IFT_LOCALTALK = 0x2a"
definition IFT_SMDSDXI :: u_char where "IFT_SMDSDXI = 0x2b"
definition IFT_FRELAYDCE :: u_char where "IFT_FRELAYDCE = 0x2c"
definition IFT_V35 :: u_char where "IFT_V35 = 0x2d"
definition IFT_HSSI :: u_char where "IFT_HSSI = 0x2e"
definition IFT_HIPPI :: u_char where "IFT_HIPPI = 0x2f"
definition IFT_MODEM :: u_char where "IFT_MODEM = 0x30"
definition IFT_AAL5 :: u_char where "IFT_AAL5 = 0x31"
definition IFT_SONETPATH :: u_char where "IFT_SONETPATH = 0x32"
definition IFT_SONETVT :: u_char where "IFT_SONETVT = 0x33"
definition IFT_SMDSICIP :: u_char where "IFT_SMDSICIP = 0x34"
definition IFT_PROPVIRTUAL :: u_char where "IFT_PROPVIRTUAL = 0x35"
definition IFT_PROPMUX :: u_char where "IFT_PROPMUX = 0x36"

lemmas ift_defs = IFT_OTHER_def IFT_1822_def IFT_HDH1822_def IFT_X25DDN_def IFT_X25_def IFT_ISO88023_def
  IFT_ISO88024_def IFT_ISO88025_def IFT_ISO88026_def IFT_STARLAN_def IFT_P10_def IFT_P80_def IFT_HY_def
  IFT_FDDI_def IFT_LAPB_def IFT_SDLC_def IFT_T1_def IFT_CEPT_def IFT_ISDNBASIC_def IFT_ISDNPRIMARY_def
  IFT_PTPSERIAL_def IFT_PPP_def IFT_EON_def IFT_XETHER_def IFT_NSIP_def IFT_ULTRA_def IFT_DS3_def
  IFT_SIP_def IFT_FRELAY_def IFT_RS232_def IFT_PARA_def IFT_ARCNET_def IFT_ARCNETPLUS_def IFT_ATM_def
  IFT_MIOX25_def IFT_SONET_def IFT_X25PLE_def IFT_ISO88022LLC_def IFT_LOCALTALK_def IFT_SMDSDXI_def
  IFT_FRELAYDCE_def IFT_V35_def IFT_HSSI_def IFT_HIPPI_def IFT_MODEM_def IFT_AAL5_def IFT_SONETPATH_def
  IFT_SONETVT_def IFT_SMDSICIP_def IFT_PROPVIRTUAL_def IFT_PROPMUX_def
definition IFF_DEBUG :: c_short where "IFF_DEBUG = 0x4"
definition IFF_NOTRAILERS :: c_short where "IFF_NOTRAILERS = 0x20"
definition IFF_NOARP :: c_short where "IFF_NOARP = 0x80"

lemmas iff_more = IFF_DEBUG_def IFF_NOTRAILERS_def IFF_NOARP_def
definition ETHERTYPE_PUP :: u_short where "ETHERTYPE_PUP = 0x200"
definition ETHERTYPE_REVARP :: u_short where "ETHERTYPE_REVARP = 0x8035"
definition ETHERTYPE_TRAIL :: u_short where "ETHERTYPE_TRAIL = 0x1000"
definition ETHERTYPE_NTRAILER :: u_short where "ETHERTYPE_NTRAILER = 16"

lemmas ethertype_more = ETHERTYPE_PUP_def ETHERTYPE_REVARP_def ETHERTYPE_TRAIL_def ETHERTYPE_NTRAILER_def

section \<open>Software interrupts of the network\<close>

definition NETISR_RAW :: int where "NETISR_RAW = 0"
definition NETISR_IMP :: int where "NETISR_IMP = 3"
definition NETISR_NS :: int where "NETISR_NS = 6"
definition NETISR_ISO :: int where "NETISR_ISO = 7"
definition NETISR_CCITT :: int where "NETISR_CCITT = 10"
definition NETISR_ARP :: int where "NETISR_ARP = 18"

lemmas netisr_defs = NETISR_RAW_def NETISR_IMP_def NETISR_NS_def NETISR_ISO_def NETISR_CCITT_def
  NETISR_ARP_def

definition schednetisr :: "nat \<Rightarrow> u_int \<times> u_char \<Rightarrow> u_int \<times> u_char" where
  "schednetisr anisr = (\<lambda>(netisr, ssir). (netisr OR push_bit anisr 1, setsoftnet ssir))"

text \<open>The numbers of the software interrupts are the address families they serve.\<close>

lemma netisr_families:
  "map (word_of_int :: int \<Rightarrow> u_char) [NETISR_RAW, NETISR_IP, NETISR_IMP, NETISR_ISO, NETISR_CCITT, NETISR_ARP] =
   [AF_UNSPEC, AF_INET, AF_IMPLINK, AF_ISO, AF_CCITT, AF_LINK]"
  by (simp add: netisr_defs NETISR_IP_def af_defs af_more)

section \<open>Protocol switches\<close>

definition PR_ATOMIC :: c_short where "PR_ATOMIC = 0x1"
definition PR_ADDR :: c_short where "PR_ADDR = 0x2"
definition PR_CONNREQUIRED :: c_short where "PR_CONNREQUIRED = 0x4"
definition PR_WANTRCVD :: c_short where "PR_WANTRCVD = 0x8"
definition PR_RIGHTS :: c_short where "PR_RIGHTS = 0x10"

lemmas prflag_defs = PR_ATOMIC_def PR_ADDR_def PR_CONNREQUIRED_def PR_WANTRCVD_def PR_RIGHTS_def
definition PR_SLOWHZ :: u_long where "PR_SLOWHZ = 2"
definition PR_FASTHZ :: u_long where "PR_FASTHZ = 5"

lemmas prhz_defs = PR_SLOWHZ_def PR_FASTHZ_def
definition PRU_ATTACH :: int where "PRU_ATTACH = 0"
definition PRU_DETACH :: int where "PRU_DETACH = 1"
definition PRU_BIND :: int where "PRU_BIND = 2"
definition PRU_LISTEN :: int where "PRU_LISTEN = 3"
definition PRU_CONNECT :: int where "PRU_CONNECT = 4"
definition PRU_ACCEPT :: int where "PRU_ACCEPT = 5"
definition PRU_DISCONNECT :: int where "PRU_DISCONNECT = 6"
definition PRU_SHUTDOWN :: int where "PRU_SHUTDOWN = 7"
definition PRU_RCVD :: int where "PRU_RCVD = 8"
definition PRU_SEND :: int where "PRU_SEND = 9"
definition PRU_ABORT :: int where "PRU_ABORT = 10"
definition PRU_SENSE :: int where "PRU_SENSE = 12"
definition PRU_RCVOOB :: int where "PRU_RCVOOB = 13"
definition PRU_SENDOOB :: int where "PRU_SENDOOB = 14"
definition PRU_SOCKADDR :: int where "PRU_SOCKADDR = 15"
definition PRU_PEERADDR :: int where "PRU_PEERADDR = 16"
definition PRU_CONNECT2 :: int where "PRU_CONNECT2 = 17"
definition PRU_FASTTIMO :: int where "PRU_FASTTIMO = 18"
definition PRU_SLOWTIMO :: int where "PRU_SLOWTIMO = 19"
definition PRU_PROTORCV :: int where "PRU_PROTORCV = 20"
definition PRU_PROTOSEND :: int where "PRU_PROTOSEND = 21"
definition PRU_NREQ :: int where "PRU_NREQ = 21"

lemmas pru_defs = PRU_ATTACH_def PRU_DETACH_def PRU_BIND_def PRU_LISTEN_def PRU_CONNECT_def PRU_ACCEPT_def
  PRU_DISCONNECT_def PRU_SHUTDOWN_def PRU_RCVD_def PRU_SEND_def PRU_ABORT_def PRU_SENSE_def PRU_RCVOOB_def
  PRU_SENDOOB_def PRU_SOCKADDR_def PRU_PEERADDR_def PRU_CONNECT2_def PRU_FASTTIMO_def PRU_SLOWTIMO_def
  PRU_PROTORCV_def PRU_PROTOSEND_def PRU_NREQ_def
definition PRC_ROUTEDEAD :: int where "PRC_ROUTEDEAD = 1"
definition PRC_QUENCH2 :: int where "PRC_QUENCH2 = 3"
definition PRC_QUENCH :: int where "PRC_QUENCH = 4"
definition PRC_HOSTUNREACH :: int where "PRC_HOSTUNREACH = 7"
definition PRC_UNREACH_NET :: int where "PRC_UNREACH_NET = 8"
definition PRC_UNREACH_HOST :: int where "PRC_UNREACH_HOST = 9"
definition PRC_UNREACH_PROTOCOL :: int where "PRC_UNREACH_PROTOCOL = 10"
definition PRC_UNREACH_SRCFAIL :: int where "PRC_UNREACH_SRCFAIL = 13"
definition PRC_REDIRECT_HOST :: int where "PRC_REDIRECT_HOST = 15"
definition PRC_REDIRECT_TOSNET :: int where "PRC_REDIRECT_TOSNET = 16"
definition PRC_TIMXCEED_INTRANS :: int where "PRC_TIMXCEED_INTRANS = 18"
definition PRC_TIMXCEED_REASS :: int where "PRC_TIMXCEED_REASS = 19"

lemmas prc_defs = PRC_ROUTEDEAD_def PRC_QUENCH2_def PRC_QUENCH_def PRC_HOSTUNREACH_def PRC_UNREACH_NET_def
  PRC_UNREACH_HOST_def PRC_UNREACH_PROTOCOL_def PRC_UNREACH_SRCFAIL_def PRC_REDIRECT_HOST_def
  PRC_REDIRECT_TOSNET_def PRC_TIMXCEED_INTRANS_def PRC_TIMXCEED_REASS_def
definition PRCO_GETOPT :: int where "PRCO_GETOPT = 0"
definition PRCO_SETOPT :: int where "PRCO_SETOPT = 1"
definition PRCO_NCMDS :: int where "PRCO_NCMDS = 2"

lemmas prco_defs = PRCO_GETOPT_def PRCO_SETOPT_def PRCO_NCMDS_def

definition prurequests :: "string list" where
  "prurequests = [
     ''ATTACH'', ''DETACH'', ''BIND'', ''LISTEN'', ''CONNECT'', ''ACCEPT'', ''DISCONNECT'', ''SHUTDOWN'',
     ''RCVD'', ''SEND'', ''ABORT'', ''CONTROL'', ''SENSE'', ''RCVOOB'', ''SENDOOB'', ''SOCKADDR'',
     ''PEERADDR'', ''CONNECT2'', ''FASTTIMO'', ''SLOWTIMO'', ''PROTORCV'', ''PROTOSEND'']"

definition prcrequests :: "string list" where
  "prcrequests = [
     ''IFDOWN'', ''ROUTEDEAD'', ''#2'', ''DEC-BIT-QUENCH2'', ''QUENCH'', ''MSGSIZE'', ''HOSTDEAD'', ''#7'',
     ''NET-UNREACH'', ''HOST-UNREACH'', ''PROTO-UNREACH'', ''PORT-UNREACH'', ''#12'', ''SRCFAIL-UNREACH'',
     ''NET-REDIRECT'', ''HOST-REDIRECT'', ''TOSNET-REDIRECT'', ''TOSHOST-REDIRECT'', ''TX-INTRANS'', ''TX-REASS'',
     ''PARAMPROB'']"

definition prcorequests :: "string list" where
  "prcorequests = [''GETOPT'', ''SETOPT'']"

text \<open>The name of a request is its entry in the table; the control requests fill theirs exactly, and their
  number is also the length of the map from them to error numbers.  \<open>PRU_NREQ\<close> is one too small: the last
  user request has just that number.\<close>

theorem request_names:
  "length prcrequests = nat PRC_NCMDS \<and> length inetctlerrmap = nat PRC_NCMDS \<and> length prcorequests = nat PRCO_NCMDS \<and>
   length prurequests = nat PRU_NREQ + 1 \<and> PRU_PROTOSEND = PRU_NREQ \<and>
   prurequests ! nat PRU_ATTACH = ''ATTACH'' \<and> prurequests ! nat PRU_CONTROL = ''CONTROL'' \<and>
   prurequests ! nat PRU_SLOWTIMO = ''SLOWTIMO'' \<and> prurequests ! nat PRU_PROTOSEND = ''PROTOSEND'' \<and>
   prcrequests ! nat PRC_MSGSIZE = ''MSGSIZE'' \<and> prcrequests ! nat PRC_UNREACH_PORT = ''PORT-UNREACH'' \<and>
   prcrequests ! nat PRC_PARAMPROB = ''PARAMPROB''"
  by (simp add: prurequests_def prcrequests_def prcorequests_def pru_defs prc_defs prco_defs inetctlerrmap_def
      PRU_CONTROL_def PRC_NCMDS_def PRC_MSGSIZE_def PRC_UNREACH_PORT_def PRC_PARAMPROB_def)

end
