(* ===== verification/BpfLang.thy ===== *)
theory BpfLang
  imports Names Slip
begin

text \<open>
  The packet filter language of \<open>net/bpf.h\<close>: instructions, the fields of their codes, the requests of
  the filter device and its structures.  The interpreter itself (\<open>bpf_filter\<close>) is not in the repository;
  the functions of \<open>net/bpf.c\<close>, all without bodies, are in \<open>Stubs\<close>.
\<close>

section \<open>Alignment\<close>

text \<open>\<open>sizeof\<close> has 64 bits and so has the arithmetic of the macro.\<close>

definition BPF_ALIGNMENT :: "64 word" where "BPF_ALIGNMENT = 4"
definition BPF_WORDALIGN :: "64 word \<Rightarrow> 64 word" where
  "BPF_WORDALIGN x = (x + (BPF_ALIGNMENT - 1)) AND NOT (BPF_ALIGNMENT - 1)"

definition BPF_MAXINSNS :: int where "BPF_MAXINSNS = 512"
definition BPF_MAXBUFSIZE :: int where "BPF_MAXBUFSIZE = 0x8000"
definition BPF_MINBUFSIZE :: int where "BPF_MINBUFSIZE = 32"

lemmas bpf_size_defs = BPF_MAXINSNS_def BPF_MAXBUFSIZE_def BPF_MINBUFSIZE_def
definition BPF_MAJOR_VERSION :: u_short where "BPF_MAJOR_VERSION = 1"
definition BPF_MINOR_VERSION :: u_short where "BPF_MINOR_VERSION = 1"

lemmas bpf_version_defs = BPF_MAJOR_VERSION_def BPF_MINOR_VERSION_def
definition BPF_MEMWORDS :: int where "BPF_MEMWORDS = 16"

section \<open>Structures\<close>

record bpf_insn =
  bi_code :: u_short
  bi_jt :: u_char
  bi_jf :: u_char
  bi_k :: u_long

record bpf_program =
  bf_len :: u_int
  bf_insns :: addr

record bpf_stat =
  bs_recv :: u_int
  bs_drop :: u_int

record bpf_version =
  bv_major :: u_short
  bv_minor :: u_short

record bpf_hdr =
  bh_tstamp :: timeval
  bh_caplen :: u_long
  bh_datalen :: u_long
  bh_hdrlen :: u_short

definition SIZEOF_BPF_HDR :: int where "SIZEOF_BPF_HDR = 18"

section \<open>Requests and link types\<close>

definition BIOCGBLEN :: u_int where "BIOCGBLEN = IOR 66 102 4"
definition BIOCSBLEN :: u_int where "BIOCSBLEN = IOWR 66 102 4"
definition BIOCSETF :: u_int where "BIOCSETF = IOW 66 103 16"
definition BIOCFLUSH :: u_int where "BIOCFLUSH = IO 66 104"
definition BIOCPROMISC :: u_int where "BIOCPROMISC = IO 66 105"
definition BIOCGDLT :: u_int where "BIOCGDLT = IOR 66 106 4"
definition BIOCGETIF :: u_int where "BIOCGETIF = IOR 66 107 32"
definition BIOCSETIF :: u_int where "BIOCSETIF = IOW 66 108 32"
definition BIOCSRTIMEOUT :: u_int where "BIOCSRTIMEOUT = IOW 66 109 8"
definition BIOCGRTIMEOUT :: u_int where "BIOCGRTIMEOUT = IOR 66 110 8"
definition BIOCGSTATS :: u_int where "BIOCGSTATS = IOR 66 111 8"
definition BIOCIMMEDIATE :: u_int where "BIOCIMMEDIATE = IOW 66 112 4"
definition BIOCVERSION :: u_int where "BIOCVERSION = IOR 66 113 4"

lemmas bioc_defs = BIOCGBLEN_def BIOCSBLEN_def BIOCSETF_def BIOCFLUSH_def BIOCPROMISC_def BIOCGDLT_def
  BIOCGETIF_def BIOCSETIF_def BIOCSRTIMEOUT_def BIOCGRTIMEOUT_def BIOCGSTATS_def BIOCIMMEDIATE_def
  BIOCVERSION_def
definition DLT_NULL :: int where "DLT_NULL = 0"
definition DLT_EN3MB :: int where "DLT_EN3MB = 2"
definition DLT_AX25 :: int where "DLT_AX25 = 3"
definition DLT_PRONET :: int where "DLT_PRONET = 4"
definition DLT_CHAOS :: int where "DLT_CHAOS = 5"
definition DLT_IEEE802 :: int where "DLT_IEEE802 = 6"
definition DLT_ARCNET :: int where "DLT_ARCNET = 7"
definition DLT_PPP :: int where "DLT_PPP = 9"
definition DLT_FDDI :: int where "DLT_FDDI = 10"

lemmas dlt_defs = DLT_NULL_def DLT_EN3MB_def DLT_AX25_def DLT_PRONET_def DLT_CHAOS_def DLT_IEEE802_def
  DLT_ARCNET_def DLT_PPP_def DLT_FDDI_def

section \<open>Instruction codes\<close>

definition BPF_CLASS :: "u_short \<Rightarrow> u_short" where "BPF_CLASS code = code AND 0x07"
definition BPF_SIZE :: "u_short \<Rightarrow> u_short" where "BPF_SIZE code = code AND 0x18"
definition BPF_MODE :: "u_short \<Rightarrow> u_short" where "BPF_MODE code = code AND 0xe0"
definition BPF_OP :: "u_short \<Rightarrow> u_short" where "BPF_OP code = code AND 0xf0"
definition BPF_SRC :: "u_short \<Rightarrow> u_short" where "BPF_SRC code = code AND 0x08"
definition BPF_RVAL :: "u_short \<Rightarrow> u_short" where "BPF_RVAL code = code AND 0x18"
definition BPF_MISCOP :: "u_short \<Rightarrow> u_short" where "BPF_MISCOP code = code AND 0xf8"

definition BPF_LD :: u_short where "BPF_LD = 0"
definition BPF_LDX :: u_short where "BPF_LDX = 0x1"
definition BPF_ST :: u_short where "BPF_ST = 0x2"
definition BPF_STX :: u_short where "BPF_STX = 0x3"
definition BPF_ALU :: u_short where "BPF_ALU = 0x4"
definition BPF_JMP :: u_short where "BPF_JMP = 0x5"
definition BPF_RET :: u_short where "BPF_RET = 0x6"
definition BPF_MISC :: u_short where "BPF_MISC = 0x7"
definition BPF_W :: u_short where "BPF_W = 0"
definition BPF_H :: u_short where "BPF_H = 0x8"
definition BPF_B :: u_short where "BPF_B = 0x10"
definition BPF_IMM :: u_short where "BPF_IMM = 0"
definition BPF_ABS :: u_short where "BPF_ABS = 0x20"
definition BPF_IND :: u_short where "BPF_IND = 0x40"
definition BPF_MEM :: u_short where "BPF_MEM = 0x60"
definition BPF_LEN :: u_short where "BPF_LEN = 0x80"
definition BPF_MSH :: u_short where "BPF_MSH = 0xa0"
definition BPF_ADD :: u_short where "BPF_ADD = 0"
definition BPF_SUB :: u_short where "BPF_SUB = 0x10"
definition BPF_MUL :: u_short where "BPF_MUL = 0x20"
definition BPF_DIV :: u_short where "BPF_DIV = 0x30"
definition BPF_OR :: u_short where "BPF_OR = 0x40"
definition BPF_AND :: u_short where "BPF_AND = 0x50"
definition BPF_LSH :: u_short where "BPF_LSH = 0x60"
definition BPF_RSH :: u_short where "BPF_RSH = 0x70"
definition BPF_NEG :: u_short where "BPF_NEG = 0x80"
definition BPF_JA :: u_short where "BPF_JA = 0"
definition BPF_JEQ :: u_short where "BPF_JEQ = 0x10"
definition BPF_JGT :: u_short where "BPF_JGT = 0x20"
definition BPF_JGE :: u_short where "BPF_JGE = 0x30"
definition BPF_JSET :: u_short where "BPF_JSET = 0x40"
definition BPF_K :: u_short where "BPF_K = 0"
definition BPF_X :: u_short where "BPF_X = 0x8"
definition BPF_A :: u_short where "BPF_A = 0x10"
definition BPF_TAX :: u_short where "BPF_TAX = 0"
definition BPF_TXA :: u_short where "BPF_TXA = 0x80"

lemmas bpf_code_defs = BPF_LD_def BPF_LDX_def BPF_ST_def BPF_STX_def BPF_ALU_def BPF_JMP_def BPF_RET_def
  BPF_MISC_def BPF_W_def BPF_H_def BPF_B_def BPF_IMM_def BPF_ABS_def BPF_IND_def BPF_MEM_def BPF_LEN_def
  BPF_MSH_def BPF_ADD_def BPF_SUB_def BPF_MUL_def BPF_DIV_def BPF_OR_def BPF_AND_def BPF_LSH_def BPF_RSH_def
  BPF_NEG_def BPF_JA_def BPF_JEQ_def BPF_JGT_def BPF_JGE_def BPF_JSET_def BPF_K_def BPF_X_def BPF_A_def
  BPF_TAX_def BPF_TXA_def

definition BPF_STMT :: "u_short \<Rightarrow> u_long \<Rightarrow> bpf_insn" where
  "BPF_STMT code k = \<lparr>bi_code = code, bi_jt = 0, bi_jf = 0, bi_k = k\<rparr>"
definition BPF_JUMP :: "u_short \<Rightarrow> u_long \<Rightarrow> u_char \<Rightarrow> u_char \<Rightarrow> bpf_insn" where
  "BPF_JUMP code k jt jf = \<lparr>bi_code = code, bi_jt = jt, bi_jf = jf, bi_k = k\<rparr>"

definition bpf_classes :: "u_short list" where
  "bpf_classes = [BPF_LD, BPF_LDX, BPF_ST, BPF_STX, BPF_ALU, BPF_JMP, BPF_RET, BPF_MISC]"
definition bpf_sizes :: "u_short list" where "bpf_sizes = [BPF_W, BPF_H, BPF_B]"
definition bpf_modes :: "u_short list" where "bpf_modes = [BPF_IMM, BPF_ABS, BPF_IND, BPF_MEM, BPF_LEN, BPF_MSH]"
definition bpf_alu_ops :: "u_short list" where
  "bpf_alu_ops = [BPF_ADD, BPF_SUB, BPF_MUL, BPF_DIV, BPF_OR, BPF_AND, BPF_LSH, BPF_RSH, BPF_NEG]"
definition bpf_jmp_ops :: "u_short list" where "bpf_jmp_ops = [BPF_JA, BPF_JEQ, BPF_JGT, BPF_JGE, BPF_JSET]"
definition bpf_srcs :: "u_short list" where "bpf_srcs = [BPF_K, BPF_X]"

lemma field_and: "(x OR y OR z) AND m = x" if "x AND m = x" "y AND m = 0" "z AND m = 0" for x y z m :: u_short
  using that by (simp add: bit.conj_disj_distrib2)

lemma in_field: "\<forall>x\<in>set bpf_classes. x AND 0x07 = x \<and> x AND 0x18 = 0 \<and> x AND 0xe0 = 0 \<and> x AND 0xf0 = 0 \<and> x AND 0x08 = 0"
  "\<forall>x\<in>set bpf_sizes. x AND 0x18 = x \<and> x AND 0x07 = 0 \<and> x AND 0xe0 = 0"
  "\<forall>x\<in>set bpf_modes. x AND 0xe0 = x \<and> x AND 0x18 = 0 \<and> x AND 0x07 = 0"
  "\<forall>x\<in>set bpf_alu_ops \<union> set bpf_jmp_ops. x AND 0xf0 = x \<and> x AND 0x07 = 0 \<and> x AND 0x08 = 0"
  "\<forall>x\<in>set bpf_srcs. x AND 0x08 = x \<and> x AND 0x07 = 0 \<and> x AND 0xf0 = 0"
  by (simp_all add: bpf_classes_def bpf_sizes_def bpf_modes_def bpf_alu_ops_def bpf_jmp_ops_def bpf_srcs_def bpf_code_defs)

lemma or_rot: "x OR y OR z = y OR z OR x" "x OR y OR z = z OR x OR y" for x y z :: u_short
  by (simp_all add: ac_simps)

text \<open>The code of an instruction, put together with \<open>|\<close> as the initializer macros expect it, is taken apart by
  the field macros: class, size and mode of a load or store, class, operation and source of an arithmetic or
  jump instruction come back, for every combination the header names.\<close>

theorem bpf_code_fields:
  assumes "c \<in> set bpf_classes"
  shows "(s \<in> set bpf_sizes \<longrightarrow> m \<in> set bpf_modes \<longrightarrow>
       (let code = bi_code (BPF_STMT (c OR s OR m) k) in BPF_CLASS code = c \<and> BPF_SIZE code = s \<and> BPF_MODE code = m)) \<and>
     (op \<in> set bpf_alu_ops \<union> set bpf_jmp_ops \<longrightarrow> x \<in> set bpf_srcs \<longrightarrow>
       (let code = bi_code (BPF_JUMP (c OR op OR x) k jt jf) in BPF_CLASS code = c \<and> BPF_OP code = op \<and> BPF_SRC code = x))"
proof -
  note c = bspec [OF in_field(1) assms]
  have "BPF_CLASS (c OR s OR m) = c \<and> BPF_SIZE (c OR s OR m) = s \<and> BPF_MODE (c OR s OR m) = m"
    if "s \<in> set bpf_sizes" "m \<in> set bpf_modes"
  proof -
    note s = bspec [OF in_field(2) that(1)] and m = bspec [OF in_field(3) that(2)]
    show ?thesis unfolding BPF_CLASS_def BPF_SIZE_def BPF_MODE_def
      using field_and [of c 7 s m] field_and [of s "0x18" m c] field_and [of m "0xe0" c s] c s m
        or_rot [of c s m] by metis
  qed
  moreover have "BPF_CLASS (c OR op OR x) = c \<and> BPF_OP (c OR op OR x) = op \<and> BPF_SRC (c OR op OR x) = x"
    if "op \<in> set bpf_alu_ops \<union> set bpf_jmp_ops" "x \<in> set bpf_srcs"
  proof -
    note s = bspec [OF in_field(4) that(1)] and m = bspec [OF in_field(5) that(2)]
    show ?thesis unfolding BPF_CLASS_def BPF_OP_def BPF_SRC_def
      using field_and [of c 7 op x] field_and [of op "0xf0" x c] field_and [of x "0x08" c op] c s m
        or_rot [of c op x] by metis
  qed
  ultimately show ?thesis by (simp add: BPF_STMT_def BPF_JUMP_def Let_def)
qed

theorem bpf_code_fields_witness:
  "BPF_MODE (BPF_LD OR BPF_H OR BPF_ABS) = BPF_ABS \<and> BPF_OP (BPF_JMP OR BPF_JEQ OR BPF_K) = BPF_JEQ"
proof -
  have "BPF_LD \<in> set bpf_classes" "BPF_H \<in> set bpf_sizes" "BPF_ABS \<in> set bpf_modes"
    "BPF_JMP \<in> set bpf_classes" "BPF_JEQ \<in> set bpf_alu_ops \<union> set bpf_jmp_ops" "BPF_K \<in> set bpf_srcs"
    by (simp_all add: bpf_classes_def bpf_sizes_def bpf_modes_def bpf_alu_ops_def bpf_jmp_ops_def bpf_srcs_def)
  then show ?thesis
    using bpf_code_fields [of BPF_LD BPF_H BPF_ABS 12] bpf_code_fields [of BPF_JMP _ _ _ BPF_JEQ BPF_K 0 0]
    by (simp add: BPF_STMT_def BPF_JUMP_def Let_def)
qed

text \<open>\<open>BPF_WORDALIGN\<close> rounds up to the next multiple of four.\<close>

lemma wordalign_next: "uint x < 2 ^ 64 - 3 \<Longrightarrow> uint (BPF_WORDALIGN x) = 4 * ((uint x + 3) div 4)"
proof -
  assume x: "uint x < 2 ^ 64 - 3"
  have m: "NOT (3 :: 64 word) = NOT (mask 2)" by (simp add: mask_eq_exp_minus_1)
  have t: "y AND NOT (mask 2) = push_bit 2 (drop_bit 2 y)" for y :: "64 word"
    by (rule bit_word_eqI) (force simp add: bit_simps not_less le_Suc_ex dest: le_Suc_ex)
  have s: "uint (x + 3) = uint x + 3" using x by (simp add: uint_plus_if')
  have d: "uint (drop_bit 2 (x + 3)) = (uint x + 3) div 4"
    by (simp add: drop_bit_eq_div uint_div_distrib s)
  have "uint (push_bit 2 w) = 4 * uint w" if "4 * uint w < 2 ^ 64" for w :: "64 word"
    using that by (simp add: push_bit_eq_mult uint_word_arith_bintrs(3) take_bit_int_eq_self mult.commute)
  moreover have f: "(4 :: 64 word) - 1 = 3" by simp
  have "BPF_WORDALIGN x = push_bit 2 (drop_bit 2 (x + 3))"
    by (simp only: BPF_WORDALIGN_def BPF_ALIGNMENT_def f m t)
  ultimately show ?thesis using x d by simp
qed

end
