(* ===== verification/Termios.thy ===== *)
theory Termios
  imports Slip
begin

text \<open>
  Terminal settings: the indices, flags and speeds of \<open>sys/termios.h\<close>, the defaults of
  \<open>sys/ttydefaults.h\<close>, the states and macros of \<open>sys/tty.h\<close>, and the flag, queue and line delimiter macros
  of \<open>kern/tty.c\<close>.  Character codes and octal numbers of the source are written as numbers.
\<close>

section \<open>Control characters\<close>

definition VEOF :: nat where "VEOF = 0"
definition VEOL :: nat where "VEOL = 1"
definition VEOL2 :: nat where "VEOL2 = 2"
definition VERASE :: nat where "VERASE = 3"
definition VWERASE :: nat where "VWERASE = 4"
definition VKILL :: nat where "VKILL = 5"
definition VREPRINT :: nat where "VREPRINT = 6"
definition VINTR :: nat where "VINTR = 8"
definition VQUIT :: nat where "VQUIT = 9"
definition VSUSP :: nat where "VSUSP = 10"
definition VDSUSP :: nat where "VDSUSP = 11"
definition VSTART :: nat where "VSTART = 12"
definition VSTOP :: nat where "VSTOP = 13"
definition VLNEXT :: nat where "VLNEXT = 14"
definition VDISCARD :: nat where "VDISCARD = 15"
definition VMIN :: nat where "VMIN = 16"
definition VTIME :: nat where "VTIME = 17"
definition VSTATUS :: nat where "VSTATUS = 18"
definition NCCS :: nat where "NCCS = 20"

lemmas vindex_defs = VEOF_def VEOL_def VEOL2_def VERASE_def VWERASE_def VKILL_def VREPRINT_def VINTR_def
  VQUIT_def VSUSP_def VDSUSP_def VSTART_def VSTOP_def VLNEXT_def VDISCARD_def VMIN_def VTIME_def VSTATUS_def
  NCCS_def

definition TTY_VDISABLE :: int where "TTY_VDISABLE = 0xff"
definition CCEQ :: "int \<Rightarrow> int \<Rightarrow> bool" where
  "CCEQ val c \<longleftrightarrow> (if c = val then val \<noteq> TTY_VDISABLE else False)"

definition CTRL :: "int \<Rightarrow> int" where "CTRL x = x AND 0x1f"

definition CEOF :: int where "CEOF = CTRL 100"
definition CEOL :: int where "CEOL = 0xff"
definition CERASE :: int where "CERASE = 0x7f"
definition CINTR :: int where "CINTR = CTRL 99"
definition CSTATUS :: int where "CSTATUS = 0xff"
definition CKILL :: int where "CKILL = CTRL 117"
definition CMIN :: int where "CMIN = 1"
definition CQUIT :: int where "CQUIT = 0x1c"
definition CSUSP :: int where "CSUSP = CTRL 122"
definition CTIME :: int where "CTIME = 0"
definition CDSUSP :: int where "CDSUSP = CTRL 121"
definition CSTART :: int where "CSTART = CTRL 113"
definition CSTOP :: int where "CSTOP = CTRL 115"
definition CLNEXT :: int where "CLNEXT = CTRL 118"
definition CDISCARD :: int where "CDISCARD = CTRL 111"
definition CWERASE :: int where "CWERASE = CTRL 119"
definition CREPRINT :: int where "CREPRINT = CTRL 114"
definition CEOT :: int where "CEOT = CEOF"
definition CBRK :: int where "CBRK = CEOL"
definition CRPRNT :: int where "CRPRNT = CREPRINT"
definition CFLUSH :: int where "CFLUSH = CDISCARD"

lemmas cchar_defs = CEOF_def CEOL_def CERASE_def CINTR_def CSTATUS_def CKILL_def CMIN_def CQUIT_def CSUSP_def
  CTIME_def CDSUSP_def CSTART_def CSTOP_def CLNEXT_def CDISCARD_def CWERASE_def CREPRINT_def CTRL_def
  TTY_VDISABLE_def

text \<open>The table is compiled where \<open>TTYDEFCHARS\<close> is defined.\<close>

definition ttydefchars :: "int list" where
  "ttydefchars =
    [CEOF, CEOL, CEOL, CERASE, CWERASE, CKILL, CREPRINT,
     TTY_VDISABLE, CINTR, CQUIT, CSUSP, CDSUSP, CSTART, CSTOP, CLNEXT,
     CDISCARD, CMIN, CTIME, CSTATUS, TTY_VDISABLE]"

section \<open>Flags and speeds\<close>

definition IGNBRK :: u_long where "IGNBRK = 0x1"
definition BRKINT :: u_long where "BRKINT = 0x2"
definition IGNPAR :: u_long where "IGNPAR = 0x4"
definition PARMRK :: u_long where "PARMRK = 0x8"
definition INPCK :: u_long where "INPCK = 0x10"
definition ISTRIP :: u_long where "ISTRIP = 0x20"
definition INLCR :: u_long where "INLCR = 0x40"
definition IGNCR :: u_long where "IGNCR = 0x80"
definition ICRNL :: u_long where "ICRNL = 0x100"
definition IXON :: u_long where "IXON = 0x200"
definition IXOFF :: u_long where "IXOFF = 0x400"
definition IXANY :: u_long where "IXANY = 0x800"
definition IMAXBEL :: u_long where "IMAXBEL = 0x2000"

lemmas iflag_defs = IGNBRK_def BRKINT_def IGNPAR_def PARMRK_def INPCK_def ISTRIP_def INLCR_def IGNCR_def
  ICRNL_def IXON_def IXOFF_def IXANY_def IMAXBEL_def
definition OPOST :: u_long where "OPOST = 0x1"
definition ONLCR :: u_long where "ONLCR = 0x2"
definition OXTABS :: u_long where "OXTABS = 0x4"
definition ONOEOT :: u_long where "ONOEOT = 0x8"

lemmas oflag_defs = OPOST_def ONLCR_def OXTABS_def ONOEOT_def
definition CIGNORE :: u_long where "CIGNORE = 0x1"
definition CSIZE :: u_long where "CSIZE = 0x300"
definition CS5 :: u_long where "CS5 = 0"
definition CS6 :: u_long where "CS6 = 0x100"
definition CS7 :: u_long where "CS7 = 0x200"
definition CS8 :: u_long where "CS8 = 0x300"
definition CSTOPB :: u_long where "CSTOPB = 0x400"
definition CREAD :: u_long where "CREAD = 0x800"
definition PARENB :: u_long where "PARENB = 0x1000"
definition PARODD :: u_long where "PARODD = 0x2000"
definition HUPCL :: u_long where "HUPCL = 0x4000"
definition CCTS_OFLOW :: u_long where "CCTS_OFLOW = 0x10000"
definition CRTSCTS :: u_long where "CRTSCTS = CCTS_OFLOW"
definition CRTS_IFLOW :: u_long where "CRTS_IFLOW = 0x20000"
definition MDMBUF :: u_long where "MDMBUF = 0x100000"

lemmas cflag_defs = CIGNORE_def CSIZE_def CS5_def CS6_def CS7_def CS8_def CSTOPB_def CREAD_def PARENB_def
  PARODD_def HUPCL_def CCTS_OFLOW_def CRTSCTS_def CRTS_IFLOW_def MDMBUF_def
definition ECHOKE :: u_long where "ECHOKE = 0x1"
definition ECHOE :: u_long where "ECHOE = 0x2"
definition ECHOK :: u_long where "ECHOK = 0x4"
definition ECHO :: u_long where "ECHO = 0x8"
definition ECHONL :: u_long where "ECHONL = 0x10"
definition ECHOPRT :: u_long where "ECHOPRT = 0x20"
definition ECHOCTL :: u_long where "ECHOCTL = 0x40"
definition ISIG :: u_long where "ISIG = 0x80"
definition ICANON :: u_long where "ICANON = 0x100"
definition ALTWERASE :: u_long where "ALTWERASE = 0x200"
definition IEXTEN :: u_long where "IEXTEN = 0x400"
definition EXTPROC :: u_long where "EXTPROC = 0x800"
definition TOSTOP :: u_long where "TOSTOP = 0x400000"
definition FLUSHO :: u_long where "FLUSHO = 0x800000"
definition NOKERNINFO :: u_long where "NOKERNINFO = 0x2000000"
definition PENDIN :: u_long where "PENDIN = 0x20000000"
definition NOFLSH :: u_long where "NOFLSH = 0x80000000"

lemmas lflag_defs = ECHOKE_def ECHOE_def ECHOK_def ECHO_def ECHONL_def ECHOPRT_def ECHOCTL_def ISIG_def
  ICANON_def ALTWERASE_def IEXTEN_def EXTPROC_def TOSTOP_def FLUSHO_def NOKERNINFO_def PENDIN_def NOFLSH_def

definition TCSANOW :: int where "TCSANOW = 0"
definition TCSADRAIN :: int where "TCSADRAIN = 1"
definition TCSAFLUSH :: int where "TCSAFLUSH = 2"
definition TCSASOFT :: int where "TCSASOFT = 0x10"

lemmas tcsa_defs = TCSANOW_def TCSADRAIN_def TCSAFLUSH_def TCSASOFT_def
definition B0 :: int where "B0 = 0"
definition B50 :: int where "B50 = 50"
definition B75 :: int where "B75 = 75"
definition B110 :: int where "B110 = 110"
definition B134 :: int where "B134 = 134"
definition B150 :: int where "B150 = 150"
definition B200 :: int where "B200 = 200"
definition B300 :: int where "B300 = 300"
definition B600 :: int where "B600 = 600"
definition B1200 :: int where "B1200 = 1200"
definition B1800 :: int where "B1800 = 1800"
definition B2400 :: int where "B2400 = 2400"
definition B4800 :: int where "B4800 = 4800"
definition B9600 :: int where "B9600 = 9600"
definition B19200 :: int where "B19200 = 19200"
definition B38400 :: int where "B38400 = 38400"
definition B7200 :: int where "B7200 = 7200"
definition B14400 :: int where "B14400 = 14400"
definition B28800 :: int where "B28800 = 28800"
definition B57600 :: int where "B57600 = 57600"
definition B76800 :: int where "B76800 = 76800"
definition B115200 :: int where "B115200 = 115200"
definition B230400 :: int where "B230400 = 230400"
definition EXTA :: int where "EXTA = 19200"
definition EXTB :: int where "EXTB = 38400"

lemmas speed_defs = B0_def B50_def B75_def B110_def B134_def B150_def B200_def B300_def B600_def B1200_def
  B1800_def B2400_def B4800_def B9600_def B19200_def B38400_def B7200_def B14400_def B28800_def B57600_def
  B76800_def B115200_def B230400_def EXTA_def EXTB_def
definition TCIFLUSH :: int where "TCIFLUSH = 1"
definition TCOFLUSH :: int where "TCOFLUSH = 2"
definition TCIOFLUSH :: int where "TCIOFLUSH = 3"
definition TCOOFF :: int where "TCOOFF = 1"
definition TCOON :: int where "TCOON = 2"
definition TCIOFF :: int where "TCIOFF = 3"
definition TCION :: int where "TCION = 4"

lemmas tcflow_defs = TCIFLUSH_def TCOFLUSH_def TCIOFLUSH_def TCOOFF_def TCOON_def TCIOFF_def TCION_def

definition TTYDEF_IFLAG :: u_long where
  "TTYDEF_IFLAG = (BRKINT OR ISTRIP OR ICRNL OR IMAXBEL OR IXON OR IXANY)"
definition TTYDEF_OFLAG :: u_long where "TTYDEF_OFLAG = (OPOST OR ONLCR OR OXTABS)"
definition TTYDEF_LFLAG :: u_long where
  "TTYDEF_LFLAG = (ECHO OR ICANON OR ISIG OR IEXTEN OR ECHOE OR ECHOKE OR ECHOCTL)"
definition TTYDEF_CFLAG :: u_long where "TTYDEF_CFLAG = (CREAD OR CS7 OR PARENB OR HUPCL)"
definition TTYDEF_SPEED :: int where "TTYDEF_SPEED = B9600"

section \<open>States and limits of a terminal\<close>

definition TTIPRI :: int where "TTIPRI = 25"
definition TTOPRI :: int where "TTOPRI = 26"
definition TTMASK :: int where "TTMASK = 15"
definition OBUFSIZ :: int where "OBUFSIZ = 100"
definition TTYHOG :: int where "TTYHOG = 1024"

lemmas ttpri_defs = TTIPRI_def TTOPRI_def TTMASK_def OBUFSIZ_def TTYHOG_def
definition TTMAXHIWAT :: int where "TTMAXHIWAT = roundup 2048 CBSIZE"
definition TTMINHIWAT :: int where "TTMINHIWAT = roundup 100 CBSIZE"
definition TTMAXLOWAT :: int where "TTMAXLOWAT = 256"
definition TTMINLOWAT :: int where "TTMINLOWAT = 32"

definition TS_ASLEEP :: u_int where "TS_ASLEEP = 0x1"
definition TS_ASYNC :: u_int where "TS_ASYNC = 0x2"
definition TS_BUSY :: u_int where "TS_BUSY = 0x4"
definition TS_FLUSH :: u_int where "TS_FLUSH = 0x10"
definition TS_ISOPEN :: u_int where "TS_ISOPEN = 0x20"
definition TS_TBLOCK :: u_int where "TS_TBLOCK = 0x40"
definition TS_TIMEOUT :: u_int where "TS_TIMEOUT = 0x80"
definition TS_TTSTOP :: u_int where "TS_TTSTOP = 0x100"
definition TS_WOPEN :: u_int where "TS_WOPEN = 0x200"
definition TS_XCLUDE :: u_int where "TS_XCLUDE = 0x400"
definition TS_BKSL :: u_int where "TS_BKSL = 0x800"
definition TS_CNTTB :: u_int where "TS_CNTTB = 0x1000"
definition TS_ERASE :: u_int where "TS_ERASE = 0x2000"
definition TS_LNCH :: u_int where "TS_LNCH = 0x4000"
definition TS_TYPEN :: u_int where "TS_TYPEN = 0x8000"
definition TS_LOCAL :: u_int where "TS_LOCAL = TS_BKSL OR TS_CNTTB OR TS_ERASE OR TS_LNCH OR TS_TYPEN"

lemmas ts_defs = TS_ASLEEP_def TS_ASYNC_def TS_BUSY_def TS_FLUSH_def TS_ISOPEN_def TS_TBLOCK_def
  TS_TIMEOUT_def TS_TTSTOP_def TS_WOPEN_def TS_XCLUDE_def TS_BKSL_def TS_CNTTB_def TS_ERASE_def TS_LNCH_def
  TS_TYPEN_def TS_LOCAL_def

record speedtab =
  sp_speed :: int
  sp_code :: int

definition DMSET :: int where "DMSET = 0"
definition DMBIS :: int where "DMBIS = 1"
definition DMBIC :: int where "DMBIC = 2"
definition DMGET :: int where "DMGET = 3"

lemmas dm_defs = DMSET_def DMBIS_def DMBIC_def DMGET_def
definition TTY_QUOTE :: u_int where "TTY_QUOTE = 0x100"
definition TTY_FE :: u_int where "TTY_FE = 0x1000000"
definition TTY_PE :: u_int where "TTY_PE = 0x2000000"

lemmas ttychar_defs = TTY_QUOTE_def TTY_FE_def TTY_PE_def

section \<open>Macros of the terminal code\<close>

definition SET :: "u_long \<Rightarrow> u_long \<Rightarrow> u_long" where "SET t f = t OR f"
definition CLR :: "u_long \<Rightarrow> u_long \<Rightarrow> u_long" where "CLR t f = t AND NOT f"
definition ISSET :: "u_long \<Rightarrow> u_long \<Rightarrow> u_long" where "ISSET t f = t AND f"

definition FLUSHQ :: "clist \<Rightarrow> clist" where
  "FLUSHQ q = (if c_cc q \<noteq> 0 then ndflush q (c_cc q) else q)"

definition TTBREAKC :: "int list \<Rightarrow> int \<Rightarrow> bool" where
  "TTBREAKC cc c \<longleftrightarrow>
     (c = 10 \<or> ((c = cc ! VEOF \<or> c = cc ! VEOL \<or> c = cc ! VEOL2) \<and> c \<noteq> TTY_VDISABLE))"

definition CCLASSMASK :: u_char where "CCLASSMASK = 0x3f"

section \<open>Properties\<close>

text \<open>Setting and clearing flags.\<close>

lemma set_clr: "ISSET (SET t f) f = f" "ISSET (CLR t f) f = 0" "CLR (SET t f) f = CLR t f"
    "f AND g = 0 \<Longrightarrow> ISSET (SET t f) g = ISSET t g" "f AND g = 0 \<Longrightarrow> ISSET (CLR t f) g = ISSET t g"
proof -
  show "ISSET (SET t f) f = f" "ISSET (CLR t f) f = 0" "CLR (SET t f) f = CLR t f"
    by (rule bit_word_eqI, auto simp: SET_def CLR_def ISSET_def bit_simps)+
  assume "f AND g = 0"
  then have "\<not> (bit f n \<and> bit g n)" for n by (metis bit_0_eq bit_and_iff bot_apply bot_bool_def)
  then show "ISSET (SET t f) g = ISSET t g" "ISSET (CLR t f) g = ISSET t g"
    by (auto intro!: bit_word_eqI simp: SET_def CLR_def ISSET_def bit_simps)
qed

text \<open>The default control characters: every index names its own character, the two spare places are disabled, and
  as long as a character is enabled it selects one function only.  The delimiters of a line are newline
  and control-D.\<close>

theorem ttydefchars_table:
  "length ttydefchars = NCCS \<and>
   map ((!) ttydefchars) [VEOF, VEOL, VEOL2, VERASE, VWERASE, VKILL, VREPRINT, VINTR, VQUIT, VSUSP, VDSUSP, VSTART,
       VSTOP, VLNEXT, VDISCARD, VMIN, VTIME, VSTATUS] =
     [CEOF, CEOL, CEOL, CERASE, CWERASE, CKILL, CREPRINT, CINTR, CQUIT, CSUSP, CDSUSP, CSTART,
       CSTOP, CLNEXT, CDISCARD, CMIN, CTIME, CSTATUS] \<and>
   distinct (filter (\<lambda>v. CCEQ v v) (take VMIN ttydefchars)) \<and>
   (TTBREAKC ttydefchars c \<longleftrightarrow> c = 10 \<or> c = 4)"
proof (intro conjI)
  show "distinct (filter (\<lambda>v. CCEQ v v) (take VMIN ttydefchars))"
    by (simp add: ttydefchars_def cchar_defs VMIN_def CCEQ_def numeral_eq_Suc)
  show "TTBREAKC ttydefchars c \<longleftrightarrow> c = 10 \<or> c = 4"
    by (auto simp: TTBREAKC_def ttydefchars_def VEOF_def VEOL_def VEOL2_def CEOF_def CEOL_def CTRL_def TTY_VDISABLE_def)
  show "length ttydefchars = NCCS" by (simp add: ttydefchars_def NCCS_def)
qed (simp add: ttydefchars_def vindex_defs eval_nat_numeral)

definition iflags :: "u_long list" where
  "iflags = [IGNBRK, BRKINT, IGNPAR, PARMRK, INPCK, ISTRIP, INLCR, IGNCR, ICRNL, IXON, IXOFF, IXANY, IMAXBEL]"
definition oflags :: "u_long list" where "oflags = [OPOST, ONLCR, OXTABS, ONOEOT]"
definition cflags :: "u_long list" where
  "cflags = [CIGNORE, CSIZE, CSTOPB, CREAD, PARENB, PARODD, HUPCL, CLOCAL, CCTS_OFLOW, CRTS_IFLOW, MDMBUF]"
definition lflags :: "u_long list" where
  "lflags = [ECHOKE, ECHOE, ECHOK, ECHO, ECHONL, ECHOPRT, ECHOCTL, ISIG, ICANON, ALTWERASE, IEXTEN, EXTPROC,
     TOSTOP, FLUSHO, NOKERNINFO, PENDIN, NOFLSH]"
definition tstates :: "u_long list" where
  "tstates = [TS_ASLEEP, TS_ASYNC, TS_BUSY, TS_CARR_ON, TS_FLUSH, TS_ISOPEN, TS_TBLOCK, TS_TIMEOUT, TS_TTSTOP,
     TS_WOPEN, TS_XCLUDE, TS_BKSL, TS_CNTTB, TS_ERASE, TS_LNCH, TS_TYPEN]"

definition set_all :: "u_long list \<Rightarrow> u_long \<Rightarrow> u_long" where "set_all fs t = fold (\<lambda>f t. SET t f) fs t"

primrec disjoint_flags :: "u_long \<Rightarrow> u_long list \<Rightarrow> bool" where
  "disjoint_flags used [] \<longleftrightarrow> True"
| "disjoint_flags used (f # fs) \<longleftrightarrow> used AND f = 0 \<and> disjoint_flags (used OR f) fs"

lemma and_or_zero: "x AND (y OR z) = 0 \<longleftrightarrow> x AND y = 0 \<and> x AND z = 0" for x y z :: u_long
  by (auto simp: bit.conj_disj_distrib or_eq_0_iff)

lemma disjoint_flags_used: "disjoint_flags used fs \<Longrightarrow> g \<in> set fs \<Longrightarrow> used AND g = 0"
proof (induction fs arbitrary: used)
  case (Cons h fs)
  show ?case
  proof (cases "g = h")
    case False
    then have "(used OR h) AND g = 0" using Cons by auto
    then show ?thesis using and_or_zero [of g used h] by (simp add: and.commute)
  qed (use Cons.prems in simp)
qed simp

lemma disjoint_flags_pair: "disjoint_flags used fs \<Longrightarrow> f \<in> set fs \<Longrightarrow> g \<in> set fs \<Longrightarrow> f \<noteq> g \<Longrightarrow> f AND g = 0"
proof (induction fs arbitrary: used)
  case (Cons h fs)
  have "h AND x = 0" if "x \<in> set fs" for x
    using disjoint_flags_used [of "used OR h" fs x] Cons.prems(1) that by (simp add: and_or_zero ac_simps)
  then show ?case using Cons by (auto simp: ac_simps)
qed simp

lemma set_all_isset:
  assumes "\<And>g. g \<in> set fs \<Longrightarrow> g \<noteq> f \<Longrightarrow> g AND f = 0"
  shows "ISSET (set_all fs t) f = (if f \<in> set fs then f else ISSET t f)"
  using assms
proof (induction fs arbitrary: t)
  case (Cons g fs)
  have "ISSET (SET t g) f = (if g = f then f else ISSET t f)" using Cons.prems [of g] set_clr(1,4) by auto
  then show ?case using Cons.IH [of "SET t g"] Cons.prems by (auto simp: set_all_def)
qed (simp add: set_all_def)

lemma flag_words: "ws \<in> {iflags, oflags, cflags, lflags, tstates} \<Longrightarrow> disjoint_flags 0 ws"
  by (auto simp: iflags_def oflags_def cflags_def lflags_def tstates_def iflag_defs oflag_defs cflag_defs lflag_defs
      ts_defs CLOCAL_def TS_CARR_ON_def)

text \<open>The flags of one word are independent: whatever flags of a word are set, in any order, exactly these are
  set, and clearing one of them leaves the others.\<close>

theorem tty_flags_independent:
  assumes "ws \<in> {iflags, oflags, cflags, lflags, tstates}" "set fs \<subseteq> set ws" "f \<in> set ws" "g \<in> set ws"
  shows "ISSET (set_all fs 0) f = (if f \<in> set fs then f else 0) \<and>
     ISSET (CLR (set_all fs 0) g) f = (if f \<in> set fs - {g} then f else 0)"
proof -
  note pair = disjoint_flags_pair [OF flag_words [OF assms(1)]]
  have s: "ISSET (set_all fs 0) f = (if f \<in> set fs then f else 0)"
    using set_all_isset [of fs f 0] pair assms(2,3) by (auto simp: ISSET_def subset_iff)
  moreover have "ISSET (CLR (set_all fs 0) g) f = (if f = g then 0 else ISSET (set_all fs 0) f)"
    using pair [OF assms(4) assms(3)] set_clr(2,5) by auto
  ultimately show ?thesis by simp
qed

theorem tty_flags_independent_witness:
  "ISSET (CLR (set_all [ECHO, ISIG, ICANON] 0) ECHO) ISIG = ISIG"
proof -
  have d: "ISIG \<noteq> ECHO" by (simp add: lflag_defs)
  have "set [ECHO, ISIG, ICANON] \<subseteq> set lflags" "ISIG \<in> set lflags" "ECHO \<in> set lflags" by (simp_all add: lflags_def)
  from tty_flags_independent [OF _ this] d show ?thesis by simp
qed

lemma ttydef_flags: "TTYDEF_IFLAG = set_all [BRKINT, ISTRIP, ICRNL, IMAXBEL, IXON, IXANY] 0"
    "TTYDEF_LFLAG = set_all [ECHO, ICANON, ISIG, IEXTEN, ECHOE, ECHOKE, ECHOCTL] 0"
  by (simp_all add: TTYDEF_IFLAG_def TTYDEF_LFLAG_def set_all_def SET_def or.assoc)

end
