(* ===== verification/Ioctls.thy ===== *)
theory Ioctls
  imports BpfLang Termios
begin

text \<open>
  The commands of \<open>ioctl\<close>: terminals (\<open>sys/ttycom.h\<close>), descriptors (\<open>sys/filio.h\<close>), sockets and interfaces
  (\<open>sys/sockio.h\<close>, \<open>netiso/iso_var.h\<close>), and the disk commands of the stand-alone library
  (\<open>stand/saioctl.h\<close>).  The last argument of the encoding is the size of the argument structure on the
  64-bit target.  \<open>'t'\<close> is 116, \<open>'f'\<close> 102, \<open>'s'\<close> 115, \<open>'r'\<close> 114, \<open>'i'\<close> 105, \<open>'u'\<close> 117 and \<open>'d'\<close> 100.
\<close>

section \<open>Terminals\<close>

definition TIOCMODG :: u_int where "TIOCMODG = IOR 116 3 4"
definition TIOCMODS :: u_int where "TIOCMODS = IOW 116 4 4"
definition TIOCM_LE :: u_int where "TIOCM_LE = 1"
definition TIOCM_DTR :: u_int where "TIOCM_DTR = 2"
definition TIOCM_RTS :: u_int where "TIOCM_RTS = 4"
definition TIOCM_ST :: u_int where "TIOCM_ST = 0x8"
definition TIOCM_SR :: u_int where "TIOCM_SR = 0x10"
definition TIOCM_CTS :: u_int where "TIOCM_CTS = 0x20"
definition TIOCM_CAR :: u_int where "TIOCM_CAR = 0x40"
definition TIOCM_CD :: u_int where "TIOCM_CD = TIOCM_CAR"
definition TIOCM_RNG :: u_int where "TIOCM_RNG = 0x80"
definition TIOCM_RI :: u_int where "TIOCM_RI = TIOCM_RNG"
definition TIOCM_DSR :: u_int where "TIOCM_DSR = 0x100"

lemmas tiocm_defs = TIOCMODG_def TIOCMODS_def TIOCM_LE_def TIOCM_DTR_def TIOCM_RTS_def TIOCM_ST_def
  TIOCM_SR_def TIOCM_CTS_def TIOCM_CAR_def TIOCM_CD_def TIOCM_RNG_def TIOCM_RI_def TIOCM_DSR_def
definition TIOCEXCL :: u_int where "TIOCEXCL = IO 116 13"
definition TIOCNXCL :: u_int where "TIOCNXCL = IO 116 14"
definition TIOCFLUSH :: u_int where "TIOCFLUSH = IOW 116 16 4"
definition TIOCGETA :: u_int where "TIOCGETA = IOR 116 19 44"
definition TIOCSETA :: u_int where "TIOCSETA = IOW 116 20 44"
definition TIOCSETAW :: u_int where "TIOCSETAW = IOW 116 21 44"
definition TIOCSETAF :: u_int where "TIOCSETAF = IOW 116 22 44"
definition TIOCGETD :: u_int where "TIOCGETD = IOR 116 26 4"
definition TIOCSETD :: u_int where "TIOCSETD = IOW 116 27 4"
definition TIOCSBRK :: u_int where "TIOCSBRK = IO 116 123"
definition TIOCCBRK :: u_int where "TIOCCBRK = IO 116 122"
definition TIOCSDTR :: u_int where "TIOCSDTR = IO 116 121"
definition TIOCCDTR :: u_int where "TIOCCDTR = IO 116 120"
definition TIOCGPGRP :: u_int where "TIOCGPGRP = IOR 116 119 4"
definition TIOCSPGRP :: u_int where "TIOCSPGRP = IOW 116 118 4"
definition TIOCOUTQ :: u_int where "TIOCOUTQ = IOR 116 115 4"
definition TIOCSTI :: u_int where "TIOCSTI = IOW 116 114 1"
definition TIOCNOTTY :: u_int where "TIOCNOTTY = IO 116 113"
definition TIOCPKT :: u_int where "TIOCPKT = IOW 116 112 4"

lemmas tioc1_defs = TIOCEXCL_def TIOCNXCL_def TIOCFLUSH_def TIOCGETA_def TIOCSETA_def TIOCSETAW_def
  TIOCSETAF_def TIOCGETD_def TIOCSETD_def TIOCSBRK_def TIOCCBRK_def TIOCSDTR_def TIOCCDTR_def TIOCGPGRP_def
  TIOCSPGRP_def TIOCOUTQ_def TIOCSTI_def TIOCNOTTY_def TIOCPKT_def
definition TIOCPKT_DATA :: u_int where "TIOCPKT_DATA = 0"
definition TIOCPKT_FLUSHREAD :: u_int where "TIOCPKT_FLUSHREAD = 0x1"
definition TIOCPKT_FLUSHWRITE :: u_int where "TIOCPKT_FLUSHWRITE = 0x2"
definition TIOCPKT_STOP :: u_int where "TIOCPKT_STOP = 0x4"
definition TIOCPKT_START :: u_int where "TIOCPKT_START = 0x8"
definition TIOCPKT_NOSTOP :: u_int where "TIOCPKT_NOSTOP = 0x10"
definition TIOCPKT_DOSTOP :: u_int where "TIOCPKT_DOSTOP = 0x20"
definition TIOCPKT_IOCTL :: u_int where "TIOCPKT_IOCTL = 0x40"
definition TIOCSTOP :: u_int where "TIOCSTOP = IO 116 111"
definition TIOCSTART :: u_int where "TIOCSTART = IO 116 110"
definition TIOCMSET :: u_int where "TIOCMSET = IOW 116 109 4"
definition TIOCMBIS :: u_int where "TIOCMBIS = IOW 116 108 4"

lemmas tioc2_defs = TIOCPKT_DATA_def TIOCPKT_FLUSHREAD_def TIOCPKT_FLUSHWRITE_def TIOCPKT_STOP_def
  TIOCPKT_START_def TIOCPKT_NOSTOP_def TIOCPKT_DOSTOP_def TIOCPKT_IOCTL_def TIOCSTOP_def TIOCSTART_def
  TIOCMSET_def TIOCMBIS_def
definition TIOCMBIC :: u_int where "TIOCMBIC = IOW 116 107 4"
definition TIOCMGET :: u_int where "TIOCMGET = IOR 116 106 4"
definition TIOCREMOTE :: u_int where "TIOCREMOTE = IOW 116 105 4"
definition TIOCGWINSZ :: u_int where "TIOCGWINSZ = IOR 116 104 8"
definition TIOCSWINSZ :: u_int where "TIOCSWINSZ = IOW 116 103 8"
definition TIOCUCNTL :: u_int where "TIOCUCNTL = IOW 116 102 4"
definition TIOCCONS :: u_int where "TIOCCONS = IOW 116 98 4"
definition TIOCSCTTY :: u_int where "TIOCSCTTY = IO 116 97"
definition TIOCEXT :: u_int where "TIOCEXT = IOW 116 96 4"
definition TIOCSIG :: u_int where "TIOCSIG = IO 116 95"
definition TIOCDRAIN :: u_int where "TIOCDRAIN = IO 116 94"

lemmas tioc3_defs = TIOCMBIC_def TIOCMGET_def TIOCREMOTE_def TIOCGWINSZ_def TIOCSWINSZ_def TIOCUCNTL_def
  TIOCCONS_def TIOCSCTTY_def TIOCEXT_def TIOCSIG_def TIOCDRAIN_def

definition UIOCCMD :: "u_int \<Rightarrow> u_int" where "UIOCCMD n = IO 117 n"

definition TTYDISC :: int where "TTYDISC = 0"
definition TABLDISC :: int where "TABLDISC = 3"

lemmas disc_defs = TTYDISC_def TABLDISC_def

record ttysize =
  ts_lines :: u_short
  ts_cols :: u_short
  ts_xxx :: u_short
  ts_yyy :: u_short

definition TIOCGSIZE :: u_int where "TIOCGSIZE = TIOCGWINSZ"
definition TIOCSSIZE :: u_int where "TIOCSSIZE = TIOCSWINSZ"

lemmas ttysize_defs = TIOCGSIZE_def TIOCSSIZE_def

section \<open>Descriptors, sockets and interfaces\<close>

definition FIOCLEX :: u_int where "FIOCLEX = IO 102 1"
definition FIONCLEX :: u_int where "FIONCLEX = IO 102 2"
definition FIONREAD :: u_int where "FIONREAD = IOR 102 127 4"
definition FIONBIO :: u_int where "FIONBIO = IOW 102 126 4"
definition FIOASYNC :: u_int where "FIOASYNC = IOW 102 125 4"
definition FIOSETOWN :: u_int where "FIOSETOWN = IOW 102 124 4"
definition FIOGETOWN :: u_int where "FIOGETOWN = IOR 102 123 4"

lemmas fio_defs = FIOCLEX_def FIONCLEX_def FIONREAD_def FIONBIO_def FIOASYNC_def FIOSETOWN_def FIOGETOWN_def
definition SIOCSHIWAT :: u_int where "SIOCSHIWAT = IOW 115 0 4"
definition SIOCGHIWAT :: u_int where "SIOCGHIWAT = IOR 115 1 4"
definition SIOCSLOWAT :: u_int where "SIOCSLOWAT = IOW 115 2 4"
definition SIOCGLOWAT :: u_int where "SIOCGLOWAT = IOR 115 3 4"
definition SIOCATMARK :: u_int where "SIOCATMARK = IOR 115 7 4"
definition SIOCSPGRP :: u_int where "SIOCSPGRP = IOW 115 8 4"
definition SIOCGPGRP :: u_int where "SIOCGPGRP = IOR 115 9 4"
definition SIOCADDRT :: u_int where "SIOCADDRT = IOW 114 10 56"
definition SIOCDELRT :: u_int where "SIOCDELRT = IOW 114 11 56"
definition OSIOCGIFADDR :: u_int where "OSIOCGIFADDR = IOWR 105 13 32"
definition OSIOCGIFDSTADDR :: u_int where "OSIOCGIFDSTADDR = IOWR 105 15 32"
definition OSIOCGIFBRDADDR :: u_int where "OSIOCGIFBRDADDR = IOWR 105 18 32"
definition OSIOCGIFCONF :: u_int where "OSIOCGIFCONF = IOWR 105 20 16"
definition OSIOCGIFNETMASK :: u_int where "OSIOCGIFNETMASK = IOWR 105 21 32"
definition SIOCADDMULTI :: u_int where "SIOCADDMULTI = IOW 105 49 32"
definition SIOCDELMULTI :: u_int where "SIOCDELMULTI = IOW 105 50 32"

lemmas sioc_more = SIOCSHIWAT_def SIOCGHIWAT_def SIOCSLOWAT_def SIOCGLOWAT_def SIOCATMARK_def SIOCSPGRP_def
  SIOCGPGRP_def SIOCADDRT_def SIOCDELRT_def OSIOCGIFADDR_def OSIOCGIFDSTADDR_def OSIOCGIFBRDADDR_def
  OSIOCGIFCONF_def OSIOCGIFNETMASK_def SIOCADDMULTI_def SIOCDELMULTI_def
definition SIOCDIFADDR_ISO :: u_int where "SIOCDIFADDR_ISO = IOW 105 25 48"
definition SIOCAIFADDR_ISO :: u_int where "SIOCAIFADDR_ISO = IOW 105 26 116"
definition SIOCGIFADDR_ISO :: u_int where "SIOCGIFADDR_ISO = IOWR 105 33 48"
definition SIOCGIFDSTADDR_ISO :: u_int where "SIOCGIFDSTADDR_ISO = IOWR 105 34 48"
definition SIOCGIFNETMASK_ISO :: u_int where "SIOCGIFNETMASK_ISO = IOWR 105 37 48"

lemmas sioc_iso = SIOCDIFADDR_ISO_def SIOCAIFADDR_ISO_def SIOCGIFADDR_ISO_def SIOCGIFDSTADDR_ISO_def
  SIOCGIFNETMASK_ISO_def

section \<open>Disks\<close>

definition SAIOHDR :: u_int where "SAIOHDR = push_bit 8 100 OR 1"
definition SAIOCHECK :: u_int where "SAIOCHECK = push_bit 8 100 OR 2"
definition SAIOHCHECK :: u_int where "SAIOHCHECK = push_bit 8 100 OR 3"
definition SAIONOBAD :: u_int where "SAIONOBAD = push_bit 8 100 OR 4"
definition SAIODOBAD :: u_int where "SAIODOBAD = push_bit 8 100 OR 5"
definition SAIOECCLIM :: u_int where "SAIOECCLIM = push_bit 8 100 OR 6"
definition SAIOECCUNL :: u_int where "SAIOECCUNL = push_bit 8 100 OR 7"
definition SAIORETRIES :: u_int where "SAIORETRIES = push_bit 8 100 OR 8"
definition SAIODEVDATA :: u_int where "SAIODEVDATA = push_bit 8 100 OR 9"
definition SAIOSSI :: u_int where "SAIOSSI = push_bit 8 100 OR 10"
definition SAIONOSSI :: u_int where "SAIONOSSI = push_bit 8 100 OR 11"
definition SAIOSSDEV :: u_int where "SAIOSSDEV = push_bit 8 100 OR 12"
definition SAIODEBUG :: u_int where "SAIODEBUG = push_bit 8 100 OR 13"
definition SAIOGBADINFO :: u_int where "SAIOGBADINFO = push_bit 8 100 OR 14"

lemmas saio_defs = SAIOHDR_def SAIOCHECK_def SAIOHCHECK_def SAIONOBAD_def SAIODOBAD_def SAIOECCLIM_def
  SAIOECCUNL_def SAIORETRIES_def SAIODEVDATA_def SAIOSSI_def SAIONOSSI_def SAIOSSDEV_def SAIODEBUG_def
  SAIOGBADINFO_def

section \<open>Properties\<close>

text \<open>All commands, in the order of their codes.\<close>

definition ioctl_cmds :: "u_int list" where
  "ioctl_cmds = [
     BIOCFLUSH, BIOCPROMISC, FIOCLEX, FIONCLEX, TIOCEXCL, TIOCNXCL, TIOCDRAIN, TIOCSIG, TIOCSCTTY,
     TIOCSTART, TIOCSTOP, TIOCNOTTY, TIOCCDTR, TIOCSDTR, TIOCCBRK, TIOCSBRK, BIOCGBLEN, BIOCGDLT,
     BIOCVERSION, FIOGETOWN, FIONREAD, SIOCGHIWAT, SIOCGLOWAT, SIOCATMARK, SIOCGPGRP, TIOCMODG, TIOCGETD,
     SLIOCGUNIT, TIOCMGET, TIOCOUTQ, TIOCGPGRP, BIOCGRTIMEOUT, BIOCGSTATS, TIOCGWINSZ, BIOCGETIF, TIOCGETA,
     TIOCSTI, BIOCIMMEDIATE, FIOSETOWN, FIOASYNC, FIONBIO, SIOCSHIWAT, SIOCSLOWAT, SIOCSPGRP, TIOCMODS,
     TIOCFLUSH, TIOCSETD, TIOCEXT, TIOCCONS, TIOCUCNTL, TIOCREMOTE, TIOCMBIC, TIOCMBIS, TIOCMSET, TIOCPKT,
     TIOCSPGRP, BIOCSRTIMEOUT, TIOCSWINSZ, BIOCSETF, BIOCSETIF, SIOCSIFADDR, SIOCSIFDSTADDR, SIOCSIFFLAGS,
     SIOCSIFBRDADDR, SIOCSIFNETMASK, SIOCSIFMETRIC, SIOCDIFADDR, SIOCADDMULTI, SIOCDELMULTI, TIOCSETA,
     TIOCSETAW, TIOCSETAF, SIOCDIFADDR_ISO, SIOCADDRT, SIOCDELRT, SIOCAIFADDR, SIOCAIFADDR_ISO, BIOCSBLEN,
     OSIOCGIFCONF, SIOCGIFCONF, OSIOCGIFADDR, OSIOCGIFDSTADDR, SIOCGIFFLAGS, OSIOCGIFBRDADDR,
     OSIOCGIFNETMASK, SIOCGIFMETRIC, SIOCGIFADDR, SIOCGIFDSTADDR, SIOCGIFBRDADDR, SIOCGIFNETMASK,
     SIOCGIFADDR_ISO, SIOCGIFDSTADDR_ISO, SIOCGIFNETMASK_ISO]"

definition disk_cmds :: "u_int list" where
  "disk_cmds = [SAIOHDR, SAIOCHECK, SAIOHCHECK, SAIONOBAD, SAIODOBAD, SAIOECCLIM, SAIOECCUNL, SAIORETRIES,
     SAIODEVDATA, SAIOSSI, SAIONOSSI, SAIOSSDEV, SAIODEBUG, SAIOGBADINFO]"

lemma ioctl_values:
  "TIOCMODG = 0x40047403" "TIOCMODS = 0x80047404" "TIOCEXCL = 0x2000740d" "TIOCNXCL = 0x2000740e"
  "TIOCFLUSH = 0x80047410" "TIOCGETA = 0x402c7413" "TIOCSETA = 0x802c7414" "TIOCSETAW = 0x802c7415"
  "TIOCSETAF = 0x802c7416" "TIOCGETD = 0x4004741a" "TIOCSETD = 0x8004741b" "TIOCSBRK = 0x2000747b"
  "TIOCCBRK = 0x2000747a" "TIOCSDTR = 0x20007479" "TIOCCDTR = 0x20007478" "TIOCGPGRP = 0x40047477"
  "TIOCSPGRP = 0x80047476" "TIOCOUTQ = 0x40047473" "TIOCSTI = 0x80017472" "TIOCNOTTY = 0x20007471"
  "TIOCPKT = 0x80047470" "TIOCSTOP = 0x2000746f" "TIOCSTART = 0x2000746e" "TIOCMSET = 0x8004746d"
  "TIOCMBIS = 0x8004746c" "TIOCMBIC = 0x8004746b" "TIOCMGET = 0x4004746a" "TIOCREMOTE = 0x80047469"
  "TIOCGWINSZ = 0x40087468" "TIOCSWINSZ = 0x80087467" "TIOCUCNTL = 0x80047466" "TIOCCONS = 0x80047462"
  "TIOCSCTTY = 0x20007461" "TIOCEXT = 0x80047460" "TIOCSIG = 0x2000745f" "TIOCDRAIN = 0x2000745e"
  "FIOCLEX = 0x20006601" "FIONCLEX = 0x20006602" "FIONREAD = 0x4004667f" "FIONBIO = 0x8004667e"
  "FIOASYNC = 0x8004667d" "FIOSETOWN = 0x8004667c" "FIOGETOWN = 0x4004667b" "SIOCSHIWAT = 0x80047300"
  "SIOCGHIWAT = 0x40047301" "SIOCSLOWAT = 0x80047302" "SIOCGLOWAT = 0x40047303" "SIOCATMARK = 0x40047307"
  "SIOCSPGRP = 0x80047308" "SIOCGPGRP = 0x40047309" "SIOCADDRT = 0x8038720a" "SIOCDELRT = 0x8038720b"
  "OSIOCGIFADDR = 0xc020690d" "OSIOCGIFDSTADDR = 0xc020690f" "OSIOCGIFBRDADDR = 0xc0206912"
  "OSIOCGIFCONF = 0xc0106914" "OSIOCGIFNETMASK = 0xc0206915" "SIOCADDMULTI = 0x80206931"
  "SIOCDELMULTI = 0x80206932" "SIOCDIFADDR_ISO = 0x80306919" "SIOCAIFADDR_ISO = 0x8074691a"
  "SIOCGIFADDR_ISO = 0xc0306921" "SIOCGIFDSTADDR_ISO = 0xc0306922" "SIOCGIFNETMASK_ISO = 0xc0306925"
  "BIOCGBLEN = 0x40044266" "BIOCSBLEN = 0xc0044266" "BIOCSETF = 0x80104267" "BIOCFLUSH = 0x20004268"
  "BIOCPROMISC = 0x20004269" "BIOCGDLT = 0x4004426a" "BIOCGETIF = 0x4020426b" "BIOCSETIF = 0x8020426c"
  "BIOCSRTIMEOUT = 0x8008426d" "BIOCGRTIMEOUT = 0x4008426e" "BIOCGSTATS = 0x4008426f"
  "BIOCIMMEDIATE = 0x80044270" "BIOCVERSION = 0x40044271"
  by (simp_all add: tiocm_defs tioc1_defs tioc2_defs tioc3_defs fio_defs sioc_more sioc_iso bioc_defs ioc_defs push_bit_eq_mult)

text \<open>No two of the commands have the same code, so a \<open>switch\<close> over commands of any of the headers is
  unambiguous, and a command has no parameter exactly if its direction is \<open>IOC_VOID\<close>.  The codes of the
  stand-alone disk driver are none of these.\<close>

theorem ioctl_commands_distinct:
  "distinct (ioctl_cmds @ disk_cmds) \<and>
   list_all (\<lambda>c. (IOCPARM_LEN c = 0) = (c AND IOC_DIRMASK = IOC_VOID)) ioctl_cmds"
proof -
  have "successively (<) ioctl_cmds" by (simp add: ioctl_cmds_def ioctl_values sioc_values)
  then have d: "distinct ioctl_cmds" by (simp add: successively_conv_sorted_wrt strict_sorted_iff)
  have v: "list_all (\<lambda>c. 0x20000000 \<le> c) ioctl_cmds" by (simp add: ioctl_cmds_def ioctl_values sioc_values)
  have "successively (<) disk_cmds" by (simp add: disk_cmds_def saio_defs push_bit_eq_mult)
  then have s: "distinct disk_cmds" by (simp add: successively_conv_sorted_wrt strict_sorted_iff)
  have l: "list_all (\<lambda>c. c < 0x20000000) disk_cmds" by (simp add: disk_cmds_def saio_defs push_bit_eq_mult)
  have "set ioctl_cmds \<inter> set disk_cmds = {}" using v l by (fastforce simp: list_all_iff)
  moreover have "list_all (\<lambda>c. (IOCPARM_LEN c = 0) = (c AND IOC_DIRMASK = IOC_VOID)) ioctl_cmds"
    by (simp add: ioctl_cmds_def ioctl_values sioc_values IOCPARM_LEN_def IOCPARM_MASK_def IOC_DIRMASK_def
        IOC_VOID_def drop_bit_eq_div)
  ultimately show ?thesis using d s by simp
qed

end
