(* ===== verification/RouteTab.thy ===== *)
theory RouteTab
  imports Stubs Names DemoNet
begin

text \<open>
  Routing: the structures, flags and message types of \<open>net/route.h\<close> and the nodes of the radix tree of
  \<open>net/radix.h\<close>, with the macros of both.  \<open>MKGet\<close>, \<open>Bzero\<close> and, in the kernel variant,
  \<open>R_Malloc\<close> are left out: their parentheses do not balance, so no use of them compiles.
\<close>

section \<open>Routes\<close>

record sockaddr =
  so_len :: u_char
  so_family :: u_char
  so_data :: "u_char list"

record route =
  ro_rt :: addr
  ro_dst :: sockaddr

record ortentry =
  ort_hash :: u_long
  ort_dst :: sockaddr
  ort_gateway :: sockaddr
  ort_flags :: c_short
  ort_refcnt :: c_short
  ort_use :: u_long
  ort_ifp :: addr

definition RTF_DYNAMIC :: c_short where "RTF_DYNAMIC = 0x10"
definition RTF_MODIFIED :: c_short where "RTF_MODIFIED = 0x20"
definition RTF_DONE :: c_short where "RTF_DONE = 0x40"
definition RTF_MASK :: c_short where "RTF_MASK = 0x80"
definition RTF_CLONING :: c_short where "RTF_CLONING = 0x100"
definition RTF_XRESOLVE :: c_short where "RTF_XRESOLVE = 0x200"
definition RTF_LLINFO :: c_short where "RTF_LLINFO = 0x400"
definition RTF_STATIC :: c_short where "RTF_STATIC = 0x800"
definition RTF_PROTO2 :: c_short where "RTF_PROTO2 = 0x4000"
definition RTF_PROTO1 :: c_short where "RTF_PROTO1 = 0x8000"

lemmas rtf_more = RTF_DYNAMIC_def RTF_MODIFIED_def RTF_DONE_def RTF_MASK_def RTF_CLONING_def
  RTF_XRESOLVE_def RTF_LLINFO_def RTF_STATIC_def RTF_PROTO2_def RTF_PROTO1_def
definition RTF_USETRAILERS :: c_short where "RTF_USETRAILERS = RTF_PROTO1"
definition RTF_ANNOUNCE :: c_short where "RTF_ANNOUNCE = RTF_PROTO2"

record rtstat =
  rts_badredirect :: c_short
  rts_dynamic :: c_short
  rts_newgateway :: c_short
  rts_unreach :: c_short
  rts_wildcard :: c_short

record rt_msghdr =
  rtm_msglen :: u_short
  rtm_version :: u_char
  rtm_type :: u_char
  rtm_index :: u_short
  rtm_flags :: int
  rtm_addrs :: int
  rtm_pid :: int
  rtm_seq :: int
  rtm_errno :: int
  rtm_use :: int
  rtm_inits :: u_long
  rtm_rmx :: rt_metrics

definition RTM_VERSION :: int where "RTM_VERSION = 3"
definition RTM_CHANGE :: int where "RTM_CHANGE = 0x3"
definition RTM_GET :: int where "RTM_GET = 0x4"
definition RTM_LOSING :: int where "RTM_LOSING = 0x5"
definition RTM_REDIRECT :: int where "RTM_REDIRECT = 0x6"
definition RTM_MISS :: int where "RTM_MISS = 0x7"
definition RTM_LOCK :: int where "RTM_LOCK = 0x8"
definition RTM_OLDADD :: int where "RTM_OLDADD = 0x9"
definition RTM_OLDDEL :: int where "RTM_OLDDEL = 0xa"
definition RTM_RESOLVE :: int where "RTM_RESOLVE = 0xb"
definition RTM_NEWADDR :: int where "RTM_NEWADDR = 0xc"
definition RTM_DELADDR :: int where "RTM_DELADDR = 0xd"
definition RTM_IFINFO :: int where "RTM_IFINFO = 0xe"

lemmas rtm_defs = RTM_VERSION_def RTM_CHANGE_def RTM_GET_def RTM_LOSING_def RTM_REDIRECT_def RTM_MISS_def
  RTM_LOCK_def RTM_OLDADD_def RTM_OLDDEL_def RTM_RESOLVE_def RTM_NEWADDR_def RTM_DELADDR_def RTM_IFINFO_def
definition RTV_MTU :: u_long where "RTV_MTU = 0x1"
definition RTV_HOPCOUNT :: u_long where "RTV_HOPCOUNT = 0x2"
definition RTV_EXPIRE :: u_long where "RTV_EXPIRE = 0x4"
definition RTV_RPIPE :: u_long where "RTV_RPIPE = 0x8"
definition RTV_SPIPE :: u_long where "RTV_SPIPE = 0x10"
definition RTV_SSTHRESH :: u_long where "RTV_SSTHRESH = 0x20"
definition RTV_RTT :: u_long where "RTV_RTT = 0x40"
definition RTV_RTTVAR :: u_long where "RTV_RTTVAR = 0x80"

lemmas rtv_defs = RTV_MTU_def RTV_HOPCOUNT_def RTV_EXPIRE_def RTV_RPIPE_def RTV_SPIPE_def RTV_SSTHRESH_def
  RTV_RTT_def RTV_RTTVAR_def
definition RTA_DST :: u_int where "RTA_DST = 0x1"
definition RTA_GATEWAY :: u_int where "RTA_GATEWAY = 0x2"
definition RTA_NETMASK :: u_int where "RTA_NETMASK = 0x4"
definition RTA_GENMASK :: u_int where "RTA_GENMASK = 0x8"
definition RTA_IFP :: u_int where "RTA_IFP = 0x10"
definition RTA_IFA :: u_int where "RTA_IFA = 0x20"
definition RTA_AUTHOR :: u_int where "RTA_AUTHOR = 0x40"
definition RTA_BRD :: u_int where "RTA_BRD = 0x80"

lemmas rta_defs = RTA_DST_def RTA_GATEWAY_def RTA_NETMASK_def RTA_GENMASK_def RTA_IFP_def RTA_IFA_def
  RTA_AUTHOR_def RTA_BRD_def
definition RTAX_DST :: nat where "RTAX_DST = 0"
definition RTAX_GATEWAY :: nat where "RTAX_GATEWAY = 1"
definition RTAX_NETMASK :: nat where "RTAX_NETMASK = 2"
definition RTAX_GENMASK :: nat where "RTAX_GENMASK = 3"
definition RTAX_IFP :: nat where "RTAX_IFP = 4"
definition RTAX_IFA :: nat where "RTAX_IFA = 5"
definition RTAX_AUTHOR :: nat where "RTAX_AUTHOR = 6"
definition RTAX_BRD :: nat where "RTAX_BRD = 7"
definition RTAX_MAX :: nat where "RTAX_MAX = 8"

lemmas rtax_defs = RTAX_DST_def RTAX_GATEWAY_def RTAX_NETMASK_def RTAX_GENMASK_def RTAX_IFP_def RTAX_IFA_def
  RTAX_AUTHOR_def RTAX_BRD_def RTAX_MAX_def

record rt_addrinfo =
  rti_addrs :: int
  rti_info :: "addr list"

record route_cb =
  ip_count :: int
  ns_count :: int
  iso_count :: int
  any_count :: int

definition RTM_RTTUNIT :: u_long where "RTM_RTTUNIT = 1000000"
definition RTTTOPRHZ :: "u_long \<Rightarrow> u_long" where "RTTTOPRHZ r = r div (RTM_RTTUNIT div PR_SLOWHZ)"

definition RTFREE :: "net \<Rightarrow> addr \<Rightarrow> net option" where
  "RTFREE n rt = do { r \<leftarrow> ldrt n rt;
     if sint (rt_refcnt r) \<le> 1 then Some (rtfree n rt)
     else updrt n rt (\<lambda>r. r\<lparr>rt_refcnt := rt_refcnt r - 1\<rparr>) }"

section \<open>The radix tree\<close>

text \<open>The union of a node holds the three words of a leaf (key, mask, next with the same key) or the offset and
  the two children of an inner node; the names read the same words.\<close>

record radix_node =
  rn_mklist :: addr
  rn_p :: addr
  rn_b :: c_short
  rn_bmask :: u_char
  rn_flags :: u_char
  rn_u :: "addr \<times> addr \<times> addr"

definition rn_key :: "radix_node \<Rightarrow> addr" where "rn_key x = fst (rn_u x)"
definition rn_mask :: "radix_node \<Rightarrow> addr" where "rn_mask x = fst (snd (rn_u x))"
definition rn_dupedkey :: "radix_node \<Rightarrow> addr" where "rn_dupedkey x = snd (snd (rn_u x))"
definition rn_off :: "radix_node \<Rightarrow> u_int" where "rn_off x = word_of_nat (fst (rn_u x))"
definition rn_l :: "radix_node \<Rightarrow> addr" where "rn_l x = fst (snd (rn_u x))"
definition rn_r :: "radix_node \<Rightarrow> addr" where "rn_r x = snd (snd (rn_u x))"

definition RNF_NORMAL :: u_char where "RNF_NORMAL = 1"
definition RNF_ROOT :: u_char where "RNF_ROOT = 2"
definition RNF_ACTIVE :: u_char where "RNF_ACTIVE = 4"

lemmas rnf_defs = RNF_NORMAL_def RNF_ROOT_def RNF_ACTIVE_def

record radix_mask =
  rm_b :: c_short
  rm_unused :: u_char
  rm_flags :: u_char
  rm_mklist :: addr
  rm_mask :: addr
  rm_refs :: int

record radix_node_head =
  rnh_treetop :: addr
  rnh_addrsize :: int
  rnh_pktsize :: int
  rnh_addaddr :: nat
  rnh_addpkt :: nat
  rnh_deladdr :: nat
  rnh_delpkt :: nat
  rnh_matchaddr :: nat
  rnh_matchpkt :: nat
  rnh_walktree :: nat
  rnh_nodes :: "radix_node list"

text \<open>The list of free masks: the masks in memory and the head of the list.\<close>

definition MKFree :: "addr \<Rightarrow> (addr \<rightharpoonup> radix_mask) \<times> addr \<Rightarrow> ((addr \<rightharpoonup> radix_mask) \<times> addr) option" where
  "MKFree m = (\<lambda>(ms, rn_mkfreelist). case ms m of None \<Rightarrow> None
     | Some x \<Rightarrow> if m = 0 then None else Some (ms(m \<mapsto> x\<lparr>rm_mklist := rn_mkfreelist\<rparr>), m))"

section \<open>Properties\<close>

lemma rta_bits: "[RTA_DST, RTA_GATEWAY, RTA_NETMASK, RTA_GENMASK, RTA_IFP, RTA_IFA, RTA_AUTHOR, RTA_BRD] =
    map (\<lambda>i. push_bit i 1) [RTAX_DST, RTAX_GATEWAY, RTAX_NETMASK, RTAX_GENMASK, RTAX_IFP, RTAX_IFA, RTAX_AUTHOR, RTAX_BRD]
  \<and> [RTAX_DST, RTAX_GATEWAY, RTAX_NETMASK, RTAX_GENMASK, RTAX_IFP, RTAX_IFA, RTAX_AUTHOR, RTAX_BRD] = [0..<RTAX_MAX]"
  by (simp add: rta_defs rtax_defs upt_conv_Cons)

lemma union_words: "rn_l x = rn_mask x \<and> rn_r x = rn_dupedkey x \<and> rn_off x = word_of_nat (rn_key x)"
  by (simp add: rn_l_def rn_mask_def rn_r_def rn_dupedkey_def rn_off_def rn_key_def)

text \<open>A mask that is given back becomes the first of the free list, the rest of the list behind it.\<close>

lemma mkfree_chain:
  assumes "chain (\<lambda>p. map_option rm_mklist (ms p)) fl ps" "m \<notin> set ps" "ms m = Some x" "m \<noteq> 0"
  shows "\<exists>ms'. MKFree m (ms, fl) = Some (ms', m) \<and> chain (\<lambda>p. map_option rm_mklist (ms' p)) m (m # ps)"
proof -
  let ?ms = "ms(m \<mapsto> x\<lparr>rm_mklist := fl\<rparr>)"
  have "chain (\<lambda>p. map_option rm_mklist (?ms p)) fl ps \<longleftrightarrow> chain (\<lambda>p. map_option rm_mklist (ms p)) fl ps"
  proof (rule chain_cong)
    fix a assume "a \<in> set ps"
    then have "a \<noteq> m" using assms(2) by blast
    then show "map_option rm_mklist (?ms a) = map_option rm_mklist (ms a)" by simp
  qed
  with assms(1) have c: "chain (\<lambda>p. map_option rm_mklist (?ms p)) fl ps" by blast
  have "MKFree m (ms, fl) = Some (?ms, m)" using assms(3,4) by (simp add: MKFree_def)
  moreover have "chain (\<lambda>p. map_option rm_mklist (?ms p)) m (m # ps)"
    unfolding chain.simps(2) using c assms(4) by simp
  ultimately show ?thesis by blast
qed

primrec rtfrees :: "nat \<Rightarrow> addr \<Rightarrow> net \<Rightarrow> net option" where
  "rtfrees 0 rt n = Some n"
| "rtfrees (Suc k) rt n = RTFREE n rt \<bind> rtfrees k rt"

lemma sint_pred: "1 < sint c \<Longrightarrow> sint (c - 1) = sint c - 1" for c :: c_short
proof -
  assume c: "1 < sint c"
  have i: "-32768 \<le> sint c - 1 \<and> sint c - 1 < 32768" using c sint_lt [of c] by simp
  have "sint (word_of_int (sint c - 1) :: c_short) = sint c - 1"
    unfolding sint_sbintrunc' by (rule signed_take_bit_int_eq_self) (use i in simp_all)
  then show ?thesis by simp
qed

text \<open>C35: \<open>RTFREE\<close> counts references down to one and no further: \<open>rtfree\<close>, which it calls for the last one,
  has no body.  Released any number of times, a route stays where it is, with at least one reference, and
  nothing but its count has changed.\<close>

theorem rtfree_keeps_route:
  assumes "ldrt n rt = Some r" "1 \<le> sint (rt_refcnt r)"
  shows "\<exists>n' r'. rtfrees k rt n = Some n' \<and> ldrt n' rt = Some r' \<and> sint (rt_refcnt r') = max 1 (sint (rt_refcnt r) - int k) \<and>
    r'\<lparr>rt_refcnt := rt_refcnt r\<rparr> = r \<and> n'\<lparr>n_rt := n_rt n\<rparr> = n"
  using assms
proof (induction k arbitrary: n r)
  case 0
  then show ?case by simp
next
  case (Suc k)
  show ?case
  proof (cases "sint (rt_refcnt r) \<le> 1")
    case True
    then have "RTFREE n rt = Some n" using Suc.prems by (simp add: RTFREE_def rtfree_def)
    moreover have "max 1 (sint (rt_refcnt r) - int k) = max 1 (sint (rt_refcnt r) - int (Suc k))" using True Suc.prems by simp
    ultimately show ?thesis using Suc.IH [OF Suc.prems] by simp
  next
    case False
    let ?r = "r\<lparr>rt_refcnt := rt_refcnt r - 1\<rparr>"
    obtain n1 where n1: "RTFREE n rt = Some n1" "ldrt n1 rt = Some ?r" "n1\<lparr>n_rt := n_rt n\<rparr> = n"
      using Suc.prems False by (auto simp: RTFREE_def updrt_def ldrt_def split: if_splits)
    have s: "sint (rt_refcnt ?r) = sint (rt_refcnt r) - 1" using False sint_pred by simp
    then obtain n' r' where n': "rtfrees k rt n1 = Some n'" "ldrt n' rt = Some r'"
        "sint (rt_refcnt r') = max 1 (sint (rt_refcnt ?r) - int k)" "r'\<lparr>rt_refcnt := rt_refcnt ?r\<rparr> = ?r" "n'\<lparr>n_rt := n_rt n1\<rparr> = n1"
      using Suc.IH [OF n1(2)] False by auto
    have "r'\<lparr>rt_refcnt := rt_refcnt r\<rparr> = (r'\<lparr>rt_refcnt := rt_refcnt ?r\<rparr>)\<lparr>rt_refcnt := rt_refcnt r\<rparr>" by simp
    also have "\<dots> = r" unfolding n'(4) by simp
    finally have r: "r'\<lparr>rt_refcnt := rt_refcnt r\<rparr> = r" .
    have "n'\<lparr>n_rt := n_rt n\<rparr> = (n'\<lparr>n_rt := n_rt n1\<rparr>)\<lparr>n_rt := n_rt n\<rparr>" by simp
    also have "\<dots> = n" unfolding n'(5) n1(3) ..
    finally have "n'\<lparr>n_rt := n_rt n\<rparr> = n" .
    with n1(1) n'(1-3) s r show ?thesis by simp
  qed
qed

definition demo_rt :: rtentry where
  "demo_rt = \<lparr>rt_key = 0, rt_mask = 0, rt_gateway = 0, rt_flags = RTF_UP, rt_refcnt = 3, rt_use = 0, rt_ifp = 8,
     rt_ifa = 32768, rt_genmask = 0, rt_llinfo = 0, rt_rmx = \<lparr>rmx_locks = 0, rmx_mtu = 0, rmx_hopcount = 0,
     rmx_expire = 0, rmx_recvpipe = 0, rmx_sendpipe = 0, rmx_ssthresh = 0, rmx_rtt = 0, rmx_rttvar = 0,
     rmx_pksent = 0\<rparr>, rt_gwroute = 0\<rparr>"

theorem rtfree_keeps_route_witness:
  "\<exists>n r. rtfrees 5 64 (demo_net\<lparr>n_rt := [64 \<mapsto> demo_rt]\<rparr>) = Some n \<and> ldrt n 64 = Some r \<and> sint (rt_refcnt r) = 1"
proof -
  have r: "ldrt (demo_net\<lparr>n_rt := [64 \<mapsto> demo_rt]\<rparr>) 64 = Some demo_rt" by (simp add: ldrt_def)
  have c: "sint (rt_refcnt demo_rt) = 3" by (simp add: demo_rt_def)
  show ?thesis using rtfree_keeps_route [OF r, of 5] c by auto
qed

end
