(* ===== verification/Layout.thy ===== *)
theory Layout
  imports Boot Ioctls RouteTab
begin

text \<open>
  How the compilers of the project lay structures out in memory: every scalar at a multiple of its size,
  fields in the order of the declaration, a structure padded to its strictest alignment.  The size of a
  pointer is an argument \<open>P\<close>, four in the Win32 and eight in the x64 configuration of
  \<open>msvc/tcp_ip/tcp_ip.vcxproj\<close>; \<open>int\<close> and \<open>long\<close> have four bytes in both.  The lists of fields are those of
  the headers; two bit fields that share a byte are one field here.  From them the sizes and offsets
  follow that the packets on the wire need, that the comments of the headers state, and that the model
  and its command codes use.
\<close>

section \<open>Types and their layout\<close>

datatype ctype = CInt nat | CPtr | CArr ctype nat | CStruct "(string \<times> ctype) list" | CUnion "(string \<times> ctype) list"

definition round_up :: "nat \<Rightarrow> nat \<Rightarrow> nat" where "round_up a n = (n + a - 1) div a * a"

fun calign :: "nat \<Rightarrow> ctype \<Rightarrow> nat" and calign_fields :: "nat \<Rightarrow> (string \<times> ctype) list \<Rightarrow> nat" where
  "calign P (CInt k) = k"
| "calign P CPtr = P"
| "calign P (CArr t n) = calign P t"
| "calign P (CStruct fs) = calign_fields P fs"
| "calign P (CUnion fs) = calign_fields P fs"
| "calign_fields P [] = 1"
| "calign_fields P ((f, t) # fs) = max (calign P t) (calign_fields P fs)"

text \<open>\<open>cend\<close> is where the fields end when they start at \<open>n\<close>, \<open>cmax\<close> the size of the largest.\<close>

fun csize :: "nat \<Rightarrow> ctype \<Rightarrow> nat" and cend :: "nat \<Rightarrow> (string \<times> ctype) list \<Rightarrow> nat \<Rightarrow> nat"
    and cmax :: "nat \<Rightarrow> (string \<times> ctype) list \<Rightarrow> nat" where
  "csize P (CInt k) = k"
| "csize P CPtr = P"
| "csize P (CArr t n) = n * csize P t"
| "csize P (CStruct fs) = round_up (calign_fields P fs) (cend P fs 0)"
| "csize P (CUnion fs) = round_up (calign_fields P fs) (cmax P fs)"
| "cend P [] n = n"
| "cend P ((f, t) # fs) n = cend P fs (round_up (calign P t) n + csize P t)"
| "cmax P [] = 0"
| "cmax P ((f, t) # fs) = max (csize P t) (cmax P fs)"

fun offs :: "nat \<Rightarrow> (string \<times> ctype) list \<Rightarrow> nat \<Rightarrow> (string \<times> nat) list" where
  "offs P [] n = []"
| "offs P ((f, t) # fs) n = (let a = round_up (calign P t) n in (f, a) # offs P fs (a + csize P t))"

fun offset_of :: "nat \<Rightarrow> ctype \<Rightarrow> string \<Rightarrow> nat option" where
  "offset_of P (CStruct fs) f = map_of (offs P fs 0) f"
| "offset_of P (CUnion fs) f = (if f \<in> fst ` set fs then Some 0 else None)"
| "offset_of P t f = None"

definition offsets :: "nat \<Rightarrow> ctype \<Rightarrow> nat list" where
  "offsets P t = (case t of CStruct fs \<Rightarrow> map snd (offs P fs 0) | _ \<Rightarrow> [])"

text \<open>A field lies at a multiple of its alignment, behind the fields before it, and inside the structure.\<close>

lemma round_up_ge: "0 < a \<Longrightarrow> n \<le> round_up a n"
proof -
  assume a: "0 < a"
  have "(n + a - 1) div a * a + (n + a - 1) mod a = n + a - 1" by (rule div_mult_mod_eq)
  moreover have "(n + a - 1) mod a < a" using a by simp
  ultimately show ?thesis unfolding round_up_def using a by linarith
qed

lemma round_up_dvd: "a dvd round_up a n"
  by (simp add: round_up_def)

fun aligned_type :: "nat \<Rightarrow> ctype \<Rightarrow> bool" and aligned_fields :: "nat \<Rightarrow> (string \<times> ctype) list \<Rightarrow> bool" where
  "aligned_type P (CInt k) \<longleftrightarrow> 0 < k"
| "aligned_type P CPtr \<longleftrightarrow> 0 < P"
| "aligned_type P (CArr t n) \<longleftrightarrow> aligned_type P t"
| "aligned_type P (CStruct fs) \<longleftrightarrow> aligned_fields P fs"
| "aligned_type P (CUnion fs) \<longleftrightarrow> aligned_fields P fs"
| "aligned_fields P [] \<longleftrightarrow> True"
| "aligned_fields P ((f, t) # fs) \<longleftrightarrow> aligned_type P t \<and> aligned_fields P fs"

lemma calign_pos: "aligned_type P t \<Longrightarrow> 0 < calign P t" "aligned_fields P fs \<Longrightarrow> 0 < calign_fields P fs"
  by (induction P t and P fs rule: calign_calign_fields.induct) auto

lemma cend_ge: "aligned_fields P fs \<Longrightarrow> n \<le> cend P fs n"
proof (induction fs arbitrary: n)
  case (Cons x fs)
  obtain f t where x: "x = (f, t)" by (cases x)
  have "n \<le> round_up (calign P t) n" using Cons.prems calign_pos(1) x by (intro round_up_ge) auto
  also have "\<dots> \<le> cend P fs (round_up (calign P t) n + csize P t)"
    using Cons.IH [of "round_up (calign P t) n + csize P t"] Cons.prems x by auto
  finally show ?case using x by simp
qed simp

lemma offs_split: "offs P (gs @ (f, t) # fs) n =
    offs P gs n @ (f, round_up (calign P t) (cend P gs n)) # offs P fs (round_up (calign P t) (cend P gs n) + csize P t)"
  by (induction gs arbitrary: n) (auto simp: Let_def)

lemma cend_append: "cend P (gs @ fs) n = cend P fs (cend P gs n)"
  by (induction gs arbitrary: n) auto

lemma field_place:
  assumes "aligned_fields P (gs @ (f, t) # fs)" "a = round_up (calign P t) (cend P gs 0)"
  shows "calign P t dvd a \<and> cend P gs 0 \<le> a \<and> a + csize P t \<le> csize P (CStruct (gs @ (f, t) # fs))"
proof -
  let ?all = "gs @ (f, t) # fs"
  have ap: "aligned_fields P (as @ bs) \<longleftrightarrow> aligned_fields P as \<and> aligned_fields P bs" for as bs
    by (induction as) auto
  have p: "aligned_type P t" "aligned_fields P fs" using assms(1) by (auto simp: ap)
  have "a + csize P t \<le> cend P ?all 0" using cend_ge [OF p(2)] assms(2) by (simp add: cend_append)
  also have "\<dots> \<le> csize P (CStruct ?all)" using calign_pos(2) [OF assms(1)] round_up_ge by simp
  finally show ?thesis using assms(2) round_up_dvd round_up_ge [OF calign_pos(1) [OF p(1)]] by simp
qed

section \<open>Addresses, packets and headers\<close>

definition ct_in_addr :: ctype where
  "ct_in_addr = CStruct
    [(''s_addr'', CInt 4)]"

definition ct_sockaddr :: ctype where
  "ct_sockaddr = CStruct
    [(''sa_len'', CInt 1),
     (''sa_family'', CInt 1),
     (''sa_data'', CArr (CInt 1) 14)]"

definition ct_sockaddr_in :: ctype where
  "ct_sockaddr_in = CStruct
    [(''sin_len'', CInt 1),
     (''sin_family'', CInt 1),
     (''sin_port'', CInt 2),
     (''sin_addr'', ct_in_addr),
     (''sin_zero'', CArr (CInt 1) 8)]"

definition ct_sockaddr_dl :: ctype where
  "ct_sockaddr_dl = CStruct
    [(''sdl_len'', CInt 1),
     (''sdl_family'', CInt 1),
     (''sdl_index'', CInt 2),
     (''sdl_type'', CInt 1),
     (''sdl_nlen'', CInt 1),
     (''sdl_alen'', CInt 1),
     (''sdl_slen'', CInt 1),
     (''sdl_data'', CArr (CInt 1) 12)]"

definition ct_ether_header :: ctype where
  "ct_ether_header = CStruct
    [(''ether_dhost'', CArr (CInt 1) 6),
     (''ether_shost'', CArr (CInt 1) 6),
     (''ether_type'', CInt 2)]"

definition ct_arphdr :: ctype where
  "ct_arphdr = CStruct
    [(''ar_hrd'', CInt 2),
     (''ar_pro'', CInt 2),
     (''ar_hln'', CInt 1),
     (''ar_pln'', CInt 1),
     (''ar_op'', CInt 2)]"

definition ct_ether_arp :: ctype where
  "ct_ether_arp = CStruct
    [(''ea_hdr'', ct_arphdr),
     (''arp_sha'', CArr (CInt 1) 6),
     (''arp_spa'', CArr (CInt 1) 4),
     (''arp_tha'', CArr (CInt 1) 6),
     (''arp_tpa'', CArr (CInt 1) 4)]"

definition ct_arpreq :: ctype where
  "ct_arpreq = CStruct
    [(''arp_pa'', ct_sockaddr),
     (''arp_ha'', ct_sockaddr),
     (''arp_flags'', CInt 4)]"

definition ct_llinfo_arp :: ctype where
  "ct_llinfo_arp = CStruct
    [(''la_next'', CPtr),
     (''la_prev'', CPtr),
     (''la_rt'', CPtr),
     (''la_hold'', CPtr),
     (''la_asked'', CInt 4)]"

definition ct_sockaddr_inarp :: ctype where
  "ct_sockaddr_inarp = CStruct
    [(''sin_len'', CInt 1),
     (''sin_family'', CInt 1),
     (''sin_port'', CInt 2),
     (''sin_addr'', ct_in_addr),
     (''sin_srcaddr'', ct_in_addr),
     (''sin_tos'', CInt 2),
     (''sin_other'', CInt 2)]"

definition ct_ip :: ctype where
  "ct_ip = CStruct
    [(''ip_hl_ip_v'', CInt 1),
     (''ip_tos'', CInt 1),
     (''ip_len'', CInt 2),
     (''ip_id'', CInt 2),
     (''ip_off'', CInt 2),
     (''ip_ttl'', CInt 1),
     (''ip_p'', CInt 1),
     (''ip_sum'', CInt 2),
     (''ip_src'', ct_in_addr),
     (''ip_dst'', ct_in_addr)]"

definition ct_ip_timestamp :: ctype where
  "ct_ip_timestamp = CStruct
    [(''ipt_code'', CInt 1),
     (''ipt_len'', CInt 1),
     (''ipt_ptr'', CInt 1),
     (''ipt_flg_ipt_oflw'', CInt 1),
     (''ipt_timestamp'', CUnion [(''ipt_time'', CArr (CInt 4) 1), (''ipt_ta'', CArr (CStruct [(''ipt_addr'', ct_in_addr), (''ipt_time'', CInt 4)]) 1)])]"

definition ct_ipovly :: ctype where
  "ct_ipovly = CStruct
    [(''ih_next'', CPtr),
     (''ih_prev'', CPtr),
     (''ih_x1'', CInt 1),
     (''ih_pr'', CInt 1),
     (''ih_len'', CInt 2),
     (''ih_src'', ct_in_addr),
     (''ih_dst'', ct_in_addr)]"

definition ct_ipq :: ctype where
  "ct_ipq = CStruct
    [(''next'', CPtr),
     (''prev'', CPtr),
     (''ipq_ttl'', CInt 1),
     (''ipq_p'', CInt 1),
     (''ipq_id'', CInt 2),
     (''ipq_next'', CPtr),
     (''ipq_prev'', CPtr),
     (''ipq_src'', ct_in_addr),
     (''ipq_dst'', ct_in_addr)]"

definition ct_ipasfrag :: ctype where
  "ct_ipasfrag = CStruct
    [(''ip_hl_ip_v'', CInt 1),
     (''ipf_mff'', CInt 1),
     (''ip_len'', CInt 2),
     (''ip_id'', CInt 2),
     (''ip_off'', CInt 2),
     (''ip_ttl'', CInt 1),
     (''ip_p'', CInt 1),
     (''ip_sum'', CInt 2),
     (''ipf_next'', CPtr),
     (''ipf_prev'', CPtr)]"

definition ct_ipoption :: ctype where
  "ct_ipoption = CStruct
    [(''ipopt_dst'', ct_in_addr),
     (''ipopt_list'', CArr (CInt 1) 40)]"

definition ct_ip_moptions :: ctype where
  "ct_ip_moptions = CStruct
    [(''imo_multicast_ifp'', CPtr),
     (''imo_multicast_ttl'', CInt 1),
     (''imo_multicast_loop'', CInt 1),
     (''imo_num_memberships'', CInt 2),
     (''imo_membership'', CArr CPtr 20)]"

definition ct_ip_mreq :: ctype where
  "ct_ip_mreq = CStruct
    [(''imr_multiaddr'', ct_in_addr),
     (''imr_interface'', ct_in_addr)]"

definition ct_ip_opts :: ctype where
  "ct_ip_opts = CStruct
    [(''ip_dst'', ct_in_addr),
     (''ip_opts'', CArr (CInt 1) 40)]"

definition ct_ip_srcrt :: ctype where
  "ct_ip_srcrt = CStruct
    [(''dst'', ct_in_addr),
     (''nop'', CInt 1),
     (''srcopt'', CArr (CInt 1) 3),
     (''route'', CArr ct_in_addr 10)]"


section \<open>Buffers, interfaces and devices\<close>

definition ct_timeval :: ctype where
  "ct_timeval = CStruct
    [(''tv_sec'', CInt 4),
     (''tv_usec'', CInt 4)]"

definition ct_m_hdr :: ctype where
  "ct_m_hdr = CStruct
    [(''mh_next'', CPtr),
     (''mh_nextpkt'', CPtr),
     (''mh_len'', CInt 4),
     (''mh_data'', CPtr),
     (''mh_type'', CInt 2),
     (''mh_flags'', CInt 2)]"

definition ct_pkthdr :: ctype where
  "ct_pkthdr = CStruct
    [(''len'', CInt 4),
     (''rcvif'', CPtr)]"

definition ct_m_ext :: ctype where
  "ct_m_ext = CStruct
    [(''ext_buf'', CPtr),
     (''ext_free'', CPtr),
     (''ext_size'', CInt 4)]"


text \<open>The arrays of an mbuf fill it up to \<open>MSIZE\<close>.\<close>

definition ct_mbuf :: "nat \<Rightarrow> ctype" where
  "ct_mbuf P =
     (let mlen = nat MSIZE - csize P ct_m_hdr; mhlen = mlen - csize P ct_pkthdr in
      CStruct [(''m_hdr'', ct_m_hdr),
        (''M_dat'', CUnion
          [(''MH'', CStruct [(''MH_pkthdr'', ct_pkthdr),
             (''MH_dat'', CUnion [(''MH_ext'', ct_m_ext), (''MH_databuf'', CArr (CInt 1) mhlen)])]),
           (''M_databuf'', CArr (CInt 1) mlen)])])"

definition ct_if_data :: ctype where
  "ct_if_data = CStruct
    [(''ifi_type'', CInt 1),
     (''ifi_addrlen'', CInt 1),
     (''ifi_hdrlen'', CInt 1),
     (''ifi_mtu'', CInt 4),
     (''ifi_metric'', CInt 4),
     (''ifi_baudrate'', CInt 4),
     (''ifi_ipackets'', CInt 4),
     (''ifi_ierrors'', CInt 4),
     (''ifi_opackets'', CInt 4),
     (''ifi_oerrors'', CInt 4),
     (''ifi_collisions'', CInt 4),
     (''ifi_ibytes'', CInt 4),
     (''ifi_obytes'', CInt 4),
     (''ifi_imcasts'', CInt 4),
     (''ifi_omcasts'', CInt 4),
     (''ifi_iqdrops'', CInt 4),
     (''ifi_noproto'', CInt 4),
     (''ifi_lastchange'', ct_timeval)]"

definition ct_ifqueue :: ctype where
  "ct_ifqueue = CStruct
    [(''ifq_head'', CPtr),
     (''ifq_tail'', CPtr),
     (''ifq_len'', CInt 4),
     (''ifq_maxlen'', CInt 4),
     (''ifq_drops'', CInt 4)]"

definition ct_if_msghdr :: ctype where
  "ct_if_msghdr = CStruct
    [(''ifm_msglen'', CInt 2),
     (''ifm_version'', CInt 1),
     (''ifm_type'', CInt 1),
     (''ifm_addrs'', CInt 4),
     (''ifm_flags'', CInt 4),
     (''ifm_index'', CInt 2),
     (''ifm_data'', ct_if_data)]"

definition ct_ifa_msghdr :: ctype where
  "ct_ifa_msghdr = CStruct
    [(''ifam_msglen'', CInt 2),
     (''ifam_version'', CInt 1),
     (''ifam_type'', CInt 1),
     (''ifam_addrs'', CInt 4),
     (''ifam_flags'', CInt 4),
     (''ifam_index'', CInt 2),
     (''ifam_metric'', CInt 4)]"

definition ct_ifreq :: ctype where
  "ct_ifreq = CStruct
    [(''ifr_name'', CArr (CInt 1) 16),
     (''ifr_ifru'', CUnion [(''ifru_addr'', ct_sockaddr), (''ifru_dstaddr'', ct_sockaddr), (''ifru_broadaddr'', ct_sockaddr), (''ifru_flags'', CInt 2), (''ifru_metric'', CInt 4), (''ifru_data'', CPtr)])]"

definition ct_ifaliasreq :: ctype where
  "ct_ifaliasreq = CStruct
    [(''ifra_name'', CArr (CInt 1) 16),
     (''ifra_addr'', ct_sockaddr_in),
     (''ifra_broadaddr'', ct_sockaddr_in),
     (''ifra_mask'', ct_sockaddr_in)]"

definition ct_ifconf :: ctype where
  "ct_ifconf = CStruct
    [(''ifc_len'', CInt 4),
     (''ifc_ifcu'', CUnion [(''ifcu_buf'', CPtr), (''ifcu_req'', CPtr)])]"

definition ct_protosw :: ctype where
  "ct_protosw = CStruct
    [(''pr_type'', CInt 2),
     (''pr_domain'', CPtr),
     (''pr_protocol'', CInt 2),
     (''pr_flags'', CInt 2),
     (''pr_input'', CPtr),
     (''pr_output'', CPtr),
     (''pr_ctlinput'', CPtr),
     (''pr_ctloutput'', CPtr),
     (''pr_usrreq'', CPtr),
     (''pr_init'', CPtr),
     (''pr_fasttimo'', CPtr),
     (''pr_slowtimo'', CPtr),
     (''pr_drain'', CPtr),
     (''pr_sysctl'', CPtr)]"

definition ct_lereg0 :: ctype where
  "ct_lereg0 = CStruct
    [(''ler0_pad0'', CInt 1),
     (''ler0_id'', CInt 1),
     (''ler0_pad1'', CInt 1),
     (''ler0_status'', CInt 1)]"

definition ct_lereg1 :: ctype where
  "ct_lereg1 = CStruct
    [(''ler1_rdp'', CInt 2),
     (''ler1_rap'', CInt 2)]"

definition ct_lereg2 :: ctype where
  "ct_lereg2 = CStruct
    [(''ler2_mode'', CInt 2),
     (''ler2_padr'', CArr (CInt 1) 6),
     (''ler2_ladrf'', CArr (CInt 4) 2),
     (''ler2_rdra'', CInt 2),
     (''ler2_rlen'', CInt 2),
     (''ler2_tdra'', CInt 2),
     (''ler2_tlen'', CInt 2),
     (''ler2_rmd'', CArr (CStruct [(''rmd0'', CInt 2), (''rmd1'', CInt 2), (''rmd2'', CInt 2), (''rmd3'', CInt 2)]) 8),
     (''ler2_tmd'', CArr (CStruct [(''tmd0'', CInt 2), (''tmd1'', CInt 2), (''tmd2'', CInt 2), (''tmd3'', CInt 2)]) 2),
     (''ler2_rbuf'', CArr (CArr (CInt 1) 1518) 8),
     (''ler2_tbuf'', CArr (CArr (CInt 1) 1518) 2)]"

definition ct_winsize :: ctype where
  "ct_winsize = CStruct
    [(''ws_row'', CInt 2),
     (''ws_col'', CInt 2),
     (''ws_xpixel'', CInt 2),
     (''ws_ypixel'', CInt 2)]"

definition ct_termios :: ctype where
  "ct_termios = CStruct
    [(''c_iflag'', CInt 4),
     (''c_oflag'', CInt 4),
     (''c_cflag'', CInt 4),
     (''c_lflag'', CInt 4),
     (''c_cc'', CArr (CInt 1) 20),
     (''c_ispeed'', CInt 4),
     (''c_ospeed'', CInt 4)]"


section \<open>Filter, routing, OSI\<close>

definition ct_bpf_insn :: ctype where
  "ct_bpf_insn = CStruct
    [(''code'', CInt 2),
     (''jt'', CInt 1),
     (''jf'', CInt 1),
     (''k'', CInt 4)]"

definition ct_bpf_program :: ctype where
  "ct_bpf_program = CStruct
    [(''bf_len'', CInt 4),
     (''bf_insns'', CPtr)]"

definition ct_bpf_stat :: ctype where
  "ct_bpf_stat = CStruct
    [(''bs_recv'', CInt 4),
     (''bs_drop'', CInt 4)]"

definition ct_bpf_version :: ctype where
  "ct_bpf_version = CStruct
    [(''bv_major'', CInt 2),
     (''bv_minor'', CInt 2)]"

definition ct_bpf_hdr :: ctype where
  "ct_bpf_hdr = CStruct
    [(''bh_tstamp'', ct_timeval),
     (''bh_caplen'', CInt 4),
     (''bh_datalen'', CInt 4),
     (''bh_hdrlen'', CInt 2)]"

definition ct_ortentry :: ctype where
  "ct_ortentry = CStruct
    [(''rt_hash'', CInt 4),
     (''rt_dst'', ct_sockaddr),
     (''rt_gateway'', ct_sockaddr),
     (''rt_flags'', CInt 2),
     (''rt_refcnt'', CInt 2),
     (''rt_use'', CInt 4),
     (''rt_ifp'', CPtr)]"

definition ct_iso_addr :: ctype where
  "ct_iso_addr = CStruct
    [(''isoa_len'', CInt 1),
     (''isoa_genaddr'', CArr (CInt 1) 20)]"

definition ct_sockaddr_iso :: ctype where
  "ct_sockaddr_iso = CStruct
    [(''siso_len'', CInt 1),
     (''siso_family'', CInt 1),
     (''siso_plen'', CInt 1),
     (''siso_slen'', CInt 1),
     (''siso_tlen'', CInt 1),
     (''siso_addr'', ct_iso_addr),
     (''siso_pad'', CArr (CInt 1) 6)]"

definition ct_iso_aliasreq :: ctype where
  "ct_iso_aliasreq = CStruct
    [(''ifra_name'', CArr (CInt 1) 16),
     (''ifra_addr'', ct_sockaddr_iso),
     (''ifra_dstaddr'', ct_sockaddr_iso),
     (''ifra_mask'', ct_sockaddr_iso),
     (''ifra_snpaoffset'', CInt 4)]"

definition ct_iso_ifreq :: ctype where
  "ct_iso_ifreq = CStruct
    [(''ifr_name'', CArr (CInt 1) 16),
     (''ifr_Addr'', ct_sockaddr_iso)]"

definition ct_llc_etherhdr :: ctype where
  "ct_llc_etherhdr = CStruct
    [(''dst'', CArr (CInt 1) 6),
     (''src'', CArr (CInt 1) 6),
     (''len'', CArr (CInt 1) 2),
     (''llc_dsap'', CInt 1),
     (''llc_ssap'', CInt 1),
     (''llc_ui_byte'', CInt 1)]"

definition ct_snpa_hdr :: ctype where
  "ct_snpa_hdr = CStruct
    [(''snh_ifp'', CPtr),
     (''snh_dhost'', CArr (CInt 1) 6),
     (''snh_shost'', CArr (CInt 1) 6),
     (''snh_flags'', CInt 2)]"


section \<open>Properties\<close>

lemmas layout_simps = round_up_def offsets_def Let_def

lemmas ct_defs = ct_in_addr_def ct_sockaddr_def ct_sockaddr_in_def ct_sockaddr_dl_def ct_ether_header_def ct_arphdr_def
  ct_ether_arp_def ct_ip_def ct_ip_timestamp_def ct_ipovly_def ct_ipq_def ct_ipasfrag_def ct_ipoption_def
  ct_ip_moptions_def ct_timeval_def ct_m_hdr_def ct_pkthdr_def ct_m_ext_def ct_mbuf_def ct_if_data_def ct_ifreq_def
  ct_ifaliasreq_def ct_ifconf_def ct_protosw_def ct_lereg0_def ct_lereg1_def ct_lereg2_def ct_winsize_def ct_termios_def
  ct_bpf_program_def ct_bpf_stat_def ct_bpf_version_def ct_bpf_hdr_def ct_bpf_insn_def ct_ortentry_def ct_iso_addr_def
  ct_sockaddr_iso_def ct_ip_srcrt_def ct_iso_ifreq_def ct_iso_aliasreq_def

text \<open>The structures that are laid over packets have the offsets of the protocols, without padding, whatever
  the size of a pointer: the IP header those of RFC 791, the Ethernet header and the ARP packet those of
  RFC 826.  A socket address with an internet address is as long as a general one, and the size of an OSI
  address is the 32 bytes its comment states.\<close>

theorem wire_layout:
  "offsets P ct_ip = [0, 1, 2, 4, 6, 8, 9, 10, 12, 16] \<and> csize P ct_ip = 20 \<and>
   offsets P ct_ether_header = [0, 6, 12] \<and> csize P ct_ether_header = 14 \<and>
   offsets P ct_arphdr = [0, 2, 4, 5, 6] \<and> csize P ct_arphdr = 8 \<and>
   offsets P ct_ether_arp = [0, 8, 14, 18, 24] \<and> csize P ct_ether_arp = 28 \<and>
   offsets P ct_ip_timestamp = [0, 1, 2, 3, 4] \<and> csize P ct_ipoption = 44 \<and>
   csize P ct_sockaddr_in = csize P ct_sockaddr \<and> offset_of P ct_sockaddr_in ''sin_addr'' = Some 4 \<and>
   csize P ct_sockaddr_iso = 32"
  by (simp add: layout_simps ct_defs numeral_2_eq_2 [symmetric] del: numeral_2_eq_2)

text \<open>The shared memory of the LANCE: the offsets of the comments in \<open>if_lereg.h\<close>, 15284 bytes in all, within
  the 16 kilobytes of the memory and with descriptors of eight bytes; the offsets that the model of the
  driver uses are these.\<close>

theorem lance_ram_layout:
  "offsets P ct_lereg2 = [0x0000, 0x0002, 0x0008, 0x0010, 0x0012, 0x0014, 0x0016, 0x0018, 0x0058, 0x0068, 0x2fd8] \<and>
   csize P ct_lereg2 = 15284 \<and> csize P ct_lereg2 \<le> 16 * 1024 \<and> csize P ct_lereg0 = 4 \<and> csize P ct_lereg1 = 4 \<and>
   [Some (ler2_rmd p k), Some (ler2_tmd p k), Some (ler2_rbuf p k), Some (ler2_tbuf p k)] =
     map (\<lambda>(f, n). map_option (\<lambda>a. p + a + n * k) (offset_of P ct_lereg2 f))
       [(''ler2_rmd'', 8), (''ler2_tmd'', 8), (''ler2_rbuf'', LEMTU), (''ler2_tbuf'', LEMTU)] \<and>
   ler2_rmd p LERBUF = ler2_tmd p 0 \<and> ler2_rbuf p LERBUF = ler2_tbuf p 0 \<and>
   ler2_tbuf p (nat LETBUF) = p + csize P ct_lereg2"
proof -
  note d = layout_simps ct_defs numeral_2_eq_2 [symmetric]
  have o: "offsets P ct_lereg2 = [0x0000, 0x0002, 0x0008, 0x0010, 0x0012, 0x0014, 0x0016, 0x0018, 0x0058, 0x0068, 0x2fd8]"
      "csize P ct_lereg2 = 15284" "csize P ct_lereg0 = 4" "csize P ct_lereg1 = 4"
    by (simp_all add: d del: numeral_2_eq_2)
  have f: "map (offset_of P ct_lereg2) [''ler2_rmd'', ''ler2_tmd'', ''ler2_rbuf'', ''ler2_tbuf''] =
      map Some [0x18, 0x58, 0x68, 0x2fd8]"
    by (simp add: d del: numeral_2_eq_2)
  show ?thesis using o f
    by (simp add: ler2_rmd_def ler2_tmd_def ler2_rbuf_def ler2_tbuf_def LEMTU_def LERBUF_def LETBUF_def)
qed

definition sized_cmds :: "u_int list" where
  "sized_cmds = [SIOCGIFCONF, SIOCGIFADDR, SIOCAIFADDR, SIOCADDRT, SIOCGIFADDR_ISO, SIOCAIFADDR_ISO, BIOCSETF,
     BIOCGSTATS, BIOCVERSION, BIOCSRTIMEOUT, TIOCGETA, TIOCSWINSZ]"
definition cmd_args :: "ctype list" where
  "cmd_args = [ct_ifconf, ct_ifreq, ct_ifaliasreq, ct_ortentry, ct_iso_ifreq, ct_iso_aliasreq, ct_bpf_program,
     ct_bpf_stat, ct_bpf_version, ct_timeval, ct_termios, ct_winsize]"

text \<open>The sizes and offsets that the model uses, and that command codes of the terminal, filter and interface
  requests carry, are those of the 64-bit layout; an mbuf has \<open>MSIZE\<close> bytes in both configurations.\<close>

theorem model_layout:
  "int (csize 8 ct_m_hdr) = sizeof_m_hdr \<and> int (csize 8 ct_pkthdr) = sizeof_pkthdr \<and>
   offset_of 8 ct_m_hdr ''mh_data'' = Some 24 \<and> offset_of 8 ct_m_hdr ''mh_flags'' = Some 34 \<and>
   int (csize 8 (ct_mbuf 8)) = MSIZE \<and> int (csize 4 (ct_mbuf 4)) = MSIZE \<and>
   csize 8 ct_sockaddr = sizeof_sockaddr \<and> csize 8 ct_sockaddr_dl = sizeof_sockaddr_dl \<and>
   csize 8 ct_protosw = sizeof_protosw \<and> csize 8 ct_ether_header = sizeof_ether_header \<and>
   map IOCPARM_LEN sized_cmds = map (\<lambda>t. word_of_nat (csize 8 t)) cmd_args"
proof -
  have cmds: "map IOCPARM_LEN sized_cmds = map (\<lambda>t. word_of_nat (csize 8 t)) cmd_args"
    by (simp add: sized_cmds_def cmd_args_def ioctl_values sioc_values IOCPARM_LEN_def IOCPARM_MASK_def drop_bit_eq_div)
      (simp add: layout_simps ct_defs numeral_2_eq_2 [symmetric] del: numeral_2_eq_2)
  have mbuf: "int (csize 8 (ct_mbuf 8)) = MSIZE" "int (csize 4 (ct_mbuf 4)) = MSIZE"
    by (simp_all add: layout_simps ct_defs MSIZE_def numeral_2_eq_2 [symmetric] del: numeral_2_eq_2)
  show ?thesis using cmds mbuf
    by (simp add: layout_simps ct_defs sizeof_sockaddr_def sizeof_sockaddr_dl_def sizeof_protosw_def
        sizeof_ether_header_def numeral_2_eq_2 [symmetric] del: numeral_2_eq_2)
qed

text \<open>What the comments of \<open>ip_var.h\<close> and \<open>in.h\<close> demand holds with pointers of four bytes and fails with
  pointers of eight: there a fragment and its queue have their links at different offsets, the overlay is
  longer than the header it is laid over, and the multicast options do not fit into one mbuf.\<close>

lemma ip_overlays:
  "offset_of 4 ct_ipq ''ipq_next'' = offset_of 4 ct_ipasfrag ''ipf_next'' \<and> csize 4 ct_ipovly = csize 4 ct_ip \<and>
   csize 4 ct_ip_moptions \<le> nat MSIZE - csize 4 ct_m_hdr \<and>
   offset_of 8 ct_ipq ''ipq_next'' = Some 24 \<and> offset_of 8 ct_ipasfrag ''ipf_next'' = Some 16 \<and>
   csize 8 ct_ip < csize 8 ct_ipovly \<and> int (csize 8 ct_ip_moptions) > MLEN"
  by (simp add: layout_simps ct_defs numeral_2_eq_2 [symmetric] del: numeral_2_eq_2)

text \<open>The header of a captured packet has 18 bytes of fields, but the compiler pads it to 20.\<close>

lemma bpf_hdr_padded: "cend P [(''h'', ct_timeval), (''c'', CInt 4), (''d'', CInt 4), (''l'', CInt 2)] 0 = nat SIZEOF_BPF_HDR
    \<and> csize P ct_bpf_hdr = 20"
  by (simp add: layout_simps ct_defs SIZEOF_BPF_HDR_def)

end
