(* ===== verification/IpHdr.thy ===== *)
theory IpHdr
  imports Names Inet Net
begin

text \<open>
  The internet protocol: the numbers and structures of \<open>netinet/in.h\<close>, \<open>netinet/ip.h\<close>,
  \<open>netinet/ip_var.h\<close> and \<open>netinet/in_systm.h\<close>, and the variables of \<open>netinet/ip_input.c\<close> with their initial
  values.  The functions of \<open>ip_input.c\<close>, all without bodies, are in \<open>Stubs\<close>; the layout of the structures is
  in \<open>Layout\<close>.  \<open>CTLTYPE_NODE\<close> and \<open>CTLTYPE_INT\<close> are defined nowhere in the repository and are arguments.
\<close>

section \<open>Protocols, ports and addresses\<close>

type_synonym n_short = u_short
type_synonym n_long = u_long
type_synonym n_time = u_long

definition IPPROTO_IP :: nat where "IPPROTO_IP = 0"
definition IPPROTO_IGMP :: nat where "IPPROTO_IGMP = 2"
definition IPPROTO_GGP :: nat where "IPPROTO_GGP = 3"
definition IPPROTO_EGP :: nat where "IPPROTO_EGP = 8"
definition IPPROTO_PUP :: nat where "IPPROTO_PUP = 12"
definition IPPROTO_UDP :: nat where "IPPROTO_UDP = 17"
definition IPPROTO_IDP :: nat where "IPPROTO_IDP = 22"
definition IPPROTO_TP :: nat where "IPPROTO_TP = 29"
definition IPPROTO_EON :: nat where "IPPROTO_EON = 80"
definition IPPROTO_ENCAP :: nat where "IPPROTO_ENCAP = 98"
definition IPPROTO_RAW :: nat where "IPPROTO_RAW = 255"
definition IPPROTO_MAX :: nat where "IPPROTO_MAX = 256"

lemmas ipproto_defs = IPPROTO_IP_def IPPROTO_IGMP_def IPPROTO_GGP_def IPPROTO_EGP_def IPPROTO_PUP_def
  IPPROTO_UDP_def IPPROTO_IDP_def IPPROTO_TP_def IPPROTO_EON_def IPPROTO_ENCAP_def IPPROTO_RAW_def
  IPPROTO_MAX_def
definition IPPORT_RESERVED :: int where "IPPORT_RESERVED = 1024"
definition IPPORT_USERRESERVED :: int where "IPPORT_USERRESERVED = 5000"

lemmas ipport_defs = IPPORT_RESERVED_def IPPORT_USERRESERVED_def
definition IN_CLASSB_NSHIFT :: nat where "IN_CLASSB_NSHIFT = 16"
definition IN_CLASSC_NSHIFT :: nat where "IN_CLASSC_NSHIFT = 8"
definition IN_CLASSD_NSHIFT :: nat where "IN_CLASSD_NSHIFT = 28"

lemmas innshift_defs = IN_CLASSB_NSHIFT_def IN_CLASSC_NSHIFT_def IN_CLASSD_NSHIFT_def
definition IN_CLASSA_HOST :: u_long where "IN_CLASSA_HOST = 0xffffff"
definition IN_CLASSA_MAX :: u_long where "IN_CLASSA_MAX = 128"
definition IN_CLASSB_HOST :: u_long where "IN_CLASSB_HOST = 0xffff"
definition IN_CLASSB_MAX :: u_long where "IN_CLASSB_MAX = 65536"
definition IN_CLASSC_HOST :: u_long where "IN_CLASSC_HOST = 0xff"
definition IN_CLASSD_HOST :: u_long where "IN_CLASSD_HOST = 0xfffffff"
definition INADDR_NONE :: u_long where "INADDR_NONE = 0xffffffff"
definition INADDR_UNSPEC_GROUP :: u_long where "INADDR_UNSPEC_GROUP = 0xe0000000"
definition INADDR_ALLHOSTS_GROUP :: u_long where "INADDR_ALLHOSTS_GROUP = 0xe0000001"
definition INADDR_MAX_LOCAL_GROUP :: u_long where "INADDR_MAX_LOCAL_GROUP = 0xe00000ff"

lemmas inmask_defs = IN_CLASSA_HOST_def IN_CLASSA_MAX_def IN_CLASSB_HOST_def IN_CLASSB_MAX_def
  IN_CLASSC_HOST_def IN_CLASSD_HOST_def INADDR_NONE_def INADDR_UNSPEC_GROUP_def INADDR_ALLHOSTS_GROUP_def
  INADDR_MAX_LOCAL_GROUP_def

record sockaddr_in =
  sin_len :: u_char
  sin_family :: u_char
  sin_port :: u_short
  sin_addr :: u_long
  sin_zero :: "u_char list"

record ip_opts_t =
  ipo_dst :: u_long
  ipo_opts :: "u_char list"

definition IP_OPTIONS :: int where "IP_OPTIONS = 1"
definition IP_HDRINCL :: int where "IP_HDRINCL = 2"
definition IP_TOS :: int where "IP_TOS = 3"
definition IP_TTL :: int where "IP_TTL = 4"
definition IP_RECVOPTS :: int where "IP_RECVOPTS = 5"
definition IP_RECVRETOPTS :: int where "IP_RECVRETOPTS = 6"
definition IP_RECVDSTADDR :: int where "IP_RECVDSTADDR = 7"
definition IP_RETOPTS :: int where "IP_RETOPTS = 8"
definition IP_MULTICAST_IF :: int where "IP_MULTICAST_IF = 9"
definition IP_MULTICAST_TTL :: int where "IP_MULTICAST_TTL = 10"
definition IP_MULTICAST_LOOP :: int where "IP_MULTICAST_LOOP = 11"
definition IP_ADD_MEMBERSHIP :: int where "IP_ADD_MEMBERSHIP = 12"
definition IP_DROP_MEMBERSHIP :: int where "IP_DROP_MEMBERSHIP = 13"
definition IP_DEFAULT_MULTICAST_TTL :: int where "IP_DEFAULT_MULTICAST_TTL = 1"
definition IP_DEFAULT_MULTICAST_LOOP :: int where "IP_DEFAULT_MULTICAST_LOOP = 1"
definition IP_MAX_MEMBERSHIPS :: int where "IP_MAX_MEMBERSHIPS = 20"

lemmas ipopt_defs = IP_OPTIONS_def IP_HDRINCL_def IP_TOS_def IP_TTL_def IP_RECVOPTS_def IP_RECVRETOPTS_def
  IP_RECVDSTADDR_def IP_RETOPTS_def IP_MULTICAST_IF_def IP_MULTICAST_TTL_def IP_MULTICAST_LOOP_def
  IP_ADD_MEMBERSHIP_def IP_DROP_MEMBERSHIP_def IP_DEFAULT_MULTICAST_TTL_def IP_DEFAULT_MULTICAST_LOOP_def
  IP_MAX_MEMBERSHIPS_def

record ip_mreq =
  imr_multiaddr :: u_long
  imr_interface :: u_long

definition IPPROTO_MAXID :: nat where "IPPROTO_MAXID = IPPROTO_IDP + 1"

lemmas ipproto_max = IPPROTO_MAXID_def

definition CTL_IPPROTO_NAMES :: "int \<Rightarrow> (string option \<times> int) list" where
  "CTL_IPPROTO_NAMES CTLTYPE_NODE =
    [(Some ''ip'', CTLTYPE_NODE),
     (Some ''icmp'', CTLTYPE_NODE),
     (Some ''igmp'', CTLTYPE_NODE),
     (Some ''ggp'', CTLTYPE_NODE),
     (None, 0),
     (None, 0),
     (Some ''tcp'', CTLTYPE_NODE),
     (None, 0),
     (Some ''egp'', CTLTYPE_NODE),
     (None, 0),
     (None, 0),
     (None, 0),
     (Some ''pup'', CTLTYPE_NODE),
     (None, 0),
     (None, 0),
     (None, 0),
     (None, 0),
     (Some ''udp'', CTLTYPE_NODE),
     (None, 0),
     (None, 0),
     (None, 0),
     (None, 0),
     (Some ''idp'', CTLTYPE_NODE)]"

definition IPCTL_FORWARDING :: nat where "IPCTL_FORWARDING = 1"
definition IPCTL_SENDREDIRECTS :: nat where "IPCTL_SENDREDIRECTS = 2"
definition IPCTL_DEFTTL :: nat where "IPCTL_DEFTTL = 3"
definition IPCTL_MAXID :: nat where "IPCTL_MAXID = 5"

lemmas ipctl_defs = IPCTL_FORWARDING_def IPCTL_SENDREDIRECTS_def IPCTL_DEFTTL_def IPCTL_MAXID_def

definition IPCTL_NAMES :: "int \<Rightarrow> (string option \<times> int) list" where
  "IPCTL_NAMES CTLTYPE_INT =
    [(None, 0),
     (Some ''forwarding'', CTLTYPE_INT),
     (Some ''redirect'', CTLTYPE_INT),
     (Some ''ttl'', CTLTYPE_INT),
     (Some ''mtu'', CTLTYPE_INT)]"

section \<open>The header\<close>

record ip =
  ip_hl :: "4 word"
  ip_v :: "4 word"
  ip_tos :: u_char
  ip_len :: c_short
  ip_id :: u_short
  ip_off :: c_short
  ip_ttl :: u_char
  ip_p :: u_char
  ip_sum :: u_short
  ip_src :: u_long
  ip_dst :: u_long

definition IP_DF :: u_int where "IP_DF = 0x4000"
definition IP_MF :: u_int where "IP_MF = 0x2000"
definition IP_OFFMASK :: u_int where "IP_OFFMASK = 0x1fff"

lemmas ipoff_defs = IP_DF_def IP_MF_def IP_OFFMASK_def
definition IP_MAXPACKET :: int where "IP_MAXPACKET = 65535"

lemmas ipmax_defs = IP_MAXPACKET_def
definition IPTOS_THROUGHPUT :: u_char where "IPTOS_THROUGHPUT = 0x8"
definition IPTOS_RELIABILITY :: u_char where "IPTOS_RELIABILITY = 0x4"
definition IPTOS_PREC_NETCONTROL :: u_char where "IPTOS_PREC_NETCONTROL = 0xe0"
definition IPTOS_PREC_INTERNETCONTROL :: u_char where "IPTOS_PREC_INTERNETCONTROL = 0xc0"
definition IPTOS_PREC_CRITIC_ECP :: u_char where "IPTOS_PREC_CRITIC_ECP = 0xa0"
definition IPTOS_PREC_FLASHOVERRIDE :: u_char where "IPTOS_PREC_FLASHOVERRIDE = 0x80"
definition IPTOS_PREC_FLASH :: u_char where "IPTOS_PREC_FLASH = 0x60"
definition IPTOS_PREC_IMMEDIATE :: u_char where "IPTOS_PREC_IMMEDIATE = 0x40"
definition IPTOS_PREC_PRIORITY :: u_char where "IPTOS_PREC_PRIORITY = 0x20"
definition IPTOS_PREC_ROUTINE :: u_char where "IPTOS_PREC_ROUTINE = 0x10"

lemmas iptos_defs = IPTOS_THROUGHPUT_def IPTOS_RELIABILITY_def IPTOS_PREC_NETCONTROL_def
  IPTOS_PREC_INTERNETCONTROL_def IPTOS_PREC_CRITIC_ECP_def IPTOS_PREC_FLASHOVERRIDE_def IPTOS_PREC_FLASH_def
  IPTOS_PREC_IMMEDIATE_def IPTOS_PREC_PRIORITY_def IPTOS_PREC_ROUTINE_def
definition IPOPT_COPIED :: "u_char \<Rightarrow> u_char" where "IPOPT_COPIED x = x AND 0x80"
definition IPOPT_CLASS :: "u_char \<Rightarrow> u_char" where "IPOPT_CLASS x = x AND 0x60"
definition IPOPT_NUMBER :: "u_char \<Rightarrow> u_char" where "IPOPT_NUMBER x = x AND 0x1f"
definition IPOPT_CONTROL :: u_char where "IPOPT_CONTROL = 0"
definition IPOPT_RESERVED1 :: u_char where "IPOPT_RESERVED1 = 0x20"
definition IPOPT_DEBMEAS :: u_char where "IPOPT_DEBMEAS = 0x40"
definition IPOPT_RESERVED2 :: u_char where "IPOPT_RESERVED2 = 0x60"
definition IPOPT_EOL :: u_char where "IPOPT_EOL = 0"
definition IPOPT_NOP :: u_char where "IPOPT_NOP = 1"
definition IPOPT_RR :: u_char where "IPOPT_RR = 7"
definition IPOPT_TS :: u_char where "IPOPT_TS = 68"
definition IPOPT_SECURITY :: u_char where "IPOPT_SECURITY = 130"
definition IPOPT_LSRR :: u_char where "IPOPT_LSRR = 131"
definition IPOPT_SATID :: u_char where "IPOPT_SATID = 136"
definition IPOPT_SSRR :: u_char where "IPOPT_SSRR = 137"

lemmas ipopts_defs = IPOPT_CONTROL_def IPOPT_RESERVED1_def IPOPT_DEBMEAS_def IPOPT_RESERVED2_def
  IPOPT_EOL_def IPOPT_NOP_def IPOPT_RR_def IPOPT_TS_def IPOPT_SECURITY_def IPOPT_LSRR_def IPOPT_SATID_def
  IPOPT_SSRR_def
definition IPOPT_OPTVAL :: nat where "IPOPT_OPTVAL = 0"
definition IPOPT_OLEN :: nat where "IPOPT_OLEN = 1"
definition IPOPT_OFFSET :: nat where "IPOPT_OFFSET = 2"
definition IPOPT_MINOFF :: nat where "IPOPT_MINOFF = 4"

lemmas ipoptoff_defs = IPOPT_OPTVAL_def IPOPT_OLEN_def IPOPT_OFFSET_def IPOPT_MINOFF_def

text \<open>The union at the end of a time stamp option is an array of words: a time, or an address and a time.\<close>

record ip_timestamp =
  ipt_code :: u_char
  ipt_len :: u_char
  ipt_ptr :: u_char
  ipt_flg :: "4 word"
  ipt_oflw :: "4 word"
  ipt_timestamp :: "n_long list"

definition IPOPT_TS_TSONLY :: int where "IPOPT_TS_TSONLY = 0"
definition IPOPT_TS_TSANDADDR :: int where "IPOPT_TS_TSANDADDR = 1"
definition IPOPT_TS_PRESPEC :: int where "IPOPT_TS_PRESPEC = 3"

lemmas ipts_defs = IPOPT_TS_TSONLY_def IPOPT_TS_TSANDADDR_def IPOPT_TS_PRESPEC_def
definition IPOPT_SECUR_UNCLASS :: u_int where "IPOPT_SECUR_UNCLASS = 0"
definition IPOPT_SECUR_CONFID :: u_int where "IPOPT_SECUR_CONFID = 0xf135"
definition IPOPT_SECUR_EFTO :: u_int where "IPOPT_SECUR_EFTO = 0x789a"
definition IPOPT_SECUR_MMMM :: u_int where "IPOPT_SECUR_MMMM = 0xbc4d"
definition IPOPT_SECUR_RESTR :: u_int where "IPOPT_SECUR_RESTR = 0xaf13"
definition IPOPT_SECUR_SECRET :: u_int where "IPOPT_SECUR_SECRET = 0xd788"
definition IPOPT_SECUR_TOPSECRET :: u_int where "IPOPT_SECUR_TOPSECRET = 0x6bc5"

lemmas ipsec_defs = IPOPT_SECUR_UNCLASS_def IPOPT_SECUR_CONFID_def IPOPT_SECUR_EFTO_def IPOPT_SECUR_MMMM_def
  IPOPT_SECUR_RESTR_def IPOPT_SECUR_SECRET_def IPOPT_SECUR_TOPSECRET_def
definition MAXTTL :: int where "MAXTTL = 255"
definition IPDEFTTL :: int where "IPDEFTTL = 64"
definition IPFRAGTTL :: int where "IPFRAGTTL = 60"
definition IPTTLDEC :: int where "IPTTLDEC = 1"
definition IP_MSS :: int where "IP_MSS = 576"

lemmas ipparam_defs = MAXTTL_def IPDEFTTL_def IPFRAGTTL_def IPTTLDEC_def IP_MSS_def

section \<open>Queues, options and statistics\<close>

record ipovly =
  ih_next :: addr
  ih_prev :: addr
  ih_x1 :: u_char
  ih_pr :: u_char
  ih_len :: c_short
  ih_src :: u_long
  ih_dst :: u_long

record ipq =
  ipq_hnext :: addr
  ipq_hprev :: addr
  ipq_ttl :: u_char
  ipq_p :: u_char
  ipq_id :: u_short
  ipq_next :: addr
  ipq_prev :: addr
  ipq_src :: u_long
  ipq_dst :: u_long

text \<open>The fields of a fragment that \<open>struct ip\<close> has too carry the prefix \<open>ipf_\<close> here.\<close>

record ipasfrag =
  ipf_hl :: "4 word"
  ipf_v :: "4 word"
  ipf_mff :: u_char
  ipf_len :: c_short
  ipf_id :: u_short
  ipf_off :: c_short
  ipf_ttl :: u_char
  ipf_p :: u_char
  ipf_sum :: u_short
  ipf_next :: addr
  ipf_prev :: addr

definition MAX_IPOPTLEN :: nat where "MAX_IPOPTLEN = 40"

lemmas ipoptlen_defs = MAX_IPOPTLEN_def

record ipoption =
  ipopt_dst :: u_long
  ipopt_list :: "u_char list"

record ip_moptions =
  imo_multicast_ifp :: addr
  imo_multicast_ttl :: u_char
  imo_multicast_loop :: u_char
  imo_num_memberships :: u_short
  imo_membership :: "addr list"

record ipstat =
  ips_total :: u_long
  ips_badsum :: u_long
  ips_tooshort :: u_long
  ips_toosmall :: u_long
  ips_badhlen :: u_long
  ips_badlen :: u_long
  ips_fragments :: u_long
  ips_fragdropped :: u_long
  ips_fragtimeout :: u_long
  ips_forward :: u_long
  ips_cantforward :: u_long
  ips_redirectsent :: u_long
  ips_noproto :: u_long
  ips_delivered :: u_long
  ips_localout :: u_long
  ips_odropped :: u_long
  ips_reassembled :: u_long
  ips_fragmented :: u_long
  ips_ofragments :: u_long
  ips_cantfrag :: u_long
  ips_badoptions :: u_long
  ips_noroute :: u_long
  ips_badvers :: u_long
  ips_rawout :: u_long

definition IP_FORWARDING :: u_int where "IP_FORWARDING = 0x1"
definition IP_RAWOUTPUT :: u_int where "IP_RAWOUTPUT = 0x2"
definition IP_ROUTETOIF :: u_int where "IP_ROUTETOIF = SO_DONTROUTE"
definition IP_ALLOWBROADCAST :: u_int where "IP_ALLOWBROADCAST = SO_BROADCAST"

lemmas ipflag_defs = IP_FORWARDING_def IP_RAWOUTPUT_def IP_ROUTETOIF_def IP_ALLOWBROADCAST_def

section \<open>Variables of \<open>ip_input.c\<close>\<close>

text \<open>\<open>GATEWAY\<close> is not defined in the project.\<close>

definition IPSENDREDIRECTS :: int where "IPSENDREDIRECTS = 1"
definition IPFORWARDING :: int where "IPFORWARDING = 0"

record ip_srcrt_t =
  srcrt_dst :: u_long
  srcrt_nop :: u_char
  srcrt_srcopt :: "u_char list"
  srcrt_route :: "u_long list"

record ip_vars =
  v_ipforwarding :: int
  v_ipsendredirects :: int
  v_ip_defttl :: int
  v_ip_protox :: "u_char list"
  v_ipqmaxlen :: int
  v_ip_nhops :: int
  v_ip_srcrt :: ip_srcrt_t
  v_ipaddr :: sockaddr_in

definition ip_vars_init :: ip_vars where
  "ip_vars_init = \<lparr>v_ipforwarding = IPFORWARDING, v_ipsendredirects = IPSENDREDIRECTS, v_ip_defttl = IPDEFTTL,
     v_ip_protox = replicate IPPROTO_MAX 0, v_ipqmaxlen = IFQ_MAXLEN, v_ip_nhops = 0,
     v_ip_srcrt = \<lparr>srcrt_dst = 0, srcrt_nop = 0, srcrt_srcopt = replicate (IPOPT_OFFSET + 1) 0,
       srcrt_route = replicate (MAX_IPOPTLEN div 4) 0\<rparr>,
     v_ipaddr = \<lparr>sin_len = 16, sin_family = AF_INET, sin_port = 0, sin_addr = 0, sin_zero = replicate 8 0\<rparr>\<rparr>"

section \<open>Properties\<close>

text \<open>The type byte of an option is its copy flag, its class and its number, and nothing else; the options of
  the header are taken apart into the classes and numbers of RFC 791.\<close>

theorem ip_option_fields:
  "IPOPT_COPIED x OR IPOPT_CLASS x OR IPOPT_NUMBER x = x \<and>
   map (\<lambda>y. (IPOPT_COPIED y \<noteq> 0, IPOPT_CLASS y, IPOPT_NUMBER y))
       [IPOPT_EOL, IPOPT_NOP, IPOPT_RR, IPOPT_TS, IPOPT_SECURITY, IPOPT_LSRR, IPOPT_SATID, IPOPT_SSRR] =
     [(False, IPOPT_CONTROL, 0), (False, IPOPT_CONTROL, 1), (False, IPOPT_CONTROL, 7), (False, IPOPT_DEBMEAS, 4),
      (True, IPOPT_CONTROL, 2), (True, IPOPT_CONTROL, 3), (True, IPOPT_CONTROL, 8), (True, IPOPT_CONTROL, 9)]"
proof
  have "(0x80 OR 0x60 OR 0x1f :: u_char) = - 1" by simp
  then show "IPOPT_COPIED x OR IPOPT_CLASS x OR IPOPT_NUMBER x = x"
    unfolding IPOPT_COPIED_def IPOPT_CLASS_def IPOPT_NUMBER_def
    by (simp only: bit.conj_disj_distrib [symmetric]) simp
  show "map (\<lambda>y. (IPOPT_COPIED y \<noteq> 0, IPOPT_CLASS y, IPOPT_NUMBER y))
       [IPOPT_EOL, IPOPT_NOP, IPOPT_RR, IPOPT_TS, IPOPT_SECURITY, IPOPT_LSRR, IPOPT_SATID, IPOPT_SSRR] =
     [(False, IPOPT_CONTROL, 0), (False, IPOPT_CONTROL, 1), (False, IPOPT_CONTROL, 7), (False, IPOPT_DEBMEAS, 4),
      (True, IPOPT_CONTROL, 2), (True, IPOPT_CONTROL, 3), (True, IPOPT_CONTROL, 8), (True, IPOPT_CONTROL, 9)]"
    by (simp add: ipopts_defs IPOPT_COPIED_def IPOPT_CLASS_def IPOPT_NUMBER_def)
qed

text \<open>The types of service are bits 2 to 4 and the precedences the three bits above them, with one exception:
  the routine precedence is the bit of low delay.\<close>

theorem ip_tos_precedence:
  "list_all (\<lambda>p. p AND (IPTOS_LOWDELAY OR IPTOS_THROUGHPUT OR IPTOS_RELIABILITY) = 0 \<and> p AND 0xe0 = p)
     [IPTOS_PREC_NETCONTROL, IPTOS_PREC_INTERNETCONTROL, IPTOS_PREC_CRITIC_ECP, IPTOS_PREC_FLASHOVERRIDE,
      IPTOS_PREC_FLASH, IPTOS_PREC_IMMEDIATE, IPTOS_PREC_PRIORITY] \<and>
   IPTOS_PREC_ROUTINE = IPTOS_LOWDELAY \<and> IPTOS_PREC_ROUTINE AND 0xe0 = 0"
  by (simp add: iptos_defs IPTOS_LOWDELAY_def)

text \<open>The flags and the offset of a fragment are separate parts of one field, which leave one bit free.\<close>

lemma ip_off_parts: "IP_DF AND IP_MF = 0" "(IP_DF OR IP_MF) AND IP_OFFMASK = 0"
    "IP_DF OR IP_MF OR IP_OFFMASK = mask 15"
  by (simp_all add: ipoff_defs mask_eq_exp_minus_1)

text \<open>The table of protocol names has an entry for every number below \<open>IPPROTO_MAXID\<close>, the named ones at
  the numbers of their protocols.\<close>

theorem ipproto_names:
  "length (CTL_IPPROTO_NAMES n) = IPPROTO_MAXID \<and>
   filter (\<lambda>(i, s, t). s \<noteq> None) (zip [0..<IPPROTO_MAXID] (CTL_IPPROTO_NAMES n)) =
     map (\<lambda>(p, s). (p, Some s, n)) [(IPPROTO_IP, ''ip''), (unat IPPROTO_ICMP, ''icmp''), (IPPROTO_IGMP, ''igmp''),
       (IPPROTO_GGP, ''ggp''), (unat IPPROTO_TCP, ''tcp''), (IPPROTO_EGP, ''egp''), (IPPROTO_PUP, ''pup''),
       (IPPROTO_UDP, ''udp''), (IPPROTO_IDP, ''idp'')] \<and>
   length (IPCTL_NAMES n) = IPCTL_MAXID"
  by (simp add: CTL_IPPROTO_NAMES_def IPCTL_NAMES_def ipproto_defs ipproto_max ipctl_defs IPPROTO_ICMP_def
      IPPROTO_TCP_def upt_rec)

end
