(* ===== verification/Link.thy ===== *)
theory Link
  imports IpHdr Compress Le
begin

text \<open>
  Structures and numbers of the link layer: the packet types and saved states of \<open>net/slcompress.h\<close>,
  addresses of \<open>netiso/iso.h\<close> and \<open>netiso/iso_var.h\<close>, ARP (\<open>net/if_arp.h\<close>, \<open>netinet/if_ether.h\<close> and the
  variables of \<open>netinet/if_ether.c\<close>), the routing messages and requests of \<open>net/if.h\<close>, and the remaining
  registers of \<open>hp300/dev/if_lereg.h\<close> and device types of \<open>hp300/dev/device.h\<close>.
\<close>

section \<open>Header compression\<close>

definition MAX_STATES :: nat where "MAX_STATES = 16"

lemmas max_states_def2 = MAX_STATES_def
definition MAX_HDR :: int where "MAX_HDR = MLEN"
definition TYPE_ERROR :: u_int where "TYPE_ERROR = 0"
definition NEW_C :: u_int where "NEW_C = 0x40"
definition NEW_I :: u_int where "NEW_I = 0x20"
definition NEW_S :: u_int where "NEW_S = 0x8"
definition NEW_A :: u_int where "NEW_A = 0x4"
definition NEW_W :: u_int where "NEW_W = 0x2"
definition NEW_U :: u_int where "NEW_U = 0x1"
definition SPECIAL_I :: u_int where "SPECIAL_I = NEW_S OR NEW_W OR NEW_U"
definition SPECIAL_D :: u_int where "SPECIAL_D = NEW_S OR NEW_A OR NEW_W OR NEW_U"
definition SPECIALS_MASK :: u_int where "SPECIALS_MASK = NEW_S OR NEW_A OR NEW_W OR NEW_U"
definition TCP_PUSH_BIT :: u_int where "TCP_PUSH_BIT = 0x10"

lemmas newbits_defs = TYPE_ERROR_def NEW_C_def NEW_I_def NEW_S_def NEW_A_def NEW_W_def NEW_U_def
  SPECIAL_I_def SPECIAL_D_def SPECIALS_MASK_def TCP_PUSH_BIT_def

text \<open>The union of a state is its \<open>MAX_HDR\<close> bytes; \<open>cs_ip\<close> reads the same bytes as a header.\<close>

record cstate =
  cs_next :: addr
  cs_hlen :: u_short
  cs_id :: u_char
  cs_filler :: u_char
  cs_hdr :: "u_char list"

record slcompress =
  last_cs :: addr
  last_recv :: u_char
  last_xmit :: u_char
  slc_flags :: u_short
  sls_packets :: int
  sls_compressed :: int
  sls_searches :: int
  sls_misses :: int
  sls_uncompressedin :: int
  sls_compressedin :: int
  sls_errorin :: int
  sls_tossed :: int
  tstate :: "cstate list"
  rstate :: "cstate list"

definition SLF_TOSS :: u_short where "SLF_TOSS = 1"

lemmas slf_defs = SLF_TOSS_def

section \<open>OSI addresses\<close>

definition IS_MULTICAST :: "u_char list \<Rightarrow> bool" where "IS_MULTICAST snpa \<longleftrightarrow> has (snpa ! 0) 0x01"

definition ISOPROTO_TCP :: int where "ISOPROTO_TCP = 6"
definition ISOPROTO_UDP :: int where "ISOPROTO_UDP = 17"
definition ISOPROTO_TP0 :: int where "ISOPROTO_TP0 = 25"
definition ISOPROTO_TP1 :: int where "ISOPROTO_TP1 = 26"
definition ISOPROTO_TP2 :: int where "ISOPROTO_TP2 = 27"
definition ISOPROTO_TP3 :: int where "ISOPROTO_TP3 = 28"
definition ISOPROTO_TP4 :: int where "ISOPROTO_TP4 = 29"
definition ISOPROTO_TP :: int where "ISOPROTO_TP = ISOPROTO_TP4"
definition ISOPROTO_CLTP :: int where "ISOPROTO_CLTP = 30"
definition ISOPROTO_CLNP :: int where "ISOPROTO_CLNP = 31"
definition ISOPROTO_X25 :: int where "ISOPROTO_X25 = 32"
definition ISOPROTO_INACT_NL :: int where "ISOPROTO_INACT_NL = 33"
definition ISOPROTO_ESIS :: int where "ISOPROTO_ESIS = 34"
definition ISOPROTO_INTRAISIS :: int where "ISOPROTO_INTRAISIS = 35"
definition ISOPROTO_IDRP :: int where "ISOPROTO_IDRP = 36"
definition ISOPROTO_RAW :: int where "ISOPROTO_RAW = 255"
definition ISOPROTO_MAX :: int where "ISOPROTO_MAX = 256"
definition ISO_PORT_RESERVED :: int where "ISO_PORT_RESERVED = 1024"
definition ISO_PORT_USERRESERVED :: int where "ISO_PORT_USERRESERVED = 5000"
definition ISO_PORT_MAINT :: int where "ISO_PORT_MAINT = 501"
definition ISO_PORT_ECHO :: int where "ISO_PORT_ECHO = 507"
definition ISO_PORT_DISCARD :: int where "ISO_PORT_DISCARD = 509"
definition ISO_PORT_SYSTAT :: int where "ISO_PORT_SYSTAT = 511"
definition ISO_PORT_NETSTAT :: int where "ISO_PORT_NETSTAT = 515"
definition ISO_PORT_LOGIN :: int where "ISO_PORT_LOGIN = 513"
definition ISO_PORT_PUBLIC :: int where "ISO_PORT_PUBLIC = 1024"

lemmas iso_defs = ISOPROTO_TCP_def ISOPROTO_UDP_def ISOPROTO_TP0_def ISOPROTO_TP1_def ISOPROTO_TP2_def
  ISOPROTO_TP3_def ISOPROTO_TP4_def ISOPROTO_TP_def ISOPROTO_CLTP_def ISOPROTO_CLNP_def ISOPROTO_X25_def
  ISOPROTO_INACT_NL_def ISOPROTO_ESIS_def ISOPROTO_INTRAISIS_def ISOPROTO_IDRP_def ISOPROTO_RAW_def
  ISOPROTO_MAX_def ISO_PORT_RESERVED_def ISO_PORT_USERRESERVED_def ISO_PORT_MAINT_def ISO_PORT_ECHO_def
  ISO_PORT_DISCARD_def ISO_PORT_SYSTAT_def ISO_PORT_NETSTAT_def ISO_PORT_LOGIN_def ISO_PORT_PUBLIC_def
definition ISO8473_CLNP :: u_char where "ISO8473_CLNP = 0x81"
definition ISO9542_ESIS :: u_char where "ISO9542_ESIS = 0x82"
definition ISO9542X25_ESIS :: u_char where "ISO9542X25_ESIS = 0x8a"
definition ISO10589_ISIS :: u_char where "ISO10589_ISIS = 0x83"
definition ISO8878A_CONS :: u_char where "ISO8878A_CONS = 0x84"
definition ISO10747_IDRP :: u_char where "ISO10747_IDRP = 0x85"
definition AFI_37 :: u_char where "AFI_37 = 0x37"
definition AFI_OSINET :: u_char where "AFI_OSINET = 0x47"
definition AFI_RFC986 :: u_char where "AFI_RFC986 = 0x47"
definition AFI_SNA :: u_char where "AFI_SNA = 0"

lemmas iso_nl_defs = ISO8473_CLNP_def ISO9542_ESIS_def ISO9542X25_ESIS_def ISO10589_ISIS_def
  ISO8878A_CONS_def ISO10747_IDRP_def AFI_37_def AFI_OSINET_def AFI_RFC986_def AFI_SNA_def

record iso_addr =
  isoa_len :: u_char
  isoa_genaddr :: "u_char list"

record sockaddr_iso =
  siso_len :: u_char
  siso_family :: u_char
  siso_plen :: u_char
  siso_slen :: u_char
  siso_tlen :: u_char
  siso_addr :: iso_addr
  siso_pad :: "u_char list"

definition siso_nlen :: "sockaddr_iso \<Rightarrow> u_char" where "siso_nlen s = isoa_len (siso_addr s)"
definition siso_data :: "sockaddr_iso \<Rightarrow> u_char list" where "siso_data s = isoa_genaddr (siso_addr s)"

text \<open>\<open>TSEL\<close> is the address of the selector behind the network address, for a structure at \<open>p\<close>; the data is
  at offset 6.\<close>

definition TSEL :: "addr \<Rightarrow> sockaddr_iso \<Rightarrow> addr" where "TSEL p s = p + 6 + unat (siso_nlen s)"

text \<open>\<open>bcmp\<close> of more than the twenty bytes of an address goes on in the padding, and has no defined result
  behind it.\<close>

definition SAME_ISOADDR :: "sockaddr_iso \<Rightarrow> sockaddr_iso \<Rightarrow> bool option" where
  "SAME_ISOADDR a b =
     (let n = unat (siso_nlen a); x = siso_data a @ siso_pad a; y = siso_data b @ siso_pad b in
      if n \<le> length x \<and> n \<le> length y then Some (take n x = take n y) else None)"

record iso_ifaddr =
  iia_ifa :: addr
  iia_snpaoffset :: int
  iia_next :: addr
  iia_addr :: sockaddr_iso
  iia_dstaddr :: sockaddr_iso
  iia_sockmask :: sockaddr_iso

record iso_aliasreq =
  iifra_name :: "u_char list"
  iifra_addr :: sockaddr_iso
  iifra_dstaddr :: sockaddr_iso
  iifra_mask :: sockaddr_iso
  iifra_snpaoffset :: int

record iso_ifreq =
  iifr_name :: "u_char list"
  iifr_Addr :: sockaddr_iso

definition IA_SIS :: "iso_ifaddr \<Rightarrow> sockaddr_iso" where "IA_SIS ia = iia_addr ia"

record llc_etherhdr =
  llc_dst :: "u_char list"
  llc_src :: "u_char list"
  llc_len :: "u_char list"
  llc_dsap :: u_char
  llc_ssap :: u_char
  llc_ui_byte :: u_char

record snpa_hdr =
  snh_ifp :: addr
  snh_dhost :: "u_char list"
  snh_shost :: "u_char list"
  snh_flags :: c_short

section \<open>Address resolution\<close>

record arphdr =
  ar_hrd :: u_short
  ar_pro :: u_short
  ar_hln :: u_char
  ar_pln :: u_char
  ar_op :: u_short

definition ARPHRD_ETHER :: u_short where "ARPHRD_ETHER = 1"
definition ARPHRD_FRELAY :: u_short where "ARPHRD_FRELAY = 15"
definition ARPOP_REQUEST :: u_short where "ARPOP_REQUEST = 1"
definition ARPOP_REPLY :: u_short where "ARPOP_REPLY = 2"
definition ARPOP_REVREQUEST :: u_short where "ARPOP_REVREQUEST = 3"
definition ARPOP_REVREPLY :: u_short where "ARPOP_REVREPLY = 4"
definition ARPOP_INVREQUEST :: u_short where "ARPOP_INVREQUEST = 8"
definition ARPOP_INVREPLY :: u_short where "ARPOP_INVREPLY = 9"

lemmas arp_defs = ARPHRD_ETHER_def ARPHRD_FRELAY_def ARPOP_REQUEST_def ARPOP_REPLY_def ARPOP_REVREQUEST_def
  ARPOP_REVREPLY_def ARPOP_INVREQUEST_def ARPOP_INVREPLY_def

record ether_arp =
  ea_hdr :: arphdr
  arp_sha :: "u_char list"
  arp_spa :: "u_char list"
  arp_tha :: "u_char list"
  arp_tpa :: "u_char list"

record arpreq =
  arp_pa :: "u_char list"
  arp_ha :: "u_char list"
  arp_flags :: int

definition ATF_INUSE :: int where "ATF_INUSE = 0x1"
definition ATF_COM :: int where "ATF_COM = 0x2"
definition ATF_PERM :: int where "ATF_PERM = 0x4"
definition ATF_PUBL :: int where "ATF_PUBL = 0x8"
definition ATF_USETRAILERS :: int where "ATF_USETRAILERS = 0x10"

lemmas atf_defs = ATF_INUSE_def ATF_COM_def ATF_PERM_def ATF_PUBL_def ATF_USETRAILERS_def

record llinfo_arp =
  la_next :: addr
  la_prev :: addr
  la_rt :: addr
  la_hold :: addr
  la_asked :: int

record sockaddr_inarp =
  sina_len :: u_char
  sina_family :: u_char
  sina_port :: u_short
  sina_addr :: u_long
  sina_srcaddr :: u_long
  sina_tos :: u_short
  sina_other :: u_short

definition ETHERMIN :: int where "ETHERMIN = 60 - 14"
definition SIN_PROXY :: int where "SIN_PROXY = 1"

lemmas sinproxy_defs = ETHERMIN_def SIN_PROXY_def

text \<open>The variables of \<open>if_ether.c\<close>; \<open>llinfo_arp\<close> is the head of a ring, at the address given.\<close>

record arp_vars =
  arpt_prune :: int
  arpt_keep :: int
  arpt_down :: int
  v_llinfo_arp :: llinfo_arp
  v_arpintrq :: ifqueue
  arp_inuse :: int
  arp_allocated :: int
  arp_intimer :: int
  arp_maxtries :: int
  useloopback :: int
  arpinit_done :: int

definition arp_vars_init :: "addr \<Rightarrow> arp_vars" where
  "arp_vars_init llinfo =
     \<lparr>arpt_prune = 5 * 60 * 1, arpt_keep = 20 * 60, arpt_down = 20,
      v_llinfo_arp = \<lparr>la_next = llinfo, la_prev = llinfo, la_rt = 0, la_hold = 0, la_asked = 0\<rparr>,
      v_arpintrq = \<lparr>ifq_head = 0, ifq_tail = 0, ifq_len = 0, ifq_maxlen = 50, ifq_drops = 0\<rparr>,
      arp_inuse = 0, arp_allocated = 0, arp_intimer = 0, arp_maxtries = 5, useloopback = 1, arpinit_done = 0\<rparr>"

section \<open>Messages and requests about interfaces\<close>

record if_msghdr =
  ifm_msglen :: u_short
  ifm_version :: u_char
  ifm_type :: u_char
  ifm_addrs :: int
  ifm_flags :: int
  ifm_index :: u_short
  ifm_data :: ifdata

record ifa_msghdr =
  ifam_msglen :: u_short
  ifam_version :: u_char
  ifam_type :: u_char
  ifam_addrs :: int
  ifam_flags :: int
  ifam_index :: u_short
  ifam_metric :: int

record ifaliasreq =
  ifra_name :: "u_char list"
  ifra_addr :: sockaddr_in
  ifra_broadaddr :: sockaddr_in
  ifra_mask :: sockaddr_in

text \<open>The two members of the union of an \<open>ifconf\<close> are pointers.\<close>

record ifconf_t =
  ifc_len :: int
  ifc_ifcu :: addr

definition ifc_buf :: "ifconf_t \<Rightarrow> addr" where "ifc_buf c = ifc_ifcu c"
definition ifc_req :: "ifconf_t \<Rightarrow> addr" where "ifc_req c = ifc_ifcu c"

definition IFNET_SLOWHZ :: int where "IFNET_SLOWHZ = 1"

lemmas if_slow_defs = IFNET_SLOWHZ_def

section \<open>Registers and devices\<close>

definition LE_IE :: u_char where "LE_IE = 0x80"
definition LE_IR :: u_char where "LE_IR = 0x40"
definition LE_LOCK :: u_char where "LE_LOCK = 0x8"
definition LE_JAB :: u_char where "LE_JAB = 0x2"

lemmas ler0_defs = LE_IE_def LE_IR_def LE_LOCK_def LE_JAB_def
definition LE_CSR0 :: nat where "LE_CSR0 = 0"
definition LE_CSR1 :: nat where "LE_CSR1 = 1"
definition LE_CSR2 :: nat where "LE_CSR2 = 2"
definition LE_CSR3 :: nat where "LE_CSR3 = 3"

lemmas csr_defs = LE_CSR0_def LE_CSR1_def LE_CSR2_def LE_CSR3_def
definition LE_SERR :: u_short where "LE_SERR = 0x8000"
definition LE_BABL :: u_short where "LE_BABL = 0x4000"
definition LE_CERR :: u_short where "LE_CERR = 0x2000"
definition LE_MISS :: u_short where "LE_MISS = 0x1000"
definition LE_MERR :: u_short where "LE_MERR = 0x800"
definition LE_RINT :: u_short where "LE_RINT = 0x400"
definition LE_TINT :: u_short where "LE_TINT = 0x200"
definition LE_IDON :: u_short where "LE_IDON = 0x100"
definition LE_INTR :: u_short where "LE_INTR = 0x80"
definition LE_INEA :: u_short where "LE_INEA = 0x40"
definition LE_RXON :: u_short where "LE_RXON = 0x20"
definition LE_TXON :: u_short where "LE_TXON = 0x10"
definition LE_TDMD :: u_short where "LE_TDMD = 0x8"
definition LE_STOP :: u_short where "LE_STOP = 0x4"
definition LE_STRT :: u_short where "LE_STRT = 0x2"
definition LE_INIT :: u_short where "LE_INIT = 0x1"
definition LE_BSWP :: u_short where "LE_BSWP = 0x4"
definition LE_MODE :: u_short where "LE_MODE = 0"
definition LE_OWN :: u_short where "LE_OWN = 0x8000"
definition LE_ERR :: u_short where "LE_ERR = 0x4000"
definition LE_STP :: u_short where "LE_STP = 0x200"
definition LE_ENP :: u_short where "LE_ENP = 0x100"
definition LE_FRAM :: u_short where "LE_FRAM = 0x2000"
definition LE_OFLO :: u_short where "LE_OFLO = 0x1000"
definition LE_CRC :: u_short where "LE_CRC = 0x800"
definition LE_RBUFF :: u_short where "LE_RBUFF = 0x400"
definition LE_MORE :: u_short where "LE_MORE = 0x1000"
definition LE_ONE :: u_short where "LE_ONE = 0x800"
definition LE_DEF :: u_short where "LE_DEF = 0x400"
definition LE_TBUFF :: u_short where "LE_TBUFF = 0x8000"
definition LE_UFLO :: u_short where "LE_UFLO = 0x4000"
definition LE_LCOL :: u_short where "LE_LCOL = 0x1000"
definition LE_LCAR :: u_short where "LE_LCAR = 0x800"
definition LE_RTRY :: u_short where "LE_RTRY = 0x400"

lemmas ler1_defs = LE_SERR_def LE_BABL_def LE_CERR_def LE_MISS_def LE_MERR_def LE_RINT_def LE_TINT_def
  LE_IDON_def LE_INTR_def LE_INEA_def LE_RXON_def LE_TXON_def LE_TDMD_def LE_STOP_def LE_STRT_def
  LE_INIT_def LE_BSWP_def LE_MODE_def LE_OWN_def LE_ERR_def LE_STP_def LE_ENP_def LE_FRAM_def LE_OFLO_def
  LE_CRC_def LE_RBUFF_def LE_MORE_def LE_ONE_def LE_DEF_def LE_TBUFF_def LE_UFLO_def LE_LCOL_def LE_LCAR_def
  LE_RTRY_def
definition D_BITMAP :: u_int where "D_BITMAP = 0x1"
definition D_FPA :: u_int where "D_FPA = 0x3"
definition D_KEYBOARD :: u_int where "D_KEYBOARD = 0x4"
definition D_COMMDCA :: u_int where "D_COMMDCA = 0x5"
definition D_COMMDCM :: u_int where "D_COMMDCM = 0x6"
definition D_COMMDCL :: u_int where "D_COMMDCL = 0x7"
definition D_PPORT :: u_int where "D_PPORT = 0x8"
definition D_MISC :: u_int where "D_MISC = 0x7f"

lemmas dtype_defs = D_BITMAP_def D_FPA_def D_KEYBOARD_def D_COMMDCA_def D_COMMDCM_def D_COMMDCL_def
  D_PPORT_def D_MISC_def

section \<open>Properties\<close>

text \<open>The first byte of a compressed packet.  The bits of the change mask and the push bit are apart and fill seven
  bits; the special cases are combinations of the four of the mask; and no packet with the bit of the
  compressed type can be taken for an IP packet, whose version stands in the same place, or for an
  uncompressed one.\<close>

theorem sl_first_byte:
  "2 < MAX_STATES \<and> MAX_STATES < 256 \<and>
   fold (OR) [NEW_C, NEW_I, TCP_PUSH_BIT, NEW_S, NEW_A, NEW_W, NEW_U] 0 = TYPE_COMPRESSED_TCP - 1 \<and>
   sum_list (map unat [NEW_C, NEW_I, TCP_PUSH_BIT, NEW_S, NEW_A, NEW_W, NEW_U]) = unat (TYPE_COMPRESSED_TCP - 1) \<and>
   SPECIAL_I AND SPECIALS_MASK = SPECIAL_I \<and> SPECIAL_D = SPECIALS_MASK \<and> SPECIAL_I \<noteq> SPECIAL_D \<and>
   TYPE_IP = push_bit 4 IPVERSION \<and>
   (TYPE_COMPRESSED_TCP OR c) AND 0xf0 \<noteq> TYPE_IP \<and> (TYPE_COMPRESSED_TCP OR c) AND 0xf0 \<noteq> TYPE_UNCOMPRESSED_TCP"
proof -
  have "bit ((TYPE_COMPRESSED_TCP OR c) AND 0xf0) 7" by (simp add: TYPE_COMPRESSED_TCP_def bit_simps)
  moreover have "\<not> bit TYPE_IP 7" "\<not> bit TYPE_UNCOMPRESSED_TCP 7"
    by (simp_all add: TYPE_IP_def TYPE_UNCOMPRESSED_TCP_def)
  ultimately have "(TYPE_COMPRESSED_TCP OR c) AND 0xf0 \<noteq> TYPE_IP" "(TYPE_COMPRESSED_TCP OR c) AND 0xf0 \<noteq> TYPE_UNCOMPRESSED_TCP"
    by metis+
  then show ?thesis
    by (simp add: newbits_defs MAX_STATES_def TYPE_COMPRESSED_TCP_def TYPE_IP_def IPVERSION_def push_bit_eq_mult)
qed

text \<open>A saved header has \<open>MAX_HDR\<close> bytes: enough for the headers without options, not for the longest, 60 bytes
  each of IP and TCP.\<close>

lemma max_hdr_room: "20 + 20 \<le> MAX_HDR" "MAX_HDR < 60 + 60"
  by (simp_all add: MAX_HDR_def)

text \<open>\<open>SAME_ISOADDR\<close> compares as many bytes as its first argument has and never the lengths: an address is the
  same as every longer one that begins with it, but not the other way round.\<close>

theorem same_isoaddr_prefix:
  assumes "length (siso_data a) = 20" "length (siso_data b) = 20" "unat (siso_nlen a) \<le> 20" "unat (siso_nlen b) \<le> 20"
  shows "SAME_ISOADDR a b = Some (take (unat (siso_nlen a)) (siso_data a) = take (unat (siso_nlen a)) (siso_data b)) \<and>
    (SAME_ISOADDR a b = Some True \<and> SAME_ISOADDR b a = Some False \<longrightarrow> unat (siso_nlen a) < unat (siso_nlen b))"
proof -
  have s: "SAME_ISOADDR x y = Some (take (unat (siso_nlen x)) (siso_data x) = take (unat (siso_nlen x)) (siso_data y))"
    if "length (siso_data x) = 20" "length (siso_data y) = 20" "unat (siso_nlen x) \<le> 20" for x y
    using that by (simp add: SAME_ISOADDR_def Let_def)
  have short: "take m ys = take m xs" if "take n xs = take n ys" "m \<le> n" for m n and xs ys :: "u_char list"
  proof -
    have "take m (take n xs) = take m (take n ys)" by (simp only: that(1))
    with that(2) show ?thesis by (simp add: min_absorb1)
  qed
  let ?n = "unat (siso_nlen a)" and ?m = "unat (siso_nlen b)"
  have ab: "SAME_ISOADDR a b = Some (take ?n (siso_data a) = take ?n (siso_data b))"
    and ba: "SAME_ISOADDR b a = Some (take ?m (siso_data b) = take ?m (siso_data a))" using s assms by blast+
  have "?n < ?m" if "take ?n (siso_data a) = take ?n (siso_data b)" "take ?m (siso_data b) \<noteq> take ?m (siso_data a)"
  proof (rule ccontr)
    assume "\<not> ?n < ?m"
    then have "take ?m (siso_data b) = take ?m (siso_data a)" by (intro short [OF that(1)]) simp
    with that(2) show False by contradiction
  qed
  then show ?thesis unfolding ab ba by blast
qed

definition demo_iso :: "nat \<Rightarrow> sockaddr_iso" where
  "demo_iso n = \<lparr>siso_len = 32, siso_family = 7, siso_plen = 0, siso_slen = 0, siso_tlen = 0,
     siso_addr = \<lparr>isoa_len = word_of_nat n, isoa_genaddr = 0x47 # word_of_nat n # replicate 18 0\<rparr>, siso_pad = replicate 6 0\<rparr>"

theorem same_isoaddr_prefix_witness:
  "SAME_ISOADDR (demo_iso 1) (demo_iso 2) = Some True \<and> SAME_ISOADDR (demo_iso 2) (demo_iso 1) = Some False"
proof -
  have d: "length (siso_data (demo_iso 1)) = 20" "length (siso_data (demo_iso 2)) = 20"
      "unat (siso_nlen (demo_iso 1)) = 1" "unat (siso_nlen (demo_iso 2)) = 2"
      "take 1 (siso_data (demo_iso 1)) = take 1 (siso_data (demo_iso 2))"
      "take 2 (siso_data (demo_iso 1)) \<noteq> take 2 (siso_data (demo_iso 2))"
    by (simp_all add: demo_iso_def siso_data_def siso_nlen_def)
  from same_isoaddr_prefix [of "demo_iso 1" "demo_iso 2"] same_isoaddr_prefix [of "demo_iso 2" "demo_iso 1"] d
  show ?thesis by simp
qed

text \<open>The priority of the LANCE is one of 3 to 6.\<close>

lemma le_ipl_range: "3 \<le> LE_IPL x \<and> LE_IPL x \<le> 6"
proof -
  have "drop_bit 4 x AND 3 \<le> 3" by (rule word_and_le1)
  then have "uint (drop_bit 4 x AND 3) \<le> 3" unfolding word_le_def by simp
  then have u: "uint (LE_IPL x) = uint (drop_bit 4 x AND 3) + 3"
    unfolding LE_IPL_def by (subst uint_plus_if') simp
  have "0 \<le> uint (drop_bit 4 x AND 3)" by (rule unsigned_greater_eq)
  then show ?thesis
    using u \<open>uint (drop_bit 4 x AND 3) \<le> 3\<close> by (simp only: word_le_def u) simp
qed

end
