(* ===== verification/Cpu.thy ===== *)
theory Cpu
  imports Proc Slip
begin

text \<open>
  The processor: the status word of \<open>hp300/include/psl.h\<close>, the interrupt priority macros and the page and
  segment constants of \<open>hp300/include/param.h\<close>, the address space, MMU and cache constants of
  \<open>hp300/include/cpu.h\<close>, interrupt handlers (\<open>hp300/hp300/isr.h\<close>), and the machine-independent
  parameters of \<open>sys/param.h\<close>.  The inline assembler of \<open>_spl\<close> is given by what its three
  instructions do to the status register; \<open>spl0\<close> is defined nowhere in the repository and is an
  argument.
\<close>

section \<open>Status word\<close>

definition PSL_C :: u_int where "PSL_C = 0x1"
definition PSL_V :: u_int where "PSL_V = 0x2"
definition PSL_Z :: u_int where "PSL_Z = 0x4"
definition PSL_N :: u_int where "PSL_N = 0x8"
definition PSL_X :: u_int where "PSL_X = 0x10"
definition PSL_ALLCC :: u_int where "PSL_ALLCC = 0x1f"
definition PSL_IPL0 :: u_int where "PSL_IPL0 = 0"
definition PSL_IPL1 :: u_int where "PSL_IPL1 = 0x100"
definition PSL_IPL2 :: u_int where "PSL_IPL2 = 0x200"
definition PSL_IPL3 :: u_int where "PSL_IPL3 = 0x300"
definition PSL_IPL4 :: u_int where "PSL_IPL4 = 0x400"
definition PSL_IPL5 :: u_int where "PSL_IPL5 = 0x500"
definition PSL_IPL6 :: u_int where "PSL_IPL6 = 0x600"
definition PSL_M :: u_int where "PSL_M = 0x1000"
definition PSL_T :: u_int where "PSL_T = 0x8000"
definition PSL_LOWIPL :: u_int where "PSL_LOWIPL = PSL_S"
definition PSL_HIGHIPL :: u_int where "PSL_HIGHIPL = PSL_S OR PSL_IPL7"
definition PSL_USER :: u_int where "PSL_USER = 0"
definition PSL_MBZ :: u_int where "PSL_MBZ = 0xffff58e0"
definition PSL_USERSET :: u_int where "PSL_USERSET = 0"
definition PSL_USERCLR :: u_int where "PSL_USERCLR = PSL_S OR PSL_IPL7 OR PSL_MBZ"

lemmas psl_defs = PSL_C_def PSL_V_def PSL_Z_def PSL_N_def PSL_X_def PSL_ALLCC_def PSL_IPL0_def PSL_IPL1_def
  PSL_IPL2_def PSL_IPL3_def PSL_IPL4_def PSL_IPL5_def PSL_IPL6_def PSL_M_def PSL_T_def PSL_LOWIPL_def
  PSL_HIGHIPL_def PSL_USER_def PSL_MBZ_def PSL_USERSET_def PSL_USERCLR_def

definition USERMODE :: "u_int \<Rightarrow> bool" where "USERMODE ps \<longleftrightarrow> ps AND PSL_S = 0"

section \<open>Interrupt priority\<close>

text \<open>\<open>_spl\<close> returns the status register, extended with zeros, and loads it with the low word of its argument.\<close>

definition spl :: "u_int \<Rightarrow> u_short \<Rightarrow> u_int \<times> u_short" where "spl s sr = (ucast sr, ucast s)"

definition spl1 :: "u_short \<Rightarrow> u_int \<times> u_short" where "spl1 = spl (PSL_S OR PSL_IPL1)"
definition spl2 :: "u_short \<Rightarrow> u_int \<times> u_short" where "spl2 = spl (PSL_S OR PSL_IPL2)"
definition spl3 :: "u_short \<Rightarrow> u_int \<times> u_short" where "spl3 = spl (PSL_S OR PSL_IPL3)"
definition spl4 :: "u_short \<Rightarrow> u_int \<times> u_short" where "spl4 = spl (PSL_S OR PSL_IPL4)"
definition spl5 :: "u_short \<Rightarrow> u_int \<times> u_short" where "spl5 = spl (PSL_S OR PSL_IPL5)"
definition spl6 :: "u_short \<Rightarrow> u_int \<times> u_short" where "spl6 = spl (PSL_S OR PSL_IPL6)"
definition spl7 :: "u_short \<Rightarrow> u_int \<times> u_short" where "spl7 = spl (PSL_S OR PSL_IPL7)"

definition splsoftclock :: "u_short \<Rightarrow> u_int \<times> u_short" where "splsoftclock = spl1"
definition splnet :: "u_short \<Rightarrow> u_int \<times> u_short" where "splnet = spl1"
definition splbio :: "u_short \<Rightarrow> u_int \<times> u_short" where "splbio = spl5"
definition splimp :: "u_short \<Rightarrow> u_int \<times> u_short" where "splimp = spl5"
definition spltty :: "u_short \<Rightarrow> u_int \<times> u_short" where "spltty = spl5"
definition splclock :: "u_short \<Rightarrow> u_int \<times> u_short" where "splclock = spl6"
definition splstatclock :: "u_short \<Rightarrow> u_int \<times> u_short" where "splstatclock = spl6"
definition splvm :: "u_short \<Rightarrow> u_int \<times> u_short" where "splvm = spl6"
definition splhigh :: "u_short \<Rightarrow> u_int \<times> u_short" where "splhigh = spl7"
definition splsched :: "u_short \<Rightarrow> u_int \<times> u_short" where "splsched = spl7"

lemmas spl_levels = spl1_def spl2_def spl3_def spl4_def spl5_def spl6_def spl7_def splsoftclock_def splnet_def
  splbio_def splimp_def spltty_def splclock_def splstatclock_def splvm_def splhigh_def splsched_def

definition splx :: "(u_short \<Rightarrow> u_int \<times> u_short) \<Rightarrow> u_int \<Rightarrow> u_short \<Rightarrow> u_int \<times> u_short" where
  "splx spl0 s sr = (if s AND PSL_IPL \<noteq> 0 then spl s sr else spl0 sr)"

record isr =
  isr_forw :: addr
  isr_back :: addr
  isr_intr :: nat
  isr_arg :: int
  isr_ipl :: int

definition NISR :: nat where "NISR = 3"

lemmas isr_defs = NISR_def
definition ISRIPL :: "int \<Rightarrow> int" where "ISRIPL x = x - 3"

text \<open>\<open>DELAY\<close> counts down; the function gives the number of times its empty body is run.  The decrement of
  the smallest \<open>int\<close> is undefined.\<close>

partial_function (option) DELAY_loop :: "int \<Rightarrow> nat \<Rightarrow> nat option" where
  "DELAY_loop n k =
     (if n = - (2 ^ 31) then None
      else if 0 < n - 1 then DELAY_loop (n - 1) (k + 1) else Some k)"

definition DELAY :: "int \<Rightarrow> nat option" where "DELAY n = DELAY_loop n 0"

section \<open>Pages, segments and buffers\<close>

definition NBSEG :: u_int where "NBSEG = 0x400000"
definition SEGOFSET :: u_int where "SEGOFSET = NBSEG - 1"
definition KERNBASE :: u_int where "KERNBASE = 0"

lemmas page_defs = NBSEG_def SEGOFSET_def KERNBASE_def
definition SEGSHIFT :: nat where "SEGSHIFT = 22"

lemmas segshift_defs = SEGSHIFT_def
definition BTOPKERNBASE :: u_long where "BTOPKERNBASE = drop_bit PGSHIFT KERNBASE"
definition BLKDEV_IOSIZE :: int where "BLKDEV_IOSIZE = 2048"
definition MAXPHYS :: int where "MAXPHYS = 64 * 1024"
definition CLSIZE :: int where "CLSIZE = 1"
definition CLSIZELOG2 :: int where "CLSIZELOG2 = 0"
definition SSIZE :: int where "SSIZE = 1"
definition SINCR :: int where "SINCR = 1"
definition UPAGES :: int where "UPAGES = 2"

lemmas blk_defs = BLKDEV_IOSIZE_def MAXPHYS_def CLSIZE_def CLSIZELOG2_def SSIZE_def SINCR_def UPAGES_def
definition MCLOFSET :: int where "MCLOFSET = MCLBYTES - 1"

lemmas mcl_defs = MCLOFSET_def
definition NMBCLUSTERS :: int where "NMBCLUSTERS = 256"
definition CLBYTES :: int where "CLBYTES = CLSIZE * uint NBPG"
definition NKMEMCLUSTERS :: int where "NKMEMCLUSTERS = 2048 * 1024 div CLBYTES"

lemmas nkmem_defs = NKMEMCLUSTERS_def
definition LABELSECTOR :: int where "LABELSECTOR = 1024 div uint DEV_BSIZE"
definition LABELOFFSET :: int where "LABELOFFSET = 0"

lemmas label_defs = LABELOFFSET_def
definition bdbtofsb :: "int \<Rightarrow> int" where
  "bdbtofsb bn = (if 0 \<le> bn then bn div (BLKDEV_IOSIZE div uint DEV_BSIZE)
     else - (- bn div (BLKDEV_IOSIZE div uint DEV_BSIZE)))"

text \<open>The HP-UX mapping: pages of the first 256 megabytes appear in every segment of that size.\<close>

definition HPMMMASK :: u_int where "HPMMMASK = 0xF0000000"
definition ISHPMMADDR :: "mdproc \<Rightarrow> u_int \<Rightarrow> bool" where
  "ISHPMMADDR md v \<longleftrightarrow> md_flags md AND MDP_HPUXMMAP \<noteq> 0 \<and> has v HPMMMASK \<and> v AND HPMMMASK \<noteq> HPMMMASK"
definition HPMMBASEADDR :: "u_int \<Rightarrow> u_int" where "HPMMBASEADDR v = v AND NOT HPMMMASK"

section \<open>System parameters\<close>

definition BSD :: int where "BSD = 199306"
definition BSD4_3 :: int where "BSD4_3 = 1"
definition BSD4_4 :: int where "BSD4_4 = 1"

lemmas bsd_defs = BSD_def BSD4_3_def BSD4_4_def
definition MAXCOMLEN :: int where "MAXCOMLEN = 16"
definition MAXINTERP :: int where "MAXINTERP = 32"
definition MAXLOGNAME :: int where "MAXLOGNAME = 12"
definition NOGROUP :: int where "NOGROUP = 65535"
definition MAXHOSTNAMELEN :: int where "MAXHOSTNAMELEN = 256"

lemmas sysparam_defs = MAXCOMLEN_def MAXINTERP_def MAXLOGNAME_def NOGROUP_def MAXHOSTNAMELEN_def
definition PSWP :: int where "PSWP = 0"
definition PVM :: int where "PVM = 4"
definition PINOD :: int where "PINOD = 8"
definition PRIBIO :: int where "PRIBIO = 16"
definition PVFS :: int where "PVFS = 20"
definition PZERO :: int where "PZERO = 22"
definition PSOCK :: int where "PSOCK = 24"
definition PWAIT :: int where "PWAIT = 32"
definition PLOCK :: int where "PLOCK = 36"
definition PPAUSE :: int where "PPAUSE = 40"
definition PUSER :: int where "PUSER = 50"
definition MAXPRI :: int where "MAXPRI = 127"
definition PRIMASK :: int where "PRIMASK = 0xff"
definition PCATCH :: int where "PCATCH = 0x100"
definition NZERO :: int where "NZERO = 0"

lemmas prio_defs = PSWP_def PVM_def PINOD_def PRIBIO_def PVFS_def PZERO_def PSOCK_def PWAIT_def PLOCK_def
  PPAUSE_def PUSER_def MAXPRI_def PRIMASK_def PCATCH_def NZERO_def
definition NBPW :: nat where "NBPW = 4"
definition CMASK :: u_int where "CMASK = 0x12"

lemmas cmask_defs = CMASK_def
definition NODEV :: u_long where "NODEV = - 1"
definition CLOFSET :: u_int where "CLOFSET = word_of_int CLSIZE * NBPG - 1"
definition claligned :: "u_int \<Rightarrow> bool" where "claligned x \<longleftrightarrow> x AND CLOFSET = 0"
definition CLOFF :: u_int where "CLOFF = CLOFSET"
definition CLSHIFT :: nat where "CLSHIFT = PGSHIFT + nat CLSIZELOG2"
definition clbase :: "int \<Rightarrow> int" where "clbase i = i"
definition clrnd :: "int \<Rightarrow> int" where "clrnd i = i"
definition CROUND :: int where "CROUND = CBLOCK - 1"

lemmas cround_defs = CROUND_def
definition MAXBSIZE :: int where "MAXBSIZE = MAXPHYS"
definition MAXFRAG :: int where "MAXFRAG = 8"
definition MAXSYMLINKS :: int where "MAXSYMLINKS = 8"

lemmas fs_defs = MAXBSIZE_def MAXFRAG_def MAXSYMLINKS_def
definition MINBUCKET :: nat where "MINBUCKET = 4"

lemmas minbucket_defs = MINBUCKET_def
definition MAXALLOCSAVE :: int where "MAXALLOCSAVE = 2 * CLBYTES"

lemmas maxalloc_defs = MAXALLOCSAVE_def
definition MIN_macro :: "int \<Rightarrow> int \<Rightarrow> int" where "MIN_macro a b = (if a < b then a else b)"
definition MAX_macro :: "int \<Rightarrow> int \<Rightarrow> int" where "MAX_macro a b = (if a > b then a else b)"

section \<open>Processor constants\<close>

definition CPU_CONSDEV :: int where "CPU_CONSDEV = 1"
definition CPU_MAXID :: int where "CPU_MAXID = 2"

lemmas cpuid_defs = CPU_CONSDEV_def CPU_MAXID_def
definition CTL_MACHDEP_NAMES :: "int \<Rightarrow> (string option \<times> int) list" where
  "CTL_MACHDEP_NAMES CTLTYPE_STRUCT = [(None, 0), (Some ''console_device'', CTLTYPE_STRUCT)]"
definition HP_320 :: int where "HP_320 = 0"
definition HP_330 :: int where "HP_330 = 1"
definition HP_350 :: int where "HP_350 = 2"
definition HP_360 :: int where "HP_360 = 3"
definition HP_370 :: int where "HP_370 = 4"
definition HP_340 :: int where "HP_340 = 5"
definition HP_375 :: int where "HP_375 = 6"
definition HP_380 :: int where "HP_380 = 7"
definition HP_433 :: int where "HP_433 = 8"
definition MMU_68040 :: int where "MMU_68040 = - 2"
definition MMU_68030 :: int where "MMU_68030 = - 1"
definition MMU_HP :: int where "MMU_HP = 0"
definition MMU_68851 :: int where "MMU_68851 = 1"
definition EC_PHYS :: int where "EC_PHYS = - 1"
definition EC_NONE :: int where "EC_NONE = 0"
definition EC_VIRT :: int where "EC_VIRT = 1"
definition MHZ_8 :: int where "MHZ_8 = 1"
definition MHZ_16 :: int where "MHZ_16 = 2"
definition MHZ_25 :: int where "MHZ_25 = 3"
definition MHZ_33 :: int where "MHZ_33 = 4"
definition MHZ_50 :: int where "MHZ_50 = 6"

lemmas machine_defs = HP_320_def HP_330_def HP_350_def HP_360_def HP_370_def HP_340_def HP_375_def
  HP_380_def HP_433_def MMU_68040_def MMU_68030_def MMU_HP_def MMU_68851_def EC_PHYS_def EC_NONE_def
  EC_VIRT_def MHZ_8_def MHZ_16_def MHZ_25_def MHZ_33_def MHZ_50_def
definition ROMBASE :: int where "ROMBASE = 0"
definition EXTIOBASE :: int where "EXTIOBASE = 0x600000"
definition EXTIOTOP :: int where "EXTIOTOP = 0x20000000"
definition MAXADDR :: int where "MAXADDR = 0xfffff000"

lemmas section_defs = ROMBASE_def EXTIOBASE_def EXTIOTOP_def MAXADDR_def
definition IIOMAPSIZE :: u_int where "IIOMAPSIZE = btoc (word_of_int (INTIOTOP - INTIOBASE))"
definition DIOBASE :: int where "DIOBASE = 0x600000"
definition DIOTOP :: int where "DIOTOP = 0x1000000"
definition DIOCSIZE :: int where "DIOCSIZE = 0x10000"
definition DIOIIBASE :: int where "DIOIIBASE = 0x1000000"
definition DIOIITOP :: int where "DIOIITOP = 0x20000000"
definition DIOIICSIZE :: int where "DIOIICSIZE = 0x400000"

lemmas dio_defs = DIOBASE_def DIOTOP_def DIOCSIZE_def DIOIIBASE_def DIOIITOP_def DIOIICSIZE_def
definition MMUBASE :: int where "MMUBASE = IIOPOFF 0x5F4000"
definition MMUSSTP :: int where "MMUSSTP = 0"
definition MMUUSTP :: int where "MMUUSTP = 0x4"
definition MMUTBINVAL :: int where "MMUTBINVAL = 0x8"
definition MMUSTAT :: int where "MMUSTAT = 0xc"
definition MMUCMD :: int where "MMUCMD = MMUSTAT"

lemmas mmureg_defs = MMUSSTP_def MMUUSTP_def MMUTBINVAL_def MMUSTAT_def MMUCMD_def
definition MMU_UMEN :: u_int where "MMU_UMEN = 0x1"
definition MMU_SMEN :: u_int where "MMU_SMEN = 0x2"
definition MMU_CEN :: u_int where "MMU_CEN = 0x4"
definition MMU_BERR :: u_int where "MMU_BERR = 0x8"
definition MMU_IEN :: u_int where "MMU_IEN = 0x20"
definition MMU_FPE :: u_int where "MMU_FPE = 0x40"
definition MMU_WPF :: u_int where "MMU_WPF = 0x2000"
definition MMU_PF :: u_int where "MMU_PF = 0x4000"
definition MMU_PTF :: u_int where "MMU_PTF = 0x8000"
definition MMU_FAULT :: u_int where "MMU_FAULT = MMU_PTF OR MMU_PF OR MMU_WPF OR MMU_BERR"
definition MMU_ENAB :: u_int where "MMU_ENAB = MMU_UMEN OR MMU_SMEN OR MMU_IEN OR MMU_FPE"

lemmas mmu_defs = MMU_UMEN_def MMU_SMEN_def MMU_CEN_def MMU_BERR_def MMU_IEN_def MMU_FPE_def MMU_WPF_def
  MMU_PF_def MMU_PTF_def MMU_FAULT_def MMU_ENAB_def
definition PMMU_LVLMASK :: u_int where "PMMU_LVLMASK = 0x7"
definition PMMU_INV :: u_int where "PMMU_INV = 0x400"
definition PMMU_WP :: u_int where "PMMU_WP = 0x800"
definition PMMU_ALV :: u_int where "PMMU_ALV = 0x1000"
definition PMMU_SO :: u_int where "PMMU_SO = 0x2000"
definition PMMU_LV :: u_int where "PMMU_LV = 0x4000"
definition PMMU_BE :: u_int where "PMMU_BE = 0x8000"
definition PMMU_FAULT :: u_int where "PMMU_FAULT = PMMU_WP OR PMMU_INV"

lemmas pmmu_defs = PMMU_LVLMASK_def PMMU_INV_def PMMU_WP_def PMMU_ALV_def PMMU_SO_def PMMU_LV_def
  PMMU_BE_def PMMU_FAULT_def
definition MMU4_RES :: u_int where "MMU4_RES = 0x1"
definition MMU4_TTR :: u_int where "MMU4_TTR = 0x2"
definition MMU4_WP :: u_int where "MMU4_WP = 0x4"
definition MMU4_MOD :: u_int where "MMU4_MOD = 0x10"
definition MMU4_CMMASK :: u_int where "MMU4_CMMASK = 0x60"
definition MMU4_SUP :: u_int where "MMU4_SUP = 0x80"
definition MMU4_U0 :: u_int where "MMU4_U0 = 0x100"
definition MMU4_U1 :: u_int where "MMU4_U1 = 0x200"
definition MMU4_GLB :: u_int where "MMU4_GLB = 0x400"
definition MMU4_BE :: u_int where "MMU4_BE = 0x800"

lemmas mmu4_defs = MMU4_RES_def MMU4_TTR_def MMU4_WP_def MMU4_MOD_def MMU4_CMMASK_def MMU4_SUP_def
  MMU4_U0_def MMU4_U1_def MMU4_GLB_def MMU4_BE_def
definition FC_USERD :: int where "FC_USERD = 1"
definition FC_USERP :: int where "FC_USERP = 2"
definition FC_PURGE :: int where "FC_PURGE = 3"
definition FC_SUPERD :: int where "FC_SUPERD = 5"
definition FC_SUPERP :: int where "FC_SUPERP = 6"
definition FC_CPU :: int where "FC_CPU = 7"

lemmas fc_defs = FC_USERD_def FC_USERP_def FC_PURGE_def FC_SUPERD_def FC_SUPERP_def FC_CPU_def
definition IC_ENABLE :: u_int where "IC_ENABLE = 0x1"
definition IC_FREEZE :: u_int where "IC_FREEZE = 0x2"
definition IC_CE :: u_int where "IC_CE = 0x4"
definition IC_CLR :: u_int where "IC_CLR = 0x8"
definition IC_BE :: u_int where "IC_BE = 0x10"
definition DC_ENABLE :: u_int where "DC_ENABLE = 0x100"
definition DC_FREEZE :: u_int where "DC_FREEZE = 0x200"
definition DC_CE :: u_int where "DC_CE = 0x400"
definition DC_CLR :: u_int where "DC_CLR = 0x800"
definition DC_BE :: u_int where "DC_BE = 0x1000"
definition DC_WA :: u_int where "DC_WA = 0x2000"
definition CACHE_ON :: u_int where "CACHE_ON = DC_WA OR DC_BE OR DC_CLR OR DC_ENABLE OR IC_BE OR IC_CLR OR IC_ENABLE"
definition CACHE_OFF :: u_int where "CACHE_OFF = DC_CLR OR IC_CLR"
definition CACHE_CLR :: u_int where "CACHE_CLR = CACHE_ON"
definition IC_CLEAR :: u_int where "IC_CLEAR = DC_WA OR DC_BE OR DC_ENABLE OR IC_BE OR IC_CLR OR IC_ENABLE"
definition DC_CLEAR :: u_int where "DC_CLEAR = DC_WA OR DC_BE OR DC_CLR OR DC_ENABLE OR IC_BE OR IC_ENABLE"

lemmas cache_defs = IC_ENABLE_def IC_FREEZE_def IC_CE_def IC_CLR_def IC_BE_def DC_ENABLE_def DC_FREEZE_def
  DC_CE_def DC_CLR_def DC_BE_def DC_WA_def CACHE_ON_def CACHE_OFF_def CACHE_CLR_def IC_CLEAR_def
  DC_CLEAR_def
definition IC4_ENABLE :: u_int where "IC4_ENABLE = 0x8000"
definition DC4_ENABLE :: u_int where "DC4_ENABLE = 0x80000000"
definition CACHE4_ON :: u_int where "CACHE4_ON = IC4_ENABLE OR DC4_ENABLE"
definition CACHE4_OFF :: u_int where "CACHE4_OFF = 0"

lemmas cache4_defs = IC4_ENABLE_def DC4_ENABLE_def CACHE4_ON_def CACHE4_OFF_def

section \<open>Properties\<close>

text \<open>The bits of the status word that must be zero are apart from the condition codes, the priority, the
  supervisor and the trace bit; a user may change none of the privileged ones.\<close>

lemma psl_bits: "PSL_MBZ AND (PSL_ALLCC OR PSL_IPL OR PSL_S OR PSL_T) = 0"
    "PSL_USERCLR AND (PSL_S OR PSL_IPL) = PSL_S OR PSL_IPL" "PSL_USERSET AND PSL_USERCLR = 0"
    "[PSL_IPL0, PSL_IPL1, PSL_IPL2, PSL_IPL3, PSL_IPL4, PSL_IPL5, PSL_IPL6, PSL_IPL7] = map (\<lambda>n. push_bit 8 (word_of_nat n)) [0..<8]"
  by (simp_all add: psl_defs PSL_IPL_def PSL_IPL7_def PSL_S_def upt_rec push_bit_eq_mult)

definition spl_functions :: "(u_short \<Rightarrow> u_int \<times> u_short) list" where
  "spl_functions = [spl1, spl2, spl3, spl4, spl5, spl6, spl7, splsoftclock, splnet, splbio, splimp, spltty, splclock,
     splstatclock, splvm, splhigh, splsched]"

text \<open>Sections of code within each other, each of the form \<open>s = splxxx(); ... splx(s);\<close>, with the status
  registers that are seen inside them.\<close>

fun sections :: "(u_short \<Rightarrow> u_int \<times> u_short) \<Rightarrow> (u_short \<Rightarrow> u_int \<times> u_short) list \<Rightarrow> u_short \<Rightarrow> u_short list \<times> u_short" where
  "sections spl0 [] sr = ([], sr)"
| "sections spl0 (f # fs) sr =
     (let (s, sr1) = f sr; (seen, sr2) = sections spl0 fs sr1; (r, sr3) = splx spl0 s sr2 in (sr1 # seen, sr3))"

lemma spl_function:
  assumes "f \<in> set spl_functions"
  shows "fst (f sr) = ucast sr \<and> snd (f sr) = snd (f sr') \<and> (ucast (snd (f sr)) :: u_int) AND PSL_IPL \<noteq> 0 \<and>
    (ucast (snd (f sr)) :: u_int) AND PSL_S \<noteq> 0"
  using assms by (auto simp: spl_functions_def spl_levels spl_def psl_defs PSL_IPL_def PSL_IPL7_def PSL_S_def)

lemma ucast_round: "ucast (ucast sr :: u_int) = sr" for sr :: u_short
  by (rule bit_word_eqI) (simp add: bit_simps)

text \<open>C32: Sections that block interrupts nest: inside each the processor is in supervisor mode at the level that was
  asked for, and at the end it is at the level it started from; if that level was zero, \<open>spl0\<close> is called
  once, by the end of the outermost section.\<close>

theorem spl_sections_nest:
  assumes "set fs \<subseteq> set spl_functions"
  shows "sections spl0 fs sr = (map (\<lambda>f. snd (f sr)) fs,
     if fs = [] \<or> (ucast sr :: u_int) AND PSL_IPL \<noteq> 0 then sr else snd (spl0 (snd (hd fs sr))))"
  using assms
proof (induction fs arbitrary: sr)
  case Nil
  then show ?case by simp
next
  case (Cons f fs)
  define sr1 where "sr1 = snd (f sr)"
  have f: "f sr = (ucast sr, sr1)" "(ucast sr1 :: u_int) AND PSL_IPL \<noteq> 0"
    using spl_function [of f sr sr] Cons.prems by (auto simp: prod_eq_iff sr1_def)
  have "map (\<lambda>g. snd (g sr1)) fs = map (\<lambda>g. snd (g sr)) fs" using spl_function Cons.prems by auto
  then have "sections spl0 fs sr1 = (map (\<lambda>g. snd (g sr)) fs, sr1)" using Cons f(2) by auto
  then show ?case by (simp add: f(1) splx_def spl_def ucast_round case_prod_beta)
qed

theorem spl_sections_nest_witness: "sections (\<lambda>sr. (0, 0)) [splnet, splimp] 0x2000 = ([0x2100, 0x2500], 0)"
proof -
  have "set [splnet, splimp] \<subseteq> set spl_functions" by (simp add: spl_functions_def)
  from spl_sections_nest [OF this, of "\<lambda>sr. (0, 0)" "0x2000"] show ?thesis
    by (simp add: spl_levels spl_def psl_defs PSL_IPL_def PSL_IPL7_def PSL_S_def)
qed

text \<open>The delay loop ends for every \<open>int\<close> but the smallest, after one pass less than its argument.\<close>

theorem delay_returns:
  "DELAY n = (if n = - (2 ^ 31) then None else Some (nat (n - 1)))"
proof -
  have "DELAY_loop (1 + int k) j = Some (j + k)" for j k
  proof (induction k arbitrary: j)
    case 0
    then show ?case by (subst DELAY_loop.simps) simp
  next
    case (Suc k)
    then show ?case by (subst DELAY_loop.simps) (simp add: add.commute)
  qed
  from this [of "nat (n - 1)" 0] have "DELAY_loop n 0 = Some (nat (n - 1))" if "1 \<le> n" using that by simp
  moreover have "DELAY_loop n 0 = Some 0" if "n < 1" "n \<noteq> - (2 ^ 31)" using that by (subst DELAY_loop.simps) simp
  moreover have "DELAY_loop (- (2 ^ 31)) 0 = None" by (subst DELAY_loop.simps) simp
  ultimately show ?thesis unfolding DELAY_def by (cases "1 \<le> n") auto
qed

text \<open>The relations between the parameters that the comments of \<open>sys/param.h\<close> and \<open>hp300/include/param.h\<close>
  demand: sizes and their logarithms, clusters within pages, the limits of the allocator, and the powers of
  two.\<close>

theorem param_constraints:
  "NBPG = push_bit PGSHIFT 1 \<and> NBSEG = push_bit SEGSHIFT 1 \<and> DEV_BSIZE = push_bit DEV_BSHIFT 1 \<and>
   CLSIZE = 2 ^ nat CLSIZELOG2 \<and> uint NBPG * CLSIZE = 2 ^ CLSHIFT \<and> MCLBYTES = 2 ^ MCLSHIFT \<and> MCLBYTES \<le> CLBYTES \<and>
   SSIZE mod CLSIZE = 0 \<and> SINCR mod CLSIZE = 0 \<and> UPAGES mod CLSIZE = 0 \<and>
   CLBYTES \<le> MAXALLOCSAVE \<and> MAXALLOCSAVE \<le> 2 ^ (MINBUCKET + 14) \<and> powerof2 (word_of_int CBLOCK) \<and>
   powerof2 (word_of_nat PATH_MAX) \<and> int PATH_MAX \<le> MAXBSIZE \<and> 8 \<le> (2 ^ MINBUCKET :: int)"
  by (simp add: page_defs segshift_defs blk_defs CLBYTES_def NBPG_def PGSHIFT_def DEV_BSIZE_def DEV_BSHIFT_def
      CLSHIFT_def MCLSHIFT_def push_bit_eq_mult powerof2_def CBLOCK_def PATH_MAX_def MAXBSIZE_def MCLBYTES_def minbucket_defs maxalloc_defs)

text \<open>The address space: the sections follow each other without a gap, and the window of the internal devices,
  512 pages, holds the registers of the MMU.\<close>

theorem io_sections:
  "ROMBASE < INTIOBASE \<and> INTIOTOP = EXTIOBASE \<and> EXTIOBASE = DIOBASE \<and> DIOTOP = DIOIIBASE \<and> DIOIITOP = EXTIOTOP \<and>
   EXTIOTOP < MAXADDR \<and> (DIOTOP - DIOBASE) mod DIOCSIZE = 0 \<and> (DIOIITOP - DIOIIBASE) div DIOIICSIZE = 256 - 132 \<and>
   (DIOIITOP - DIOIIBASE) mod DIOIICSIZE = 0 \<and> IIOMAPSIZE = 512 \<and>
   0 \<le> MMUBASE + MMUSSTP \<and> MMUBASE + MMUCMD < uint (ctob IIOMAPSIZE)"
  by (simp add: section_defs dio_defs INTIOBASE_def INTIOTOP_def IIOMAPSIZE_def btoc_def NBPG_def PGSHIFT_def
      MMUBASE_def IIOPOFF_def mmureg_defs ctob_def push_bit_eq_mult drop_bit_eq_div)

end
