(* ===== verification/Device.thy ===== *)
theory Device
  imports Cpu
begin

text \<open>
  Structures of the kernel without operations in the repository: devices and their configuration
  (\<open>sys/device.h\<close>), transfers (\<open>sys/uio.h\<close>), timeouts (\<open>sys/callout.h\<close>), counters (\<open>sys/dkstat.h\<close>), the
  stand-alone file system switch (\<open>stand/stand.h\<close>), the system call table (\<open>sys/systm.h\<close>), the variables
  of \<open>kern/kern_clock.c\<close> and \<open>net/bpf.c\<close>, and the macros by which \<open>ttyinfo\<close> of \<open>kern/tty.c\<close> compares two
  processes.  Pointers to functions are numbers, as in \<open>Net\<close>.
\<close>

section \<open>Devices\<close>

datatype devclass = DV_DULL | DV_CPU | DV_DISK | DV_IFNET | DV_TAPE | DV_TTY

record device =
  dv_class :: devclass
  dv_next :: addr
  dv_cfdata :: addr
  dv_unit :: int
  dv_xname :: "u_char list"
  dv_parent :: addr

record evcnt =
  ev_next :: addr
  ev_dev :: addr
  ev_count :: int
  ev_name :: "u_char list"

record cfdriver =
  cd_devs :: addr
  cd_name :: addr
  cd_match :: nat
  cd_attach :: nat
  cd_class :: devclass
  cd_devsize :: "64 word"
  cd_aux :: addr
  cd_ndevs :: int

record cfdata =
  cf_driver :: addr
  cf_unit :: c_short
  cf_fstate :: c_short
  cf_loc :: addr
  cf_flags :: int
  cf_parents :: addr
  cf_ivstubs :: addr

definition FSTATE_NOTFOUND :: c_short where "FSTATE_NOTFOUND = 0"
definition FSTATE_FOUND :: c_short where "FSTATE_FOUND = 1"
definition FSTATE_STAR :: c_short where "FSTATE_STAR = 2"

lemmas fstate_defs = FSTATE_NOTFOUND_def FSTATE_FOUND_def FSTATE_STAR_def
definition QUIET :: int where "QUIET = 0"
definition UNCONF :: int where "UNCONF = 1"
definition UNSUPP :: int where "UNSUPP = 2"

lemmas unconf_defs = QUIET_def UNCONF_def UNSUPP_def

record pdevinit =
  pdev_attach :: nat
  pdev_count :: int

section \<open>Transfers\<close>

record iovec =
  iov_base :: addr
  iov_len :: "64 word"

datatype uio_rw = UIO_READ | UIO_WRITE
datatype uio_seg = UIO_USERSPACE | UIO_SYSSPACE | UIO_USERISPACE

record uio =
  uio_iov :: addr
  uio_iovcnt :: int
  uio_offset :: int
  uio_resid :: int
  uio_segflg :: uio_seg
  uio_rw_of :: uio_rw
  uio_procp :: addr

definition UIO_MAXIOV :: int where "UIO_MAXIOV = 1024"
definition UIO_SMALLIOV :: int where "UIO_SMALLIOV = 8"

lemmas uio_defs = UIO_MAXIOV_def UIO_SMALLIOV_def

section \<open>Timeouts and counters\<close>

record callout =
  co_next :: addr
  c_arg :: addr
  c_func :: nat
  c_time :: int

definition CP_USER :: nat where "CP_USER = 0"
definition CP_NICE :: nat where "CP_NICE = 1"
definition CP_SYS :: nat where "CP_SYS = 2"
definition CP_INTR :: nat where "CP_INTR = 3"
definition CP_IDLE :: nat where "CP_IDLE = 4"
definition CPUSTATES :: nat where "CPUSTATES = 5"
definition DK_NDRIVE :: nat where "DK_NDRIVE = 8"

lemmas dkstat_defs = CP_USER_def CP_NICE_def CP_SYS_def CP_INTR_def CP_IDLE_def CPUSTATES_def DK_NDRIVE_def

record dkstat =
  cp_time :: "int list"
  dk_seek :: "int list"
  dk_time :: "int list"
  dk_wds :: "int list"
  dk_wpms :: "int list"
  dk_xfer :: "int list"
  dk_busy :: int
  dk_ndrive :: int
  tk_cancc :: int
  tk_nin :: int
  tk_nout :: int
  tk_rawcc :: int

text \<open>Without an initial value, C sets a variable to zero; \<open>kern_clock.c\<close> initialises \<open>dk_ndrive\<close>.\<close>

definition dkstat_init :: dkstat where
  "dkstat_init = \<lparr>cp_time = replicate CPUSTATES 0, dk_seek = replicate DK_NDRIVE 0, dk_time = replicate DK_NDRIVE 0,
     dk_wds = replicate DK_NDRIVE 0, dk_wpms = replicate DK_NDRIVE 0, dk_xfer = replicate DK_NDRIVE 0, dk_busy = 0,
     dk_ndrive = int DK_NDRIVE, tk_cancc = 0, tk_nin = 0, tk_nout = 0, tk_rawcc = 0\<rparr>"

record clock_vars =
  v_stathz :: int
  v_profhz :: int
  v_profprocs :: int
  v_ticks :: int
  v_psdiv :: int
  v_pscnt :: int
  v_psratio :: int
  v_time :: timeval
  v_mono_time :: timeval

section \<open>The stand-alone library and the system call table\<close>

record fs_ops =
  fs_open :: nat
  fs_close :: nat
  fs_read :: nat
  fs_write :: nat
  fs_seek :: nat
  fs_stat :: nat

record devsw =
  dvs_name :: addr
  dv_strategy :: nat
  dv_open :: nat
  dv_close :: nat
  dv_ioctl :: nat

record open_file =
  of_flags :: int
  of_dev :: addr
  of_devdata :: addr
  of_ops :: addr
  of_fsdata :: addr

definition SOPEN_MAX :: int where "SOPEN_MAX = 4"
definition F_READ :: int where "F_READ = 0x1"
definition F_WRITE :: int where "F_WRITE = 0x2"
definition F_RAW :: int where "F_RAW = 0x4"

lemmas stand_defs = SOPEN_MAX_def F_READ_def F_WRITE_def F_RAW_def

record sysent =
  sy_narg :: int
  sy_call :: nat

section \<open>Filter variables\<close>

definition NBPFILTER :: int where "NBPFILTER = 32"
definition BPF_BUFSIZE :: int where "BPF_BUFSIZE = 4096"
definition PRINET :: int where "PRINET = 26"

lemmas bpfvar_defs = NBPFILTER_def BPF_BUFSIZE_def PRINET_def
definition bpf_bufsize_init :: int where "bpf_bufsize_init = BPF_BUFSIZE"

section \<open>Comparing processes\<close>

definition ISRUN :: "proc \<Rightarrow> bool" where "ISRUN p \<longleftrightarrow> p_stat p = SRUN \<or> p_stat p = SIDL"
definition TESTAB :: "bool \<Rightarrow> bool \<Rightarrow> int" where
  "TESTAB a b = (push_bit 1 (if a then 1 else 0) OR (if b then 1 else 0))"
definition ONLYA :: int where "ONLYA = 2"
definition ONLYB :: int where "ONLYB = 1"
definition BOTH :: int where "BOTH = 3"

lemmas testab_defs = ONLYA_def ONLYB_def BOTH_def

text \<open>The value of \<open>TESTAB\<close> tells the four cases apart.\<close>

lemma testab_cases: "TESTAB a b = (if a \<and> b then BOTH else if a then ONLYA else if b then ONLYB else 0)"
  by (simp add: TESTAB_def testab_defs)

end
