(* ===== verification/Spec2Isabelle.thy ===== *)
theory Spec2Isabelle
  imports MbufProps CopyBack Queue IfProps InProps EtherProps SlipProps LeProps Stubs Tty Compress Inet Domain Compare Sock Param Reach SlipRun PrintProps Files CloseRun Proc Layout Link Device
begin

text \<open>
  A re-implementation of the BSD 4.4 network code after \<^emph>\<open>TCP/IP Illustrated, volume 2\<close>, built for
  64-bit Windows: network buffers, interfaces with three drivers, internet addresses, protocol
  switches, and many routines whose bodies are still empty.  This development models the program
  as it is, unfinished parts and errors included, and proves what its operations guarantee.

  \<^bold>\<open>Parts of the program and how they work together.\<close>
  A driver takes bytes from a device and makes a packet of them, a chain of mbufs
  (\<open>kern/uipc_mbuf.c\<close>), and puts it on the input queue of IP (\<open>net/if_ethersubr.c\<close> for Ethernet
  frames, \<open>net/if_sl.c\<close> for the characters of a serial line, \<open>net/if_loop.c\<close> for packets to
  the machine itself).  A packet to be sent goes the other way, through the output queue of an
  interface, from which the start routine of the driver takes it.  Interfaces are kept in a list and
  in a table of their link-level addresses (\<open>net/if.c\<close>), internet addresses in a list of their own
  (\<open>netinet/in.c\<close>); requests come in through \<open>ifioctl\<close>, which passes them on to the
  driver or the protocol.  Protocols are found in switch tables (\<open>kern/uipc_domain.c\<close>).

  \<^bold>\<open>Conventions.\<close>  A pointer is a natural number and \<open>0\<close> is \<open>NULL\<close>.  Code with no defined
  outcome has type option: \<open>None\<close> stands for an access outside a live object, an invalid
  \<open>free\<close>, an overlapping \<open>memcpy\<close>, or a loop that does not end; loops over linked
  structures are \<open>partial_function (option)\<close>, so no fuel is chosen anywhere and every theorem
  with a result of the form \<open>Some\<close> says that the code returns.  Loops with a counter are
  primitive recursive.  Signed \<open>int\<close> is \<open>int\<close>, the unsigned and the narrow types are words:
  \<open>long\<close> has 32 bits and a pointer 64, as on the target, from which the offsets and sizes of
  structures follow (an mbuf has 128 bytes, of which 40 are the header; an \<open>ifreq\<close> 32).  Memory
  is a record \<open>mem\<close> of mbufs and byte blocks; the number of requests that \<open>malloc\<close> still
  serves and what a fresh block holds are part of the state and arbitrary.

  \<^bold>\<open>The theories, from the bottom.\<close>
  \<^item> \<open>Prelude\<close>: scalar types, flags, byte strings, linked chains, the locale
    \<open>list_search\<close> for the search loops.
  \<^item> \<open>Mem\<close>: the heap, \<open>struct mbuf\<close> of \<open>sys/mbuf.h\<close>, \<open>malloc\<close>, \<open>free\<close>, reads and writes.
  \<^item> \<open>Mbuf\<close>: the macros of \<open>sys/mbuf.h\<close> and every function of \<open>kern/uipc_mbuf.c\<close>.
    \<open>MbufFacts\<close>, \<open>MbufChain\<close>, \<open>MbufCopy\<close>, \<open>MbufOps\<close> hold their lemmas (the
    locale \<open>mbuf_alloc\<close> is the contract of the five allocators; \<open>mbuf_step\<close> is the relation of
    all calls), \<open>MbufProps\<close> the properties, \<open>CopyBack\<close> those of
    \<open>m_copyback\<close>.
  \<^item> \<open>Queue\<close>: \<open>ifqueue\<close> of \<open>net/if.h\<close>; the locales \<open>packet_queue\<close> and \<open>packet_deque\<close>
    are its contract as an abstract queue.
  \<^item> \<open>Consts\<close>, \<open>Endian\<close>, \<open>Inet\<close>, \<open>Clock\<close>, \<open>Param\<close>: error numbers and request
    codes, byte order, address classes, time values, pages and bit maps and table sizes.
  \<^item> \<open>Domain\<close>: switch tables, \<open>pffindtype\<close>, \<open>pffindproto\<close> and the loops that call hooks.
  \<^item> \<open>Net\<close>: the record \<open>net\<close> of all interfaces, addresses, routes and global variables.
  \<^item> \<open>If\<close> and \<open>IfReq\<close>: \<open>net/if.c\<close>; properties in \<open>IfProps\<close>.
  \<^item> \<open>In\<close>: \<open>netinet/in.c\<close> and the macros of \<open>netinet/in_var.h\<close>; properties in \<open>InProps\<close>.
  \<^item> \<open>Loop\<close>, \<open>Ether\<close>: \<open>net/if_loop.c\<close>, \<open>net/if_ethersubr.c\<close>; properties in \<open>EtherProps\<close>.
  \<^item> \<open>Tty\<close>, \<open>Slip\<close>: terminals and the SLIP line discipline \<open>net/if_sl.c\<close>, with the record
    \<open>slip\<close> around \<open>net\<close>; properties in \<open>SlipProps\<close>.
  \<^item> \<open>Le\<close>: the LANCE driver \<open>hp300/dev/if_le.c\<close>, with the record \<open>lest\<close> around
    \<open>net\<close>; properties in \<open>LeProps\<close>.
  \<^item> \<open>Sock\<close>: socket buffers, \<open>sys/socketvar.h\<close>.  \<open>Compress\<close>: the number encoding of
    \<open>net/slcompress.c\<close>.  \<open>Stubs\<close>: the functions with empty bodies in \<open>net/route.c\<close>,
    \<open>net/radix.c\<close>, \<open>net/bpf.c\<close>, \<open>netinet/if_ether.c\<close>, \<open>netinet/ip_input.c\<close> and
    \<open>kern/kern_clock.c\<close>, which leave their state unchanged.
  \<^item> \<open>Boot\<close>: the attach calls of \<open>main.c\<close> on one state.  \<open>Compare\<close>: \<open>mbuf_equal\<close> of
    \<open>test.c\<close>.  \<open>Print\<close>: the other functions of \<open>test.c\<close>, with the bytes they print as their
    result.  \<open>MainRun\<close>: the chapters of \<open>main\<close> of \<open>main.c\<close> on the booted machine; properties of
    both in \<open>PrintProps\<close>.
  \<^item> \<open>Quiet\<close>, \<open>QuietDev\<close>: which operations leave the interface structures as they are.
    \<open>NetInv\<close>, \<open>NetOps\<close>: the invariant \<open>net_ok\<close> of these structures, and that the requests, the
    attach routines and the drivers keep it.  \<open>Reach\<close>: the states the machine can reach by any
    calls of the modelled entry points (\<open>machine_reach\<close>), and by those that attach an interface only
    while it is not in the list (\<open>machine_run\<close>), the invariant on the latter, and the attach calls of
    \<open>main.c\<close> as one such run.  \<open>SlipRun\<close>: the input buffer of a serial line under any calls.
  \<^item> \<open>Cluster\<close>: the pool of clusters of \<open>sys/mbuf.h\<close>.  \<open>CloseRun\<close>: that no run sets the pool up.
  \<^item> \<open>Files\<close>, \<open>Signal\<close>, \<open>KMem\<close>, \<open>Proc\<close>: the kernel headers on descriptor sets, file modes and flags,
    signals and logging, memory types, and processes with their sessions and credentials; the locale
    \<open>bit_table\<close> is the contract of a table of bits.  \<open>Device\<close>: structures without operations.
  \<^item> \<open>Names\<close>, \<open>RouteTab\<close>, \<open>BpfLang\<close>, \<open>IpHdr\<close>, \<open>Link\<close>: numbers, name tables and structures of the network
    headers: errors, options and requests; routes and radix nodes; the packet filter language; the
    internet protocol; compression states, OSI addresses, ARP and chip registers.
  \<^item> \<open>Termios\<close>, \<open>Ioctls\<close>: terminal settings and all command codes.  \<open>Cpu\<close>: status word, interrupt
    priorities, address space and system parameters.
  \<^item> \<open>Layout\<close>: sizes and offsets of structures, computed from their fields for pointers of four and of
    eight bytes; \<open>model_layout\<close> compares them with the numbers the other theories use.
  \<^item> \<open>Demo\<close>, \<open>DemoNet\<close>: concrete states on which the properties are instantiated.

  \<^bold>\<open>What is proved.\<close>  A property carries a number; where it has hypotheses, a theorem with the
  suffix \<open>witness\<close> applies it to a concrete state.
  \<^item> Buffers: the form of what the allocators return; \<open>m_devget\<close>, \<open>m_copyback\<close>,
    \<open>m_copydata\<close>, \<open>m_cat\<close>, \<open>m_adj\<close>, \<open>m_freem\<close> as functions on the byte string that a
    chain holds; what goes wrong in \<open>m_free\<close>, \<open>m_copyback\<close>, \<open>m_pullup\<close>, \<open>m_getclr\<close> and in \<open>m_adj\<close> beyond
    the end or with a negative length.
  \<^item> Queues: first in, first out, as a refinement of a list; \<open>if_qflush\<close> releases every
    mbuf and every recorded external buffer.
  \<^item> Interfaces: the list, the indices and the table stay consistent when an interface is
    attached; \<open>main\<close> attaches 34 of them; lookups are searches of those lists.
  \<^item> Serial lines: a frame escaped as RFC 1055 demands is collected as the packet itself; what
    happens at its end; \<open>slstart\<close> with too few characters free and nothing left to put out empties
    the queues.
  \<^item> Ethernet, loopback and LANCE: which packets are delivered, dropped, freed or lost.
  \<^item> Internet addresses: stepping with \<open>IN_NEXT_MULTI\<close> visits every record; the requests that read and
    write addresses; broadcast addresses.
  \<^item> The whole machine: in every state reached by calls that attach an interface only while it is
    not in the list, the interface list, the index, the table of link-level addresses and the lists
    of internet addresses are consistent, and so every lookup returns; booting is such a sequence,
    and attaching twice makes the list a cycle.  After any calls whatever, the input pointer of every
    serial line is inside its buffer.
  \<^item> The test program: its printing functions show the lists in the order of the links, and the
    run of chapter 3 of \<open>main\<close> ends.
  \<^item> Clusters: what is taken from the pool can be given back; but in every state of a run the pool is
    missing, so an open serial line is never closed.
  \<^item> Kernel headers: descriptor sets are sets, sessions live as long as they are held, sections that
    block interrupts nest, routes are never released, flags of a word are independent, codes are
    unambiguous and taken apart into the fields they were made from, and the overlays on packets and
    device memory have the layout that their comments demand, where they have.
  \<^item> Switch tables, byte order, ioctl encoding, number encoding, clock, character classes,
    socket buffers: functional descriptions and round trips,
    and what the number encoding loses.

  \<^bold>\<open>Parameters.\<close>  What is reached through function pointers that the repository does not
  define is the record \<open>env\<close> (protocol tables and hooks, driver requests, watchdogs and start
  routines), the argument \<open>oproc\<close> of \<open>slstart\<close> and the status bits read from the chip; so are
  the contents of uninitialised local structures, \<open>imin\<close>, \<open>sb_lock\<close> and the flag bits
  of protocols, which are declared nowhere.  The theorems on the whole machine assume of the hooks
  that they do not rewrite the interface structures behind the back of the code
  (\<open>drivers_quiet\<close>, \<open>usrreq_control\<close>, \<open>oproc_quiet\<close>), collected in \<open>hooks_ok\<close>;
  a concrete environment satisfies them.  How \<open>printf\<close> shows a pointer (\<open>%p\<close>) is a function
  argument of the printing functions.

  The functions \<open>m_clalloc\<close>, \<open>spl0\<close>, \<open>addupc_task\<close> and \<open>FREE\<close>, and the constants of the missing
  \<open>sys/sysctl.h\<close>, are arguments of the definitions that use them.

  \<^bold>\<open>Not modelled.\<close>  Stores of \<open>main.c\<close> to local structures that nothing reads afterwards; prototypes,
  external declarations and include guards; the macros \<open>IN_FIRST_MULTI\<close>, \<open>ETHER_FIRST_MULTI\<close>,
  \<open>MKGet\<close>, \<open>Bzero\<close> and the function types of
  \<open>sys/device.h\<close> and \<open>sys/select.h\<close>, whose parentheses do not match; the names of types in
  \<open>sys/types.h\<close> and \<open>hp300/include/ansi.h\<close> beyond the scalar types of \<open>Prelude\<close>; \<open>NPTEPG\<close>, whose
  structure is defined nowhere; the project files.  Interrupts do not preempt code in the model, as no
  interrupt handler of the repository has a body.
\<close>

end
